(* ===== verification/Prelude.thy ===== *)
theory Prelude
  imports Complex_Main "HOL-Library.Word"
begin

text \<open>
  Shared vocabulary of the development: the machine integers and byte strings the
  network stack works on, the failure value of the Rust code
  (\<^verbatim>\<open>src/rust/runtime/fail.rs\<close>), the outcome of an operation that may return, fail or
  panic, and big-endian (network order) reads and writes. Unsigned arithmetic wraps, as
  in the repository's release profile (\<^verbatim>\<open>overflow-checks = false\<close>).
\<close>

unbundle bit_operations_syntax

section \<open>Machine types\<close>

type_synonym u8 = "8 word"
type_synonym u16 = "16 word"
type_synonym u32 = "32 word"
type_synonym bytes = "u8 list"
type_synonym ipv4addr = "32 word"
type_synonym sockaddr = "ipv4addr \<times> u16"
type_synonym qdesc = nat

text \<open>Times are seconds, held exactly.\<close>

type_synonym instant = rat
type_synonym duration = rat

text \<open>Rules that open definitions of straight-line byte code.\<close>

named_theorems wire_defs "definitions of the wire formats"

section \<open>Failures and outcomes\<close>

datatype errno = EBADMSG | ENOTSUP | EINVAL | EBUSY | EIO | EBADF | EADDRINUSE | ENOENT
  | ENOTCONN | EOPNOTSUPP | EDESTADDRREQ | EALREADY | EISCONN | EAGAIN | EINPROGRESS
  | ECONNREFUSED | ETCPMIG | ERANGE | ETIMEDOUT | EEXIST

record fail =
  errno :: errno
  cause :: string

definition fail_new :: "errno \<Rightarrow> string \<Rightarrow> fail" where
  "fail_new e c = \<lparr>errno = e, cause = c\<rparr>"

text \<open>
  \<open>Ok\<close> and \<open>Err\<close> are the two sides of \<^verbatim>\<open>Result<_, Fail>\<close>; \<open>Panic\<close> is an aborted
  process (\<^verbatim>\<open>panic!\<close>, \<^verbatim>\<open>unwrap\<close>, \<^verbatim>\<open>expect\<close>, an index out of range).
\<close>

datatype 'a outcome = Ok 'a | Err fail | Panic

definition fail_of_io_error :: fail where
  "fail_of_io_error = fail_new EIO ''I/O error''"

fun bind_out :: "'a outcome \<Rightarrow> ('a \<Rightarrow> 'b outcome) \<Rightarrow> 'b outcome" where
  "bind_out (Ok x) f = f x"
| "bind_out (Err e) f = Err e"
| "bind_out Panic f = Panic"

lemma bind_out_Ok_iff [simp]: "bind_out m f = Ok y \<longleftrightarrow> (\<exists>x. m = Ok x \<and> f x = Ok y)"
  by (cases m) auto

lemma bind_out_Panic_iff: "bind_out m f = Panic \<longleftrightarrow> m = Panic \<or> (\<exists>x. m = Ok x \<and> f x = Panic)"
  by (cases m) auto

text \<open>An operation that can only return or panic yields an \<open>option\<close>.\<close>

definition expect :: "'a option \<Rightarrow> 'a outcome" where
  "expect m = (case m of None \<Rightarrow> Panic | Some x \<Rightarrow> Ok x)"

lemma expect_simps [simp]: "expect None = Panic" "expect (Some x) = Ok x"
  by (simp_all add: expect_def)

section \<open>Network byte order\<close>

definition be16 :: "u16 \<Rightarrow> bytes" where
  "be16 w = [ucast (drop_bit 8 w), ucast w]"

definition be32 :: "u32 \<Rightarrow> bytes" where
  "be32 w = [ucast (drop_bit 24 w), ucast (drop_bit 16 w), ucast (drop_bit 8 w), ucast w]"

definition mk16 :: "u8 \<Rightarrow> u8 \<Rightarrow> u16" where
  "mk16 a b = push_bit 8 (ucast a) OR ucast b"

definition mk32 :: "u8 \<Rightarrow> u8 \<Rightarrow> u8 \<Rightarrow> u8 \<Rightarrow> u32" where
  "mk32 a b c d = push_bit 24 (ucast a) OR push_bit 16 (ucast b) OR push_bit 8 (ucast c) OR ucast d"

text \<open>Reads at an offset. The callers have checked the bounds; \<open>get_*\<close> below do not rely on it.\<close>

definition read_u16 :: "bytes \<Rightarrow> nat \<Rightarrow> u16" where
  "read_u16 bs i = mk16 (bs ! i) (bs ! (i + 1))"

definition read_u32 :: "bytes \<Rightarrow> nat \<Rightarrow> u32" where
  "read_u32 bs i = mk32 (bs ! i) (bs ! (i + 1)) (bs ! (i + 2)) (bs ! (i + 3))"

text \<open>A write of consecutive bytes into a buffer (\<^verbatim>\<open>copy_from_slice\<close>, \<^verbatim>\<open>write_u16\<close>, ...).\<close>

definition write_at :: "nat \<Rightarrow> bytes \<Rightarrow> bytes \<Rightarrow> bytes" where
  "write_at i bs buf = take i buf @ bs @ drop (i + length bs) buf"

lemma bit_u8_high [simp]: "8 \<le> n \<Longrightarrow> \<not> bit (w :: u8) n"
  using bit_imp_le_length [of w n] by auto

lemma mk16_be16 [simp]: "mk16 (ucast (drop_bit 8 w)) (ucast w) = w"
  unfolding mk16_def
  by (rule bit_word_eqI) (auto simp: bit_simps not_le not_less)

lemma mk32_be32 [simp]:
  "mk32 (ucast (drop_bit 24 w)) (ucast (drop_bit 16 w)) (ucast (drop_bit 8 w)) (ucast w) = w"
proof (rule bit_word_eqI)
  fix n :: nat
  assume "n < LENGTH(32)"
  then consider "n < 8" | "8 \<le> n" "n < 16" | "16 \<le> n" "n < 24" | "24 \<le> n" "n < 32"
    by fastforce
  then show "bit (mk32 (ucast (drop_bit 24 w)) (ucast (drop_bit 16 w)) (ucast (drop_bit 8 w)) (ucast w)) n
    \<longleftrightarrow> bit w n"
    by cases (auto simp: mk32_def bit_simps)
qed

lemma be16_mk16 [simp]: "be16 (mk16 a b) = [a, b]"
  unfolding be16_def mk16_def
  by (auto intro!: bit_word_eqI simp: bit_simps not_le)

lemma be32_mk32 [simp]: "be32 (mk32 a b c d) = [a, b, c, d]"
  unfolding be32_def mk32_def
  by (auto intro!: bit_word_eqI simp: bit_simps not_le)

lemma length_be16 [simp]: "length (be16 w) = 2"
  by (simp add: be16_def)

lemma length_be32 [simp]: "length (be32 w) = 4"
  by (simp add: be32_def)

lemma length_write_at [simp]:
  "i + length bs \<le> length buf \<Longrightarrow> length (write_at i bs buf) = length buf"
  by (simp add: write_at_def)

text \<open>A write past a finished prefix leaves the prefix alone.\<close>

lemma write_at_0: "write_at 0 bs buf = bs @ drop (length bs) buf"
  by (simp add: write_at_def)

lemma write_at_skip: "length p \<le> i \<Longrightarrow> write_at i bs (p @ r) = p @ write_at (i - length p) bs r"
  by (simp add: write_at_def)

lemma write_at_Cons: "0 < i \<Longrightarrow> write_at i bs (x # r) = x # write_at (i - 1) bs r"
  by (cases i) (simp_all add: write_at_def)

lemmas write_simps = write_at_0 write_at_skip write_at_Cons

text \<open>The half-open slice \<^verbatim>\<open>&bs[i..j]\<close>, for bounds the caller has checked.\<close>

definition slice :: "nat \<Rightarrow> nat \<Rightarrow> bytes \<Rightarrow> bytes" where
  "slice i j bs = take (j - i) (drop i bs)"

lemma length_slice [simp]: "length (slice i j bs) = min (j - i) (length bs - i)"
  by (simp add: slice_def)

lemma read_u32_append: "i = length p \<Longrightarrow> read_u32 (p @ be32 w @ s) i = w"
  by (simp add: read_u32_def be32_def nth_append)

lemma read_u16_append: "i = length p \<Longrightarrow> read_u16 (p @ be16 w @ s) i = w"
  by (simp add: read_u16_def be16_def nth_append)

lemma read_u32_be32 [simp]: "read_u32 (be32 w @ s) 0 = w"
  using read_u32_append [of 0 "[]"] by simp

lemma read_u16_be16 [simp]: "read_u16 (be16 w @ s) 0 = w"
  using read_u16_append [of 0 "[]"] by simp

section \<open>Words and natural numbers\<close>

lemma unat_of_nat_u32: "n < 2 ^ 32 \<Longrightarrow> unat (of_nat n :: u32) = n"
  by (simp add: unat_of_nat take_bit_nat_eq_self)

lemma unat_of_nat_u16: "n < 2 ^ 16 \<Longrightarrow> unat (of_nat n :: u16) = n"
  by (simp add: unat_of_nat take_bit_nat_eq_self)

lemma unat_minus_one_u32 [simp]: "unat (- 1 :: u32) = 4294967295"
  by (simp add: unsigned_minus_1_eq_mask mask_eq_exp_minus_1)

lemma take_bit_u8_self: "unat (w :: u8) < 2 ^ n \<Longrightarrow> take_bit n w = w"
  by (simp add: word_unat_eq_iff unsigned_take_bit_eq take_bit_nat_eq_self)

lemma bit_u8_bounded: "unat (w :: u8) < 2 ^ n \<Longrightarrow> bit w k \<Longrightarrow> k < n"
  by (metis bit_take_bit_iff take_bit_u8_self)

lemma length_2_list: "length xs = 2 \<Longrightarrow> \<exists>a b. xs = [a, b]"
  by (auto simp: numeral_eq_Suc length_Suc_conv)

lemma length_4_list: "length xs = 4 \<Longrightarrow> \<exists>a b c d. xs = [a, b, c, d]"
  by (auto simp: numeral_eq_Suc length_Suc_conv)

section \<open>One's-complement checksum folding\<close>

text \<open>
  The loop \<^verbatim>\<open>while state > 0xFFFF { state -= 0xFFFF; }\<close> shared by the IPv4, ICMPv4, UDP
  and TCP checksums.
\<close>

function fold_ffff :: "u32 \<Rightarrow> u32" where
  "fold_ffff s = (if s > 0xFFFF then fold_ffff (s - 0xFFFF) else s)"
  by pat_completeness auto
termination
proof (relation "measure unat")
  fix s :: u32
  assume "s > 0xFFFF"
  then have "s - 0xFFFF < s"
    by uint_arith
  then show "(s - 0xFFFF, s) \<in> measure unat"
    by (simp add: word_less_nat_alt)
qed simp

declare fold_ffff.simps [simp del]

definition checksum_finish :: "u32 \<Rightarrow> u16" where
  "checksum_finish s = ucast (NOT (fold_ffff s))"

text \<open>The reference: reduction of the sum modulo \<open>0xFFFF\<close> into \<open>1 .. 0xFFFF\<close>.\<close>

definition ones_sum :: "nat \<Rightarrow> nat" where
  "ones_sum n = (n - 1) mod 0xFFFF + 1"

lemma fold_ffff_unat: "0 < s \<Longrightarrow> unat (fold_ffff s) = ones_sum (unat s)"
proof (induction s rule: fold_ffff.induct)
  case (1 s)
  show ?case
  proof (cases "s > 0xFFFF")
    case True
    then have u: "unat (s - 0xFFFF) = unat s - 0xFFFF" and lt: "0xFFFF < unat s"
      by (simp_all add: unat_sub word_le_nat_alt word_less_nat_alt)
    from True have "0 < s - 0xFFFF"
      by uint_arith
    with "1.IH" True have "unat (fold_ffff (s - 0xFFFF)) = ones_sum (unat s - 0xFFFF)"
      using u by simp
    also have "\<dots> = ones_sum (unat s)"
      using lt by (simp add: ones_sum_def le_mod_geq)
    finally show ?thesis
      using True by (subst fold_ffff.simps) simp
  next
    case False
    then have "unat s \<le> 0xFFFF" and "0 < unat s"
      using "1.prems" by (simp_all add: word_less_nat_alt unat_gt_0)
    with False show ?thesis
      by (subst fold_ffff.simps) (simp add: ones_sum_def)
  qed
qed

lemma ones_sum_bounds: "1 \<le> ones_sum n \<and> ones_sum n \<le> 0xFFFF"
  by (simp add: ones_sum_def less_Suc_eq_le [symmetric])

text \<open>A finished checksum of a non-zero sum is the complement of the reduced sum, and never \<open>0xFFFF\<close>.\<close>

lemma checksum_finish_unat:
  assumes "0 < s"
  shows "unat (checksum_finish s) = 0xFFFF - ones_sum (unat s)"
proof -
  define t where "t = fold_ffff s"
  have t: "unat t = ones_sum (unat s)"
    using assms by (simp add: t_def fold_ffff_unat)
  have le: "unat t \<le> 0xFFFF"
    using t ones_sum_bounds by simp
  have eq: "checksum_finish s = NOT (ucast t :: u16)"
    unfolding checksum_finish_def t_def [symmetric]
    by (rule bit_word_eqI) (simp add: bit_simps)
  have "unat (NOT (ucast t :: u16)) = 0xFFFF - unat (ucast t :: u16)"
  proof -
    have "NOT (ucast t :: u16) = - 1 - ucast t"
      by (simp add: not_eq_complement)
    then show ?thesis
      using unat_sub [of "ucast t :: u16" "- 1"] by (simp add: unat_word_ariths unsigned_minus_1_eq_mask mask_eq_exp_minus_1)
  qed
  moreover have "unat (ucast t :: u16) = unat t"
    using le by (simp add: unsigned_ucast_eq take_bit_nat_eq_self)
  ultimately show ?thesis
    using eq t by simp
qed

lemma checksum_finish_not_ffff: "0 < s \<Longrightarrow> checksum_finish s \<noteq> 0xFFFF"
proof -
  assume "0 < s"
  then have "unat (checksum_finish s) = 0xFFFF - ones_sum (unat s)"
    by (rule checksum_finish_unat)
  then have "unat (checksum_finish s) < 0xFFFF"
    using ones_sum_bounds [of "unat s"] by linarith
  then show ?thesis
    by auto
qed

text \<open>
  The payload part of the checksums: 16-bit big-endian chunks, an odd last byte padded with zero
  (\<^verbatim>\<open>chunks_exact(2)\<close> and its \<^verbatim>\<open>remainder()\<close>).
\<close>

fun add_chunks :: "bytes \<Rightarrow> u32 \<Rightarrow> u32" where
  "add_chunks (a # b # r) st = add_chunks r (st + ucast (mk16 a b))"
| "add_chunks [b] st = st + ucast (mk16 b 0)"
| "add_chunks [] st = st"

fun chunk_sum :: "bytes \<Rightarrow> nat" where
  "chunk_sum (a # b # r) = unat (mk16 a b) + chunk_sum r"
| "chunk_sum [b] = unat (mk16 b 0)"
| "chunk_sum [] = 0"

lemma unat_ucast_u16 [simp]: "unat (ucast (w :: u16) :: u32) = unat w"
  by (simp add: unsigned_ucast_eq take_bit_nat_eq_self unsigned_less [THEN less_trans])

lemma unat_u16_less: "unat (w :: u16) < 65536"
  using unsigned_less [of w, where 'a = nat] by simp

lemma unat_add_u16:
  "unat (st :: u32) + 65535 < 2 ^ 32 \<Longrightarrow> unat (st + ucast (w :: u16)) = unat st + unat w"
  using unat_u16_less [of w] by (simp add: unat_word_ariths)

lemma chunk_sum_le: "chunk_sum bs \<le> 65535 * length bs"
proof (induction bs rule: chunk_sum.induct)
  case (1 a b r)
  then show ?case using unat_u16_less [of "mk16 a b"] by simp
next
  case (2 b)
  then show ?case using unat_u16_less [of "mk16 b 0"] by simp
qed simp

text \<open>The accumulator does not overflow on payloads below \<open>2 ^ 16\<close> bytes.\<close>

lemma add_chunks_unat:
  "unat st + 65535 * length bs < 2 ^ 32 \<Longrightarrow> unat (add_chunks bs st) = unat st + chunk_sum bs"
proof (induction bs st rule: add_chunks.induct)
  case (1 a b r st)
  have "unat (st + ucast (mk16 a b)) = unat st + unat (mk16 a b)"
    using "1.prems" by (intro unat_add_u16) simp
  moreover have "unat (mk16 a b) \<le> 65535"
    using unat_u16_less [of "mk16 a b"] by simp
  ultimately show ?case
    using 1 by simp
next
  case (2 b st)
  then show ?case by (simp add: unat_add_u16)
qed simp

end
