(* ===== verification/Buffers.thy ===== *)
theory Buffers
  imports Prelude
begin

text \<open>
  Byte buffers (\<^verbatim>\<open>src/rust/runtime/memory/buffer/\<close>). A \<open>data_buffer\<close> is a window
  \<open>offset .. offset + len\<close> into a shared byte array; \<open>adjust\<close> and \<open>trim\<close> narrow the
  window from either end and panic past it. The locale \<open>byte_buffer\<close> is the contract
  the protocol code relies on: a buffer is the byte string it shows. It is interpreted on
  \<open>data_buffer\<close> and on plain byte strings, which stand for buffers in the other theories.
\<close>

section \<open>The heap buffer\<close>

record data_buffer =
  db_data :: "bytes option"
  db_offset :: nat
  db_len :: nat

definition db_adjust :: "nat \<Rightarrow> data_buffer \<Rightarrow> data_buffer option" where
  "db_adjust nbytes b =
     (if nbytes > db_len b then None
      else Some (b\<lparr>db_offset := db_offset b + nbytes, db_len := db_len b - nbytes\<rparr>))"

definition db_trim :: "nat \<Rightarrow> data_buffer \<Rightarrow> data_buffer option" where
  "db_trim nbytes b =
     (if nbytes > db_len b then None else Some (b\<lparr>db_len := db_len b - nbytes\<rparr>))"

definition db_new :: "nat \<Rightarrow> data_buffer outcome" where
  "db_new capacity =
     (if capacity = 0 then Err (fail_new EINVAL ''zero-capacity buffer'')
      else Ok \<lparr>db_data = Some (replicate capacity 0), db_offset = 0, db_len = capacity\<rparr>)"

definition db_empty :: data_buffer where
  "db_empty = \<lparr>db_data = None, db_offset = 0, db_len = 0\<rparr>"

definition db_from_slice :: "bytes \<Rightarrow> data_buffer" where
  "db_from_slice src = \<lparr>db_data = Some src, db_offset = 0, db_len = length src\<rparr>"

text \<open>\<^verbatim>\<open>Deref\<close>: the shown slice; slicing past the array panics.\<close>

definition db_deref :: "data_buffer \<Rightarrow> bytes option" where
  "db_deref b = (case db_data b of
     None \<Rightarrow> Some []
   | Some d \<Rightarrow> (if db_offset b + db_len b \<le> length d
               then Some (take (db_len b) (drop (db_offset b) d)) else None))"

definition db_inv :: "data_buffer \<Rightarrow> bool" where
  "db_inv b \<longleftrightarrow> (case db_data b of
     None \<Rightarrow> db_len b = 0
   | Some d \<Rightarrow> db_offset b + db_len b \<le> length d)"

definition db_view :: "data_buffer \<Rightarrow> bytes" where
  "db_view b = (case db_deref b of None \<Rightarrow> [] | Some v \<Rightarrow> v)"

section \<open>Buffers as byte strings\<close>

definition buf_adjust :: "nat \<Rightarrow> bytes \<Rightarrow> bytes option" where
  "buf_adjust nbytes b = (if nbytes > length b then None else Some (drop nbytes b))"

definition buf_trim :: "nat \<Rightarrow> bytes \<Rightarrow> bytes option" where
  "buf_trim nbytes b = (if nbytes > length b then None else Some (take (length b - nbytes) b))"

section \<open>The contract\<close>

locale byte_buffer =
  fixes view :: "'b \<Rightarrow> bytes"
    and inv :: "'b \<Rightarrow> bool"
    and adjust :: "nat \<Rightarrow> 'b \<Rightarrow> 'b option"
    and trim :: "nat \<Rightarrow> 'b \<Rightarrow> 'b option"
  assumes adjust_view: "inv b \<Longrightarrow> map_option view (adjust n b) = buf_adjust n (view b)"
    and trim_view: "inv b \<Longrightarrow> map_option view (trim n b) = buf_trim n (view b)"
    and adjust_inv: "inv b \<Longrightarrow> adjust n b = Some b' \<Longrightarrow> inv b'"
    and trim_inv: "inv b \<Longrightarrow> trim n b = Some b' \<Longrightarrow> inv b'"
begin

lemma adjust_defined: "inv b \<Longrightarrow> adjust n b \<noteq> None \<longleftrightarrow> n \<le> length (view b)"
  using adjust_view [of b n] by (auto simp: buf_adjust_def split: if_splits)

lemma trim_defined: "inv b \<Longrightarrow> trim n b \<noteq> None \<longleftrightarrow> n \<le> length (view b)"
  using trim_view [of b n] by (auto simp: buf_trim_def split: if_splits)

text \<open>
  The idiom of the send queue, the migration fragmenter and the state decoder: clone a
  buffer, keep the first \<open>n\<close> bytes in the clone and the rest in the original.
\<close>

lemma split_off:
  assumes "inv b" and "n \<le> length (view b)"
  shows "\<exists>h t. trim (length (view b) - n) b = Some h \<and> adjust n b = Some t \<and> inv h \<and> inv t
    \<and> view h = take n (view b) \<and> view t = drop n (view b) \<and> view h @ view t = view b"
proof -
  from assms obtain h t
    where h: "trim (length (view b) - n) b = Some h" and t: "adjust n b = Some t"
    using adjust_defined trim_defined by (metis diff_le_self not_None_eq)
  have "view h = take n (view b)"
    using trim_view [OF assms(1), of "length (view b) - n"] h assms(2) by (simp split: if_splits add: buf_trim_def)
  moreover have "view t = drop n (view b)"
    using adjust_view [OF assms(1), of n] t assms(2) by (simp add: buf_adjust_def)
  ultimately show ?thesis
    using h t assms(1) adjust_inv trim_inv by (metis append_take_drop_id)
qed

end

section \<open>Both models meet the contract\<close>

lemma db_view_simps:
  "db_data b = None \<Longrightarrow> db_view b = []"
  "db_data b = Some d \<Longrightarrow> db_offset b + db_len b \<le> length d \<Longrightarrow>
     db_view b = take (db_len b) (drop (db_offset b) d)"
  by (simp_all add: db_view_def db_deref_def)

lemma db_view_length: "db_inv b \<Longrightarrow> length (db_view b) = db_len b"
  by (cases "db_data b") (auto simp: db_inv_def db_view_simps)

lemma db_adjust_view: "db_inv b \<Longrightarrow> map_option db_view (db_adjust n b) = buf_adjust n (db_view b)"
  using db_view_length [of b]
  by (cases "db_data b")
    (auto simp: db_inv_def db_adjust_def buf_adjust_def db_view_simps drop_take add.commute)

lemma db_trim_view: "db_inv b \<Longrightarrow> map_option db_view (db_trim n b) = buf_trim n (db_view b)"
  using db_view_length [of b]
  by (cases "db_data b") (auto simp: db_inv_def db_trim_def buf_trim_def db_view_simps min_def)

interpretation db: byte_buffer db_view db_inv db_adjust db_trim
proof unfold_locales
  show "db_inv b'" if "db_inv b" "db_adjust n b = Some b'" for b n b'
    using that by (auto simp: db_adjust_def db_inv_def split: if_splits option.splits)
  show "db_inv b'" if "db_inv b" "db_trim n b = Some b'" for b n b'
    using that by (auto simp: db_trim_def db_inv_def split: if_splits option.splits)
qed (fact db_adjust_view db_trim_view)+

interpretation str: byte_buffer "\<lambda>b. b" "\<lambda>_. True" buf_adjust buf_trim
  by unfold_locales (auto simp: option.map_ident)

lemmas buf_ops = buf_adjust_def buf_trim_def

section \<open>Properties\<close>

text \<open>A heap buffer never reads outside its array and behaves as the byte string it shows:
  adjust drops a prefix, trim drops a suffix, both exactly when enough bytes are left, and
  a clone split in two by trim and adjust loses no byte.\<close>

theorem db_refines_bytes:
  assumes "db_inv b"
  shows "db_deref b = Some (db_view b)
    \<and> (db_adjust n b = None \<longleftrightarrow> length (db_view b) < n)
    \<and> (\<forall>b'. db_adjust n b = Some b' \<longrightarrow> db_inv b' \<and> db_view b' = drop n (db_view b))
    \<and> (\<forall>b'. db_trim n b = Some b' \<longrightarrow> db_inv b' \<and> db_view b' = take (length (db_view b) - n) (db_view b))
    \<and> (n \<le> length (db_view b) \<longrightarrow>
        (\<exists>h t. db_trim (length (db_view b) - n) b = Some h \<and> db_adjust n b = Some t
          \<and> db_view h @ db_view t = db_view b))"
proof (intro conjI allI impI)
  show "db_deref b = Some (db_view b)"
    using assms by (auto simp: db_view_def db_deref_def db_inv_def split: option.splits)
  show "db_adjust n b = None \<longleftrightarrow> length (db_view b) < n"
    using db.adjust_defined [OF assms, of n] by auto
next
  fix b' assume a: "db_adjust n b = Some b'"
  show "db_inv b'"
    by (rule db.adjust_inv [OF assms a])
  show "db_view b' = drop n (db_view b)"
    using db.adjust_view [OF assms, of n] a by (auto simp: buf_ops split: if_splits)
next
  fix b' assume a: "db_trim n b = Some b'"
  show "db_inv b'"
    by (rule db.trim_inv [OF assms a])
  show "db_view b' = take (length (db_view b) - n) (db_view b)"
    using db.trim_view [OF assms, of n] a by (auto simp: buf_ops split: if_splits)
next
  assume "n \<le> length (db_view b)"
  from db.split_off [OF assms this]
  show "\<exists>h t. db_trim (length (db_view b) - n) b = Some h \<and> db_adjust n b = Some t
          \<and> db_view h @ db_view t = db_view b"
    by blast
qed

theorem db_refines_bytes_witness:
  "db_deref (db_from_slice [1, 2, 3]) = Some [1, 2, 3] \<and>
   map_option db_view (db_adjust 2 (db_from_slice [1, 2, 3])) = Some [3]"
proof -
  have inv: "db_inv (db_from_slice [1, 2, 3])"
    by (simp add: db_inv_def db_from_slice_def)
  have view: "db_view (db_from_slice [1, 2, 3]) = [1, 2, 3]"
    by (simp add: db_view_def db_deref_def db_from_slice_def)
  from db_refines_bytes [OF inv, of 2] show ?thesis
    unfolding view by auto
qed

end
