(* ===== verification/Ipv4_Datagram.thy ===== *)
theory Ipv4_Datagram
  imports Buffers
begin

text \<open>
  IPv4 headers (\<^verbatim>\<open>protocols/ipv4/datagram.rs\<close>, \<^verbatim>\<open>protocols/ip/protocol.rs\<close>): validation of
  received datagrams, serialization, and the header checksum.
\<close>

section \<open>Protocol numbers\<close>

datatype ip_protocol = ICMPv4 | TCP | UDP

fun ip_protocol_code :: "ip_protocol \<Rightarrow> u8" where
  "ip_protocol_code ICMPv4 = 1"
| "ip_protocol_code TCP = 6"
| "ip_protocol_code UDP = 0x11"

definition ip_protocol_try_from :: "u8 \<Rightarrow> ip_protocol outcome" where
  "ip_protocol_try_from n =
     (if n = 1 then Ok ICMPv4 else if n = 6 then Ok TCP else if n = 0x11 then Ok UDP
      else Err (fail_new ENOTSUP ''unsupported IPv4 protocol''))"

lemma ip_protocol_try_from_code [simp]: "ip_protocol_try_from (ip_protocol_code p) = Ok p"
  by (cases p) (simp_all add: ip_protocol_try_from_def)

section \<open>The header\<close>

record ipv4_header =
  ip_version :: u8
  ip_ihl :: u8
  ip_dscp :: u8
  ip_ecn :: u8
  ip_total_length :: u16
  ip_identification :: u16
  ip_flags :: u8
  ip_fragment_offset :: u16
  ip_ttl :: u8
  ip_protocol :: ip_protocol
  ip_header_checksum :: u16
  ip_src_addr :: ipv4addr
  ip_dst_addr :: ipv4addr

definition IPV4_HEADER_MIN_SIZE :: nat where
  "IPV4_HEADER_MIN_SIZE = 20"

definition ipv4_new :: "ipv4addr \<Rightarrow> ipv4addr \<Rightarrow> ip_protocol \<Rightarrow> ipv4_header" where
  "ipv4_new src dst protocol =
     \<lparr>ip_version = 4, ip_ihl = 5, ip_dscp = 0, ip_ecn = 0, ip_total_length = 20,
      ip_identification = 0, ip_flags = 2, ip_fragment_offset = 0, ip_ttl = 255,
      ip_protocol = protocol, ip_header_checksum = 0, ip_src_addr = src, ip_dst_addr = dst\<rparr>"

text \<open>The first five and the last four 16-bit words of the fixed header; word 5 is the checksum.\<close>

definition ipv4_compute_checksum :: "bytes \<Rightarrow> u16" where
  "ipv4_compute_checksum buf =
     (let state = (0xffff :: u32);
          state = fold (\<lambda>i st. st + ucast (read_u16 buf (2 * i))) [0 ..< 5] state;
          state = fold (\<lambda>i st. st + ucast (read_u16 buf (2 * i))) [6 ..< 10] state
      in checksum_finish state)"

definition ipv4_parse :: "bytes \<Rightarrow> (ipv4_header \<times> bytes) outcome" where
  "ipv4_parse buf =
     (if length buf < IPV4_HEADER_MIN_SIZE then Err (fail_new EBADMSG ''ipv4 datagram too small'')
      else let version = drop_bit 4 (buf ! 0) in
      if version \<noteq> 4 then Err (fail_new ENOTSUP ''unsupported IP version'')
      else let ihl = buf ! 0 AND 0xF; hdr_size = 4 * unat ihl in
      if hdr_size < IPV4_HEADER_MIN_SIZE then Err (fail_new EBADMSG ''ipv4 IHL is too small'')
      else if length buf < hdr_size then Err (fail_new EBADMSG ''ipv4 datagram too small to fit in header'')
      else let hdr_buf = take hdr_size buf;
               dscp = drop_bit 2 (hdr_buf ! 1);
               ecn = hdr_buf ! 1 AND 3;
               total_length = read_u16 hdr_buf 2 in
      if unat total_length < hdr_size then Err (fail_new EBADMSG ''ipv4 datagram smaller than header'')
      else if unat total_length > length buf then Err (fail_new EBADMSG ''ipv4 datagram size mismatch'')
      else let identification = read_u16 hdr_buf 4;
               flags = drop_bit 5 (hdr_buf ! 6) in
      if flags AND 0x4 \<noteq> 0 then Err (fail_new EBADMSG ''ipv4 datagram is marked as evil'')
      else if flags AND 0x1 \<noteq> 0 then Err (fail_new ENOTSUP ''ipv4 fragmentation is not supported'')
      else let fragment_offset = read_u16 hdr_buf 6 AND 0x1fff in
      if fragment_offset \<noteq> 0 then Err (fail_new ENOTSUP ''ipv4 fragmentation is not supported'')
      else let time_to_live = hdr_buf ! 8 in
      if time_to_live = 0 then Err (fail_new EBADMSG ''ipv4 datagram too old'')
      else bind_out (ip_protocol_try_from (hdr_buf ! 9)) (\<lambda>protocol.
      let header_checksum = read_u16 hdr_buf 10 in
      if header_checksum = 0xffff then Err (fail_new EBADMSG ''ipv4 checksum invalid'')
      else if header_checksum \<noteq> ipv4_compute_checksum hdr_buf
        then Err (fail_new EBADMSG ''ipv4 checksum mismatch'')
      else let padding_bytes = length buf - unat total_length in
        bind_out (expect (buf_adjust hdr_size buf)) (\<lambda>buf'.
        bind_out (expect (buf_trim padding_bytes buf')) (\<lambda>buf''.
        Ok (\<lparr>ip_version = version, ip_ihl = ihl, ip_dscp = dscp, ip_ecn = ecn,
             ip_total_length = total_length, ip_identification = identification, ip_flags = flags,
             ip_fragment_offset = fragment_offset, ip_ttl = time_to_live, ip_protocol = protocol,
             ip_header_checksum = header_checksum, ip_src_addr = read_u32 hdr_buf 12,
             ip_dst_addr = read_u32 hdr_buf 16\<rparr>, buf'')))))"

definition ipv4_serialize :: "ipv4_header \<Rightarrow> bytes \<Rightarrow> nat \<Rightarrow> bytes option" where
  "ipv4_serialize h buf payload_len =
     (if length buf \<noteq> IPV4_HEADER_MIN_SIZE then None
      else let buf = write_at 0 [push_bit 4 (ip_version h) OR ip_ihl h] buf;
               buf = write_at 1 [push_bit 2 (ip_dscp h) OR (ip_ecn h AND 3)] buf;
               buf = write_at 2 (be16 (20 + of_nat payload_len)) buf;
               buf = write_at 4 (be16 (ip_identification h)) buf;
               buf = write_at 6 (be16 (push_bit 13 (ucast (ip_flags h)) OR (ip_fragment_offset h AND 0x1fff))) buf;
               buf = write_at 8 [ip_ttl h] buf;
               buf = write_at 9 [ip_protocol_code (ip_protocol h)] buf;
               buf = write_at 12 (be32 (ip_src_addr h)) buf;
               buf = write_at 16 (be32 (ip_dst_addr h)) buf
           in Some (write_at 10 (be16 (ipv4_compute_checksum buf)) buf))"

section \<open>Headers the stack emits\<close>

text \<open>What \<open>ipv4_serialize\<close> can represent: version 4, no options, no fragmentation, a live datagram.\<close>

definition ipv4_sendable :: "ipv4_header \<Rightarrow> nat \<Rightarrow> bool" where
  "ipv4_sendable h n \<longleftrightarrow> ip_version h = 4 \<and> ip_ihl h = 5 \<and> unat (ip_dscp h) < 2 ^ 6 \<and> unat (ip_ecn h) < 2 ^ 2
     \<and> (ip_flags h = 0 \<or> ip_flags h = 2) \<and> ip_fragment_offset h = 0 \<and> ip_ttl h \<noteq> 0 \<and> n < 65516"

text \<open>The serialized header with a given checksum.\<close>

definition ipv4_wire :: "ipv4_header \<Rightarrow> nat \<Rightarrow> u8 \<Rightarrow> u8 \<Rightarrow> bytes" where
  "ipv4_wire h n c0 c1 =
     [push_bit 4 (ip_version h) OR ip_ihl h, push_bit 2 (ip_dscp h) OR (ip_ecn h AND 3)]
     @ be16 (20 + of_nat n) @ be16 (ip_identification h)
     @ be16 (push_bit 13 (ucast (ip_flags h)) OR (ip_fragment_offset h AND 0x1fff))
     @ [ip_ttl h, ip_protocol_code (ip_protocol h), c0, c1]
     @ be32 (ip_src_addr h) @ be32 (ip_dst_addr h)"

lemma length_ipv4_wire [simp]: "length (ipv4_wire h n a b) = 20"
  by (simp add: ipv4_wire_def)

lemma upt_words: "[0 ..< 5] = [0, 1, 2, 3, 4 :: nat]" "[6 ..< 10] = [6, 7, 8, 9 :: nat]"
  by (simp_all add: upt_rec)

text \<open>The checksum does not look at the checksum field nor past the fixed header.\<close>

lemma ipv4_checksum_wire:
  "ipv4_compute_checksum (ipv4_wire h n a b @ r) = ipv4_compute_checksum (ipv4_wire h n 0 0)"
  by (simp add: ipv4_compute_checksum_def upt_words ipv4_wire_def be16_def be32_def read_u16_def)

lemma ipv4_serialize_wire:
  assumes "length buf = IPV4_HEADER_MIN_SIZE"
  shows "\<exists>c0 c1. be16 (ipv4_compute_checksum (ipv4_wire h n 0 0)) = [c0, c1] \<and>
    ipv4_serialize h buf n = Some (ipv4_wire h n c0 c1)"
proof -
  define x y where "x = buf ! 10" and "y = buf ! 11"
  have d: "drop 10 buf = x # y # drop 12 buf"
    using assms Cons_nth_drop_Suc [of 10 buf] Cons_nth_drop_Suc [of 11 buf]
    by (simp add: x_def y_def IPV4_HEADER_MIN_SIZE_def)
  let ?mid = "ipv4_wire h n x y"
  have "ipv4_serialize h buf n = Some (write_at 10 (be16 (ipv4_compute_checksum ?mid)) ?mid)"
    using assms d by (simp add: ipv4_serialize_def IPV4_HEADER_MIN_SIZE_def write_simps ipv4_wire_def)
  moreover have "ipv4_compute_checksum ?mid = ipv4_compute_checksum (ipv4_wire h n 0 0)"
    using ipv4_checksum_wire [of h n x y "[]"] by simp
  moreover have "write_at 10 [c0, c1] ?mid = ipv4_wire h n c0 c1" for c0 c1
    by (simp add: ipv4_wire_def write_simps)
  ultimately show ?thesis
    by (simp add: be16_def)
qed

text \<open>The nine words of a header add up without leaving the 32-bit accumulator.\<close>

definition ipv4_word_sum :: "bytes \<Rightarrow> nat" where
  "ipv4_word_sum buf = (\<Sum>i\<leftarrow>[0, 1, 2, 3, 4, 6, 7, 8, 9]. unat (read_u16 buf (2 * i)))"

lemma fold_words_unat:
  "unat st + 65536 * length is < 2 ^ 32 \<Longrightarrow>
   unat (fold (\<lambda>i st. st + ucast (read_u16 buf (2 * i))) is (st :: u32))
     = unat st + (\<Sum>i\<leftarrow>is. unat (read_u16 buf (2 * i)))"
proof (induction "is" arbitrary: st)
  case Nil
  then show ?case by simp
next
  case (Cons i "is")
  have "unat (st + ucast (read_u16 buf (2 * i))) = unat st + unat (read_u16 buf (2 * i))"
    using Cons.prems unat_u16_less [of "read_u16 buf (2 * i)"] by (simp add: unat_word_ariths)
  then show ?case
    using Cons unat_u16_less [of "read_u16 buf (2 * i)"] by simp
qed

lemma ipv4_checksum_unat:
  "unat (ipv4_compute_checksum buf) = 0xFFFF - ones_sum (0xFFFF + ipv4_word_sum buf)"
  "ipv4_compute_checksum buf \<noteq> 0xFFFF"
proof -
  define st where "st = fold (\<lambda>i st. st + ucast (read_u16 buf (2 * i))) [6 ..< 10]
    (fold (\<lambda>i st. st + ucast (read_u16 buf (2 * i))) [0 ..< 5] (0xffff :: u32))"
  have "unat (fold (\<lambda>i st. st + ucast (read_u16 buf (2 * i))) [0 ..< 5] (0xffff :: u32))
      = 0xFFFF + (\<Sum>i\<leftarrow>[0 ..< 5]. unat (read_u16 buf (2 * i)))"
    by (subst fold_words_unat) simp_all
  moreover have "(\<Sum>i\<leftarrow>[0 ..< 5]. unat (read_u16 buf (2 * i))) \<le> 5 * 65536"
    using sum_list_mono [of "[0 ..< 5]" "\<lambda>i. unat (read_u16 buf (2 * i))" "\<lambda>_. 65536"] unat_u16_less
    by (auto simp: sum_list_triv less_imp_le)
  ultimately have u: "unat st = 0xFFFF + ipv4_word_sum buf"
    unfolding st_def by (subst fold_words_unat) (simp_all add: ipv4_word_sum_def upt_words)
  then have "0 < st"
    by (simp add: word_greater_zero_iff unat_gt_0 [symmetric])
  moreover have "ipv4_compute_checksum buf = checksum_finish st"
    by (simp add: ipv4_compute_checksum_def st_def Let_def)
  ultimately show "unat (ipv4_compute_checksum buf) = 0xFFFF - ones_sum (0xFFFF + ipv4_word_sum buf)"
    and "ipv4_compute_checksum buf \<noteq> 0xFFFF"
    using u checksum_finish_unat checksum_finish_not_ffff by simp_all
qed

section \<open>Round trip\<close>

lemma ipv4_byte0: "drop_bit 4 (push_bit 4 (4 :: u8) OR 5) = 4" "(push_bit 4 (4 :: u8) OR 5) AND 0xF = 5"
  by simp_all

lemma ipv4_byte1:
  assumes "unat (d :: u8) < 2 ^ 6" "unat (e :: u8) < 2 ^ 2"
  shows "drop_bit 2 (push_bit 2 d OR (e AND 3)) = d" "(push_bit 2 d OR (e AND 3)) AND 3 = e"
proof -
  have three: "(3 :: u8) = mask 2"
    by (simp add: mask_eq_exp_minus_1)
  have bd: "bit d k \<Longrightarrow> k < 6" and be: "bit e k \<Longrightarrow> k < 2" for k
    using assms bit_u8_bounded by blast+
  show "drop_bit 2 (push_bit 2 d OR (e AND 3)) = d"
    unfolding three by (rule bit_word_eqI) (use bd in \<open>fastforce simp: bit_simps\<close>)
  show "(push_bit 2 d OR (e AND 3)) AND 3 = e"
    unfolding three by (rule bit_word_eqI) (use be in \<open>fastforce simp: bit_simps\<close>)
qed

lemma ipv4_total_length:
  "n < 65516 \<Longrightarrow> unat (20 + of_nat n :: u16) = 20 + n"
  by (simp add: unat_word_ariths unat_of_nat_u16)

lemma ipv4_flag_word:
  assumes "f = 0 \<or> f = (2 :: u8)"
  shows "drop_bit 5 (ucast (drop_bit 8 (push_bit 13 (ucast f) OR 0 :: u16)) :: u8) = f"
    "(push_bit 13 (ucast f) OR 0 :: u16) AND 0x1fff = 0" "f AND 4 = 0" "f AND 1 = 0"
  using assms by auto

lemma ipv4_parse_wire:
  assumes s: "ipv4_sendable h (length payload)"
    and c: "be16 c = [c0, c1]" "c = ipv4_compute_checksum (ipv4_wire h (length payload) 0 0)"
  shows "ipv4_parse (ipv4_wire h (length payload) c0 c1 @ payload @ padding)
    = Ok (h\<lparr>ip_total_length := 20 + of_nat (length payload), ip_header_checksum := c\<rparr>, payload)"
proof -
  define n where "n = length payload"
  define w where "w = ipv4_wire h n c0 c1"
  note s' = s [unfolded ipv4_sendable_def, folded n_def]
  have mk: "mk16 c0 c1 = c"
    using c(1) mk16_be16 [of c] by (simp add: be16_def)
  have ck: "ipv4_compute_checksum (take 20 (w @ payload @ padding)) = c"
    using ipv4_checksum_wire [of h n c0 c1 "[]"] c(2) by (simp add: w_def n_def)
  have ne: "c \<noteq> 0xFFFF"
    using ipv4_checksum_unat(2) c(2) by simp
  have len: "length w = 20"
    by (simp add: w_def)
  have fields: "w ! 0 = push_bit 4 4 OR 5" "w ! 1 = push_bit 2 (ip_dscp h) OR (ip_ecn h AND 3)"
    "read_u16 w 2 = 20 + of_nat n" "read_u16 w 4 = ip_identification h"
    "w ! 6 = ucast (drop_bit 8 (push_bit 13 (ucast (ip_flags h)) OR 0 :: u16))"
    "read_u16 w 6 = push_bit 13 (ucast (ip_flags h)) OR 0"
    "w ! 8 = ip_ttl h" "w ! 9 = ip_protocol_code (ip_protocol h)" "read_u16 w 10 = c"
    "read_u32 w 12 = ip_src_addr h" "read_u32 w 16 = ip_dst_addr h"
    using s' mk by (simp_all add: w_def ipv4_wire_def be16_def be32_def read_u16_def read_u32_def)
  have tk: "take 20 (w @ payload @ padding) = w" "(w @ payload @ padding) ! 0 = w ! 0"
    using len by (simp_all add: nth_append)
  have tl: "unat (20 + of_nat n :: u16) = 20 + n"
    using s' ipv4_total_length by simp
  have b0: "drop_bit 4 (w ! 0) = 4" "w ! 0 AND 0xF = 5"
    unfolding fields by simp_all
  note b1 = ipv4_byte1 [of "ip_dscp h" "ip_ecn h", folded fields]
  note b6 = ipv4_flag_word [of "ip_flags h", folded fields]
  have cut: "buf_adjust 20 (w @ payload @ padding) = Some (payload @ padding)"
    "buf_trim (length padding) (payload @ padding) = Some payload"
    using len by (simp_all add: buf_ops)
  have "ck'": "ipv4_compute_checksum w = c"
    using ck tk by simp
  show ?thesis
    unfolding n_def [symmetric] w_def [symmetric]
    unfolding ipv4_parse_def IPV4_HEADER_MIN_SIZE_def
    using s' ne tl len cut b1 b6
    by (simp add: Let_def tk b0 fields "ck'" n_def [symmetric])
qed

text \<open>an IPv4 header the stack can emit is serialized into 20 bytes and, followed by its payload and
  by any link-layer padding, is accepted and parsed back to the same fields, with the total length and
  the checksum filled in; the payload comes out without the padding.\<close>

theorem ipv4_roundtrip:
  assumes "length buf = IPV4_HEADER_MIN_SIZE" "ipv4_sendable h (length payload)"
  shows "\<exists>bs c. ipv4_serialize h buf (length payload) = Some bs \<and> length bs = 20 \<and>
    ipv4_parse (bs @ payload @ padding)
      = Ok (h\<lparr>ip_total_length := 20 + of_nat (length payload), ip_header_checksum := c\<rparr>, payload)"
proof -
  obtain c0 c1 where c: "be16 (ipv4_compute_checksum (ipv4_wire h (length payload) 0 0)) = [c0, c1]"
    and ser: "ipv4_serialize h buf (length payload) = Some (ipv4_wire h (length payload) c0 c1)"
    using ipv4_serialize_wire [OF assms(1)] by blast
  show ?thesis
    using ser ipv4_parse_wire [OF assms(2) c refl] by auto
qed

theorem ipv4_roundtrip_witness:
  "\<exists>bs c. ipv4_serialize (ipv4_new 0x0A000108 0x0A000109 TCP) (replicate 20 0) (length [1, 2, 3 :: u8]) = Some bs
    \<and> length bs = 20 \<and> ipv4_parse (bs @ [1, 2, 3] @ [0, 0])
      = Ok ((ipv4_new 0x0A000108 0x0A000109 TCP)
          \<lparr>ip_total_length := 20 + of_nat (length [1, 2, 3 :: u8]), ip_header_checksum := c\<rparr>, [1, 2, 3])"
  by (rule ipv4_roundtrip) (simp_all add: IPV4_HEADER_MIN_SIZE_def ipv4_sendable_def ipv4_new_def)

text \<open>C14: the header checksum loop, which adds into a 32-bit accumulator and subtracts \<open>0xFFFF\<close> until the
  sum fits, computes the Internet checksum of the nine header words (RFC 1071): the complement of their
  one's-complement sum, and never the value \<open>0xFFFF\<close> the parser rejects.\<close>

theorem ipv4_checksum_rfc1071:
  "unat (ipv4_compute_checksum buf) = 0xFFFF - ones_sum (0xFFFF + ipv4_word_sum buf)
     \<and> ipv4_compute_checksum buf \<noteq> 0xFFFF"
  using ipv4_checksum_unat by simp

end
