(* ===== verification/Datagram_Headers.thy ===== *)
theory Datagram_Headers
  imports Ipv4_Datagram
begin

text \<open>
  The headers of the two datagram protocols above IPv4: UDP
  (\<^verbatim>\<open>protocols/udp/datagram/header.rs\<close>) and ICMPv4 (\<^verbatim>\<open>protocols/icmpv4/datagram/\<close>).
\<close>

section \<open>The pseudo header\<close>

text \<open>Source and destination address, protocol number and transport length, added in that order.\<close>

definition pseudo_header_sum :: "ipv4_header \<Rightarrow> ip_protocol \<Rightarrow> nat \<Rightarrow> u32" where
  "pseudo_header_sum ip proto len =
     (let src_octets = be32 (ip_src_addr ip);
          dst_octets = be32 (ip_dst_addr ip);
          state = (0xffff :: u32);
          state = state + ucast (read_u16 src_octets 0);
          state = state + ucast (read_u16 src_octets 2);
          state = state + ucast (read_u16 dst_octets 0);
          state = state + ucast (read_u16 dst_octets 2);
          state = state + ucast (read_u16 [0, ip_protocol_code proto] 0)
      in state + of_nat len)"

section \<open>UDP\<close>

record udp_header =
  udp_src_port :: u16
  udp_dest_port :: u16

definition UDP_HEADER_SIZE :: nat where
  "UDP_HEADER_SIZE = 8"

definition udp_new :: "u16 \<Rightarrow> u16 \<Rightarrow> udp_header" where
  "udp_new s d = \<lparr>udp_src_port = s, udp_dest_port = d\<rparr>"

text \<open>\<open>None\<close>: the header slice is not eight bytes (\<^verbatim>\<open>try_into().unwrap()\<close>).\<close>

definition udp_checksum :: "ipv4_header \<Rightarrow> bytes \<Rightarrow> bytes \<Rightarrow> u16 option" where
  "udp_checksum ip udp_hdr data =
     (if length udp_hdr \<noteq> UDP_HEADER_SIZE then None
      else let state = pseudo_header_sum ip UDP (length udp_hdr + length data);
               state = state + ucast (read_u16 udp_hdr 0);
               state = state + ucast (read_u16 udp_hdr 2);
               state = state + ucast (read_u16 udp_hdr 4)
           in Some (checksum_finish (add_chunks data state)))"

definition udp_parse_from_slice :: "ipv4_header \<Rightarrow> bytes \<Rightarrow> bool \<Rightarrow> (udp_header \<times> bytes) outcome" where
  "udp_parse_from_slice ip buf checksum_offload =
     (if length buf < UDP_HEADER_SIZE then Err (fail_new EBADMSG ''UDP segment too small'')
      else let hdr_buf = take UDP_HEADER_SIZE buf;
               src_port = read_u16 hdr_buf 0;
               dest_port = read_u16 hdr_buf 2;
               len = unat (read_u16 hdr_buf 4)
           in if len \<noteq> length buf then Err (fail_new EBADMSG ''UDP length mismatch'')
              else let ok = Ok (udp_new src_port dest_port, drop UDP_HEADER_SIZE buf)
                   in if checksum_offload then ok
                      else let payload_buf = drop UDP_HEADER_SIZE buf; checksum = read_u16 hdr_buf 6
                           in if checksum = 0 then ok
                              else bind_out (expect (udp_checksum ip hdr_buf payload_buf)) (\<lambda>c.
                                if checksum \<noteq> c then Err (fail_new EBADMSG ''UDP checksum mismatch'')
                                else ok))"

definition udp_serialize :: "udp_header \<Rightarrow> bytes \<Rightarrow> ipv4_header \<Rightarrow> bytes \<Rightarrow> bool \<Rightarrow> bytes option" where
  "udp_serialize h buf ip data checksum_offload =
     (if length buf < UDP_HEADER_SIZE then None
      else let fixed_buf = take UDP_HEADER_SIZE buf;
               fixed_buf = write_at 0 (be16 (udp_src_port h)) fixed_buf;
               fixed_buf = write_at 2 (be16 (udp_dest_port h)) fixed_buf;
               fixed_buf = write_at 4 (be16 (of_nat (UDP_HEADER_SIZE + length data))) fixed_buf
           in case (if checksum_offload then Some 0 else udp_checksum ip fixed_buf data) of
                None \<Rightarrow> None
              | Some checksum \<Rightarrow> Some (write_at 6 (be16 checksum) fixed_buf @ drop UDP_HEADER_SIZE buf))"

lemma udp_checksum_append:
  "udp_checksum ip (be16 a @ be16 b @ be16 c @ [x, y]) data = udp_checksum ip (be16 a @ be16 b @ be16 c @ [0, 0]) data"
  by (simp add: udp_checksum_def UDP_HEADER_SIZE_def be16_def read_u16_def)

text \<open>A UDP header serialized in front of a payload of at most 65527 bytes is accepted by the parser
  and parsed back with the payload, with the checksum computed on both sides, or offloaded on either.\<close>

theorem udp_roundtrip:
  assumes "length buf = UDP_HEADER_SIZE" "length data < 65528"
  shows "\<exists>bs. udp_serialize h buf ip data tx_offload = Some bs \<and> length bs = UDP_HEADER_SIZE \<and>
    udp_parse_from_slice ip (bs @ data) rx_offload = Ok (h, data)"
proof -
  define fixed where "fixed = be16 (udp_src_port h) @ be16 (udp_dest_port h) @ be16 (of_nat (8 + length data))"
  define c where "c = (if tx_offload then 0 else the (udp_checksum ip (fixed @ [0, 0]) data))"
  have len: "unat (of_nat (8 + length data) :: u16) = 8 + length data"
    using assms by (intro unat_of_nat_u16) simp
  have ck: "udp_checksum ip (fixed @ [x, y]) data = Some (the (udp_checksum ip (fixed @ [0, 0]) data))" for x y
    using udp_checksum_append [of ip _ _ _ x y data]
    by (simp add: fixed_def) (simp add: udp_checksum_def UDP_HEADER_SIZE_def Let_def)
  have "length (drop 6 buf) = 2"
    using assms(1) by (simp add: UDP_HEADER_SIZE_def)
  then obtain x y where buf: "drop 6 buf = [x, y]"
    using length_2_list by blast
  have ser: "udp_serialize h buf ip data tx_offload = Some (fixed @ be16 c)"
    using assms(1) buf ck [of x y]
    by (simp add: udp_serialize_def UDP_HEADER_SIZE_def write_simps c_def Let_def fixed_def)
  have "udp_parse_from_slice ip (fixed @ be16 c @ data) rx_offload = Ok (h, data)"
    using len ck [of "ucast (drop_bit 8 c)" "ucast c"]
    by (simp add: udp_parse_from_slice_def UDP_HEADER_SIZE_def Let_def fixed_def be16_def read_u16_def
        udp_new_def c_def)
  with ser show ?thesis
    by (simp add: fixed_def UDP_HEADER_SIZE_def)
qed

theorem udp_roundtrip_witness:
  "\<exists>bs. udp_serialize (udp_new 50 69) (replicate 8 0) (ipv4_new 1 2 UDP) [1, 2, 3] False = Some bs \<and>
    length bs = UDP_HEADER_SIZE \<and>
    udp_parse_from_slice (ipv4_new 1 2 UDP) (bs @ [1, 2, 3]) False = Ok (udp_new 50 69, [1, 2, 3])"
  by (rule udp_roundtrip) (simp_all add: UDP_HEADER_SIZE_def)

section \<open>ICMPv4\<close>

datatype icmpv4_type2 = EchoReply u16 u16 | DestinationUnreachable | SourceQuench | RedirectMessage
  | EchoRequest u16 u16 | RouterAdvertisement | RouterSolicitation | TimeExceeded | BadIpHeader
  | Timestamp | TimestampReply

definition icmp_type_parse :: "u8 \<Rightarrow> bytes \<Rightarrow> icmpv4_type2 outcome" where
  "icmp_type_parse type_byte rest =
     (if type_byte = 0 then Ok (EchoReply (read_u16 rest 0) (read_u16 rest 2))
      else if type_byte = 3 then Ok DestinationUnreachable
      else if type_byte = 4 then Ok SourceQuench
      else if type_byte = 5 then Ok RedirectMessage
      else if type_byte = 8 then Ok (EchoRequest (read_u16 rest 0) (read_u16 rest 2))
      else if type_byte = 9 then Ok RouterAdvertisement
      else if type_byte = 10 then Ok RouterSolicitation
      else if type_byte = 11 then Ok TimeExceeded
      else if type_byte = 12 then Ok BadIpHeader
      else if type_byte = 13 then Ok Timestamp
      else if type_byte = 14 then Ok TimestampReply
      else Err (fail_new EBADMSG ''invalid type byte''))"

fun icmp_type_serialize :: "icmpv4_type2 \<Rightarrow> u8 \<times> bytes" where
  "icmp_type_serialize (EchoReply i s) = (0, be16 i @ be16 s)"
| "icmp_type_serialize DestinationUnreachable = (3, [0, 0, 0, 0])"
| "icmp_type_serialize SourceQuench = (4, [0, 0, 0, 0])"
| "icmp_type_serialize RedirectMessage = (5, [0, 0, 0, 0])"
| "icmp_type_serialize (EchoRequest i s) = (8, be16 i @ be16 s)"
| "icmp_type_serialize RouterAdvertisement = (9, [0, 0, 0, 0])"
| "icmp_type_serialize RouterSolicitation = (10, [0, 0, 0, 0])"
| "icmp_type_serialize TimeExceeded = (11, [0, 0, 0, 0])"
| "icmp_type_serialize BadIpHeader = (12, [0, 0, 0, 0])"
| "icmp_type_serialize Timestamp = (13, [0, 0, 0, 0])"
| "icmp_type_serialize TimestampReply = (14, [0, 0, 0, 0])"

record icmpv4_header =
  icmp_protocol :: icmpv4_type2
  icmp_code :: u8

definition ICMPV4_HEADER_SIZE :: nat where
  "ICMPV4_HEADER_SIZE = 8"

definition icmp_checksum :: "bytes \<Rightarrow> bytes \<Rightarrow> u16" where
  "icmp_checksum buf body =
     (let state = (0xffff :: u32);
          state = state + ucast (read_u16 buf 0);
          state = state + ucast (read_u16 buf 4);
          state = state + ucast (read_u16 buf 6)
      in checksum_finish (add_chunks body state))"

definition icmp_parse :: "bytes \<Rightarrow> (icmpv4_header \<times> bytes) outcome" where
  "icmp_parse buf =
     (if length buf < ICMPV4_HEADER_SIZE then Err (fail_new EBADMSG ''ICMPv4 datagram too small for header'')
      else let hdr_buf = take ICMPV4_HEADER_SIZE buf;
               type_byte = hdr_buf ! 0;
               code = hdr_buf ! 1;
               checksum = read_u16 hdr_buf 2
           in if checksum \<noteq> icmp_checksum hdr_buf (drop ICMPV4_HEADER_SIZE buf)
                then Err (fail_new EBADMSG ''ICMPv4 checksum mismatch'')
              else bind_out (icmp_type_parse type_byte (slice 4 8 hdr_buf)) (\<lambda>t.
                bind_out (expect (buf_adjust ICMPV4_HEADER_SIZE buf)) (\<lambda>buf'.
                Ok (\<lparr>icmp_protocol = t, icmp_code = code\<rparr>, buf'))))"

text \<open>The header is always sent without a body, so the checksum is over the header alone.\<close>

definition icmp_serialize :: "icmpv4_header \<Rightarrow> bytes \<Rightarrow> bytes option" where
  "icmp_serialize h buf =
     (if length buf < ICMPV4_HEADER_SIZE then None
      else let buf' = take ICMPV4_HEADER_SIZE buf;
               (type_byte, rest_of_header) = icmp_type_serialize (icmp_protocol h);
               buf' = write_at 0 [type_byte] buf';
               buf' = write_at 1 [icmp_code h] buf';
               buf' = write_at 4 rest_of_header buf'
           in Some (write_at 2 (be16 (icmp_checksum buf' [])) buf' @ drop ICMPV4_HEADER_SIZE buf))"

lemma icmp_type_roundtrip [simp]:
  "icmp_type_serialize t = (b, r) \<Longrightarrow> length r = 4 \<and> icmp_type_parse b r = Ok t"
  by (cases t) (auto simp: icmp_type_parse_def be16_def read_u16_def)

text \<open>Every ICMPv4 header, with any of the eleven message types, is parsed back from its
  serialization; the checksum the sender computes is the one the receiver recomputes.\<close>

theorem icmp_roundtrip:
  assumes "length buf = ICMPV4_HEADER_SIZE"
  shows "\<exists>bs. icmp_serialize h buf = Some bs \<and> icmp_parse bs = Ok (h, [])"
proof -
  obtain b r where t: "icmp_type_serialize (icmp_protocol h) = (b, r)"
    by fastforce
  obtain r0 r1 r2 r3 where r: "r = [r0, r1, r2, r3]"
    using icmp_type_roundtrip [OF t] length_4_list by blast
  have "length (drop 2 (take 4 buf)) = 2"
    using assms by (simp add: ICMPV4_HEADER_SIZE_def)
  then obtain x y where xy: "drop 2 (take 4 buf) = [x, y]"
    using length_2_list by blast
  define c where "c = icmp_checksum ([b, icmp_code h, 0, 0] @ r) []"
  have ck: "icmp_checksum (b # icmp_code h # u # v # r) [] = c" for u v
    by (simp add: c_def icmp_checksum_def read_u16_def r)
  have b4: "take 2 (drop (Suc (Suc 0)) buf) = [x, y]"
    using xy by (simp add: drop_take numeral_2_eq_2)
  have "icmp_serialize h buf = Some (b # icmp_code h # be16 c @ r)"
    using assms t r ck [of x y, unfolded r]
    by (simp add: icmp_serialize_def ICMPV4_HEADER_SIZE_def write_at_def drop_take b4 take_Suc_Cons)
  moreover have "icmp_parse (b # icmp_code h # be16 c @ r) = Ok (h, [])"
    using icmp_type_roundtrip [OF t] ck [of "ucast (drop_bit 8 c)" "ucast c"]
    by (simp add: icmp_parse_def ICMPV4_HEADER_SIZE_def be16_def read_u16_def slice_def buf_ops r)
  ultimately show ?thesis
    by blast
qed

theorem icmp_roundtrip_witness:
  "\<exists>bs. icmp_serialize \<lparr>icmp_protocol = EchoRequest 7 9, icmp_code = 0\<rparr> (replicate 8 0) = Some bs
    \<and> icmp_parse bs = Ok (\<lparr>icmp_protocol = EchoRequest 7 9, icmp_code = 0\<rparr>, [])"
  by (rule icmp_roundtrip) (simp add: ICMPV4_HEADER_SIZE_def)

end
