(* ===== verification/Link_Layer.thy ===== *)
theory Link_Layer
  imports Buffers
begin

text \<open>
  Ethernet II frames (\<^verbatim>\<open>protocols/ethernet2/\<close>) and ARP messages
  (\<^verbatim>\<open>protocols/arp/packet/\<close>): parsing and serialization of their fixed-size headers.
\<close>

section \<open>MAC addresses\<close>

datatype mac_address = Mac u8 u8 u8 u8 u8 u8

fun mac_octets :: "mac_address \<Rightarrow> bytes" where
  "mac_octets (Mac a b c d e f) = [a, b, c, d, e, f]"

text \<open>\<^verbatim>\<open>from_bytes\<close> unwraps: any length but six panics.\<close>

fun mac_from_bytes :: "bytes \<Rightarrow> mac_address option" where
  "mac_from_bytes [a, b, c, d, e, f] = Some (Mac a b c d e f)"
| "mac_from_bytes _ = None"

lemma mac_from_octets [simp]: "mac_from_bytes (mac_octets m) = Some m"
  by (cases m) simp

lemma length_mac_octets [simp]: "length (mac_octets m) = 6"
  by (cases m) simp

section \<open>Ethernet headers\<close>

datatype ether_type2 = Arp | Ipv4 | Ipv6

fun ether_type_code :: "ether_type2 \<Rightarrow> u16" where
  "ether_type_code Arp = 0x806"
| "ether_type_code Ipv4 = 0x800"
| "ether_type_code Ipv6 = 0x86dd"

definition ether_type_try_from :: "u16 \<Rightarrow> ether_type2 outcome" where
  "ether_type_try_from n =
     (if n = 0x806 then Ok Arp else if n = 0x800 then Ok Ipv4 else if n = 0x86dd then Ok Ipv6
      else Err (fail_new ENOTSUP ''unsupported ETHERTYPE''))"

record ethernet2_header =
  eth_dst_addr :: mac_address
  eth_src_addr :: mac_address
  eth_ether_type :: ether_type2

definition ETHERNET2_HEADER_SIZE :: nat where
  "ETHERNET2_HEADER_SIZE = 14"

definition eth_new :: "mac_address \<Rightarrow> mac_address \<Rightarrow> ether_type2 \<Rightarrow> ethernet2_header" where
  "eth_new d s t = \<lparr>eth_dst_addr = d, eth_src_addr = s, eth_ether_type = t\<rparr>"

definition eth_parse :: "bytes \<Rightarrow> (ethernet2_header \<times> bytes) outcome" where
  "eth_parse buf =
     (if length buf < ETHERNET2_HEADER_SIZE then Err (fail_new EBADMSG ''frame too small'')
      else let hdr_buf = take ETHERNET2_HEADER_SIZE buf in
        bind_out (expect (mac_from_bytes (slice 0 6 hdr_buf))) (\<lambda>dst_addr.
        bind_out (expect (mac_from_bytes (slice 6 12 hdr_buf))) (\<lambda>src_addr.
        bind_out (ether_type_try_from (read_u16 hdr_buf 12)) (\<lambda>ether_type.
        bind_out (expect (buf_adjust ETHERNET2_HEADER_SIZE buf)) (\<lambda>buf'.
        Ok (eth_new dst_addr src_addr ether_type, buf'))))))"

definition eth_serialize :: "ethernet2_header \<Rightarrow> bytes \<Rightarrow> bytes option" where
  "eth_serialize h buf =
     (if length buf \<noteq> ETHERNET2_HEADER_SIZE then None
      else let buf = write_at 0 (mac_octets (eth_dst_addr h)) buf;
               buf = write_at 6 (mac_octets (eth_src_addr h)) buf
           in Some (write_at 12 (be16 (ether_type_code (eth_ether_type h))) buf))"

lemma ether_type_try_from_code [simp]: "ether_type_try_from (ether_type_code t) = Ok t"
  by (cases t) (simp_all add: ether_type_try_from_def)

lemma eth_serialize_bytes:
  "length buf = ETHERNET2_HEADER_SIZE \<Longrightarrow>
   eth_serialize h buf = Some (mac_octets (eth_dst_addr h) @ mac_octets (eth_src_addr h)
     @ be16 (ether_type_code (eth_ether_type h)))"
  by (simp add: eth_serialize_def ETHERNET2_HEADER_SIZE_def write_simps)

lemma eth_parse_bytes:
  "eth_parse (mac_octets d @ mac_octets s @ be16 (ether_type_code t) @ payload)
     = Ok (eth_new d s t, payload)"
  by (cases d; cases s)
    (simp add: eth_parse_def ETHERNET2_HEADER_SIZE_def slice_def be16_def read_u16_def buf_ops)

text \<open>Every Ethernet header that is serialized into a frame is parsed back unchanged, with the
  rest of the frame as its payload; a buffer of any other size is refused.\<close>

theorem eth_roundtrip:
  assumes "length buf = ETHERNET2_HEADER_SIZE"
  shows "\<exists>bs. eth_serialize h buf = Some bs \<and> length bs = ETHERNET2_HEADER_SIZE \<and>
    eth_parse (bs @ payload) = Ok (h, payload)"
proof (intro exI conjI)
  show "eth_serialize h buf = Some (mac_octets (eth_dst_addr h) @ mac_octets (eth_src_addr h)
     @ be16 (ether_type_code (eth_ether_type h)))"
    by (rule eth_serialize_bytes [OF assms])
qed (simp_all add: ETHERNET2_HEADER_SIZE_def eth_parse_bytes eth_new_def)

theorem eth_roundtrip_witness:
  "\<exists>bs. eth_serialize (eth_new (Mac 1 2 3 4 5 6) (Mac 7 8 9 10 11 12) Ipv4) (replicate 14 0) = Some bs \<and>
    length bs = ETHERNET2_HEADER_SIZE \<and>
    eth_parse (bs @ [42]) = Ok (eth_new (Mac 1 2 3 4 5 6) (Mac 7 8 9 10 11 12) Ipv4, [42])"
  by (rule eth_roundtrip) (simp add: ETHERNET2_HEADER_SIZE_def)

section \<open>ARP headers\<close>

datatype arp_operation = Request | Reply

fun arp_operation_code :: "arp_operation \<Rightarrow> u16" where
  "arp_operation_code Request = 1"
| "arp_operation_code Reply = 2"

definition arp_operation_from_u16 :: "u16 \<Rightarrow> arp_operation option" where
  "arp_operation_from_u16 n = (if n = 1 then Some Request else if n = 2 then Some Reply else None)"

record arp_header =
  arp_op :: arp_operation
  arp_sender_hw :: mac_address
  arp_sender_ip :: ipv4addr
  arp_target_hw :: mac_address
  arp_target_ip :: ipv4addr

definition ARP_MESSAGE_SIZE :: nat where
  "ARP_MESSAGE_SIZE = 28"

definition arp_new ::
  "arp_operation \<Rightarrow> mac_address \<Rightarrow> ipv4addr \<Rightarrow> mac_address \<Rightarrow> ipv4addr \<Rightarrow> arp_header" where
  "arp_new oper lha lip rha rip =
     \<lparr>arp_op = oper, arp_sender_hw = lha, arp_sender_ip = lip, arp_target_hw = rha, arp_target_ip = rip\<rparr>"

definition arp_parse :: "bytes \<Rightarrow> arp_header outcome" where
  "arp_parse buf0 =
     (if length buf0 < ARP_MESSAGE_SIZE then Err (fail_new EBADMSG ''ARP message too short'')
      else let buf = take ARP_MESSAGE_SIZE buf0 in
        if read_u16 buf 0 \<noteq> 1 then Err (fail_new ENOTSUP ''unsupported HTYPE'')
        else if read_u16 buf 2 \<noteq> 0x800 then Err (fail_new ENOTSUP ''unsupported PTYPE'')
        else if buf ! 4 \<noteq> 6 then Err (fail_new ENOTSUP ''unsupported HLEN'')
        else if buf ! 5 \<noteq> 4 then Err (fail_new ENOTSUP ''unsupported PLEN'')
        else case arp_operation_from_u16 (read_u16 buf 6) of
            None \<Rightarrow> Err (fail_new ENOTSUP ''unsupported OPER'')
          | Some operation \<Rightarrow>
              bind_out (expect (mac_from_bytes (slice 8 14 buf))) (\<lambda>sha.
              bind_out (expect (mac_from_bytes (slice 18 24 buf))) (\<lambda>tha.
              Ok (arp_new operation sha (read_u32 buf 14) tha (read_u32 buf 24)))))"

definition arp_serialize :: "arp_header \<Rightarrow> bytes \<Rightarrow> bytes option" where
  "arp_serialize h buf =
     (if length buf < ARP_MESSAGE_SIZE then None
      else let buf = write_at 0 (be16 1) buf;
               buf = write_at 2 (be16 0x800) buf;
               buf = write_at 4 [6] buf;
               buf = write_at 5 [4] buf;
               buf = write_at 6 (be16 (arp_operation_code (arp_op h))) buf;
               buf = write_at 8 (mac_octets (arp_sender_hw h)) buf;
               buf = write_at 14 (be32 (arp_sender_ip h)) buf;
               buf = write_at 18 (mac_octets (arp_target_hw h)) buf
           in Some (write_at 24 (be32 (arp_target_ip h)) buf))"

lemma arp_operation_from_code [simp]: "arp_operation_from_u16 (arp_operation_code c) = Some c"
  by (cases c) (simp_all add: arp_operation_from_u16_def)

lemma arp_serialize_bytes:
  "ARP_MESSAGE_SIZE \<le> length buf \<Longrightarrow> arp_serialize h buf =
     Some ((be16 1 @ be16 0x800 @ [6, 4] @ be16 (arp_operation_code (arp_op h))
      @ mac_octets (arp_sender_hw h) @ be32 (arp_sender_ip h) @ mac_octets (arp_target_hw h)
      @ be32 (arp_target_ip h)) @ drop ARP_MESSAGE_SIZE buf)"
  by (simp add: arp_serialize_def ARP_MESSAGE_SIZE_def write_simps)

lemma arp_parse_bytes:
  "arp_parse ((be16 1 @ be16 0x800 @ [6, 4] @ be16 (arp_operation_code oper)
      @ mac_octets sh @ be32 si @ mac_octets th @ be32 ti) @ rest) = Ok (arp_new oper sh si th ti)"
proof -
  have codes: "mk16 0 1 = 1" "mk16 8 2048 = 0x800"
    by (simp_all add: mk16_def)
  show ?thesis
    by (cases sh; cases th)
      (simp add: arp_parse_def ARP_MESSAGE_SIZE_def slice_def be16_def be32_def read_u16_def
        read_u32_def Let_def codes)
qed

text \<open>An ARP message survives serialization and parsing, whatever follows it in the frame;
  frames shorter than the message are refused.\<close>

theorem arp_roundtrip:
  assumes "ARP_MESSAGE_SIZE \<le> length buf"
  shows "\<exists>bs. arp_serialize h buf = Some bs \<and> length bs = length buf \<and> arp_parse bs = Ok h"
proof (intro exI conjI)
  let ?bs = "(be16 1 @ be16 0x800 @ [6, 4] @ be16 (arp_operation_code (arp_op h))
      @ mac_octets (arp_sender_hw h) @ be32 (arp_sender_ip h) @ mac_octets (arp_target_hw h)
      @ be32 (arp_target_ip h)) @ drop ARP_MESSAGE_SIZE buf"
  show "arp_serialize h buf = Some ?bs"
    by (rule arp_serialize_bytes [OF assms])
  show "length ?bs = length buf"
    using assms by (simp add: ARP_MESSAGE_SIZE_def)
  show "arp_parse ?bs = Ok h"
    by (subst arp_parse_bytes) (simp add: arp_new_def)
qed

theorem arp_roundtrip_witness:
  "\<exists>bs. arp_serialize (arp_new Reply (Mac 1 2 3 4 5 6) 0x0A000109 (Mac 7 8 9 10 11 12) 0x0A000108)
      (replicate 46 0) = Some bs \<and> length bs = length (replicate 46 (0 :: u8)) \<and>
    arp_parse bs = Ok (arp_new Reply (Mac 1 2 3 4 5 6) 0x0A000109 (Mac 7 8 9 10 11 12) 0x0A000108)"
  by (rule arp_roundtrip) (simp add: ARP_MESSAGE_SIZE_def)

end
