(* ===== verification/SeqNumber.thy ===== *)
theory SeqNumber
  imports Prelude
begin

text \<open>
  TCP sequence numbers (\<^verbatim>\<open>src/rust/inetstack/protocols/tcp/sequence_number.rs\<close>): 32-bit
  values with wrapping addition and subtraction, compared by the sign of their wrapping
  difference. The lemmas relate these comparisons to the order of natural offsets from a
  common base, which is how the sender and receiver theories use them.
\<close>

type_synonym seq = u32

definition seq_add :: "seq \<Rightarrow> seq \<Rightarrow> seq" where
  "seq_add a b = a + b"

definition seq_sub :: "seq \<Rightarrow> seq \<Rightarrow> seq" where
  "seq_sub a b = a - b"

text \<open>The cast \<^verbatim>\<open>as i32\<close> is the signed reading of the word.\<close>

definition seq_lt :: "seq \<Rightarrow> seq \<Rightarrow> bool" where
  "seq_lt a b \<longleftrightarrow> sint (a - b) < 0"

definition seq_le :: "seq \<Rightarrow> seq \<Rightarrow> bool" where
  "seq_le a b \<longleftrightarrow> sint (a - b) \<le> 0"

definition seq_gt :: "seq \<Rightarrow> seq \<Rightarrow> bool" where
  "seq_gt a b \<longleftrightarrow> sint (a - b) > 0"

definition seq_ge :: "seq \<Rightarrow> seq \<Rightarrow> bool" where
  "seq_ge a b \<longleftrightarrow> sint (a - b) \<ge> 0"

lemmas seq_ops = seq_add_def seq_sub_def

section \<open>Signed readings as half-space tests\<close>

lemma odd_div_top: "(x :: nat) < 2 * m \<Longrightarrow> odd (x div m) \<longleftrightarrow> m \<le> x"
  by (cases "m \<le> x") (auto simp: le_div_geq)

lemma sint_neg_iff: "sint (w :: u32) < 0 \<longleftrightarrow> 2 ^ 31 \<le> unat w"
proof -
  have "sint w < 0 \<longleftrightarrow> bit w 31"
    using bit_last_iff [of w] by simp
  also have "\<dots> \<longleftrightarrow> bit (unat w) 31"
    by (simp add: bit_simps)
  also have "\<dots> \<longleftrightarrow> odd (unat w div 2 ^ 31)"
    by (simp add: bit_iff_odd)
  also have "\<dots> \<longleftrightarrow> 2 ^ 31 \<le> unat w"
    by (rule odd_div_top) (use unsigned_less [of w, where 'a = nat] in simp)
  finally show ?thesis .
qed

lemma sint_zero_iff: "sint (w :: u32) = 0 \<longleftrightarrow> w = 0"
  using word_eq_iff_signed [of w 0, where 'a = int] by simp

lemma seq_lt_iff: "seq_lt a b \<longleftrightarrow> 2 ^ 31 \<le> unat (a - b)"
  by (simp only: seq_lt_def sint_neg_iff)

lemma seq_le_iff: "seq_le a b \<longleftrightarrow> a = b \<or> seq_lt a b"
  unfolding seq_le_def seq_lt_def by (auto simp: order_le_less sint_zero_iff)

lemma seq_ge_iff: "seq_ge a b \<longleftrightarrow> \<not> seq_lt a b"
  unfolding seq_ge_def seq_lt_def by auto

lemma seq_gt_iff: "seq_gt a b \<longleftrightarrow> \<not> seq_le a b"
  unfolding seq_gt_def seq_le_def by auto

section \<open>Comparison of offsets from a common base\<close>

text \<open>The distance of two numbers from a common base determines their wrapping difference.\<close>

lemma unat_diff_base:
  "unat (x - y :: u32) = (if unat (y - b) \<le> unat (x - b) then unat (x - b) - unat (y - b)
     else unat (x - b) + 2 ^ 32 - unat (y - b))"
proof -
  have "x - y = (x - b) - (y - b)"
    by simp
  then show ?thesis
    by (simp only: unat_sub_if') simp
qed

lemma seq_lt_base:
  assumes "unat (x - b) < 2 ^ 31" and "unat (y - b) < 2 ^ 31"
  shows "seq_lt x y \<longleftrightarrow> unat (x - b) < unat (y - b)"
  using assms unfolding seq_lt_iff unat_diff_base [of x y b] by auto

lemma seq_le_base:
  assumes "unat (x - b) < 2 ^ 31" and "unat (y - b) < 2 ^ 31"
  shows "seq_le x y \<longleftrightarrow> unat (x - b) \<le> unat (y - b)"
proof -
  have "x = y \<longleftrightarrow> unat (x - b) = unat (y - b)"
    by (metis diff_add_cancel word_unat_eq_iff)
  with seq_lt_base [OF assms] show ?thesis
    by (auto simp: seq_le_iff)
qed

lemma seq_lt_irrefl [simp]: "\<not> seq_lt a a"
  by (simp add: seq_lt_iff)

lemma seq_le_refl [simp]: "seq_le a a"
  by (simp add: seq_le_iff)

text \<open>two sequence numbers compare as their distances from a common base do, whenever both
  lie within half the sequence space above it, whatever wraps in between.\<close>

theorem seq_window_order:
  assumes "unat (x - base) < 2 ^ 31" and "unat (y - base) < 2 ^ 31"
  shows "(seq_lt x y \<longleftrightarrow> unat (x - base) < unat (y - base)) \<and>
    (seq_le x y \<longleftrightarrow> unat (x - base) \<le> unat (y - base)) \<and>
    (seq_gt x y \<longleftrightarrow> unat (x - base) > unat (y - base)) \<and>
    (seq_ge x y \<longleftrightarrow> unat (x - base) \<ge> unat (y - base))"
  using seq_lt_base [OF assms] seq_le_base [OF assms] by (auto simp: seq_gt_iff seq_ge_iff)

theorem seq_window_order_witness:
  "seq_lt 0xFFFFFFF0 0x10 \<longleftrightarrow> unat (0xFFFFFFF0 - 0xFFFFFF00 :: u32) < unat (0x10 - 0xFFFFFF00 :: u32)"
proof -
  have "unat (0xFFFFFFF0 - 0xFFFFFF00 :: u32) < 2 ^ 31" and "unat (0x10 - 0xFFFFFF00 :: u32) < 2 ^ 31"
    by simp_all
  from seq_window_order [OF this] show ?thesis
    by blast
qed

text \<open>The comparison is asymmetric except for antipodal numbers, which are each below the
  other; it is not transitive.\<close>

theorem seq_lt_antipodal:
  "(seq_lt a b \<and> seq_lt b a \<longleftrightarrow> a - b = 2 ^ 31) \<and>
   (\<exists>x y z. seq_lt x y \<and> seq_lt y z \<and> seq_lt z x)"
proof
  have "unat (b - a) = (if unat (a - b) = 0 then 0 else 2 ^ 32 - unat (a - b))"
    using unat_diff_base [of b a b] by simp
  then have "seq_lt a b \<and> seq_lt b a \<longleftrightarrow> unat (a - b) = unat (2 ^ 31 :: u32)"
    using unsigned_less [of "a - b", where 'a = nat] by (auto simp: seq_lt_iff)
  then show "seq_lt a b \<and> seq_lt b a \<longleftrightarrow> a - b = 2 ^ 31"
    by (simp only: word_unat_eq_iff)
  have "seq_lt 0 0x60000000 \<and> seq_lt 0x60000000 0xC0000000 \<and> seq_lt 0xC0000000 0"
    by (simp add: seq_lt_iff)
  then show "\<exists>x y z. seq_lt x y \<and> seq_lt y z \<and> seq_lt z x"
    by blast
qed

end
