(* ===== verification/Tcp_Segment.thy ===== *)
theory Tcp_Segment
  imports Datagram_Headers Link_Layer SeqNumber
begin

text \<open>
  TCP headers (\<^verbatim>\<open>protocols/tcp/segment.rs\<close>): options, serialization, the parser with its option
  cursor, and the checksum. The fixed array of options with its counter is the list of the first
  \<^verbatim>\<open>num_options\<close> entries, and the array of selective acknowledgements the list of the first
  \<^verbatim>\<open>num_sacks\<close>; nothing reads past the counters.
\<close>

section \<open>Headers and options\<close>

definition MIN_TCP_HEADER_SIZE :: nat where "MIN_TCP_HEADER_SIZE = 20"
definition MAX_TCP_HEADER_SIZE :: nat where "MAX_TCP_HEADER_SIZE = 60"
definition MAX_TCP_OPTIONS :: nat where "MAX_TCP_OPTIONS = 5"

datatype tcp_options2 =
    NoOperation
  | MaximumSegmentSize u16
  | WindowScale u8
  | SelectiveAcknowlegementPermitted
  | SelectiveAcknowlegement "(seq \<times> seq) list"
  | OptTimestamp u32 u32

record tcp_header =
  src_port :: u16
  dst_port :: u16
  seq_num :: seq
  ack_num :: seq
  ns :: bool
  cwr :: bool
  ece :: bool
  urg :: bool
  ack :: bool
  psh :: bool
  rst :: bool
  syn :: bool
  fin :: bool
  window_size :: u16
  urgent_pointer :: u16
  option_list :: "tcp_options2 list"

definition tcp_new :: "u16 \<Rightarrow> u16 \<Rightarrow> tcp_header" where
  "tcp_new s d =
     \<lparr>src_port = s, dst_port = d, seq_num = 0, ack_num = 0, ns = False, cwr = False, ece = False,
      urg = False, ack = False, psh = False, rst = False, syn = False, fin = False,
      window_size = 0, urgent_pointer = 0, option_list = []\<rparr>"

text \<open>Writing past the five slots panics.\<close>

definition push_option :: "tcp_header \<Rightarrow> tcp_options2 \<Rightarrow> tcp_header option" where
  "push_option h opt =
     (if length (option_list h) < MAX_TCP_OPTIONS
      then Some (h\<lparr>option_list := option_list h @ [opt]\<rparr>) else None)"

fun opt_compute_size :: "tcp_options2 \<Rightarrow> nat" where
  "opt_compute_size NoOperation = 1"
| "opt_compute_size (MaximumSegmentSize _) = 4"
| "opt_compute_size (WindowScale _) = 3"
| "opt_compute_size SelectiveAcknowlegementPermitted = 2"
| "opt_compute_size (SelectiveAcknowlegement sacks) = 2 + 8 * length sacks"
| "opt_compute_size (OptTimestamp _ _) = 10"

text \<open>The bytes an option writes at the front of the buffer it is given.\<close>

fun opt_bytes :: "tcp_options2 \<Rightarrow> bytes" where
  "opt_bytes NoOperation = [1]"
| "opt_bytes (MaximumSegmentSize mss) = [2, 4] @ be16 mss"
| "opt_bytes (WindowScale scale) = [3, 3, scale]"
| "opt_bytes SelectiveAcknowlegementPermitted = [4, 2]"
| "opt_bytes (SelectiveAcknowlegement sacks) =
     [5, 2 + 8 * of_nat (length sacks)] @ concat (map (\<lambda>(b, e). be32 b @ be32 e) sacks)"
| "opt_bytes (OptTimestamp sender echo) = [8, 10] @ be32 sender @ be32 echo"

lemma length_opt_bytes [simp]: "length (opt_bytes opt) = opt_compute_size opt"
proof (cases opt)
  case (SelectiveAcknowlegement sacks)
  have "length (concat (map (\<lambda>(b, e). be32 b @ be32 e) sacks)) = 8 * length sacks"
    by (induction sacks) auto
  with SelectiveAcknowlegement show ?thesis by simp
qed simp_all

definition opt_serialize :: "tcp_options2 \<Rightarrow> bytes \<Rightarrow> (bytes \<times> nat) option" where
  "opt_serialize opt buf =
     (if length buf < opt_compute_size opt then None
      else Some (write_at 0 (opt_bytes opt) buf, opt_compute_size opt))"

definition tcp_compute_size :: "tcp_header \<Rightarrow> nat" where
  "tcp_compute_size h =
     (let size = MIN_TCP_HEADER_SIZE + sum_list (map opt_compute_size (option_list h));
          size = (if option_list h \<noteq> [] then size + 1 else size)
      in 4 * ((size + 3) div 4))"

section \<open>Checksum\<close>

text \<open>\<open>None\<close>: a header slice of less than 20 bytes, or the failed assertion that its length is even.\<close>

definition tcp_checksum :: "ipv4_header \<Rightarrow> bytes \<Rightarrow> bytes \<Rightarrow> u16 option" where
  "tcp_checksum ip header data =
     (if length header < MIN_TCP_HEADER_SIZE then None
      else let state = pseudo_header_sum ip TCP (length header + length data);
               state = fold (\<lambda>i st. st + ucast (read_u16 header i)) [0, 2, 4, 6, 8, 10, 12, 14, 18] state
           in if length header > MIN_TCP_HEADER_SIZE \<and> odd (length header) then None
              else Some (checksum_finish (add_chunks data (add_chunks (drop MIN_TCP_HEADER_SIZE header) state))))"

section \<open>Serialization\<close>

text \<open>\<^verbatim>\<open>if c { byte |= 1 << n }\<close> and the test \<^verbatim>\<open>byte & (1 << n) != 0\<close>.\<close>

definition or_flag :: "bool \<Rightarrow> nat \<Rightarrow> u8 \<Rightarrow> u8" where
  "or_flag c n b = (if c then b OR push_bit n 1 else b)"

definition test_flag :: "nat \<Rightarrow> u8 \<Rightarrow> bool" where
  "test_flag n b \<longleftrightarrow> b AND push_bit n 1 \<noteq> 0"

lemma test_flag_bit: "n < 8 \<Longrightarrow> test_flag n b = bit b n"
  unfolding test_flag_def by (simp add: bit_iff_and_push_bit_not_eq_0)

lemma bit_or_flag: "m < 8 \<Longrightarrow> bit (or_flag c n b) m \<longleftrightarrow> bit b m \<or> c \<and> m = n"
  by (auto simp: or_flag_def bit_simps)

definition tcp_flag_byte :: "tcp_header \<Rightarrow> u8" where
  "tcp_flag_byte h =
     or_flag (fin h) 0 (or_flag (syn h) 1 (or_flag (rst h) 2 (or_flag (psh h) 3
      (or_flag (ack h) 4 (or_flag (urg h) 5 (or_flag (ece h) 6 (or_flag (cwr h) 7 0)))))))"

fun serialize_options :: "tcp_options2 list \<Rightarrow> nat \<Rightarrow> bytes \<Rightarrow> (bytes \<times> nat) option" where
  "serialize_options [] cur_pos buf = Some (buf, cur_pos)"
| "serialize_options (opt # opts) cur_pos buf =
     (if length buf < cur_pos then None
      else case opt_serialize opt (drop cur_pos buf) of
             None \<Rightarrow> None
           | Some (tl_buf, written) \<Rightarrow>
               serialize_options opts (cur_pos + written) (take cur_pos buf @ tl_buf))"

definition tcp_write_fixed :: "tcp_header \<Rightarrow> bytes \<Rightarrow> bytes" where
  "tcp_write_fixed h buf =
     (let buf = write_at 0 (be16 (src_port h)) buf;
          buf = write_at 2 (be16 (dst_port h)) buf;
          buf = write_at 4 (be32 (seq_num h)) buf;
          buf = write_at 8 (be32 (ack_num h)) buf;
          buf = write_at 12 [or_flag (ns h) 0 (push_bit 4 (of_nat (tcp_compute_size h div 4)))] buf;
          buf = write_at 13 [tcp_flag_byte h] buf;
          buf = write_at 14 (be16 (window_size h)) buf
      in write_at 18 (be16 (urgent_pointer h)) buf)"

definition tcp_serialize :: "tcp_header \<Rightarrow> bytes \<Rightarrow> ipv4_header \<Rightarrow> bytes \<Rightarrow> bool \<Rightarrow> bytes option" where
  "tcp_serialize h buf ip data tx_checksum_offload =
     (if length buf < MIN_TCP_HEADER_SIZE then None
      else case serialize_options (option_list h) MIN_TCP_HEADER_SIZE (tcp_write_fixed h buf) of
        None \<Rightarrow> None
      | Some (buf, cur_pos) \<Rightarrow>
          if option_list h \<noteq> [] \<and> length buf \<le> cur_pos then None
          else let (buf, cur_pos) = (if option_list h \<noteq> [] then (write_at cur_pos [0] buf, cur_pos + 1)
                                     else (buf, cur_pos)) in
               if length buf < cur_pos then None
               else let buf = take cur_pos buf @ replicate (length buf - cur_pos) 0 in
               if tx_checksum_offload then Some (write_at 16 (be16 0) buf)
               else case tcp_checksum ip buf data of
                      None \<Rightarrow> None
                    | Some checksum \<Rightarrow> Some (write_at 16 (be16 checksum) buf))"

section \<open>Parsing\<close>

text \<open>Reads of the option cursor: a short read is an I/O error.\<close>

fun rd_u8 :: "bytes \<Rightarrow> (u8 \<times> bytes) outcome" where
  "rd_u8 (b # r) = Ok (b, r)"
| "rd_u8 [] = Err fail_of_io_error"

fun rd_u16 :: "bytes \<Rightarrow> (u16 \<times> bytes) outcome" where
  "rd_u16 (a # b # r) = Ok (mk16 a b, r)"
| "rd_u16 _ = Err fail_of_io_error"

fun rd_u32 :: "bytes \<Rightarrow> (u32 \<times> bytes) outcome" where
  "rd_u32 (a # b # c # d # r) = Ok (mk32 a b c d, r)"
| "rd_u32 _ = Err fail_of_io_error"

fun rd_sacks :: "nat \<Rightarrow> bytes \<Rightarrow> ((seq \<times> seq) list \<times> bytes) outcome" where
  "rd_sacks 0 rdr = Ok ([], rdr)"
| "rd_sacks (Suc n) rdr =
     bind_out (rd_u32 rdr) (\<lambda>(b, rdr). bind_out (rd_u32 rdr) (\<lambda>(e, rdr).
     bind_out (rd_sacks n rdr) (\<lambda>(sacks, rdr). Ok ((b, e) # sacks, rdr))))"

text \<open>One option after its kind byte; kinds 0 and 1 are handled by the loop.\<close>

definition tcp_parse_option :: "u8 \<Rightarrow> bytes \<Rightarrow> (tcp_options2 \<times> bytes) outcome" where
  "tcp_parse_option kind rdr =
     (if kind = 2 then
        bind_out (rd_u8 rdr) (\<lambda>(option_length, rdr).
          if option_length \<noteq> 4 then Err (fail_new EBADMSG ''MSS size was not 4'')
          else bind_out (rd_u16 rdr) (\<lambda>(mss, rdr). Ok (MaximumSegmentSize mss, rdr)))
      else if kind = 3 then
        bind_out (rd_u8 rdr) (\<lambda>(option_length, rdr).
          if option_length \<noteq> 3 then Err (fail_new EBADMSG ''window scale size was not 3'')
          else bind_out (rd_u8 rdr) (\<lambda>(window_scale, rdr). Ok (WindowScale window_scale, rdr)))
      else if kind = 4 then
        bind_out (rd_u8 rdr) (\<lambda>(option_length, rdr).
          if option_length \<noteq> 2 then Err (fail_new EBADMSG ''SACK permitted size was not 2'')
          else Ok (SelectiveAcknowlegementPermitted, rdr))
      else if kind = 5 then
        bind_out (rd_u8 rdr) (\<lambda>(option_length, rdr).
          if option_length \<in> {10, 18, 26, 34} then
            bind_out (rd_sacks ((unat option_length - 2) div 8) rdr) (\<lambda>(sacks, rdr).
              Ok (SelectiveAcknowlegement sacks, rdr))
          else Err (fail_new EBADMSG ''invalid SACK size''))
      else if kind = 8 then
        bind_out (rd_u8 rdr) (\<lambda>(option_length, rdr).
          if option_length \<noteq> 10 then Err (fail_new EBADMSG ''TCP timestamp size was not 10'')
          else bind_out (rd_u32 rdr) (\<lambda>(sender, rdr). bind_out (rd_u32 rdr) (\<lambda>(echo, rdr).
            Ok (OptTimestamp sender echo, rdr))))
      else Err (fail_new EBADMSG ''invalid TCP option''))"

lemma rd_shrinks:
  "rd_u8 r = Ok (x, r') \<Longrightarrow> length r' < length r"
  "rd_u16 r = Ok (y, r') \<Longrightarrow> length r' < length r"
  "rd_u32 r = Ok (z, r') \<Longrightarrow> length r' < length r"
  by (auto elim: rd_u8.elims rd_u16.elims rd_u32.elims)

lemma rd_sacks_shrinks: "rd_sacks n r = Ok (ss, r') \<Longrightarrow> length r' \<le> length r"
  by (induction n arbitrary: r ss) (auto dest!: rd_shrinks, fastforce)

lemma tcp_parse_option_shrinks: "tcp_parse_option k r = Ok (opt, r') \<Longrightarrow> length r' < length r"
  by (auto simp: tcp_parse_option_def split: if_splits dest!: rd_shrinks rd_sacks_shrinks)

function tcp_parse_options :: "bytes \<Rightarrow> tcp_options2 list \<Rightarrow> tcp_options2 list outcome" where
  "tcp_parse_options [] opts = Ok opts"
| "tcp_parse_options (kind # rdr) opts =
     (if kind = 0 then Ok opts
      else if kind = 1 then tcp_parse_options rdr opts
      else case tcp_parse_option kind rdr of
             Ok (opt, rdr') \<Rightarrow>
               if length opts \<ge> MAX_TCP_OPTIONS then Err (fail_new EBADMSG ''too many TCP options provided'')
               else tcp_parse_options rdr' (opts @ [opt])
           | Err e \<Rightarrow> Err e
           | Panic \<Rightarrow> Panic)"
  by pat_completeness auto
termination
  by (relation "measure (\<lambda>(r, _). length r)") (auto dest: tcp_parse_option_shrinks)

definition tcp_parse :: "ipv4_header \<Rightarrow> bytes \<Rightarrow> bool \<Rightarrow> (tcp_header \<times> bytes) outcome" where
  "tcp_parse ip buf rx_checksum_offload =
     (if length buf < MIN_TCP_HEADER_SIZE then Err (fail_new EBADMSG ''TCP segment too small'')
      else let data_offset = unat (drop_bit 4 (buf ! 12)) * 4 in
      if length buf < data_offset then Err (fail_new EBADMSG ''TCP segment smaller than data offset'')
      else if data_offset < MIN_TCP_HEADER_SIZE then Err (fail_new EBADMSG ''TCP data offset too small'')
      else if data_offset > MAX_TCP_HEADER_SIZE then Err (fail_new EBADMSG ''TCP data offset too large'')
      else let hdr_buf = take data_offset buf; data_buf = drop data_offset buf in
      bind_out (if rx_checksum_offload then Ok ()
                else bind_out (expect (tcp_checksum ip hdr_buf data_buf)) (\<lambda>c.
                  if read_u16 hdr_buf 16 \<noteq> c then Err (fail_new EBADMSG ''TCP checksum mismatch'') else Ok ())) (\<lambda>_.
      bind_out (if data_offset > MIN_TCP_HEADER_SIZE
                then tcp_parse_options (drop MIN_TCP_HEADER_SIZE hdr_buf) [] else Ok []) (\<lambda>opts.
      bind_out (expect (buf_adjust data_offset buf)) (\<lambda>buf'.
      Ok (\<lparr>src_port = read_u16 hdr_buf 0, dst_port = read_u16 hdr_buf 2,
           seq_num = read_u32 hdr_buf 4, ack_num = read_u32 hdr_buf 8,
           ns = test_flag 0 (hdr_buf ! 12),
           cwr = test_flag 7 (hdr_buf ! 13), ece = test_flag 6 (hdr_buf ! 13),
           urg = test_flag 5 (hdr_buf ! 13), ack = test_flag 4 (hdr_buf ! 13),
           psh = test_flag 3 (hdr_buf ! 13), rst = test_flag 2 (hdr_buf ! 13),
           syn = test_flag 1 (hdr_buf ! 13), fin = test_flag 0 (hdr_buf ! 13),
           window_size = read_u16 hdr_buf 14, urgent_pointer = read_u16 hdr_buf 18,
           option_list = opts\<rparr>, buf')))))"

section \<open>Wire image\<close>

text \<open>Headers whose serialization carries all their fields: at most five options, no padding
  option among them, one to four selective acknowledgements, and at most 60 bytes in all.\<close>

fun tcp_opt_wf :: "tcp_options2 \<Rightarrow> bool" where
  "tcp_opt_wf NoOperation = False"
| "tcp_opt_wf (SelectiveAcknowlegement sacks) = (length sacks \<in> {1, 2, 3, 4})"
| "tcp_opt_wf _ = True"

definition tcp_header_wf :: "tcp_header \<Rightarrow> bool" where
  "tcp_header_wf h \<longleftrightarrow> length (option_list h) \<le> MAX_TCP_OPTIONS \<and> list_all tcp_opt_wf (option_list h)
     \<and> tcp_compute_size h \<le> MAX_TCP_HEADER_SIZE"

definition tcp_fixed_wire :: "tcp_header \<Rightarrow> u8 \<Rightarrow> u8 \<Rightarrow> bytes" where
  "tcp_fixed_wire h c0 c1 =
     be16 (src_port h) @ be16 (dst_port h) @ be32 (seq_num h) @ be32 (ack_num h)
     @ [or_flag (ns h) 0 (push_bit 4 (of_nat (tcp_compute_size h div 4))), tcp_flag_byte h]
     @ be16 (window_size h) @ [c0, c1] @ be16 (urgent_pointer h)"

definition tcp_opt_wire :: "tcp_header \<Rightarrow> bytes" where
  "tcp_opt_wire h =
     (let os = concat (map opt_bytes (option_list h)) @ (if option_list h = [] then [] else [0])
      in os @ replicate (tcp_compute_size h - 20 - length os) 0)"

lemma length_fixed_wire [simp]: "length (tcp_fixed_wire h a b) = 20"
  by (simp add: tcp_fixed_wire_def)

lemma length_opts_wire: "length (concat (map opt_bytes opts)) = sum_list (map opt_compute_size opts)"
  by (simp add: length_concat comp_def)

lemma tcp_compute_size_bounds:
  "20 + length (concat (map opt_bytes (option_list h)) @ (if option_list h = [] then [] else [0 :: u8]))
     \<le> tcp_compute_size h"
  "4 dvd tcp_compute_size h" "20 \<le> tcp_compute_size h"
proof -
  have r: "k \<le> 4 * ((k + 3) div 4)" for k :: nat
    by presburger
  have l: "length (concat (map opt_bytes (option_list h))) = sum_list (map opt_compute_size (option_list h))"
    by (rule length_opts_wire)
  show le: "20 + length (concat (map opt_bytes (option_list h)) @ (if option_list h = [] then [] else [0 :: u8]))
     \<le> tcp_compute_size h"
    unfolding length_append l
    using r [of "20 + sum_list (map opt_compute_size (option_list h))"]
      r [of "21 + sum_list (map opt_compute_size (option_list h))"]
    by (simp add: tcp_compute_size_def MIN_TCP_HEADER_SIZE_def Let_def add.commute)
  then show "20 \<le> tcp_compute_size h"
    by linarith
qed (simp add: tcp_compute_size_def Let_def)

lemma length_opt_wire [simp]: "length (tcp_opt_wire h) = tcp_compute_size h - 20"
  using tcp_compute_size_bounds(1) [of h] by (simp add: tcp_opt_wire_def Let_def)

lemma serialize_options_wire:
  "cur + length (concat (map opt_bytes opts)) \<le> length buf \<Longrightarrow>
   serialize_options opts cur buf = Some (take cur buf @ concat (map opt_bytes opts)
      @ drop (cur + length (concat (map opt_bytes opts))) buf, cur + length (concat (map opt_bytes opts)))"
proof (induction opts arbitrary: cur buf)
  case (Cons opt opts)
  have s: "opt_serialize opt (drop cur buf)
      = Some (opt_bytes opt @ drop (cur + opt_compute_size opt) buf, opt_compute_size opt)"
    using Cons.prems by (simp add: opt_serialize_def write_at_0 add.commute)
  show ?case
    using Cons.prems by (simp add: s Cons.IH ac_simps)
qed simp

lemma tcp_write_fixed_wire:
  assumes "20 \<le> length buf"
  shows "tcp_write_fixed h buf = tcp_fixed_wire h (buf ! 16) (buf ! 17) @ drop 20 buf"
proof -
  have "drop 16 buf = buf ! 16 # buf ! 17 # drop 18 buf"
    using assms Cons_nth_drop_Suc [of 16 buf] Cons_nth_drop_Suc [of 17 buf] by simp
  then show ?thesis
    using assms by (simp add: tcp_write_fixed_def tcp_fixed_wire_def write_simps)
qed

text \<open>The checksum skips its own field.\<close>

lemma tcp_checksum_wire:
  "tcp_checksum ip (tcp_fixed_wire h a b @ r) data = tcp_checksum ip (tcp_fixed_wire h 0 0 @ r) data"
  by (simp add: tcp_checksum_def MIN_TCP_HEADER_SIZE_def tcp_fixed_wire_def be16_def be32_def read_u16_def)

lemma tcp_checksum_defined: "even (length r) \<Longrightarrow> \<exists>c. tcp_checksum ip (tcp_fixed_wire h a b @ r) data = Some c"
  by (simp add: tcp_checksum_def MIN_TCP_HEADER_SIZE_def Let_def)

lemma write_checksum_wire:
  "write_at 16 [x, y] (tcp_fixed_wire h a b @ r) = tcp_fixed_wire h x y @ r"
  by (simp add: tcp_fixed_wire_def write_simps)

lemma tcp_serialize_wire:
  assumes "length buf = tcp_compute_size h"
  shows "\<exists>c. tcp_checksum ip (tcp_fixed_wire h 0 0 @ tcp_opt_wire h) data = Some c \<and>
    tcp_serialize h buf ip data offload =
      Some (tcp_fixed_wire h (if offload then 0 else ucast (drop_bit 8 c)) (if offload then 0 else ucast c)
        @ tcp_opt_wire h)"
proof -
  define os where "os = concat (map opt_bytes (option_list h))"
  note b = tcp_compute_size_bounds [of h, folded os_def]
  have l: "20 \<le> length buf" "20 + length os \<le> length buf"
    using assms b(1,3) by auto
  define F where "F = tcp_fixed_wire h (buf ! 16) (buf ! 17)"
  have fx: "tcp_write_fixed h buf = F @ drop 20 buf"
    using l by (simp add: tcp_write_fixed_wire F_def)
  have lF: "length F = 20"
    by (simp add: F_def)
  have so: "serialize_options (option_list h) MIN_TCP_HEADER_SIZE (tcp_write_fixed h buf)
      = Some (F @ os @ drop (20 + length os) buf, 20 + length os)"
    using l by (simp add: serialize_options_wire MIN_TCP_HEADER_SIZE_def fx lF os_def ac_simps)
  have ev: "even (length (tcp_opt_wire h))"
    using b(2,3) by (simp add: dvd_trans [of 2 4])
  obtain c where c: "tcp_checksum ip (tcp_fixed_wire h 0 0 @ tcp_opt_wire h) data = Some c"
    using tcp_checksum_defined [OF ev] by blast
  have c': "tcp_checksum ip (F @ tcp_opt_wire h) data = Some c"
    using c tcp_checksum_wire F_def by metis
  have "tcp_serialize h buf ip data offload =
    (if offload then Some (write_at 16 (be16 0) (F @ tcp_opt_wire h))
     else case tcp_checksum ip (F @ tcp_opt_wire h) data of None \<Rightarrow> None
       | Some c \<Rightarrow> Some (write_at 16 (be16 c) (F @ tcp_opt_wire h)))"
    using l b(1) assms so lF
    by (cases "option_list h = []")
       (simp_all add: tcp_serialize_def MIN_TCP_HEADER_SIZE_def Let_def tcp_opt_wire_def os_def [symmetric] write_simps
         cong: option.case_cong)
  with c c' show ?thesis
    by (simp add: be16_def F_def write_checksum_wire)
qed

section \<open>Round trip\<close>

lemma rd_sacks_wire:
  "rd_sacks (length sacks) (concat (map (\<lambda>(b, e). be32 b @ be32 e) sacks) @ r) = Ok (sacks, r)"
  by (induction sacks) (auto simp: be32_def)

lemma tcp_parse_option_wire:
  "tcp_opt_wf opt \<Longrightarrow> \<exists>k ps. opt_bytes opt = k # ps \<and> k \<noteq> 0 \<and> k \<noteq> 1 \<and> tcp_parse_option k (ps @ r) = Ok (opt, r)"
proof (cases opt)
  case (SelectiveAcknowlegement sacks)
  moreover assume "tcp_opt_wf opt"
  ultimately have "length sacks = 1 \<or> length sacks = 2 \<or> length sacks = 3 \<or> length sacks = 4"
    by auto
  then show ?thesis
    using rd_sacks_wire [of sacks r] SelectiveAcknowlegement
    by (auto simp: tcp_parse_option_def)
qed (auto simp: tcp_parse_option_def be16_def be32_def)

lemma tcp_parse_options_wire:
  "list_all tcp_opt_wf opts \<Longrightarrow> length acc + length opts \<le> MAX_TCP_OPTIONS \<Longrightarrow>
   tcp_parse_options (concat (map opt_bytes opts) @ 0 # z) acc = Ok (acc @ opts)"
proof (induction opts arbitrary: acc)
  case (Cons opt opts)
  obtain k ps where "opt_bytes opt = k # ps" "k \<noteq> 0" "k \<noteq> 1"
    "tcp_parse_option k (ps @ concat (map opt_bytes opts) @ 0 # z) = Ok (opt, concat (map opt_bytes opts) @ 0 # z)"
    using tcp_parse_option_wire Cons.prems by fastforce
  then show ?case
    using Cons by simp
qed simp

lemma tcp_parse_options_replicate: "tcp_parse_options (replicate n 0) [] = Ok []"
  by (cases n) simp_all

lemma tcp_parse_opt_wire:
  assumes "tcp_header_wf h"
  shows "tcp_parse_options (tcp_opt_wire h) [] = Ok (option_list h)"
proof (cases "option_list h = []")
  case True
  then show ?thesis
    by (simp add: tcp_opt_wire_def Let_def tcp_parse_options_replicate)
next
  case False
  with assms show ?thesis
    using tcp_parse_options_wire [of "option_list h" "[]"]
    by (simp add: tcp_opt_wire_def Let_def tcp_header_wf_def)
qed

lemma bit_0_push: "bit (push_bit 4 (w :: u8)) 0 = False"
  by (simp add: bit_simps)

lemma tcp_offset_byte:
  assumes "4 dvd n" "n \<le> 60"
  shows "unat (drop_bit 4 (or_flag c 0 (push_bit 4 (of_nat (n div 4) :: u8)))) * 4 = n"
    "test_flag 0 (or_flag c 0 (push_bit 4 (of_nat (n div 4) :: u8))) = c"
proof -
  define q where "q = (of_nat (n div 4) :: u8)"
  have u: "unat q = n div 4"
    using assms by (simp add: q_def unat_of_nat take_bit_nat_eq_self)
  then have "unat q < 2 ^ 4"
    using assms by simp
  then have b: "bit q k \<Longrightarrow> k < 4" for k
    using bit_u8_bounded by blast
  have "drop_bit 4 (or_flag c 0 (push_bit 4 q)) = q"
    by (rule bit_word_eqI) (auto simp: or_flag_def bit_simps dest: b)
  then show "unat (drop_bit 4 (or_flag c 0 (push_bit 4 (of_nat (n div 4) :: u8)))) * 4 = n"
    using u assms by (simp add: q_def)
  show "test_flag 0 (or_flag c 0 (push_bit 4 (of_nat (n div 4) :: u8))) = c"
    by (simp add: test_flag_bit bit_or_flag bit_0_push del: bit_0)
qed

lemma tcp_flag_byte_test:
  "test_flag 7 (tcp_flag_byte h) = cwr h" "test_flag 6 (tcp_flag_byte h) = ece h"
  "test_flag 5 (tcp_flag_byte h) = urg h" "test_flag 4 (tcp_flag_byte h) = ack h"
  "test_flag 3 (tcp_flag_byte h) = psh h" "test_flag 2 (tcp_flag_byte h) = rst h"
  "test_flag (Suc 0) (tcp_flag_byte h) = syn h" "test_flag 0 (tcp_flag_byte h) = fin h"
  by (simp_all add: test_flag_bit tcp_flag_byte_def bit_or_flag del: bit_0)

lemma tcp_parse_wire:
  assumes wf: "tcp_header_wf h"
    and ck: "rx_offload \<or> tcp_checksum ip (tcp_fixed_wire h 0 0 @ tcp_opt_wire h) data = Some (mk16 a b)"
  shows "tcp_parse ip (tcp_fixed_wire h a b @ tcp_opt_wire h @ data) rx_offload = Ok (h, data)"
proof -
  define w where "w = tcp_fixed_wire h a b @ tcp_opt_wire h"
  define n where "n = tcp_compute_size h"
  have n: "4 dvd n" "20 \<le> n" "n \<le> 60"
    using tcp_compute_size_bounds [of h] wf
    by (simp_all add: n_def tcp_header_wf_def MAX_TCP_HEADER_SIZE_def)
  have len: "length w = n"
    using n(2) by (simp add: w_def n_def)
  have f: "w ! 12 = or_flag (ns h) 0 (push_bit 4 (of_nat (n div 4)))" "w ! 13 = tcp_flag_byte h"
    "read_u16 w 0 = src_port h" "read_u16 w 2 = dst_port h" "read_u32 w 4 = seq_num h"
    "read_u32 w 8 = ack_num h" "read_u16 w 14 = window_size h" "read_u16 w 16 = mk16 a b"
    "read_u16 w 18 = urgent_pointer h" "drop 20 w = tcp_opt_wire h"
    by (simp_all add: w_def n_def tcp_fixed_wire_def be16_def be32_def read_u16_def read_u32_def)
  have off: "unat (drop_bit 4 (w ! 12)) * 4 = n" "test_flag 0 (w ! 12) = ns h"
    unfolding f by (rule tcp_offset_byte [OF n(1,3)])+
  have nth: "(w @ data) ! 12 = w ! 12"
    using len n(2) by (simp add: nth_append)
  have opts: "n > 20 \<Longrightarrow> tcp_parse_options (tcp_opt_wire h) [] = Ok (option_list h)" "n = 20 \<Longrightarrow> option_list h = []"
    "n = 20 \<Longrightarrow> tcp_opt_wire h = []"
    using tcp_parse_opt_wire [OF wf] tcp_compute_size_bounds(1) [of h] length_opt_wire [of h]
    by (auto simp: n_def split: if_splits simp del: length_opt_wire)
  have ck': "rx_offload \<or> tcp_checksum ip w data = Some (mk16 a b)"
    using ck tcp_checksum_wire [of ip h a b "tcp_opt_wire h" data] by (simp add: w_def)
  have "tcp_parse ip (w @ data) rx_offload = Ok (h, data)"
    unfolding tcp_parse_def MIN_TCP_HEADER_SIZE_def MAX_TCP_HEADER_SIZE_def
    using n len ck' opts
    by (cases rx_offload; cases "n = 20") (simp_all add: nth off f(2-) Let_def tcp_flag_byte_test buf_ops)
  then show ?thesis
    by (simp add: w_def)
qed

text \<open>a TCP header with at most five options and at most 60 bytes is serialized without panicking
  into exactly the size it computes, and the parser returns the same header, options included, and
  leaves the data, whether checksums are computed in software or the receiver offloads them.\<close>

theorem tcp_header_roundtrip:
  assumes "tcp_header_wf h" "length buf = tcp_compute_size h" "tx_offload \<longrightarrow> rx_offload"
  shows "\<exists>bs. tcp_serialize h buf ip data tx_offload = Some bs \<and> length bs = tcp_compute_size h \<and>
    tcp_parse ip (bs @ data) rx_offload = Ok (h, data)"
proof -
  obtain c where c: "tcp_checksum ip (tcp_fixed_wire h 0 0 @ tcp_opt_wire h) data = Some c"
    and ser: "tcp_serialize h buf ip data tx_offload =
      Some (tcp_fixed_wire h (if tx_offload then 0 else ucast (drop_bit 8 c)) (if tx_offload then 0 else ucast c)
        @ tcp_opt_wire h)"
    using tcp_serialize_wire [OF assms(2)] by blast
  have "tcp_parse ip (tcp_fixed_wire h (if tx_offload then 0 else ucast (drop_bit 8 c))
      (if tx_offload then 0 else ucast c) @ tcp_opt_wire h @ data) rx_offload = Ok (h, data)"
    by (rule tcp_parse_wire [OF assms(1)]) (use assms(3) c in auto)
  then show ?thesis
    using ser tcp_compute_size_bounds(3) [of h] by simp
qed

theorem tcp_header_roundtrip_witness:
  "\<exists>bs. tcp_serialize ((tcp_new 80 5000)\<lparr>syn := True, option_list := [MaximumSegmentSize 1460, WindowScale 7]\<rparr>)
      (replicate 28 0) (ipv4_new 1 2 TCP) [9] False = Some bs
    \<and> length bs = tcp_compute_size ((tcp_new 80 5000)\<lparr>syn := True, option_list := [MaximumSegmentSize 1460, WindowScale 7]\<rparr>)
    \<and> tcp_parse (ipv4_new 1 2 TCP) (bs @ [9]) False
       = Ok ((tcp_new 80 5000)\<lparr>syn := True, option_list := [MaximumSegmentSize 1460, WindowScale 7]\<rparr>, [9])"
  by (rule tcp_header_roundtrip)
    (simp_all add: tcp_header_wf_def tcp_compute_size_def tcp_new_def MIN_TCP_HEADER_SIZE_def
      MAX_TCP_HEADER_SIZE_def MAX_TCP_OPTIONS_def)

section \<open>Segments as packets\<close>

record tcp_segment =
  ethernet2_hdr :: ethernet2_header
  ipv4_hdr :: ipv4_header
  tcp_hdr :: tcp_header
  seg_data :: "bytes option"
  tx_checksum_offload :: bool

definition seg_header_size :: "tcp_segment \<Rightarrow> nat" where
  "seg_header_size s = ETHERNET2_HEADER_SIZE + IPV4_HEADER_MIN_SIZE + tcp_compute_size (tcp_hdr s)"

definition seg_body_size :: "tcp_segment \<Rightarrow> nat" where
  "seg_body_size s = (case seg_data s of Some buf \<Rightarrow> length buf | None \<Rightarrow> 0)"

definition seg_take_body :: "tcp_segment \<Rightarrow> bytes option" where
  "seg_take_body s = seg_data s"

text \<open>Each header is written into its own slice of the buffer; a slice out of range panics.\<close>

definition seg_write_header :: "tcp_segment \<Rightarrow> bytes \<Rightarrow> bytes option" where
  "seg_write_header s buf =
     (let tcp_hdr_size = tcp_compute_size (tcp_hdr s) in
      if length buf < 34 + tcp_hdr_size then None
      else case eth_serialize (ethernet2_hdr s) (slice 0 14 buf) of None \<Rightarrow> None | Some e \<Rightarrow>
        case ipv4_serialize (ipv4_hdr s) (slice 14 34 buf) (tcp_hdr_size + seg_body_size s) of
          None \<Rightarrow> None | Some i \<Rightarrow>
        let payload = (case seg_data s of Some b \<Rightarrow> b | None \<Rightarrow> []) in
        case tcp_serialize (tcp_hdr s) (slice 34 (34 + tcp_hdr_size) buf) (ipv4_hdr s) payload
            (tx_checksum_offload s) of
          None \<Rightarrow> None
        | Some t \<Rightarrow> Some (e @ i @ t @ drop (34 + tcp_hdr_size) buf))"

end
