(* ===== verification/Rto.thy ===== *)
theory Rto
  imports Prelude
begin

text \<open>
  The retransmission-timeout calculator (\<^verbatim>\<open>protocols/tcp/established/rto.rs\<close>). The floating-point
  state is held in exact rationals, in seconds.
\<close>

record rto_calculator =
  srtt :: rat
  rttvar :: rat
  rto :: rat
  received_sample :: bool

definition rto_new :: rto_calculator where
  "rto_new = \<lparr>srtt = 1, rttvar = 0, rto = 1, received_sample = False\<rparr>"

definition update_rto :: "rat \<Rightarrow> rto_calculator \<Rightarrow> rto_calculator" where
  "update_rto new_rto c =
     c\<lparr>rto := (if new_rto < 1 / 10 then 1 / 10 else if new_rto > 60 then 60 else new_rto)\<rparr>"

definition add_sample :: "duration \<Rightarrow> rto_calculator \<Rightarrow> rto_calculator" where
  "add_sample rtt c =
     (let c = (if \<not> received_sample c
               then c\<lparr>srtt := rtt, rttvar := rtt / 2, received_sample := True\<rparr>
               else let c = c\<lparr>rttvar := (1 - 1 / 4) * rttvar c + 1 / 4 * \<bar>srtt c - rtt\<bar>\<rparr>
                    in c\<lparr>srtt := (1 - 1 / 8) * srtt c + 1 / 8 * rtt\<rparr>)
      in update_rto (srtt c + max (1 / 1000) (4 * rttvar c)) c)"

definition back_off :: "rto_calculator \<Rightarrow> rto_calculator" where
  "back_off c = update_rto (rto c * 2) c"

definition rto_inv :: "rto_calculator \<Rightarrow> bool" where
  "rto_inv c \<longleftrightarrow> 1 / 10 \<le> rto c \<and> rto c \<le> 60 \<and> 0 \<le> rttvar c \<and> 0 \<le> srtt c"

lemma rto_inv_new [simp, intro]: "rto_inv rto_new"
  by (simp add: rto_inv_def rto_new_def)

lemma update_rto_bounds: "1 / 10 \<le> rto (update_rto r c)" "rto (update_rto r c) \<le> 60"
  by (simp_all add: update_rto_def)

lemma rto_inv_back_off [intro]: "rto_inv c \<Longrightarrow> rto_inv (back_off c)"
  using update_rto_bounds [of "rto c * 2" c]
  by (simp add: rto_inv_def back_off_def) (simp add: update_rto_def)

lemma rto_inv_add_sample [intro]:
  assumes "rto_inv c" "0 \<le> rtt"
  shows "rto_inv (add_sample rtt c)"
  using assms by (simp add: rto_inv_def add_sample_def update_rto_def Let_def)

text \<open>The events that reach the calculator.\<close>

datatype rto_event = Sample duration | Backoff

fun rto_step :: "rto_event \<Rightarrow> rto_calculator \<Rightarrow> rto_calculator" where
  "rto_step (Sample d) = add_sample d"
| "rto_step Backoff = back_off"

text \<open>C13: whatever round-trip samples and back-offs the connection feeds it, the calculator's timeout stays
  between 100 ms and 60 s and its smoothed estimates stay non-negative.\<close>

theorem rto_always_bounded:
  assumes "\<forall>d. Sample d \<in> set evs \<longrightarrow> 0 \<le> d"
  shows "rto_inv (fold rto_step evs rto_new)"
proof -
  have "rto_inv c \<Longrightarrow> rto_inv (fold rto_step evs c)" for c
    using assms
  proof (induction evs arbitrary: c)
    case (Cons e evs)
    then have "rto_inv (rto_step e c)"
      by (cases e) auto
    with Cons show ?case
      by simp
  qed simp
  then show ?thesis
    by blast
qed

theorem rto_always_bounded_witness:
  "rto_inv (fold rto_step [Sample 2, Backoff, Sample (1 / 100)] rto_new)"
  using rto_always_bounded [of "[Sample 2, Backoff, Sample (1 / 100)]"] by auto

text \<open>\<open>n\<close> consecutive retransmissions double the timeout each time and saturate at 60 s: after \<open>n\<close>
  back-offs it is \<open>2 ^ n\<close> times the value before, or 60 s when that is less.\<close>

theorem back_off_exponential:
  assumes "rto_inv c"
  shows "rto ((back_off ^^ n) c) = min 60 (2 ^ n * rto c)"
proof (induction n)
  case 0
  then show ?case using assms by (simp add: rto_inv_def)
next
  case (Suc n)
  define y where "y = 2 ^ n * rto c"
  have "1 / 10 \<le> y"
    using assms mult_mono [of 1 "2 ^ n :: rat" "1 / 10" "rto c"] by (simp add: rto_inv_def y_def)
  moreover have "rto ((back_off ^^ Suc n) c) = rto (update_rto (min 60 y * 2) c)"
  proof -
    have "rto (back_off x) = rto (update_rto (rto x * 2) c)" for x
      by (simp add: back_off_def update_rto_def)
    then show ?thesis
      using Suc.IH by (simp add: y_def)
  qed
  moreover have "2 ^ Suc n * rto c = y * 2"
    by (simp add: y_def)
  ultimately show ?case
    by (simp only:) (simp add: update_rto_def min_def)
qed

theorem back_off_exponential_witness:
  "rto ((back_off ^^ 7) rto_new) = 60 \<and> rto ((back_off ^^ 3) rto_new) = 8"
  using back_off_exponential [of rto_new 7] back_off_exponential [of rto_new 3]
  by (simp add: rto_inv_def rto_new_def)

end
