(* ===== verification/Tcp_Sender.thy ===== *)
theory Tcp_Sender
  imports Tcp_Segment Rto "HOL-Library.Monad_Syntax"
begin

text \<open>
  The send side of an established connection (\<^verbatim>\<open>protocols/tcp/established/sender.rs\<close>): the
  unacknowledged and unsent queues, acknowledgement, and the peer's advertised window. The
  operations that also transmit (\<^verbatim>\<open>send\<close>, \<^verbatim>\<open>retransmit\<close>) are in the control-block theory.
  An empty buffer in a queue is the end-of-send marker (FIN), which occupies one sequence number.
\<close>

section \<open>State\<close>

record unacked_segment =
  seg_bytes :: bytes
  initial_tx :: "instant option"

record sender =
  send_unacked :: seq
  unacked_queue :: "unacked_segment list"
  send_next :: seq
  unsent_queue :: "bytes list"
  unsent_seq_no :: seq
  send_window :: u32
  send_window_last_update_seq :: seq
  send_window_last_update_ack :: seq
  snd_window_scale :: u8
  mss :: nat

definition UNSENT_QUEUE_CUTOFF :: nat where "UNSENT_QUEUE_CUTOFF = 1024"

definition sender_new :: "seq \<Rightarrow> u32 \<Rightarrow> u8 \<Rightarrow> nat \<Rightarrow> sender" where
  "sender_new seq_no window scale m =
     \<lparr>send_unacked = seq_no, unacked_queue = [], send_next = seq_no, unsent_queue = [],
      unsent_seq_no = seq_no, send_window = window, send_window_last_update_seq = seq_no,
      send_window_last_update_ack = seq_no, snd_window_scale = scale, mss = m\<rparr>"

definition push_unacked_segment :: "unacked_segment \<Rightarrow> sender \<Rightarrow> sender" where
  "push_unacked_segment seg s = s\<lparr>unacked_queue := unacked_queue s @ [seg]\<rparr>"

definition modify_send_next :: "(seq \<Rightarrow> seq) \<Rightarrow> sender \<Rightarrow> sender" where
  "modify_send_next f s = s\<lparr>send_next := f (send_next s)\<rparr>"

section \<open>Acknowledgement\<close>

text \<open>
  The loop over the retransmission queue. With acknowledged bytes left over and no segment to take
  them from, the release build loops forever (the assertion is compiled out): \<open>None\<close>. \<^verbatim>\<open>Instant\<close>
  subtraction saturates at zero.
\<close>

fun remove_acked ::
  "nat \<Rightarrow> instant \<Rightarrow> unacked_segment list \<Rightarrow> rto_calculator \<Rightarrow> (unacked_segment list \<times> rto_calculator) option" where
  "remove_acked bytes_remaining now [] c = (if bytes_remaining = 0 then Some ([], c) else None)"
| "remove_acked bytes_remaining now (seg # q) c =
     (if bytes_remaining = 0 then Some (seg # q, c)
      else let c = (case initial_tx seg of Some t \<Rightarrow> add_sample (max 0 (now - t)) c | None \<Rightarrow> c)
           in if length (seg_bytes seg) > bytes_remaining
              then (case buf_adjust bytes_remaining (seg_bytes seg) of
                      None \<Rightarrow> None
                    | Some b \<Rightarrow> Some (\<lparr>seg_bytes = b, initial_tx = None\<rparr> # q, c))
              else let bytes_remaining = (if length (seg_bytes seg) = 0 then 0 else bytes_remaining)
                   in remove_acked (bytes_remaining - length (seg_bytes seg)) now q c)"

definition remove_acknowledged_data ::
  "u32 \<Rightarrow> instant \<Rightarrow> sender \<Rightarrow> rto_calculator \<Rightarrow> (sender \<times> rto_calculator) option" where
  "remove_acknowledged_data bytes_acknowledged now s c =
     (case remove_acked (unat bytes_acknowledged) now (unacked_queue s) c of
        None \<Rightarrow> None
      | Some (q, c) \<Rightarrow> Some (s\<lparr>unacked_queue := q\<rparr>, c))"

section \<open>The unsent queue\<close>

text \<open>\<open>None\<close> is a panic (adjusting an empty buffer); the inner option is the function's result.\<close>

definition pop_one_unsent_byte :: "sender \<Rightarrow> (bytes option \<times> sender) option" where
  "pop_one_unsent_byte s =
     (case unsent_queue s of
        [] \<Rightarrow> Some (None, s)
      | buf # q \<Rightarrow>
          do { buf' \<leftarrow> buf_adjust 1 buf;
               cloned_buf \<leftarrow> buf_trim (length buf - 1) buf;
               Some (Some cloned_buf, s\<lparr>unsent_queue := buf' # q\<rparr>) })"

definition pop_unsent :: "nat \<Rightarrow> sender \<Rightarrow> ((bytes \<times> bool) option \<times> sender) option" where
  "pop_unsent max_bytes s =
     (case unsent_queue s of
        [] \<Rightarrow> Some (None, s)
      | buf # q \<Rightarrow>
          if length buf > max_bytes then
            do { buf' \<leftarrow> buf_adjust max_bytes buf;
                 cloned_buf \<leftarrow> buf_trim (length buf - max_bytes) buf;
                 Some (Some (cloned_buf, False), s\<lparr>unsent_queue := buf' # q\<rparr>) }
          else Some (Some (buf, True), s\<lparr>unsent_queue := q\<rparr>))"

definition top_size_unsent :: "sender \<Rightarrow> nat option" where
  "top_size_unsent s = (case unsent_queue s of [] \<Rightarrow> None | b # _ \<Rightarrow> Some (length b))"

section \<open>The send window\<close>

text \<open>A \<^verbatim>\<open>u32\<close> shifted by an amount that is reduced modulo 32, as the release build does.\<close>

definition update_send_window :: "tcp_header \<Rightarrow> sender \<Rightarrow> sender" where
  "update_send_window h s =
     (if seq_lt (send_window_last_update_seq s) (seq_num h)
         \<or> (send_window_last_update_seq s = seq_num h \<and> seq_le (send_window_last_update_ack s) (ack_num h))
      then s\<lparr>send_window := push_bit (unat (snd_window_scale s) mod 32) (ucast (window_size h)),
             send_window_last_update_seq := seq_num h,
             send_window_last_update_ack := ack_num h\<rparr>
      else s)"

section \<open>Properties\<close>

text \<open>Sequence numbers a queued segment occupies, and the number of them in flight.\<close>

definition seg_size :: "unacked_segment \<Rightarrow> nat" where
  "seg_size seg = (if seg_bytes seg = [] then 1 else length (seg_bytes seg))"

definition flight :: "unacked_segment list \<Rightarrow> nat" where
  "flight q = sum_list (map seg_size q)"

definition fin_last :: "unacked_segment list \<Rightarrow> bool" where
  "fin_last q \<longleftrightarrow> list_all (\<lambda>seg. seg_bytes seg \<noteq> []) (butlast q)"

definition queued_bytes :: "unacked_segment list \<Rightarrow> bytes" where
  "queued_bytes q = concat (map seg_bytes q)"

lemma flight_simps [simp]:
  "flight [] = 0" "flight (seg # q) = seg_size seg + flight q" "flight (p @ q) = flight p + flight q"
  by (simp_all add: flight_def)

lemma queued_bytes_simps [simp]:
  "queued_bytes [] = []" "queued_bytes (seg # q) = seg_bytes seg @ queued_bytes q"
  "queued_bytes (p @ q) = queued_bytes p @ queued_bytes q"
  by (simp_all add: queued_bytes_def)

lemma fin_last_simps [simp]:
  "fin_last []" "fin_last [seg]"
  "q \<noteq> [] \<Longrightarrow> fin_last (seg # q) \<longleftrightarrow> seg_bytes seg \<noteq> [] \<and> fin_last q"
  "fin_last (q @ [seg]) \<longleftrightarrow> list_all (\<lambda>seg. seg_bytes seg \<noteq> []) q"
  by (simp_all add: fin_last_def)

lemma seg_size_pos [simp]: "0 < seg_size seg"
  by (simp add: seg_size_def)

lemma flight_eq_0 [simp]: "flight q = 0 \<longleftrightarrow> q = []"
  by (cases q) simp_all

lemma seg_size_le: "seg_bytes seg \<noteq> [] \<Longrightarrow> seg_size seg = length (seg_bytes seg)"
  by (simp add: seg_size_def)

lemma fin_last_tl: "fin_last (seg # q) \<Longrightarrow> fin_last q"
  by (cases "q = []") simp_all

text \<open>What the acknowledgement loop promises about the queue it returns.\<close>

definition acked_to :: "nat \<Rightarrow> unacked_segment list \<Rightarrow> unacked_segment list \<Rightarrow> bool" where
  "acked_to n q q' \<longleftrightarrow> flight q' = flight q - n \<and> fin_last q' \<and> queued_bytes q' = drop n (queued_bytes q)
     \<and> set q' \<subseteq> set q \<union> {seg. initial_tx seg = None}"

lemma remove_acked_ok:
  "fin_last q \<Longrightarrow> n \<le> flight q \<Longrightarrow> rto_inv c \<Longrightarrow>
   \<exists>q' c'. remove_acked n now q c = Some (q', c') \<and> acked_to n q q' \<and> rto_inv c'"
proof (induction q arbitrary: n c)
  case Nil
  then show ?case by (simp add: acked_to_def)
next
  case (Cons seg q)
  define c1 where "c1 = (case initial_tx seg of Some t \<Rightarrow> add_sample (max 0 (now - t)) c | None \<Rightarrow> c)"
  have c1: "rto_inv c1"
    using Cons.prems(3) by (auto simp: c1_def split: option.split)
  have fq: "fin_last q"
    using Cons.prems(1) fin_last_tl by blast
  consider (zero) "n = 0" | (partial) "n \<noteq> 0" "length (seg_bytes seg) > n"
    | (fin) "n \<noteq> 0" "seg_bytes seg = []" | (whole) "n \<noteq> 0" "seg_bytes seg \<noteq> []" "length (seg_bytes seg) \<le> n"
    by force
  then show ?case
  proof cases
    case zero
    then show ?thesis using Cons.prems by (auto simp: acked_to_def)
  next
    case partial
    then have "seg_bytes seg \<noteq> []" by auto
    moreover have "fin_last (\<lparr>seg_bytes = drop n (seg_bytes seg), initial_tx = None\<rparr> # q)"
      using Cons.prems(1) partial by (cases "q = []") simp_all
    ultimately show ?thesis
      using partial c1 by (auto simp: c1_def [symmetric] buf_ops acked_to_def seg_size_def)
  next
    case fin
    then have "q = []" "n = 1"
      using Cons.prems by (cases "q = []"; simp add: seg_size_def)+
    then show ?thesis
      using fin c1 by (auto simp: c1_def [symmetric] acked_to_def seg_size_def)
  next
    case whole
    then have "n - length (seg_bytes seg) \<le> flight q"
      using Cons.prems(2) by (simp add: seg_size_le)
    then obtain q' c' where r: "remove_acked (n - length (seg_bytes seg)) now q c1 = Some (q', c')"
      "acked_to (n - length (seg_bytes seg)) q q'" "rto_inv c'"
      using Cons.IH [OF fq _ c1] by blast
    moreover have "acked_to n (seg # q) q'"
      using r(2) whole by (auto simp: acked_to_def seg_size_le)
    ultimately show ?thesis
      using whole by (simp add: c1_def [symmetric])
  qed
qed

text \<open>C12: an acknowledgement that covers no more than what is in flight is processed to the end (the loop
  over the retransmission queue does not spin), removes exactly the acknowledged bytes from the front of
  the queued data, cuts a half-acknowledged segment in place and leaves the rest in order; the
  round-trip samples it takes keep the timeout within its bounds.\<close>

theorem remove_acknowledged_data_correct:
  assumes "fin_last (unacked_queue s)" "unat n \<le> flight (unacked_queue s)" "rto_inv c"
  shows "\<exists>q c'. remove_acknowledged_data n now s c = Some (s\<lparr>unacked_queue := q\<rparr>, c')
    \<and> flight q = flight (unacked_queue s) - unat n \<and> fin_last q
    \<and> queued_bytes q = drop (unat n) (queued_bytes (unacked_queue s)) \<and> rto_inv c'"
  using remove_acked_ok [OF assms, of now] by (auto simp: remove_acknowledged_data_def acked_to_def)

theorem remove_acknowledged_data_correct_witness:
  "\<exists>q c'. remove_acknowledged_data 4 9
      ((sender_new 0 100 0 50)\<lparr>unacked_queue := [\<lparr>seg_bytes = [1, 2, 3], initial_tx = Some 8\<rparr>,
         \<lparr>seg_bytes = [4, 5], initial_tx = Some 8\<rparr>, \<lparr>seg_bytes = [], initial_tx = None\<rparr>]\<rparr>) rto_new
    = Some ((sender_new 0 100 0 50)\<lparr>unacked_queue := [\<lparr>seg_bytes = [1, 2, 3], initial_tx = Some 8\<rparr>,
         \<lparr>seg_bytes = [4, 5], initial_tx = Some 8\<rparr>, \<lparr>seg_bytes = [], initial_tx = None\<rparr>]\<rparr>
         \<lparr>unacked_queue := q\<rparr>, c')
    \<and> flight q = 2 \<and> fin_last q \<and> queued_bytes q = [5] \<and> rto_inv c'"
  using remove_acknowledged_data_correct [of "(sender_new 0 100 0 50)\<lparr>unacked_queue :=
      [\<lparr>seg_bytes = [1, 2, 3], initial_tx = Some 8\<rparr>, \<lparr>seg_bytes = [4, 5], initial_tx = Some 8\<rparr>,
       \<lparr>seg_bytes = [], initial_tx = None\<rparr>]\<rparr>" 4 rto_new 9]
  by (simp add: seg_size_def flip: numeral_2_eq_2)

text \<open>taking a segment off the unsent queue never panics, fails only on an empty queue, and conserves
  the data: the bytes taken, at most the allowed size, followed by those left in the queue are those that
  were queued; PSH is suppressed exactly when the buffer was split.\<close>

theorem pop_unsent_conserves:
  "\<exists>r s'. pop_unsent max_bytes s = Some (r, s') \<and>
     (case r of None \<Rightarrow> unsent_queue s = [] \<and> s' = s
      | Some (buf, do_push) \<Rightarrow> length buf \<le> max_bytes
          \<and> buf @ concat (unsent_queue s') = concat (unsent_queue s)
          \<and> do_push = (length (unsent_queue s') < length (unsent_queue s))
          \<and> s' = s\<lparr>unsent_queue := unsent_queue s'\<rparr>)"
  by (cases "unsent_queue s") (auto simp: pop_unsent_def buf_ops)

text \<open>a window probe takes one byte off a non-empty unsent buffer, but when that buffer holds a single
  byte the emptied buffer stays at the head of the queue, where it reads as the end-of-send marker; and a
  probe whose queue starts with that marker panics.\<close>

theorem pop_one_unsent_byte_cases:
  "(\<forall>b bs q. unsent_queue s = (b # bs) # q \<longrightarrow>
      pop_one_unsent_byte s = Some (Some [b], s\<lparr>unsent_queue := bs # q\<rparr>))
   \<and> (\<forall>q. unsent_queue s = [] # q \<longrightarrow> pop_one_unsent_byte s = None)"
  by (auto simp: pop_one_unsent_byte_def buf_ops)

theorem pop_one_unsent_byte_cases_witness:
  "pop_one_unsent_byte ((sender_new 0 0 0 50)\<lparr>unsent_queue := [[7], [8, 9]]\<rparr>)
     = Some (Some [7], (sender_new 0 0 0 50)\<lparr>unsent_queue := [[], [8, 9]]\<rparr>)
   \<and> pop_one_unsent_byte ((sender_new 0 0 0 50)\<lparr>unsent_queue := [[], [8, 9]]\<rparr>) = None"
  using pop_one_unsent_byte_cases [of "(sender_new 0 0 0 50)\<lparr>unsent_queue := [[7], [8, 9]]\<rparr>"]
    pop_one_unsent_byte_cases [of "(sender_new 0 0 0 50)\<lparr>unsent_queue := [[], [8, 9]]\<rparr>"]
  by simp

end
