(* ===== verification/Stats.thy ===== *)
theory Stats
  imports Prelude
begin

text \<open>
  Load statistics of the connections (\<^verbatim>\<open>protocols/tcp/stats.rs\<close>), from which the server decides which
  connections to migrate: the per-connection handle a control block updates, the rolling average,
  the bucket list and the poll loop. A handle shared through \<^verbatim>\<open>Rc\<close> is an address in a store.
\<close>

section \<open>Handles\<close>

datatype stat = Disabled | Enabled nat | MarkedForDisable nat

record stats_handle =
  conn :: "sockaddr \<times> sockaddr"
  stat :: stat
  stat_to_update :: "nat option"
  bucket_list_position :: "(nat \<times> nat) option"
  handles_index :: "nat option"
  stat_right_before_disable :: "nat option"

definition sh_new :: "sockaddr \<times> sockaddr \<Rightarrow> stats_handle" where
  "sh_new c = \<lparr>conn = c, stat = Disabled, stat_to_update = None, bucket_list_position = None,
     handles_index = None, stat_right_before_disable = None\<rparr>"

definition sh_set :: "nat \<Rightarrow> stats_handle \<Rightarrow> stats_handle" where
  "sh_set val h = (case stat h of Enabled _ \<Rightarrow> h\<lparr>stat_to_update := Some val\<rparr> | _ \<Rightarrow> h)"

definition sh_increment :: "stats_handle \<Rightarrow> stats_handle" where
  "sh_increment h =
     (case stat h of
        Enabled val \<Rightarrow>
          (case stat_to_update h of
             Some u \<Rightarrow> h\<lparr>stat_to_update := Some (u + 1)\<rparr>
           | None \<Rightarrow> h\<lparr>stat_to_update := Some (val + 1)\<rparr>)
      | _ \<Rightarrow> h)"

definition sh_disable :: "stats_handle \<Rightarrow> stats_handle" where
  "sh_disable h =
     (case stat h of
        Enabled val \<Rightarrow> h\<lparr>stat := MarkedForDisable val, handles_index := None,
                          stat_right_before_disable := Some val\<rparr>
      | _ \<Rightarrow> h)"

end
