(* ===== verification/Ctrlblk.thy ===== *)
theory Ctrlblk
  imports Tcp_Sender Stats
begin

text \<open>
  The control block of an established connection (\<^verbatim>\<open>protocols/tcp/established/ctrlblk.rs\<close>, with
  \<^verbatim>\<open>send\<close> and \<^verbatim>\<open>retransmit\<close> of \<^verbatim>\<open>sender.rs\<close>). Its operations thread the block and return an
  option, \<open>None\<close> being a panic or, in acknowledgement processing, a loop that does not end.

  The collaborators a block holds references to appear as fields: the clock is the current instant,
  the ARP peer the cache it is asked for (\<^verbatim>\<open>try_query\<close> only reads it), the network runtime the log
  of the segments handed to it, and a task waker the identity of the task with a log of the wake-ups.
  Watched values are plain fields. Congestion control is \<^verbatim>\<open>congestion_control::None\<close>, the one
  every socket of the repository is built with: a window of \<^verbatim>\<open>u32::MAX\<close> and no-op hooks.
\<close>

section \<open>State\<close>

datatype tcp_state = Established | FinWait1 | FinWait2 | Closing | TimeWait | CloseWait | LastAck | Closed

record receiver =
  reader_next :: seq
  receive_next :: seq
  recv_queue :: "bytes list"
  recv_queue_stats :: stats_handle
  rps_stats :: stats_handle

record ctrl_block =
  cb_local :: sockaddr
  cb_remote :: sockaddr
  clock_now :: instant
  local_link_addr :: mac_address
  cfg_tx_offload :: bool
  arp_cache :: "ipv4addr \<Rightarrow> mac_address option"
  cb_sender :: sender
  cb_state :: tcp_state
  ack_delay_timeout :: duration
  ack_deadline :: "instant option"
  receive_buffer_size :: u32
  window_scale :: u32
  waker :: "nat option"
  out_of_order :: "(seq \<times> bytes) list"
  out_of_order_fin :: "seq option"
  cb_receiver :: receiver
  user_is_done_sending :: bool
  retransmit_deadline :: "instant option"
  rto_calculator :: rto_calculator
  transmitted :: "tcp_segment list"
  woken :: "nat list"

definition MAX_OUT_OF_ORDER :: nat where "MAX_OUT_OF_ORDER = 2048"

section \<open>The receiver\<close>

definition receiver_new :: "seq \<Rightarrow> seq \<Rightarrow> stats_handle \<Rightarrow> stats_handle \<Rightarrow> receiver" where
  "receiver_new rd rx st1 st2 =
     \<lparr>reader_next = rd, receive_next = rx, recv_queue = [], recv_queue_stats = st1, rps_stats = st2\<rparr>"

definition receiver_pop :: "receiver \<Rightarrow> (bytes option \<times> receiver)" where
  "receiver_pop r =
     (case recv_queue r of
        [] \<Rightarrow> (None, r)
      | buf # q \<Rightarrow>
          (Some buf, r\<lparr>recv_queue := q, recv_queue_stats := sh_set (length q) (recv_queue_stats r),
                       reader_next := seq_add (reader_next r) (of_nat (length buf))\<rparr>))"

definition receiver_push :: "bytes \<Rightarrow> receiver \<Rightarrow> receiver" where
  "receiver_push buf r =
     (let q = recv_queue r @ [buf]
      in r\<lparr>recv_queue := q, recv_queue_stats := sh_set (length q) (recv_queue_stats r),
           rps_stats := sh_increment (rps_stats r),
           receive_next := seq_add (receive_next r) (of_nat (length buf))\<rparr>)"

section \<open>Construction\<close>

definition cb_new ::
  "sockaddr \<Rightarrow> sockaddr \<Rightarrow> instant \<Rightarrow> mac_address \<Rightarrow> bool \<Rightarrow> (ipv4addr \<Rightarrow> mac_address option) \<Rightarrow>
   seq \<Rightarrow> duration \<Rightarrow> u32 \<Rightarrow> u32 \<Rightarrow> seq \<Rightarrow> u32 \<Rightarrow> u8 \<Rightarrow> nat \<Rightarrow> ctrl_block" where
  "cb_new local remote now link offload arp receiver_seq_no ack_delay receiver_window_size
      receiver_window_scale sender_seq_no sender_window_size sender_window_scale sender_mss =
     \<lparr>cb_local = local, cb_remote = remote, clock_now = now, local_link_addr = link,
      cfg_tx_offload = offload, arp_cache = arp,
      cb_sender = sender_new sender_seq_no sender_window_size sender_window_scale sender_mss,
      cb_state = Established, ack_delay_timeout = ack_delay, ack_deadline = None,
      receive_buffer_size = receiver_window_size, window_scale = receiver_window_scale,
      waker = None, out_of_order = [], out_of_order_fin = None,
      cb_receiver = receiver_new receiver_seq_no receiver_seq_no (sh_new (local, remote)) (sh_new (local, remote)),
      user_is_done_sending = False, retransmit_deadline = None, rto_calculator = rto_new,
      transmitted = [], woken = []\<rparr>"

definition disable_stats :: "ctrl_block \<Rightarrow> ctrl_block" where
  "disable_stats cb =
     cb\<lparr>cb_receiver := (cb_receiver cb)\<lparr>recv_queue_stats := sh_disable (recv_queue_stats (cb_receiver cb)),
                                       rps_stats := sh_disable (rps_stats (cb_receiver cb))\<rparr>\<rparr>"

section \<open>Windows, headers and transmission\<close>

definition get_receive_window_size :: "ctrl_block \<Rightarrow> u32" where
  "get_receive_window_size cb =
     (let bytes_unread = seq_sub (receive_next (cb_receiver cb)) (reader_next (cb_receiver cb))
      in receive_buffer_size cb - bytes_unread)"

text \<open>\<open>None\<close>: the scaled window does not fit in 16 bits (\<^verbatim>\<open>expect("Window size overflow")\<close>).\<close>

definition hdr_window_size :: "ctrl_block \<Rightarrow> u16 option" where
  "hdr_window_size cb =
     (let w = drop_bit (unat (window_scale cb) mod 32) (get_receive_window_size cb)
      in if unat w < 2 ^ 16 then Some (ucast w) else None)"

definition cb_tcp_header :: "ctrl_block \<Rightarrow> tcp_header option" where
  "cb_tcp_header cb =
     do { w \<leftarrow> hdr_window_size cb;
          Some ((tcp_new (snd (cb_local cb)) (snd (cb_remote cb)))
            \<lparr>window_size := w, ack := True, ack_num := receive_next (cb_receiver cb)\<rparr>) }"

definition set_ack_deadline :: "instant option \<Rightarrow> ctrl_block \<Rightarrow> ctrl_block" where
  "set_ack_deadline d cb = cb\<lparr>ack_deadline := d\<rparr>"

definition emit :: "tcp_header \<Rightarrow> bytes option \<Rightarrow> mac_address \<Rightarrow> ctrl_block \<Rightarrow> ctrl_block" where
  "emit header body remote_link_addr cb =
     (let segment = \<lparr>ethernet2_hdr = eth_new remote_link_addr (local_link_addr cb) Ipv4,
                     ipv4_hdr = ipv4_new (fst (cb_local cb)) (fst (cb_remote cb)) TCP,
                     tcp_hdr = header, seg_data = body, tx_checksum_offload = cfg_tx_offload cb\<rparr>;
          cb = cb\<lparr>transmitted := transmitted cb @ [segment]\<rparr>;
          cb = set_ack_deadline None cb
      in if fin header then
           (case cb_state cb of
              Established \<Rightarrow> cb\<lparr>cb_state := FinWait1\<rparr>
            | CloseWait \<Rightarrow> cb\<lparr>cb_state := LastAck\<rparr>
            | _ \<Rightarrow> cb)
         else cb)"

definition send_ack :: "ctrl_block \<Rightarrow> ctrl_block option" where
  "send_ack cb =
     do { header \<leftarrow> cb_tcp_header cb;
          let header = header\<lparr>seq_num := send_next (cb_sender cb)\<rparr>;
          (case arp_cache cb (fst (cb_remote cb)) of
             Some remote_link_addr \<Rightarrow> Some (emit header None remote_link_addr cb)
           | None \<Rightarrow> Some cb) }"

section \<open>Sending\<close>

text \<open>\<^verbatim>\<open>congestion_control::None\<close>\<close>

definition cc_get_cwnd :: u32 where "cc_get_cwnd = 0xFFFFFFFF"
definition cc_get_limited_transmit_cwnd_increase :: u32 where "cc_get_limited_transmit_cwnd_increase = 0"

text \<open>The immediate path of \<^verbatim>\<open>send\<close>: emit the buffer, an empty one as a FIN, and queue it for
  retransmission.\<close>

definition send_immediate :: "bytes \<Rightarrow> mac_address \<Rightarrow> ctrl_block \<Rightarrow> ctrl_block option" where
  "send_immediate buf remote_link_addr cb =
     do { header \<leftarrow> cb_tcp_header cb;
          let header = header\<lparr>seq_num := send_next (cb_sender cb)\<rparr>;
          let (header, buf_len) = (if buf = [] then (header\<lparr>fin := True\<rparr>, 1)
                                   else (header\<lparr>psh := True\<rparr>, of_nat (length buf)));
          let cb = emit header (Some buf) remote_link_addr cb;
          let s = cb_sender cb;
          let s = s\<lparr>send_next := seq_add (send_next s) buf_len,
                    unsent_seq_no := seq_add (unsent_seq_no s) buf_len\<rparr>;
          let s = push_unacked_segment \<lparr>seg_bytes = buf, initial_tx = Some (clock_now cb)\<rparr> s;
          let cb = cb\<lparr>cb_sender := s\<rparr>;
          Some (case retransmit_deadline cb of
                  None \<Rightarrow> cb\<lparr>retransmit_deadline := Some (clock_now cb + rto (rto_calculator cb))\<rparr>
                | Some _ \<Rightarrow> cb) }"

definition send_slow_path :: "bytes \<Rightarrow> ctrl_block \<Rightarrow> ctrl_block outcome" where
  "send_slow_path buf cb =
     (let s = cb_sender cb
      in if length (unsent_queue s) > UNSENT_QUEUE_CUTOFF then Err (fail_new EBUSY ''too many packets to send'')
         else Ok (cb\<lparr>cb_sender := s\<lparr>unsent_queue := unsent_queue s @ [buf],
                                   unsent_seq_no := seq_add (unsent_seq_no s) (of_nat (length buf))\<rparr>\<rparr>))"

definition cb_send :: "bytes \<Rightarrow> ctrl_block \<Rightarrow> ctrl_block outcome" where
  "cb_send buf cb =
     (if user_is_done_sending cb then Err (fail_new EINVAL ''Connection is closing'')
      else if length buf \<ge> 2 ^ 32 then Err (fail_new EINVAL ''buffer too large'')
      else let s = cb_sender cb;
               sent_data = seq_sub (send_next s) (send_unacked s);
               in_flight_after_send = sent_data + of_nat (length buf);
               effective_cwnd = cc_get_cwnd + cc_get_limited_transmit_cwnd_increase;
               win_sz = send_window s
           in if unsent_queue s = [] \<and> win_sz > 0 \<and> win_sz \<ge> in_flight_after_send
                 \<and> effective_cwnd \<ge> in_flight_after_send
              then (case arp_cache cb (fst (cb_remote cb)) of
                      Some remote_link_addr \<Rightarrow> expect (send_immediate buf remote_link_addr cb)
                    | None \<Rightarrow> send_slow_path buf cb)
              else send_slow_path buf cb)"

definition cb_retransmit :: "ctrl_block \<Rightarrow> ctrl_block option" where
  "cb_retransmit cb =
     (let s = cb_sender cb
      in case unacked_queue s of
           [] \<Rightarrow> Some cb
         | seg # q \<Rightarrow>
             let cb = cb\<lparr>cb_sender := s\<lparr>unacked_queue := seg\<lparr>initial_tx := None\<rparr> # q\<rparr>\<rparr>;
                 data = seg_bytes seg
             in case arp_cache cb (fst (cb_remote cb)) of
                  None \<Rightarrow> Some cb
                | Some first_hop_link_addr \<Rightarrow>
                    do { header \<leftarrow> cb_tcp_header cb;
                         let header = header\<lparr>seq_num := send_unacked (cb_sender cb)\<rparr>;
                         let header = (if data = [] then header\<lparr>fin := True\<rparr> else header\<lparr>psh := True\<rparr>);
                         Some (emit header (Some data) first_hop_link_addr cb) })"

text \<open>\<^verbatim>\<open>close\<close>: a repeated close returns at once; a failed send panics.\<close>

definition cb_close :: "ctrl_block \<Rightarrow> ctrl_block option" where
  "cb_close cb =
     (if user_is_done_sending cb then Some cb
      else case cb_send [] (disable_stats cb) of
             Ok cb \<Rightarrow> Some (cb\<lparr>user_is_done_sending := True\<rparr>)
           | _ \<Rightarrow> None)"

text \<open>\<^verbatim>\<open>poll_recv\<close> with the polling task's waker: \<open>None\<close> is \<^verbatim>\<open>Poll::Pending\<close>.\<close>

definition poll_recv :: "nat \<Rightarrow> ctrl_block \<Rightarrow> bytes option \<times> ctrl_block" where
  "poll_recv task cb =
     (if recv_queue (cb_receiver cb) = [] then (None, cb\<lparr>waker := Some task\<rparr>)
      else let (segment, r) = receiver_pop (cb_receiver cb) in (segment, cb\<lparr>cb_receiver := r\<rparr>))"

section \<open>Out-of-order segments\<close>

text \<open>The ways one pass over the store ends: the new data is all there already, it encompasses the stored
  segment at an index, or its place is known. The last two carry the new segment as trimmed so far.\<close>

datatype ooo_scan_result = ScanDuplicate | ScanEncompass nat seq bytes | ScanPlace nat seq bytes

text \<open>\<open>index\<close> counts the entries passed and \<open>len\<close> is the store's length.\<close>

fun ooo_scan :: "(seq \<times> bytes) list \<Rightarrow> nat \<Rightarrow> nat \<Rightarrow> seq \<Rightarrow> seq \<Rightarrow> bytes \<Rightarrow> ooo_scan_result option" where
  "ooo_scan [] index len new_start new_end buf = Some (ScanPlace len new_start buf)"
| "ooo_scan ((stored_start, stored) # rest) index len new_start new_end buf =
     (let stored_end = seq_add stored_start (of_nat (length stored) - 1)
      in if seq_lt new_start stored_start then
           (if seq_lt new_end stored_start then Some (ScanPlace index new_start buf)
            else if seq_lt stored_end new_end then Some (ScanEncompass index new_start buf)
            else let excess = seq_sub new_end stored_start + 1
                 in do { buf \<leftarrow> buf_trim (unat excess) buf;
                         Some (ScanPlace len new_start buf) })
         else if seq_le new_end stored_end then Some ScanDuplicate
         else if seq_lt stored_end new_start then ooo_scan rest (index + 1) len new_start new_end buf
         else let duplicate = seq_sub stored_end new_start
              in case buf_adjust (unat duplicate) buf of
                   None \<Rightarrow> None
                 | Some buf \<Rightarrow> ooo_scan rest (index + 1) len (seq_add new_start duplicate) new_end buf)"

lemma ooo_scan_encompass_index:
  "ooo_scan q i len s e b = Some (ScanEncompass j s' b') \<Longrightarrow> i \<le> j \<and> j < i + length q"
proof (induction q arbitrary: i s b)
  case (Cons x q)
  obtain ss sb where x: "x = (ss, sb)"
    by fastforce
  show ?case
    using Cons.prems unfolding x
    by (auto simp: Let_def split: if_splits option.splits bind_splits dest!: Cons.IH)
qed simp

text \<open>The passes: an encompassed entry is removed and the scan starts over.\<close>

function ooo_insert :: "(seq \<times> bytes) list \<Rightarrow> seq \<Rightarrow> seq \<Rightarrow> bytes \<Rightarrow> (seq \<times> bytes) list option" where
  "ooo_insert q new_start new_end buf =
     (case ooo_scan q 0 (length q) new_start new_end buf of
        None \<Rightarrow> None
      | Some ScanDuplicate \<Rightarrow> Some q
      | Some (ScanEncompass i new_start buf) \<Rightarrow>
          ooo_insert (take i q @ drop (i + 1) q) new_start new_end buf
      | Some (ScanPlace i new_start buf) \<Rightarrow>
          Some (take MAX_OUT_OF_ORDER (take i q @ [(new_start, buf)] @ drop i q)))"
  by pat_completeness auto
termination
  by (relation "measure (\<lambda>(q, _). length q)") (auto dest: ooo_scan_encompass_index)

declare ooo_insert.simps [simp del]

definition store_out_of_order_segment :: "seq \<Rightarrow> seq \<Rightarrow> bytes \<Rightarrow> ctrl_block \<Rightarrow> ctrl_block option" where
  "store_out_of_order_segment new_start new_end buf cb =
     do { q \<leftarrow> ooo_insert (out_of_order cb) new_start new_end buf; Some (cb\<lparr>out_of_order := q\<rparr>) }"

definition store_out_of_order_fin :: "seq \<Rightarrow> ctrl_block \<Rightarrow> ctrl_block" where
  "store_out_of_order_fin f cb = cb\<lparr>out_of_order_fin := Some f\<rparr>"

section \<open>In-order data\<close>

text \<open>Stored segments that continue the received data move to the receive queue.\<close>

fun ooo_drain ::
  "(seq \<times> bytes) list \<Rightarrow> seq \<Rightarrow> receiver \<Rightarrow> bool \<Rightarrow> (seq \<times> bytes) list \<times> seq \<times> receiver \<times> bool" where
  "ooo_drain [] recv_next r added = ([], recv_next, r, added)"
| "ooo_drain ((start, buf) # q) recv_next r added =
     (if start = recv_next
      then ooo_drain q (seq_add recv_next (of_nat (length buf))) (receiver_push buf r) True
      else ((start, buf) # q, recv_next, r, added))"

definition wake :: "ctrl_block \<Rightarrow> ctrl_block" where
  "wake cb = (case waker cb of Some w \<Rightarrow> cb\<lparr>waker := None, woken := woken cb @ [w]\<rparr> | None \<Rightarrow> cb)"

definition receive_data :: "bytes \<Rightarrow> ctrl_block \<Rightarrow> bool \<times> ctrl_block" where
  "receive_data buf cb =
     (let recv_next = seq_add (receive_next (cb_receiver cb)) (of_nat (length buf));
          (q, recv_next, r, added) = ooo_drain (out_of_order cb) recv_next (receiver_push buf (cb_receiver cb)) False;
          cb = wake (cb\<lparr>out_of_order := q, cb_receiver := r\<rparr>)
      in (added \<and> out_of_order_fin cb = Some recv_next, cb))"

section \<open>The receive routine\<close>

text \<open>Its steps in the order of the source. The first computes the segment's end and length, SYN and
  FIN counted.\<close>

definition seg_bounds :: "tcp_header \<Rightarrow> bytes \<Rightarrow> seq \<times> u32" where
  "seg_bounds header data =
     (let seg_len = of_nat (length data);
          seg_len = (if syn header then seg_len + 1 else seg_len);
          seg_len = (if fin header then seg_len + 1 else seg_len);
          seg_end = (if seg_len > 0 then seq_add (seq_num header) (seg_len - 1) else seq_num header)
      in (seg_end, seg_len))"

text \<open>The window check: the segment is dropped, or goes on as trimmed (header, data, start, end, length).\<close>

datatype window_check = WDrop ctrl_block | WAccept tcp_header bytes seq seq u32

definition drop_with_ack :: "tcp_header \<Rightarrow> ctrl_block \<Rightarrow> window_check option" where
  "drop_with_ack header cb =
     (if rst header then Some (WDrop cb) else do { cb \<leftarrow> send_ack cb; Some (WDrop cb) })"

definition after_receive_window :: "ctrl_block \<Rightarrow> seq" where
  "after_receive_window cb = seq_add (receive_next (cb_receiver cb)) (get_receive_window_size cb)"

definition check_window_start :: "tcp_header \<Rightarrow> bytes \<Rightarrow> ctrl_block \<Rightarrow> window_check option" where
  "check_window_start header data cb =
     (let seg_start = seq_num header;
          (seg_end, seg_len) = seg_bounds header data;
          rx_next = receive_next (cb_receiver cb)
      in if seg_start = rx_next then Some (WAccept header data seg_start seg_end seg_len)
         else if seq_lt seg_start rx_next then
           (if seq_lt seg_end rx_next then drop_with_ack header cb
            else let duplicate = seq_sub rx_next seg_start;
                     seg_start = seq_add seg_start duplicate;
                     seg_len = seg_len - duplicate;
                     (header, duplicate) = (if syn header then (header\<lparr>syn := False\<rparr>, duplicate - 1)
                                            else (header, duplicate))
                 in do { data \<leftarrow> buf_adjust (unat duplicate) data;
                         Some (WAccept header data seg_start seg_end seg_len) })
         else if seq_ge seg_start (after_receive_window cb) then drop_with_ack header cb
         else Some (WAccept header data seg_start seg_end seg_len))"

definition check_window_end :: "ctrl_block \<Rightarrow> tcp_header \<Rightarrow> bytes \<Rightarrow> seq \<Rightarrow> seq \<Rightarrow> u32 \<Rightarrow> window_check option" where
  "check_window_end cb header data seg_start seg_end seg_len =
     (if seg_len > 0 \<and> seq_ge seg_end (after_receive_window cb) then
        let excess = seq_sub seg_end (after_receive_window cb) + 1;
            seg_end = seq_sub seg_end excess;
            seg_len = seg_len - excess;
            (header, excess) = (if fin header then (header\<lparr>fin := False\<rparr>, excess - 1) else (header, excess))
        in do { data \<leftarrow> buf_trim (unat excess) data;
                Some (WAccept header data seg_start seg_end seg_len) }
      else Some (WAccept header data seg_start seg_end seg_len))"

definition check_window :: "tcp_header \<Rightarrow> bytes \<Rightarrow> ctrl_block \<Rightarrow> window_check option" where
  "check_window header data cb =
     (case check_window_start header data cb of
        None \<Rightarrow> None
      | Some (WDrop cb) \<Rightarrow> Some (WDrop cb)
      | Some (WAccept header data seg_start seg_end seg_len) \<Rightarrow>
          check_window_end cb header data seg_start seg_end seg_len)"

definition receive_rst :: "ctrl_block \<Rightarrow> ctrl_block" where
  "receive_rst cb =
     (let cb = disable_stats cb
      in case cb_state cb of Closed \<Rightarrow> cb | _ \<Rightarrow> cb\<lparr>cb_state := Closed\<rparr>)"

text \<open>Acknowledgement of everything outstanding.\<close>

definition all_acked :: "ctrl_block \<Rightarrow> ctrl_block" where
  "all_acked cb =
     (let cb = cb\<lparr>retransmit_deadline := None\<rparr>
      in case cb_state cb of
           FinWait1 \<Rightarrow> cb\<lparr>cb_state := FinWait2\<rparr>
         | Closing \<Rightarrow> cb\<lparr>cb_state := TimeWait\<rparr>
         | LastAck \<Rightarrow> cb\<lparr>cb_state := Closed\<rparr>
         | _ \<Rightarrow> cb)"

text \<open>The Boolean says whether processing of the segment goes on.\<close>

definition receive_ack :: "tcp_header \<Rightarrow> instant \<Rightarrow> ctrl_block \<Rightarrow> (bool \<times> ctrl_block) option" where
  "receive_ack header now cb =
     (let send_unacknowledged = send_unacked (cb_sender cb);
          snd_next = send_next (cb_sender cb)
      in if seq_lt send_unacknowledged (ack_num header) then
           (if seq_le (ack_num header) snd_next then
              do { (s, c) \<leftarrow> remove_acknowledged_data (seq_sub (ack_num header) send_unacknowledged) now
                               (cb_sender cb) (rto_calculator cb);
                   let s = update_send_window header (s\<lparr>send_unacked := ack_num header\<rparr>);
                   let cb = cb\<lparr>cb_sender := s, rto_calculator := c\<rparr>;
                   Some (True,
                     if ack_num header = snd_next then all_acked cb
                     else cb\<lparr>retransmit_deadline := Some (now + rto (rto_calculator cb))\<rparr>) }
            else do { cb \<leftarrow> send_ack cb; Some (False, cb) })
         else Some (True, cb))"

definition receive_out_of_order ::
  "tcp_header \<Rightarrow> bytes \<Rightarrow> seq \<Rightarrow> seq \<Rightarrow> u32 \<Rightarrow> ctrl_block \<Rightarrow> ctrl_block option" where
  "receive_out_of_order header data seg_start seg_end seg_len cb =
     (if seg_len > 0 \<and> cb_state cb \<in> {Established, FinWait1, FinWait2} then
        let (cb, seg_end, seg_len) =
              (if fin header then (store_out_of_order_fin seg_end cb, seq_sub seg_end 1, seg_len - 1)
               else (cb, seg_end, seg_len))
        in do { cb \<leftarrow> (if seg_len > 0 then store_out_of_order_segment seg_start seg_end data cb else Some cb);
                send_ack cb }
      else Some cb)"

text \<open>The segment text: the resulting FIN flag, whether an acknowledgement is due, and the block.\<close>

definition receive_text :: "tcp_header \<Rightarrow> bytes \<Rightarrow> ctrl_block \<Rightarrow> bool \<times> bool \<times> ctrl_block" where
  "receive_text header data cb =
     (if data \<noteq> [] \<and> cb_state cb \<in> {Established, FinWait1, FinWait2} then
        let (ooo_fin, cb) = receive_data data cb in (fin header \<or> ooo_fin, True, cb)
      else (fin header, False, cb))"

definition receive_fin :: "ctrl_block \<Rightarrow> ctrl_block option" where
  "receive_fin cb =
     (let cb = disable_stats cb;
          r = cb_receiver cb;
          cb = cb\<lparr>cb_receiver := r\<lparr>receive_next := seq_add (receive_next r) 1\<rparr>\<rparr>
      in case cb_state cb of
           Established \<Rightarrow> send_ack (cb\<lparr>cb_state := CloseWait\<rparr>)
         | FinWait1 \<Rightarrow> send_ack (cb\<lparr>cb_state := Closing\<rparr>)
         | FinWait2 \<Rightarrow> send_ack (cb\<lparr>cb_state := TimeWait\<rparr>)
         | CloseWait \<Rightarrow> send_ack cb
         | Closing \<Rightarrow> send_ack cb
         | LastAck \<Rightarrow> send_ack cb
         | TimeWait \<Rightarrow> send_ack cb
         | Closed \<Rightarrow> None)"

definition schedule_ack :: "instant \<Rightarrow> ctrl_block \<Rightarrow> ctrl_block option" where
  "schedule_ack now cb =
     (case ack_deadline cb of
        None \<Rightarrow> Some (cb\<lparr>ack_deadline := Some (now + ack_delay_timeout cb)\<rparr>)
      | Some _ \<Rightarrow> send_ack (cb\<lparr>ack_deadline := None\<rparr>))"

text \<open>What follows the ACK check for an accepted segment.\<close>

definition receive_payload ::
  "tcp_header \<Rightarrow> bytes \<Rightarrow> seq \<Rightarrow> seq \<Rightarrow> u32 \<Rightarrow> instant \<Rightarrow> seq \<Rightarrow> ctrl_block \<Rightarrow> ctrl_block option" where
  "receive_payload header data seg_start seg_end seg_len now rx_next cb =
     (if seg_start \<noteq> rx_next then receive_out_of_order header data seg_start seg_end seg_len cb
      else let (got_fin, should_schedule_ack, cb) = receive_text header data cb
           in if got_fin then receive_fin cb
              else if should_schedule_ack then schedule_ack now cb
              else Some cb)"

definition cb_receive :: "tcp_header \<Rightarrow> bytes \<Rightarrow> ctrl_block \<Rightarrow> ctrl_block option" where
  "cb_receive header data cb =
     (let now = clock_now cb; rx_next = receive_next (cb_receiver cb)
      in case check_window header data cb of
           None \<Rightarrow> None
         | Some (WDrop cb) \<Rightarrow> Some cb
         | Some (WAccept header data seg_start seg_end seg_len) \<Rightarrow>
             if rst header then Some (receive_rst cb)
             else if syn header then Some (cb\<lparr>cb_state := Closed\<rparr>)
             else if \<not> ack header then Some cb
             else case receive_ack header now cb of
                    None \<Rightarrow> None
                  | Some (False, cb) \<Rightarrow> Some cb
                  | Some (True, cb) \<Rightarrow> receive_payload header data seg_start seg_end seg_len now rx_next cb)"

end
