(* ===== verification/Background.thy ===== *)
theory Background
  imports Ctrlblk
begin

text \<open>
  The three background co-routines of a connection (\<^verbatim>\<open>protocols/tcp/established/background/\<close>), each
  as the work it does when it is resumed, and the connection as a state machine: an inductive step
  relation over everything that can happen to a control block.
\<close>

section \<open>Co-routines\<close>

text \<open>The acknowledger's timer branch; it is armed by the ACK deadline.\<close>

definition acknowledger :: "ctrl_block \<Rightarrow> ctrl_block option" where
  "acknowledger cb =
     (case ack_deadline cb of
        Some t \<Rightarrow> if t \<le> clock_now cb then send_ack cb else Some cb
      | None \<Rightarrow> Some cb)"

text \<open>The retransmitter's timer branch. Fast retransmit never fires: the flag of
  \<^verbatim>\<open>congestion_control::None\<close> is constantly false.\<close>

definition retransmitter :: "ctrl_block \<Rightarrow> ctrl_block option" where
  "retransmitter cb =
     (case retransmit_deadline cb of
        Some t \<Rightarrow>
          if t \<le> clock_now cb then
            do { cb \<leftarrow> cb_retransmit cb;
                 let cb = cb\<lparr>rto_calculator := back_off (rto_calculator cb)\<rparr>;
                 Some (cb\<lparr>retransmit_deadline := Some (clock_now cb + rto (rto_calculator cb))\<rparr>) }
          else Some cb
      | None \<Rightarrow> Some cb)"

text \<open>One round of the sender's loop, up to the next point where it waits. With no ARP entry it is
  suspended in the query and keeps what it read before: the value of \<open>SND.NXT\<close>, and for a segment the greatest size that the window
  and the congestion window left. After a window probe it waits with the probe byte and its sequence number.\<close>

datatype arp_wait = ArpProbe seq | ArpSegment seq nat

datatype sender_poll =
    SenderWait
  | SenderArpWait arp_wait
  | SenderProbe bytes seq ctrl_block
  | SenderSent ctrl_block

definition sender_window_probe :: "seq \<Rightarrow> mac_address \<Rightarrow> ctrl_block \<Rightarrow> sender_poll option" where
  "sender_window_probe snd_next remote_link_addr cb =
     (case pop_one_unsent_byte (cb_sender cb) of
           None \<Rightarrow> None
         | Some (None, s) \<Rightarrow> None
         | Some (Some buf, s) \<Rightarrow>
             do { let s = modify_send_next (\<lambda>n. seq_add n 1) s;
                  let s = push_unacked_segment \<lparr>seg_bytes = buf, initial_tx = Some (clock_now cb)\<rparr> s;
                  let cb = cb\<lparr>cb_sender := s\<rparr>;
                  header \<leftarrow> cb_tcp_header cb;
                  Some (SenderProbe buf snd_next
                    (emit (header\<lparr>seq_num := snd_next\<rparr>) (Some buf) remote_link_addr cb)) })"

text \<open>The probe is sent again whenever the persist timer expires.\<close>

definition sender_probe_again :: "bytes \<Rightarrow> seq \<Rightarrow> mac_address \<Rightarrow> ctrl_block \<Rightarrow> ctrl_block option" where
  "sender_probe_again buf snd_next remote_link_addr cb =
     do { header \<leftarrow> cb_tcp_header cb;
          Some (emit (header\<lparr>seq_num := snd_next\<rparr>) (Some buf) remote_link_addr cb) }"

definition sender_send_segment :: "seq \<Rightarrow> nat \<Rightarrow> mac_address \<Rightarrow> ctrl_block \<Rightarrow> ctrl_block option" where
  "sender_send_segment snd_next max_size remote_link_addr cb =
     (case pop_unsent max_size (cb_sender cb) of
           None \<Rightarrow> None
         | Some (None, s) \<Rightarrow> None
         | Some (Some (segment_data, do_push), s) \<Rightarrow>
             do { let cb = cb\<lparr>cb_sender := s\<rparr>;
                  header \<leftarrow> cb_tcp_header cb;
                  let header = header\<lparr>seq_num := snd_next\<rparr>;
                  let (header, segment_data_len) =
                    (if segment_data = [] then (header\<lparr>fin := True\<rparr>, 1)
                     else if do_push then (header\<lparr>psh := True\<rparr>, of_nat (length segment_data))
                     else (header, of_nat (length segment_data)));
                  let cb = emit header (Some segment_data) remote_link_addr cb;
                  let s = modify_send_next (\<lambda>n. seq_add n segment_data_len) (cb_sender cb);
                  let s = push_unacked_segment \<lparr>seg_bytes = segment_data, initial_tx = Some (clock_now cb)\<rparr> s;
                  let cb = cb\<lparr>cb_sender := s\<rparr>;
                  Some (case retransmit_deadline cb of
                          None \<Rightarrow> cb\<lparr>retransmit_deadline := Some (clock_now cb + rto (rto_calculator cb))\<rparr>
                        | Some _ \<Rightarrow> cb) })"

text \<open>What follows the ARP query, at once or when it is answered later: the block is the one of that moment, the values read before
  the query are kept.\<close>

definition sender_after_arp :: "arp_wait \<Rightarrow> ctrl_block \<Rightarrow> sender_poll option" where
  "sender_after_arp w cb =
     (case arp_cache cb (fst (cb_remote cb)) of
        None \<Rightarrow> Some (SenderArpWait w)
      | Some remote_link_addr \<Rightarrow>
          (case w of
             ArpProbe snd_next \<Rightarrow> sender_window_probe snd_next remote_link_addr cb
           | ArpSegment snd_next max_size \<Rightarrow> map_option SenderSent (sender_send_segment snd_next max_size remote_link_addr cb)))"

definition background_sender :: "ctrl_block \<Rightarrow> sender_poll option" where
  "background_sender cb =
     (let s = cb_sender cb; win_sz = send_window s
      in if send_next s = unsent_seq_no s then Some SenderWait
         else if win_sz = 0 then
           sender_after_arp (ArpProbe (send_next s)) cb
         else let effective_cwnd = cc_get_cwnd + cc_get_limited_transmit_cwnd_increase;
                  sent_data = seq_sub (send_next s) (send_unacked s)
              in case top_size_unsent s of
                   None \<Rightarrow> None
                 | Some next_buf_size \<Rightarrow>
                     if win_sz \<le> sent_data + of_nat next_buf_size \<or> effective_cwnd \<le> sent_data
                        \<or> effective_cwnd - sent_data \<le> of_nat (mss s)
                     then Some SenderWait
                     else sender_after_arp (ArpSegment (send_next s) (min (min (unat (win_sz - sent_data)) (mss s))
                            (unat (effective_cwnd - sent_data)))) cb)"

section \<open>The connection as a state machine\<close>

datatype cb_event =
    Tick duration
  | ArpChange "ipv4addr \<Rightarrow> mac_address option"
  | Receive tcp_header bytes
  | Send bytes
  | Close
  | Poll nat "bytes option"
  | AckTimer
  | RetransmitTimer
  | SenderResumed
  | SenderArpAnswered arp_wait
  | ProbeTimer bytes seq

text \<open>The sender's query may be answered at any time after it was suspended, with whatever it read then.\<close>

inductive cb_step :: "ctrl_block \<Rightarrow> cb_event \<Rightarrow> ctrl_block \<Rightarrow> bool" where
  step_tick: "0 \<le> d \<Longrightarrow> cb_step cb (Tick d) (cb\<lparr>clock_now := clock_now cb + d\<rparr>)"
| step_arp: "cb_step cb (ArpChange m) (cb\<lparr>arp_cache := m\<rparr>)"
| step_receive: "cb_receive h d cb = Some cb' \<Longrightarrow> cb_step cb (Receive h d) cb'"
| step_send: "cb_send buf cb = Ok cb' \<Longrightarrow> cb_step cb (Send buf) cb'"
| step_close: "cb_close cb = Some cb' \<Longrightarrow> cb_step cb Close cb'"
| step_poll: "poll_recv t cb = (r, cb') \<Longrightarrow> cb_step cb (Poll t r) cb'"
| step_ack_timer: "acknowledger cb = Some cb' \<Longrightarrow> cb_step cb AckTimer cb'"
| step_retransmit: "retransmitter cb = Some cb' \<Longrightarrow> cb_step cb RetransmitTimer cb'"
| step_sent: "background_sender cb = Some (SenderSent cb') \<Longrightarrow> cb_step cb SenderResumed cb'"
| step_probe: "background_sender cb = Some (SenderProbe b n cb') \<Longrightarrow> cb_step cb SenderResumed cb'"
| step_arp_sent: "sender_after_arp w cb = Some (SenderSent cb') \<Longrightarrow> cb_step cb (SenderArpAnswered w) cb'"
| step_arp_probe: "sender_after_arp w cb = Some (SenderProbe b n cb') \<Longrightarrow> cb_step cb (SenderArpAnswered w) cb'"
| step_probe_again: "arp_cache cb (fst (cb_remote cb)) = Some l \<Longrightarrow> sender_probe_again b n l cb = Some cb' \<Longrightarrow>
    cb_step cb (ProbeTimer b n) cb'"

inductive_cases cb_stepE: "cb_step cb e cb'"

text \<open>Runs of events, newest last.\<close>

inductive cb_run :: "ctrl_block \<Rightarrow> cb_event list \<Rightarrow> ctrl_block \<Rightarrow> bool" for cb0 where
  run_nil: "cb_run cb0 [] cb0"
| run_snoc: "cb_run cb0 es cb \<Longrightarrow> cb_step cb e cb' \<Longrightarrow> cb_run cb0 (es @ [e]) cb'"

end
