(* ===== verification/Conn_States.thy ===== *)
theory Conn_States
  imports Background
begin

text \<open>
  What each operation leaves alone, and the connection states: the edges of the TCP state diagram a
  control block can take, and their closure over runs. The locale \<open>run_invariant\<close> states once how
  an invariant of single steps becomes one of runs; the later theories interpret it.
\<close>

section \<open>Invariants of runs\<close>

locale run_invariant =
  fixes I :: "cb_event list \<Rightarrow> ctrl_block \<Rightarrow> bool"
    and allowed :: "cb_event \<Rightarrow> bool"
  assumes preserved: "I es cb \<Longrightarrow> allowed e \<Longrightarrow> cb_step cb e cb' \<Longrightarrow> I (es @ [e]) cb'"
begin

lemma run_holds:
  assumes "cb_run cb0 es cb" "I [] cb0" "list_all allowed es"
  shows "I es cb"
  using assms by (induction rule: cb_run.induct) (auto intro: preserved)

end

section \<open>Frames\<close>

text \<open>The receive-side data of a block, without its statistics.\<close>

definition rx_core :: "ctrl_block \<Rightarrow> seq \<times> seq \<times> bytes list \<times> (seq \<times> bytes) list \<times> seq option" where
  "rx_core cb = (reader_next (cb_receiver cb), receive_next (cb_receiver cb), recv_queue (cb_receiver cb),
     out_of_order cb, out_of_order_fin cb)"

text \<open>The state after a FIN has been sent.\<close>

fun fin_sent :: "tcp_state \<Rightarrow> tcp_state" where
  "fin_sent Established = FinWait1"
| "fin_sent CloseWait = LastAck"
| "fin_sent s = s"

lemma emit_frame [simp]:
  "rx_core (emit h b l cb) = rx_core cb"
  "cb_sender (emit h b l cb) = cb_sender cb"
  "cb_receiver (emit h b l cb) = cb_receiver cb"
  "receive_buffer_size (emit h b l cb) = receive_buffer_size cb"
  "window_scale (emit h b l cb) = window_scale cb"
  "rto_calculator (emit h b l cb) = rto_calculator cb"
  "user_is_done_sending (emit h b l cb) = user_is_done_sending cb"
  "retransmit_deadline (emit h b l cb) = retransmit_deadline cb"
  "clock_now (emit h b l cb) = clock_now cb"
  "arp_cache (emit h b l cb) = arp_cache cb"
  "out_of_order (emit h b l cb) = out_of_order cb"
  "out_of_order_fin (emit h b l cb) = out_of_order_fin cb"
  "cb_state (emit h b l cb) = (if fin h then fin_sent (cb_state cb) else cb_state cb)"
  by (simp_all add: emit_def set_ack_deadline_def Let_def rx_core_def split: tcp_state.split)

lemma cb_tcp_header_flags:
  "cb_tcp_header cb = Some h \<Longrightarrow> \<not> fin h \<and> \<not> syn h \<and> \<not> rst h \<and> ack h
     \<and> ack_num h = receive_next (cb_receiver cb) \<and> option_list h = []"
  by (auto simp: cb_tcp_header_def tcp_new_def bind_eq_Some_conv)

lemma send_ack_frame:
  assumes "send_ack cb = Some cb'"
  shows "rx_core cb' = rx_core cb" "cb_sender cb' = cb_sender cb" "cb_state cb' = cb_state cb"
    "cb_receiver cb' = cb_receiver cb" "rto_calculator cb' = rto_calculator cb"
    "receive_buffer_size cb' = receive_buffer_size cb" "window_scale cb' = window_scale cb"
    "user_is_done_sending cb' = user_is_done_sending cb"
    "out_of_order cb' = out_of_order cb" "out_of_order_fin cb' = out_of_order_fin cb"
  using assms cb_tcp_header_flags
  by (auto simp: send_ack_def Let_def bind_eq_Some_conv split: option.splits)

lemma disable_stats_frame [simp]:
  "rx_core (disable_stats cb) = rx_core cb" "cb_sender (disable_stats cb) = cb_sender cb"
  "cb_state (disable_stats cb) = cb_state cb" "rto_calculator (disable_stats cb) = rto_calculator cb"
  "user_is_done_sending (disable_stats cb) = user_is_done_sending cb"
  "receive_buffer_size (disable_stats cb) = receive_buffer_size cb"
  "window_scale (disable_stats cb) = window_scale cb"
  "receive_next (cb_receiver (disable_stats cb)) = receive_next (cb_receiver cb)"
  "reader_next (cb_receiver (disable_stats cb)) = reader_next (cb_receiver cb)"
  "recv_queue (cb_receiver (disable_stats cb)) = recv_queue (cb_receiver cb)"
  "out_of_order (disable_stats cb) = out_of_order cb"
  "out_of_order_fin (disable_stats cb) = out_of_order_fin cb"
  by (simp_all add: disable_stats_def rx_core_def)

lemma rx_core_updates [simp]:
  "rx_core (cb\<lparr>cb_sender := s\<rparr>) = rx_core cb" "rx_core (cb\<lparr>cb_state := st\<rparr>) = rx_core cb"
  "rx_core (cb\<lparr>retransmit_deadline := d\<rparr>) = rx_core cb" "rx_core (cb\<lparr>ack_deadline := d\<rparr>) = rx_core cb"
  "rx_core (cb\<lparr>rto_calculator := c\<rparr>) = rx_core cb" "rx_core (cb\<lparr>user_is_done_sending := b\<rparr>) = rx_core cb"
  "rx_core (cb\<lparr>waker := w\<rparr>) = rx_core cb" "rx_core (cb\<lparr>woken := ws\<rparr>) = rx_core cb"
  "rx_core (cb\<lparr>clock_now := t\<rparr>) = rx_core cb" "rx_core (cb\<lparr>arp_cache := m\<rparr>) = rx_core cb"
  by (simp_all add: rx_core_def)

text \<open>Operations of the send side keep the receive side; they change the state only by sending a FIN.\<close>

definition tx_frame :: "ctrl_block \<Rightarrow> ctrl_block \<Rightarrow> bool" where
  "tx_frame cb cb' \<longleftrightarrow> rx_core cb' = rx_core cb
     \<and> (cb_state cb' = cb_state cb \<or> cb_state cb' = fin_sent (cb_state cb))"

lemma tx_frame_refl [simp]: "tx_frame cb cb"
  by (simp add: tx_frame_def)

lemma send_immediate_frame: "send_immediate b l cb = Some cb' \<Longrightarrow> tx_frame cb cb'"
  using cb_tcp_header_flags
  by (auto simp: send_immediate_def tx_frame_def Let_def bind_eq_Some_conv split: option.splits if_splits)

lemma cb_send_frame: "cb_send b cb = Ok cb' \<Longrightarrow> tx_frame cb cb'"
proof -
  assume s: "cb_send b cb = Ok cb'"
  have "send_slow_path b cb = Ok cb' \<Longrightarrow> tx_frame cb cb'"
    by (auto simp: send_slow_path_def Let_def tx_frame_def split: if_splits)
  moreover have "expect (send_immediate b l cb) = Ok cb' \<Longrightarrow> tx_frame cb cb'" for l
    by (cases "send_immediate b l cb") (auto dest: send_immediate_frame)
  ultimately show ?thesis
    using s by (auto simp: cb_send_def Let_def bind_eq_Some_conv split: if_splits option.splits)
qed

lemma cb_close_frame: "cb_close cb = Some cb' \<Longrightarrow> tx_frame cb cb'"
  by (auto simp: cb_close_def tx_frame_def split: if_splits outcome.splits dest!: cb_send_frame)

lemma cb_retransmit_frame: "cb_retransmit cb = Some cb' \<Longrightarrow> tx_frame cb cb'"
  using cb_tcp_header_flags
  by (auto simp: cb_retransmit_def tx_frame_def Let_def bind_eq_Some_conv split: list.splits option.splits if_splits)

lemma retransmitter_frame: "retransmitter cb = Some cb' \<Longrightarrow> tx_frame cb cb'"
  by (auto simp: retransmitter_def tx_frame_def Let_def bind_eq_Some_conv split: option.splits if_splits
      dest!: cb_retransmit_frame)

lemma acknowledger_frame: "acknowledger cb = Some cb' \<Longrightarrow> tx_frame cb cb'"
  by (auto simp: acknowledger_def tx_frame_def split: option.splits if_splits dest: send_ack_frame)

lemma sender_probe_frame:
  "sender_window_probe m l cb = Some (SenderProbe b n cb') \<Longrightarrow> tx_frame cb cb'"
  "sender_probe_again b n l cb = Some cb' \<Longrightarrow> tx_frame cb cb'"
  using cb_tcp_header_flags
  by (auto simp: sender_window_probe_def sender_probe_again_def tx_frame_def Let_def bind_eq_Some_conv
      split: option.splits)

lemma sender_send_segment_frame: "sender_send_segment n m l cb = Some cb' \<Longrightarrow> tx_frame cb cb'"
  using cb_tcp_header_flags
  by (auto simp: sender_send_segment_def tx_frame_def Let_def bind_eq_Some_conv split: option.splits if_splits)

lemma sender_after_arp_frame:
  "sender_after_arp w cb = Some (SenderSent cb') \<Longrightarrow> tx_frame cb cb'"
  "sender_after_arp w cb = Some (SenderProbe b n cb') \<Longrightarrow> tx_frame cb cb'"
  by (auto simp: sender_after_arp_def sender_window_probe_def Let_def bind_eq_Some_conv split: option.splits arp_wait.splits
      dest: sender_send_segment_frame intro: sender_probe_frame)

lemma background_sender_frame:
  "background_sender cb = Some (SenderSent cb') \<Longrightarrow> tx_frame cb cb'"
  "background_sender cb = Some (SenderProbe b n cb') \<Longrightarrow> tx_frame cb cb'"
  by (auto simp: background_sender_def Let_def split: option.splits if_splits dest: sender_after_arp_frame)

section \<open>The receive routine, step by step\<close>

text \<open>The window check decides without changing the block, except for an acknowledgement.\<close>

lemma drop_with_ack_result:
  "drop_with_ack h cb = Some w \<Longrightarrow> \<exists>cb'. w = WDrop cb' \<and> (cb' = cb \<or> send_ack cb = Some cb')"
  by (auto simp: drop_with_ack_def bind_eq_Some_conv split: if_splits)

lemma check_window_drop:
  assumes "check_window h d cb = Some (WDrop cb')"
  shows "cb' = cb \<or> send_ack cb = Some cb'"
  using assms
  by (auto simp: check_window_def check_window_start_def check_window_end_def Let_def bind_eq_Some_conv
      split: option.splits window_check.splits if_splits prod.splits dest!: drop_with_ack_result)

text \<open>What acknowledgement processing does to the state and leaves of the rest.\<close>

fun ack_state :: "tcp_state \<Rightarrow> tcp_state" where
  "ack_state FinWait1 = FinWait2"
| "ack_state Closing = TimeWait"
| "ack_state LastAck = Closed"
| "ack_state s = s"

lemma all_acked_frame [simp]:
  "rx_core (all_acked cb) = rx_core cb" "cb_state (all_acked cb) = ack_state (cb_state cb)"
  "cb_sender (all_acked cb) = cb_sender cb" "rto_calculator (all_acked cb) = rto_calculator cb"
  "cb_receiver (all_acked cb) = cb_receiver cb" "receive_buffer_size (all_acked cb) = receive_buffer_size cb"
  "window_scale (all_acked cb) = window_scale cb" "out_of_order (all_acked cb) = out_of_order cb"
  "out_of_order_fin (all_acked cb) = out_of_order_fin cb"
  "user_is_done_sending (all_acked cb) = user_is_done_sending cb"
  by (simp_all add: all_acked_def Let_def split: tcp_state.split)

lemma receive_ack_frame:
  assumes "receive_ack h now cb = Some (go, cb')"
  shows "rx_core cb' = rx_core cb" "cb_state cb' = cb_state cb \<or> cb_state cb' = ack_state (cb_state cb)"
  using assms
  by (auto simp: receive_ack_def Let_def bind_eq_Some_conv split: if_splits dest: send_ack_frame)

lemma receive_out_of_order_frame:
  assumes "receive_out_of_order h d s e l cb = Some cb'"
  shows "cb_state cb' = cb_state cb" "cb_sender cb' = cb_sender cb" "rto_calculator cb' = rto_calculator cb"
    "user_is_done_sending cb' = user_is_done_sending cb"
  using assms
  by (auto simp: receive_out_of_order_def store_out_of_order_fin_def store_out_of_order_segment_def
      bind_eq_Some_conv split: if_splits dest: send_ack_frame)

lemma wake_frame [simp]:
  "rx_core (wake cb) = rx_core cb" "cb_state (wake cb) = cb_state cb" "cb_sender (wake cb) = cb_sender cb"
  "out_of_order_fin (wake cb) = out_of_order_fin cb" "rto_calculator (wake cb) = rto_calculator cb"
  "user_is_done_sending (wake cb) = user_is_done_sending cb" "cb_receiver (wake cb) = cb_receiver cb"
  "receive_buffer_size (wake cb) = receive_buffer_size cb" "window_scale (wake cb) = window_scale cb"
  "out_of_order (wake cb) = out_of_order cb"
  by (simp_all add: wake_def split: option.split)

lemma receive_text_frame:
  assumes "receive_text h d cb = (f, a, cb')"
  shows "cb_state cb' = cb_state cb" "cb_sender cb' = cb_sender cb" "rto_calculator cb' = rto_calculator cb"
    "user_is_done_sending cb' = user_is_done_sending cb" "receive_buffer_size cb' = receive_buffer_size cb"
    "window_scale cb' = window_scale cb" "out_of_order_fin cb' = out_of_order_fin cb"
  using assms
  by (auto simp: receive_text_def receive_data_def Let_def split: if_splits prod.splits)

text \<open>The state after a FIN has been received; there is none for a closed connection.\<close>

fun fin_received :: "tcp_state \<Rightarrow> tcp_state" where
  "fin_received Established = CloseWait"
| "fin_received FinWait1 = Closing"
| "fin_received FinWait2 = TimeWait"
| "fin_received s = s"

lemma cb_state_update_id [simp]: "cb_state cb = s \<Longrightarrow> cb\<lparr>cb_state := s\<rparr> = cb"
  by auto

lemma receive_fin_frame:
  assumes "receive_fin cb = Some cb'"
  shows "cb_state cb \<noteq> Closed" "cb_state cb' = fin_received (cb_state cb)"
    "rx_core cb' = (reader_next (cb_receiver cb), seq_add (receive_next (cb_receiver cb)) 1,
       recv_queue (cb_receiver cb), out_of_order cb, out_of_order_fin cb)"
    "cb_sender cb' = cb_sender cb" "rto_calculator cb' = rto_calculator cb"
    "user_is_done_sending cb' = user_is_done_sending cb"
proof -
  define cb1 where "cb1 = (disable_stats cb)\<lparr>cb_receiver := (cb_receiver (disable_stats cb))
    \<lparr>receive_next := seq_add (receive_next (cb_receiver cb)) 1\<rparr>\<rparr>"
  have cb1: "cb_state cb1 = cb_state cb"
    by (simp add: cb1_def)
  have "cb_state cb \<noteq> Closed \<and> send_ack (cb1\<lparr>cb_state := fin_received (cb_state cb)\<rparr>) = Some cb'"
    using assms cb1 by (cases "cb_state cb") (simp_all add: receive_fin_def Let_def cb1_def [symmetric])
  then have ne: "cb_state cb \<noteq> Closed" and ack: "send_ack (cb1\<lparr>cb_state := fin_received (cb_state cb)\<rparr>) = Some cb'"
    by simp_all
  from ne show "cb_state cb \<noteq> Closed" .
  show "cb_state cb' = fin_received (cb_state cb)" "cb_sender cb' = cb_sender cb"
    "rto_calculator cb' = rto_calculator cb" "user_is_done_sending cb' = user_is_done_sending cb"
    using send_ack_frame [OF ack] by (simp_all add: cb1_def)
  show "rx_core cb' = (reader_next (cb_receiver cb), seq_add (receive_next (cb_receiver cb)) 1,
       recv_queue (cb_receiver cb), out_of_order cb, out_of_order_fin cb)"
    using send_ack_frame(1) [OF ack] by (simp add: cb1_def) (simp add: rx_core_def)
qed

lemma schedule_ack_frame:
  assumes "schedule_ack now cb = Some cb'"
  shows "rx_core cb' = rx_core cb" "cb_state cb' = cb_state cb" "cb_sender cb' = cb_sender cb"
    "rto_calculator cb' = rto_calculator cb" "user_is_done_sending cb' = user_is_done_sending cb"
  using assms
  by (auto simp: schedule_ack_def split: option.splits dest: send_ack_frame)

lemma receive_payload_state:
  assumes "receive_payload h d s e l now rx cb = Some cb'"
  shows "cb_state cb' = cb_state cb \<or> (cb_state cb \<noteq> Closed \<and> cb_state cb' = fin_received (cb_state cb))"
  using assms receive_text_frame(1) [of h d cb]
  by (auto simp: receive_payload_def Let_def split: if_splits prod.splits
      dest: receive_out_of_order_frame(1) receive_fin_frame(1,2) schedule_ack_frame(2))

text \<open>The possible ways through \<open>cb_receive\<close>.\<close>

lemma cb_receive_cases [consumes 1, case_names Dropped Reset Syn NoAck Ack]:
  assumes "cb_receive h d cb = Some cb'"
  obtains (Dropped) "cb' = cb \<or> send_ack cb = Some cb'"
  | (Reset) h' d' s e l where "check_window h d cb = Some (WAccept h' d' s e l)" "rst h'" "cb' = receive_rst cb"
  | (Syn) h' d' s e l where "check_window h d cb = Some (WAccept h' d' s e l)" "\<not> rst h'" "syn h'"
      "cb' = cb\<lparr>cb_state := Closed\<rparr>"
  | (NoAck) cb1 h1 where "receive_ack h1 (clock_now cb) cb = Some (False, cb1)" "cb' = cb1"
  | (Ack) h' d' s e l cb1 where "check_window h d cb = Some (WAccept h' d' s e l)" "\<not> rst h'" "\<not> syn h'" "ack h'"
      "receive_ack h' (clock_now cb) cb = Some (True, cb1)"
      "receive_payload h' d' s e l (clock_now cb) (receive_next (cb_receiver cb)) cb1 = Some cb'"
proof (cases "check_window h d cb")
  case None
  then show thesis using assms by (simp add: cb_receive_def)
next
  case (Some w)
  show thesis
  proof (cases w)
    case (WDrop c)
    then have "cb' = c"
      using assms Some by (simp add: cb_receive_def)
    then show thesis
      using check_window_drop Some WDrop Dropped by blast
  next
    case (WAccept h' d' s e l)
    note cw = Some [unfolded WAccept]
    note r = assms [unfolded cb_receive_def Let_def, simplified cw, simplified]
    consider "rst h'" | "\<not> rst h'" "syn h'" | "\<not> rst h'" "\<not> syn h'" "\<not> ack h'" | "\<not> rst h'" "\<not> syn h'" "ack h'"
      by blast
    then show thesis
    proof cases
      case 1
      then have "cb' = receive_rst cb" using r by simp
      with 1 show thesis using Reset [OF cw] by blast
    next
      case 2
      then have "cb' = cb\<lparr>cb_state := Closed\<rparr>" using r by simp
      with 2 show thesis using Syn [OF cw] by blast
    next
      case 3
      then have "cb' = cb" using r by simp
      then show thesis using Dropped by blast
    next
      case 4
      then obtain go cb1 where a: "receive_ack h' (clock_now cb) cb = Some (go, cb1)"
        using r by (auto split: option.splits)
      show thesis
      proof (cases go)
        case True
        then have "receive_payload h' d' s e l (clock_now cb) (receive_next (cb_receiver cb)) cb1 = Some cb'"
          using r 4 a by simp
        with 4 a True show thesis using Ack [OF cw] by simp
      next
        case False
        then have "cb' = cb1" using r 4 a by simp
        with a False show thesis using NoAck by simp
      qed
    qed
  qed
qed

section \<open>The state diagram\<close>

inductive tcp_edge :: "tcp_state \<Rightarrow> tcp_state \<Rightarrow> bool" where
  "tcp_edge Established FinWait1"
| "tcp_edge Established CloseWait"
| "tcp_edge FinWait1 FinWait2"
| "tcp_edge FinWait1 Closing"
| "tcp_edge FinWait2 TimeWait"
| "tcp_edge Closing TimeWait"
| "tcp_edge CloseWait LastAck"
| "tcp_edge s Closed"

inductive_simps tcp_edge_simps:
  "tcp_edge Established s" "tcp_edge FinWait1 s" "tcp_edge FinWait2 s" "tcp_edge Closing s"
  "tcp_edge TimeWait s" "tcp_edge CloseWait s" "tcp_edge LastAck s" "tcp_edge Closed s"

lemma state_maps_edges:
  "fin_sent s = s \<or> tcp_edge s (fin_sent s)" "ack_state s = s \<or> tcp_edge s (ack_state s)"
  "fin_received s = s \<or> tcp_edge s (fin_received s)"
  by (cases s; simp add: tcp_edge_simps)+

lemma receive_rst_frame [simp]: "cb_state (receive_rst cb) = Closed" "rx_core (receive_rst cb) = rx_core cb"
  "cb_sender (receive_rst cb) = cb_sender cb" "rto_calculator (receive_rst cb) = rto_calculator cb"
  "user_is_done_sending (receive_rst cb) = user_is_done_sending cb"
  by (simp_all add: receive_rst_def Let_def split: tcp_state.split)

text \<open>Every step takes at most one edge, except the segment that both acknowledges our FIN and carries
  the peer's.\<close>

definition state_step :: "tcp_state \<Rightarrow> tcp_state \<Rightarrow> bool" where
  "state_step s s' \<longleftrightarrow> s' = s \<or> tcp_edge s s' \<or> (s = FinWait1 \<and> s' = TimeWait)"

lemma state_step_refl [simp]: "state_step s s"
  by (simp add: state_step_def)

lemma state_step_ack_fin:
  assumes "s1 = s \<or> s1 = ack_state s" "s2 = s1 \<or> (s1 \<noteq> Closed \<and> s2 = fin_received s1)"
  shows "state_step s s2"
  using assms by (cases s) (auto simp: state_step_def tcp_edge_simps)

lemma tx_frame_state: "tx_frame cb cb' \<Longrightarrow> state_step (cb_state cb) (cb_state cb')"
  using state_maps_edges(1) [of "cb_state cb"] by (auto simp: tx_frame_def state_step_def)

lemma cb_receive_state:
  assumes "cb_receive h d cb = Some cb'"
  shows "state_step (cb_state cb) (cb_state cb')"
  using assms
proof (cases rule: cb_receive_cases)
  case Dropped
  then show ?thesis by (auto dest: send_ack_frame(3))
next
  case (Reset h' d' s e l)
  then show ?thesis by (simp add: state_step_def tcp_edge.intros)
next
  case (Syn h' d' s e l)
  then show ?thesis by (simp add: state_step_def tcp_edge.intros)
next
  case (NoAck cb1 h1)
  then show ?thesis using receive_ack_frame(2) state_step_ack_fin by blast
next
  case (Ack h' d' s e l cb1)
  then show ?thesis using receive_ack_frame(2) receive_payload_state state_step_ack_fin by blast
qed

lemma cb_step_state: "cb_step cb e cb' \<Longrightarrow> state_step (cb_state cb) (cb_state cb')"
proof (induction rule: cb_step.induct)
  case (step_poll t cb r cb')
  then have "cb_state cb' = cb_state cb"
    by (auto simp: poll_recv_def Let_def split: if_splits prod.splits)
  then show ?case by simp
qed (auto intro: cb_receive_state tx_frame_state
    dest: cb_send_frame cb_close_frame acknowledger_frame retransmitter_frame background_sender_frame sender_after_arp_frame sender_probe_frame)

lemma state_step_path: "state_step s s' \<Longrightarrow> tcp_edge\<^sup>*\<^sup>* s s'"
proof -
  have "tcp_edge FinWait1 FinWait2" "tcp_edge FinWait2 TimeWait"
    by (rule tcp_edge.intros)+
  then have "tcp_edge\<^sup>*\<^sup>* FinWait1 TimeWait"
    by (meson r_into_rtranclp rtranclp.rtrancl_into_rtrancl)
  then show "state_step s s' \<Longrightarrow> tcp_edge\<^sup>*\<^sup>* s s'"
    by (auto simp: state_step_def)
qed

interpretation conn_path: run_invariant "\<lambda>_ cb. tcp_edge\<^sup>*\<^sup>* s0 (cb_state cb)" "\<lambda>_. True" for s0
  by unfold_locales (meson cb_step_state rtranclp_trans state_step_path)

text \<open>C10: whatever segments, sends, closes, reads and timers reach a connection, in any order, its state
  moves only along the edges of the TCP state diagram (with the reset edges to Closed): each single
  event takes at most one edge, or the two edges from FIN-WAIT-1 to TIME-WAIT.\<close>

theorem connection_state_diagram:
  assumes "cb_run cb0 es cb"
  shows "tcp_edge\<^sup>*\<^sup>* (cb_state cb0) (cb_state cb)
    \<and> (\<forall>e cb'. cb_step cb e cb' \<longrightarrow> cb_state cb' = cb_state cb \<or> tcp_edge (cb_state cb) (cb_state cb')
        \<or> (cb_state cb = FinWait1 \<and> cb_state cb' = TimeWait))"
  using conn_path.run_holds [OF assms, of "cb_state cb0"] cb_step_state
  by (auto simp: state_step_def list_all_iff)

text \<open>A connection to evaluate witnesses on.\<close>

definition demo_cb :: ctrl_block where
  "demo_cb = cb_new (0x0A000109, 80) (0x0A000108, 5000) 0 (Mac 1 1 1 1 1 1) False
     (\<lambda>ip. if ip = 0x0A000108 then Some (Mac 2 2 2 2 2 2) else None)
     1000 (1 / 2) 4096 0 5000 8192 0 1460"

lemmas demo_simps = demo_cb_def cb_new_def sender_new_def receiver_new_def sh_new_def rto_new_def
  cb_close_def cb_send_def disable_stats_def sh_disable_def send_immediate_def cb_tcp_header_def hdr_window_size_def
  get_receive_window_size_def emit_def set_ack_deadline_def cc_get_cwnd_def
  cc_get_limited_transmit_cwnd_increase_def seq_sub_def seq_add_def push_unacked_segment_def tcp_new_def

theorem connection_state_diagram_witness:
  "\<exists>cb. cb_run demo_cb [Close] cb \<and> cb_state cb = FinWait1 \<and> tcp_edge\<^sup>*\<^sup>* (cb_state demo_cb) (cb_state cb)"
proof -
  obtain cb where c: "cb_close demo_cb = Some cb" "cb_state cb = FinWait1"
    by (simp add: demo_simps Let_def)
  then have "cb_run demo_cb ([] @ [Close]) cb"
    by (blast intro: run_snoc run_nil step_close)
  with connection_state_diagram [OF this] c(2) show ?thesis
    by auto
qed

end
