(* ===== verification/Receive_Stream.thy ===== *)
theory Receive_Stream
  imports Conn_States
begin

text \<open>
  In-order delivery. The peer sends a byte stream \<open>S\<close>, numbered from the initial sequence number
  \<open>irs\<close>; the network may lose, repeat, delay and reorder segments, and cut them at will. The
  invariant \<open>rx_inv\<close> says that what the application has read followed by what is queued for it is a
  prefix of \<open>S\<close>, and that everything stored out of order is a piece of \<open>S\<close> at its own place.
\<close>

section \<open>Pieces of a stream\<close>

definition stream_at :: "seq \<Rightarrow> bytes \<Rightarrow> seq \<Rightarrow> bytes \<Rightarrow> bool" where
  "stream_at irs S start data \<longleftrightarrow> data = [] \<or>
     (\<exists>p. start = irs + of_nat p \<and> p + length data \<le> length S \<and> data = take (length data) (drop p S))"

text \<open>A segment of the stream: its data starts after the SYN, if it has one, and its FIN comes right after
  the last byte of the stream.\<close>

definition seg_of_stream :: "seq \<Rightarrow> bytes \<Rightarrow> tcp_header \<Rightarrow> bytes \<Rightarrow> bool" where
  "seg_of_stream irs S h data \<longleftrightarrow>
     stream_at irs S (seq_num h + of_bool (syn h)) data
     \<and> (fin h \<longrightarrow> seq_num h + of_bool (syn h) + of_nat (length data) = irs + of_nat (length S))"

lemma stream_at_Nil [simp]: "stream_at irs S start []"
  by (simp add: stream_at_def)

lemma stream_at_drop:
  assumes "stream_at irs S start data" "k \<le> length data"
  shows "stream_at irs S (start + of_nat k) (drop k data)"
proof (cases "drop k data = []")
  case False
  then obtain p where p: "start = irs + of_nat p" "p + length data \<le> length S" "data = take (length data) (drop p S)"
    using assms(1) by (auto simp: stream_at_def)
  have "drop k data = take (length data - k) (drop (p + k) S)"
    by (subst p(3)) (simp add: drop_take add.commute)
  with p assms(2) show ?thesis
    unfolding stream_at_def by (intro disjI2 exI [of _ "p + k"]) simp
qed simp

lemma stream_at_take:
  assumes "stream_at irs S start data"
  shows "stream_at irs S start (take k data)"
proof (cases "take k data = []")
  case False
  then obtain p where p: "start = irs + of_nat p" "p + length data \<le> length S" "data = take (length data) (drop p S)"
    using assms by (auto simp: stream_at_def)
  then have "take k data = take (min k (length data)) (drop p S)"
    by (metis take_take)
  with p show ?thesis
    unfolding stream_at_def by (intro disjI2 exI [of _ p]) simp
qed auto

lemma stream_at_adjust:
  "stream_at irs S start data \<Longrightarrow> unat k \<le> length data \<Longrightarrow> stream_at irs S (start + k) (drop (unat k) data)"
  using stream_at_drop [of irs S start data "unat k"] by simp

lemma of_nat_u32_inj: "(of_nat m :: u32) = of_nat n \<Longrightarrow> m < 2 ^ 32 \<Longrightarrow> n < 2 ^ 32 \<Longrightarrow> m = n"
  by (metis unat_of_nat_u32)

text \<open>Data that starts where the prefix of length \<open>n\<close> ends extends that prefix.\<close>

lemma stream_at_extends:
  assumes "stream_at irs S (irs + of_nat n) data" "data \<noteq> []" "n < 2 ^ 32" "length S < 2 ^ 32"
  shows "n + length data \<le> length S" "take n S @ data = take (n + length data) S"
proof -
  obtain p where p: "(of_nat n :: u32) = of_nat p" "p + length data \<le> length S" "data = take (length data) (drop p S)"
    using assms(1,2) by (auto simp: stream_at_def)
  have "n = p"
    using of_nat_u32_inj [OF p(1)] assms(3,4) p(2) by simp
  with p show "n + length data \<le> length S" "take n S @ data = take (n + length data) S"
    by (simp_all add: take_add)
qed

section \<open>The receive queue\<close>

text \<open>\<open>n\<close> bytes of the stream have been received; \<open>D\<close> are those the application has read.\<close>

definition queue_ok :: "seq \<Rightarrow> bytes \<Rightarrow> bytes \<Rightarrow> nat \<Rightarrow> bytes list \<Rightarrow> bool" where
  "queue_ok irs S D n q \<longleftrightarrow> n \<le> length S \<and> D @ concat q = take n S"

lemma receiver_push_simps [simp]:
  "recv_queue (receiver_push b r) = recv_queue r @ [b]"
  "receive_next (receiver_push b r) = receive_next r + of_nat (length b)"
  "reader_next (receiver_push b r) = reader_next r"
  by (simp_all add: receiver_push_def Let_def seq_add_def)

lemma queue_ok_push:
  assumes "queue_ok irs S D n q" "stream_at irs S (irs + of_nat n) b" "length S < 2 ^ 32"
  shows "queue_ok irs S D (n + length b) (q @ [b])"
proof (cases "b = []")
  case False
  moreover have "n < 2 ^ 32"
    using assms by (simp add: queue_ok_def)
  ultimately show ?thesis
    using stream_at_extends [OF assms(2)] assms by (simp add: queue_ok_def flip: append_assoc)
qed (use assms in \<open>simp add: queue_ok_def\<close>)

lemma ooo_drain_ok:
  assumes "ooo_drain q rx r added = (q', rx', r', added')"
    and "queue_ok irs S D n (recv_queue r)" "rx = irs + of_nat n" "receive_next r = rx"
    and "\<forall>(s, b) \<in> set q. stream_at irs S s b" "length S < 2 ^ 32"
  shows "\<exists>m. queue_ok irs S D m (recv_queue r') \<and> n \<le> m \<and> rx' = irs + of_nat m \<and> receive_next r' = rx'
    \<and> reader_next r' = reader_next r \<and> set q' \<subseteq> set q"
  using assms
proof (induction q arbitrary: rx r added n)
  case Nil
  then show ?case by (intro exI [of _ n]) simp
next
  case (Cons x q)
  obtain s b where x: "x = (s, b)"
    by fastforce
  show ?case
  proof (cases "s = rx")
    case True
    have "queue_ok irs S D (n + length b) (recv_queue (receiver_push b r))"
      using queue_ok_push [of irs S D n "recv_queue r" b] Cons.prems x True by auto
    moreover have "ooo_drain q (seq_add rx (of_nat (length b))) (receiver_push b r) True = (q', rx', r', added')"
      using Cons.prems(1) x True by simp
    ultimately obtain m where "queue_ok irs S D m (recv_queue r')" "n + length b \<le> m" "rx' = irs + of_nat m"
      "receive_next r' = rx'" "reader_next r' = reader_next (receiver_push b r)" "set q' \<subseteq> set q"
      using Cons.IH [of "seq_add rx (of_nat (length b))" "receiver_push b r" True "n + length b"] Cons.prems x
      by (auto simp: seq_add_def)
    then show ?thesis
      by (intro exI [of _ m]) (auto simp: x)
  next
    case False
    then show ?thesis
      using Cons.prems x by (intro exI [of _ n]) auto
  qed
qed

section \<open>The out-of-order store\<close>

lemma ooo_scan_stream:
  "ooo_scan q i len s e b = Some res \<Longrightarrow> stream_at irs S s b \<Longrightarrow>
   (\<forall>j s' b'. res = ScanPlace j s' b' \<or> res = ScanEncompass j s' b' \<longrightarrow> stream_at irs S s' b')"
proof (induction q arbitrary: i s b)
  case (Cons x q)
  obtain ss sb where x: "x = (ss, sb)"
    by fastforce
  show ?case
    using Cons.prems unfolding x
    by (auto simp: Let_def buf_adjust_def buf_trim_def seq_add_def bind_eq_Some_conv stream_at_take
        stream_at_adjust split: if_splits option.splits dest!: Cons.IH)
qed auto

lemma set_remove_nth_subset: "set (take i q @ drop (i + 1) q) \<subseteq> set q"
  by (auto dest: in_set_takeD in_set_dropD)

lemma ooo_insert_stream:
  "ooo_insert q s e b = Some q' \<Longrightarrow> stream_at irs S s b \<Longrightarrow> \<forall>(s, b) \<in> set q. stream_at irs S s b \<Longrightarrow>
   \<forall>(s, b) \<in> set q'. stream_at irs S s b"
proof (induction q s e b arbitrary: q' rule: ooo_insert.induct)
  case (1 q s e b)
  obtain res where res: "ooo_scan q 0 (length q) s e b = Some res"
    using "1.prems"(1) by (subst (asm) ooo_insert.simps) (auto split: option.splits)
  note st = ooo_scan_stream [OF res "1.prems"(2)]
  show ?case
  proof (cases res)
    case ScanDuplicate
    then show ?thesis
      using "1.prems" res by (subst (asm) ooo_insert.simps) simp
  next
    case (ScanEncompass i s' b')
    then have "ooo_insert (take i q @ drop (i + 1) q) s' e b' = Some q'"
      using "1.prems"(1) res by (subst (asm) ooo_insert.simps) simp
    then show ?thesis
      using "1.IH" [OF res ScanEncompass] st ScanEncompass "1.prems"(3) set_remove_nth_subset [of i q]
      by blast
  next
    case (ScanPlace i s' b')
    then have "set q' \<subseteq> insert (s', b') (set q)"
      using "1.prems"(1) res
      by (subst (asm) ooo_insert.simps) (auto dest!: in_set_takeD in_set_dropD)
    then show ?thesis
      using st ScanPlace "1.prems"(3) by blast
  qed
qed

section \<open>The window check\<close>

text \<open>An accepted segment, as trimmed, is still a segment of the stream, now without SYN.\<close>

definition piece_ok :: "seq \<Rightarrow> bytes \<Rightarrow> tcp_header \<Rightarrow> bytes \<Rightarrow> seq \<Rightarrow> seq \<Rightarrow> bool" where
  "piece_ok irs S h d s e \<longleftrightarrow> stream_at irs S s d
     \<and> (fin h \<longrightarrow> s + of_nat (length d) = irs + of_nat (length S) \<and> e = irs + of_nat (length S))"

lemma stream_at_length: "stream_at irs S s d \<Longrightarrow> length d \<le> length S"
  by (auto simp: stream_at_def)

lemma seg_bounds_fin:
  assumes "seg_of_stream irs S h d" "fin h" "length S + 2 < 2 ^ 32" "seg_bounds h d = (e, l)"
  shows "e = irs + of_nat (length S)"
proof -
  define n where "n = length d + (if syn h then 1 else 0)"
  have "length d \<le> length S"
    using assms(1) stream_at_length by (auto simp: seg_of_stream_def)
  then have lt: "n + 1 < 2 ^ 32"
    using assms(3) by (simp add: n_def)
  have e: "(e, l) = (if (of_nat n + 1 :: u32) > 0 then seq_num h + (of_nat n + 1 - 1) else seq_num h, of_nat n + 1)"
    using assms(2,4) by (auto simp: seg_bounds_def Let_def seq_add_def n_def split: if_splits)
  have "unat (of_nat n + 1 :: u32) = n + 1"
    using unat_of_nat_u32 [of "n + 1"] lt by (simp add: add.commute)
  then have "(of_nat n + 1 :: u32) > 0"
    by (metis add_is_0 unat_0 word_neq_0_conv zero_neq_one)
  then have "e = seq_num h + of_nat n"
    using e by simp
  then show ?thesis
    using assms(1,2) by (auto simp: seg_of_stream_def n_def ac_simps split: if_splits)
qed

lemma check_window_start_piece:
  assumes ok: "seg_of_stream irs S h d" "length S + 2 < 2 ^ 32"
    and acc: "check_window_start h d cb = Some (WAccept h' d' s e l)" and ns: "\<not> syn h'"
  shows "piece_ok irs S h' d' s e"
proof -
  obtain e0 l0 where b: "seg_bounds h d = (e0, l0)"
    by fastforce
  have fe: "fin h \<Longrightarrow> e0 = irs + of_nat (length S)"
    using seg_bounds_fin [OF ok(1) _ ok(2) b] by simp
  have st: "stream_at irs S (seq_num h + of_bool (syn h)) d"
    and fn: "fin h \<Longrightarrow> seq_num h + of_bool (syn h) + of_nat (length d) = irs + of_nat (length S)"
    using ok(1) by (auto simp: seg_of_stream_def)
  define rx where "rx = receive_next (cb_receiver cb)"
  define dup where "dup = (if syn h then rx - seq_num h - 1 else rx - seq_num h)"
  have acc': "h' = h \<and> d' = d \<and> s = seq_num h \<and> e = e0 \<or>
     (\<exists>d1. buf_adjust (unat dup) d = Some d1 \<and> d' = d1 \<and> s = rx \<and> e = e0 \<and> fin h' = fin h)"
    using acc b
    by (auto simp: check_window_start_def Let_def rx_def [symmetric] seq_sub_def seq_add_def dup_def
        bind_eq_Some_conv split: if_splits dest!: drop_with_ack_result)
  then show ?thesis
  proof
    assume "h' = h \<and> d' = d \<and> s = seq_num h \<and> e = e0"
    with ns st fn fe show ?thesis
      by (auto simp: piece_ok_def)
  next
    assume "\<exists>d1. buf_adjust (unat dup) d = Some d1 \<and> d' = d1 \<and> s = rx \<and> e = e0 \<and> fin h' = fin h"
    then have k: "unat dup \<le> length d" "d' = drop (unat dup) d" "s = rx" "e = e0" "fin h' = fin h"
      by (auto simp: buf_adjust_def split: if_splits)
    have "seq_num h + of_bool (syn h) + dup = rx"
      by (simp add: dup_def)
    moreover have "of_nat (length d - unat dup) = of_nat (length d) - dup"
      using k(1) by (simp add: of_nat_diff)
    ultimately show ?thesis
      using stream_at_adjust [OF st k(1)] k fn fe by (auto simp: piece_ok_def algebra_simps)
  qed
qed

lemma check_window_piece:
  assumes "seg_of_stream irs S h d" "length S + 2 < 2 ^ 32"
    and "check_window h d cb = Some (WAccept h' d' s e l)" "\<not> syn h'"
  shows "piece_ok irs S h' d' s e"
proof -
  obtain h1 d1 e1 l1 where 1: "check_window_start h d cb = Some (WAccept h1 d1 s e1 l1)"
    and 2: "check_window_end cb h1 d1 s e1 l1 = Some (WAccept h' d' s e l)"
    using assms(3)
    by (auto simp: check_window_def check_window_end_def Let_def bind_eq_Some_conv
        split: option.splits window_check.splits if_splits)
  have "syn h1 = syn h'"
    using 2 by (auto simp: check_window_end_def Let_def bind_eq_Some_conv split: if_splits)
  then have "piece_ok irs S h1 d1 s e1"
    using check_window_start_piece [OF assms(1,2) 1] assms(4) by simp
  then show ?thesis
    using 2
    by (auto simp: check_window_end_def Let_def bind_eq_Some_conv buf_trim_def piece_ok_def stream_at_take
        split: if_splits)
qed

section \<open>The invariant\<close>

text \<open>\<open>n\<close> bytes of the stream are received, and \<open>f\<close> tells whether its FIN is.\<close>

definition rx_pos :: "seq \<Rightarrow> bytes \<Rightarrow> bytes \<Rightarrow> nat \<Rightarrow> bool \<Rightarrow> seq \<Rightarrow> bytes list \<Rightarrow> bool" where
  "rx_pos irs S D n f rx q \<longleftrightarrow> queue_ok irs S D n q \<and> rx = irs + of_nat n + of_bool f \<and> (f \<longrightarrow> n = length S)"

definition ooo_ok :: "seq \<Rightarrow> bytes \<Rightarrow> (seq \<times> bytes) list \<Rightarrow> seq option \<Rightarrow> bool" where
  "ooo_ok irs S ooo ooo_fin \<longleftrightarrow> (\<forall>(s, b) \<in> set ooo. stream_at irs S s b)
     \<and> (\<forall>x. ooo_fin = Some x \<longrightarrow> x = irs + of_nat (length S))"

text \<open>The states entered by receiving the peer's FIN.\<close>

definition fin_seen :: "tcp_state \<Rightarrow> bool" where
  "fin_seen st \<longleftrightarrow> st \<in> {CloseWait, Closing, LastAck, TimeWait}"

definition rx_reached :: "seq \<Rightarrow> bytes \<Rightarrow> bytes \<Rightarrow> seq \<Rightarrow> bytes list \<Rightarrow> tcp_state \<Rightarrow> bool" where
  "rx_reached irs S D rx q st \<longleftrightarrow> (\<exists>n f. rx_pos irs S D n f rx q \<and> (fin_seen st \<longrightarrow> f))"

lemma rx_reachedI: "rx_pos irs S D n f rx q \<Longrightarrow> (fin_seen st \<Longrightarrow> f) \<Longrightarrow> rx_reached irs S D rx q st"
  by (auto simp: rx_reached_def)

fun rx_ok :: "seq \<Rightarrow> bytes \<Rightarrow> bytes \<Rightarrow> seq \<times> seq \<times> bytes list \<times> (seq \<times> bytes) list \<times> seq option \<Rightarrow> tcp_state \<Rightarrow> bool" where
  "rx_ok irs S D (rd, rx, q, ooo, ooo_fin) st \<longleftrightarrow>
     rx_reached irs S D rx q st \<and> rd = irs + of_nat (length D) \<and> ooo_ok irs S ooo ooo_fin"

lemma rx_ok_state: "rx_ok irs S D core st \<Longrightarrow> (fin_seen st' \<Longrightarrow> fin_seen st) \<Longrightarrow> rx_ok irs S D core st'"
  by (cases core) (auto simp: rx_reached_def)

lemma rx_ok_fin_sent: "rx_ok irs S D core st \<Longrightarrow> rx_ok irs S D core (fin_sent st)"
  by (erule rx_ok_state) (cases st; simp add: fin_seen_def)

lemma rx_ok_ack_state: "rx_ok irs S D core st \<Longrightarrow> rx_ok irs S D core (ack_state st)"
  by (erule rx_ok_state) (cases st; simp add: fin_seen_def)

text \<open>New data, or a FIN, at the receive position: the FIN of the stream has not been received yet.\<close>

lemma rx_pos_no_fin:
  assumes "rx_pos irs S D n f rx q" "length S + 2 < 2 ^ 32" "piece_ok irs S h d rx e" "d \<noteq> [] \<or> fin h"
  shows "\<not> f"
proof
  assume f
  then have rx: "rx = irs + of_nat (length S + 1)"
    using assms(1) by (simp add: rx_pos_def)
  have d: "stream_at irs S rx d" "length d \<le> length S"
    using assms(3) stream_at_length by (auto simp: piece_ok_def)
  from assms(4) show False
  proof
    assume "d \<noteq> []"
    then show False
      using d(1) rx stream_at_extends(1) [of irs S "length S + 1" d] assms(2) by simp
  next
    assume "fin h"
    then have "irs + of_nat (length S) + of_nat (1 + length d) = irs + of_nat (length S)"
      using assms(3) rx by (simp add: piece_ok_def)
    then have "(of_nat (1 + length d) :: u32) = of_nat 0"
      by simp
    then show False
      using of_nat_u32_inj [of "1 + length d" 0] d(2) assms(2) by simp
  qed
qed

lemma rx_pos_fin_at:
  assumes "rx_pos irs S D n False rx q" "rx = irs + of_nat (length S)" "length S < 2 ^ 32"
  shows "n = length S"
  using assms of_nat_u32_inj [of n "length S"] by (simp add: rx_pos_def queue_ok_def)

text \<open>In-order text, followed by the stored segments it connects to.\<close>

lemma receive_data_ok:
  assumes "rx_pos irs S D n False (receive_next (cb_receiver cb)) (recv_queue (cb_receiver cb))"
    and "ooo_ok irs S (out_of_order cb) (out_of_order_fin cb)" "length S < 2 ^ 32"
    and "stream_at irs S (receive_next (cb_receiver cb)) d" "receive_data d cb = (ofin, cb')"
  shows "\<exists>m. rx_pos irs S D m False (receive_next (cb_receiver cb')) (recv_queue (cb_receiver cb'))
    \<and> n + length d \<le> m \<and> (ofin \<longrightarrow> m = length S)
    \<and> reader_next (cb_receiver cb') = reader_next (cb_receiver cb)
    \<and> ooo_ok irs S (out_of_order cb') (out_of_order_fin cb')"
proof -
  let ?r = "cb_receiver cb"
  obtain q rx' r added where dr: "ooo_drain (out_of_order cb)
      (seq_add (receive_next ?r) (of_nat (length d))) (receiver_push d ?r) False = (q, rx', r, added)"
    by (metis prod_cases4)
  have rx: "receive_next ?r = irs + of_nat n" and q: "queue_ok irs S D n (recv_queue ?r)"
    using assms(1) by (simp_all add: rx_pos_def)
  have "queue_ok irs S D (n + length d) (recv_queue (receiver_push d ?r))"
    using queue_ok_push [OF q _ assms(3)] assms(4) rx by simp
  then obtain m where m: "queue_ok irs S D m (recv_queue r)" "n + length d \<le> m" "rx' = irs + of_nat m"
    "receive_next r = rx'" "reader_next r = reader_next ?r" "set q \<subseteq> set (out_of_order cb)"
    using ooo_drain_ok [OF dr, of irs S D "n + length d"] rx assms(2,3) by (auto simp: seq_add_def ooo_ok_def)
  have cb': "cb_receiver cb' = r" "out_of_order cb' = q" "out_of_order_fin cb' = out_of_order_fin cb"
    "ofin \<Longrightarrow> out_of_order_fin cb = Some rx'"
    using assms(5) by (auto simp: receive_data_def Let_def dr)
  have pos: "rx_pos irs S D m False (receive_next r) (recv_queue r)"
    using m by (simp add: rx_pos_def)
  moreover have "ofin \<Longrightarrow> m = length S"
    using rx_pos_fin_at [OF pos _ assms(3)] cb'(4) m(4) assms(2) by (simp add: ooo_ok_def)
  moreover have "ooo_ok irs S q (out_of_order_fin cb)"
    using assms(2) m(6) by (auto simp: ooo_ok_def)
  ultimately show ?thesis
    using m cb' by (intro exI [of _ m]) simp
qed

lemma receive_text_ok:
  assumes ok: "rx_ok irs S D (rx_core cb) (cb_state cb)" and len: "length S + 2 < 2 ^ 32"
    and pc: "piece_ok irs S h d (receive_next (cb_receiver cb)) e"
    and res: "receive_text h d cb = (got_fin, sched, cb')"
  shows "rx_ok irs S D (rx_core cb') (cb_state cb) \<and>
    (got_fin \<longrightarrow> cb_state cb \<noteq> Closed \<longrightarrow>
      rx_pos irs S D (length S) False (receive_next (cb_receiver cb')) (recv_queue (cb_receiver cb')))"
proof -
  let ?r = "cb_receiver cb"
  from ok obtain n f where n: "rx_pos irs S D n f (receive_next ?r) (recv_queue ?r)"
    "fin_seen (cb_state cb) \<Longrightarrow> f"
    and rest: "reader_next ?r = irs + of_nat (length D)" "ooo_ok irs S (out_of_order cb) (out_of_order_fin cb)"
    by (auto simp: rx_core_def rx_reached_def)
  have S: "length S < 2 ^ 32"
    using len by simp
  have nf: "d \<noteq> [] \<or> fin h \<Longrightarrow> \<not> f"
    using rx_pos_no_fin [OF n(1) len pc] by blast
  have d: "stream_at irs S (receive_next ?r) d"
    and fd: "fin h \<Longrightarrow> receive_next ?r + of_nat (length d) = irs + of_nat (length S)"
    using pc by (auto simp: piece_ok_def)
  show ?thesis
  proof (cases "d \<noteq> [] \<and> cb_state cb \<in> {Established, FinWait1, FinWait2}")
    case True
    obtain ofin where rd: "receive_data d cb = (ofin, cb')" and gf: "got_fin = (fin h \<or> ofin)"
      using res True by (auto simp: receive_text_def split: prod.splits)
    have f: "f = False"
      using nf True by blast
    obtain m where m: "rx_pos irs S D m False (receive_next (cb_receiver cb')) (recv_queue (cb_receiver cb'))"
      "n + length d \<le> m" "ofin \<Longrightarrow> m = length S" "reader_next (cb_receiver cb') = reader_next ?r"
      "ooo_ok irs S (out_of_order cb') (out_of_order_fin cb')"
      using receive_data_ok [OF n(1) [unfolded f] rest(2) S d rd] by blast
    have "m = length S" if "fin h"
    proof -
      have "m \<le> length S"
        using m(1) by (simp add: rx_pos_def queue_ok_def)
      moreover have "n + length d = length S"
        using fd [OF that] n(1) f S \<open>m \<le> length S\<close> m(2) of_nat_u32_inj [of "n + length d" "length S"]
        by (simp add: rx_pos_def)
      ultimately show ?thesis
        using m(2) by simp
    qed
    then have "got_fin \<Longrightarrow> m = length S"
      using gf m(3) by blast
    moreover have "\<not> fin_seen (cb_state cb)"
      using n(2) f by blast
    ultimately show ?thesis
      using m rest(1) rx_reachedI [OF m(1)] by (auto simp: rx_core_def)
  next
    case False
    then have cb': "cb' = cb" "got_fin = fin h"
      using res by (auto simp: receive_text_def split: if_splits)
    have "rx_pos irs S D (length S) False (receive_next ?r) (recv_queue ?r)" if "fin h" "cb_state cb \<noteq> Closed"
    proof -
      have f: "f = False"
        using nf that by blast
      then have "d = []"
        using False n(2) that(2) by (cases "cb_state cb") (auto simp: fin_seen_def)
      then have "receive_next ?r = irs + of_nat (length S)"
        using fd that(1) by simp
      then show ?thesis
        using rx_pos_fin_at [OF n(1) [unfolded f] _ S] n(1) f by simp
    qed
    then show ?thesis
      using ok cb' by simp
  qed
qed

lemma receive_out_of_order_ok:
  assumes "rx_ok irs S D (rx_core cb) (cb_state cb)" "piece_ok irs S h d s e"
    and "receive_out_of_order h d s e l cb = Some cb'"
  shows "rx_ok irs S D (rx_core cb') (cb_state cb')"
proof (cases "l > 0 \<and> cb_state cb \<in> {Established, FinWait1, FinWait2}")
  case True
  define cb1 where "cb1 = (if fin h then store_out_of_order_fin e cb else cb)"
  have ok1: "rx_ok irs S D (rx_core cb1) (cb_state cb1)"
    using assms(1,2) by (auto simp: cb1_def store_out_of_order_fin_def rx_core_def ooo_ok_def piece_ok_def)
  obtain cb2 e' where "cb2 = cb1 \<or> store_out_of_order_segment s e' d cb1 = Some cb2" "send_ack cb2 = Some cb'"
    using assms(3) True
    by (auto simp: receive_out_of_order_def cb1_def bind_eq_Some_conv split: if_splits)
  moreover have "rx_ok irs S D (rx_core cb2) (cb_state cb2)" if "store_out_of_order_segment s e' d cb1 = Some cb2"
    using that ok1 assms(2) ooo_insert_stream [of "out_of_order cb1" s e' d _ irs S]
    by (auto simp: store_out_of_order_segment_def bind_eq_Some_conv rx_core_def ooo_ok_def piece_ok_def)
  ultimately show ?thesis
    using ok1 send_ack_frame(1,3) by metis
qed (use assms in \<open>auto simp: receive_out_of_order_def\<close>)

lemma receive_fin_ok:
  assumes "rx_ok irs S D (rx_core cb) (cb_state cb)" "receive_fin cb = Some cb'"
    and "rx_pos irs S D (length S) False (receive_next (cb_receiver cb)) (recv_queue (cb_receiver cb))"
  shows "rx_ok irs S D (rx_core cb') (cb_state cb')"
proof -
  have "rx_pos irs S D (length S) True (seq_add (receive_next (cb_receiver cb)) 1) (recv_queue (cb_receiver cb))"
    using assms(3) by (simp add: rx_pos_def seq_add_def)
  then show ?thesis
    using assms(1) rx_reachedI unfolding receive_fin_frame(3) [OF assms(2)] by (auto simp: rx_core_def)
qed

lemma receive_payload_ok:
  assumes ok: "rx_ok irs S D (rx_core cb) (cb_state cb)" and len: "length S + 2 < 2 ^ 32"
    and pc: "piece_ok irs S h d s e"
    and res: "receive_payload h d s e l now (receive_next (cb_receiver cb)) cb = Some cb'"
  shows "rx_ok irs S D (rx_core cb') (cb_state cb')"
proof (cases "s = receive_next (cb_receiver cb)")
  case True
  obtain got_fin sched cb1 where t: "receive_text h d cb = (got_fin, sched, cb1)"
    by (metis prod_cases3)
  note ok1 = receive_text_ok [OF ok len pc [unfolded True] t]
  note st1 = receive_text_frame(1) [OF t]
  have r: "(if got_fin then receive_fin cb1 else if sched then schedule_ack now cb1 else Some cb1) = Some cb'"
    using res True by (simp add: receive_payload_def t)
  show ?thesis
  proof (cases got_fin)
    case True
    then have rf: "receive_fin cb1 = Some cb'"
      using r by simp
    then have "cb_state cb \<noteq> Closed"
      using receive_fin_frame(1) st1 by metis
    then show ?thesis
      using receive_fin_ok [OF _ rf] ok1 st1 True by simp
  next
    case False
    then show ?thesis
      using r ok1 st1 schedule_ack_frame(1,2) [of now cb1 cb'] by (auto split: if_splits)
  qed
next
  case False
  then show ?thesis
    using receive_out_of_order_ok [OF ok pc] res by (simp add: receive_payload_def)
qed

lemma cb_receive_ok:
  assumes "cb_receive h d cb = Some cb'" "rx_ok irs S D (rx_core cb) (cb_state cb)"
    and "seg_of_stream irs S h d" "length S + 2 < 2 ^ 32"
  shows "rx_ok irs S D (rx_core cb') (cb_state cb')"
  using assms(1)
proof (cases rule: cb_receive_cases)
  case Dropped
  then show ?thesis using assms(2) send_ack_frame(1,3) by metis
next
  case (Reset h' d' s e l)
  then show ?thesis using assms(2) rx_ok_state [of irs S D _ "cb_state cb" Closed] by (simp add: fin_seen_def)
next
  case (Syn h' d' s e l)
  then show ?thesis using assms(2) rx_ok_state [of irs S D _ "cb_state cb" Closed] by (simp add: fin_seen_def)
next
  case (NoAck cb1 h1)
  then show ?thesis using assms(2) receive_ack_frame [OF NoAck(1)] rx_ok_ack_state [OF assms(2)] by auto
next
  case (Ack h' d' s e l cb1)
  have "rx_ok irs S D (rx_core cb1) (cb_state cb1)"
    using assms(2) receive_ack_frame [OF Ack(5)] rx_ok_ack_state [OF assms(2)] by auto
  moreover have "receive_next (cb_receiver cb1) = receive_next (cb_receiver cb)"
    using receive_ack_frame(1) [OF Ack(5)] by (simp add: rx_core_def)
  ultimately show ?thesis
    using receive_payload_ok [OF _ assms(4) check_window_piece [OF assms(3,4) Ack(1,3)]] Ack(6) by simp
qed

section \<open>Runs\<close>

text \<open>The bytes the application has been given.\<close>

fun reads :: "cb_event list \<Rightarrow> bytes" where
  "reads [] = []"
| "reads (Poll _ (Some b) # es) = b @ reads es"
| "reads (_ # es) = reads es"

lemma reads_append [simp]: "reads (es @ fs) = reads es @ reads fs"
  by (induction es rule: reads.induct) simp_all

definition rx_inv :: "seq \<Rightarrow> bytes \<Rightarrow> cb_event list \<Rightarrow> ctrl_block \<Rightarrow> bool" where
  "rx_inv irs S es cb \<longleftrightarrow> length S + 2 < 2 ^ 32 \<and> rx_ok irs S (reads es) (rx_core cb) (cb_state cb)"

fun from_stream :: "seq \<Rightarrow> bytes \<Rightarrow> cb_event \<Rightarrow> bool" where
  "from_stream irs S (Receive h d) = seg_of_stream irs S h d"
| "from_stream irs S _ = True"

lemma poll_recv_ok:
  assumes "rx_ok irs S D (rx_core cb) (cb_state cb)" "poll_recv t cb = (r, cb')"
  shows "rx_ok irs S (D @ (case r of Some b \<Rightarrow> b | None \<Rightarrow> [])) (rx_core cb') (cb_state cb')"
proof (cases "recv_queue (cb_receiver cb)")
  case Nil
  then show ?thesis using assms by (auto simp: poll_recv_def rx_core_def)
next
  case (Cons b q)
  then have "r = Some b" "rx_core cb' = (seq_add (reader_next (cb_receiver cb)) (of_nat (length b)),
      receive_next (cb_receiver cb), q, out_of_order cb, out_of_order_fin cb)" "cb_state cb' = cb_state cb"
    using assms(2) by (auto simp: poll_recv_def receiver_pop_def rx_core_def)
  then show ?thesis
    using assms(1) Cons by (auto simp: rx_core_def rx_reached_def rx_pos_def queue_ok_def seq_add_def)
qed

lemma tx_frame_rx_ok:
  "tx_frame cb cb' \<Longrightarrow> rx_ok irs S D (rx_core cb) (cb_state cb) \<Longrightarrow> rx_ok irs S D (rx_core cb') (cb_state cb')"
  using rx_ok_fin_sent [of irs S D "rx_core cb" "cb_state cb"] by (auto simp: tx_frame_def)

lemmas step_frames = cb_send_frame cb_close_frame acknowledger_frame retransmitter_frame
  background_sender_frame sender_after_arp_frame sender_probe_frame

interpretation rx_stream: run_invariant "rx_inv irs S" "from_stream irs S" for irs S
proof
  fix es cb e cb'
  assume inv: "rx_inv irs S es cb" and ok: "from_stream irs S e" and step: "cb_step cb e cb'"
  from step inv ok show "rx_inv irs S (es @ [e]) cb'"
  proof cases
    case (step_poll t r)
    then show ?thesis
      using inv poll_recv_ok [of irs S "reads es" cb t r cb'] by (cases r) (auto simp: rx_inv_def)
  qed (auto simp: rx_inv_def intro: cb_receive_ok tx_frame_rx_ok dest: step_frames)
qed

text \<open>A connection that has just been established and expects byte \<open>irs\<close> first.\<close>

definition fresh_rx :: "seq \<Rightarrow> ctrl_block \<Rightarrow> bool" where
  "fresh_rx irs cb \<longleftrightarrow> cb_state cb = Established \<and> rx_core cb = (irs, irs, [], [], None)"

lemma fresh_rx_new:
  "fresh_rx irs (cb_new local remote now link off arp irs delay rws rwsc sseq sws swsc m)"
  by (simp add: fresh_rx_def cb_new_def receiver_new_def rx_core_def)

lemma fresh_rx_inv: "fresh_rx irs cb \<Longrightarrow> length S + 2 < 2 ^ 32 \<Longrightarrow> rx_inv irs S [] cb"
  by (auto simp: fresh_rx_def rx_inv_def ooo_ok_def rx_pos_def queue_ok_def fin_seen_def
      intro!: rx_reachedI [of _ _ _ 0 False])

lemma rx_inv_position:
  assumes "rx_inv irs S es cb"
  shows "\<exists>n. n \<le> length S \<and> reads es @ concat (recv_queue (cb_receiver cb)) = take n S
    \<and> (receive_next (cb_receiver cb) = irs + of_nat n
       \<or> n = length S \<and> receive_next (cb_receiver cb) = irs + of_nat n + 1)"
proof -
  obtain n f where "rx_pos irs S (reads es) n f (receive_next (cb_receiver cb)) (recv_queue (cb_receiver cb))"
    using assms by (auto simp: rx_inv_def rx_core_def rx_reached_def)
  then show ?thesis
    by (cases f) (auto simp: rx_pos_def queue_ok_def)
qed

text \<open>C1: in-order delivery. Let the peer send a stream of bytes, ended by a FIN or not, and let the network
  deliver any segments of it in any order, cut anywhere, lost or repeated, interleaved with anything the
  application and the timers do. Then the bytes the application has read, followed by those queued for
  it, are exactly a prefix of the stream, and RCV.NXT stands right after that prefix (or after the FIN, when
  the prefix is the whole stream).\<close>

theorem receive_in_order:
  assumes "fresh_rx irs cb0" "cb_run cb0 es cb" "length S + 2 < 2 ^ 32" "list_all (from_stream irs S) es"
  shows "\<exists>n. n \<le> length S \<and> reads es @ concat (recv_queue (cb_receiver cb)) = take n S
    \<and> (receive_next (cb_receiver cb) = irs + of_nat n
       \<or> n = length S \<and> receive_next (cb_receiver cb) = irs + of_nat n + 1)"
  by (rule rx_inv_position)
    (use rx_stream.run_holds [OF assms(2) fresh_rx_inv assms(4)] assms(1,3) in blast)

lemmas demo_receive_simps = cb_receive_def check_window_def check_window_start_def check_window_end_def seg_bounds_def
  after_receive_window_def seq_lt_iff seq_ge_iff seq_le_iff receive_ack_def receive_payload_def receive_out_of_order_def
  store_out_of_order_segment_def ooo_insert.simps MAX_OUT_OF_ORDER_def send_ack_def receive_text_def receive_data_def
  receiver_push_def wake_def schedule_ack_def sh_set_def sh_increment_def

definition demo_hdr :: "seq \<Rightarrow> tcp_header" where
  "demo_hdr s = (tcp_new 5000 80)\<lparr>seq_num := s, ack := True, ack_num := 5000, window_size := 8192\<rparr>"

lemma demo_received:
  "\<exists>cb1 cb2. cb_receive (demo_hdr 1002) [3, 4] demo_cb = Some cb1 \<and> cb_receive (demo_hdr 1000) [1, 2] cb1 = Some cb2
    \<and> recv_queue (cb_receiver cb2) = [[1, 2], [3, 4]] \<and> out_of_order cb2 = [] \<and> cb_sender cb2 = cb_sender demo_cb"
  by (simp add: demo_hdr_def demo_simps demo_receive_simps Let_def)

lemma demo_stream: "list_all (from_stream 1000 [1, 2, 3, 4]) [Receive (demo_hdr 1002) [3, 4], Receive (demo_hdr 1000) [1, 2]]"
proof -
  have "stream_at 1000 [1, 2, 3, 4] 1002 [3, 4]" "stream_at 1000 [1, 2, 3, 4] 1000 [1, 2]"
    unfolding stream_at_def by (rule disjI2, rule exI [of _ 2], simp) (rule disjI2, rule exI [of _ 0], simp)
  then show ?thesis
    by (simp add: seg_of_stream_def demo_hdr_def tcp_new_def)
qed

theorem receive_in_order_witness:
  "\<exists>cb. cb_run demo_cb [Receive (demo_hdr 1002) [3, 4], Receive (demo_hdr 1000) [1, 2]] cb
    \<and> recv_queue (cb_receiver cb) = [[1, 2], [3, 4]]
    \<and> (\<exists>n. n \<le> length [1, 2, 3, 4 :: u8]
      \<and> reads [Receive (demo_hdr 1002) [3, 4], Receive (demo_hdr 1000) [1, 2]] @ concat (recv_queue (cb_receiver cb))
         = take n [1, 2, 3, 4])"
proof -
  let ?es = "[Receive (demo_hdr 1002) [3, 4], Receive (demo_hdr 1000) [1, 2]]"
  obtain cb1 cb2 where c: "cb_receive (demo_hdr 1002) [3, 4] demo_cb = Some cb1"
    "cb_receive (demo_hdr 1000) [1, 2] cb1 = Some cb2" "recv_queue (cb_receiver cb2) = [[1, 2], [3, 4]]"
    using demo_received by blast
  have "cb_run demo_cb (([] @ [Receive (demo_hdr 1002) [3, 4]]) @ [Receive (demo_hdr 1000) [1, 2]]) cb2"
    using c by (blast intro: run_snoc run_nil step_receive)
  then have run: "cb_run demo_cb ?es cb2"
    by simp
  have "\<exists>n. n \<le> length [1, 2, 3, 4 :: u8]
      \<and> reads ?es @ concat (recv_queue (cb_receiver cb2)) = take n [1, 2, 3, 4]
      \<and> (receive_next (cb_receiver cb2) = 1000 + of_nat n
       \<or> n = length [1, 2, 3, 4 :: u8] \<and> receive_next (cb_receiver cb2) = 1000 + of_nat n + 1)"
    by (intro receive_in_order [OF _ run _ demo_stream]) (simp_all add: demo_cb_def fresh_rx_new)
  with run c(3) show ?thesis
    by blast
qed

end
