(* ===== verification/Receive_Panics.thy ===== *)
theory Receive_Panics
  imports Receive_Stream
begin

text \<open>
  Segments that make the receive routine panic, which ends the process (\<^verbatim>\<open>panic = "abort"\<close>). All three
  are within reach of a remote peer.
\<close>

section \<open>Window checks of in-order segments\<close>

lemma seg_bounds_ends:
  assumes "n = length d + (if syn h then 1 else 0) + (if fin h then 1 else 0)" "0 < n" "n < 2 ^ 32"
  shows "seg_bounds h d = (seq_num h + (of_nat n - 1), of_nat n)"
proof -
  have "(of_nat n :: u32) > 0"
    using assms(2,3) by (simp add: word_less_nat_alt unat_of_nat_u32)
  then show ?thesis
    using assms(1) by (auto simp: seg_bounds_def Let_def seq_add_def add.commute add.left_commute split: if_splits)
qed

lemma unat_of_nat_pred: "0 < n \<Longrightarrow> n < 2 ^ 32 \<Longrightarrow> unat (of_nat n - 1 :: u32) = n - 1"
  using unat_of_nat_u32 [of "n - 1"] by (simp add: of_nat_diff)

lemma unat_neg_u32: "(w :: u32) \<noteq> 0 \<Longrightarrow> unat (- w) = 2 ^ 32 - unat w"
  using unat_sub_if' [of 0 w] by (simp add: unat_eq_zero)

section \<open>SYN in a closed window\<close>

text \<open>The sequence space of a segment: its data, SYN and FIN.\<close>

definition seg_space :: "tcp_header \<Rightarrow> bytes \<Rightarrow> nat" where
  "seg_space h d = length d + (if syn h then 1 else 0) + (if fin h then 1 else 0)"

lemma seg_bounds_space:
  assumes "seg_space h d < 2 ^ 32"
  shows "seg_bounds h d = (if seg_space h d = 0 then seq_num h else seq_num h + (of_nat (seg_space h d) - 1), of_nat (seg_space h d))"
proof (cases "seg_space h d = 0")
  case True
  then have "d = []" "\<not> syn h" "\<not> fin h"
    by (auto simp: seg_space_def split: if_splits)
  then show ?thesis
    by (simp add: seg_bounds_def seg_space_def)
next
  case False
  then show ?thesis
    using seg_bounds_ends [of "seg_space h d" d h] assms by (simp add: seg_space_def)
qed

text \<open>A segment that starts at RCV.NXT: everything is in excess of the window, and one byte more than the data when
  there is a SYN.\<close>

lemma zero_window_in_order:
  assumes "after_receive_window cb = seq_num h" "seg_space h d < 2 ^ 31"
  shows "check_window_end cb h d (seq_num h) (fst (seg_bounds h d)) (snd (seg_bounds h d)) = None \<longleftrightarrow> syn h"
proof (cases "seg_space h d = 0")
  case True
  then show ?thesis
    using seg_bounds_space [of h d] by (auto simp: check_window_end_def seg_space_def split: if_splits)
next
  case False
  let ?n = "seg_space h d"
  have u: "unat (of_nat ?n :: u32) = ?n" "unat (of_nat ?n - 1 :: u32) = ?n - 1"
    using False assms(2) unat_of_nat_pred [of ?n] by (simp_all add: unat_of_nat_u32)
  then have pos: "(of_nat ?n :: u32) > 0" and ge: "seq_ge (seq_num h + (of_nat ?n - 1)) (seq_num h)"
    using False assms(2) by (simp_all add: word_less_nat_alt seq_ge_iff seq_lt_iff)
  have "seg_bounds h d = (seq_num h + (of_nat ?n - 1), of_nat ?n)"
    using seg_bounds_space [of h d] False assms(2) by simp
  then have "check_window_end cb h d (seq_num h) (fst (seg_bounds h d)) (snd (seg_bounds h d)) = None
      \<longleftrightarrow> length d < (if fin h then ?n - 1 else ?n)"
    using pos ge u assms(1) by (simp add: check_window_end_def Let_def seq_sub_def buf_trim_def)
  then show ?thesis
    by (auto simp: seg_space_def)
qed

text \<open>A segment that starts below RCV.NXT and reaches it: what is left after the duplicate part, with its SYN, is cut
  is trimmed to nothing.\<close>

lemma zero_window_overlap:
  assumes w: "after_receive_window cb = rx" and n: "seg_space h d < 2 ^ 31"
    and lt: "seq_lt (seq_num h) rx" and ge: "\<not> seq_lt (fst (seg_bounds h d)) rx"
    and k: "k = unat (rx - seq_num h)" and h': "h' = (if syn h then h\<lparr>syn := False\<rparr> else h)"
  shows "k - (if syn h then 1 else 0) \<le> length d"
    "0 < k" "check_window_end cb h' (drop (k - (if syn h then 1 else 0)) d) rx (fst (seg_bounds h d))
      (snd (seg_bounds h d) - (rx - seq_num h)) \<noteq> None"
proof -
  let ?n = "seg_space h d"
  have k0: "0 < k" "k \<le> 2 ^ 31"
  proof -
    have ne: "rx - seq_num h \<noteq> 0"
      using lt by (auto simp: seq_lt_iff)
    then have "unat (seq_num h - rx) = 2 ^ 32 - k"
      using unat_neg_u32 [OF ne] k by simp
    then show "0 < k" "k \<le> 2 ^ 31"
      using lt ne k by (simp_all add: seq_lt_iff unat_gt_0)
  qed
  have n0: "?n \<noteq> 0"
  proof
    assume "?n = 0"
    then have "fst (seg_bounds h d) = seq_num h"
      using seg_bounds_space [of h d] by simp
    then show False
      using lt ge by simp
  qed
  have b: "seg_bounds h d = (seq_num h + (of_nat ?n - 1), of_nat ?n)"
    using seg_bounds_space [of h d] n0 n by simp
  have rk: "rx - seq_num h = of_nat k"
    using k by simp
  have "k \<le> ?n - 1"
  proof (rule ccontr)
    assume "\<not> k \<le> ?n - 1"
    then have m: "0 < k - (?n - 1)" "k - (?n - 1) \<le> 2 ^ 31" "?n - 1 \<le> k"
      using k0 by auto
    have "seq_num h + (of_nat ?n - 1) - rx = of_nat (?n - 1) - of_nat k"
      using n0 rk by (simp add: of_nat_diff algebra_simps)
    also have "\<dots> = - of_nat (k - (?n - 1))"
      using m(3) by (simp add: of_nat_diff)
    finally have e: "seq_num h + (of_nat ?n - 1) - rx = - (of_nat (k - (?n - 1)) :: u32)" .
    have "unat (of_nat (k - (?n - 1)) :: u32) = k - (?n - 1)"
      using m(2) by (simp add: unat_of_nat_u32)
    moreover from this have "(of_nat (k - (?n - 1)) :: u32) \<noteq> 0"
      using m(1) by auto
    ultimately have "unat (seq_num h + (of_nat ?n - 1) - rx) = 2 ^ 32 - (k - (?n - 1))"
      using unat_neg_u32 e by simp
    then show False
      using ge b m(1,2) by (simp add: seq_lt_iff)
  qed
  then have kn: "k < ?n"
    using n0 by simp
  then show "k - (if syn h then 1 else 0) \<le> length d" "0 < k"
    using k0(1) by (auto simp: seg_space_def split: if_splits)
  have rest: "(of_nat ?n :: u32) - of_nat k = of_nat (?n - k)"
    using kn by (simp add: of_nat_diff)
  have ex: "seq_num h + (of_nat ?n - 1) - rx + 1 = (of_nat (?n - k) :: u32)"
    using kn rk by (simp add: of_nat_diff algebra_simps)
  have ux: "unat (of_nat (?n - k) :: u32) = ?n - k" "unat (of_nat (?n - k) - 1 :: u32) = ?n - k - 1"
    using n kn unat_of_nat_u32 [of "?n - k"] unat_of_nat_pred [of "?n - k"] by (simp_all del: of_nat_diff)
  have h: "fin h' = fin h"
    by (simp add: h')
  have fits: "(if fin h then ?n - k - 1 else ?n - k) \<le> length d - (k - (if syn h then 1 else 0))"
    using kn k0(1) by (auto simp: seg_space_def split: if_splits)
  show "check_window_end cb h' (drop (k - (if syn h then 1 else 0)) d) rx (fst (seg_bounds h d))
      (snd (seg_bounds h d) - (rx - seq_num h)) \<noteq> None"
    unfolding check_window_end_def Let_def w b fst_conv snd_conv seq_sub_def ex h
    using fits ux by (cases "fin h") (simp_all del: of_nat_diff add: buf_trim_def)
qed

text \<open>C15: while the receive window is zero, checking a segment against the window panics exactly when the segment carries
  a SYN and starts at RCV.NXT, with or without data and FIN: the trimming then cuts one byte more than the segment's
  data has (which is less than \<open>2 ^ 31 - 2\<close> bytes). Such a segment makes the receive routine panic. A SYN that starts below RCV.NXT or beyond it does not.\<close>

theorem syn_in_zero_window_panics:
  assumes "get_receive_window_size cb = 0" "length d < 2 ^ 31 - 2"
  shows "(check_window h d cb = None \<longleftrightarrow> syn h \<and> seq_num h = receive_next (cb_receiver cb))
    \<and> (syn h \<longrightarrow> seq_num h = receive_next (cb_receiver cb) \<longrightarrow> cb_receive h d cb = None)"
proof -
  let ?rx = "receive_next (cb_receiver cb)"
  have w: "after_receive_window cb = ?rx"
    using assms(1) by (simp add: after_receive_window_def seq_add_def)
  have n: "seg_space h d < 2 ^ 31"
    using assms(2) by (simp add: seg_space_def)
  obtain cb' where ack: "drop_with_ack h cb = Some (WDrop cb')"
  proof (cases "rst h")
    case False
    obtain cb1 where "send_ack cb = Some cb1"
      using assms(1) by (cases "arp_cache cb (fst (cb_remote cb))") (auto simp: send_ack_def cb_tcp_header_def hdr_window_size_def)
    then show thesis
      using that False by (simp add: drop_with_ack_def)
  qed (use that in \<open>simp add: drop_with_ack_def\<close>)
  have "check_window h d cb = None \<longleftrightarrow> syn h \<and> seq_num h = ?rx"
  proof (cases "seq_num h = ?rx")
    case True
    then have "check_window h d cb = check_window_end cb h d (seq_num h) (fst (seg_bounds h d)) (snd (seg_bounds h d))"
      by (simp add: check_window_def check_window_start_def split_beta Let_def)
    then show ?thesis
      using zero_window_in_order [of cb h d] True w n by simp
  next
    case False
    show ?thesis
    proof (cases "seq_lt (seq_num h) ?rx \<and> \<not> seq_lt (fst (seg_bounds h d)) ?rx")
      case True
      note o = zero_window_overlap [OF w n conjunct1 [OF True] conjunct2 [OF True] refl refl]
      have "unat (?rx - seq_num h - 1) = unat (?rx - seq_num h) - 1"
        using o(2) unat_of_nat_pred [of "unat (?rx - seq_num h)"] unsigned_less [of "?rx - seq_num h"] by simp
      then show ?thesis
        using False True o
        by (auto simp: check_window_def check_window_start_def split_beta Let_def seq_sub_def seq_add_def buf_adjust_def
            split: if_splits)
    next
      case drop: False
      then have "check_window_start h d cb = drop_with_ack h cb"
        using False w by (auto simp: check_window_start_def split_beta Let_def seq_ge_iff)
      then show ?thesis
        using False ack by (simp add: check_window_def)
    qed
  qed
  then show ?thesis
    by (auto simp: cb_receive_def)
qed

theorem syn_in_zero_window_panics_witness:
  "cb_receive ((demo_hdr 1000)\<lparr>syn := True\<rparr>) [1, 2] (demo_cb\<lparr>receive_buffer_size := 0\<rparr>) = None
    \<and> check_window ((demo_hdr 999)\<lparr>syn := True\<rparr>) [1, 2] (demo_cb\<lparr>receive_buffer_size := 0\<rparr>) \<noteq> None"
proof -
  have w: "get_receive_window_size (demo_cb\<lparr>receive_buffer_size := 0\<rparr>) = 0"
    "receive_next (cb_receiver (demo_cb\<lparr>receive_buffer_size := 0\<rparr>)) = 1000"
    by (simp_all add: get_receive_window_size_def demo_cb_def cb_new_def receiver_new_def seq_sub_def)
  show ?thesis
    using syn_in_zero_window_panics [OF w(1), of "[1, 2]" "(demo_hdr 1000)\<lparr>syn := True\<rparr>"]
      syn_in_zero_window_panics [OF w(1), of "[1, 2]" "(demo_hdr 999)\<lparr>syn := True\<rparr>"] w(2)
    by (simp add: demo_hdr_def)
qed

section \<open>FIN on a connection that was reset\<close>

lemma seq_before_window_end: "w \<noteq> 0 \<Longrightarrow> unat (w :: u32) < 2 ^ 31 \<Longrightarrow> \<not> seq_ge s (s + w)"
  using unat_neg_u32 [of w] by (simp add: seq_ge_iff seq_lt_iff)

lemma check_window_fin_in_order:
  assumes "seq_num h = receive_next (cb_receiver cb)" "\<not> syn h" "fin h"
    and "get_receive_window_size cb \<noteq> 0" "unat (get_receive_window_size cb) < 2 ^ 31"
  shows "check_window h [] cb = Some (WAccept h [] (seq_num h) (seq_num h) 1)"
  using assms seq_before_window_end [OF assms(4,5), of "seq_num h"]
  by (simp add: check_window_def check_window_start_def check_window_end_def seg_bounds_def
      after_receive_window_def seq_add_def Let_def)

lemma check_window_empty_in_order:
  assumes "seq_num h = receive_next (cb_receiver cb)" "\<not> syn h" "\<not> fin h"
  shows "check_window h [] cb = Some (WAccept h [] (seq_num h) (seq_num h) 0)"
  using assms
  by (simp add: check_window_def check_window_start_def check_window_end_def seg_bounds_def Let_def)

text \<open>after an in-order RST the connection is in state Closed but still receives segments, and an in-order
  FIN with an ACK that acknowledges nothing new then runs into the panic on a "bad TCP state".\<close>

theorem fin_after_reset_panics:
  assumes "seq_num hr = receive_next (cb_receiver cb)" "rst hr" "\<not> syn hr" "\<not> fin hr"
    and "seq_num hf = receive_next (cb_receiver cb)" "fin hf" "ack hf" "\<not> rst hf" "\<not> syn hf"
    and "ack_num hf = send_unacked (cb_sender cb)"
    and "get_receive_window_size cb \<noteq> 0" "unat (get_receive_window_size cb) < 2 ^ 31"
  shows "\<exists>cb'. cb_receive hr [] cb = Some cb' \<and> cb_state cb' = Closed \<and> cb_receive hf [] cb' = None"
proof -
  let ?cb = "receive_rst cb"
  have "cb_receive hr [] cb = Some ?cb"
    using assms by (simp add: cb_receive_def check_window_empty_in_order)
  moreover have "cb_receive hf [] ?cb = None"
  proof -
    have rx: "receive_next (cb_receiver ?cb) = receive_next (cb_receiver cb)"
      "reader_next (cb_receiver ?cb) = reader_next (cb_receiver cb)"
      using receive_rst_frame(2) [of cb] by (simp_all add: rx_core_def)
    have "receive_buffer_size ?cb = receive_buffer_size cb"
      by (simp add: receive_rst_def Let_def split: tcp_state.split)
    then have "check_window hf [] ?cb = Some (WAccept hf [] (seq_num hf) (seq_num hf) 1)"
      using assms rx by (intro check_window_fin_in_order) (simp_all add: get_receive_window_size_def)
    moreover have "receive_ack hf t ?cb = Some (True, ?cb)" for t
      using assms(10) by (simp add: receive_ack_def)
    moreover have "receive_payload hf [] (seq_num hf) (seq_num hf) 1 t (receive_next (cb_receiver ?cb)) ?cb = None" for t
      using assms(5,6) rx by (simp add: receive_payload_def receive_text_def receive_fin_def Let_def)
    ultimately show ?thesis
      using assms(7-9) by (simp add: cb_receive_def)
  qed
  ultimately show ?thesis
    by simp
qed

theorem fin_after_reset_panics_witness:
  "\<exists>cb'. cb_receive ((demo_hdr 1000)\<lparr>rst := True\<rparr>) [] demo_cb = Some cb' \<and> cb_state cb' = Closed
    \<and> cb_receive ((demo_hdr 1000)\<lparr>fin := True\<rparr>) [] cb' = None"
  by (rule fin_after_reset_panics)
    (simp_all add: get_receive_window_size_def demo_cb_def cb_new_def receiver_new_def sender_new_def demo_hdr_def
      tcp_new_def seq_sub_def)

section \<open>FIN below stored data\<close>

definition small_cb :: ctrl_block where
  "small_cb = demo_cb\<lparr>receive_buffer_size := 4\<rparr>"

lemma small_cb_stored:
  "\<exists>tx. cb_receive (demo_hdr 1001) [2, 3, 4] small_cb
    = Some (small_cb\<lparr>out_of_order := [(1001, [2, 3, 4])], transmitted := tx\<rparr>)"
  by (simp add: small_cb_def demo_hdr_def demo_simps demo_receive_simps Let_def)

lemma small_cb_fin:
  "cb_receive ((demo_hdr 1000)\<lparr>fin := True\<rparr>) [1]
     (small_cb\<lparr>out_of_order := [(1001, [2, 3, 4])], transmitted := tx\<rparr>) = None"
proof -
  let ?cb = "small_cb\<lparr>out_of_order := [(1001, [2, 3, 4])], transmitted := tx\<rparr>"
  let ?h = "(demo_hdr 1000)\<lparr>fin := True\<rparr>"
  note d = small_cb_def demo_hdr_def demo_cb_def cb_new_def sender_new_def receiver_new_def tcp_new_def
  have w: "check_window ?h [1] ?cb = Some (WAccept ?h [1] 1000 1001 2)"
    by (simp add: d check_window_def check_window_start_def check_window_end_def seg_bounds_def
      after_receive_window_def get_receive_window_size_def seq_add_def seq_sub_def seq_ge_iff seq_lt_iff)
  have a: "receive_ack ?h t ?cb = Some (True, ?cb)" for t
    by (simp add: d receive_ack_def seq_lt_iff)
  obtain cb2 where t: "receive_text ?h [1] ?cb = (True, True, cb2)"
    and r: "receive_next (cb_receiver cb2) = 1004" "reader_next (cb_receiver cb2) = 1000"
      "receive_buffer_size cb2 = 4" "window_scale cb2 = 0" "cb_state cb2 = Established"
    by (simp add: d receive_text_def receive_data_def receiver_push_def wake_def seq_add_def)
  have "receive_fin cb2 = None"
    using r by (simp add: receive_fin_def Let_def send_ack_def cb_tcp_header_def hdr_window_size_def
        get_receive_window_size_def seq_sub_def seq_add_def disable_stats_def)
  then have p: "receive_payload ?h [1] 1000 1001 2 t 1000 ?cb = None" for t
    using t by (simp add: receive_payload_def)
  have "\<not> rst ?h" "\<not> syn ?h" "ack ?h" "receive_next (cb_receiver ?cb) = 1000"
    by (simp_all add: d)
  then show ?thesis
    by (simp only: cb_receive_def Let_def w a p option.case window_check.case prod.case bool.case if_False if_True not_True_eq_False)
qed

text \<open>with four bytes of receive buffer, a peer that first fills bytes two to four out of order and then
  sends byte one with a FIN makes RCV.NXT pass the end of the window: the window size wraps around and
  computing the header of the acknowledgement panics ("Window size overflow").\<close>

theorem fin_below_stored_data_panics:
  "\<exists>cb. cb_receive (demo_hdr 1001) [2, 3, 4] small_cb = Some cb \<and>
    cb_receive ((demo_hdr 1000)\<lparr>fin := True\<rparr>) [1] cb = None"
  using small_cb_stored small_cb_fin by blast

end
