(* ===== verification/Tcp_Config.thy ===== *)
theory Tcp_Config
  imports Prelude SeqNumber "HOL-Library.Multiset"
begin

text \<open>
  What a TCP endpoint is set up from: the configuration descriptor
  (\<^verbatim>\<open>runtime/network/config/tcp.rs\<close>), the pool of ephemeral ports (\<^verbatim>\<open>protocols/ip/ephemeral.rs\<close>) and the
  generator of initial sequence numbers (\<^verbatim>\<open>protocols/tcp/isn_generator.rs\<close>). The CRC of the
  third-party package \<^verbatim>\<open>crc\<close> and the shuffle of \<^verbatim>\<open>rand\<close> are parameters.
\<close>

section \<open>The configuration descriptor\<close>

definition FALLBACK_MSS :: nat where "FALLBACK_MSS = 536"
definition MIN_MSS :: nat where "MIN_MSS = FALLBACK_MSS"
definition MAX_MSS :: nat where "MAX_MSS = 65535"
definition DEFAULT_MSS :: nat where "DEFAULT_MSS = 1450"

record tcp_config =
  advertised_mss :: nat
  handshake_retries :: nat
  handshake_timeout :: duration
  cfg_receive_window_size :: u16
  cfg_window_scale :: u8
  cfg_ack_delay_timeout :: duration
  rx_checksum_offload :: bool
  cfg_tx_checksum_offload :: bool

definition tcp_config_default :: tcp_config where
  "tcp_config_default =
     \<lparr>advertised_mss = DEFAULT_MSS, handshake_retries = 5, handshake_timeout = 3,
      cfg_receive_window_size = 0xffff, cfg_window_scale = 0, cfg_ack_delay_timeout = 5 / 1000,
      rx_checksum_offload = False, cfg_tx_checksum_offload = False\<rparr>"

text \<open>The setters; \<open>None\<close> is a failed assertion.\<close>

definition set_advertised_mss :: "nat \<Rightarrow> tcp_config \<Rightarrow> tcp_config option" where
  "set_advertised_mss value c =
     (if value \<ge> MIN_MSS \<and> value \<le> MAX_MSS then Some (c\<lparr>advertised_mss := value\<rparr>) else None)"

definition set_handshake_retries :: "nat \<Rightarrow> tcp_config \<Rightarrow> tcp_config option" where
  "set_handshake_retries value c = (if value > 0 then Some (c\<lparr>handshake_retries := value\<rparr>) else None)"

definition set_handshake_timeout :: "duration \<Rightarrow> tcp_config \<Rightarrow> tcp_config option" where
  "set_handshake_timeout value c = (if value > 0 then Some (c\<lparr>handshake_timeout := value\<rparr>) else None)"

definition set_receive_window_size :: "u16 \<Rightarrow> tcp_config \<Rightarrow> tcp_config option" where
  "set_receive_window_size value c = (if value > 0 then Some (c\<lparr>cfg_receive_window_size := value\<rparr>) else None)"

definition set_window_scale :: "u8 \<Rightarrow> tcp_config \<Rightarrow> tcp_config option" where
  "set_window_scale value c = Some (c\<lparr>cfg_window_scale := value\<rparr>)"

definition set_ack_delay_timeout :: "duration \<Rightarrow> tcp_config \<Rightarrow> tcp_config option" where
  "set_ack_delay_timeout value c =
     (if value \<le> 500 / 1000 then Some (c\<lparr>cfg_ack_delay_timeout := value\<rparr>) else None)"

text \<open>An optional argument overrides the field it is for.\<close>

definition override :: "('v \<Rightarrow> tcp_config \<Rightarrow> tcp_config option) \<Rightarrow> 'v option \<Rightarrow> tcp_config \<Rightarrow> tcp_config option" where
  "override setter v c = (case v of Some value \<Rightarrow> setter value c | None \<Rightarrow> Some c)"

definition tcp_config_new ::
  "nat option \<Rightarrow> nat option \<Rightarrow> duration option \<Rightarrow> u16 option \<Rightarrow> u8 option \<Rightarrow> duration option \<Rightarrow> bool option \<Rightarrow>
   bool option \<Rightarrow> tcp_config option" where
  "tcp_config_new mss retries timeout window scale ack_delay rx_offload tx_offload =
     Option.bind (override set_advertised_mss mss tcp_config_default) (\<lambda>c.
     Option.bind (override set_handshake_retries retries c) (\<lambda>c.
     Option.bind (override set_handshake_timeout timeout c) (\<lambda>c.
     Option.bind (override set_receive_window_size window c) (\<lambda>c.
     Option.bind (override set_window_scale scale c) (\<lambda>c.
     Option.bind (override set_ack_delay_timeout ack_delay c) (\<lambda>c.
     let c = (case rx_offload of Some v \<Rightarrow> c\<lparr>rx_checksum_offload := v\<rparr> | None \<Rightarrow> c)
     in Some (case tx_offload of Some v \<Rightarrow> c\<lparr>cfg_tx_checksum_offload := v\<rparr> | None \<Rightarrow> c)))))))"

section \<open>Initial sequence numbers\<close>

record isn_generator =
  nonce :: u32
  counter :: u16

definition isn_generator_new :: "u32 \<Rightarrow> isn_generator" where
  "isn_generator_new n = \<lparr>nonce = n, counter = 0\<rparr>"

definition isn_generate ::
  "(bytes \<Rightarrow> u32) \<Rightarrow> sockaddr \<Rightarrow> sockaddr \<Rightarrow> isn_generator \<Rightarrow> seq \<times> isn_generator" where
  "isn_generate crc local remote g =
     (let digest = crc (be32 (fst remote) @ be16 (snd remote) @ be32 (fst local) @ be16 (snd local) @ be32 (nonce g))
      in (digest + ucast (counter g), g\<lparr>counter := counter g + 1\<rparr>))"

section \<open>Ephemeral ports\<close>

definition FIRST_PRIVATE_PORT :: u16 where "FIRST_PRIVATE_PORT = 49152"
definition LAST_PRIVATE_PORT :: u16 where "LAST_PRIVATE_PORT = 65535"

type_synonym ephemeral_ports = "u16 list"

definition ephemeral_new :: "(u16 list \<Rightarrow> u16 list) \<Rightarrow> u16 option \<Rightarrow> ephemeral_ports" where
  "ephemeral_new shuffle core_id =
     (let ports = shuffle (map of_nat [unat FIRST_PRIVATE_PORT..<unat LAST_PRIVATE_PORT])
      in case core_id of Some core \<Rightarrow> ports @ [9999 + core] | None \<Rightarrow> ports)"

definition is_private :: "u16 \<Rightarrow> bool" where
  "is_private port \<longleftrightarrow> port \<ge> FIRST_PRIVATE_PORT"

definition alloc_any :: "ephemeral_ports \<Rightarrow> u16 outcome \<times> ephemeral_ports" where
  "alloc_any ports =
     (if ports = [] then (Err (fail_new EADDRINUSE ''all port numbers in the ephemeral port range are currently in use''), ports)
      else (Ok (last ports), butlast ports))"

definition alloc_port :: "u16 \<Rightarrow> ephemeral_ports \<Rightarrow> unit outcome \<times> ephemeral_ports" where
  "alloc_port port ports =
     (if port \<notin> set ports then (Err (fail_new ENOENT ''port number not found''), ports)
      else (Ok (), filter (\<lambda>p. p \<noteq> port) ports))"

definition free_port :: "u16 \<Rightarrow> ephemeral_ports \<Rightarrow> ephemeral_ports" where
  "free_port port ports = ports @ [port]"

section \<open>Every configuration is sane\<close>

text \<open>What the code that reads a configuration relies on.\<close>

definition config_ok :: "tcp_config \<Rightarrow> bool" where
  "config_ok c \<longleftrightarrow> MIN_MSS \<le> advertised_mss c \<and> advertised_mss c \<le> MAX_MSS \<and> 0 < handshake_retries c
     \<and> 0 < handshake_timeout c \<and> 0 < cfg_receive_window_size c \<and> cfg_ack_delay_timeout c \<le> 1 / 2"

lemma config_ok_default: "config_ok tcp_config_default"
  by (simp add: config_ok_def tcp_config_default_def DEFAULT_MSS_def MIN_MSS_def MAX_MSS_def FALLBACK_MSS_def)

text \<open>A setter that checks its argument keeps a sane configuration sane.\<close>

locale config_setter =
  fixes setter :: "'v \<Rightarrow> tcp_config \<Rightarrow> tcp_config option"
    and admits :: "'v \<Rightarrow> bool"
  assumes set_ok: "config_ok c \<Longrightarrow> setter v c = Some c' \<Longrightarrow> config_ok c'"
    and set_defined: "(\<exists>c'. setter v c = Some c') \<longleftrightarrow> admits v"
begin

lemma override_ok: "config_ok c \<Longrightarrow> override setter v c = Some c' \<Longrightarrow> config_ok c'"
  by (cases v) (auto simp: override_def dest: set_ok)

lemma override_defined: "(\<exists>c'. override setter v c = Some c') \<longleftrightarrow> pred_option admits v"
  by (cases v) (simp_all add: override_def set_defined)

end

interpretation mss_setter: config_setter set_advertised_mss "\<lambda>v. MIN_MSS \<le> v \<and> v \<le> MAX_MSS"
  by unfold_locales (auto simp: set_advertised_mss_def config_ok_def split: if_splits)

interpretation retries_setter: config_setter set_handshake_retries "\<lambda>v. 0 < v"
  by unfold_locales (auto simp: set_handshake_retries_def config_ok_def split: if_splits)

interpretation timeout_setter: config_setter set_handshake_timeout "\<lambda>v. 0 < v"
  by unfold_locales (auto simp: set_handshake_timeout_def config_ok_def split: if_splits)

interpretation window_setter: config_setter set_receive_window_size "\<lambda>v. 0 < v"
  by unfold_locales (auto simp: set_receive_window_size_def config_ok_def split: if_splits)

interpretation scale_setter: config_setter set_window_scale "\<lambda>_. True"
  by unfold_locales (auto simp: set_window_scale_def config_ok_def)

interpretation ack_delay_setter: config_setter set_ack_delay_timeout "\<lambda>v. v \<le> 1 / 2"
  by unfold_locales (auto simp: set_ack_delay_timeout_def config_ok_def split: if_splits)

lemmas override_oks = mss_setter.override_ok retries_setter.override_ok timeout_setter.override_ok
  window_setter.override_ok scale_setter.override_ok ack_delay_setter.override_ok

lemma config_ok_offloads [simp]:
  "config_ok (c\<lparr>rx_checksum_offload := v\<rparr>) = config_ok c" "config_ok (c\<lparr>cfg_tx_checksum_offload := v\<rparr>) = config_ok c"
  by (simp_all add: config_ok_def)

lemma bind_defined:
  assumes "(\<exists>x. m = Some x) \<longleftrightarrow> A" "\<And>x. (\<exists>y. f x = Some y) \<longleftrightarrow> B"
  shows "(\<exists>y. Option.bind m f = Some y) \<longleftrightarrow> A \<and> B"
  using assms by (cases m) auto

lemma bind_keeps:
  assumes "P c" "Option.bind (override setter v c) f = Some c'" "\<And>c1. override setter v c = Some c1 \<Longrightarrow> P c \<Longrightarrow> P c1"
    and "\<And>c1. P c1 \<Longrightarrow> f c1 = Some c' \<Longrightarrow> P c'"
  shows "P c'"
  using assms by (cases "override setter v c") auto

lemma tcp_config_new_sane:
  assumes "tcp_config_new mss retries timeout window scale ack_delay rx tx = Some c"
  shows "config_ok c"
  using assms [unfolded tcp_config_new_def]
proof (elim bind_keeps [where P = config_ok, OF config_ok_default] bind_keeps [where P = config_ok, rotated])
qed (auto simp: Let_def dest: override_oks split: option.splits)

text \<open>C19: a configuration descriptor that is created is sane (segment size between 536 and 65535, retries, timeout
  and window positive, acknowledgement delay at most half a second), and creation panics exactly when one of the
  arguments given is out of its range.\<close>

theorem tcp_config_new_ok:
  "(tcp_config_new mss retries timeout window scale ack_delay rx tx = Some c \<longrightarrow> config_ok c)
   \<and> (tcp_config_new mss retries timeout window scale ack_delay rx tx = None \<longleftrightarrow>
        \<not> (pred_option (\<lambda>v. MIN_MSS \<le> v \<and> v \<le> MAX_MSS) mss \<and> pred_option (\<lambda>v. 0 < v) retries
           \<and> pred_option (\<lambda>v. 0 < v) timeout \<and> pred_option (\<lambda>v. 0 < v) window \<and> pred_option (\<lambda>v. v \<le> 1 / 2) ack_delay))"
proof -
  have "(\<exists>c. tcp_config_new mss retries timeout window scale ack_delay rx tx = Some c) \<longleftrightarrow>
      pred_option (\<lambda>v. MIN_MSS \<le> v \<and> v \<le> MAX_MSS) mss \<and> pred_option (\<lambda>v. 0 < v) retries
      \<and> pred_option (\<lambda>v. 0 < v) timeout \<and> pred_option (\<lambda>v. 0 < v) window \<and> pred_option (\<lambda>_. True) scale
      \<and> pred_option (\<lambda>v. v \<le> 1 / 2) ack_delay \<and> True"
    unfolding tcp_config_new_def
    by (intro bind_defined mss_setter.override_defined retries_setter.override_defined timeout_setter.override_defined
        window_setter.override_defined scale_setter.override_defined ack_delay_setter.override_defined) (simp add: Let_def)
  then show ?thesis
    using tcp_config_new_sane [of mss retries timeout window scale ack_delay rx tx c]
    by (cases "tcp_config_new mss retries timeout window scale ack_delay rx tx") (auto simp: option.pred_True)
qed

theorem tcp_config_new_ok_witness:
  "config_ok (the (tcp_config_new (Some 1000) (Some 3) None (Some 4096) (Some 2) None None (Some True)))
   \<and> tcp_config_new (Some 100) None None None None None None None = None"
  using tcp_config_new_ok [of "Some 1000" "Some 3" None "Some 4096" "Some 2" None None "Some True"
      "the (tcp_config_new (Some 1000) (Some 3) None (Some 4096) (Some 2) None None (Some True))"]
    tcp_config_new_ok [of "Some 100" None None None None None None None]
  by (auto simp: MIN_MSS_def MAX_MSS_def FALLBACK_MSS_def)

section \<open>Ports are handed out once\<close>

text \<open>A use of the pool: what was asked and, on success, the port handed out. Only a port that is held is freed.\<close>

datatype port_use = AllocAny u16 | AllocPort u16 | Freed u16

text \<open>The ports handed out and not yet returned.\<close>

inductive pool_run :: "ephemeral_ports \<Rightarrow> port_use list \<Rightarrow> u16 set \<Rightarrow> ephemeral_ports \<Rightarrow> bool" for pool0 where
  pool_start: "pool_run pool0 [] {} pool0"
| pool_any: "pool_run pool0 us held pool \<Longrightarrow> alloc_any pool = (Ok p, pool') \<Longrightarrow>
    pool_run pool0 (us @ [AllocAny p]) (insert p held) pool'"
| pool_port: "pool_run pool0 us held pool \<Longrightarrow> alloc_port p pool = (Ok (), pool') \<Longrightarrow>
    pool_run pool0 (us @ [AllocPort p]) (insert p held) pool'"
| pool_free: "pool_run pool0 us held pool \<Longrightarrow> p \<in> held \<Longrightarrow>
    pool_run pool0 (us @ [Freed p]) (held - {p}) (free_port p pool)"

lemma pool_run_inv:
  assumes "pool_run pool0 us held pool" "distinct pool0"
  shows "distinct pool \<and> set pool \<inter> held = {} \<and> set pool \<union> held = set pool0"
  using assms
proof (induction rule: pool_run.induct)
  case (pool_any us held pool p pool')
  then have "pool = pool' @ [p]"
    by (auto simp: alloc_any_def split: if_splits)
  then show ?case
    using pool_any.IH pool_any.prems by auto
qed (auto simp: alloc_port_def free_port_def split: if_splits)

lemma distinct_ports: "distinct (map of_nat [unat a..<unat b] :: u16 list)" for a b :: u16
proof -
  have "inj_on (of_nat :: nat \<Rightarrow> u16) {unat a..<unat b}"
  proof (rule inj_onI)
    fix x y :: nat
    assume xy: "x \<in> {unat a..<unat b}" "y \<in> {unat a..<unat b}" "(of_nat x :: u16) = of_nat y"
    then have "x < 2 ^ 16" "y < 2 ^ 16"
      using unat_u16_less [of b] by auto
    then show "x = y"
      using xy(3) unat_of_nat_u16 by metis
  qed
  then show ?thesis
    by (simp add: distinct_map)
qed

text \<open>C20: the pool of ephemeral ports hands out a port to one holder at a time: over any sequence of allocations
  and returns the free ports are distinct, none of them is held, and no port is lost or made up.\<close>

theorem ephemeral_ports_exclusive:
  assumes "\<And>ps. mset (shuffle ps) = mset ps" "pool_run (ephemeral_new shuffle None) us held pool"
  shows "distinct pool \<and> set pool \<inter> held = {}
    \<and> set pool \<union> held = set (map of_nat [unat FIRST_PRIVATE_PORT..<unat LAST_PRIVATE_PORT])"
proof -
  let ?ps = "map of_nat [unat FIRST_PRIVATE_PORT..<unat LAST_PRIVATE_PORT] :: u16 list"
  have new: "ephemeral_new shuffle None = shuffle ?ps"
    by (simp add: ephemeral_new_def)
  have "set (shuffle ?ps) = set ?ps"
    by (rule mset_eq_setD [OF assms(1)])
  moreover have "distinct (shuffle ?ps)"
    using mset_eq_imp_distinct_iff [OF assms(1)] distinct_ports by blast
  ultimately show ?thesis
    using pool_run_inv [OF assms(2)] unfolding new by simp
qed

lemma demo_pool: "\<exists>pool. pool_run (ephemeral_new rev None) ([] @ [AllocAny 49152]) {49152} pool"
proof -
  have "alloc_any (ephemeral_new rev None) = (Ok 49152, butlast (ephemeral_new rev None))"
  proof -
    have "unat FIRST_PRIVATE_PORT < unat LAST_PRIVATE_PORT" "of_nat (unat FIRST_PRIVATE_PORT) = (49152 :: u16)"
      by (simp_all add: FIRST_PRIVATE_PORT_def LAST_PRIVATE_PORT_def)
    then show ?thesis
      using upt_conv_Cons [of "unat FIRST_PRIVATE_PORT" "unat LAST_PRIVATE_PORT"]
      by (simp add: alloc_any_def ephemeral_new_def)
  qed
  then show ?thesis
    using pool_any [OF pool_start] by blast
qed

theorem ephemeral_ports_exclusive_witness:
  "\<exists>pool. pool_run (ephemeral_new rev None) [AllocAny 49152] {49152} pool \<and> 49152 \<notin> set pool"
  using demo_pool ephemeral_ports_exclusive [of rev "[AllocAny 49152]" "{49152}"] by fastforce

end
