(* ===== verification/Tcp_Open.thy ===== *)
theory Tcp_Open
  imports Ctrlblk Tcp_Config "HOL-Library.AList"
begin

text \<open>
  Connection establishment: the active side (\<^verbatim>\<open>protocols/tcp/active_open.rs\<close>) and the passive side
  (\<^verbatim>\<open>protocols/tcp/passive_open.rs\<close>). The background coroutines that repeat a SYN or SYN+ACK are modelled by
  one resumption: the attempts left, and what the ARP query they wait for answers. The current instant and the
  ARP cache are arguments, the segments handed to the network runtime results, task wakers identities with a
  log. The table of half-open connections is an association list with distinct keys.
\<close>

section \<open>Shared pieces\<close>

text \<open>\<^verbatim>\<open>u16::checked_shl\<close> and \<^verbatim>\<open>u32::checked_shl\<close>: only the shift amount is checked, bits are lost at the top.\<close>

definition checked_shl_u16 :: "nat \<Rightarrow> u16 \<Rightarrow> u16 option" where
  "checked_shl_u16 n w = (if n < 16 then Some (push_bit n w) else None)"

definition checked_shl_u32 :: "nat \<Rightarrow> u32 \<Rightarrow> u32 option" where
  "checked_shl_u32 n w = (if n < 32 then Some (push_bit n w) else None)"

text \<open>The options of a SYN: the last window scale and segment size win.\<close>

definition scan_options :: "tcp_options2 list \<Rightarrow> u8 option \<times> nat" where
  "scan_options opts =
     fold (\<lambda>opt (scale, mss). case opt of
             WindowScale w \<Rightarrow> (Some w, mss)
           | MaximumSegmentSize m \<Rightarrow> (scale, unat m)
           | _ \<Rightarrow> (scale, mss)) opts (None, FALLBACK_MSS)"

text \<open>Both sides scale windows only when the peer offered to.\<close>

definition negotiate_scale :: "tcp_config \<Rightarrow> u8 option \<Rightarrow> u32 \<times> u8" where
  "negotiate_scale cfg remote_window_scale =
     (case remote_window_scale of Some w \<Rightarrow> (ucast (cfg_window_scale cfg), w) | None \<Rightarrow> (0, 0))"

definition tcp_segment_to ::
  "mac_address \<Rightarrow> mac_address \<Rightarrow> sockaddr \<Rightarrow> sockaddr \<Rightarrow> tcp_config \<Rightarrow> tcp_header \<Rightarrow> tcp_segment" where
  "tcp_segment_to remote_link local_link local remote cfg h =
     \<lparr>ethernet2_hdr = eth_new remote_link local_link Ipv4, ipv4_hdr = ipv4_new (fst local) (fst remote) TCP,
      tcp_hdr = h, seg_data = None, tx_checksum_offload = rx_checksum_offload cfg\<rparr>"

text \<open>The two options pushed on a SYN; a header has room for five.\<close>

definition push_syn_options :: "tcp_config \<Rightarrow> tcp_header \<Rightarrow> tcp_header option" where
  "push_syn_options cfg h =
     Option.bind (push_option h (MaximumSegmentSize (of_nat (advertised_mss cfg))))
       (\<lambda>h. push_option h (WindowScale (cfg_window_scale cfg)))"

section \<open>Active open\<close>

record active_open =
  ao_local_isn :: seq
  ao_local :: sockaddr
  ao_remote :: sockaddr
  ao_link :: mac_address
  ao_config :: tcp_config
  ao_attempts :: nat
  ao_waker :: "nat option"
  ao_result :: "ctrl_block outcome option"
  ao_woken :: "nat list"

definition active_open_new :: "seq \<Rightarrow> sockaddr \<Rightarrow> sockaddr \<Rightarrow> tcp_config \<Rightarrow> mac_address \<Rightarrow> active_open" where
  "active_open_new isn local remote cfg link =
     \<lparr>ao_local_isn = isn, ao_local = local, ao_remote = remote, ao_link = link, ao_config = cfg,
      ao_attempts = handshake_retries cfg, ao_waker = None, ao_result = None, ao_woken = []\<rparr>"

definition poll_result :: "nat \<Rightarrow> active_open \<Rightarrow> ctrl_block outcome option \<times> active_open" where
  "poll_result task a =
     (case ao_result a of
        None \<Rightarrow> (None, a\<lparr>ao_waker := Some task\<rparr>)
      | Some r \<Rightarrow> (Some r, a\<lparr>ao_result := None\<rparr>))"

definition set_result :: "ctrl_block outcome \<Rightarrow> active_open \<Rightarrow> active_open" where
  "set_result r a =
     a\<lparr>ao_waker := None, ao_woken := ao_woken a @ (case ao_waker a of Some w \<Rightarrow> [w] | None \<Rightarrow> []), ao_result := Some r\<rparr>"

text \<open>The connection a SYN+ACK completes. \<open>None\<close>: a window scale above 14 (the assertion; it implies that the shifts
  are in range).\<close>

definition active_connection ::
  "instant \<Rightarrow> (ipv4addr \<Rightarrow> mac_address option) \<Rightarrow> tcp_header \<Rightarrow> active_open \<Rightarrow> ctrl_block option" where
  "active_connection now arp h a =
     (let (remote_window_scale, mss) = scan_options (option_list h);
          (local_window_scale, remote_window_scale) = negotiate_scale (ao_config a) remote_window_scale
      in if \<not> (local_window_scale \<le> 14 \<and> remote_window_scale \<le> 14) then None
         else Option.bind (checked_shl_u16 (unat local_window_scale) (cfg_receive_window_size (ao_config a))) (\<lambda>rx.
              Option.bind (checked_shl_u16 (unat remote_window_scale) (window_size h)) (\<lambda>tx.
              Some (cb_new (ao_local a) (ao_remote a) now (ao_link a) (cfg_tx_checksum_offload (ao_config a)) arp
                (seq_add (seq_num h) 1) (cfg_ack_delay_timeout (ao_config a)) (ucast rx) local_window_scale
                (seq_add (ao_local_isn a) 1) (ucast tx) remote_window_scale mss))))"

text \<open>\<open>None\<close>: a panic (the peer is not in the ARP cache, or a window scale out of range).\<close>

definition active_receive ::
  "instant \<Rightarrow> (ipv4addr \<Rightarrow> mac_address option) \<Rightarrow> tcp_header \<Rightarrow> active_open \<Rightarrow> (active_open \<times> tcp_segment list) option" where
  "active_receive now arp h a =
     (let expected_seq = seq_add (ao_local_isn a) 1
      in if \<not> (ack h \<and> ack_num h = expected_seq) then Some (a, [])
         else if rst h then Some (set_result (Err (fail_new ECONNREFUSED ''connection refused'')) a, [])
         else if \<not> syn h then Some (a, [])
         else case arp (fst (ao_remote a)) of
                None \<Rightarrow> None
              | Some remote_link_addr \<Rightarrow>
                  let reply = (tcp_new (snd (ao_local a)) (snd (ao_remote a)))
                        \<lparr>ack := True, ack_num := seq_add (seq_num h) 1,
                         window_size := cfg_receive_window_size (ao_config a), seq_num := seq_add (ao_local_isn a) 1\<rparr>
                  in map_option
                       (\<lambda>cb. (set_result (Ok cb) a,
                              [tcp_segment_to remote_link_addr (ao_link a) (ao_local a) (ao_remote a) (ao_config a) reply]))
                       (active_connection now arp h a))"

definition syn_header :: "active_open \<Rightarrow> tcp_header option" where
  "syn_header a =
     push_syn_options (ao_config a) ((tcp_new (snd (ao_local a)) (snd (ao_remote a)))
       \<lparr>syn := True, seq_num := ao_local_isn a, window_size := cfg_receive_window_size (ao_config a)\<rparr>)"

text \<open>One resumption of the coroutine, with the answer of the ARP query it awaits.\<close>

definition active_background :: "mac_address option \<Rightarrow> active_open \<Rightarrow> (active_open \<times> tcp_segment list) option" where
  "active_background arp_answer a =
     (if ao_attempts a = 0 then Some (set_result (Err (fail_new ETIMEDOUT ''handshake timeout'')) a, [])
      else let a' = a\<lparr>ao_attempts := ao_attempts a - 1\<rparr>
           in case arp_answer of
                None \<Rightarrow> Some (a', [])
              | Some remote_link_addr \<Rightarrow>
                  map_option (\<lambda>h. (a', [tcp_segment_to remote_link_addr (ao_link a) (ao_local a) (ao_remote a) (ao_config a) h]))
                    (syn_header a))"

section \<open>Passive open\<close>

record inflight_accept =
  ia_local_isn :: seq
  ia_remote_isn :: seq
  ia_header_window_size :: u16
  ia_remote_window_scale :: "u8 option"
  ia_mss :: nat
  ia_attempts :: nat

record ready_sockets =
  rs_ready :: "ctrl_block outcome list"
  rs_endpoints :: "sockaddr list"
  rs_waker :: "nat option"
  rs_woken :: "nat list"

record passive_socket =
  ps_inflight :: "(sockaddr \<times> inflight_accept) list"
  ps_ready :: ready_sockets
  ps_max_backlog :: nat
  ps_isn_generator :: isn_generator
  ps_local :: sockaddr
  ps_config :: tcp_config
  ps_link :: mac_address

definition rs_wake :: "ready_sockets \<Rightarrow> ready_sockets" where
  "rs_wake r = r\<lparr>rs_waker := None, rs_woken := rs_woken r @ (case rs_waker r of Some w \<Rightarrow> [w] | None \<Rightarrow> [])\<rparr>"

text \<open>\<open>None\<close>: the assertion that the endpoint is new.\<close>

definition rs_push_ok :: "ctrl_block \<Rightarrow> ready_sockets \<Rightarrow> ready_sockets option" where
  "rs_push_ok cb r =
     (if cb_remote cb \<in> set (rs_endpoints r) then None
      else Some (rs_wake (r\<lparr>rs_endpoints := rs_endpoints r @ [cb_remote cb], rs_ready := rs_ready r @ [Ok cb]\<rparr>)))"

definition rs_push_err :: "fail \<Rightarrow> ready_sockets \<Rightarrow> ready_sockets" where
  "rs_push_err e r = rs_wake (r\<lparr>rs_ready := rs_ready r @ [Err e]\<rparr>)"

text \<open>The inner option is \<^verbatim>\<open>Poll\<close>; the outer \<open>None\<close> the assertion that the endpoint was recorded.\<close>

definition rs_poll :: "nat \<Rightarrow> ready_sockets \<Rightarrow> (ctrl_block outcome option \<times> ready_sockets) option" where
  "rs_poll task r =
     (case rs_ready r of
        [] \<Rightarrow> Some (None, r\<lparr>rs_waker := Some task\<rparr>)
      | x # q \<Rightarrow>
          let r = r\<lparr>rs_ready := q\<rparr>
          in case x of
               Ok cb \<Rightarrow>
                 if cb_remote cb \<in> set (rs_endpoints r)
                 then Some (Some x, r\<lparr>rs_endpoints := filter (\<lambda>e. e \<noteq> cb_remote cb) (rs_endpoints r)\<rparr>) else None
             | _ \<Rightarrow> Some (Some x, r))"

definition passive_new :: "sockaddr \<Rightarrow> nat \<Rightarrow> tcp_config \<Rightarrow> mac_address \<Rightarrow> u32 \<Rightarrow> passive_socket" where
  "passive_new local max_backlog cfg link n =
     \<lparr>ps_inflight = [], ps_ready = \<lparr>rs_ready = [], rs_endpoints = [], rs_waker = None, rs_woken = []\<rparr>,
      ps_max_backlog = max_backlog, ps_isn_generator = isn_generator_new n, ps_local = local,
      ps_config = cfg, ps_link = link\<rparr>"

definition passive_poll_accept :: "nat \<Rightarrow> passive_socket \<Rightarrow> (ctrl_block outcome option \<times> passive_socket) option" where
  "passive_poll_accept task p = map_option (\<lambda>(r, rs). (r, p\<lparr>ps_ready := rs\<rparr>)) (rs_poll task (ps_ready p))"

text \<open>The connection the final ACK completes; \<open>None\<close>: a shift out of range.\<close>

definition passive_connection ::
  "instant \<Rightarrow> (ipv4addr \<Rightarrow> mac_address option) \<Rightarrow> sockaddr \<Rightarrow> inflight_accept \<Rightarrow> passive_socket \<Rightarrow> ctrl_block option" where
  "passive_connection now arp remote ia p =
     (let (local_window_scale, remote_window_scale) = negotiate_scale (ps_config p) (ia_remote_window_scale ia)
      in Option.bind (checked_shl_u16 (unat remote_window_scale) (ia_header_window_size ia)) (\<lambda>tx.
         Option.bind (checked_shl_u32 (unat local_window_scale) (ucast (cfg_receive_window_size (ps_config p)))) (\<lambda>rx.
         Some (cb_new (ps_local p) remote now (ps_link p) (cfg_tx_checksum_offload (ps_config p)) arp
           (seq_add (ia_remote_isn ia) 1) (cfg_ack_delay_timeout (ps_config p)) rx local_window_scale
           (seq_add (ia_local_isn ia) 1) (ucast tx) remote_window_scale (ia_mss ia)))))"

definition passive_ack ::
  "instant \<Rightarrow> (ipv4addr \<Rightarrow> mac_address option) \<Rightarrow> sockaddr \<Rightarrow> tcp_header \<Rightarrow> inflight_accept \<Rightarrow> passive_socket \<Rightarrow>
   unit outcome \<times> passive_socket" where
  "passive_ack now arp remote h ia p =
     (if \<not> ack h then (Err (fail_new EBADMSG ''expeting ACK''), p)
      else if ack_num h \<noteq> seq_add (ia_local_isn ia) 1 then (Err (fail_new EBADMSG ''invalid SYN+ACK seq num''), p)
      else case passive_connection now arp remote ia p of
             None \<Rightarrow> (Panic, p)
           | Some cb \<Rightarrow>
               let p = p\<lparr>ps_inflight := AList.delete remote (ps_inflight p)\<rparr>
               in case rs_push_ok cb (ps_ready p) of
                    None \<Rightarrow> (Panic, p)
                  | Some rs \<Rightarrow> (Ok (), p\<lparr>ps_ready := rs\<rparr>))"

definition passive_syn ::
  "(bytes \<Rightarrow> u32) \<Rightarrow> sockaddr \<Rightarrow> tcp_header \<Rightarrow> passive_socket \<Rightarrow> unit outcome \<times> passive_socket" where
  "passive_syn crc remote h p =
     (if \<not> syn h \<or> ack h \<or> rst h then (Err (fail_new EBADMSG ''invalid flags''), p)
      else if length (ps_inflight p) + length (rs_ready (ps_ready p)) \<ge> ps_max_backlog p
      then (Err (fail_new ECONNREFUSED ''connection refused''), p)
      else let (local_isn, g) = isn_generate crc (ps_local p) remote (ps_isn_generator p);
               (remote_window_scale, mss) = scan_options (option_list h);
               accept = \<lparr>ia_local_isn = local_isn, ia_remote_isn = seq_num h, ia_header_window_size = window_size h,
                         ia_remote_window_scale = remote_window_scale, ia_mss = mss,
                         ia_attempts = handshake_retries (ps_config p)\<rparr>
           in (Ok (), p\<lparr>ps_isn_generator := g, ps_inflight := AList.update remote accept (ps_inflight p)\<rparr>))"

definition passive_receive ::
  "(bytes \<Rightarrow> u32) \<Rightarrow> instant \<Rightarrow> (ipv4addr \<Rightarrow> mac_address option) \<Rightarrow> ipv4_header \<Rightarrow> tcp_header \<Rightarrow> passive_socket \<Rightarrow>
   unit outcome \<times> passive_socket" where
  "passive_receive crc now arp ip h p =
     (let remote = (ip_src_addr ip, src_port h)
      in if remote \<in> set (rs_endpoints (ps_ready p)) then (Ok (), p)
         else case map_of (ps_inflight p) remote of
                Some ia \<Rightarrow> passive_ack now arp remote h ia p
              | None \<Rightarrow> passive_syn crc remote h p)"

definition synack_header :: "sockaddr \<Rightarrow> inflight_accept \<Rightarrow> passive_socket \<Rightarrow> tcp_header option" where
  "synack_header remote ia p =
     push_syn_options (ps_config p) ((tcp_new (snd (ps_local p)) (snd remote))
       \<lparr>syn := True, seq_num := ia_local_isn ia, ack := True, ack_num := seq_add (ia_remote_isn ia) 1,
        window_size := cfg_receive_window_size (ps_config p)\<rparr>)"

text \<open>One resumption of the coroutine of a half-open connection. Out of attempts it ends, and leaves the table alone.\<close>

definition passive_background ::
  "mac_address option \<Rightarrow> sockaddr \<Rightarrow> passive_socket \<Rightarrow> (passive_socket \<times> tcp_segment list) option" where
  "passive_background arp_answer remote p =
     (case map_of (ps_inflight p) remote of
        None \<Rightarrow> Some (p, [])
      | Some ia \<Rightarrow>
          if ia_attempts ia = 0 then Some (p, [])
          else let p' = p\<lparr>ps_inflight := AList.update remote (ia\<lparr>ia_attempts := ia_attempts ia - 1\<rparr>) (ps_inflight p)\<rparr>
               in case arp_answer of
                    None \<Rightarrow> Some (p', [])
                  | Some remote_link_addr \<Rightarrow>
                      map_option (\<lambda>h. (p', [tcp_segment_to remote_link_addr (ps_link p) (ps_local p) remote (ps_config p) h]))
                        (synack_header remote ia p))"

definition push_migrated_in :: "ctrl_block \<Rightarrow> passive_socket \<Rightarrow> passive_socket option" where
  "push_migrated_in cb p = map_option (\<lambda>rs. p\<lparr>ps_ready := rs\<rparr>) (rs_push_ok cb (ps_ready p))"

end
