(* ===== verification/Stats_Poll.thy ===== *)
theory Stats_Poll
  imports Stats "HOL-Library.Multiset"
begin

text \<open>
  The collector of the load statistics (\<^verbatim>\<open>protocols/tcp/stats.rs\<close>): the global sum with its rolling
  average, the bucket list that orders connections by load, the poll loop that takes over what the control
  blocks reported, and the choice of the connections to migrate. Handles are shared between a control block
  and the collector: they live in a store, and the collector holds their addresses. Loads are natural numbers:
  the counters of the source are 64 bits wide, and under the invariant below every subtraction is of a part
  from the sum it belongs to, so it does not go below zero.
\<close>

type_synonym href = nat
type_synonym hstore = "href \<Rightarrow> stats_handle"

definition BUCKET_SIZE_LOG2 :: nat where "BUCKET_SIZE_LOG2 = 3"
definition ROLLING_AVG_WINDOW_LOG2 :: nat where "ROLLING_AVG_WINDOW_LOG2 = 7"
definition ROLLING_AVG_WINDOW :: nat where "ROLLING_AVG_WINDOW = 2 ^ ROLLING_AVG_WINDOW_LOG2"
definition MAX_EXTRACTED_CONNECTIONS :: nat where "MAX_EXTRACTED_CONNECTIONS = 20"

section \<open>Rolling average\<close>

record rolling_average =
  ra_values :: "nat list"
  ra_sum :: nat

definition ra_new :: rolling_average where
  "ra_new = \<lparr>ra_values = replicate ROLLING_AVG_WINDOW 0, ra_sum = 0\<rparr>"

text \<open>The queue is never empty; on an empty one \<^verbatim>\<open>unwrap_unchecked\<close> would be undefined behaviour.\<close>

definition ra_update :: "nat \<Rightarrow> rolling_average \<Rightarrow> rolling_average" where
  "ra_update value r = \<lparr>ra_values = tl (ra_values r) @ [value], ra_sum = ra_sum r - hd (ra_values r) + value\<rparr>"

definition ra_get :: "rolling_average \<Rightarrow> nat" where
  "ra_get r = ra_sum r div 2 ^ ROLLING_AVG_WINDOW_LOG2"

definition ra_force_set :: "nat \<Rightarrow> rolling_average \<Rightarrow> rolling_average" where
  "ra_force_set value r = \<lparr>ra_values = map (\<lambda>_. value) (ra_values r), ra_sum = value * 2 ^ ROLLING_AVG_WINDOW_LOG2\<rparr>"

section \<open>Buckets\<close>

text \<open>\<^verbatim>\<open>Vec::swap_remove\<close>: the last element takes the place of the removed one.\<close>

definition swap_remove :: "nat \<Rightarrow> 'a list \<Rightarrow> ('a \<times> 'a list) option" where
  "swap_remove i xs = (if i < length xs then Some (xs ! i, butlast (xs[i := last xs])) else None)"

definition set_position :: "href \<Rightarrow> (nat \<times> nat) option \<Rightarrow> hstore \<Rightarrow> hstore" where
  "set_position h p st = st(h := (st h)\<lparr>bucket_list_position := p\<rparr>)"

definition get_bucket_mut :: "nat \<Rightarrow> href list list \<Rightarrow> href list list" where
  "get_bucket_mut index buckets =
     (if index \<ge> length buckets then buckets @ replicate (index + 1 - length buckets) [] else buckets)"

definition push_into_bucket :: "nat \<Rightarrow> href \<Rightarrow> href list list \<Rightarrow> hstore \<Rightarrow> href list list \<times> hstore" where
  "push_into_bucket index h buckets st =
     (let buckets = get_bucket_mut index buckets;
          sub_index = length (buckets ! index)
      in (buckets[index := buckets ! index @ [h]], set_position h (Some (index, sub_index)) st))"

definition bucket_insert :: "href \<Rightarrow> nat \<Rightarrow> href list list \<Rightarrow> hstore \<Rightarrow> href list list \<times> hstore" where
  "bucket_insert h val buckets st =
     (if val > 0 then push_into_bucket (val div 2 ^ BUCKET_SIZE_LOG2) h buckets st else (buckets, st))"

text \<open>\<open>None\<close>: the position is out of range.\<close>

definition bucket_remove :: "nat \<times> nat \<Rightarrow> href list list \<Rightarrow> hstore \<Rightarrow> (href \<times> href list list \<times> hstore) option" where
  "bucket_remove position buckets st =
     (let (index, sub_index) = position
      in if index \<ge> length buckets then None
         else case swap_remove sub_index (buckets ! index) of
                None \<Rightarrow> None
              | Some (removed, bucket) \<Rightarrow>
                  let st = set_position removed None st;
                      st = (if sub_index < length bucket
                            then set_position (bucket ! sub_index) (Some (index, sub_index)) st else st)
                  in Some (removed, buckets[index := bucket], st))"

definition bucket_update :: "href \<Rightarrow> nat \<Rightarrow> href list list \<Rightarrow> hstore \<Rightarrow> (href list list \<times> hstore) option" where
  "bucket_update h val buckets st =
     (let new_index = val div 2 ^ BUCKET_SIZE_LOG2
      in case bucket_list_position (st h) of
           None \<Rightarrow> Some (if val > 0 then push_into_bucket new_index h buckets st else (buckets, st))
         | Some (index, sub_index) \<Rightarrow>
             if val = 0 \<or> index \<noteq> new_index then
               (case bucket_remove (index, sub_index) buckets st of
                  None \<Rightarrow> None
                | Some (removed, buckets, st) \<Rightarrow>
                    Some (if val > 0 then push_into_bucket new_index removed buckets st else (buckets, st)))
             else Some (buckets, st))"

section \<open>The collector\<close>

record stats =
  st_global_stat :: nat
  st_avg_global_stat :: rolling_average
  st_buckets :: "href list list"
  st_handles :: "href list"
  st_threshold :: nat
  st_max_proactive_migrations :: "int option"
  st_max_reactive_migrations :: "int option"

definition stats_new :: "nat \<Rightarrow> int option \<Rightarrow> int option \<Rightarrow> stats" where
  "stats_new threshold max_proactive max_reactive =
     \<lparr>st_global_stat = 0, st_avg_global_stat = ra_new, st_buckets = [], st_handles = [],
      st_threshold = threshold, st_max_proactive_migrations = max_proactive,
      st_max_reactive_migrations = max_reactive\<rparr>"

definition update_threshold :: "nat \<Rightarrow> stats \<Rightarrow> stats" where
  "update_threshold global_stat_sum s =
     (let avg = global_stat_sum div 2 in s\<lparr>st_threshold := avg + avg div 2 ^ 3\<rparr>)"

definition set_threshold :: "nat \<Rightarrow> stats \<Rightarrow> stats" where
  "set_threshold t s = s\<lparr>st_threshold := t\<rparr>"

definition reset_stats :: "stats \<Rightarrow> hstore \<Rightarrow> hstore" where
  "reset_stats s st = fold (\<lambda>h st. st(h := (st h)\<lparr>stat_to_update := Some 0\<rparr>)) (concat (st_buckets s)) st"

text \<open>Reports of a control block, on its handle in the store.\<close>

definition handle_set :: "href \<Rightarrow> nat \<Rightarrow> hstore \<Rightarrow> hstore" where
  "handle_set h val st = st(h := sh_set val (st h))"

definition handle_increment :: "href \<Rightarrow> hstore \<Rightarrow> hstore" where
  "handle_increment h st = st(h := sh_increment (st h))"

definition handle_disable :: "href \<Rightarrow> hstore \<Rightarrow> hstore" where
  "handle_disable h st = st(h := sh_disable (st h))"

text \<open>\<open>None\<close>: the handle is enabled already.\<close>

definition handle_enable :: "href \<Rightarrow> bool \<Rightarrow> nat \<Rightarrow> stats \<Rightarrow> hstore \<Rightarrow> (stats \<times> hstore) option" where
  "handle_enable h use_old_value initial_val s st =
     (let old_stat = stat (st h);
          (v, st) = (if use_old_value
                     then (case stat_right_before_disable (st h) of Some o' \<Rightarrow> o' | None \<Rightarrow> initial_val,
                           st(h := (st h)\<lparr>stat_right_before_disable := None\<rparr>))
                     else (initial_val, st))
      in case old_stat of
           Enabled _ \<Rightarrow> None
         | _ \<Rightarrow>
             let st = st(h := (st h)\<lparr>stat := Enabled v\<rparr>);
                 s = s\<lparr>st_global_stat := st_global_stat s + v\<rparr>
             in if old_stat = Disabled then
                  let st = st(h := (st h)\<lparr>handles_index := Some (length (st_handles s))\<rparr>);
                      s = s\<lparr>st_handles := st_handles s @ [h]\<rparr>;
                      (buckets, st) = bucket_insert h v (st_buckets s) st
                  in Some (s\<lparr>st_buckets := buckets\<rparr>, st)
                else Some (s, st))"

text \<open>A handle leaves the list of handles, where the last one takes its index, and its bucket.\<close>

definition unlist_handle :: "nat \<Rightarrow> href \<Rightarrow> href list \<Rightarrow> hstore \<Rightarrow> hstore" where
  "unlist_handle i h handles st =
     (let st = st(h := (st h)\<lparr>handles_index := None\<rparr>)
      in if i < length handles then st(handles ! i := (st (handles ! i))\<lparr>handles_index := Some i\<rparr>) else st)"

definition unbucket_handle :: "href \<Rightarrow> (nat \<times> nat) option \<Rightarrow> href list list \<Rightarrow> hstore \<Rightarrow> (href list list \<times> hstore) option" where
  "unbucket_handle h position buckets st =
     (case position of
        None \<Rightarrow> Some (buckets, st)
      | Some p \<Rightarrow> (case bucket_remove p buckets st of
                    None \<Rightarrow> None
                  | Some (_, buckets, st) \<Rightarrow> Some (buckets, set_position h None st)))"

text \<open>One handle of the poll loop. The result says whether the loop moves on to the next index; \<open>None\<close> is a
  panic: a disabled handle in the list, a position outside the buckets, or a global sum that would turn
  negative.\<close>

definition poll_handle :: "nat \<Rightarrow> stats \<Rightarrow> hstore \<Rightarrow> (bool \<times> stats \<times> hstore) option" where
  "poll_handle i s st =
     (let h = st_handles s ! i
      in case stat (st h) of
           MarkedForDisable len \<Rightarrow>
             let handles = butlast ((st_handles s)[i := last (st_handles s)])
             in case unbucket_handle h (bucket_list_position (st h)) (st_buckets s) (unlist_handle i h handles st) of
                  None \<Rightarrow> None
                | Some (buckets, st) \<Rightarrow>
                    let st = st(h := (st h)\<lparr>stat := Disabled\<rparr>)
                    in if st_global_stat s < len then None
                       else Some (False, s\<lparr>st_handles := handles, st_buckets := buckets,
                                           st_global_stat := st_global_stat s - len\<rparr>, st)
         | Enabled len \<Rightarrow>
             let update = stat_to_update (st h); st = st(h := (st h)\<lparr>stat_to_update := None\<rparr>)
             in (case update of
                   None \<Rightarrow> Some (True, s, st)
                 | Some v \<Rightarrow>
                     if v \<noteq> len then
                       let s = s\<lparr>st_global_stat := st_global_stat s + v - len\<rparr>;
                           st = st(h := (st h)\<lparr>stat := Enabled v\<rparr>)
                       in case bucket_update h v (st_buckets s) st of
                            None \<Rightarrow> None
                          | Some (buckets, st) \<Rightarrow> Some (True, s\<lparr>st_buckets := buckets\<rparr>, st)
                     else Some (True, s, st))
         | Disabled \<Rightarrow> None)"

lemma poll_handle_length:
  assumes "poll_handle i s st = Some (adv, s', st')" "i < length (st_handles s)"
  shows "length (st_handles s') = (if adv then length (st_handles s) else length (st_handles s) - 1)"
  using assms
  by (auto simp: poll_handle_def Let_def split: stat.splits option.splits prod.splits if_splits)

function poll_loop :: "nat \<Rightarrow> stats \<Rightarrow> hstore \<Rightarrow> (stats \<times> hstore) option" where
  "poll_loop i s st =
     (if i < length (st_handles s) then
        (case poll_handle i s st of
           None \<Rightarrow> None
         | Some (adv, s', st') \<Rightarrow> poll_loop (if adv then i + 1 else i) s' st')
      else Some (s, st))"
  by pat_completeness auto
termination
  by (relation "measure (\<lambda>(i, s, st). length (st_handles s) - i)") (auto dest!: poll_handle_length split: if_splits)

declare poll_loop.simps [simp del]

definition stats_poll :: "stats \<Rightarrow> hstore \<Rightarrow> (stats \<times> hstore) option" where
  "stats_poll s st =
     map_option (\<lambda>(s, st). (s\<lparr>st_avg_global_stat := ra_update (st_global_stat s) (st_avg_global_stat s)\<rparr>, st))
       (poll_loop 0 s st)"

section \<open>Choosing connections\<close>

text \<open>The two nested loops over the buckets, from the handles in the order they visit them. \<open>None\<close> is a panic
  on a handle that is not enabled.\<close>

fun pick_connections ::
  "nat \<Rightarrow> nat \<Rightarrow> hstore \<Rightarrow> href list \<Rightarrow> (sockaddr \<times> sockaddr) list \<Rightarrow> nat \<Rightarrow> int option
   \<Rightarrow> ((sockaddr \<times> sockaddr) list \<times> int option) option" where
  "pick_connections global threshold st [] conns removed_stat quota = Some (conns, quota)"
| "pick_connections global threshold st (h # hs) conns removed_stat quota =
     (case stat (st h) of
        Enabled v \<Rightarrow>
          let removed_stat = removed_stat + v;
              conns = conns @ [conn (st h)];
              should_end = (global - removed_stat \<le> threshold \<or> length conns = MAX_EXTRACTED_CONNECTIONS);
              quota = map_option (\<lambda>m. m - 1) quota
          in if (case quota of Some m \<Rightarrow> m \<le> 0 | None \<Rightarrow> False) \<or> should_end then Some (conns, quota)
             else pick_connections global threshold st hs conns removed_stat quota
      | _ \<Rightarrow> None)"

definition visit_order :: "nat \<Rightarrow> href list list \<Rightarrow> href list" where
  "visit_order base_index buckets = concat (map rev (drop base_index buckets @ rev (take base_index buckets)))"

definition connections_to_proactively_migrate ::
  "stats \<Rightarrow> hstore \<Rightarrow> ((sockaddr \<times> sockaddr) list option \<times> stats) option" where
  "connections_to_proactively_migrate s st =
     (if (case st_max_proactive_migrations s of Some v \<Rightarrow> v \<le> 0 | None \<Rightarrow> False) then Some (None, s)
      else if st_global_stat s \<le> st_threshold s then Some (None, s)
      else let base_index = min ((st_global_stat s - st_threshold s) div 2 ^ BUCKET_SIZE_LOG2) (length (st_buckets s))
           in case pick_connections (st_global_stat s) (st_threshold s) st (visit_order base_index (st_buckets s)) [] 0
                     (st_max_proactive_migrations s) of
                None \<Rightarrow> None
              | Some (conns, quota) \<Rightarrow> Some (Some conns, s\<lparr>st_max_proactive_migrations := quota\<rparr>))"

text \<open>Reactive migration is switched off: its body starts with a \<^verbatim>\<open>return None\<close>.\<close>

definition connections_to_reactively_migrate :: "stats \<Rightarrow> (sockaddr \<times> sockaddr) list option \<times> stats" where
  "connections_to_reactively_migrate s = (None, s)"

section \<open>The rolling average\<close>

text \<open>The running sum is the sum of the window.\<close>

definition ra_ok :: "rolling_average \<Rightarrow> bool" where
  "ra_ok r \<longleftrightarrow> length (ra_values r) = ROLLING_AVG_WINDOW \<and> ra_sum r = sum_list (ra_values r)"

lemma ra_ok_new: "ra_ok ra_new"
  by (simp add: ra_ok_def ra_new_def)

lemma ra_ok_update: "ra_ok r \<Longrightarrow> ra_ok (ra_update v r)"
  by (cases "ra_values r") (auto simp: ra_ok_def ra_update_def ROLLING_AVG_WINDOW_def)

lemma ra_ok_force_set: "ra_ok r \<Longrightarrow> ra_ok (ra_force_set v r)"
  by (simp add: ra_ok_def ra_force_set_def ROLLING_AVG_WINDOW_def map_replicate_const sum_list_replicate)

lemma ra_values_run:
  assumes "ra_ok r"
  shows "ra_values (fold ra_update vs r) = drop (length vs) (ra_values r @ vs) \<and> ra_ok (fold ra_update vs r)"
  using assms
proof (induction vs arbitrary: r)
  case (Cons v vs)
  then show ?case
    using Cons.IH [OF ra_ok_update [OF Cons.prems, of v]]
    by (cases "ra_values r") (auto simp: ra_update_def ra_ok_def ROLLING_AVG_WINDOW_def)
qed simp

text \<open>After any sequence of polls the rolling average is the mean, rounded down, of the last 128 loads
  recorded, the window being filled with zeros at first.\<close>

theorem rolling_average_mean:
  "ra_get (fold ra_update vs ra_new) =
     sum_list (drop (length vs) (replicate ROLLING_AVG_WINDOW 0 @ vs)) div ROLLING_AVG_WINDOW"
  using ra_values_run [OF ra_ok_new, of vs]
  by (simp add: ra_get_def ra_ok_def ra_new_def ROLLING_AVG_WINDOW_def)

section \<open>The bucket list\<close>

text \<open>Every entry of the buckets is where its handle says it is, and every position a handle has is taken by it.\<close>

definition pos_ok :: "href list list \<Rightarrow> hstore \<Rightarrow> bool" where
  "pos_ok B st \<longleftrightarrow> (\<forall>h i j. bucket_list_position (st h) = Some (i, j) \<longleftrightarrow> i < length B \<and> j < length (B ! i) \<and> B ! i ! j = h)"

text \<open>A store that differs from another one in bucket positions only.\<close>

definition same_stats :: "hstore \<Rightarrow> hstore \<Rightarrow> bool" where
  "same_stats st st' \<longleftrightarrow> (\<forall>h. stat (st' h) = stat (st h) \<and> stat_to_update (st' h) = stat_to_update (st h)
     \<and> conn (st' h) = conn (st h) \<and> stat_right_before_disable (st' h) = stat_right_before_disable (st h))"

lemma same_stats_trans: "same_stats a b \<Longrightarrow> same_stats b c \<Longrightarrow> same_stats a c"
  by (simp add: same_stats_def)

lemma same_stats_set_position [simp]: "same_stats st (set_position h p st)"
  by (simp add: same_stats_def set_position_def)

lemma get_bucket_mut_nth:
  "index < length (get_bucket_mut index B)" "length B \<le> length (get_bucket_mut index B)"
  "i < length B \<Longrightarrow> get_bucket_mut index B ! i = B ! i"
  "length B \<le> i \<Longrightarrow> i < length (get_bucket_mut index B) \<Longrightarrow> get_bucket_mut index B ! i = []"
  by (auto simp: get_bucket_mut_def nth_append)

lemma pos_ok_get_bucket_mut:
  assumes "pos_ok B st"
  shows "pos_ok (get_bucket_mut index B) st"
  unfolding pos_ok_def
proof (intro allI)
  fix h i j
  note c = assms [unfolded pos_ok_def, rule_format, of h i j]
  show "bucket_list_position (st h) = Some (i, j) \<longleftrightarrow> i < length (get_bucket_mut index B)
    \<and> j < length (get_bucket_mut index B ! i) \<and> get_bucket_mut index B ! i ! j = h"
  proof (cases "i < length B")
    case True
    then show ?thesis
      using c get_bucket_mut_nth(2) [of B index] get_bucket_mut_nth(3) [of i B index] by auto
  next
    case False
    then have "i < length (get_bucket_mut index B) \<Longrightarrow> get_bucket_mut index B ! i = []"
      by (intro get_bucket_mut_nth(4)) simp_all
    then show ?thesis
      using c False by auto
  qed
qed

lemma push_into_bucket_ok:
  assumes "pos_ok B st" "bucket_list_position (st h) = None" "push_into_bucket index h B st = (B', st')"
  shows "pos_ok B' st'" "same_stats st st'" "map_option fst (bucket_list_position (st' h)) = Some index"
    "k \<noteq> h \<Longrightarrow> st' k = st k"
proof -
  define C where "C = get_bucket_mut index B"
  have C: "pos_ok C st" "index < length C"
    using assms(1) pos_ok_get_bucket_mut get_bucket_mut_nth(1) by (simp_all add: C_def)
  have B': "B' = C[index := C ! index @ [h]]" and st': "st' = set_position h (Some (index, length (C ! index))) st"
    using assms(3) by (simp_all add: push_into_bucket_def Let_def C_def)
  note c = C(1) [unfolded pos_ok_def, rule_format]
  show "pos_ok B' st'"
    unfolding pos_ok_def
  proof (intro allI)
    fix k i j
    show "bucket_list_position (st' k) = Some (i, j) \<longleftrightarrow> i < length B' \<and> j < length (B' ! i) \<and> B' ! i ! j = k"
      using c [of k i j] c [of h i j] C(2) assms(2)
      by (cases "i = index"; cases "k = h")
        (auto simp: B' st' set_position_def nth_append less_Suc_eq)
  qed
  show "same_stats st st'" "map_option fst (bucket_list_position (st' h)) = Some index" "k \<noteq> h \<Longrightarrow> st' k = st k"
    by (simp_all add: st' set_position_def same_stats_def)
qed

lemma butlast_swap_nth:
  assumes "i < length xs" "j < length xs - 1"
  shows "butlast (xs[i := last xs]) ! j = (if j = i then last xs else xs ! j)"
  using assms by (simp add: nth_butlast nth_list_update)

lemma bucket_remove_ok:
  assumes "pos_ok B st" "bucket_list_position (st h) = Some p"
  shows "\<exists>B' st'. bucket_remove p B st = Some (h, B', st') \<and> pos_ok B' st' \<and> same_stats st st'
    \<and> bucket_list_position (st' h) = None
    \<and> (\<forall>k. k \<noteq> h \<longrightarrow> map_option fst (bucket_list_position (st' k)) = map_option fst (bucket_list_position (st k)))"
proof -
  obtain i j where p: "p = (i, j)"
    by (cases p)
  note c = assms(1) [unfolded pos_ok_def, rule_format]
  have ij: "i < length B" "j < length (B ! i)" "B ! i ! j = h"
    using assms(2) c p by auto
  define b where "b = butlast ((B ! i)[j := last (B ! i)])"
  define m where "m = last (B ! i)"
  have b: "length b = length (B ! i) - 1" "\<And>l. l < length b \<Longrightarrow> b ! l = (if l = j then m else B ! i ! l)"
    using ij(2) butlast_swap_nth [of j "B ! i"] by (simp_all add: b_def m_def)
  have "B ! i \<noteq> []"
    using ij(2) by auto
  then have m: "B ! i ! (length (B ! i) - 1) = m"
    by (simp add: m_def last_conv_nth)
  then have mp: "bucket_list_position (st m) = Some (i, length (B ! i) - 1)"
    using c [of m i "length (B ! i) - 1"] ij(1,2) by simp
  let ?st1 = "set_position h None st"
  define st' where "st' = (if j < length b then set_position (b ! j) (Some (i, j)) ?st1 else ?st1)"
  have rem: "bucket_remove p B st = Some (h, B[i := b], st')"
    using ij by (simp add: bucket_remove_def p swap_remove_def b_def [symmetric] st'_def Let_def)
  have mh: "m = h \<longleftrightarrow> j = length (B ! i) - 1"
  proof
    assume "m = h"
    then show "j = length (B ! i) - 1" using mp assms(2) p by simp
  next
    assume "j = length (B ! i) - 1"
    then show "m = h" using m ij(3) by simp
  qed
  have pos': "bucket_list_position (st' k) = (if k = h then None else if k = m then Some (i, j) else bucket_list_position (st k))" for k
  proof (cases "j < length b")
    case True
    then show ?thesis
      using b(2) [OF True] mh b(1) by (simp add: st'_def set_position_def)
  next
    case False
    then have "m = h"
      using mh b(1) ij(2) by simp
    then show ?thesis
      using False by (simp add: st'_def set_position_def)
  qed
  have "pos_ok (B[i := b]) st'"
    unfolding pos_ok_def
  proof (intro allI)
    fix k i' j'
    show "bucket_list_position (st' k) = Some (i', j') \<longleftrightarrow>
        i' < length (B[i := b]) \<and> j' < length (B[i := b] ! i') \<and> B[i := b] ! i' ! j' = k"
    proof (cases "i' = i")
      case True
      have k: "bucket_list_position (st k) = Some (i, j') \<longleftrightarrow> j' < length (B ! i) \<and> B ! i ! j' = k"
        using c ij(1) by simp
      have h: "B ! i ! j' = h \<Longrightarrow> j' < length (B ! i) \<Longrightarrow> j' = j"
        using c [of h i j'] assms(2) p ij(1) by simp
      have last: "B ! i ! j' = m \<Longrightarrow> j' < length (B ! i) \<Longrightarrow> j' = length (B ! i) - 1"
        using c [of m i j'] mp ij(1) by simp
      have "(if k = h then None else if k = m then Some (i, j) else bucket_list_position (st k)) = Some (i, j')
          \<longleftrightarrow> j' < length (B ! i) - 1 \<and> (if j' = j then m else B ! i ! j') = k"
      proof -
        consider "k = h" | "k = m" "k \<noteq> h" | "k \<noteq> h" "k \<noteq> m"
          by blast
        then show ?thesis
        proof cases
          case 1
          have "\<not> (j' < length (B ! i) - 1 \<and> (if j' = j then m else B ! i ! j') = h)"
            using h mh by (cases "j' = j") (simp, use less_imp_diff_less in force)
          then show ?thesis using 1 by simp
        next
          case 2
          then have "j < length (B ! i) - 1"
            using mh ij(2) by linarith
          then show ?thesis using 2 last by (cases "j' = j") (simp, force)
        next
          case 3
          have "j' < length (B ! i) \<and> B ! i ! j' = k \<longleftrightarrow> j' < length (B ! i) - 1 \<and> (if j' = j then m else B ! i ! j') = k"
          proof (cases "j' = length (B ! i) - 1")
            case True
            then show ?thesis using m 3 by auto
          next
            case False
            then show ?thesis using 3 ij(2,3) by auto
          qed
          then show ?thesis using 3 k by simp
        qed
      qed
      then show ?thesis
        using True b ij(1) pos' by auto
    next
      case False
      then show ?thesis
        using c [of k i' j'] pos' mp assms(2) p by auto
    qed
  qed
  moreover have "same_stats st st'"
    by (simp add: st'_def same_stats_def set_position_def)
  moreover have "map_option fst (bucket_list_position (st' k)) = map_option fst (bucket_list_position (st k))" if "k \<noteq> h" for k
    using pos' [of k] mp that by simp
  ultimately show ?thesis
    using rem pos' [of h] by simp
qed

section \<open>The invariant\<close>

fun sval :: "stat \<Rightarrow> nat" where
  "sval Disabled = 0"
| "sval (Enabled v) = v"
| "sval (MarkedForDisable v) = v"

definition bucket_of :: "nat \<Rightarrow> nat option" where
  "bucket_of v = (if v = 0 then None else Some (v div 8))"

text \<open>The handles are those that are not disabled, each is in the bucket of its value, and the global sum is the
  sum of their values.\<close>

definition stats_inv :: "stats \<Rightarrow> hstore \<Rightarrow> bool" where
  "stats_inv s st \<longleftrightarrow> distinct (st_handles s) \<and> (\<forall>h. h \<in> set (st_handles s) \<longleftrightarrow> stat (st h) \<noteq> Disabled)
     \<and> pos_ok (st_buckets s) st
     \<and> (\<forall>h. map_option fst (bucket_list_position (st h)) = bucket_of (sval (stat (st h))))
     \<and> st_global_stat s = (\<Sum>h\<leftarrow>st_handles s. sval (stat (st h)))"

lemma stats_inv_new: "(\<And>h. stat (st h) = Disabled \<and> bucket_list_position (st h) = None) \<Longrightarrow> stats_inv (stats_new t q r) st"
  by (simp add: stats_inv_def stats_new_def pos_ok_def bucket_of_def)

text \<open>Reports and disabling leave the counted values alone.\<close>

lemma stats_inv_report:
  assumes "stats_inv s st"
    and "\<And>h. (stat (st' h) = Disabled) = (stat (st h) = Disabled) \<and> sval (stat (st' h)) = sval (stat (st h))
      \<and> bucket_list_position (st' h) = bucket_list_position (st h)"
  shows "stats_inv s st'"
  using assms(1) assms(2) unfolding stats_inv_def pos_ok_def by simp

lemma stats_inv_handle:
  assumes "stats_inv s st"
  shows "stats_inv s (handle_set h v st)" "stats_inv s (handle_increment h st)" "stats_inv s (handle_disable h st)"
  by (rule stats_inv_report [OF assms];
      simp add: handle_set_def sh_set_def handle_increment_def sh_increment_def handle_disable_def sh_disable_def
        split: stat.split option.split)+

lemma bucket_of_8: "0 < v \<Longrightarrow> bucket_of v = Some (v div 2 ^ BUCKET_SIZE_LOG2)"
  by (simp add: bucket_of_def BUCKET_SIZE_LOG2_def)

text \<open>Moving a handle to the bucket of its new value.\<close>

lemma bucket_insert_ok:
  assumes "pos_ok B st" "bucket_list_position (st h) = None" "bucket_insert h v B st = (B', st')"
  shows "pos_ok B' st' \<and> same_stats st st' \<and> map_option fst (bucket_list_position (st' h)) = bucket_of v
    \<and> (\<forall>k. k \<noteq> h \<longrightarrow> st' k = st k)"
proof (cases "v > 0")
  case True
  then have "push_into_bucket (v div 2 ^ BUCKET_SIZE_LOG2) h B st = (B', st')"
    using assms(3) by (simp add: bucket_insert_def)
  from push_into_bucket_ok [OF assms(1,2) this] show ?thesis
    using True by (simp add: bucket_of_8)
next
  case False
  then show ?thesis
    using assms by (simp add: bucket_insert_def bucket_of_def same_stats_def)
qed

lemma bucket_update_ok:
  assumes "pos_ok B st"
    and idx: "map_option fst (bucket_list_position (st h)) = bucket_of u"
  shows "\<exists>B' st'. bucket_update h v B st = Some (B', st') \<and> pos_ok B' st' \<and> same_stats st st'
    \<and> map_option fst (bucket_list_position (st' h)) = bucket_of v
    \<and> (\<forall>k. k \<noteq> h \<longrightarrow> map_option fst (bucket_list_position (st' k)) = map_option fst (bucket_list_position (st k)))"
proof (cases "bucket_list_position (st h)")
  case None
  obtain B' st' where b: "bucket_insert h v B st = (B', st')"
    by (cases "bucket_insert h v B st")
  moreover have "bucket_update h v B st = Some (bucket_insert h v B st)"
    using None by (simp add: bucket_update_def bucket_insert_def Let_def)
  ultimately show ?thesis
    using bucket_insert_ok [OF assms(1) None b] by auto
next
  case (Some p)
  obtain i j where p: "p = (i, j)"
    by (cases p)
  show ?thesis
  proof (cases "v = 0 \<or> i \<noteq> v div 2 ^ BUCKET_SIZE_LOG2")
    case True
    obtain B1 st1 where r: "bucket_remove p B st = Some (h, B1, st1)" "pos_ok B1 st1" "same_stats st st1"
      "bucket_list_position (st1 h) = None"
      "\<forall>k. k \<noteq> h \<longrightarrow> map_option fst (bucket_list_position (st1 k)) = map_option fst (bucket_list_position (st k))"
      using bucket_remove_ok [OF assms(1) Some] by blast
    obtain B' st' where b: "bucket_insert h v B1 st1 = (B', st')"
      by (cases "bucket_insert h v B1 st1")
    have "bucket_update h v B st = Some (bucket_insert h v B1 st1)"
      using Some p True r(1) by (simp add: bucket_update_def bucket_insert_def Let_def)
    then show ?thesis
      using bucket_insert_ok [OF r(2,4) b] b r(3,5) same_stats_trans by fastforce
  next
    case False
    then have "bucket_update h v B st = Some (B, st)"
      using Some p by (simp add: bucket_update_def Let_def)
    then show ?thesis
      using assms(1) Some p False by (simp add: same_stats_def bucket_of_8)
  qed
qed

section \<open>Enabling and polling\<close>

lemma map_cong_except: "h \<notin> set xs \<Longrightarrow> (\<And>k. k \<noteq> h \<Longrightarrow> g k = f k) \<Longrightarrow> map g xs = map f xs"
  by (rule map_cong [OF refl]) metis

lemma sum_list_map_cong_except:
  fixes f g :: "'a \<Rightarrow> nat"
  assumes "distinct xs" "h \<in> set xs" "\<And>k. k \<noteq> h \<Longrightarrow> g k = f k"
  shows "sum_list (map g xs) + f h = sum_list (map f xs) + g h"
  using assms
proof (induction xs)
  case (Cons x xs)
  show ?case
  proof (cases "x = h")
    case True
    then have "map g xs = map f xs"
      using Cons.prems by (intro map_cong_except) auto
    then have "sum_list (map g xs) = sum_list (map f xs)"
      by (rule arg_cong)
    then show ?thesis
      using True by simp
  next
    case False
    then show ?thesis
      using Cons by simp
  qed
qed simp

lemma enable_inv:
  assumes "stats_inv s st" "stat (st h) = Disabled" "handle_enable h old v s st = Some (s', st')"
  shows "stats_inv s' st'"
proof -
  define w where "w = (if old then case stat_right_before_disable (st h) of Some o' \<Rightarrow> o' | None \<Rightarrow> v else v)"
  define st1 where "st1 = (if old then st(h := (st h)\<lparr>stat_right_before_disable := None\<rparr>) else st)"
  define st2 where "st2 = st1(h := (st1 h)\<lparr>stat := Enabled w, handles_index := Some (length (st_handles s))\<rparr>)"
  obtain B st3 where b: "bucket_insert h w (st_buckets s) st2 = (B, st3)"
    by (cases "bucket_insert h w (st_buckets s) st2")
  have en: "s' = s\<lparr>st_global_stat := st_global_stat s + w, st_handles := st_handles s @ [h], st_buckets := B\<rparr>" "st' = st3"
    using assms(2,3) b by (auto simp: handle_enable_def Let_def st2_def st1_def w_def split: if_splits)
  note inv = assms(1) [unfolded stats_inv_def]
  have nin: "h \<notin> set (st_handles s)"
    using inv assms(2) by blast
  have f2: "stat (st2 h) = Enabled w" "bucket_list_position (st2 k) = bucket_list_position (st k)"
    "k \<noteq> h \<Longrightarrow> st2 k = st k" for k
    by (simp_all add: st2_def st1_def)
  have none: "bucket_list_position (st h) = None"
    using inv assms(2) by (metis bucket_of_def option.map_disc_iff sval.simps(1))
  have "pos_ok (st_buckets s) st2"
    using inv f2(2) by (simp add: pos_ok_def)
  from bucket_insert_ok [OF this _ b] none f2(2)
  have ins: "pos_ok B st3" "same_stats st2 st3" "map_option fst (bucket_list_position (st3 h)) = bucket_of w"
    "\<And>k. k \<noteq> h \<Longrightarrow> st3 k = st2 k"
    by simp_all
  have st3: "stat (st3 h) = Enabled w" "\<And>k. k \<noteq> h \<Longrightarrow> st3 k = st k"
    using ins(2,4) f2 by (simp_all add: same_stats_def)
  have stat3: "stat (st3 k) = (if k = h then Enabled w else stat (st k))"
    and pos3: "map_option fst (bucket_list_position (st3 k)) = bucket_of (sval (stat (st3 k)))" for k
    using st3 ins(3) inv by (cases "k = h"; simp)+
  have "map (\<lambda>k. sval (stat (st3 k))) (st_handles s) = map (\<lambda>k. sval (stat (st k))) (st_handles s)"
    using nin by (rule map_cong_except) (simp add: st3(2))
  then have "(\<Sum>k\<leftarrow>st_handles s. sval (stat (st3 k))) = (\<Sum>k\<leftarrow>st_handles s. sval (stat (st k)))"
    by (rule arg_cong)
  then show ?thesis
    using inv nin ins(1) pos3 stat3 unfolding stats_inv_def en by auto
qed

text \<open>What polling makes of a handle: a marked one is disabled, an enabled one takes the value last reported.\<close>

definition polled :: "stats_handle \<Rightarrow> stat" where
  "polled h = (case stat h of
     Disabled \<Rightarrow> Disabled
   | MarkedForDisable _ \<Rightarrow> Disabled
   | Enabled v \<Rightarrow> Enabled (case stat_to_update h of Some u \<Rightarrow> u | None \<Rightarrow> v))"

text \<open>What polling one handle establishes.\<close>

definition polled_step :: "nat \<Rightarrow> stats \<Rightarrow> hstore \<Rightarrow> bool \<Rightarrow> stats \<Rightarrow> hstore \<Rightarrow> bool" where
  "polled_step i s st adv s' st' \<longleftrightarrow> stats_inv s' st'
     \<and> stat (st' (st_handles s ! i)) = polled (st (st_handles s ! i))
     \<and> (\<forall>k. k \<noteq> st_handles s ! i \<longrightarrow> stat (st' k) = stat (st k) \<and> stat_to_update (st' k) = stat_to_update (st k))
     \<and> (if adv then st_handles s' = st_handles s
        else st_handles s' = butlast ((st_handles s)[i := last (st_handles s)]))"

lemma swap_remove_split:
  assumes "i < length xs"
  obtains a x b z where "xs = a @ x # b @ [z]" "length a = i" "butlast (xs[i := last xs]) = a @ z # b"
    | a x where "xs = a @ [x]" "length a = i" "butlast (xs[i := last xs]) = a"
proof -
  have xs: "xs = take i xs @ xs ! i # drop (Suc i) xs" "length (take i xs) = i"
    using assms by (simp_all add: id_take_nth_drop)
  show thesis
  proof (cases "drop (Suc i) xs" rule: rev_cases)
    case Nil
    with xs obtain a x where "xs = a @ [x]" "length a = i"
      by metis
    then show thesis
      using that(2) [of a x] by auto
  next
    case (snoc b z)
    with xs obtain a x where "xs = a @ x # b @ [z]" "length a = i"
      by metis
    then show thesis
      using that(1) [of a x b z] by (auto simp: butlast_append)
  qed
qed

lemma distinct_swap_remove:
  assumes "distinct xs" "i < length xs"
  shows "distinct (butlast (xs[i := last xs]))" "set (butlast (xs[i := last xs])) = set xs - {xs ! i}"
    "set (drop i (butlast (xs[i := last xs]))) = set (drop i xs) - {xs ! i}"
  by (rule swap_remove_split [OF assms(2)]; use assms(1) in \<open>force simp: nth_append\<close>)+

lemma poll_handle_disable:
  assumes inv: "stats_inv s st" and i: "i < length (st_handles s)"
    and m: "stat (st (st_handles s ! i)) = MarkedForDisable len"
  shows "\<exists>s' st'. poll_handle i s st = Some (False, s', st') \<and> polled_step i s st False s' st'"
proof -
  let ?h = "st_handles s ! i" and ?hs = "butlast ((st_handles s)[i := last (st_handles s)])"
  note v = inv [unfolded stats_inv_def]
  define st1 where "st1 = unlist_handle i ?h ?hs st"
  have s1: "stat (st1 k) = stat (st k)" "stat_to_update (st1 k) = stat_to_update (st k)"
    "bucket_list_position (st1 k) = bucket_list_position (st k)" for k
    by (simp_all add: st1_def unlist_handle_def Let_def)
  have ok1: "pos_ok (st_buckets s) st1"
    using v s1(3) by (simp add: pos_ok_def)
  define rem where "rem = unbucket_handle ?h (bucket_list_position (st ?h)) (st_buckets s) st1"
  have "\<exists>B st2. rem = Some (B, st2)
    \<and> pos_ok B st2 \<and> same_stats st1 st2 \<and> bucket_list_position (st2 ?h) = None
    \<and> (\<forall>k. k \<noteq> ?h \<longrightarrow> map_option fst (bucket_list_position (st2 k)) = map_option fst (bucket_list_position (st1 k)))"
  proof (cases "bucket_list_position (st ?h)")
    case None
    then show ?thesis
      using ok1 s1(3) by (simp add: same_stats_def rem_def unbucket_handle_def)
  next
    case (Some p)
    obtain B st2 where r: "bucket_remove p (st_buckets s) st1 = Some (?h, B, st2)" "pos_ok B st2" "same_stats st1 st2"
      "bucket_list_position (st2 ?h) = None"
      "\<forall>k. k \<noteq> ?h \<longrightarrow> map_option fst (bucket_list_position (st2 k)) = map_option fst (bucket_list_position (st1 k))"
      using bucket_remove_ok [OF ok1, of ?h p] Some s1(3) by auto
    have "set_position ?h None st2 = st2"
      using r(4) by (simp add: set_position_def fun_eq_iff)
    then show ?thesis
      using Some r by (simp add: rem_def unbucket_handle_def)
  qed
  then obtain B st2 where b: "rem = Some (B, st2)"
    and ok2: "pos_ok B st2" "same_stats st1 st2" "bucket_list_position (st2 ?h) = None"
    "\<And>k. k \<noteq> ?h \<Longrightarrow> map_option fst (bucket_list_position (st2 k)) = map_option fst (bucket_list_position (st1 k))"
    by blast
  let ?st' = "st2(?h := (st2 ?h)\<lparr>stat := Disabled\<rparr>)"
  let ?s' = "s\<lparr>st_handles := ?hs, st_buckets := B, st_global_stat := st_global_stat s - len\<rparr>"
  have mem: "?h \<in> set (st_handles s)"
    using i by simp
  have g: "st_global_stat s = sum_list (map (\<lambda>h. sval (stat (st h))) (st_handles s))"
    using v by simp
  note swap = distinct_swap_remove [OF conjunct1 [OF v] i]
  have stat2: "stat (st2 k) = stat (st k)" for k
    using ok2(2) s1 by (simp add: same_stats_def)
  then have stat': "stat (?st' k) = (if k = ?h then Disabled else stat (st k))" for k
    by simp
  have sum: "sum_list (map (\<lambda>k. sval (stat (?st' k))) ?hs) + len = st_global_stat s"
  proof -
    have "map (\<lambda>k. sval (stat (?st' k))) ?hs = map (\<lambda>k. sval (stat (st k))) ?hs"
    proof (rule map_cong_except [of ?h])
      show "?h \<notin> set ?hs"
        unfolding swap(2) by blast
    qed (simp add: stat2)
    then have "sum_list (map (\<lambda>k. sval (stat (?st' k))) ?hs) = sum_list (map (\<lambda>k. sval (stat (st k))) ?hs)"
      by (rule arg_cong)
    then have "sum_list (map (\<lambda>k. sval (stat (?st' k))) ?hs) = (\<Sum>k\<in>set (st_handles s) - {?h}. sval (stat (st k)))"
      using swap(1,2) by (simp add: sum_list_distinct_conv_sum_set)
    moreover have "(\<Sum>k\<in>set (st_handles s). sval (stat (st k))) = len + (\<Sum>k\<in>set (st_handles s) - {?h}. sval (stat (st k)))"
      using mem m by (simp add: sum.remove)
    moreover have "sum_list (map (\<lambda>k. sval (stat (st k))) (st_handles s)) = (\<Sum>k\<in>set (st_handles s). sval (stat (st k)))"
      using v by (simp add: sum_list_distinct_conv_sum_set)
    ultimately show ?thesis
      using g by simp
  qed
  have "poll_handle i s st = Some (False, ?s', ?st')"
    using m b sum by (simp add: poll_handle_def Let_def rem_def st1_def)
  moreover have "stats_inv ?s' ?st'"
    unfolding stats_inv_def
  proof (intro conjI allI)
    show "pos_ok (st_buckets ?s') ?st'"
      using ok2(1) by (simp add: pos_ok_def)
    show "map_option fst (bucket_list_position (?st' k)) = bucket_of (sval (stat (?st' k)))" for k
    proof (cases "k = ?h")
      case True
      then show ?thesis using ok2(3) by (simp add: bucket_of_def)
    next
      case False
      then show ?thesis using ok2(4) [OF False] s1(3) v stat2 by simp
    qed
    show "k \<in> set (st_handles ?s') \<longleftrightarrow> stat (?st' k) \<noteq> Disabled" for k
      using v swap(2) stat2 by simp
    show "distinct (st_handles ?s')" "st_global_stat ?s' = (\<Sum>h\<leftarrow>st_handles ?s'. sval (stat (?st' h)))"
      using swap(1) sum by simp_all
  qed
  ultimately show ?thesis
    using stat2 m ok2(2) s1(2) by (auto simp: polled_step_def polled_def same_stats_def)
qed

lemma poll_handle_update:
  assumes inv: "stats_inv s st" and i: "i < length (st_handles s)"
    and e: "stat (st (st_handles s ! i)) = Enabled len"
  shows "\<exists>s' st'. poll_handle i s st = Some (True, s', st') \<and> polled_step i s st True s' st'"
proof -
  let ?h = "st_handles s ! i"
  note v = inv [unfolded stats_inv_def]
  define st1 where "st1 = st(?h := (st ?h)\<lparr>stat_to_update := None\<rparr>)"
  show ?thesis
  proof (cases "stat_to_update (st ?h) = None \<or> stat_to_update (st ?h) = Some len")
    case True
    then have "poll_handle i s st = Some (True, s, st1)"
      using e by (auto simp: poll_handle_def Let_def st1_def)
    moreover have "stats_inv s st1"
      by (rule stats_inv_report [OF inv]) (simp add: st1_def)
    ultimately show ?thesis
      using e True by (auto simp: polled_step_def polled_def st1_def)
  next
    case False
    then obtain u where u: "stat_to_update (st ?h) = Some u" "u \<noteq> len"
      by auto
    define st2 where "st2 = st1(?h := (st1 ?h)\<lparr>stat := Enabled u\<rparr>)"
    have s2: "stat (st2 k) = (if k = ?h then Enabled u else stat (st k))"
      "k \<noteq> ?h \<Longrightarrow> stat_to_update (st2 k) = stat_to_update (st k)"
      "bucket_list_position (st2 k) = bucket_list_position (st k)" for k
      by (simp_all add: st2_def st1_def)
    have "pos_ok (st_buckets s) st2" "map_option fst (bucket_list_position (st2 ?h)) = bucket_of len"
      using v s2(3) e by (simp_all add: pos_ok_def)
    from bucket_update_ok [OF this, of u]
    obtain B st3 where b: "bucket_update ?h u (st_buckets s) st2 = Some (B, st3)" "pos_ok B st3" "same_stats st2 st3"
      "map_option fst (bucket_list_position (st3 ?h)) = bucket_of u"
      "\<And>k. k \<noteq> ?h \<Longrightarrow> map_option fst (bucket_list_position (st3 k)) = map_option fst (bucket_list_position (st2 k))"
      by blast
    let ?s' = "s\<lparr>st_global_stat := st_global_stat s + u - len, st_buckets := B\<rparr>"
    have s3: "stat (st3 k) = (if k = ?h then Enabled u else stat (st k))"
      "k \<noteq> ?h \<Longrightarrow> stat_to_update (st3 k) = stat_to_update (st k)" for k
      using b(3) s2 by (simp_all add: same_stats_def)
    have "sum_list (map (\<lambda>k. sval (stat (st3 k))) (st_handles s)) + sval (stat (st ?h))
        = sum_list (map (\<lambda>k. sval (stat (st k))) (st_handles s)) + sval (stat (st3 ?h))"
      by (rule sum_list_map_cong_except [OF conjunct1 [OF v] nth_mem [OF i]]) (simp add: s3(1))
    then have sum: "sum_list (map (\<lambda>k. sval (stat (st3 k))) (st_handles s)) = st_global_stat s + u - len"
      using v e s3(1) by simp
    have "poll_handle i s st = Some (True, ?s', st3)"
      using e u b(1) by (simp add: poll_handle_def Let_def st2_def st1_def)
    moreover have "stats_inv ?s' st3"
      unfolding stats_inv_def
    proof (intro conjI allI)
      show "map_option fst (bucket_list_position (st3 k)) = bucket_of (sval (stat (st3 k)))" for k
        using b(4) b(5) [of k] s2(3) v s3(1) by (cases "k = ?h") simp_all
      show "k \<in> set (st_handles ?s') \<longleftrightarrow> stat (st3 k) \<noteq> Disabled" for k
        using v s3(1) e i by simp
    qed (use b(2) v sum in simp_all)
    ultimately show ?thesis
      using e u s3 by (auto simp: polled_step_def polled_def)
  qed
qed

lemma poll_handle_ok:
  assumes "stats_inv s st" "i < length (st_handles s)"
  shows "\<exists>adv s' st'. poll_handle i s st = Some (adv, s', st') \<and> polled_step i s st adv s' st'"
proof (cases "stat (st (st_handles s ! i))")
  case Disabled
  then show ?thesis
    using assms by (auto simp: stats_inv_def)
qed (use poll_handle_disable [OF assms] poll_handle_update [OF assms] in blast)+

lemma poll_loop_ok:
  "stats_inv s st \<Longrightarrow> i \<le> length (st_handles s) \<Longrightarrow>
   (\<And>h. h \<in> set (drop i (st_handles s)) \<Longrightarrow> stat (st h) = stat (st0 h) \<and> stat_to_update (st h) = stat_to_update (st0 h)) \<Longrightarrow>
   (\<And>h. h \<notin> set (drop i (st_handles s)) \<Longrightarrow> stat (st h) = polled (st0 h)) \<Longrightarrow>
   \<exists>s' st'. poll_loop i s st = Some (s', st') \<and> stats_inv s' st' \<and> (\<forall>h. stat (st' h) = polled (st0 h))"
proof (induction i s st rule: poll_loop.induct)
  case (1 i s st)
  show ?case
  proof (cases "i < length (st_handles s)")
    case True
    let ?h = "st_handles s ! i"
    obtain adv s' st' where p: "poll_handle i s st = Some (adv, s', st')" and ps: "polled_step i s st adv s' st'"
      using poll_handle_ok [OF "1.prems"(1) True] by blast
    note step = ps [unfolded polled_step_def]
    let ?i = "if adv then i + 1 else i"
    have dist: "distinct (st_handles s)"
      using "1.prems"(1) by (simp add: stats_inv_def)
    have dropi: "drop i (st_handles s) = ?h # drop (Suc i) (st_handles s)"
      using True by (simp add: Cons_nth_drop_Suc)
    have rest: "set (drop ?i (st_handles s')) = set (drop i (st_handles s)) - {?h}"
    proof (cases adv)
      case adv: True
      have "?h \<notin> set (drop (Suc i) (st_handles s))"
        using dist dropi by (metis distinct.simps(2) distinct_drop)
      then show ?thesis
        using adv step dropi by auto
    next
      case False
      then show ?thesis
        using step distinct_swap_remove(3) [OF dist True] by simp
    qed
    have h0: "stat (st ?h) = stat (st0 ?h)" "stat_to_update (st ?h) = stat_to_update (st0 ?h)"
      using "1.prems"(3) [of ?h] dropi by auto
    have "polled (st ?h) = polled (st0 ?h)"
      unfolding polled_def h0 by (rule refl)
    then have ph: "stat (st' ?h) = polled (st0 ?h)"
      using step by simp
    have len: "?i \<le> length (st_handles s')"
      using True poll_handle_length [OF p True] by auto
    have unpolled: "stat (st' k) = stat (st0 k) \<and> stat_to_update (st' k) = stat_to_update (st0 k)"
      if "k \<in> set (drop ?i (st_handles s'))" for k
    proof -
      have k: "k \<in> set (drop i (st_handles s))" "k \<noteq> ?h"
        using that unfolding rest by auto
      then show ?thesis
        using "1.prems"(3) [OF k(1)] step by simp
    qed
    have done': "stat (st' k) = polled (st0 k)" if "k \<notin> set (drop ?i (st_handles s'))" for k
    proof (cases "k = ?h")
      case True
      then show ?thesis using ph by simp
    next
      case False
      then have "k \<notin> set (drop i (st_handles s))"
        using that unfolding rest by blast
      then show ?thesis
        using "1.prems"(4) step False by simp
    qed
    have "poll_loop i s st = poll_loop ?i s' st'"
      using True p by (subst poll_loop.simps) simp
    moreover have "\<exists>s'' st''. poll_loop ?i s' st' = Some (s'', st'') \<and> stats_inv s'' st'' \<and> (\<forall>h. stat (st'' h) = polled (st0 h))"
      by (rule "1.IH" [OF True p refl refl _ len unpolled done']) (use step in auto)
    ultimately show ?thesis
      by simp
  next
    case False
    then show ?thesis
      using "1.prems" by (subst poll_loop.simps) simp
  qed
qed

section \<open>Properties\<close>

lemma stats_poll_ok:
  assumes "stats_inv s st"
  shows "\<exists>s' st'. stats_poll s st = Some (s', st') \<and> stats_inv s' st' \<and> (\<forall>h. stat (st' h) = polled (st h))"
proof -
  have drop0: "set (drop 0 (st_handles s)) = {h. stat (st h) \<noteq> Disabled}"
    using assms by (auto simp: stats_inv_def)
  have "stat (st h) = polled (st h)" if "h \<notin> set (drop 0 (st_handles s))" for h
    using that unfolding drop0 by (simp add: polled_def)
  from poll_loop_ok [OF assms, of 0 st, OF _ _ this]
  obtain s' st' where p: "poll_loop 0 s st = Some (s', st')" "stats_inv s' st'" "\<forall>h. stat (st' h) = polled (st h)"
    by auto
  then show ?thesis
    by (simp add: stats_poll_def stats_inv_def)
qed

text \<open>C17: polling the load statistics never panics and ends: every handle marked by its connection is gone,
  every enabled one has the value last reported and sits in the bucket of that value, and the global load is
  the sum of the enabled values. Reports, marking and enabling a disabled handle keep the collector in a
  state where this holds.\<close>

theorem stats_poll_correct:
  assumes "stats_inv s st"
  shows "\<exists>s' st'. stats_poll s st = Some (s', st') \<and> stats_inv s' st'
    \<and> (\<forall>h. stat (st' h) = (case stat (st h) of
          Enabled v \<Rightarrow> Enabled (case stat_to_update (st h) of Some u \<Rightarrow> u | None \<Rightarrow> v) | _ \<Rightarrow> Disabled))
    \<and> st_global_stat s' = (\<Sum>h\<leftarrow>st_handles s'. case stat (st' h) of Enabled v \<Rightarrow> v | _ \<Rightarrow> 0)
    \<and> stats_inv s (handle_set h n st) \<and> stats_inv s (handle_increment h st) \<and> stats_inv s (handle_disable h st)
    \<and> (\<forall>old n s1 st1. stat (st h) = Disabled \<longrightarrow> handle_enable h old n s st = Some (s1, st1) \<longrightarrow> stats_inv s1 st1)"
proof -
  obtain s' st' where p: "stats_poll s st = Some (s', st')" "stats_inv s' st'" "\<forall>h. stat (st' h) = polled (st h)"
    using stats_poll_ok [OF assms] by blast
  have pol: "polled h = (case stat h of
      Enabled v \<Rightarrow> Enabled (case stat_to_update h of Some u \<Rightarrow> u | None \<Rightarrow> v) | _ \<Rightarrow> Disabled)" for h
    by (simp add: polled_def split: stat.split)
  have "sval (stat (st' h)) = (case stat (st' h) of Enabled v \<Rightarrow> v | _ \<Rightarrow> 0)" for h
    using p(3) by (simp add: polled_def split: stat.split)
  then have "st_global_stat s' = (\<Sum>h\<leftarrow>st_handles s'. case stat (st' h) of Enabled v \<Rightarrow> v | _ \<Rightarrow> 0)"
    using p(2) by (simp add: stats_inv_def)
  then show ?thesis
    using p(1,2) p(3) [unfolded pol] stats_inv_handle [OF assms] enable_inv [OF assms] by blast
qed

text \<open>A store in which handle 1 has reported two requests and handle 2 is marked.\<close>

definition demo_store :: hstore where
  "demo_store = (\<lambda>h. if h = 1 then (sh_new ((1, 80), (2, 5000)))\<lparr>stat := Enabled 3, stat_to_update := Some 12,
       bucket_list_position := Some (0, 0), handles_index := Some 0\<rparr>
     else if h = 2 then (sh_new ((1, 80), (2, 5001)))\<lparr>stat := MarkedForDisable 9,
       bucket_list_position := Some (1, 0)\<rparr>
     else sh_new ((0, 0), (0, 0)))"

definition demo_stats :: stats where
  "demo_stats = (stats_new 4 None None)\<lparr>st_global_stat := 12, st_buckets := [[1], [2]], st_handles := [1, 2]\<rparr>"

lemma demo_stats_inv: "stats_inv demo_stats demo_store"
  unfolding stats_inv_def
proof (intro conjI allI)
  show "pos_ok (st_buckets demo_stats) demo_store"
    unfolding pos_ok_def
    by (auto simp: demo_stats_def demo_store_def sh_new_def less_Suc_eq nth_Cons split: nat.splits)
qed (auto simp: demo_stats_def demo_store_def sh_new_def bucket_of_def)

theorem stats_poll_correct_witness:
  "\<exists>s' st'. stats_poll demo_stats demo_store = Some (s', st') \<and> stats_inv s' st'
    \<and> stat (st' 1) = Enabled 12 \<and> stat (st' 2) = Disabled"
  using stats_poll_correct [OF demo_stats_inv, of 1 5] by (auto simp: demo_store_def sh_new_def)

text \<open>a handle that is enabled again before the collector has polled, as when the switch rejects a migration
  at once, is counted twice in the global load, and the surplus stays: it is the value the handle had.\<close>

theorem reenable_counts_twice:
  assumes "stats_inv s st" "stat (st h) = Enabled v"
  shows "\<exists>s' st'. handle_enable h True n s (handle_disable h st) = Some (s', st')
    \<and> st_global_stat s' = (\<Sum>k\<leftarrow>st_handles s'. sval (stat (st' k))) + v"
proof -
  let ?st = "(handle_disable h st)(h := (handle_disable h st h)\<lparr>stat_right_before_disable := None, stat := Enabled v\<rparr>)"
  have "handle_enable h True n s (handle_disable h st) = Some (s\<lparr>st_global_stat := st_global_stat s + v\<rparr>, ?st)"
    using assms(2) by (simp add: handle_enable_def handle_disable_def sh_disable_def Let_def)
  moreover have "sval (stat (?st k)) = sval (stat (st k))" for k
    using assms(2) by (simp add: handle_disable_def sh_disable_def)
  ultimately show ?thesis
    using assms(1) by (simp add: stats_inv_def)
qed

theorem reenable_counts_twice_witness:
  "\<exists>s' st'. handle_enable 1 True 0 demo_stats (handle_disable 1 demo_store) = Some (s', st')
    \<and> st_global_stat s' = (\<Sum>k\<leftarrow>st_handles s'. sval (stat (st' k))) + 3"
  by (rule reenable_counts_twice [OF demo_stats_inv]) (simp add: demo_store_def)

section \<open>The choice of connections\<close>

lemma distinct_concat_nth:
  "(\<And>i j i' j'. i < length B \<Longrightarrow> j < length (B ! i) \<Longrightarrow> i' < length B \<Longrightarrow> j' < length (B ! i') \<Longrightarrow>
     B ! i ! j = B ! i' ! j' \<Longrightarrow> i = i' \<and> j = j') \<Longrightarrow> distinct (concat B)"
proof (induction B)
  case (Cons b B)
  have "distinct b"
    unfolding distinct_conv_nth
  proof (intro allI impI notI)
    fix i j
    assume "i < length b" "j < length b" "i \<noteq> j" "b ! i = b ! j"
    then show False
      using Cons.prems [of 0 i 0 j] by simp
  qed
  moreover have "distinct (concat B)"
  proof (rule Cons.IH)
    fix i j i' j'
    assume a: "i < length B" "j < length (B ! i)" "i' < length B" "j' < length (B ! i')" "B ! i ! j = B ! i' ! j'"
    show "i = i' \<and> j = j'"
      using Cons.prems [of "Suc i" j "Suc i'" j', simplified, OF a] .
  qed
  moreover have "x \<notin> set c" if xc: "x \<in> set b" "c \<in> set B" for x c
  proof
    assume "x \<in> set c"
    then obtain j' where j': "j' < length c" "c ! j' = x"
      by (auto simp: in_set_conv_nth)
    obtain j where "j < length b" "b ! j = x"
      using xc(1) by (auto simp: in_set_conv_nth)
    moreover obtain i where "i < length B" "B ! i = c"
      using xc(2) by (auto simp: in_set_conv_nth)
    ultimately show False
      using j' Cons.prems [of 0 j "Suc i" j'] by simp
  qed
  ultimately show ?case
    by auto
qed simp

lemma pos_ok_distinct:
  assumes "pos_ok B st"
  shows "distinct (concat B)" "h \<in> set (concat B) \<longleftrightarrow> bucket_list_position (st h) \<noteq> None"
proof -
  note c = assms [unfolded pos_ok_def, rule_format]
  show "distinct (concat B)"
  proof (rule distinct_concat_nth)
    fix i j i' j'
    assume "i < length B" "j < length (B ! i)" "i' < length B" "j' < length (B ! i')" "B ! i ! j = B ! i' ! j'"
    then show "i = i' \<and> j = j'"
      using c [of "B ! i ! j" i j] c [of "B ! i ! j" i' j'] by simp
  qed
  have "(\<exists>b\<in>set B. h \<in> set b) \<longleftrightarrow> (\<exists>i j. i < length B \<and> j < length (B ! i) \<and> B ! i ! j = h)"
    by (metis in_set_conv_nth)
  then show "h \<in> set (concat B) \<longleftrightarrow> bucket_list_position (st h) \<noteq> None"
    using c [of h] by auto
qed

lemma mset_visit_order: "mset (visit_order n B) = mset (concat B)"
proof -
  have rv: "mset (concat (map rev xss)) = mset (concat xss)" "mset (concat (rev xss)) = mset (concat xss)" for xss :: "href list list"
    by (induction xss) simp_all
  have "mset (visit_order n B) = mset (concat (drop n B)) + mset (concat (take n B))"
    by (simp add: visit_order_def rv rev_map [symmetric])
  also have "\<dots> = mset (concat (take n B @ drop n B))"
    by (simp only: concat_append mset_append add.commute)
  finally show ?thesis
    by simp
qed

text \<open>The buckets hold exactly the handles that count, in an order without repetition.\<close>

lemma visit_order_sum:
  assumes "stats_inv s st"
  shows "distinct (visit_order n (st_buckets s))"
    "set (visit_order n (st_buckets s)) = {h \<in> set (st_handles s). 0 < sval (stat (st h))}"
    "(\<Sum>h\<leftarrow>visit_order n (st_buckets s). sval (stat (st h))) = st_global_stat s"
proof -
  note v = assms [unfolded stats_inv_def]
  let ?o = "visit_order n (st_buckets s)"
  have m: "mset ?o = mset (concat (st_buckets s))"
    by (rule mset_visit_order)
  show d: "distinct ?o"
    using m pos_ok_distinct(1) [of "st_buckets s" st] v mset_eq_imp_distinct_iff by blast
  have "h \<in> set ?o \<longleftrightarrow> 0 < sval (stat (st h))" for h
  proof -
    have "h \<in> set ?o \<longleftrightarrow> bucket_list_position (st h) \<noteq> None"
      using mset_eq_setD [OF m] pos_ok_distinct(2) [of "st_buckets s" st h] v by metis
    also have "\<dots> \<longleftrightarrow> bucket_of (sval (stat (st h))) \<noteq> None"
      using v by (metis option.map_disc_iff)
    finally show ?thesis
      by (simp add: bucket_of_def)
  qed
  moreover have "h \<in> set (st_handles s)" if "0 < sval (stat (st h))" for h
  proof -
    have "stat (st h) \<noteq> Disabled"
      using that by auto
    then show ?thesis
      using v by simp
  qed
  ultimately show set: "set ?o = {h \<in> set (st_handles s). 0 < sval (stat (st h))}"
    by (intro set_eqI) blast
  have "(\<Sum>h\<leftarrow>?o. sval (stat (st h))) = (\<Sum>h\<in>set ?o. sval (stat (st h)))"
    using d by (simp add: sum_list_distinct_conv_sum_set)
  also have "\<dots> = (\<Sum>h\<in>set (st_handles s). sval (stat (st h)))"
    unfolding set by (rule sum.mono_neutral_left) auto
  also have "\<dots> = st_global_stat s"
    using v by (simp add: sum_list_distinct_conv_sum_set)
  finally show "(\<Sum>h\<leftarrow>?o. sval (stat (st h))) = st_global_stat s" .
qed

text \<open>The limit on the number of migrations that are left, if there is one.\<close>

definition within_quota :: "nat \<Rightarrow> int option \<Rightarrow> bool" where
  "within_quota n q \<longleftrightarrow> (case q of None \<Rightarrow> True | Some m \<Rightarrow> int n \<le> m)"

definition quota_used :: "nat \<Rightarrow> int option \<Rightarrow> int option" where
  "quota_used n q = map_option (\<lambda>m. m - int n) q"

lemma quota_simps: "within_quota (Suc 0) q \<Longrightarrow> within_quota 0 q" "quota_used 0 q = q"
  "quota_used n (quota_used (Suc 0) q) = quota_used (Suc n) q"
  "within_quota n (quota_used (Suc 0) q) \<longleftrightarrow> within_quota (Suc n) q"
  "quota_used (Suc 0) q = Some (int n) \<longleftrightarrow> q = Some (int (Suc n))"
  "(case quota_used (Suc 0) q of Some m \<Rightarrow> m \<le> 0 | None \<Rightarrow> False) \<longleftrightarrow> q \<noteq> None \<and> \<not> within_quota 2 q"
  by (cases q; auto simp: within_quota_def quota_used_def)+

lemma pick_connections_spec:
  assumes "\<forall>h\<in>set hs. \<exists>v. stat (st h) = Enabled v" "length conns < MAX_EXTRACTED_CONNECTIONS" "g - r > t" "within_quota 1 q"
  shows "\<exists>n \<le> length hs. pick_connections g t st hs conns r q = Some (conns @ map (\<lambda>h. conn (st h)) (take n hs), quota_used n q)
    \<and> length conns + n \<le> MAX_EXTRACTED_CONNECTIONS \<and> within_quota n q
    \<and> (n = length hs \<or> length conns + n = MAX_EXTRACTED_CONNECTIONS \<or> q = Some (int n)
        \<or> g - (r + (\<Sum>h\<leftarrow>take n hs. sval (stat (st h)))) \<le> t)
    \<and> (\<forall>m<n. g - (r + (\<Sum>h\<leftarrow>take m hs. sval (stat (st h)))) > t)"
  using assms
proof (induction hs arbitrary: conns r q)
  case Nil
  then show ?case
    by (simp add: quota_simps)
next
  case (Cons h hs)
  obtain v where v: "stat (st h) = Enabled v"
    using Cons.prems(1) by auto
  let ?c = "conns @ [conn (st h)]" and ?q = "quota_used (Suc 0) q"
  have quota: "map_option (\<lambda>m. m - 1) q = ?q"
    by (simp add: quota_used_def)
  let ?stop = "q \<noteq> None \<and> \<not> within_quota 2 q"
  show ?case
  proof (cases "?stop \<or> g - (r + v) \<le> t \<or> length ?c = MAX_EXTRACTED_CONNECTIONS")
    case True
    then have "pick_connections g t st (h # hs) conns r q = Some (?c, ?q)"
      using v by (auto simp: Let_def quota quota_simps)
    moreover have "?stop \<Longrightarrow> q = Some (int 1)"
      using Cons.prems(4) by (auto simp: within_quota_def)
    ultimately show ?thesis
      using True v Cons.prems(2,3,4) by (intro exI [of _ 1]) auto
  next
    case False
    then have step: "pick_connections g t st (h # hs) conns r q = pick_connections g t st hs ?c (r + v) ?q"
      using v by (auto simp: Let_def quota quota_simps)
    have "within_quota 1 ?q"
      using False by (cases q) (auto simp: within_quota_def quota_used_def)
    then obtain n where n: "n \<le> length hs" "pick_connections g t st hs ?c (r + v) ?q = Some (?c @ map (\<lambda>h. conn (st h)) (take n hs), quota_used n ?q)"
      "length ?c + n \<le> MAX_EXTRACTED_CONNECTIONS" "within_quota n ?q"
      "n = length hs \<or> length ?c + n = MAX_EXTRACTED_CONNECTIONS \<or> ?q = Some (int n) \<or> g - (r + v + (\<Sum>h\<leftarrow>take n hs. sval (stat (st h)))) \<le> t"
      "\<And>m. m < n \<Longrightarrow> g - (r + v + (\<Sum>h\<leftarrow>take m hs. sval (stat (st h)))) > t"
      using Cons.IH [of ?c "r + v" ?q] Cons.prems False by auto
    have "g - (r + (\<Sum>h\<leftarrow>take m (h # hs). sval (stat (st h)))) > t" if "m < Suc n" for m
      using that n(6) [of "m - 1"] Cons.prems(3) v by (cases m) (simp_all add: add.assoc)
    then show ?thesis
      using n(1,2,3,5) n(4) [unfolded quota_simps] step v
      by (intro exI [of _ "Suc n"]) (auto simp: add.assoc quota_simps simp del: of_nat_Suc)
  qed
qed

text \<open>C18: right after a poll the choice of connections to migrate does not panic. It is empty when the global load does not
  exceed the threshold or the limit on migrations (\<^verbatim>\<open>MAX_PROACTIVE_MIGS\<close>) is used up. Otherwise it names connections of
  distinct handles, at most twenty and no more than the limit, which is reduced by their number; without them the load
  is back at the threshold, or else they are twenty, or use up the limit; and it takes no more than needed.\<close>

theorem proactive_choice:
  assumes "stats_inv s st" "\<forall>h\<in>set (st_handles s). \<exists>v. stat (st h) = Enabled v"
  shows "if st_global_stat s \<le> st_threshold s \<or> (\<exists>v\<le>0. st_max_proactive_migrations s = Some v)
    then connections_to_proactively_migrate s st = Some (None, s)
    else \<exists>hs. connections_to_proactively_migrate s st = Some (Some (map (\<lambda>h. conn (st h)) hs),
          s\<lparr>st_max_proactive_migrations := map_option (\<lambda>v. v - int (length hs)) (st_max_proactive_migrations s)\<rparr>)
      \<and> hs \<noteq> [] \<and> distinct hs \<and> set hs \<subseteq> set (st_handles s) \<and> length hs \<le> MAX_EXTRACTED_CONNECTIONS
      \<and> (\<forall>v. st_max_proactive_migrations s = Some v \<longrightarrow> int (length hs) \<le> v)
      \<and> (st_global_stat s - (\<Sum>h\<leftarrow>hs. sval (stat (st h))) \<le> st_threshold s \<or> length hs = MAX_EXTRACTED_CONNECTIONS
          \<or> st_max_proactive_migrations s = Some (int (length hs)))
      \<and> (\<forall>m < length hs. st_global_stat s - (\<Sum>h\<leftarrow>take m hs. sval (stat (st h))) > st_threshold s)"
proof (cases "st_global_stat s \<le> st_threshold s \<or> (\<exists>v\<le>0. st_max_proactive_migrations s = Some v)")
  case True
  then show ?thesis
    by (auto simp: connections_to_proactively_migrate_def split: option.split)
next
  case False
  define b where "b = min ((st_global_stat s - st_threshold s) div 2 ^ BUCKET_SIZE_LOG2) (length (st_buckets s))"
  let ?o = "visit_order b (st_buckets s)" and ?g = "st_global_stat s" and ?t = "st_threshold s" and ?q = "st_max_proactive_migrations s"
  have g: "?t < ?g" and q: "within_quota 1 ?q" "\<not> (case ?q of Some v \<Rightarrow> v \<le> 0 | None \<Rightarrow> False)"
    using False by (cases ?q; force simp: within_quota_def)+
  note vo = visit_order_sum [OF assms(1), of b]
  have "\<forall>h\<in>set ?o. \<exists>v. stat (st h) = Enabled v"
    using assms(2) vo(2) by auto
  then obtain n where n: "n \<le> length ?o"
    "pick_connections ?g ?t st ?o [] 0 ?q = Some (map (\<lambda>h. conn (st h)) (take n ?o), quota_used n ?q)"
    "n \<le> MAX_EXTRACTED_CONNECTIONS" "within_quota n ?q"
    "n = length ?o \<or> n = MAX_EXTRACTED_CONNECTIONS \<or> ?q = Some (int n) \<or> ?g - (\<Sum>h\<leftarrow>take n ?o. sval (stat (st h))) \<le> ?t"
    "\<And>m. m < n \<Longrightarrow> ?g - (\<Sum>h\<leftarrow>take m ?o. sval (stat (st h))) > ?t"
    using pick_connections_spec [of ?o st "[]" ?t ?g 0 ?q] g q(1) by (auto simp: MAX_EXTRACTED_CONNECTIONS_def)
  have choose: "connections_to_proactively_migrate s st = Some (Some (map (\<lambda>h. conn (st h)) (take n ?o)),
      s\<lparr>st_max_proactive_migrations := quota_used n ?q\<rparr>)"
    using g q(2) n(2) by (simp add: connections_to_proactively_migrate_def Let_def b_def)
  have "n \<noteq> 0"
  proof
    assume "n = 0"
    then have "?o = []"
      using n(5) g q(1) by (auto simp: MAX_EXTRACTED_CONNECTIONS_def within_quota_def)
    then show False
      using vo(3) g by simp
  qed
  then have ne: "take n ?o \<noteq> []"
    using n(1) by auto
  have "?g - (\<Sum>h\<leftarrow>take n ?o. sval (stat (st h))) \<le> ?t \<or> n = MAX_EXTRACTED_CONNECTIONS \<or> ?q = Some (int n)"
    using n(5) vo(3) by auto
  moreover have "length (take n ?o) = n" "\<forall>v. ?q = Some v \<longrightarrow> int n \<le> v"
    using n(1,4) by (auto simp: within_quota_def)
  ultimately show ?thesis
    using False choose ne vo(1,2) n(3,6) set_take_subset [of n ?o]
    by (simp only: if_False) (intro exI [of _ "take n ?o"], auto simp: min_def quota_used_def)
qed

theorem proactive_choice_witness:
  "\<exists>hs. connections_to_proactively_migrate
      (demo_stats\<lparr>st_global_stat := 3, st_threshold := 1, st_buckets := [[1], []], st_handles := [1], st_max_proactive_migrations := Some 5\<rparr>)
      (demo_store(2 := sh_new ((0, 0), (0, 0))))
    = Some (Some (map (\<lambda>h. conn ((demo_store(2 := sh_new ((0, 0), (0, 0)))) h)) hs),
        demo_stats\<lparr>st_global_stat := 3, st_threshold := 1, st_buckets := [[1], []], st_handles := [1],
          st_max_proactive_migrations := Some (5 - int (length hs))\<rparr>) \<and> hs \<noteq> []"
proof -
  let ?s = "demo_stats\<lparr>st_global_stat := 3, st_threshold := 1, st_buckets := [[1], []], st_handles := [1], st_max_proactive_migrations := Some 5\<rparr>"
  let ?st = "demo_store(2 := sh_new ((0, 0), (0, 0)))"
  have inv: "stats_inv ?s ?st"
    unfolding stats_inv_def
  proof (intro conjI allI)
    show "pos_ok (st_buckets ?s) ?st"
      unfolding pos_ok_def
      by (auto simp: demo_stats_def demo_store_def sh_new_def less_Suc_eq nth_Cons split: nat.splits)
  qed (auto simp: demo_stats_def demo_store_def sh_new_def bucket_of_def)
  have en: "\<forall>h\<in>set (st_handles ?s). \<exists>v. stat (?st h) = Enabled v"
    by (simp add: demo_store_def)
  show ?thesis
    using proactive_choice [OF inv en] by auto
qed

end
