(* ===== verification/Mig_Codec.thy ===== *)
theory Mig_Codec
  imports Conn_States
begin

text \<open>
  The traits \<^verbatim>\<open>Serialize\<close> and \<^verbatim>\<open>Deserialize\<close> by which a connection's state travels to another
  server (\<^verbatim>\<open>tcp/peer.rs\<close>, module \<^verbatim>\<open>state\<close>; implementations in \<^verbatim>\<open>established/ctrlblk.rs\<close> and
  \<^verbatim>\<open>established/sender.rs\<close>). A serializer takes the buffer that is left and returns what it wrote and
  the unused rest; a deserializer returns the value and the rest of its input. \<open>None\<close> is a panic.
  The locale \<open>codec\<close> is the contract between the two; generic containers are codecs whenever their
  elements are, which is proved once inside it.
\<close>

section \<open>The contract\<close>

type_synonym 'a serializer = "'a \<Rightarrow> bytes \<Rightarrow> (bytes \<times> bytes) option"
type_synonym 'a deserializer = "bytes \<Rightarrow> ('a \<times> bytes) option"

section \<open>Containers\<close>

fun serialize_all :: "'a serializer \<Rightarrow> 'a list serializer" where
  "serialize_all ser [] buf = Some ([], buf)"
| "serialize_all ser (e # es) buf =
     (case ser e buf of
        None \<Rightarrow> None
      | Some (w, rest) \<Rightarrow>
          (case serialize_all ser es rest of
             None \<Rightarrow> None
           | Some (ws, rest) \<Rightarrow> Some (w @ ws, rest)))"

definition serialize_vecdeque :: "'a serializer \<Rightarrow> 'a list serializer" where
  "serialize_vecdeque ser es buf =
     (if length es \<ge> 2 ^ 32 \<or> length buf < 4 then None
      else case serialize_all ser es (drop 4 buf) of
             None \<Rightarrow> None
           | Some (w, rest) \<Rightarrow> Some (be32 (of_nat (length es)) @ w, rest))"

fun deserialize_n :: "'a deserializer \<Rightarrow> nat \<Rightarrow> 'a list deserializer" where
  "deserialize_n de 0 buf = Some ([], buf)"
| "deserialize_n de (Suc n) buf =
     (case de buf of
        None \<Rightarrow> None
      | Some (e, buf) \<Rightarrow>
          (case deserialize_n de n buf of
             None \<Rightarrow> None
           | Some (es, buf) \<Rightarrow> Some (e # es, buf)))"

definition deserialize_vecdeque :: "'a deserializer \<Rightarrow> 'a list deserializer" where
  "deserialize_vecdeque de buf =
     (if length buf < 4 then None else deserialize_n de (unat (read_u32 buf 0)) (drop 4 buf))"

definition serialize_option :: "'a serializer \<Rightarrow> 'a option serializer" where
  "serialize_option ser v buf =
     (if buf = [] then None
      else case v of
             Some e \<Rightarrow> (case ser e (drop 1 buf) of None \<Rightarrow> None | Some (w, rest) \<Rightarrow> Some (1 # w, rest))
           | None \<Rightarrow> Some ([0], drop 1 buf))"

definition deserialize_option :: "'a deserializer \<Rightarrow> 'a option deserializer" where
  "deserialize_option de buf =
     (case buf of
        [] \<Rightarrow> None
      | discriminant # buf \<Rightarrow>
          if discriminant = 0 then Some (None, buf)
          else if discriminant = 1 then
            (case de buf of None \<Rightarrow> None | Some (v, buf) \<Rightarrow> Some (Some v, buf))
          else None)"

text \<open>The encodings, for the laws.\<close>

definition enc_vecdeque :: "('a \<Rightarrow> bytes) \<Rightarrow> 'a list \<Rightarrow> bytes" where
  "enc_vecdeque enc es = be32 (of_nat (length es)) @ concat (map enc es)"

definition enc_option :: "('a \<Rightarrow> bytes) \<Rightarrow> 'a option \<Rightarrow> bytes" where
  "enc_option enc v = (case v of None \<Rightarrow> [0] | Some e \<Rightarrow> 1 # enc e)"

text \<open>
  \<open>enc\<close> is the wire image, \<open>fits\<close> says which values can be written, and \<open>norm\<close> what is left of a value
  after the journey (some fields do not travel).
\<close>

locale codec =
  fixes ser :: "'a serializer" and de :: "'a deserializer"
    and enc :: "'a \<Rightarrow> bytes" and norm :: "'a \<Rightarrow> 'a" and fits :: "'a \<Rightarrow> bool"
  assumes ser_enc: "fits x \<Longrightarrow> length (enc x) \<le> length buf \<Longrightarrow> ser x buf = Some (enc x, drop (length (enc x)) buf)"
    and de_enc: "fits x \<Longrightarrow> de (enc x @ r) = Some (norm x, r)"
begin

lemma serialize_all_enc:
  "list_all fits es \<Longrightarrow> length (concat (map enc es)) \<le> length buf \<Longrightarrow>
   serialize_all ser es buf = Some (concat (map enc es), drop (length (concat (map enc es))) buf)"
  by (induction es arbitrary: buf) (simp_all add: ser_enc add.commute)

lemma deserialize_n_enc:
  "list_all fits es \<Longrightarrow> deserialize_n de (length es) (concat (map enc es) @ r) = Some (map norm es, r)"
  by (induction es) (simp_all add: de_enc)

lemma vecdeque_codec:
  "codec (serialize_vecdeque ser) (deserialize_vecdeque de) (enc_vecdeque enc) (map norm)
     (\<lambda>es. length es < 2 ^ 32 \<and> list_all fits es)"
proof
  fix es :: "'a list" and buf r :: bytes
  assume fit: "length es < 2 ^ 32 \<and> list_all fits es"
  show "length (enc_vecdeque enc es) \<le> length buf \<Longrightarrow>
      serialize_vecdeque ser es buf = Some (enc_vecdeque enc es, drop (length (enc_vecdeque enc es)) buf)"
    using fit by (simp add: serialize_vecdeque_def enc_vecdeque_def serialize_all_enc add.commute)
  have "unat (of_nat (length es) :: u32) = length es"
    using fit by (simp add: unat_of_nat_u32)
  then show "deserialize_vecdeque de (enc_vecdeque enc es @ r) = Some (map norm es, r)"
    using fit by (simp add: deserialize_vecdeque_def enc_vecdeque_def deserialize_n_enc)
qed

lemma option_codec:
  "codec (serialize_option ser) (deserialize_option de) (enc_option enc) (map_option norm)
     (\<lambda>v. \<forall>e. v = Some e \<longrightarrow> fits e)"
proof
  fix v :: "'a option" and buf r :: bytes
  assume fit: "\<forall>e. v = Some e \<longrightarrow> fits e"
  show "length (enc_option enc v) \<le> length buf \<Longrightarrow>
      serialize_option ser v buf = Some (enc_option enc v, drop (length (enc_option enc v)) buf)"
    using fit by (cases v; cases buf) (auto simp: serialize_option_def enc_option_def ser_enc)
  show "deserialize_option de (enc_option enc v @ r) = Some (map_option norm v, r)"
    using fit by (auto simp: deserialize_option_def enc_option_def de_enc split: option.split)
qed

end

section \<open>Base types\<close>

definition serialize_buffer :: "bytes serializer" where
  "serialize_buffer b buf =
     (if length b \<ge> 2 ^ 32 \<or> length buf < 4 + length b then None
      else Some (be32 (of_nat (length b)) @ b, drop (4 + length b) buf))"

definition deserialize_buffer :: "bytes deserializer" where
  "deserialize_buffer buf =
     (if length buf < 4 then None
      else let len = unat (read_u32 buf 0); buf = drop 4 buf
           in if length buf < len then None
              else case buf_trim (length buf - len) buf of
                     None \<Rightarrow> None
                   | Some b \<Rightarrow> (case buf_adjust len buf of None \<Rightarrow> None | Some buf \<Rightarrow> Some (b, buf)))"

definition serialize_seq :: "seq serializer" where
  "serialize_seq s buf = (if length buf < 4 then None else Some (be32 s, drop 4 buf))"

definition deserialize_seq :: "seq deserializer" where
  "deserialize_seq buf = (if length buf < 4 then None else Some (read_u32 buf 0, drop 4 buf))"

definition serialize_stored :: "(seq \<times> bytes) serializer" where
  "serialize_stored e buf =
     (if length buf < 4 then None
      else case serialize_buffer (snd e) (drop 4 buf) of
             None \<Rightarrow> None
           | Some (w, rest) \<Rightarrow> Some (be32 (fst e) @ w, rest))"

definition deserialize_stored :: "(seq \<times> bytes) deserializer" where
  "deserialize_stored buf =
     (if length buf < 4 then None
      else case deserialize_buffer (drop 4 buf) of
             None \<Rightarrow> None
           | Some (b, rest) \<Rightarrow> Some ((read_u32 buf 0, b), rest))"

definition enc_buffer :: "bytes \<Rightarrow> bytes" where
  "enc_buffer b = be32 (of_nat (length b)) @ b"

lemma length_enc_buffer [simp]: "length (enc_buffer b) = 4 + length b"
  by (simp add: enc_buffer_def)

interpretation buffer_codec: codec serialize_buffer deserialize_buffer enc_buffer "\<lambda>b. b" "\<lambda>b. length b < 2 ^ 32"
proof
  fix b buf r :: bytes
  assume b: "length b < 2 ^ 32"
  show "length (enc_buffer b) \<le> length buf \<Longrightarrow>
      serialize_buffer b buf = Some (enc_buffer b, drop (length (enc_buffer b)) buf)"
    using b by (simp add: serialize_buffer_def enc_buffer_def)
  have "unat (of_nat (length b) :: u32) = length b"
    using b by (simp add: unat_of_nat_u32)
  then show "deserialize_buffer (enc_buffer b @ r) = Some (b, r)"
    by (simp add: deserialize_buffer_def enc_buffer_def Let_def buf_ops)
qed

interpretation seq_codec: codec serialize_seq deserialize_seq be32 "\<lambda>s. s" "\<lambda>_. True"
  by unfold_locales (simp_all add: serialize_seq_def deserialize_seq_def)

interpretation stored_codec: codec serialize_stored deserialize_stored
  "\<lambda>(s, b). be32 s @ enc_buffer b" "\<lambda>e. e" "\<lambda>e. length (snd e) < 2 ^ 32"
proof
  fix e :: "seq \<times> bytes" and buf r :: bytes
  assume fit: "length (snd e) < 2 ^ 32"
  obtain s b where e: "e = (s, b)"
    by fastforce
  show "length (case e of (s, b) \<Rightarrow> be32 s @ enc_buffer b) \<le> length buf \<Longrightarrow> serialize_stored e buf =
      Some (case e of (s, b) \<Rightarrow> be32 s @ enc_buffer b, drop (length (case e of (s, b) \<Rightarrow> be32 s @ enc_buffer b)) buf)"
    using fit by (simp add: e serialize_stored_def buffer_codec.ser_enc ac_simps)
  show "deserialize_stored ((case e of (s, b) \<Rightarrow> be32 s @ enc_buffer b) @ r) = Some (e, r)"
    using fit by (simp add: e deserialize_stored_def buffer_codec.de_enc)
qed

interpretation buffers_codec: codec "serialize_vecdeque serialize_buffer" "deserialize_vecdeque deserialize_buffer"
  "enc_vecdeque enc_buffer" "map (\<lambda>b. b)" "\<lambda>es. length es < 2 ^ 32 \<and> list_all (\<lambda>b. length b < 2 ^ 32) es"
  by (rule buffer_codec.vecdeque_codec)

interpretation seq_option_codec: codec "serialize_option serialize_seq" "deserialize_option deserialize_seq"
  "enc_option be32" "map_option (\<lambda>s. s)" "\<lambda>v. \<forall>e. v = Some e \<longrightarrow> True"
  by (rule seq_codec.option_codec)

interpretation stored_queue_codec: codec "serialize_vecdeque serialize_stored" "deserialize_vecdeque deserialize_stored"
  "enc_vecdeque (\<lambda>(s, b). be32 s @ enc_buffer b)" "map (\<lambda>e. e)"
  "\<lambda>es. length es < 2 ^ 32 \<and> list_all (\<lambda>e. length (snd e) < 2 ^ 32) es"
  by (rule stored_codec.vecdeque_codec)

end
