(* ===== verification/Mig_State.thy ===== *)
theory Mig_State
  imports Mig_Codec
begin

text \<open>
  What travels when a connection migrates: \<^verbatim>\<open>SenderState\<close> (\<^verbatim>\<open>established/sender.rs\<close>),
  \<^verbatim>\<open>ReceiverState\<close> and \<^verbatim>\<open>ControlBlockState\<close> (\<^verbatim>\<open>established/ctrlblk.rs\<close>) and \<^verbatim>\<open>TcpState\<close>
  (\<^verbatim>\<open>tcp/peer.rs\<close>), the conversions from and to the live structures, and their wire format.
\<close>

section \<open>The sender's state\<close>

record sender_state =
  ss_unsent_seq_no :: seq
  ss_send_unacked :: seq
  ss_send_next :: seq
  ss_send_window :: u32
  ss_send_window_last_update_seq :: seq
  ss_send_window_last_update_ack :: seq
  ss_mss :: u32
  ss_window_scale :: u8
  ss_unacked_queue :: "unacked_segment list"
  ss_unsent_queue :: "bytes list"

text \<open>The conversion takes the queues out of the live sender; an MSS beyond 32 bits panics.\<close>

definition sender_into_state :: "sender \<Rightarrow> (sender_state \<times> sender) option" where
  "sender_into_state s =
     (if mss s \<ge> 2 ^ 32 then None
      else Some (\<lparr>ss_unsent_seq_no = unsent_seq_no s, ss_send_unacked = send_unacked s,
         ss_send_next = send_next s, ss_send_window = send_window s,
         ss_send_window_last_update_seq = send_window_last_update_seq s,
         ss_send_window_last_update_ack = send_window_last_update_ack s,
         ss_mss = of_nat (mss s), ss_window_scale = snd_window_scale s,
         ss_unacked_queue = unacked_queue s, ss_unsent_queue = unsent_queue s\<rparr>,
         s\<lparr>unacked_queue := [], unsent_queue := []\<rparr>))"

definition sender_from_state :: "sender_state \<Rightarrow> sender" where
  "sender_from_state st =
     \<lparr>send_unacked = ss_send_unacked st, unacked_queue = ss_unacked_queue st, send_next = ss_send_next st,
      unsent_queue = ss_unsent_queue st, unsent_seq_no = ss_unsent_seq_no st,
      send_window = ss_send_window st, send_window_last_update_seq = ss_send_window_last_update_seq st,
      send_window_last_update_ack = ss_send_window_last_update_ack st,
      snd_window_scale = ss_window_scale st, mss = unat (ss_mss st)\<rparr>"

definition serialize_unacked :: "unacked_segment serializer" where
  "serialize_unacked seg = serialize_buffer (seg_bytes seg)"

text \<open>The transmission time does not travel: the restored segment gives no round-trip sample.\<close>

definition deserialize_unacked :: "unacked_segment deserializer" where
  "deserialize_unacked buf =
     (case deserialize_buffer buf of
        None \<Rightarrow> None
      | Some (b, buf) \<Rightarrow> Some (\<lparr>seg_bytes = b, initial_tx = None\<rparr>, buf))"

definition serialize_sender_state :: "sender_state serializer" where
  "serialize_sender_state st buf =
     (if length buf < 29 then None
      else case serialize_vecdeque serialize_unacked (ss_unacked_queue st) (drop 29 buf) of
             None \<Rightarrow> None
           | Some (w1, buf) \<Rightarrow>
               (case serialize_vecdeque serialize_buffer (ss_unsent_queue st) buf of
                  None \<Rightarrow> None
                | Some (w2, buf) \<Rightarrow>
                    Some (be32 (ss_unsent_seq_no st) @ be32 (ss_send_unacked st) @ be32 (ss_send_next st)
                      @ be32 (ss_send_window st) @ be32 (ss_send_window_last_update_seq st)
                      @ be32 (ss_send_window_last_update_ack st) @ be32 (ss_mss st)
                      @ [ss_window_scale st] @ w1 @ w2, buf)))"

definition deserialize_sender_state :: "sender_state deserializer" where
  "deserialize_sender_state buf =
     (if length buf < 29 then None
      else case deserialize_vecdeque deserialize_unacked (drop 29 buf) of
             None \<Rightarrow> None
           | Some (unacked, rest) \<Rightarrow>
               (case deserialize_vecdeque deserialize_buffer rest of
                  None \<Rightarrow> None
                | Some (unsent, rest) \<Rightarrow>
                    Some (\<lparr>ss_unsent_seq_no = read_u32 buf 0, ss_send_unacked = read_u32 buf 4,
                      ss_send_next = read_u32 buf 8, ss_send_window = read_u32 buf 12,
                      ss_send_window_last_update_seq = read_u32 buf 16,
                      ss_send_window_last_update_ack = read_u32 buf 20, ss_mss = read_u32 buf 24,
                      ss_window_scale = buf ! 28, ss_unacked_queue = unacked, ss_unsent_queue = unsent\<rparr>, rest)))"

definition sender_serialized_size :: "sender_state \<Rightarrow> nat" where
  "sender_serialized_size st =
     29 + 4 + fold (\<lambda>e acc. acc + 4 + length (seg_bytes e)) (ss_unacked_queue st) 0
     + 4 + fold (\<lambda>e acc. acc + 4 + length e) (ss_unsent_queue st) 0"

section \<open>The receiver's and the connection's state\<close>

record receiver_state =
  rs_reader_next :: seq
  rs_receive_next :: seq
  rs_recv_queue :: "bytes list"

record ctrl_block_state =
  cs_local :: sockaddr
  cs_remote :: sockaddr
  cs_receive_buffer_size :: u32
  cs_window_scale :: u32
  cs_out_of_order_fin :: "seq option"
  cs_out_of_order_queue :: "(seq \<times> bytes) list"
  cs_receiver :: receiver_state
  cs_sender :: sender_state

definition receiver_into_state :: "receiver \<Rightarrow> receiver_state \<times> receiver" where
  "receiver_into_state r =
     (\<lparr>rs_reader_next = reader_next r, rs_receive_next = receive_next r, rs_recv_queue = recv_queue r\<rparr>,
      r\<lparr>recv_queue := []\<rparr>)"

definition cb_into_state :: "ctrl_block \<Rightarrow> (ctrl_block_state \<times> ctrl_block) option" where
  "cb_into_state cb =
     (let (rs, r) = receiver_into_state (cb_receiver cb)
      in case sender_into_state (cb_sender cb) of
           None \<Rightarrow> None
         | Some (ss, s) \<Rightarrow>
             Some (\<lparr>cs_local = cb_local cb, cs_remote = cb_remote cb,
                cs_receive_buffer_size = receive_buffer_size cb, cs_window_scale = window_scale cb,
                cs_out_of_order_fin = out_of_order_fin cb, cs_out_of_order_queue = out_of_order cb,
                cs_receiver = rs, cs_sender = ss\<rparr>,
                cb\<lparr>out_of_order := [], cb_receiver := r, cb_sender := s\<rparr>))"

definition receiver_from_state :: "receiver_state \<Rightarrow> stats_handle \<Rightarrow> stats_handle \<Rightarrow> receiver" where
  "receiver_from_state st h1 h2 =
     \<lparr>reader_next = rs_reader_next st, receive_next = rs_receive_next st, recv_queue = rs_recv_queue st,
      recv_queue_stats = h1, rps_stats = h2\<rparr>"

text \<open>The target's own clock, link address, configuration and ARP cache; the rest from the state. The
  connection comes back in state ESTABLISHED, with fresh timers and statistics.\<close>

definition cb_from_state ::
  "instant \<Rightarrow> mac_address \<Rightarrow> bool \<Rightarrow> (ipv4addr \<Rightarrow> mac_address option) \<Rightarrow> duration \<Rightarrow> ctrl_block_state \<Rightarrow> ctrl_block" where
  "cb_from_state now link offload arp ack_delay st =
     (let h = sh_new (cs_local st, cs_remote st)
      in \<lparr>cb_local = cs_local st, cb_remote = cs_remote st, clock_now = now, local_link_addr = link,
          cfg_tx_offload = offload, arp_cache = arp, cb_sender = sender_from_state (cs_sender st),
          cb_state = Established, ack_delay_timeout = ack_delay, ack_deadline = None,
          receive_buffer_size = cs_receive_buffer_size st, window_scale = cs_window_scale st,
          waker = None, out_of_order = cs_out_of_order_queue st, out_of_order_fin = cs_out_of_order_fin st,
          cb_receiver = receiver_from_state (cs_receiver st) h h,
          user_is_done_sending = False, retransmit_deadline = None, rto_calculator = rto_new,
          transmitted = [], woken = []\<rparr>)"

definition serialize_receiver_state :: "receiver_state serializer" where
  "serialize_receiver_state st buf =
     (if length buf < 8 then None
      else case serialize_vecdeque serialize_buffer (rs_recv_queue st) (drop 8 buf) of
             None \<Rightarrow> None
           | Some (w, buf) \<Rightarrow> Some (be32 (rs_reader_next st) @ be32 (rs_receive_next st) @ w, buf))"

definition deserialize_receiver_state :: "receiver_state deserializer" where
  "deserialize_receiver_state buf =
     (if length buf < 8 then None
      else case deserialize_vecdeque deserialize_buffer (drop 8 buf) of
             None \<Rightarrow> None
           | Some (q, rest) \<Rightarrow>
               Some (\<lparr>rs_reader_next = read_u32 buf 0, rs_receive_next = read_u32 buf 4, rs_recv_queue = q\<rparr>, rest))"

definition serialize_cb_state :: "ctrl_block_state serializer" where
  "serialize_cb_state st buf =
     (if length buf < 20 then None
      else case serialize_option serialize_seq (cs_out_of_order_fin st) (drop 20 buf) of None \<Rightarrow> None | Some (w1, buf) \<Rightarrow>
        case serialize_vecdeque serialize_stored (cs_out_of_order_queue st) buf of None \<Rightarrow> None | Some (w2, buf) \<Rightarrow>
        case serialize_receiver_state (cs_receiver st) buf of None \<Rightarrow> None | Some (w3, buf) \<Rightarrow>
        case serialize_sender_state (cs_sender st) buf of None \<Rightarrow> None | Some (w4, buf) \<Rightarrow>
        Some (be32 (fst (cs_local st)) @ be16 (snd (cs_local st)) @ be32 (fst (cs_remote st)) @ be16 (snd (cs_remote st))
          @ be32 (cs_receive_buffer_size st) @ be32 (cs_window_scale st) @ w1 @ w2 @ w3 @ w4, buf))"

definition deserialize_cb_state :: "ctrl_block_state deserializer" where
  "deserialize_cb_state buf =
     (if length buf < 20 then None
      else case deserialize_option deserialize_seq (drop 20 buf) of None \<Rightarrow> None | Some (ofin, rest) \<Rightarrow>
        case deserialize_vecdeque deserialize_stored rest of None \<Rightarrow> None | Some (ooo, rest) \<Rightarrow>
        case deserialize_receiver_state rest of None \<Rightarrow> None | Some (rs, rest) \<Rightarrow>
        case deserialize_sender_state rest of None \<Rightarrow> None | Some (ss, rest) \<Rightarrow>
        Some (\<lparr>cs_local = (read_u32 buf 0, read_u16 buf 4), cs_remote = (read_u32 buf 6, read_u16 buf 10),
          cs_receive_buffer_size = read_u32 buf 12, cs_window_scale = read_u32 buf 16,
          cs_out_of_order_fin = ofin, cs_out_of_order_queue = ooo, cs_receiver = rs, cs_sender = ss\<rparr>, rest))"

definition receiver_serialized_size :: "receiver_state \<Rightarrow> nat" where
  "receiver_serialized_size st = 8 + 4 + fold (\<lambda>e acc. acc + 4 + length e) (rs_recv_queue st) 0"

definition cb_serialized_size :: "ctrl_block_state \<Rightarrow> nat" where
  "cb_serialized_size st =
     20 + 1 + (if cs_out_of_order_fin st \<noteq> None then 4 else 0)
     + 4 + fold (\<lambda>e acc. acc + 4 + 4 + length (snd e)) (cs_out_of_order_queue st) 0
     + receiver_serialized_size (cs_receiver st) + sender_serialized_size (cs_sender st)"

section \<open>The migration state\<close>

text \<open>An application's state is its own code: a size and a function that fills a slice. What arrives is
  the bytes.\<close>

datatype migrated_application_state = Registered nat "bytes \<Rightarrow> bytes" | MigratedIn bytes | NoAppState

record tcp_state_msg =
  ts_cb :: ctrl_block_state
  ts_app_state :: migrated_application_state

definition tcp_state_new :: "ctrl_block_state \<Rightarrow> tcp_state_msg" where
  "tcp_state_new st = \<lparr>ts_cb = st, ts_app_state = NoAppState\<rparr>"

definition add_app_state :: "nat \<Rightarrow> (bytes \<Rightarrow> bytes) \<Rightarrow> tcp_state_msg \<Rightarrow> tcp_state_msg" where
  "add_app_state sz f st = st\<lparr>ts_app_state := Registered sz f\<rparr>"

definition tcp_state_size :: "tcp_state_msg \<Rightarrow> nat" where
  "tcp_state_size st =
     cb_serialized_size (ts_cb st) + 1 + (case ts_app_state st of Registered sz _ \<Rightarrow> sz | _ \<Rightarrow> 0)"

definition tcp_state_serialize :: "tcp_state_msg \<Rightarrow> bytes option" where
  "tcp_state_serialize st =
     (case serialize_cb_state (ts_cb st) (replicate (tcp_state_size st) 0) of
        None \<Rightarrow> None
      | Some (w, remaining) \<Rightarrow>
          if remaining = [] then None
          else (case ts_app_state st of
                  Registered sz f \<Rightarrow>
                    if sz = 0 then Some (w @ 0 # drop 1 remaining)
                    else Some (w @ 1 # f (drop 1 remaining))
                | _ \<Rightarrow> Some (w @ 0 # drop 1 remaining)))"

definition tcp_state_deserialize :: "bytes \<Rightarrow> tcp_state_msg option" where
  "tcp_state_deserialize buf =
     (case deserialize_cb_state buf of
        None \<Rightarrow> None
      | Some (st, buf) \<Rightarrow>
          (case buf of
             [] \<Rightarrow> None
           | b # rest \<Rightarrow> Some \<lparr>ts_cb = st, ts_app_state = (if b = 0 then NoAppState else MigratedIn rest)\<rparr>))"

section \<open>Codec laws\<close>

definition unstamp :: "unacked_segment \<Rightarrow> unacked_segment" where
  "unstamp seg = seg\<lparr>initial_tx := None\<rparr>"

interpretation unacked_codec: codec serialize_unacked deserialize_unacked "\<lambda>seg. enc_buffer (seg_bytes seg)" unstamp
  "\<lambda>seg. length (seg_bytes seg) < 2 ^ 32"
  by unfold_locales (simp_all add: serialize_unacked_def deserialize_unacked_def unstamp_def
      buffer_codec.ser_enc buffer_codec.de_enc)

interpretation unacked_queue_codec: codec "serialize_vecdeque serialize_unacked" "deserialize_vecdeque deserialize_unacked"
  "enc_vecdeque (\<lambda>seg. enc_buffer (seg_bytes seg))" "map unstamp"
  "\<lambda>q. length q < 2 ^ 32 \<and> list_all (\<lambda>seg. length (seg_bytes seg) < 2 ^ 32) q"
  by (rule unacked_codec.vecdeque_codec)

definition enc_sender :: "sender_state \<Rightarrow> bytes" where
  "enc_sender st = be32 (ss_unsent_seq_no st) @ be32 (ss_send_unacked st) @ be32 (ss_send_next st)
     @ be32 (ss_send_window st) @ be32 (ss_send_window_last_update_seq st)
     @ be32 (ss_send_window_last_update_ack st) @ be32 (ss_mss st) @ [ss_window_scale st]
     @ enc_vecdeque (\<lambda>seg. enc_buffer (seg_bytes seg)) (ss_unacked_queue st) @ enc_vecdeque enc_buffer (ss_unsent_queue st)"

definition sender_fits :: "sender_state \<Rightarrow> bool" where
  "sender_fits st \<longleftrightarrow>
     length (ss_unacked_queue st) < 2 ^ 32 \<and> list_all (\<lambda>seg. length (seg_bytes seg) < 2 ^ 32) (ss_unacked_queue st)
     \<and> length (ss_unsent_queue st) < 2 ^ 32 \<and> list_all (\<lambda>b. length b < 2 ^ 32) (ss_unsent_queue st)"

interpretation sender_codec: codec serialize_sender_state deserialize_sender_state enc_sender
  "\<lambda>st. st\<lparr>ss_unacked_queue := map unstamp (ss_unacked_queue st)\<rparr>" sender_fits
proof
  fix st :: sender_state and buf r :: bytes
  assume fit: "sender_fits st"
  note f = fit [unfolded sender_fits_def]
  show "length (enc_sender st) \<le> length buf \<Longrightarrow>
      serialize_sender_state st buf = Some (enc_sender st, drop (length (enc_sender st)) buf)"
    using f by (simp add: serialize_sender_state_def enc_sender_def unacked_queue_codec.ser_enc
        buffers_codec.ser_enc ac_simps)
  let ?q1 = "enc_vecdeque (\<lambda>seg. enc_buffer (seg_bytes seg)) (ss_unacked_queue st)"
  let ?q2 = "enc_vecdeque enc_buffer (ss_unsent_queue st)"
  have q: "deserialize_vecdeque deserialize_unacked (?q1 @ ?q2 @ r) = Some (map unstamp (ss_unacked_queue st), ?q2 @ r)"
    "deserialize_vecdeque deserialize_buffer (?q2 @ r) = Some (ss_unsent_queue st, r)"
    using f unacked_queue_codec.de_enc buffers_codec.de_enc by simp_all
  show "deserialize_sender_state (enc_sender st @ r)
      = Some (st\<lparr>ss_unacked_queue := map unstamp (ss_unacked_queue st)\<rparr>, r)"
    using q by (simp add: deserialize_sender_state_def enc_sender_def be32_def read_u32_def)
qed

definition enc_receiver :: "receiver_state \<Rightarrow> bytes" where
  "enc_receiver st = be32 (rs_reader_next st) @ be32 (rs_receive_next st) @ enc_vecdeque enc_buffer (rs_recv_queue st)"

definition receiver_fits :: "receiver_state \<Rightarrow> bool" where
  "receiver_fits st \<longleftrightarrow> length (rs_recv_queue st) < 2 ^ 32 \<and> list_all (\<lambda>b. length b < 2 ^ 32) (rs_recv_queue st)"

interpretation receiver_codec: codec serialize_receiver_state deserialize_receiver_state enc_receiver "\<lambda>st. st" receiver_fits
proof
  fix st :: receiver_state and buf r :: bytes
  assume fit: "receiver_fits st"
  note f = fit [unfolded receiver_fits_def]
  show "length (enc_receiver st) \<le> length buf \<Longrightarrow>
      serialize_receiver_state st buf = Some (enc_receiver st, drop (length (enc_receiver st)) buf)"
    using f by (simp add: serialize_receiver_state_def enc_receiver_def buffers_codec.ser_enc ac_simps)
  have "deserialize_vecdeque deserialize_buffer (enc_vecdeque enc_buffer (rs_recv_queue st) @ r) = Some (rs_recv_queue st, r)"
    using f buffers_codec.de_enc by simp
  then show "deserialize_receiver_state (enc_receiver st @ r) = Some (st, r)"
    by (simp add: deserialize_receiver_state_def enc_receiver_def be32_def read_u32_def)
qed

abbreviation enc_stored :: "seq \<times> bytes \<Rightarrow> bytes" where
  "enc_stored \<equiv> \<lambda>(s, b). be32 s @ enc_buffer b"

definition enc_cb :: "ctrl_block_state \<Rightarrow> bytes" where
  "enc_cb st = be32 (fst (cs_local st)) @ be16 (snd (cs_local st)) @ be32 (fst (cs_remote st)) @ be16 (snd (cs_remote st))
     @ be32 (cs_receive_buffer_size st) @ be32 (cs_window_scale st) @ enc_option be32 (cs_out_of_order_fin st)
     @ enc_vecdeque enc_stored (cs_out_of_order_queue st) @ enc_receiver (cs_receiver st) @ enc_sender (cs_sender st)"

definition cb_fits :: "ctrl_block_state \<Rightarrow> bool" where
  "cb_fits st \<longleftrightarrow> length (cs_out_of_order_queue st) < 2 ^ 32
     \<and> list_all (\<lambda>e. length (snd e) < 2 ^ 32) (cs_out_of_order_queue st)
     \<and> receiver_fits (cs_receiver st) \<and> sender_fits (cs_sender st)"

definition cb_unstamp :: "ctrl_block_state \<Rightarrow> ctrl_block_state" where
  "cb_unstamp st = st\<lparr>cs_sender := (cs_sender st)
     \<lparr>ss_unacked_queue := map unstamp (ss_unacked_queue (cs_sender st))\<rparr>\<rparr>"

interpretation cb_codec: codec serialize_cb_state deserialize_cb_state enc_cb cb_unstamp cb_fits
proof
  fix st :: ctrl_block_state and buf r :: bytes
  assume fit: "cb_fits st"
  note f = fit [unfolded cb_fits_def]
  let ?o = "enc_option be32 (cs_out_of_order_fin st)" and ?q = "enc_vecdeque enc_stored (cs_out_of_order_queue st)"
  let ?rx = "enc_receiver (cs_receiver st)" and ?tx = "enc_sender (cs_sender st)"
  show "length (enc_cb st) \<le> length buf \<Longrightarrow>
      serialize_cb_state st buf = Some (enc_cb st, drop (length (enc_cb st)) buf)"
    using f by (simp add: serialize_cb_state_def enc_cb_def seq_option_codec.ser_enc stored_queue_codec.ser_enc
        receiver_codec.ser_enc sender_codec.ser_enc ac_simps)
  have q: "deserialize_option deserialize_seq (?o @ ?q @ ?rx @ ?tx @ r) = Some (cs_out_of_order_fin st, ?q @ ?rx @ ?tx @ r)"
    "deserialize_vecdeque deserialize_stored (?q @ ?rx @ ?tx @ r) = Some (cs_out_of_order_queue st, ?rx @ ?tx @ r)"
    "deserialize_receiver_state (?rx @ ?tx @ r) = Some (cs_receiver st, ?tx @ r)"
    "deserialize_sender_state (?tx @ r) = Some (cs_sender (cb_unstamp st), r)"
    using f seq_option_codec.de_enc stored_queue_codec.de_enc receiver_codec.de_enc sender_codec.de_enc
    by (simp_all add: cb_unstamp_def option.map_id [unfolded id_def])
  show "deserialize_cb_state (enc_cb st @ r) = Some (cb_unstamp st, r)"
    using q by (simp add: deserialize_cb_state_def enc_cb_def be32_def be16_def read_u32_def read_u16_def cb_unstamp_def)
qed

section \<open>Sizes\<close>

lemma fold_sizes: "fold (\<lambda>e acc. acc + k e) xs n = n + sum_list (map k xs)" for n :: nat
  by (induction xs arbitrary: n) simp_all

lemma length_enc_vecdeque: "length (enc_vecdeque enc es) = 4 + sum_list (map (\<lambda>e. length (enc e)) es)"
  by (simp add: enc_vecdeque_def length_concat comp_def)

lemma length_enc_sender: "length (enc_sender st) = sender_serialized_size st"
  using fold_sizes [of "\<lambda>e. 4 + length (seg_bytes e)" "ss_unacked_queue st" 0]
    fold_sizes [of "\<lambda>e. 4 + length e" "ss_unsent_queue st" 0]
  by (simp add: enc_sender_def sender_serialized_size_def length_enc_vecdeque add.assoc)

lemma length_enc_receiver: "length (enc_receiver st) = receiver_serialized_size st"
  using fold_sizes [of "\<lambda>e. 4 + length e" "rs_recv_queue st" 0]
  by (simp add: enc_receiver_def receiver_serialized_size_def length_enc_vecdeque add.assoc)

lemma length_enc_cb: "length (enc_cb st) = cb_serialized_size st"
proof -
  have "(\<lambda>e. length (case e of (s, b) \<Rightarrow> be32 s @ enc_buffer b)) = (\<lambda>e. 4 + (4 + length (snd e)))"
    by (auto simp: fun_eq_iff)
  then show ?thesis
    using fold_sizes [of "\<lambda>e. 4 + (4 + length (snd e))" "cs_out_of_order_queue st" 0]
    by (simp add: enc_cb_def cb_serialized_size_def length_enc_vecdeque length_enc_sender length_enc_receiver
        enc_option_def add.assoc split: option.split)
qed

lemma serialize_cb_exact:
  assumes "cb_fits st"
  shows "serialize_cb_state st (replicate (cb_serialized_size st + (1 + n)) 0) = Some (enc_cb st, 0 # replicate n 0)"
proof -
  have "drop (length (enc_cb st)) (replicate (cb_serialized_size st + (1 + n)) (0 :: u8)) = replicate (1 + n) 0"
    unfolding length_enc_cb drop_replicate by (rule arg_cong [of _ _ "\<lambda>k. replicate k 0"]) simp
  then show ?thesis
    using cb_codec.ser_enc [OF assms, of "replicate (cb_serialized_size st + (1 + n)) 0"]
    by (simp add: length_enc_cb del: replicate_add)
qed

lemma tcp_state_codec:
  assumes "cb_fits (ts_cb st)" "\<And>n f b. ts_app_state st = Registered n f \<Longrightarrow> length (f b) = length b"
  shows "\<exists>bs. tcp_state_serialize st = Some bs \<and> length bs = tcp_state_size st \<and>
    tcp_state_deserialize bs = Some \<lparr>ts_cb = cb_unstamp (ts_cb st),
      ts_app_state = (case ts_app_state st of
          Registered n f \<Rightarrow> if n = 0 then NoAppState else MigratedIn (f (replicate n 0))
        | _ \<Rightarrow> NoAppState)\<rparr>"
proof -
  let ?w = "enc_cb (ts_cb st)"
  define n where "n = (case ts_app_state st of Registered n _ \<Rightarrow> n | _ \<Rightarrow> 0)"
  have ser: "serialize_cb_state (ts_cb st) (replicate (tcp_state_size st) 0) = Some (?w, 0 # replicate n 0)"
    using serialize_cb_exact [OF assms(1), of n] by (simp add: tcp_state_size_def n_def add.assoc)
  have de: "deserialize_cb_state (?w @ r) = Some (cb_unstamp (ts_cb st), r)" for r
    by (rule cb_codec.de_enc [OF assms(1)])
  have sz: "tcp_state_size st = length ?w + 1 + n"
    by (simp add: tcp_state_size_def length_enc_cb n_def)
  show ?thesis
  proof (cases "ts_app_state st")
    case (Registered m f)
    then show ?thesis
      using ser de sz assms(2) [OF Registered] by (cases "m = 0")
        (simp_all add: tcp_state_serialize_def tcp_state_deserialize_def n_def)
  qed (use ser de sz in \<open>simp_all add: tcp_state_serialize_def tcp_state_deserialize_def n_def\<close>)
qed

section \<open>Properties\<close>

text \<open>C8: a migration state whose queues and buffers have fewer than \<open>2 ^ 32\<close> entries and bytes is serialized
  without panicking into exactly the number of bytes computed for it, and the target reads back every
  field, except for the transmission times of unacknowledged segments; a registered application state
  arrives as the bytes the application wrote.\<close>

theorem tcp_state_roundtrip:
  assumes "cb_fits (ts_cb st)" "\<And>n f b. ts_app_state st = Registered n f \<Longrightarrow> length (f b) = length b"
  shows "\<exists>bs. tcp_state_serialize st = Some bs \<and> length bs = tcp_state_size st \<and>
    tcp_state_deserialize bs = Some \<lparr>ts_cb = cb_unstamp (ts_cb st),
      ts_app_state = (case ts_app_state st of
          Registered n f \<Rightarrow> if n = 0 then NoAppState else MigratedIn (f (replicate n 0))
        | _ \<Rightarrow> NoAppState)\<rparr>"
  using assms by (rule tcp_state_codec)

theorem tcp_state_roundtrip_witness:
  "\<exists>bs. tcp_state_serialize (add_app_state 2 (map (\<lambda>_. 7)) (tcp_state_new (fst (the (cb_into_state demo_cb))))) = Some bs
    \<and> map_option ts_app_state (tcp_state_deserialize bs) = Some (MigratedIn [7, 7])"
proof -
  let ?st = "add_app_state 2 (map (\<lambda>_. 7)) (tcp_state_new (fst (the (cb_into_state demo_cb))))"
  have app: "ts_app_state ?st = Registered 2 (map (\<lambda>_. 7))"
    by (simp add: add_app_state_def)
  have "cb_fits (ts_cb ?st)"
    by (simp add: add_app_state_def tcp_state_new_def demo_cb_def cb_new_def sender_new_def receiver_new_def
        cb_into_state_def sender_into_state_def receiver_into_state_def cb_fits_def receiver_fits_def sender_fits_def)
  moreover have "length (f b) = length b" if "ts_app_state ?st = Registered n f" for n f and b :: bytes
    using that app by auto
  ultimately show ?thesis
    using tcp_state_roundtrip [of ?st] app by (auto simp: numeral_2_eq_2)
qed

text \<open>What a live connection must satisfy to travel.\<close>

definition migratable :: "ctrl_block \<Rightarrow> bool" where
  "migratable cb \<longleftrightarrow> mss (cb_sender cb) < 2 ^ 32
     \<and> length (out_of_order cb) < 2 ^ 32 \<and> list_all (\<lambda>e. length (snd e) < 2 ^ 32) (out_of_order cb)
     \<and> length (recv_queue (cb_receiver cb)) < 2 ^ 32 \<and> list_all (\<lambda>b. length b < 2 ^ 32) (recv_queue (cb_receiver cb))
     \<and> length (unacked_queue (cb_sender cb)) < 2 ^ 32
     \<and> list_all (\<lambda>seg. length (seg_bytes seg) < 2 ^ 32) (unacked_queue (cb_sender cb))
     \<and> length (unsent_queue (cb_sender cb)) < 2 ^ 32 \<and> list_all (\<lambda>b. length b < 2 ^ 32) (unsent_queue (cb_sender cb))"

lemma migratable_into_state:
  assumes "migratable cb"
  shows "\<exists>st left. cb_into_state cb = Some (st, left) \<and> cb_fits st \<and>
    (\<forall>now link off arp d. let cb' = cb_from_state now link off arp d (cb_unstamp st) in
       rx_core cb' = rx_core cb \<and> cb_local cb' = cb_local cb \<and> cb_remote cb' = cb_remote cb
       \<and> receive_buffer_size cb' = receive_buffer_size cb \<and> window_scale cb' = window_scale cb
       \<and> cb_sender cb' = (cb_sender cb)\<lparr>unacked_queue := map unstamp (unacked_queue (cb_sender cb))\<rparr>
       \<and> cb_state cb' = Established)"
proof -
  have "unat (of_nat (mss (cb_sender cb)) :: u32) = mss (cb_sender cb)"
    using assms by (simp add: migratable_def unat_of_nat_u32)
  then show ?thesis
    using assms
    by (simp add: migratable_def cb_into_state_def sender_into_state_def receiver_into_state_def cb_fits_def
        receiver_fits_def sender_fits_def cb_from_state_def cb_unstamp_def sender_from_state_def
        receiver_from_state_def rx_core_def Let_def)
qed

text \<open>The whole journey of a connection: taken out on the origin, serialized, deserialized and rebuilt on
  the target. \<open>None\<close> is a panic on either side.\<close>

definition migrate_journey ::
  "instant \<Rightarrow> mac_address \<Rightarrow> bool \<Rightarrow> (ipv4addr \<Rightarrow> mac_address option) \<Rightarrow> duration \<Rightarrow> ctrl_block \<Rightarrow> ctrl_block option" where
  "migrate_journey now link off arp d cb =
     do { (st, left) \<leftarrow> cb_into_state cb;
          bs \<leftarrow> tcp_state_serialize (tcp_state_new st);
          m \<leftarrow> tcp_state_deserialize bs;
          Some (cb_from_state now link off arp d (ts_cb m)) }"

lemma migrate_journey_ok:
  assumes "migratable cb"
  shows "\<exists>cb'. migrate_journey now link off arp d cb = Some cb' \<and> rx_core cb' = rx_core cb
    \<and> cb_local cb' = cb_local cb \<and> cb_remote cb' = cb_remote cb
    \<and> receive_buffer_size cb' = receive_buffer_size cb \<and> window_scale cb' = window_scale cb
    \<and> cb_sender cb' = (cb_sender cb)\<lparr>unacked_queue := map unstamp (unacked_queue (cb_sender cb))\<rparr>
    \<and> cb_state cb' = Established"
proof -
  obtain st left where st: "cb_into_state cb = Some (st, left)" "cb_fits st"
    and ok: "\<And>now link off arp d. let cb' = cb_from_state now link off arp d (cb_unstamp st) in
       rx_core cb' = rx_core cb \<and> cb_local cb' = cb_local cb \<and> cb_remote cb' = cb_remote cb
       \<and> receive_buffer_size cb' = receive_buffer_size cb \<and> window_scale cb' = window_scale cb
       \<and> cb_sender cb' = (cb_sender cb)\<lparr>unacked_queue := map unstamp (unacked_queue (cb_sender cb))\<rparr>
       \<and> cb_state cb' = Established"
    using migratable_into_state [OF assms] by blast
  have "serialize_cb_state st (replicate (tcp_state_size (tcp_state_new st)) 0) = Some (enc_cb st, [0])"
    using serialize_cb_exact [OF st(2), of 0] by (simp add: tcp_state_size_def tcp_state_new_def)
  then have "tcp_state_serialize (tcp_state_new st) = Some (enc_cb st @ [0])"
    by (simp add: tcp_state_serialize_def tcp_state_new_def)
  moreover have "tcp_state_deserialize (enc_cb st @ [0]) = Some \<lparr>ts_cb = cb_unstamp st, ts_app_state = NoAppState\<rparr>"
    using cb_codec.de_enc [OF st(2), of "[0]"] by (simp add: tcp_state_deserialize_def)
  ultimately have "migrate_journey now link off arp d cb = Some (cb_from_state now link off arp d (cb_unstamp st))"
    using st(1) by (simp add: migrate_journey_def)
  then show ?thesis
    using ok by (simp add: Let_def)
qed

text \<open>C5: migration is transparent to the byte streams. The connection that the target rebuilds has the same
  endpoints and window parameters, the same unread and out-of-order data and receive position, and the same
  send positions, window and queued data as the one taken out at the origin; only the transmission times of
  unacknowledged segments are forgotten, and the connection is in state ESTABLISHED.\<close>

theorem migration_transparent:
  assumes "migratable cb"
  shows "\<exists>cb'. migrate_journey now link off arp d cb = Some cb' \<and> rx_core cb' = rx_core cb
    \<and> cb_local cb' = cb_local cb \<and> cb_remote cb' = cb_remote cb
    \<and> receive_buffer_size cb' = receive_buffer_size cb \<and> window_scale cb' = window_scale cb
    \<and> cb_sender cb' = (cb_sender cb)\<lparr>unacked_queue := map unstamp (unacked_queue (cb_sender cb))\<rparr>
    \<and> cb_state cb' = Established"
  using migrate_journey_ok [OF assms] .

theorem migration_transparent_witness:
  "\<exists>cb'. migrate_journey 7 (Mac 9 9 9 9 9 9) True (\<lambda>_. None) 1 demo_cb = Some cb' \<and> rx_core cb' = rx_core demo_cb
    \<and> cb_sender cb' = cb_sender demo_cb"
  using migration_transparent [of demo_cb 7 "Mac 9 9 9 9 9 9" True "\<lambda>_. None" 1]
  by (auto simp: migratable_def demo_cb_def cb_new_def sender_new_def receiver_new_def)

end
