(* ===== verification/Tcpmig_Segment.thy ===== *)
theory Tcpmig_Segment
  imports Link_Layer Datagram_Headers "HOL-Library.Monad_Syntax"
begin

text \<open>
  Messages of the migration protocol (\<^verbatim>\<open>protocols/tcpmig/segment/\<close>): the 28-byte header whose first
  eight bytes double as a UDP header, the segment, the iterator that cuts a large payload into
  fragments, and the reassembly of fragments on the target.
\<close>

section \<open>The header\<close>

datatype migration_stage = StageNone | Rejected | PrepareMigration | PrepareMigrationAck | ConnectionState
  | ConnectionStateAck | HeartbeatUpdate | HeartbeatResponse

fun stage_code :: "migration_stage \<Rightarrow> u8" where
  "stage_code StageNone = 0"
| "stage_code Rejected = 1"
| "stage_code PrepareMigration = 2"
| "stage_code PrepareMigrationAck = 3"
| "stage_code ConnectionState = 4"
| "stage_code ConnectionStateAck = 5"
| "stage_code HeartbeatUpdate = 12"
| "stage_code HeartbeatResponse = 13"

definition stage_try_from :: "u8 \<Rightarrow> migration_stage option" where
  "stage_try_from v =
     (if v = 0 then Some StageNone else if v = 1 then Some Rejected
      else if v = 2 then Some PrepareMigration else if v = 3 then Some PrepareMigrationAck
      else if v = 4 then Some ConnectionState else if v = 5 then Some ConnectionStateAck
      else if v = 12 then Some HeartbeatUpdate else if v = 13 then Some HeartbeatResponse
      else None)"

record tcpmig_header =
  mh_origin :: sockaddr
  mh_client :: sockaddr
  mh_length :: u16
  mh_fragment_offset :: u16
  mh_flag_load :: bool
  mh_flag_next_fragment :: bool
  mh_stage :: migration_stage
  mh_source_udp_port :: u16
  mh_dest_udp_port :: u16

definition TCPMIG_HEADER_SIZE :: nat where "TCPMIG_HEADER_SIZE = 28"
definition RPS_SIGNAL_HEADER_SIZE :: nat where "RPS_SIGNAL_HEADER_SIZE = 20"
definition MAGIC_NUMBER :: u32 where "MAGIC_NUMBER = 0xCAFEDEAD"
definition RPS_SIGNAL_SIGNATURE :: u32 where "RPS_SIGNAL_SIGNATURE = 0xABCDABCD"

definition tcpmig_new :: "sockaddr \<Rightarrow> sockaddr \<Rightarrow> u16 \<Rightarrow> migration_stage \<Rightarrow> u16 \<Rightarrow> u16 \<Rightarrow> tcpmig_header" where
  "tcpmig_new origin client payload_length stage source_udp_port dest_udp_port =
     \<lparr>mh_origin = origin, mh_client = client, mh_length = of_nat TCPMIG_HEADER_SIZE + payload_length,
      mh_fragment_offset = 0, mh_flag_load = False, mh_flag_next_fragment = False, mh_stage = stage,
      mh_source_udp_port = source_udp_port, mh_dest_udp_port = dest_udp_port\<rparr>"

definition swap_src_dst_port :: "tcpmig_header \<Rightarrow> tcpmig_header" where
  "swap_src_dst_port h = h\<lparr>mh_source_udp_port := mh_dest_udp_port h, mh_dest_udp_port := mh_source_udp_port h\<rparr>"

definition is_tcpmig :: "bytes \<Rightarrow> bool" where
  "is_tcpmig buf \<longleftrightarrow> length buf \<ge> TCPMIG_HEADER_SIZE \<and> read_u32 buf 8 = MAGIC_NUMBER"

definition is_rps_signal :: "bytes \<Rightarrow> bool" where
  "is_rps_signal buf \<longleftrightarrow> length buf \<ge> RPS_SIGNAL_HEADER_SIZE \<and> read_u32 buf 8 = RPS_SIGNAL_SIGNATURE"

text \<open>The checksum: a wrapping 16-bit sum of big-endian chunks, negated; an odd last byte is padded.\<close>

fun sum16 :: "bytes \<Rightarrow> u16 \<Rightarrow> u16" where
  "sum16 (a # b # r) s = sum16 r (s + mk16 a b)"
| "sum16 [b] s = s + mk16 b 0"
| "sum16 [] s = s"

definition tcpmig_checksum :: "ipv4_header \<Rightarrow> bytes \<Rightarrow> bytes \<Rightarrow> u16" where
  "tcpmig_checksum ip migration_hdr data =
     (let s = sum16 (be32 (ip_src_addr ip)) 0;
          s = sum16 (be32 (ip_dst_addr ip)) s;
          s = sum16 (take 6 migration_hdr) s;
          s = sum16 (drop 8 migration_hdr) s;
          s = sum16 data s
      in - s)"

definition flag_bit :: "bool \<Rightarrow> nat \<Rightarrow> u8" where
  "flag_bit f n = push_bit n (if f then 1 else 0)"

definition serialize_flags_and_stage :: "tcpmig_header \<Rightarrow> u8" where
  "serialize_flags_and_stage h =
     flag_bit (mh_flag_load h) 0 OR flag_bit (mh_flag_next_fragment h) 1 OR push_bit 4 (stage_code (mh_stage h))"

definition tcpmig_parse :: "ipv4_header \<Rightarrow> bytes \<Rightarrow> (tcpmig_header \<times> bytes) outcome" where
  "tcpmig_parse ip buf =
     (if length buf < TCPMIG_HEADER_SIZE then Err (fail_new EBADMSG ''TCPMig segment too small'')
      else if read_u32 buf 8 \<noteq> MAGIC_NUMBER then Err (fail_new EBADMSG ''not a TCPMig segment'')
      else let hdr_buf = take TCPMIG_HEADER_SIZE buf;
               checksum = read_u16 hdr_buf 6;
               flags = hdr_buf ! 26
           in case stage_try_from (drop_bit 4 (flags AND 0xF0)) of
                None \<Rightarrow> Err (fail_new EBADMSG ''Invalid TCPMig stage'')
              | Some stage \<Rightarrow>
                  let payload_buf = drop TCPMIG_HEADER_SIZE buf
                  in if checksum \<noteq> 0 \<and> checksum \<noteq> tcpmig_checksum ip hdr_buf payload_buf
                     then Err (fail_new EBADMSG ''TCPMig checksum mismatch'')
                     else Ok (\<lparr>mh_origin = (read_u32 hdr_buf 12, read_u16 hdr_buf 16),
                        mh_client = (read_u32 hdr_buf 18, read_u16 hdr_buf 22),
                        mh_length = read_u16 hdr_buf 4, mh_fragment_offset = read_u16 hdr_buf 24,
                        mh_flag_load = (flags AND push_bit 0 1 \<noteq> 0),
                        mh_flag_next_fragment = (flags AND push_bit 1 1 \<noteq> 0), mh_stage = stage,
                        mh_source_udp_port = read_u16 hdr_buf 0, mh_dest_udp_port = read_u16 hdr_buf 2\<rparr>,
                        payload_buf))"

definition tcpmig_serialize :: "tcpmig_header \<Rightarrow> bytes \<Rightarrow> ipv4_header \<Rightarrow> bytes \<Rightarrow> bytes option" where
  "tcpmig_serialize h buf ip data =
     (if length buf < TCPMIG_HEADER_SIZE then None
      else let fixed_buf = take TCPMIG_HEADER_SIZE buf;
               fixed_buf = write_at 0 (be16 (mh_source_udp_port h)) fixed_buf;
               fixed_buf = write_at 2 (be16 (mh_dest_udp_port h)) fixed_buf;
               fixed_buf = write_at 4 (be16 (mh_length h)) fixed_buf;
               fixed_buf = write_at 6 (be16 0) fixed_buf;
               fixed_buf = write_at 8 (be32 MAGIC_NUMBER) fixed_buf;
               fixed_buf = write_at 12 (be32 (fst (mh_origin h))) fixed_buf;
               fixed_buf = write_at 16 (be16 (snd (mh_origin h))) fixed_buf;
               fixed_buf = write_at 18 (be32 (fst (mh_client h))) fixed_buf;
               fixed_buf = write_at 22 (be16 (snd (mh_client h))) fixed_buf;
               fixed_buf = write_at 24 (be16 (mh_fragment_offset h)) fixed_buf;
               fixed_buf = write_at 26 [serialize_flags_and_stage h] fixed_buf;
               fixed_buf = write_at 27 [0] fixed_buf
           in Some (write_at 6 (be16 (tcpmig_checksum ip fixed_buf data)) fixed_buf @ drop TCPMIG_HEADER_SIZE buf))"

section \<open>Segments and fragments\<close>

definition MAX_FRAGMENT_SIZE :: nat where
  "MAX_FRAGMENT_SIZE = 1500 - IPV4_HEADER_MIN_SIZE - TCPMIG_HEADER_SIZE"

record tcpmig_segment =
  ms_ethernet2_hdr :: ethernet2_header
  ms_ipv4_hdr :: ipv4_header
  ms_tcpmig_hdr :: tcpmig_header
  ms_data :: bytes

definition mseg_header_size :: "tcpmig_segment \<Rightarrow> nat" where
  "mseg_header_size s = ETHERNET2_HEADER_SIZE + IPV4_HEADER_MIN_SIZE + TCPMIG_HEADER_SIZE"

definition mseg_write_header :: "tcpmig_segment \<Rightarrow> bytes \<Rightarrow> bytes option" where
  "mseg_write_header s buf =
     (if length buf < mseg_header_size s then None
      else let ipv4_payload_len = TCPMIG_HEADER_SIZE + length (ms_data s)
           in case eth_serialize (ms_ethernet2_hdr s) (slice 0 14 buf) of None \<Rightarrow> None | Some e \<Rightarrow>
              case ipv4_serialize (ms_ipv4_hdr s) (slice 14 34 buf) ipv4_payload_len of None \<Rightarrow> None | Some i \<Rightarrow>
              case tcpmig_serialize (ms_tcpmig_hdr s) (slice 34 62 buf) (ms_ipv4_hdr s) (ms_data s) of
                None \<Rightarrow> None
              | Some t \<Rightarrow> Some (e @ i @ t @ drop 62 buf))"

record fragmenter =
  fr_segment :: tcpmig_segment
  fr_current_fragment :: u16

definition seg_fragments :: "tcpmig_segment \<Rightarrow> fragmenter" where
  "seg_fragments s = \<lparr>fr_segment = s, fr_current_fragment = 0\<rparr>"

text \<open>The iterator: the next fragment, if any, and the iterator after it. The outer \<open>None\<close> is a panic.\<close>

definition fragmenter_next :: "fragmenter \<Rightarrow> (tcpmig_segment option \<times> fragmenter) option" where
  "fragmenter_next fr =
     (let seg = fr_segment fr; data = ms_data seg
      in if length data = 0 \<and> fr_current_fragment fr \<noteq> 0 then Some (None, fr)
         else do {
           (nf, out, rest) \<leftarrow>
             (if length data \<le> MAX_FRAGMENT_SIZE then Some (False, data, [])
              else do { out \<leftarrow> buf_trim (length data - MAX_FRAGMENT_SIZE) data;
                        rest \<leftarrow> buf_adjust MAX_FRAGMENT_SIZE data;
                        Some (True, out, rest) });
           let hdr = (ms_tcpmig_hdr seg)\<lparr>mh_flag_next_fragment := nf, mh_fragment_offset := fr_current_fragment fr\<rparr>;
           Some (Some (seg\<lparr>ms_tcpmig_hdr := hdr, ms_data := out\<rparr>),
             \<lparr>fr_segment = seg\<lparr>ms_data := rest\<rparr>, fr_current_fragment = fr_current_fragment fr + 1\<rparr>) })"

lemma fragmenter_next_eq:
  "fragmenter_next fr =
     (let seg = fr_segment fr; d = ms_data seg
      in if d = [] \<and> fr_current_fragment fr \<noteq> 0 then Some (None, fr)
         else Some (Some (seg\<lparr>ms_tcpmig_hdr := (ms_tcpmig_hdr seg)
             \<lparr>mh_flag_next_fragment := (length d > MAX_FRAGMENT_SIZE), mh_fragment_offset := fr_current_fragment fr\<rparr>,
              ms_data := take MAX_FRAGMENT_SIZE d\<rparr>),
           \<lparr>fr_segment = seg\<lparr>ms_data := drop MAX_FRAGMENT_SIZE d\<rparr>,
            fr_current_fragment = fr_current_fragment fr + 1\<rparr>))"
  by (auto simp: fragmenter_next_def buf_trim_def buf_adjust_def Let_def)

text \<open>The loop \<^verbatim>\<open>for fragment in segment.fragments()\<close>.\<close>

function fragments_from :: "fragmenter \<Rightarrow> tcpmig_segment list option" where
  "fragments_from fr =
     (case fragmenter_next fr of
        None \<Rightarrow> None
      | Some (None, fr') \<Rightarrow> Some []
      | Some (Some s, fr') \<Rightarrow> map_option ((#) s) (fragments_from fr'))"
  by pat_completeness auto
termination
  by (relation "measures [\<lambda>fr. length (ms_data (fr_segment fr)), \<lambda>fr. if fr_current_fragment fr = 0 then 1 else 0]")
    (auto simp: fragmenter_next_eq Let_def MAX_FRAGMENT_SIZE_def IPV4_HEADER_MIN_SIZE_def TCPMIG_HEADER_SIZE_def
      split: if_splits)

declare fragments_from.simps [simp del]

section \<open>Reassembly\<close>

record defragmenter =
  df_fragments :: "bytes list"
  df_total_fragments :: "nat option"
  df_current_fragments :: nat
  df_current_size :: nat

definition defragmenter_new :: defragmenter where
  "defragmenter_new = \<lparr>df_fragments = [], df_total_fragments = None, df_current_fragments = 0, df_current_size = 0\<rparr>"

definition defragmenter_reset :: "defragmenter \<Rightarrow> defragmenter" where
  "defragmenter_reset df = df\<lparr>df_fragments := [], df_total_fragments := None, df_current_fragments := 0\<rparr>"

fun copy_fragments :: "bytes list \<Rightarrow> nat \<Rightarrow> bytes \<Rightarrow> bytes option" where
  "copy_fragments [] start buffer = Some buffer"
| "copy_fragments (f # fs) start buffer =
     (if start + length f > length buffer then None
      else copy_fragments fs (start + length f) (write_at start f buffer))"

text \<open>A fragment is put in its place, and the last one tells how many there are.\<close>

definition store_fragment :: "tcpmig_header \<Rightarrow> bytes \<Rightarrow> defragmenter \<Rightarrow> defragmenter" where
  "store_fragment hdr buf df =
     (let offset = unat (mh_fragment_offset hdr);
          df = (if \<not> mh_flag_next_fragment hdr then df\<lparr>df_total_fragments := Some (offset + 1)\<rparr> else df);
          frs = df_fragments df;
          frs = (if offset \<ge> length frs then frs @ replicate (offset + 1 - length frs) [] else frs)
      in df\<lparr>df_current_size := df_current_size df + length buf,
            df_current_fragments := df_current_fragments df + 1, df_fragments := frs[offset := buf]\<rparr>)"

text \<open>The reassembled message, if complete, and the defragmenter afterwards. The outer \<open>None\<close> is a panic:
  an empty message cannot be allocated.\<close>

definition defragment_finish :: "tcpmig_header \<Rightarrow> defragmenter \<Rightarrow> ((tcpmig_header \<times> bytes) option \<times> defragmenter) option" where
  "defragment_finish hdr df =
     (if df_total_fragments df \<noteq> Some (df_current_fragments df) then Some (None, df)
      else if df_current_size df = 0 then None
      else (case copy_fragments (df_fragments df) 0 (replicate (df_current_size df) 0) of
              None \<Rightarrow> None
            | Some buffer \<Rightarrow>
                Some (Some (hdr\<lparr>mh_flag_next_fragment := False, mh_fragment_offset := 0\<rparr>, buffer),
                      defragmenter_reset df)))"

text \<open>A last fragment below one already stored makes \<^verbatim>\<open>reserve\<close> overflow, and panic.\<close>

definition defragment :: "tcpmig_header \<Rightarrow> bytes \<Rightarrow> defragmenter \<Rightarrow> ((tcpmig_header \<times> bytes) option \<times> defragmenter) option" where
  "defragment hdr buf df =
     (let offset = unat (mh_fragment_offset hdr)
      in if \<not> mh_flag_next_fragment hdr \<and> offset = 0 then Some (Some (hdr, buf), defragmenter_reset df)
         else if \<not> mh_flag_next_fragment hdr \<and> offset + 1 < length (df_fragments df) then None
         else defragment_finish hdr (store_fragment hdr buf df))"

section \<open>Header laws\<close>

lemma stage_try_from_code [simp]: "stage_try_from (stage_code s) = Some s"
  by (cases s) (simp_all add: stage_try_from_def)

lemma flags_byte:
  "drop_bit 4 (serialize_flags_and_stage h AND 0xF0) = stage_code (mh_stage h)"
  "serialize_flags_and_stage h AND 1 \<noteq> 0 \<longleftrightarrow> mh_flag_load h"
  "serialize_flags_and_stage h AND 2 \<noteq> 0 \<longleftrightarrow> mh_flag_next_fragment h"
  by (cases "mh_stage h"; cases "mh_flag_load h"; cases "mh_flag_next_fragment h";
      simp add: serialize_flags_and_stage_def flag_bit_def)+

definition tcpmig_wire :: "tcpmig_header \<Rightarrow> u16 \<Rightarrow> bytes" where
  "tcpmig_wire h c = be16 (mh_source_udp_port h) @ be16 (mh_dest_udp_port h) @ be16 (mh_length h) @ be16 c
     @ be32 MAGIC_NUMBER @ be32 (fst (mh_origin h)) @ be16 (snd (mh_origin h))
     @ be32 (fst (mh_client h)) @ be16 (snd (mh_client h)) @ be16 (mh_fragment_offset h)
     @ [serialize_flags_and_stage h, 0]"

lemma length_tcpmig_wire [simp]: "length (tcpmig_wire h c) = 28"
  by (simp add: tcpmig_wire_def)

text \<open>The checksum field does not enter the checksum.\<close>

lemma tcpmig_checksum_wire: "tcpmig_checksum ip (tcpmig_wire h c) data = tcpmig_checksum ip (tcpmig_wire h 0) data"
  by (simp add: tcpmig_checksum_def tcpmig_wire_def)

lemma tcpmig_serialize_wire:
  assumes "length buf = TCPMIG_HEADER_SIZE"
  shows "tcpmig_serialize h buf ip data = Some (tcpmig_wire h (tcpmig_checksum ip (tcpmig_wire h 0) data))"
proof -
  have "drop 28 buf = []"
    using assms by (simp add: TCPMIG_HEADER_SIZE_def)
  then have "tcpmig_serialize h buf ip data
    = Some (write_at 6 (be16 (tcpmig_checksum ip (tcpmig_wire h 0) data)) (tcpmig_wire h 0))"
    using assms by (simp add: tcpmig_serialize_def TCPMIG_HEADER_SIZE_def write_simps tcpmig_wire_def)
  also have "write_at 6 (be16 c) (tcpmig_wire h 0) = tcpmig_wire h c" for c
    by (simp add: tcpmig_wire_def write_simps)
  finally show ?thesis .
qed

lemma tcpmig_wire_fields:
  "read_u32 (tcpmig_wire h c @ data) 8 = MAGIC_NUMBER"
  "read_u16 (tcpmig_wire h c) 0 = mh_source_udp_port h" "read_u16 (tcpmig_wire h c) 2 = mh_dest_udp_port h"
  "read_u16 (tcpmig_wire h c) 4 = mh_length h" "read_u16 (tcpmig_wire h c) 6 = c"
  "(read_u32 (tcpmig_wire h c) 12, read_u16 (tcpmig_wire h c) 16) = mh_origin h"
  "(read_u32 (tcpmig_wire h c) 18, read_u16 (tcpmig_wire h c) 22) = mh_client h"
  "read_u16 (tcpmig_wire h c) 24 = mh_fragment_offset h"
  "tcpmig_wire h c ! 26 = serialize_flags_and_stage h"
  by (simp_all add: tcpmig_wire_def be16_def be32_def read_u16_def read_u32_def)

lemma tcpmig_parse_wire:
  assumes "c = 0 \<or> c = tcpmig_checksum ip (tcpmig_wire h 0) data"
  shows "tcpmig_parse ip (tcpmig_wire h c @ data) = Ok (h, data)"
proof -
  have ok: "\<not> (c \<noteq> 0 \<and> c \<noteq> tcpmig_checksum ip (tcpmig_wire h c) data)"
    using assms tcpmig_checksum_wire [of ip h c data] by argo
  show ?thesis
    using flags_byte [of h] ok
    by (simp add: tcpmig_parse_def TCPMIG_HEADER_SIZE_def tcpmig_wire_fields Let_def)
qed

text \<open>a migration message whose header is written in front of its payload is recognised as one,
  its checksum is accepted, and every header field and the payload are read back.\<close>

theorem tcpmig_roundtrip:
  assumes "length buf = TCPMIG_HEADER_SIZE"
  shows "\<exists>bs. tcpmig_serialize h buf ip data = Some bs \<and> length bs = TCPMIG_HEADER_SIZE
    \<and> is_tcpmig (bs @ data) \<and> \<not> is_rps_signal (bs @ data) \<and> tcpmig_parse ip (bs @ data) = Ok (h, data)"
proof -
  let ?w = "tcpmig_wire h (tcpmig_checksum ip (tcpmig_wire h 0) data)"
  have "is_tcpmig (?w @ data)" "\<not> is_rps_signal (?w @ data)"
    by (simp_all add: is_tcpmig_def is_rps_signal_def tcpmig_wire_fields TCPMIG_HEADER_SIZE_def)
      (simp add: MAGIC_NUMBER_def RPS_SIGNAL_SIGNATURE_def)
  then show ?thesis
    using tcpmig_serialize_wire [OF assms, of h ip data] tcpmig_parse_wire [of _ ip h data]
    by (simp add: TCPMIG_HEADER_SIZE_def)
qed

theorem tcpmig_roundtrip_witness:
  "\<exists>bs. tcpmig_serialize (tcpmig_new (1, 80) (2, 5000) 3 ConnectionState 10001 10000) (replicate 28 0)
      (ipv4_new 1 2 UDP) [1, 2, 3] = Some bs \<and> length bs = TCPMIG_HEADER_SIZE
    \<and> is_tcpmig (bs @ [1, 2, 3]) \<and> \<not> is_rps_signal (bs @ [1, 2, 3])
    \<and> tcpmig_parse (ipv4_new 1 2 UDP) (bs @ [1, 2, 3]) = Ok (tcpmig_new (1, 80) (2, 5000) 3 ConnectionState 10001 10000, [1, 2, 3])"
  by (rule tcpmig_roundtrip) (simp add: TCPMIG_HEADER_SIZE_def)

end
