(* ===== verification/Tcpmig_Fragments.thy ===== *)
theory Tcpmig_Fragments
  imports Tcpmig_Segment "HOL-Library.Multiset"
begin

text \<open>
  Fragmentation and reassembly fit together: what the iterator of \<^verbatim>\<open>segment/mod.rs\<close> produces, and
  that the defragmenter of \<^verbatim>\<open>segment/defragmenter.rs\<close> restores the message from its fragments in
  any order of arrival.
\<close>

section \<open>The fragments of a message\<close>

lemma MAX_FRAGMENT_SIZE_eq [simp]: "MAX_FRAGMENT_SIZE = 1452"
  by (simp add: MAX_FRAGMENT_SIZE_def IPV4_HEADER_MIN_SIZE_def TCPMIG_HEADER_SIZE_def)

definition num_fragments :: "bytes \<Rightarrow> nat" where
  "num_fragments d = max 1 ((length d + 1451) div 1452)"

text \<open>Fragment \<open>i\<close> of \<open>n\<close>: the segment with its own part of the data and its place in the header.\<close>

definition nth_fragment :: "tcpmig_segment \<Rightarrow> nat \<Rightarrow> nat \<Rightarrow> tcpmig_segment" where
  "nth_fragment s k i = s\<lparr>
     ms_tcpmig_hdr := (ms_tcpmig_hdr s)\<lparr>mh_flag_next_fragment := (i + 1 < num_fragments (ms_data s)),
       mh_fragment_offset := of_nat (k + i)\<rparr>,
     ms_data := take 1452 (drop (1452 * i) (ms_data s))\<rparr>"

lemma num_fragments_pos: "0 < num_fragments d"
  by (simp add: num_fragments_def)

lemma num_fragments_one: "num_fragments d = 1 \<longleftrightarrow> length d \<le> 1452"
proof -
  have "(length d + 1451) div 1452 < 2 \<longleftrightarrow> length d + 1451 < 2 * 1452"
    by (rule div_less_iff_less_mult) simp
  then show ?thesis
    by (auto simp: num_fragments_def max_def)
qed

lemma num_fragments_drop: "1452 < length d \<Longrightarrow> num_fragments d = Suc (num_fragments (drop 1452 d))"
proof -
  assume "1452 < length d"
  then obtain r where r: "length d = r + 1 + 1452"
    by (metis add.commute add.assoc less_natE plus_1_eq_Suc)
  have "(r + 1 + 1452 + 1451) div 1452 = Suc ((r + 1 + 1451) div 1452)" "0 < (r + 1 + 1451) div 1452"
    by (simp_all add: div_greater_zero_iff)
  with r show ?thesis
    by (simp add: num_fragments_def)
qed

lemma nth_fragment_drop:
  assumes "1452 < length (ms_data s)"
  shows "nth_fragment (s\<lparr>ms_data := drop 1452 (ms_data s)\<rparr>) (Suc k) i = nth_fragment s k (Suc i)"
  using num_fragments_drop [OF assms] by (simp add: nth_fragment_def ac_simps)

lemma fragments_from_spec:
  assumes "k + num_fragments (ms_data s) < 65536" "ms_data s \<noteq> [] \<or> k = 0"
  shows "fragments_from \<lparr>fr_segment = s, fr_current_fragment = of_nat k\<rparr>
    = Some (map (nth_fragment s k) [0 ..< num_fragments (ms_data s)])"
  using assms
proof (induction "num_fragments (ms_data s)" arbitrary: s k)
  case 0
  then show ?case
    using num_fragments_pos [of "ms_data s"] by simp
next
  case (Suc m)
  let ?d = "ms_data s"
  have nz: "ms_data s = [] \<Longrightarrow> (of_nat k :: u16) = 0"
    using Suc.prems by simp
  have step: "fragments_from \<lparr>fr_segment = s, fr_current_fragment = of_nat k\<rparr>
    = map_option ((#) (nth_fragment s k 0))
        (fragments_from \<lparr>fr_segment = s\<lparr>ms_data := drop 1452 ?d\<rparr>, fr_current_fragment = of_nat (Suc k)\<rparr>)"
    using nz num_fragments_one [of ?d] num_fragments_pos [of ?d]
    by (subst fragments_from.simps) (auto simp: fragmenter_next_eq Let_def nth_fragment_def add.commute)
  show ?case
  proof (cases "length ?d \<le> 1452")
    case True
    then have n: "num_fragments ?d = 1"
      by (simp only: num_fragments_one)
    have "(of_nat (Suc k) :: u16) \<noteq> 0"
      using Suc.prems(1) n unat_of_nat_u16 [of "Suc k"] by auto
    then show ?thesis
      using True n step by (simp add: fragments_from.simps fragmenter_next_eq)
  next
    case False
    let ?s = "s\<lparr>ms_data := drop 1452 ?d\<rparr>"
    have m: "m = num_fragments (ms_data ?s)"
      using Suc.hyps(2) num_fragments_drop [of ?d] False by simp
    have "fragments_from \<lparr>fr_segment = ?s, fr_current_fragment = of_nat (Suc k)\<rparr>
        = Some (map (nth_fragment ?s (Suc k)) [0 ..< num_fragments (ms_data ?s)])"
      by (rule Suc.hyps(1) [OF m]) (use Suc.prems Suc.hyps(2) m False in auto)
    then show ?thesis
      using step Suc.hyps(2) [symmetric] m False nth_fragment_drop [of s k]
      by (simp add: map_upt_Suc del: upt_Suc)
  qed
qed

lemma concat_fragments:
  "length d \<le> 1452 * n \<Longrightarrow> concat (map (\<lambda>i. take 1452 (drop (1452 * i) d)) [0 ..< n]) = d"
proof (induction n arbitrary: d)
  case (Suc n)
  have "concat (map (\<lambda>i. take 1452 (drop (1452 * i) (drop 1452 d))) [0 ..< n]) = drop 1452 d"
    using Suc.prems by (intro Suc.IH) simp
  then show ?case
    by (simp add: map_upt_Suc add.commute del: upt_Suc)
qed simp

lemma num_fragments_cover: "length d \<le> 1452 * num_fragments d"
proof -
  have "(length d + 1451) div 1452 * 1452 + (length d + 1451) mod 1452 = length d + 1451"
    "(length d + 1451) mod 1452 < 1452"
    by simp_all
  then have "length d \<le> 1452 * ((length d + 1451) div 1452)"
    by linarith
  also have "\<dots> \<le> 1452 * num_fragments d"
    by (simp add: num_fragments_def)
  finally show ?thesis .
qed

section \<open>Reassembly\<close>

lemma copy_fragments_spec:
  "start + length (concat fs) \<le> length buf \<Longrightarrow>
   copy_fragments fs start buf = Some (take start buf @ concat fs @ drop (start + length (concat fs)) buf)"
proof (induction fs arbitrary: start buf)
  case (Cons f fs)
  let ?b = "write_at start f buf"
  have len: "length ?b = length buf"
    using Cons.prems by simp
  have "copy_fragments fs (start + length f) ?b
      = Some (take (start + length f) ?b @ concat fs @ drop (start + length f + length (concat fs)) ?b)"
    by (rule Cons.IH) (use Cons.prems len in simp)
  moreover have "take (start + length f) ?b = take start buf @ f"
    using Cons.prems by (simp add: write_at_def)
  moreover have "drop (start + length f + length (concat fs)) ?b = drop (start + length f + length (concat fs)) buf"
    using Cons.prems by (simp add: write_at_def ac_simps)
  ultimately show ?case
    using Cons.prems by (simp add: add.assoc)
qed simp

text \<open>
  Where a defragmenter stands after the fragments with the indices in \<open>I\<close>, out of \<open>n\<close>, have arrived;
  \<open>k\<close> bytes were counted before the first of them.
\<close>

definition collected :: "nat \<Rightarrow> (nat \<Rightarrow> bytes) \<Rightarrow> nat \<Rightarrow> nat set \<Rightarrow> defragmenter \<Rightarrow> bool" where
  "collected n dat k I df \<longleftrightarrow>
     I \<subseteq> {..<n} \<and> length (df_fragments df) \<le> n \<and> (\<forall>i\<in>I. i < length (df_fragments df))
     \<and> (\<forall>i<length (df_fragments df). df_fragments df ! i = (if i \<in> I then dat i else []))
     \<and> df_total_fragments df = (if n - 1 \<in> I then Some n else None)
     \<and> df_current_fragments df = card I \<and> df_current_size df = k + (\<Sum>i\<in>I. length (dat i))"

definition frag_header :: "tcpmig_header \<Rightarrow> nat \<Rightarrow> nat \<Rightarrow> tcpmig_header" where
  "frag_header h n i = h\<lparr>mh_flag_next_fragment := (i + 1 < n), mh_fragment_offset := of_nat i\<rparr>"

lemma frag_header_fields:
  "i < n \<Longrightarrow> n < 65536 \<Longrightarrow> unat (mh_fragment_offset (frag_header h n i)) = i"
  "mh_flag_next_fragment (frag_header h n i) \<longleftrightarrow> i + 1 < n"
  by (simp_all add: frag_header_def unat_of_nat_u16)

lemma store_fragment_collected:
  assumes "collected n dat k I df" "i < n" "i \<notin> I" "n < 65536"
  shows "collected n dat k (insert i I) (store_fragment (frag_header h n i) (dat i) df)"
proof -
  note c = assms(1) [unfolded collected_def]
  have fin: "finite I"
    using c finite_subset by blast
  let ?df = "store_fragment (frag_header h n i) (dat i) df"
  define frs where "frs = (if i \<ge> length (df_fragments df)
    then df_fragments df @ replicate (i + 1 - length (df_fragments df)) [] else df_fragments df)"
  have len: "length frs \<le> n" "i < length frs" "length (df_fragments df) \<le> length frs"
    using c assms(2) by (auto simp: frs_def)
  have nth: "frs ! j = (if j \<in> I then dat j else [])" if "j < length frs" for j
    using c that by (auto simp: frs_def nth_append)
  have "\<forall>j\<in>insert i I. j < length frs"
    using c len by auto
  moreover have "\<forall>j<length frs. frs[i := dat i] ! j = (if j \<in> insert i I then dat j else [])"
    using nth len(2) by (simp add: nth_list_update)
  moreover have "(if i + 1 < n then df_total_fragments df else Some (i + 1)) = (if n - 1 \<in> insert i I then Some n else None)"
    using c assms(2) by auto
  moreover have "df_fragments ?df = frs[i := dat i]"
    "df_total_fragments ?df = (if i + 1 < n then df_total_fragments df else Some (i + 1))"
    "df_current_fragments ?df = df_current_fragments df + 1"
    "df_current_size ?df = df_current_size df + length (dat i)"
    using assms(2,4) by (simp_all add: store_fragment_def frag_header_fields Let_def frs_def)
  moreover have "card (insert i I) = card I + 1"
    "(\<Sum>j\<in>insert i I. length (dat j)) = (\<Sum>j\<in>I. length (dat j)) + length (dat i)"
    using fin assms(3) by simp_all
  ultimately show ?thesis
    using c len(1) assms(2) unfolding collected_def by simp
qed

lemma defragment_collect:
  assumes "collected n dat k I df" "i < n" "i \<notin> I" "2 \<le> n" "n < 65536"
  shows "defragment (frag_header h n i) (dat i) df =
    (let df' = store_fragment (frag_header h n i) (dat i) df
     in if insert i I \<noteq> {..<n} then Some (None, df')
        else if df_current_size df' = 0 then None
        else (case copy_fragments (df_fragments df') 0 (replicate (df_current_size df') 0) of
            None \<Rightarrow> None
          | Some buffer \<Rightarrow> Some (Some (h\<lparr>mh_flag_next_fragment := False, mh_fragment_offset := 0\<rparr>, buffer),
              defragmenter_reset df')))"
proof -
  note c = assms(1) [unfolded collected_def]
  let ?df = "store_fragment (frag_header h n i) (dat i) df"
  have "insert i I \<subseteq> {..<n}"
    using c assms(2) by auto
  then have le: "insert i I = {..<n} \<longleftrightarrow> card (insert i I) = n"
    by (metis card_lessThan card_subset_eq finite_lessThan)
  have tot: "n - 1 \<in> insert i I" if "insert i I = {..<n}"
    using that assms(4) by auto
  have "defragment (frag_header h n i) (dat i) df = defragment_finish (frag_header h n i) ?df"
  proof -
    have "\<not> (\<not> i + 1 < n \<and> i = 0)" "\<not> (\<not> i + 1 < n \<and> i + 1 < length (df_fragments df))"
      using c assms(2,4) by auto
    then show ?thesis
      by (simp only: defragment_def frag_header_fields(1) [OF assms(2,5)] frag_header_fields(2) Let_def if_False simp_thms)
  qed
  moreover have "df_total_fragments ?df = (if n - 1 \<in> insert i I then Some n else None)"
    "df_current_fragments ?df = card (insert i I)"
    using store_fragment_collected [OF assms(1-3,5)] by (simp_all only: collected_def)
  moreover have "(frag_header h n i)\<lparr>mh_flag_next_fragment := False, mh_fragment_offset := 0\<rparr>
      = h\<lparr>mh_flag_next_fragment := False, mh_fragment_offset := 0\<rparr>"
    by (simp add: frag_header_def)
  moreover have "(if n - 1 \<in> insert i I then Some n else None) \<noteq> Some (card (insert i I)) \<longleftrightarrow> insert i I \<noteq> {..<n}"
    using le tot by (simp del: insert_iff) metis
  ultimately show ?thesis
    by (simp only: defragment_finish_def Let_def)
qed

text \<open>A complete collection holds the fragments in order.\<close>

lemma collected_all:
  assumes "collected n dat k {..<n} df" "0 < n"
  shows "df_fragments df = map dat [0 ..< n]" "df_current_size df = k + length (concat (map dat [0 ..< n]))"
proof -
  note c = assms(1) [unfolded collected_def]
  have len: "length (df_fragments df) = n"
    using c assms(2) by (metis Suc_pred le_antisym lessThan_iff less_eq_Suc_le lessI)
  then show "df_fragments df = map dat [0 ..< n]"
    using c by (intro nth_equalityI) auto
  show "df_current_size df = k + length (concat (map dat [0 ..< n]))"
    using c by (simp add: length_concat comp_def interv_sum_list_conv_sum_set_nat lessThan_atLeast0)
qed

fun defragment_all :: "(tcpmig_header \<times> bytes) list \<Rightarrow> defragmenter \<Rightarrow> ((tcpmig_header \<times> bytes) list \<times> defragmenter) option" where
  "defragment_all [] df = Some ([], df)"
| "defragment_all ((h, b) # ps) df =
     do { (r, df) \<leftarrow> defragment h b df;
          (rs, df) \<leftarrow> defragment_all ps df;
          Some ((case r of None \<Rightarrow> rs | Some m \<Rightarrow> m # rs), df) }"

lemma defragment_all_collect:
  assumes "2 \<le> n" "n < 65536" "concat (map dat [0 ..< n]) \<noteq> []"
  shows "collected n dat k I df \<Longrightarrow> distinct is \<Longrightarrow> is \<noteq> [] \<Longrightarrow> set is \<inter> I = {} \<Longrightarrow> set is \<union> I = {..<n} \<Longrightarrow>
    defragment_all (map (\<lambda>i. (frag_header h n i, dat i)) is) df
    = Some ([(h\<lparr>mh_flag_next_fragment := False, mh_fragment_offset := 0\<rparr>, concat (map dat [0 ..< n]) @ replicate k 0)],
        defragmenter_new\<lparr>df_current_size := k + length (concat (map dat [0 ..< n]))\<rparr>)"
proof (induction "is" arbitrary: I df)
  case (Cons i "is")
  let ?df = "store_fragment (frag_header h n i) (dat i) df"
  have i: "i < n" "i \<notin> I"
    using Cons.prems by auto
  have col: "collected n dat k (insert i I) ?df"
    by (rule store_fragment_collected [OF Cons.prems(1) i assms(2)])
  note step = defragment_collect [OF Cons.prems(1) i assms(1,2), of h]
  show ?case
  proof (cases "is = []")
    case True
    then have I: "insert i I = {..<n}"
      using Cons.prems(5) by simp
    note all = collected_all [OF col [unfolded I]]
    have "copy_fragments (df_fragments ?df) 0 (replicate (df_current_size ?df) 0)
        = Some (concat (map dat [0 ..< n]) @ replicate k 0)"
      using all assms(1) copy_fragments_spec [of 0 "map dat [0 ..< n]"] by simp
    then show ?thesis
      using True step I all assms(1,3) by (auto simp: defragmenter_reset_def defragmenter_new_def Let_def)
  next
    case False
    then obtain j where "j \<in> set is"
      by (cases "is") auto
    then have "j \<notin> insert i I" "j < n"
      using Cons.prems(2,4,5) by auto
    then have ne: "insert i I \<noteq> {..<n}"
      by auto
    have "defragment_all (map (\<lambda>i. (frag_header h n i, dat i)) is) ?df
      = Some ([(h\<lparr>mh_flag_next_fragment := False, mh_fragment_offset := 0\<rparr>, concat (map dat [0 ..< n]) @ replicate k 0)],
        defragmenter_new\<lparr>df_current_size := k + length (concat (map dat [0 ..< n]))\<rparr>)"
      by (rule Cons.IH [OF col]) (use Cons.prems False in auto)
    then show ?thesis
      using step ne by simp
  qed
qed simp

section \<open>Properties\<close>

definition frag_wire :: "tcpmig_segment \<Rightarrow> tcpmig_header \<times> bytes" where
  "frag_wire s = (ms_tcpmig_hdr s, ms_data s)"

lemma frag_wire_nth_fragment:
  "frag_wire (nth_fragment s 0 i) =
     (frag_header (ms_tcpmig_hdr s) (num_fragments (ms_data s)) i, take 1452 (drop (1452 * i) (ms_data s)))"
  by (simp add: frag_wire_def nth_fragment_def frag_header_def)

lemma num_fragments_bound: "length d \<le> 1452 * 65535 \<Longrightarrow> num_fragments d < 65536"
proof -
  assume "length d \<le> 1452 * 65535"
  then have "(length d + 1451) div 1452 < 65536"
    by (intro less_mult_imp_div_less) simp
  then show ?thesis
    by (simp add: num_fragments_def)
qed

text \<open>cutting a message of at most 65535 fragments yields non-empty parts of at most 1452 bytes (one empty
  part for an empty message) numbered from 0, which join up to the message; all but the last announce a
  successor, and headers agree otherwise.\<close>

theorem fragments_spec:
  assumes "length (ms_data s) \<le> 1452 * 65535"
  shows "\<exists>fs. fragments_from (seg_fragments s) = Some fs \<and> fs \<noteq> []
    \<and> concat (map ms_data fs) = ms_data s
    \<and> (\<forall>i < length fs. length (ms_data (fs ! i)) \<le> MAX_FRAGMENT_SIZE
        \<and> (ms_data s \<noteq> [] \<longrightarrow> ms_data (fs ! i) \<noteq> [])
        \<and> ms_tcpmig_hdr (fs ! i) = (ms_tcpmig_hdr s)\<lparr>mh_flag_next_fragment := (i + 1 < length fs),
            mh_fragment_offset := of_nat i\<rparr>)"
proof -
  let ?n = "num_fragments (ms_data s)"
  let ?fs = "map (nth_fragment s 0) [0 ..< ?n]"
  have fs: "fragments_from (seg_fragments s) = Some ?fs"
    using fragments_from_spec [of 0 s] num_fragments_bound [OF assms] by (simp add: seg_fragments_def)
  have "map ms_data ?fs = map (\<lambda>i. take 1452 (drop (1452 * i) (ms_data s))) [0 ..< ?n]"
    by (simp add: nth_fragment_def)
  then have cat: "concat (map ms_data ?fs) = ms_data s"
    by (simp only: concat_fragments [OF num_fragments_cover])
  have ne: "ms_data (?fs ! i) \<noteq> []" if "i < ?n" "ms_data s \<noteq> []" for i
  proof -
    have "(length (ms_data s) + 1451) div 1452 * 1452 \<le> length (ms_data s) + 1451"
      by simp
    moreover have "?n = (length (ms_data s) + 1451) div 1452"
      using that(2) by (cases "ms_data s") (simp_all add: num_fragments_def)
    ultimately have "?n * 1452 \<le> length (ms_data s) + 1451"
      by metis
    moreover have "(i + 1) * 1452 \<le> ?n * 1452"
      using that(1) by (intro mult_le_mono1) simp
    ultimately show ?thesis
      using that(1) by (simp add: nth_fragment_def)
  qed
  show ?thesis
    using fs cat ne num_fragments_pos [of "ms_data s"]
    by (intro exI [of _ ?fs]) (simp add: nth_fragment_def del: upt_Suc)
qed

lemma mset_eq_map: "mset ps = image_mset f M \<Longrightarrow> \<exists>is. mset is = M \<and> ps = map f is"
proof (induction ps arbitrary: M)
  case (Cons p ps)
  then obtain a N where "M = add_mset a N" "f a = p" "image_mset f N = mset ps"
    using msed_map_invR [of f M p "mset ps"] by auto
  moreover from this obtain "is" where "mset is = N" "ps = map f is"
    using Cons.IH [of N] by auto
  ultimately show ?case
    by (intro exI [of _ "a # is"]) simp
qed simp

lemma permuted_fragments:
  assumes "mset ps = mset (map f [0 ..< n])"
  obtains "is" where "ps = map f is" "distinct is" "set is = {..<n}"
proof -
  obtain "is" where i: "mset is = mset [0 ..< n]" "ps = map f is"
    using mset_eq_map [of ps f "mset [0 ..< n]"] assms by auto
  have "distinct is" "set is = {..<n}"
    using i(1) by (metis distinct_upt mset_eq_imp_distinct_iff, metis atLeast_upt mset_eq_setD)
  then show thesis
    using that i(2) by blast
qed

lemma defragment_permuted:
  assumes "length (ms_data s) \<le> 1452 * 65535" "fragments_from (seg_fragments s) = Some fs"
    and "mset ps = mset (map frag_wire fs)" "1452 < length (ms_data s)"
    and "df_fragments df = []" "df_total_fragments df = None" "df_current_fragments df = 0"
  shows "defragment_all ps df = Some ([((ms_tcpmig_hdr s)\<lparr>mh_flag_next_fragment := False, mh_fragment_offset := 0\<rparr>,
      ms_data s @ replicate (df_current_size df) 0)],
    defragmenter_new\<lparr>df_current_size := df_current_size df + length (ms_data s)\<rparr>)"
proof -
  let ?n = "num_fragments (ms_data s)" and ?dat = "\<lambda>i. take 1452 (drop (1452 * i) (ms_data s))"
  have n: "?n < 65536" "2 \<le> ?n"
    using num_fragments_bound [OF assms(1)] num_fragments_one [of "ms_data s"] num_fragments_pos [of "ms_data s"] assms(4)
    by linarith+
  have fs: "fs = map (nth_fragment s 0) [0 ..< ?n]"
    using assms(2) fragments_from_spec [of 0 s] n(1) by (simp add: seg_fragments_def)
  let ?f = "\<lambda>i. (frag_header (ms_tcpmig_hdr s) ?n i, ?dat i)"
  have "mset ps = mset (map ?f [0 ..< ?n])"
    unfolding assms(3) fs by (simp only: map_map comp_def frag_wire_nth_fragment)
  then obtain "is" where ps: "ps = map ?f is" "distinct is" "set is = {..<?n}"
    by (rule permuted_fragments)
  have cat: "concat (map ?dat [0 ..< ?n]) = ms_data s"
    by (rule concat_fragments [OF num_fragments_cover])
  have col: "collected ?n ?dat (df_current_size df) {} df"
    using assms(5-7) by (simp add: collected_def)
  have "0 \<in> set is"
    unfolding ps(3) using n(2) by simp
  then have ne: "is \<noteq> []"
    by force
  have d: "concat (map ?dat [0 ..< ?n]) \<noteq> []"
    unfolding cat using assms(4) by auto
  show ?thesis
    unfolding ps(1)
    by (rule defragment_all_collect [OF n(2,1) d col ps(2) ne, of "ms_tcpmig_hdr s", unfolded cat]) (simp_all add: ps(3))
qed


lemma defragment_permuted_fst:
  assumes "length (ms_data s) \<le> 1452 * 65535" "fragments_from (seg_fragments s) = Some fs"
    and "mset ps = mset (map frag_wire fs)"
  shows "map_option fst (defragment_all ps defragmenter_new)
    = Some [((ms_tcpmig_hdr s)\<lparr>mh_flag_next_fragment := False, mh_fragment_offset := 0\<rparr>, ms_data s)]"
proof (cases "length (ms_data s) \<le> 1452")
  case True
  then have n: "num_fragments (ms_data s) = 1"
    by (simp only: num_fragments_one)
  then have "map frag_wire fs = [frag_wire (nth_fragment s 0 0)]"
    using assms(2) fragments_from_spec [of 0 s] by (simp add: seg_fragments_def)
  then have "ps = [frag_wire (nth_fragment s 0 0)]"
    using assms(3) by simp
  then show ?thesis
    using True n by (simp add: frag_wire_def nth_fragment_def defragment_def)
next
  case False
  then show ?thesis
    using defragment_permuted [OF assms, of defragmenter_new] by (simp add: defragmenter_new_def)
qed

text \<open>C9: the target restores a connection state from its fragments whatever the order in which the network
  delivers them: nothing is returned before the last one, which yields the whole payload and the original
  header. No order makes the defragmenter panic.\<close>

theorem defragment_any_order:
  assumes "length (ms_data s) \<le> 1452 * 65535" "fragments_from (seg_fragments s) = Some fs"
    and "mset ps = mset (map frag_wire fs)"
  shows "map_option fst (defragment_all ps defragmenter_new)
    = Some [((ms_tcpmig_hdr s)\<lparr>mh_flag_next_fragment := False, mh_fragment_offset := 0\<rparr>, ms_data s)]"
  by (rule defragment_permuted_fst [OF assms])

definition demo_segment :: tcpmig_segment where
  "demo_segment = \<lparr>ms_ethernet2_hdr = eth_new (Mac 1 2 3 4 5 6) (Mac 7 8 9 10 11 12) Ipv4,
     ms_ipv4_hdr = ipv4_new 1 2 UDP, ms_tcpmig_hdr = tcpmig_new (1, 80) (2, 5000) 0 ConnectionState 1 2,
     ms_data = replicate 2000 7\<rparr>"

lemma demo_segment_fragments:
  "fragments_from (seg_fragments demo_segment) = Some (map (nth_fragment demo_segment 0) [0 ..< 2])"
  "length (ms_data demo_segment) = 2000"
  "(ms_tcpmig_hdr demo_segment)\<lparr>mh_flag_next_fragment := False, mh_fragment_offset := 0\<rparr> = ms_tcpmig_hdr demo_segment"
proof -
  have n: "num_fragments (ms_data demo_segment) = 2"
    by (simp add: num_fragments_def demo_segment_def)
  show "fragments_from (seg_fragments demo_segment) = Some (map (nth_fragment demo_segment 0) [0 ..< 2])"
    using fragments_from_spec [of 0 demo_segment] unfolding n by (simp add: seg_fragments_def demo_segment_def)
qed (simp_all add: demo_segment_def tcpmig_new_def)

theorem fragments_spec_witness:
  "\<exists>fs. fragments_from (seg_fragments demo_segment) = Some fs \<and> concat (map ms_data fs) = replicate 2000 7"
  using fragments_spec [of demo_segment] by (fastforce simp: demo_segment_def)

theorem defragment_any_order_witness:
  "map_option fst (defragment_all (rev (map frag_wire (map (nth_fragment demo_segment 0) [0 ..< 2]))) defragmenter_new)
    = Some [(ms_tcpmig_hdr demo_segment, ms_data demo_segment)]"
  using defragment_any_order [OF _ demo_segment_fragments(1), of "rev (map frag_wire (map (nth_fragment demo_segment 0) [0 ..< 2]))"]
  by (simp only: mset_rev demo_segment_fragments)

text \<open>the byte count of a defragmenter survives its reset: a second large message reassembled by the same
  defragmenter is followed by as many zero bytes as the first one had.\<close>

theorem defragmenter_reuse_pads:
  assumes "length (ms_data s) \<le> 1452 * 65535" "fragments_from (seg_fragments s) = Some fs"
    and "mset ps = mset (map frag_wire fs)" "1452 < length (ms_data s)"
  shows "map_option fst (defragment_all (ps @ ps) defragmenter_new)
    = Some [((ms_tcpmig_hdr s)\<lparr>mh_flag_next_fragment := False, mh_fragment_offset := 0\<rparr>, ms_data s),
            ((ms_tcpmig_hdr s)\<lparr>mh_flag_next_fragment := False, mh_fragment_offset := 0\<rparr>,
              ms_data s @ replicate (length (ms_data s)) 0)]"
proof -
  have app: "defragment_all (xs @ ys) df = do { (r, df) \<leftarrow> defragment_all xs df; (r', df) \<leftarrow> defragment_all ys df; Some (r @ r', df) }"
    for xs ys df
  proof (induction xs df rule: defragment_all.induct)
    case (1 df)
    then show ?case by (cases "defragment_all ys df") auto
  next
    case (2 h b ps df)
    then show ?case
      by (auto simp: Option.bind_eq_None_conv split: option.splits Option.bind_splits)
  qed
  show ?thesis
    using defragment_permuted [OF assms, of defragmenter_new]
      defragment_permuted [OF assms, of "defragmenter_new\<lparr>df_current_size := length (ms_data s)\<rparr>"]
    by (simp add: app defragmenter_new_def)
qed

theorem defragmenter_reuse_pads_witness:
  "map_option fst (defragment_all (map frag_wire (map (nth_fragment demo_segment 0) [0 ..< 2])
      @ map frag_wire (map (nth_fragment demo_segment 0) [0 ..< 2])) defragmenter_new)
    = Some [(ms_tcpmig_hdr demo_segment, ms_data demo_segment),
            (ms_tcpmig_hdr demo_segment, ms_data demo_segment @ replicate 2000 0)]"
  using defragmenter_reuse_pads [OF _ demo_segment_fragments(1) refl] by (simp only: demo_segment_fragments)

end
