(* ===== verification/Tcpmig_Peer.thy ===== *)
theory Tcpmig_Peer
  imports Mig_State Tcpmig_Fragments
begin

text \<open>
  The two ends of a migration (\<^verbatim>\<open>protocols/tcpmig/active.rs\<close>, \<^verbatim>\<open>protocols/tcpmig/peer.rs\<close>,
  \<^verbatim>\<open>protocols/tcpmig/constants.rs\<close>): the state of one migration in progress and how it reacts to the
  messages of the protocol, and the table of all of them, with the application state that travels along.
  The network runtime is the log of the segments handed to it.
\<close>


section \<open>Constants\<close>

definition SELF_UDP_PORT :: u16 where "SELF_UDP_PORT = 10000"
definition FRONTEND_MAC :: mac_address where "FRONTEND_MAC = Mac 0x08 0xc0 0xeb 0xb6 0xe8 0x05"
definition FRONTEND_IP :: ipv4addr where "FRONTEND_IP = 0x0A000108"
definition FRONTEND_PORT :: u16 where "FRONTEND_PORT = 10000"
definition BACKEND_MAC :: mac_address where "BACKEND_MAC = Mac 0x08 0xc0 0xeb 0xb6 0xc5 0xad"
definition BACKEND_IP :: ipv4addr where "BACKEND_IP = 0x0A000109"

section \<open>Accessors of the connection state\<close>

definition ts_remote :: "tcp_state_msg \<Rightarrow> sockaddr" where
  "ts_remote st = cs_remote (ts_cb st)"

definition ts_connection :: "tcp_state_msg \<Rightarrow> sockaddr \<times> sockaddr" where
  "ts_connection st = (cs_local (ts_cb st), cs_remote (ts_cb st))"

definition ts_set_local :: "sockaddr \<Rightarrow> tcp_state_msg \<Rightarrow> tcp_state_msg" where
  "ts_set_local local st = st\<lparr>ts_cb := (ts_cb st)\<lparr>cs_local := local\<rparr>\<rparr>"

section \<open>One migration\<close>

datatype receive_status =
    RsOk
  | SentReject
  | RsRejected sockaddr sockaddr
  | ReturnedBySwitch sockaddr sockaddr
  | PrepareMigrationAcked qdesc
  | StateReceived tcp_state_msg
  | MigrationCompleted
  | RsHeartbeatResponse nat

record active_migration =
  am_local_ipv4_addr :: ipv4addr
  am_local_link_addr :: mac_address
  am_remote_ipv4_addr :: ipv4addr
  am_remote_link_addr :: mac_address
  am_self_udp_port :: u16
  am_dest_udp_port :: u16
  am_origin :: sockaddr
  am_client :: sockaddr
  am_last_sent_stage :: migration_stage
  am_qd :: "qdesc option"
  am_recv_queue :: "(tcp_header \<times> bytes) list"
  am_defragmenter :: defragmenter

definition active_new ::
  "ipv4addr \<Rightarrow> mac_address \<Rightarrow> ipv4addr \<Rightarrow> mac_address \<Rightarrow> u16 \<Rightarrow> u16 \<Rightarrow> sockaddr \<Rightarrow> sockaddr \<Rightarrow> qdesc option \<Rightarrow> active_migration" where
  "active_new lip lmac rip rmac self_port dest_port origin client qd =
     \<lparr>am_local_ipv4_addr = lip, am_local_link_addr = lmac, am_remote_ipv4_addr = rip, am_remote_link_addr = rmac,
      am_self_udp_port = self_port, am_dest_udp_port = dest_port, am_origin = origin, am_client = client,
      am_last_sent_stage = StageNone, am_qd = qd, am_recv_queue = [], am_defragmenter = defragmenter_new\<rparr>"

text \<open>The segments that go out; \<open>None\<close> is the panic on a state that is too large.\<close>

definition am_send :: "tcpmig_header \<Rightarrow> bytes \<Rightarrow> active_migration \<Rightarrow> tcpmig_segment list option" where
  "am_send hdr buf a =
     (if length buf div MAX_FRAGMENT_SIZE > 65535 then None
      else fragments_from (seg_fragments
        \<lparr>ms_ethernet2_hdr = eth_new (am_remote_link_addr a) (am_local_link_addr a) Ipv4,
         ms_ipv4_hdr = ipv4_new (am_local_ipv4_addr a) (am_remote_ipv4_addr a) UDP,
         ms_tcpmig_hdr = hdr, ms_data = buf\<rparr>))"

definition next_header :: "tcpmig_header \<Rightarrow> migration_stage \<Rightarrow> tcpmig_header" where
  "next_header hdr next_stage = swap_src_dst_port (hdr\<lparr>mh_stage := next_stage\<rparr>)"

text \<open>The reaction to a message in each stage of the protocol: the status, the migration afterwards and the
  segments sent. A failure changes nothing and sends nothing.\<close>

definition am_expect_prepare ::
  "tcpmig_header \<Rightarrow> active_migration \<Rightarrow> (receive_status \<times> active_migration \<times> tcpmig_segment list) outcome" where
  "am_expect_prepare hdr a =
     (if mh_stage hdr = PrepareMigration then
        let hdr = (next_header hdr PrepareMigrationAck)\<lparr>mh_flag_load := True\<rparr>;
            a = a\<lparr>am_last_sent_stage := PrepareMigrationAck\<rparr>
        in bind_out (expect (am_send hdr [] a)) (\<lambda>tx. Ok (RsOk, a, tx))
      else Err (fail_new EBADMSG ''expected PREPARE_MIGRATION''))"

definition am_expect_prepare_ack ::
  "tcpmig_header \<Rightarrow> active_migration \<Rightarrow> (receive_status \<times> active_migration \<times> tcpmig_segment list) outcome" where
  "am_expect_prepare_ack hdr a =
     (if mh_stage hdr = PrepareMigrationAck then
        let a = a\<lparr>am_dest_udp_port := mh_source_udp_port hdr\<rparr>
        in (case am_qd a of None \<Rightarrow> Panic | Some qd \<Rightarrow> Ok (PrepareMigrationAcked qd, a, []))
      else if mh_stage hdr = Rejected then Ok (RsRejected (mh_origin hdr) (mh_client hdr), a, [])
      else Err (fail_new EBADMSG ''expected PREPARE_MIGRATION_ACK or REJECTED''))"

definition am_expect_state ::
  "tcpmig_header \<Rightarrow> bytes \<Rightarrow> active_migration \<Rightarrow> (receive_status \<times> active_migration \<times> tcpmig_segment list) outcome" where
  "am_expect_state hdr buf a =
     (if mh_stage hdr = ConnectionState then
        bind_out (expect (defragment hdr buf (am_defragmenter a))) (\<lambda>(r, df).
          let a = a\<lparr>am_defragmenter := df\<rparr>
          in case r of
               None \<Rightarrow> Ok (RsOk, a, [])
             | Some (hdr, buf) \<Rightarrow>
                 bind_out (expect (tcp_state_deserialize buf)) (\<lambda>state.
                   let state = ts_set_local (am_local_ipv4_addr a, am_self_udp_port a) state;
                       hdr = next_header hdr ConnectionStateAck;
                       a = a\<lparr>am_last_sent_stage := ConnectionStateAck\<rparr>
                   in bind_out (expect (am_send hdr [] a)) (\<lambda>tx. Ok (StateReceived state, a, tx))))
      else Err (fail_new EBADMSG ''expected CONNECTION_STATE''))"

definition am_expect_state_ack ::
  "tcpmig_header \<Rightarrow> active_migration \<Rightarrow> (receive_status \<times> active_migration \<times> tcpmig_segment list) outcome" where
  "am_expect_state_ack hdr a =
     (if mh_stage hdr = ConnectionStateAck then Ok (MigrationCompleted, a, [])
      else Err (fail_new EBADMSG ''expected CONNECTION_STATE_ACK''))"

definition process_packet ::
  "tcpmig_header \<Rightarrow> bytes \<Rightarrow> active_migration \<Rightarrow> (receive_status \<times> active_migration \<times> tcpmig_segment list) outcome" where
  "process_packet hdr buf a =
     (case am_last_sent_stage a of
        StageNone \<Rightarrow> am_expect_prepare hdr a
      | PrepareMigration \<Rightarrow> am_expect_prepare_ack hdr a
      | PrepareMigrationAck \<Rightarrow> am_expect_state hdr buf a
      | ConnectionState \<Rightarrow> am_expect_state_ack hdr a
      | ConnectionStateAck \<Rightarrow> Ok (RsOk, a, [])
      | Rejected \<Rightarrow> Panic
      | HeartbeatUpdate \<Rightarrow> Panic
      | HeartbeatResponse \<Rightarrow> Panic)"

definition am_initiate_migration :: "active_migration \<Rightarrow> (active_migration \<times> tcpmig_segment list) option" where
  "am_initiate_migration a =
     (if am_last_sent_stage a \<noteq> StageNone then None
      else let hdr = tcpmig_new (am_origin a) (am_client a) 0 PrepareMigration (am_self_udp_port a)
                 (if am_self_udp_port a = 10001 then 10000 else 10001);
               a = a\<lparr>am_last_sent_stage := PrepareMigration\<rparr>
           in map_option (\<lambda>tx. (a, tx)) (am_send hdr [] a))"

definition send_connection_state :: "tcp_state_msg \<Rightarrow> active_migration \<Rightarrow> (active_migration \<times> tcpmig_segment list) option" where
  "send_connection_state state a =
     (if am_last_sent_stage a \<noteq> PrepareMigration then None
      else case tcp_state_serialize state of
             None \<Rightarrow> None
           | Some buf \<Rightarrow>
               let hdr = tcpmig_new (am_origin a) (am_client a) 0 ConnectionState (am_self_udp_port a) (am_dest_udp_port a);
                   a = a\<lparr>am_last_sent_stage := ConnectionState\<rparr>
               in map_option (\<lambda>tx. (a, tx)) (am_send hdr buf a))"

definition buffer_packet :: "tcp_header \<Rightarrow> bytes \<Rightarrow> active_migration \<Rightarrow> active_migration" where
  "buffer_packet hdr data a = a\<lparr>am_recv_queue := am_recv_queue a @ [(hdr, data)]\<rparr>"

definition take_buffered_packets :: "active_migration \<Rightarrow> (tcp_header \<times> bytes) list \<times> active_migration" where
  "take_buffered_packets a = (am_recv_queue a, a\<lparr>am_recv_queue := []\<rparr>)"

section \<open>All migrations of a host\<close>

record tcpmig_peer =
  tp_local_link_addr :: mac_address
  tp_local_ipv4_addr :: ipv4addr
  tp_active_migrations :: "sockaddr \<Rightarrow> active_migration option"
  tp_incoming_user_data :: "sockaddr \<Rightarrow> bytes option"
  tp_self_udp_port :: u16
  tp_heartbeat_message :: tcpmig_segment
  tp_application_state :: "sockaddr \<Rightarrow> migrated_application_state option"
  tp_transmitted :: "tcpmig_segment list"

definition tcpmig_peer_new :: "mac_address \<Rightarrow> ipv4addr \<Rightarrow> tcpmig_peer" where
  "tcpmig_peer_new link ip =
     \<lparr>tp_local_link_addr = link, tp_local_ipv4_addr = ip, tp_active_migrations = Map.empty,
      tp_incoming_user_data = Map.empty, tp_self_udp_port = SELF_UDP_PORT,
      tp_heartbeat_message =
        \<lparr>ms_ethernet2_hdr = eth_new FRONTEND_MAC link Ipv4, ms_ipv4_hdr = ipv4_new ip FRONTEND_IP UDP,
         ms_tcpmig_hdr = tcpmig_new (0, 0) (0, 0) 4 HeartbeatUpdate SELF_UDP_PORT FRONTEND_PORT,
         ms_data = replicate 4 0\<rparr>,
      tp_application_state = Map.empty, tp_transmitted = []\<rparr>"

definition tp_set_port :: "u16 \<Rightarrow> tcpmig_peer \<Rightarrow> tcpmig_peer" where
  "tp_set_port port p = p\<lparr>tp_self_udp_port := port\<rparr>"

definition tp_transmit :: "tcpmig_segment list \<Rightarrow> tcpmig_peer \<Rightarrow> tcpmig_peer" where
  "tp_transmit tx p = p\<lparr>tp_transmitted := tp_transmitted p @ tx\<rparr>"

text \<open>A new migration goes through the switch: the frontend's address, or the backend's on the frontend.\<close>

definition tp_new_active :: "u16 \<Rightarrow> sockaddr \<Rightarrow> sockaddr \<Rightarrow> qdesc option \<Rightarrow> tcpmig_peer \<Rightarrow> active_migration" where
  "tp_new_active dest_port origin client qd p =
     active_new (tp_local_ipv4_addr p) (tp_local_link_addr p)
       (if tp_local_ipv4_addr p = FRONTEND_IP then BACKEND_IP else FRONTEND_IP)
       (if tp_local_link_addr p = FRONTEND_MAC then BACKEND_MAC else FRONTEND_MAC)
       (tp_self_udp_port p) dest_port origin client qd"

text \<open>A message for an active migration, and what its outcome does to the table.\<close>

definition tp_dispatch :: "tcpmig_header \<Rightarrow> bytes \<Rightarrow> tcpmig_peer \<Rightarrow> receive_status outcome \<times> tcpmig_peer" where
  "tp_dispatch hdr buf p =
     (let remote = mh_client hdr
      in case tp_active_migrations p remote of
           None \<Rightarrow> (Panic, p)
         | Some active \<Rightarrow>
             (case process_packet hdr buf active of
                Panic \<Rightarrow> (Panic, p)
              | Err e \<Rightarrow> (Err e, p)
              | Ok (status, active, tx) \<Rightarrow>
                  let p = tp_transmit tx (p\<lparr>tp_active_migrations := (tp_active_migrations p)(remote \<mapsto> active)\<rparr>);
                      remove = p\<lparr>tp_active_migrations := (tp_active_migrations p)(remote := None)\<rparr>
                  in (case status of
                        StateReceived state \<Rightarrow>
                          (case ts_app_state state of
                             MigratedIn b \<Rightarrow>
                               (Ok (StateReceived (state\<lparr>ts_app_state := NoAppState\<rparr>)),
                                p\<lparr>tp_application_state :=
                                  (tp_application_state p)(snd (ts_connection state) \<mapsto> MigratedIn b)\<rparr>)
                           | _ \<Rightarrow> (Ok status, p))
                      | MigrationCompleted \<Rightarrow> (Ok status, remove)
                      | RsRejected _ _ \<Rightarrow> (Ok status, remove)
                      | SentReject \<Rightarrow> (Ok status, remove)
                      | RsHeartbeatResponse _ \<Rightarrow> (Panic, p)
                      | ReturnedBySwitch _ _ \<Rightarrow> (Panic, p)
                      | _ \<Rightarrow> (Ok status, p))))"

definition tp_handle :: "tcpmig_header \<Rightarrow> bytes \<Rightarrow> tcpmig_peer \<Rightarrow> receive_status outcome \<times> tcpmig_peer" where
  "tp_handle hdr buf p =
     (let remote = mh_client hdr
      in if mh_stage hdr = HeartbeatResponse then
           (if length buf < 4 then (Panic, p) else (Ok (RsHeartbeatResponse (unat (read_u32 buf 0))), p))
         else if mh_stage hdr = PrepareMigration then
           let active = tp_new_active (snd (mh_origin hdr)) (mh_origin hdr) (mh_client hdr) None p
           in if tp_active_migrations p remote \<noteq> None
              then (Ok (ReturnedBySwitch (mh_origin hdr) (mh_client hdr)),
                    p\<lparr>tp_active_migrations := (tp_active_migrations p)(remote := None)\<rparr>)
              else tp_dispatch hdr buf (p\<lparr>tp_active_migrations := (tp_active_migrations p)(remote \<mapsto> active)\<rparr>)
         else tp_dispatch hdr buf p)"

definition tcpmig_receive :: "ipv4_header \<Rightarrow> bytes \<Rightarrow> tcpmig_peer \<Rightarrow> receive_status outcome \<times> tcpmig_peer" where
  "tcpmig_receive ip buf p =
     (case tcpmig_parse ip buf of
        Panic \<Rightarrow> (Panic, p)
      | Err e \<Rightarrow> (Err e, p)
      | Ok (hdr, buf) \<Rightarrow> tp_handle hdr buf p)"

text \<open>\<open>None\<close>: a migration of the connection is already in progress.\<close>

definition tp_initiate_migration :: "sockaddr \<times> sockaddr \<Rightarrow> qdesc \<Rightarrow> tcpmig_peer \<Rightarrow> tcpmig_peer option" where
  "tp_initiate_migration c qd p =
     (let (local, remote) = c;
          active = tp_new_active (if tp_self_udp_port p = 10001 then 10000 else 10001) local remote (Some qd) p
      in if tp_active_migrations p remote \<noteq> None then None
         else case am_initiate_migration active of
                None \<Rightarrow> None
              | Some (active, tx) \<Rightarrow>
                  Some (tp_transmit tx (p\<lparr>tp_active_migrations := (tp_active_migrations p)(remote \<mapsto> active)\<rparr>)))"

definition send_tcp_state :: "tcp_state_msg \<Rightarrow> tcpmig_peer \<Rightarrow> tcpmig_peer option" where
  "send_tcp_state state p =
     (let remote = ts_remote state;
          state = (case tp_application_state p remote of
                     Some (Registered sz f) \<Rightarrow> add_app_state sz f state
                   | _ \<Rightarrow> state);
          p = p\<lparr>tp_application_state := (tp_application_state p)(remote := None)\<rparr>
      in case tp_active_migrations p remote of
           None \<Rightarrow> None
         | Some active \<Rightarrow>
             (case send_connection_state state active of
                None \<Rightarrow> None
              | Some (active, tx) \<Rightarrow>
                  Some (tp_transmit tx (p\<lparr>tp_active_migrations := (tp_active_migrations p)(remote \<mapsto> active),
                    tp_incoming_user_data := (tp_incoming_user_data p)(remote := None)\<rparr>))))"

text \<open>Whether the packet was taken, and the peer.\<close>

definition try_buffer_packet :: "sockaddr \<Rightarrow> tcp_header \<Rightarrow> bytes \<Rightarrow> tcpmig_peer \<Rightarrow> bool \<times> tcpmig_peer" where
  "try_buffer_packet remote hdr data p =
     (case tp_active_migrations p remote of
        Some active \<Rightarrow>
          (True, p\<lparr>tp_active_migrations := (tp_active_migrations p)(remote \<mapsto> buffer_packet hdr data active)\<rparr>)
      | None \<Rightarrow> (False, p))"

definition close_active_migration :: "sockaddr \<Rightarrow> tcpmig_peer \<Rightarrow> (tcp_header \<times> bytes) list option \<times> tcpmig_peer" where
  "close_active_migration remote p =
     (map_option (\<lambda>a. fst (take_buffered_packets a)) (tp_active_migrations p remote),
      p\<lparr>tp_active_migrations := (tp_active_migrations p)(remote := None)\<rparr>)"

definition send_heartbeat :: "nat \<Rightarrow> tcpmig_peer \<Rightarrow> tcpmig_peer option" where
  "send_heartbeat queue_len p =
     (if queue_len \<ge> 2 ^ 32 then None
      else let m = tp_heartbeat_message p
           in Some (p\<lparr>tp_heartbeat_message := m\<lparr>ms_data := write_at 0 (be32 (of_nat queue_len)) (ms_data m)\<rparr>\<rparr>))"

definition tp_register_application_state :: "sockaddr \<Rightarrow> nat \<Rightarrow> (bytes \<Rightarrow> bytes) \<Rightarrow> tcpmig_peer \<Rightarrow> tcpmig_peer" where
  "tp_register_application_state remote sz f p =
     p\<lparr>tp_application_state := (tp_application_state p)(remote \<mapsto> Registered sz f)\<rparr>"

text \<open>The application's \<^verbatim>\<open>deserialize\<close> is a parameter; the object it makes is known by its size and serializer.\<close>

definition tp_get_migrated_application_state ::
  "(bytes \<Rightarrow> nat \<times> (bytes \<Rightarrow> bytes)) \<Rightarrow> sockaddr \<Rightarrow> tcpmig_peer \<Rightarrow> (nat \<times> (bytes \<Rightarrow> bytes)) option \<times> tcpmig_peer" where
  "tp_get_migrated_application_state app_deserialize remote p =
     (let entry = tp_application_state p remote;
          p = p\<lparr>tp_application_state := (tp_application_state p)(remote := None)\<rparr>
      in case entry of
           Some (MigratedIn b) \<Rightarrow>
             let state = app_deserialize b
             in (Some state, p\<lparr>tp_application_state :=
                   (tp_application_state p)(remote \<mapsto> Registered (fst state) (snd state))\<rparr>)
         | _ \<Rightarrow> (None, p))"

section \<open>Delivery\<close>

text \<open>What the peer's IPv4 layer gets of a segment.\<close>

definition tcpmig_payload :: "tcpmig_segment \<Rightarrow> bytes" where
  "tcpmig_payload s =
     (case tcpmig_serialize (ms_tcpmig_hdr s) (replicate TCPMIG_HEADER_SIZE 0) (ms_ipv4_hdr s) (ms_data s) of
        Some bs \<Rightarrow> bs @ ms_data s
      | None \<Rightarrow> [])"

definition deliver :: "tcpmig_segment \<Rightarrow> tcpmig_peer \<Rightarrow> receive_status outcome \<times> tcpmig_peer" where
  "deliver s p = tcpmig_receive (ms_ipv4_hdr s) (tcpmig_payload s) p"

fun deliver_all :: "tcpmig_segment list \<Rightarrow> tcpmig_peer \<Rightarrow> receive_status outcome list \<times> tcpmig_peer" where
  "deliver_all [] p = ([], p)"
| "deliver_all (s # ss) p = (let (r, p) = deliver s p; (rs, p) = deliver_all ss p in (r # rs, p))"

lemma deliver_eq: "deliver s p = tp_handle (ms_tcpmig_hdr s) (ms_data s) p"
  by (simp add: deliver_def tcpmig_receive_def tcpmig_payload_def tcpmig_serialize_wire tcpmig_parse_wire)

text \<open>A message without payload is one segment.\<close>

lemma am_send_empty:
  "am_send hdr [] a = Some [\<lparr>ms_ethernet2_hdr = eth_new (am_remote_link_addr a) (am_local_link_addr a) Ipv4,
     ms_ipv4_hdr = ipv4_new (am_local_ipv4_addr a) (am_remote_ipv4_addr a) UDP,
     ms_tcpmig_hdr = hdr\<lparr>mh_flag_next_fragment := False, mh_fragment_offset := 0\<rparr>, ms_data = []\<rparr>]"
proof -
  have "num_fragments [] = 1"
    by (simp add: num_fragments_def)
  then show ?thesis
    using fragments_from_spec [of 0 "\<lparr>ms_ethernet2_hdr = eth_new (am_remote_link_addr a) (am_local_link_addr a) Ipv4,
        ms_ipv4_hdr = ipv4_new (am_local_ipv4_addr a) (am_remote_ipv4_addr a) UDP, ms_tcpmig_hdr = hdr, ms_data = []\<rparr>"]
    by (simp add: am_send_def seg_fragments_def nth_fragment_def)
qed

end
