(* ===== verification/Tcp_Peer.thy ===== *)
theory Tcp_Peer
  imports Tcp_Open Stats_Poll Tcpmig_Peer
begin

text \<open>
  The TCP peer (\<^verbatim>\<open>protocols/tcp/peer.rs\<close>): the tables of sockets and connections, the socket calls, the routing
  of segments, and what it does with the messages of the migration protocol. The peer owns everything its
  connections share: the clock, the ARP cache, the log of transmitted segments, and the two statistics
  collectors with the stores their handles live in. A control block is brought up to date with them before one of
  its operations runs, and what the operation did is taken over afterwards. The CRC of the sequence-number
  generator and the application's serializers are parameters.
\<close>

section \<open>State\<close>

datatype socket =
    Inactive "sockaddr option"
  | Listening sockaddr
  | Connecting sockaddr sockaddr
  | SockEstablished sockaddr sockaddr
  | MigratedOut sockaddr sockaddr

text \<open>The handles of a connection have one address, in each of the two stores.\<close>

record established_socket =
  es_cb :: ctrl_block
  es_handle :: href

record tcp_peer =
  pe_isn_generator :: isn_generator
  pe_ephemeral_ports :: ephemeral_ports
  pe_sockets :: "(qdesc \<times> socket) list"
  pe_qds :: "sockaddr \<times> sockaddr \<Rightarrow> qdesc option"
  pe_passive :: "sockaddr \<Rightarrow> passive_socket option"
  pe_connecting :: "sockaddr \<times> sockaddr \<Rightarrow> active_open option"
  pe_established :: "sockaddr \<times> sockaddr \<Rightarrow> established_socket option"
  pe_now :: instant
  pe_link :: mac_address
  pe_ip :: ipv4addr
  pe_config :: tcp_config
  pe_arp :: "ipv4addr \<Rightarrow> mac_address option"
  pe_transmitted :: "tcp_segment list"
  pe_woken :: "nat list"
  pe_tcpmig :: tcpmig_peer
  pe_recv_queue_stats :: stats
  pe_rq_store :: hstore
  pe_rps_stats :: stats
  pe_rps_store :: hstore
  pe_next_handle :: href
  pe_migrated_qd :: "qdesc option"
  pe_min_threshold :: nat
  pe_rps_threshold :: rat
  pe_threshold_epsilon :: rat
  pe_reactive_migration_enabled :: bool
  pe_last_rps_signal :: "(nat \<times> nat) option"

definition tcp_peer_new ::
  "instant \<Rightarrow> mac_address \<Rightarrow> ipv4addr \<Rightarrow> tcp_config \<Rightarrow> (ipv4addr \<Rightarrow> mac_address option) \<Rightarrow> ephemeral_ports \<Rightarrow> u32 \<Rightarrow>
   nat \<Rightarrow> int option \<Rightarrow> int option \<Rightarrow> nat \<Rightarrow> rat \<Rightarrow> rat \<Rightarrow> tcp_peer" where
  "tcp_peer_new now link ip cfg arp ports n recv_threshold max_pro max_re min_thr rps_thr eps =
     \<lparr>pe_isn_generator = isn_generator_new n, pe_ephemeral_ports = ports, pe_sockets = [], pe_qds = Map.empty,
      pe_passive = Map.empty, pe_connecting = Map.empty, pe_established = Map.empty, pe_now = now, pe_link = link,
      pe_ip = ip, pe_config = cfg, pe_arp = arp, pe_transmitted = [], pe_woken = [],
      pe_tcpmig = tcpmig_peer_new link ip,
      pe_recv_queue_stats = stats_new recv_threshold max_pro max_re, pe_rq_store = (\<lambda>_. sh_new ((0, 0), (0, 0))),
      pe_rps_stats = stats_new recv_threshold max_pro max_re, pe_rps_store = (\<lambda>_. sh_new ((0, 0), (0, 0))),
      pe_next_handle = 0, pe_migrated_qd = None, pe_min_threshold = min_thr, pe_rps_threshold = rps_thr,
      pe_threshold_epsilon = eps, pe_reactive_migration_enabled = False, pe_last_rps_signal = None\<rparr>"

section \<open>Operations on a control block\<close>

definition refresh_cb :: "tcp_peer \<Rightarrow> ctrl_block \<Rightarrow> ctrl_block" where
  "refresh_cb p cb = cb\<lparr>clock_now := pe_now p, arp_cache := pe_arp p, transmitted := [], woken := []\<rparr>"

definition log_cb :: "ctrl_block \<Rightarrow> tcp_peer \<Rightarrow> tcp_peer" where
  "log_cb cb p = p\<lparr>pe_transmitted := pe_transmitted p @ transmitted cb, pe_woken := pe_woken p @ woken cb\<rparr>"

definition load_cb :: "established_socket \<Rightarrow> tcp_peer \<Rightarrow> ctrl_block" where
  "load_cb es p =
     (let cb = refresh_cb p (es_cb es)
      in cb\<lparr>cb_receiver := (cb_receiver cb)\<lparr>recv_queue_stats := pe_rq_store p (es_handle es),
                                          rps_stats := pe_rps_store p (es_handle es)\<rparr>\<rparr>)"

definition store_cb :: "sockaddr \<times> sockaddr \<Rightarrow> established_socket \<Rightarrow> ctrl_block \<Rightarrow> tcp_peer \<Rightarrow> tcp_peer" where
  "store_cb key es cb p =
     (log_cb cb p)\<lparr>pe_established := (pe_established p)(key \<mapsto> es\<lparr>es_cb := cb\<rparr>),
        pe_rq_store := (pe_rq_store p)(es_handle es := recv_queue_stats (cb_receiver cb)),
        pe_rps_store := (pe_rps_store p)(es_handle es := rps_stats (cb_receiver cb))\<rparr>"

text \<open>\<^verbatim>\<open>EstablishedSocket::new\<close>: the block's handles get the next address.\<close>

definition new_established :: "ctrl_block \<Rightarrow> tcp_peer \<Rightarrow> established_socket \<times> tcp_peer" where
  "new_established cb p =
     (let h = pe_next_handle p
      in (\<lparr>es_cb = cb, es_handle = h\<rparr>,
          p\<lparr>pe_next_handle := h + 1, pe_rq_store := (pe_rq_store p)(h := recv_queue_stats (cb_receiver cb)),
            pe_rps_store := (pe_rps_store p)(h := rps_stats (cb_receiver cb))\<rparr>))"

text \<open>\<^verbatim>\<open>ControlBlock::enable_stats\<close>; \<open>None\<close>: a handle is enabled already.\<close>

definition enable_stats :: "href \<Rightarrow> nat \<Rightarrow> tcp_peer \<Rightarrow> tcp_peer option" where
  "enable_stats h queue_len p =
     Option.bind (handle_enable h False queue_len (pe_recv_queue_stats p) (pe_rq_store p)) (\<lambda>(rq, rq_store).
     Option.bind (handle_enable h True 0 (pe_rps_stats p) (pe_rps_store p)) (\<lambda>(rps, rps_store).
     Some (p\<lparr>pe_recv_queue_stats := rq, pe_rq_store := rq_store, pe_rps_stats := rps, pe_rps_store := rps_store\<rparr>)))"

definition disable_stats_of :: "href \<Rightarrow> tcp_peer \<Rightarrow> tcp_peer" where
  "disable_stats_of h p =
     p\<lparr>pe_rq_store := handle_disable h (pe_rq_store p), pe_rps_store := handle_disable h (pe_rps_store p)\<rparr>"

text \<open>An operation on the established connection of a key.\<close>

definition on_connection ::
  "sockaddr \<times> sockaddr \<Rightarrow> (ctrl_block \<Rightarrow> ('a \<times> ctrl_block) outcome) \<Rightarrow> tcp_peer \<Rightarrow> 'a outcome \<times> tcp_peer" where
  "on_connection key f p =
     (case pe_established p key of
        None \<Rightarrow> (Err (fail_new ENOTCONN ''connection not established''), p)
      | Some es \<Rightarrow>
          (case f (load_cb es p) of
             Ok (a, cb) \<Rightarrow> (Ok a, store_cb key es cb p)
           | Err e \<Rightarrow> (Err e, p)
           | Panic \<Rightarrow> (Panic, p)))"

section \<open>Socket calls\<close>

definition do_socket :: "qdesc \<Rightarrow> tcp_peer \<Rightarrow> unit outcome \<times> tcp_peer" where
  "do_socket qd p =
     (case map_of (pe_sockets p) qd of
        None \<Rightarrow> (Ok (), p\<lparr>pe_sockets := AList.update qd (Inactive None) (pe_sockets p)\<rparr>)
      | Some _ \<Rightarrow> (Err (fail_new EBUSY ''queue descriptor in use''), p))"

text \<open>The address check runs over all sockets; one whose connection was migrated out does not count.\<close>

fun bound_to :: "sockaddr \<Rightarrow> socket \<Rightarrow> bool" where
  "bound_to addr (Inactive local) = (local = Some addr)"
| "bound_to addr (Listening local) = (local = addr)"
| "bound_to addr (Connecting local remote) = (local = addr)"
| "bound_to addr (SockEstablished local remote) = (local = addr)"
| "bound_to addr (MigratedOut local remote) = False"

definition bind_port :: "u16 \<Rightarrow> ephemeral_ports \<Rightarrow> u16 outcome \<times> ephemeral_ports" where
  "bind_port port ports =
     (if is_private port then
        (case alloc_port port ports of (Ok _, ports) \<Rightarrow> (Ok port, ports) | (Err e, ports) \<Rightarrow> (Err e, ports) | (Panic, ports) \<Rightarrow> (Panic, ports))
      else if port = 0 then alloc_any ports
      else (Ok port, ports))"

definition bind :: "qdesc \<Rightarrow> sockaddr \<Rightarrow> tcp_peer \<Rightarrow> unit outcome \<times> tcp_peer" where
  "bind qd addr p =
     (if list_ex (\<lambda>(_, s). bound_to addr s) (pe_sockets p) then (Err (fail_new EADDRINUSE ''address already in use''), p)
      else case bind_port (snd addr) (pe_ephemeral_ports p) of
             (Err e, ports) \<Rightarrow> (Err e, p\<lparr>pe_ephemeral_ports := ports\<rparr>)
           | (Panic, ports) \<Rightarrow> (Panic, p)
           | (Ok port, ports) \<Rightarrow>
               let addr = (fst addr, port);
                   p = p\<lparr>pe_ephemeral_ports := ports, pe_tcpmig := tp_set_port port (pe_tcpmig p)\<rparr>;
                   rollback = (if is_private port then p\<lparr>pe_ephemeral_ports := free_port port (pe_ephemeral_ports p)\<rparr> else p)
               in case map_of (pe_sockets p) qd of
                    Some (Inactive None) \<Rightarrow>
                      (Ok (), p\<lparr>pe_sockets := AList.update qd (Inactive (Some addr)) (pe_sockets p)\<rparr>)
                  | Some (Inactive (Some _)) \<Rightarrow> (Err (fail_new EINVAL ''socket is already bound to an address''), rollback)
                  | _ \<Rightarrow> (Err (fail_new EBADF ''invalid queue descriptor''), rollback))"

text \<open>The nonce is drawn from the random-number generator.\<close>

definition listen :: "qdesc \<Rightarrow> nat \<Rightarrow> u32 \<Rightarrow> tcp_peer \<Rightarrow> unit outcome \<times> tcp_peer" where
  "listen qd max_backlog n p =
     (case map_of (pe_sockets p) qd of
        Some (Inactive (Some local)) \<Rightarrow>
          if pe_passive p local \<noteq> None
          then (Err (fail_new EADDRINUSE ''another socket is already listening on the same address/port pair''), p)
          else (Ok (), p\<lparr>pe_passive := (pe_passive p)(local \<mapsto> passive_new local max_backlog (pe_config p) (pe_link p) n),
                         pe_sockets := AList.update qd (Listening local) (pe_sockets p)\<rparr>)
      | Some (Listening _) \<Rightarrow> (Err (fail_new EINVAL ''socket is already listening''), p)
      | Some (Inactive None) \<Rightarrow> (Err (fail_new EDESTADDRREQ ''socket is not bound to a local address''), p)
      | Some (Connecting _ _) \<Rightarrow> (Err (fail_new EINVAL ''socket is connecting''), p)
      | Some (SockEstablished _ _) \<Rightarrow> (Err (fail_new EINVAL ''socket is connected''), p)
      | _ \<Rightarrow> (Err (fail_new EBADF ''invalid queue descriptor''), p))"

fun receive_buffered :: "(tcp_header \<times> bytes) list \<Rightarrow> ctrl_block \<Rightarrow> ctrl_block option" where
  "receive_buffered [] cb = Some cb"
| "receive_buffered ((h, d) # q) cb = Option.bind (cb_receive h d cb) (receive_buffered q)"

text \<open>A connection leaves the ready queue: it gets the segments buffered while it was on its way, its statistics are
  enabled and it enters the tables; a duplicate in one of them panics.\<close>

definition accept_connection :: "sockaddr \<Rightarrow> qdesc \<Rightarrow> ctrl_block \<Rightarrow> tcp_peer \<Rightarrow> qdesc outcome \<times> tcp_peer" where
  "accept_connection local new_qd cb p =
     (let remote = cb_remote cb;
          (buffered, mig) = close_active_migration remote (pe_tcpmig p);
          p = p\<lparr>pe_tcpmig := mig\<rparr>
      in case receive_buffered (case buffered of Some q \<Rightarrow> q | None \<Rightarrow> []) (refresh_cb p cb) of
           None \<Rightarrow> (Panic, p)
         | Some cb \<Rightarrow>
             let (es, p) = new_established cb (log_cb cb p)
             in case enable_stats (es_handle es) (length (recv_queue (cb_receiver cb))) p of
                  None \<Rightarrow> (Panic, p)
                | Some p \<Rightarrow>
                    if (case map_of (pe_sockets p) new_qd of None \<Rightarrow> False | Some (MigratedOut _ _) \<Rightarrow> False | _ \<Rightarrow> True)
                       \<or> pe_qds p (local, remote) \<noteq> None \<or> pe_established p (local, remote) \<noteq> None
                    then (Panic, p)
                    else (Ok new_qd,
                          p\<lparr>pe_sockets := AList.update new_qd (SockEstablished local remote) (pe_sockets p),
                            pe_qds := (pe_qds p)((local, remote) \<mapsto> new_qd),
                            pe_established := (pe_established p)((local, remote) \<mapsto> es)\<rparr>))"

text \<open>\<open>None\<close> is \<^verbatim>\<open>Poll::Pending\<close>.\<close>

definition poll_accept :: "qdesc \<Rightarrow> qdesc \<Rightarrow> nat \<Rightarrow> tcp_peer \<Rightarrow> qdesc outcome option \<times> tcp_peer" where
  "poll_accept qd new_qd task p =
     (case map_of (pe_sockets p) qd of
        None \<Rightarrow> (Some (Err (fail_new EBADF ''bad file descriptor'')), p)
      | Some (Listening local) \<Rightarrow>
          (case pe_passive p local of
             None \<Rightarrow> (Some Panic, p)
           | Some ps \<Rightarrow>
               (case passive_poll_accept task ps of
                  None \<Rightarrow> (Some Panic, p)
                | Some (r, ps) \<Rightarrow>
                    let p = p\<lparr>pe_passive := (pe_passive p)(local \<mapsto> ps)\<rparr>
                    in (case r of
                          None \<Rightarrow> (None, p)
                        | Some (Ok cb) \<Rightarrow> (case accept_connection local new_qd cb p of (r, p) \<Rightarrow> (Some r, p))
                        | Some (Err e) \<Rightarrow> (Some (Err e), p)
                        | Some Panic \<Rightarrow> (Some Panic, p))))
      | Some _ \<Rightarrow> (Some (Err (fail_new EOPNOTSUPP ''socket not listening'')), p))"

definition connect_local :: "qdesc \<Rightarrow> tcp_peer \<Rightarrow> sockaddr outcome \<times> tcp_peer" where
  "connect_local qd p =
     (case map_of (pe_sockets p) qd of
        Some (Inactive None) \<Rightarrow>
          (case alloc_any (pe_ephemeral_ports p) of
             (Ok port, ports) \<Rightarrow> (Ok (pe_ip p, port), p\<lparr>pe_ephemeral_ports := ports\<rparr>)
           | (Err e, ports) \<Rightarrow> (Err e, p)
           | (Panic, ports) \<Rightarrow> (Panic, p))
      | Some (Inactive (Some local)) \<Rightarrow> (Ok local, p)
      | Some (Connecting _ _) \<Rightarrow> (Err (fail_new EALREADY ''socket is connecting''), p)
      | Some (SockEstablished _ _) \<Rightarrow> (Err (fail_new EISCONN ''socket is connected''), p)
      | _ \<Rightarrow> (Err (fail_new EBADF ''invalid queue descriptor''), p))"

definition connect :: "(bytes \<Rightarrow> u32) \<Rightarrow> qdesc \<Rightarrow> sockaddr \<Rightarrow> tcp_peer \<Rightarrow> unit outcome \<times> tcp_peer" where
  "connect crc qd remote p =
     (case connect_local qd p of
        (Err e, p) \<Rightarrow> (Err e, p)
      | (Panic, p) \<Rightarrow> (Panic, p)
      | (Ok local, p) \<Rightarrow>
          let (local_isn, g) = isn_generate crc local remote (pe_isn_generator p);
              a = active_open_new local_isn local remote (pe_config p) (pe_link p);
              already = pe_connecting p (local, remote) \<noteq> None;
              p = p\<lparr>pe_sockets := AList.update qd (Connecting local remote) (pe_sockets p), pe_isn_generator := g,
                    pe_connecting := (pe_connecting p)((local, remote) \<mapsto> a)\<rparr>
          in if already then (Err (fail_new EALREADY ''socket is connecting''), p) else (Ok (), p))"

definition poll_connect_finished :: "qdesc \<Rightarrow> nat \<Rightarrow> tcp_peer \<Rightarrow> unit outcome option \<times> tcp_peer" where
  "poll_connect_finished fd task p =
     (case map_of (pe_sockets p) fd of
        None \<Rightarrow> (Some (Err (fail_new EBADF ''bad queue descriptor'')), p)
      | Some (Connecting local remote) \<Rightarrow>
          (case pe_connecting p (local, remote) of
             None \<Rightarrow> (Some (Err (fail_new EAGAIN ''socket not connecting'')), p)
           | Some a \<Rightarrow>
               (case poll_result task a of
                  (None, a) \<Rightarrow> (None, p\<lparr>pe_connecting := (pe_connecting p)((local, remote) \<mapsto> a)\<rparr>)
                | (Some r, a) \<Rightarrow>
                    let p = p\<lparr>pe_connecting := (pe_connecting p)((local, remote) := None)\<rparr>
                    in (case r of
                          Err e \<Rightarrow> (Some (Err e), p)
                        | Panic \<Rightarrow> (Some Panic, p)
                        | Ok cb \<Rightarrow>
                            let (es, p) = new_established cb p
                            in if pe_established p (local, remote) \<noteq> None then (Some Panic, p)
                               else (Some (Ok ()),
                                     p\<lparr>pe_sockets := AList.update fd (SockEstablished local remote) (pe_sockets p),
                                       pe_established := (pe_established p)((local, remote) \<mapsto> es)\<rparr>))))
      | Some _ \<Rightarrow> (Some (Err (fail_new EAGAIN ''socket not connecting'')), p))"

definition peer_poll_recv :: "qdesc \<Rightarrow> nat \<Rightarrow> tcp_peer \<Rightarrow> bytes outcome option \<times> tcp_peer" where
  "peer_poll_recv fd task p =
     (case map_of (pe_sockets p) fd of
        Some (SockEstablished local remote) \<Rightarrow>
          (case on_connection (local, remote) (\<lambda>cb. Ok (poll_recv task cb)) p of
             (Ok None, p) \<Rightarrow> (None, p)
           | (Ok (Some b), p) \<Rightarrow> (Some (Ok b), p)
           | (Err e, p) \<Rightarrow> (Some (Err e), p)
           | (Panic, p) \<Rightarrow> (Some Panic, p))
      | Some (Connecting _ _) \<Rightarrow> (Some (Err (fail_new EINPROGRESS ''socket connecting'')), p)
      | Some (Inactive _) \<Rightarrow> (Some (Err (fail_new EBADF ''socket inactive'')), p)
      | Some (Listening _) \<Rightarrow> (Some (Err (fail_new ENOTCONN ''socket listening'')), p)
      | Some (MigratedOut _ _) \<Rightarrow> (Some (Err (fail_new ETCPMIG ''socket migrated out'')), p)
      | None \<Rightarrow> (Some (Err (fail_new EBADF ''bad queue descriptor'')), p))"

definition peer_send :: "qdesc \<Rightarrow> bytes \<Rightarrow> tcp_peer \<Rightarrow> unit outcome \<times> tcp_peer" where
  "peer_send fd buf p =
     (case map_of (pe_sockets p) fd of
        Some (SockEstablished local remote) \<Rightarrow>
          on_connection (local, remote) (\<lambda>cb. bind_out (cb_send buf cb) (\<lambda>cb. Ok ((), cb))) p
      | Some (MigratedOut _ _) \<Rightarrow> (Err (fail_new ETCPMIG ''socket migrated out''), p)
      | Some _ \<Rightarrow> (Err (fail_new ENOTCONN ''connection not established''), p)
      | None \<Rightarrow> (Err (fail_new EBADF ''bad queue descriptor''), p))"

text \<open>The descriptor is gone whatever the outcome; the connection stays in its table.\<close>

definition do_close :: "qdesc \<Rightarrow> tcp_peer \<Rightarrow> unit outcome \<times> tcp_peer" where
  "do_close qd p =
     (let entry = map_of (pe_sockets p) qd; p = p\<lparr>pe_sockets := AList.delete qd (pe_sockets p)\<rparr>
      in case entry of
           Some (SockEstablished local remote) \<Rightarrow>
             on_connection (local, remote) (\<lambda>cb. bind_out (expect (cb_close cb)) (\<lambda>cb. Ok ((), cb))) p
         | Some _ \<Rightarrow> (Err (fail_new ENOTSUP ''close not implemented for listening sockets''), p)
         | None \<Rightarrow> (Err (fail_new EBADF ''bad queue descriptor''), p))"

text \<open>The three queries on an established connection.\<close>

definition established_query :: "(ctrl_block \<Rightarrow> 'a) \<Rightarrow> qdesc \<Rightarrow> tcp_peer \<Rightarrow> 'a outcome" where
  "established_query f fd p =
     (case map_of (pe_sockets p) fd of
        Some (SockEstablished local remote) \<Rightarrow>
          (case pe_established p (local, remote) of
             Some es \<Rightarrow> Ok (f (es_cb es))
           | None \<Rightarrow> Err (fail_new ENOTCONN ''connection not established''))
      | Some _ \<Rightarrow> Err (fail_new ENOTCONN ''connection not established'')
      | None \<Rightarrow> Err (fail_new EBADF ''bad queue descriptor''))"

definition remote_mss :: "qdesc \<Rightarrow> tcp_peer \<Rightarrow> nat outcome" where
  "remote_mss = established_query (\<lambda>cb. mss (cb_sender cb))"

definition current_rto :: "qdesc \<Rightarrow> tcp_peer \<Rightarrow> duration outcome" where
  "current_rto = established_query (\<lambda>cb. rto (rto_calculator cb))"

definition endpoints :: "qdesc \<Rightarrow> tcp_peer \<Rightarrow> (sockaddr \<times> sockaddr) outcome" where
  "endpoints = established_query (\<lambda>cb. (cb_local cb, cb_remote cb))"

section \<open>Segments from the network\<close>

definition send_rst :: "sockaddr \<Rightarrow> sockaddr \<Rightarrow> tcp_peer \<Rightarrow> unit outcome \<times> tcp_peer" where
  "send_rst local remote p =
     (case pe_arp p (fst remote) of
        None \<Rightarrow> (Err (fail_new EINVAL ''detination not in ARP cache''), p)
      | Some remote_link_addr \<Rightarrow>
          (Ok (), p\<lparr>pe_transmitted := pe_transmitted p @
             [tcp_segment_to remote_link_addr (pe_link p) local remote (pe_config p)
               ((tcp_new (snd local) (snd remote))\<lparr>rst := True\<rparr>)]\<rparr>))"

text \<open>\<^verbatim>\<open>Ipv4Addr::is_broadcast\<close>, \<^verbatim>\<open>is_multicast\<close>, \<^verbatim>\<open>is_unspecified\<close>.\<close>

definition invalid_source :: "ipv4addr \<Rightarrow> bool" where
  "invalid_source a \<longleftrightarrow> a = 0xFFFFFFFF \<or> drop_bit 28 a = 0xE \<or> a = 0"

text \<open>The routing of a parsed segment: an established connection, one being opened, one that is arriving by
  migration, a listening socket, or nobody.\<close>

definition peer_route ::
  "(bytes \<Rightarrow> u32) \<Rightarrow> ipv4_header \<Rightarrow> tcp_header \<Rightarrow> bytes \<Rightarrow> tcp_peer \<Rightarrow> unit outcome \<times> tcp_peer" where
  "peer_route crc ip h data p =
     (let local = (ip_dst_addr ip, dst_port h); remote = (ip_src_addr ip, src_port h); key = (local, remote)
      in if invalid_source (fst remote) then (Err (fail_new EINVAL ''invalid address type''), p)
         else case pe_established p key of
           Some es \<Rightarrow> on_connection key (\<lambda>cb. bind_out (expect (cb_receive h data cb)) (\<lambda>cb. Ok ((), cb))) p
         | None \<Rightarrow>
             (case pe_connecting p key of
                Some a \<Rightarrow>
                  (case active_receive (pe_now p) (pe_arp p) h a of
                     None \<Rightarrow> (Panic, p)
                   | Some (a, tx) \<Rightarrow>
                       (Ok (), p\<lparr>pe_connecting := (pe_connecting p)(key \<mapsto> a), pe_transmitted := pe_transmitted p @ tx\<rparr>))
              | None \<Rightarrow>
                  (case try_buffer_packet remote h data (pe_tcpmig p) of
                     (True, mig) \<Rightarrow> (Ok (), p\<lparr>pe_tcpmig := mig\<rparr>)
                   | (False, _) \<Rightarrow>
                       (case pe_passive p local of
                          Some ps \<Rightarrow>
                            (case passive_receive crc (pe_now p) (pe_arp p) ip h ps of
                               (r, ps) \<Rightarrow> (r, p\<lparr>pe_passive := (pe_passive p)(local \<mapsto> ps)\<rparr>))
                        | None \<Rightarrow> send_rst local remote p))))"

definition peer_receive :: "(bytes \<Rightarrow> u32) \<Rightarrow> ipv4_header \<Rightarrow> bytes \<Rightarrow> tcp_peer \<Rightarrow> unit outcome \<times> tcp_peer" where
  "peer_receive crc ip buf p =
     (case tcp_parse ip buf (rx_checksum_offload (pe_config p)) of
        Panic \<Rightarrow> (Panic, p)
      | Err e \<Rightarrow> (Err e, p)
      | Ok (h, data) \<Rightarrow> peer_route crc ip h data p)"

section \<open>Migration\<close>

text \<open>\<open>None\<close> is a panic.\<close>

definition migrate_out_connection :: "qdesc \<Rightarrow> tcp_peer \<Rightarrow> (tcp_state_msg \<times> tcp_peer) option" where
  "migrate_out_connection qd p =
     (case map_of (pe_sockets p) qd of
        Some (SockEstablished local remote) \<Rightarrow>
          let p = p\<lparr>pe_sockets := AList.update qd (MigratedOut local remote) (pe_sockets p)\<rparr>
          in if pe_qds p (local, remote) = None then None
             else (case pe_established p (local, remote) of
                     None \<Rightarrow> None
                   | Some es \<Rightarrow>
                       let p = p\<lparr>pe_qds := (pe_qds p)((local, remote) := None),
                                 pe_established := (pe_established p)((local, remote) := None)\<rparr>;
                           cb = wake (load_cb es p)
                       in Option.bind (cb_into_state cb) (\<lambda>(st, _). Some (tcp_state_new st, log_cb cb p)))
      | _ \<Rightarrow> None)"

definition migrate_in_connection :: "tcp_state_msg \<Rightarrow> tcp_peer \<Rightarrow> unit outcome \<times> tcp_peer" where
  "migrate_in_connection st p =
     (let cb = cb_from_state (pe_now p) (pe_link p) (cfg_tx_checksum_offload (pe_config p)) (pe_arp p)
                 (cfg_ack_delay_timeout (pe_config p)) (ts_cb st)
      in case pe_passive p (cb_local cb) of
           None \<Rightarrow> (Err (fail_new EBADF ''socket not listening''), p)
         | Some ps \<Rightarrow>
             (case push_migrated_in cb ps of
                None \<Rightarrow> (Panic, p)
              | Some ps \<Rightarrow> (Ok (), p\<lparr>pe_passive := (pe_passive p)(cb_local cb \<mapsto> ps)\<rparr>)))"

definition start_migration :: "sockaddr \<times> sockaddr \<Rightarrow> qdesc \<Rightarrow> tcp_peer \<Rightarrow> tcp_peer option" where
  "start_migration conn' qd p =
     (case pe_established p conn' of
        None \<Rightarrow> None
      | Some es \<Rightarrow>
          let p = disable_stats_of (es_handle es) p
          in map_option (\<lambda>mig. p\<lparr>pe_tcpmig := mig\<rparr>) (tp_initiate_migration conn' qd (pe_tcpmig p)))"

definition initiate_migration_by_addr :: "sockaddr \<times> sockaddr \<Rightarrow> tcp_peer \<Rightarrow> tcp_peer option" where
  "initiate_migration_by_addr conn' p = (case pe_qds p conn' of None \<Rightarrow> None | Some qd \<Rightarrow> start_migration conn' qd p)"

definition initiate_migration_by_qd :: "qdesc \<Rightarrow> tcp_peer \<Rightarrow> unit outcome \<times> tcp_peer" where
  "initiate_migration_by_qd qd p =
     (case map_of (pe_sockets p) qd of
        None \<Rightarrow> (Err (fail_new EBADF ''socket does not exist''), p)
      | Some (SockEstablished local remote) \<Rightarrow>
          (case start_migration (local, remote) qd p of None \<Rightarrow> (Panic, p) | Some p \<Rightarrow> (Ok (), p))
      | Some _ \<Rightarrow> (Err (fail_new EBADF ''unsupported socket variant for migrating out''), p))"

definition migrate_out_and_send :: "qdesc \<Rightarrow> tcp_peer \<Rightarrow> tcp_peer option" where
  "migrate_out_and_send qd p =
     Option.bind (migrate_out_connection qd p) (\<lambda>(st, p).
       map_option (\<lambda>mig. p\<lparr>pe_tcpmig := mig\<rparr>) (send_tcp_state st (pe_tcpmig p)))"

text \<open>What the peer does with the outcome of a migration message.\<close>

definition act_on_status :: "receive_status \<Rightarrow> tcp_peer \<Rightarrow> unit outcome \<times> tcp_peer" where
  "act_on_status status p =
     (let done = (\<lambda>m. case m of None \<Rightarrow> (Panic, p) | Some p \<Rightarrow> (Ok (), p))
      in case status of
           RsRejected local remote \<Rightarrow>
             (case pe_established p (local, remote) of
                None \<Rightarrow> (Panic, p)
              | Some es \<Rightarrow> done (enable_stats (es_handle es) (length (recv_queue (cb_receiver (es_cb es)))) p))
         | ReturnedBySwitch local remote \<Rightarrow> done (initiate_migration_by_addr (local, remote) p)
         | PrepareMigrationAcked qd \<Rightarrow> done (migrate_out_and_send qd (p\<lparr>pe_migrated_qd := Some qd\<rparr>))
         | StateReceived st \<Rightarrow> migrate_in_connection st p
         | RsHeartbeatResponse n \<Rightarrow> (Ok (), p\<lparr>pe_recv_queue_stats := update_threshold n (pe_recv_queue_stats p)\<rparr>)
         | _ \<Rightarrow> (Ok (), p))"

definition receive_tcpmig :: "ipv4_header \<Rightarrow> bytes \<Rightarrow> tcp_peer \<Rightarrow> unit outcome \<times> tcp_peer" where
  "receive_tcpmig ip buf p =
     (let (r, mig) = tcpmig_receive ip buf (pe_tcpmig p); p = p\<lparr>pe_tcpmig := mig\<rparr>
      in case r of Panic \<Rightarrow> (Panic, p) | Err e \<Rightarrow> (Err e, p) | Ok status \<Rightarrow> act_on_status status p)"

text \<open>The load signal of the switch; \<open>None\<close>: the buffer is too short.\<close>

definition receive_rps_signal :: "bytes \<Rightarrow> tcp_peer \<Rightarrow> tcp_peer option" where
  "receive_rps_signal buf p =
     (if length buf < 20 then None
      else Some (p\<lparr>pe_last_rps_signal := Some (unat (read_u32 buf 12), unat (read_u32 buf 16))\<rparr>))"

fun initiate_all :: "(sockaddr \<times> sockaddr) list \<Rightarrow> tcp_peer \<Rightarrow> tcp_peer option" where
  "initiate_all [] p = Some p"
| "initiate_all (c # cs) p = Option.bind (initiate_migration_by_addr c p) (initiate_all cs)"

definition rps_signal_action :: "tcp_peer \<Rightarrow> tcp_peer option" where
  "rps_signal_action p =
     (case pe_last_rps_signal p of
        None \<Rightarrow> Some p
      | Some (rps_sum, individual) \<Rightarrow>
          let p = p\<lparr>pe_last_rps_signal := None\<rparr>;
              threshold = nat \<lfloor>of_nat rps_sum * pe_rps_threshold p\<rfloor>;
              threshold_epsilon = nat \<lfloor>of_nat rps_sum * (pe_rps_threshold p + pe_threshold_epsilon p)\<rfloor>;
              reset = (\<lambda>p. p\<lparr>pe_rps_store := reset_stats (pe_rps_stats p) (pe_rps_store p)\<rparr>)
          in if rps_sum > pe_min_threshold p \<and> individual > threshold_epsilon then
               (case connections_to_proactively_migrate (set_threshold threshold (pe_rps_stats p)) (pe_rps_store p) of
                  None \<Rightarrow> None
                | Some (conns, rps) \<Rightarrow>
                    let p = p\<lparr>pe_rps_stats := rps, pe_reactive_migration_enabled := True\<rparr>
                    in map_option reset (initiate_all (case conns of Some cs \<Rightarrow> cs | None \<Rightarrow> []) p))
             else Some (reset (p\<lparr>pe_reactive_migration_enabled := False\<rparr>)))"

definition poll_stats :: "tcp_peer \<Rightarrow> tcp_peer option" where
  "poll_stats p =
     Option.bind (stats_poll (pe_recv_queue_stats p) (pe_rq_store p)) (\<lambda>(rq, rq_store).
     Option.bind (stats_poll (pe_rps_stats p) (pe_rps_store p)) (\<lambda>(rps, rps_store).
     Some (p\<lparr>pe_recv_queue_stats := rq, pe_rq_store := rq_store, pe_rps_stats := rps, pe_rps_store := rps_store\<rparr>)))"

definition peer_reactive_connections :: "tcp_peer \<Rightarrow> (sockaddr \<times> sockaddr) list option" where
  "peer_reactive_connections p =
     (if pe_reactive_migration_enabled p then fst (connections_to_reactively_migrate (pe_recv_queue_stats p)) else None)"

definition global_recv_queue_length :: "tcp_peer \<Rightarrow> nat" where
  "global_recv_queue_length p = st_global_stat (pe_recv_queue_stats p)"

definition register_application_state :: "qdesc \<Rightarrow> nat \<Rightarrow> (bytes \<Rightarrow> bytes) \<Rightarrow> tcp_peer \<Rightarrow> tcp_peer option" where
  "register_application_state qd sz f p =
     (case map_of (pe_sockets p) qd of
        Some (SockEstablished _ remote) \<Rightarrow>
          Some (p\<lparr>pe_tcpmig := tp_register_application_state remote sz f (pe_tcpmig p)\<rparr>)
      | _ \<Rightarrow> None)"

definition get_migrated_application_state ::
  "(bytes \<Rightarrow> nat \<times> (bytes \<Rightarrow> bytes)) \<Rightarrow> qdesc \<Rightarrow> tcp_peer \<Rightarrow> ((nat \<times> (bytes \<Rightarrow> bytes)) option \<times> tcp_peer) option" where
  "get_migrated_application_state app_deserialize qd p =
     (case map_of (pe_sockets p) qd of
        Some (SockEstablished _ remote) \<Rightarrow>
          (case tp_get_migrated_application_state app_deserialize remote (pe_tcpmig p) of
             (st, mig) \<Rightarrow> Some (st, p\<lparr>pe_tcpmig := mig\<rparr>))
      | _ \<Rightarrow> None)"

section \<open>Background tasks\<close>

text \<open>One resumption of the coroutine of a connection that is being opened, or of a half-open one of a listener.\<close>

definition connecting_background :: "sockaddr \<times> sockaddr \<Rightarrow> mac_address option \<Rightarrow> tcp_peer \<Rightarrow> tcp_peer option" where
  "connecting_background key answer p =
     (case pe_connecting p key of
        None \<Rightarrow> Some p
      | Some a \<Rightarrow>
          map_option (\<lambda>(a, tx). p\<lparr>pe_connecting := (pe_connecting p)(key \<mapsto> a), pe_transmitted := pe_transmitted p @ tx\<rparr>)
            (active_background answer a))"

definition listening_background :: "sockaddr \<Rightarrow> sockaddr \<Rightarrow> mac_address option \<Rightarrow> tcp_peer \<Rightarrow> tcp_peer option" where
  "listening_background local remote answer p =
     (case pe_passive p local of
        None \<Rightarrow> Some p
      | Some ps \<Rightarrow>
          map_option (\<lambda>(ps, tx). p\<lparr>pe_passive := (pe_passive p)(local \<mapsto> ps), pe_transmitted := pe_transmitted p @ tx\<rparr>)
            (passive_background answer remote ps))"

end
