(* ===== verification/Conn_Frame.thy ===== *)
theory Conn_Frame
  imports Conn_States Stats_Poll
begin

text \<open>
  What no operation of a control block changes: the endpoints of the connection, and of its two statistics
  handles everything the collector relies on. An operation only leaves reports on a handle or marks it for
  removal, so the collector's invariant survives it.
\<close>

section \<open>Reports on a handle\<close>

definition reported :: "stats_handle \<Rightarrow> stats_handle \<Rightarrow> bool" where
  "reported h h' \<longleftrightarrow> (stat h' = Disabled \<longleftrightarrow> stat h = Disabled) \<and> sval (stat h') = sval (stat h)
     \<and> bucket_list_position h' = bucket_list_position h"

lemma reported_refl [simp]: "reported h h"
  by (simp add: reported_def)

lemma reported_trans: "reported h1 h2 \<Longrightarrow> reported h2 h3 \<Longrightarrow> reported h1 h3"
  by (simp add: reported_def)

lemma reported_ops [simp]: "reported h (sh_set v h)" "reported h (sh_increment h)" "reported h (sh_disable h)"
  by (simp_all add: reported_def sh_set_def sh_increment_def sh_disable_def split: stat.split option.split)

lemma reported_more:
  "reported h0 h \<Longrightarrow> reported h0 (sh_set v h)" "reported h0 h \<Longrightarrow> reported h0 (sh_increment h)"
  "reported h0 h \<Longrightarrow> reported h0 (sh_disable h)"
  by (blast intro: reported_trans reported_ops)+

section \<open>Operations of a control block\<close>

definition rx_kept :: "receiver \<Rightarrow> receiver \<Rightarrow> bool" where
  "rx_kept r r' \<longleftrightarrow> reported (recv_queue_stats r) (recv_queue_stats r') \<and> reported (rps_stats r) (rps_stats r')"

definition kept :: "ctrl_block \<Rightarrow> ctrl_block \<Rightarrow> bool" where
  "kept cb cb' \<longleftrightarrow> cb_local cb' = cb_local cb \<and> cb_remote cb' = cb_remote cb \<and> rx_kept (cb_receiver cb) (cb_receiver cb')"

lemma kept_refl [simp]: "rx_kept r r" "kept cb cb"
  by (simp_all add: rx_kept_def kept_def)

lemma kept_trans [trans]:
  "rx_kept r1 r2 \<Longrightarrow> rx_kept r2 r3 \<Longrightarrow> rx_kept r1 r3" "kept a b \<Longrightarrow> kept b c \<Longrightarrow> kept a c"
  by (auto simp: rx_kept_def kept_def intro: reported_trans)

text \<open>Updates of the other fields.\<close>

lemma kept_updates [simp]:
  "kept cb0 (cb\<lparr>cb_sender := s\<rparr>) = kept cb0 cb" "kept cb0 (cb\<lparr>cb_state := st\<rparr>) = kept cb0 cb"
  "kept cb0 (cb\<lparr>retransmit_deadline := d\<rparr>) = kept cb0 cb" "kept cb0 (cb\<lparr>ack_deadline := d\<rparr>) = kept cb0 cb"
  "kept cb0 (cb\<lparr>rto_calculator := c\<rparr>) = kept cb0 cb" "kept cb0 (cb\<lparr>user_is_done_sending := b\<rparr>) = kept cb0 cb"
  "kept cb0 (cb\<lparr>waker := w\<rparr>) = kept cb0 cb" "kept cb0 (cb\<lparr>woken := ws\<rparr>) = kept cb0 cb"
  "kept cb0 (cb\<lparr>clock_now := t\<rparr>) = kept cb0 cb" "kept cb0 (cb\<lparr>arp_cache := m\<rparr>) = kept cb0 cb"
  "kept cb0 (cb\<lparr>transmitted := x\<rparr>) = kept cb0 cb" "kept cb0 (cb\<lparr>out_of_order := q\<rparr>) = kept cb0 cb"
  "kept cb0 (cb\<lparr>out_of_order_fin := f\<rparr>) = kept cb0 cb"
  by (simp_all add: kept_def)

lemma kept_emit [simp]: "kept cb0 (emit h b l cb) = kept cb0 cb"
  by (simp add: emit_def set_ack_deadline_def Let_def split: tcp_state.split)

lemma kept_disable_stats: "kept cb0 cb \<Longrightarrow> kept cb0 (disable_stats cb)"
  by (auto simp: kept_def rx_kept_def disable_stats_def intro: reported_more)

lemma kept_send_ack: "send_ack cb = Some cb' \<Longrightarrow> kept cb0 cb' = kept cb0 cb"
  by (auto simp: send_ack_def Let_def bind_eq_Some_conv split: option.splits)

lemma kept_send_immediate: "send_immediate b l cb = Some cb' \<Longrightarrow> kept cb0 cb' = kept cb0 cb"
  by (auto simp: send_immediate_def Let_def bind_eq_Some_conv split: option.splits if_splits)

lemma kept_cb_send: "cb_send b cb = Ok cb' \<Longrightarrow> kept cb0 cb' = kept cb0 cb"
proof -
  assume s: "cb_send b cb = Ok cb'"
  have "send_slow_path b cb = Ok cb' \<Longrightarrow> ?thesis"
    by (auto simp: send_slow_path_def Let_def split: if_splits)
  moreover have "expect (send_immediate b l cb) = Ok cb' \<Longrightarrow> ?thesis" for l
    by (cases "send_immediate b l cb") (auto dest: kept_send_immediate)
  ultimately show ?thesis
    using s by (auto simp: cb_send_def Let_def split: if_splits option.splits)
qed

lemma kept_cb_close: "cb_close cb = Some cb' \<Longrightarrow> kept cb cb'"
  using kept_disable_stats [OF kept_refl(2)]
  by (auto simp: cb_close_def split: if_splits outcome.splits dest: kept_cb_send)

lemma kept_retransmitter: "retransmitter cb = Some cb' \<Longrightarrow> kept cb cb'"
  by (auto simp: retransmitter_def cb_retransmit_def Let_def bind_eq_Some_conv split: list.splits option.splits if_splits)

lemma kept_acknowledger: "acknowledger cb = Some cb' \<Longrightarrow> kept cb cb'"
  by (auto simp: acknowledger_def kept_send_ack split: option.splits if_splits)

lemma kept_background_sender:
  "sender_probe_again b n l cb = Some cb' \<Longrightarrow> kept cb cb'"
  "sender_after_arp w cb = Some (SenderSent cb') \<Longrightarrow> kept cb cb'"
  "sender_after_arp w cb = Some (SenderProbe b n cb') \<Longrightarrow> kept cb cb'"
  "background_sender cb = Some (SenderSent cb') \<Longrightarrow> kept cb cb'"
  "background_sender cb = Some (SenderProbe b n cb') \<Longrightarrow> kept cb cb'"
  by (auto simp: background_sender_def sender_after_arp_def sender_probe_again_def sender_window_probe_def sender_send_segment_def Let_def
      bind_eq_Some_conv split: option.splits if_splits arp_wait.splits)

lemma kept_poll_recv: "poll_recv t cb = (r, cb') \<Longrightarrow> kept cb cb'"
  by (auto simp: poll_recv_def receiver_pop_def Let_def kept_def rx_kept_def split: if_splits list.splits)

section \<open>The receive routine\<close>

lemma rx_kept_push: "rx_kept r0 r \<Longrightarrow> rx_kept r0 (receiver_push b r)"
  by (auto simp: rx_kept_def receiver_push_def Let_def intro: reported_more)

lemma rx_kept_drain: "ooo_drain q n r a = (q', n', r', a') \<Longrightarrow> rx_kept r0 r \<Longrightarrow> rx_kept r0 r'"
  by (induction q n r a rule: ooo_drain.induct) (auto intro: rx_kept_push split: if_splits)

lemma kept_wake [simp]: "kept cb0 (wake cb) = kept cb0 cb"
  by (simp add: wake_def split: option.split)

lemma kept_receive_data:
  assumes "receive_data d cb = (f, cb')"
  shows "kept cb cb'"
proof -
  obtain q n r a where dr: "ooo_drain (out_of_order cb) (seq_add (receive_next (cb_receiver cb)) (of_nat (length d)))
      (receiver_push d (cb_receiver cb)) False = (q, n, r, a)"
    using prod_cases4 by blast
  then have "rx_kept (cb_receiver cb) r"
    by (rule rx_kept_drain) (simp add: rx_kept_push)
  moreover have "cb' = wake (cb\<lparr>out_of_order := q, cb_receiver := r\<rparr>)"
    using assms dr by (simp add: receive_data_def Let_def)
  ultimately show ?thesis
    by (simp only: kept_wake) (simp add: kept_def)
qed

lemma kept_receive_text: "receive_text h d cb = (f, a, cb') \<Longrightarrow> kept cb cb'"
  by (auto simp: receive_text_def Let_def split: if_splits prod.splits dest: kept_receive_data)

lemma kept_receive_ack: "receive_ack h now cb = Some (go, cb') \<Longrightarrow> kept cb cb'"
  by (auto simp: receive_ack_def all_acked_def Let_def bind_eq_Some_conv kept_send_ack
      split: if_splits tcp_state.splits)

lemma kept_receive_out_of_order: "receive_out_of_order h d s e l cb = Some cb' \<Longrightarrow> kept cb cb'"
  by (auto simp: receive_out_of_order_def store_out_of_order_fin_def store_out_of_order_segment_def
      bind_eq_Some_conv kept_send_ack split: if_splits)

lemma kept_receive_fin: "receive_fin cb = Some cb' \<Longrightarrow> kept cb cb'"
proof -
  let ?cb = "(disable_stats cb)\<lparr>cb_receiver := (cb_receiver (disable_stats cb))
      \<lparr>receive_next := seq_add (receive_next (cb_receiver (disable_stats cb))) 1\<rparr>\<rparr>"
  have "kept cb ?cb"
    using kept_disable_stats [of cb cb] by (simp add: kept_def rx_kept_def)
  moreover assume "receive_fin cb = Some cb'"
  ultimately show "kept cb cb'"
    by (auto simp: receive_fin_def Let_def kept_send_ack split: tcp_state.splits)
qed

lemma kept_receive_payload: "receive_payload h d s e l now rx cb = Some cb' \<Longrightarrow> kept cb cb'"
  by (auto simp: receive_payload_def schedule_ack_def Let_def kept_send_ack split: if_splits prod.splits option.splits
      dest: kept_receive_out_of_order kept_receive_text kept_receive_fin intro: kept_trans)

lemma kept_cb_receive: "cb_receive h d cb = Some cb' \<Longrightarrow> kept cb cb'"
proof (induction rule: cb_receive_cases)
  case Reset
  then show ?case
    by (simp add: receive_rst_def Let_def kept_disable_stats split: tcp_state.split)
qed (auto simp: kept_send_ack dest: kept_receive_ack kept_receive_payload intro: kept_trans)

lemma kept_cb_step: "cb_step cb e cb' \<Longrightarrow> kept cb cb'"
  by (induction rule: cb_step.induct)
    (auto simp: kept_cb_send dest: kept_cb_receive kept_cb_close kept_poll_recv kept_acknowledger kept_retransmitter
      kept_background_sender)

end
