(* ===== verification/Tcp_Handshake.thy ===== *)
theory Tcp_Handshake
  imports Tcp_Open
begin

text \<open>
  Establishment of connections: the three-way handshake between an active and a passive socket ends with two
  control blocks that agree on each other's sequence numbers, segment sizes and windows; and the tables of a
  passive socket stay consistent, and within its backlog, whatever arrives.
\<close>

section \<open>The three-way handshake\<close>

definition SYN_OPTIONS :: "tcp_config \<Rightarrow> tcp_options2 list" where
  "SYN_OPTIONS cfg = [MaximumSegmentSize (of_nat (advertised_mss cfg)), WindowScale (cfg_window_scale cfg)]"

lemma push_syn_options_fresh: "option_list h = [] \<Longrightarrow> push_syn_options cfg h = Some (h\<lparr>option_list := SYN_OPTIONS cfg\<rparr>)"
  by (simp add: push_syn_options_def push_option_def SYN_OPTIONS_def MAX_TCP_OPTIONS_def)

lemma scan_syn_options:
  "config_ok cfg \<Longrightarrow> scan_options (SYN_OPTIONS cfg) = (Some (cfg_window_scale cfg), advertised_mss cfg)"
  by (simp add: scan_options_def SYN_OPTIONS_def config_ok_def MAX_MSS_def unat_of_nat_u16)

lemma ucast_scale: "unat (ucast w :: u32) = unat w" for w :: u8
  by (simp add: unsigned_ucast_eq take_bit_nat_eq_self unsigned_less [THEN less_trans])

lemma scale_le_14: "(ucast w :: u32) \<le> 14 \<longleftrightarrow> unat w \<le> 14" "w \<le> 14 \<longleftrightarrow> unat w \<le> 14" for w :: u8
  by (simp_all add: word_le_nat_alt ucast_scale)

text \<open>One end of a fresh connection mirrors the other: what one will send next is what the other expects.\<close>

definition mirrors :: "ctrl_block \<Rightarrow> ctrl_block \<Rightarrow> bool" where
  "mirrors cb cb' \<longleftrightarrow> cb_local cb = cb_remote cb' \<and> cb_state cb = Established
     \<and> send_unacked (cb_sender cb) = receive_next (cb_receiver cb') \<and> send_next (cb_sender cb) = receive_next (cb_receiver cb')
     \<and> unsent_seq_no (cb_sender cb) = receive_next (cb_receiver cb') \<and> reader_next (cb_receiver cb') = receive_next (cb_receiver cb')
     \<and> ucast (snd_window_scale (cb_sender cb)) = window_scale cb'
     \<and> unsent_queue (cb_sender cb) = [] \<and> unacked_queue (cb_sender cb) = [] \<and> recv_queue (cb_receiver cb') = []"


text \<open>The messages and states of a handshake, in order.\<close>

definition hs_syn :: "active_open \<Rightarrow> tcp_header" where
  "hs_syn c = (tcp_new (snd (ao_local c)) (snd (ao_remote c)))\<lparr>syn := True, seq_num := ao_local_isn c,
     window_size := cfg_receive_window_size (ao_config c), option_list := SYN_OPTIONS (ao_config c)\<rparr>"

definition hs_inflight :: "(bytes \<Rightarrow> u32) \<Rightarrow> active_open \<Rightarrow> passive_socket \<Rightarrow> inflight_accept" where
  "hs_inflight crc c s =
     \<lparr>ia_local_isn = fst (isn_generate crc (ps_local s) (ao_local c) (ps_isn_generator s)),
      ia_remote_isn = ao_local_isn c, ia_header_window_size = cfg_receive_window_size (ao_config c),
      ia_remote_window_scale = Some (cfg_window_scale (ao_config c)), ia_mss = advertised_mss (ao_config c),
      ia_attempts = handshake_retries (ps_config s)\<rparr>"

definition hs_synack :: "inflight_accept \<Rightarrow> active_open \<Rightarrow> passive_socket \<Rightarrow> tcp_header" where
  "hs_synack ia c s = (tcp_new (snd (ps_local s)) (snd (ao_local c)))\<lparr>syn := True, seq_num := ia_local_isn ia,
     ack := True, ack_num := seq_add (ia_remote_isn ia) 1, window_size := cfg_receive_window_size (ps_config s),
     option_list := SYN_OPTIONS (ps_config s)\<rparr>"

definition hs_ack :: "inflight_accept \<Rightarrow> active_open \<Rightarrow> tcp_header" where
  "hs_ack ia c = (tcp_new (snd (ao_local c)) (snd (ao_remote c)))\<lparr>ack := True, ack_num := seq_add (ia_local_isn ia) 1,
     window_size := cfg_receive_window_size (ao_config c), seq_num := seq_add (ao_local_isn c) 1\<rparr>"

lemma tcp_segment_to_sel [simp]:
  "tcp_hdr (tcp_segment_to l l' local remote cfg h) = h"
  "ipv4_hdr (tcp_segment_to l l' local remote cfg h) = ipv4_new (fst local) (fst remote) TCP"
  by (simp_all add: tcp_segment_to_def)

lemma handshake_syn:
  "0 < ao_attempts c \<Longrightarrow> active_background (Some l) c =
     Some (c\<lparr>ao_attempts := ao_attempts c - 1\<rparr>, [tcp_segment_to l (ao_link c) (ao_local c) (ao_remote c) (ao_config c) (hs_syn c)])"
  by (simp add: active_background_def syn_header_def push_syn_options_fresh tcp_new_def hs_syn_def Let_def)

lemma handshake_syn_received:
  assumes "config_ok (ao_config c)" "ao_local c \<notin> set (rs_endpoints (ps_ready s))" "map_of (ps_inflight s) (ao_local c) = None"
    "length (ps_inflight s) + length (rs_ready (ps_ready s)) < ps_max_backlog s"
  shows "passive_receive crc t arp (ipv4_new (fst (ao_local c)) r TCP) (hs_syn c) s =
    (Ok (), s\<lparr>ps_isn_generator := snd (isn_generate crc (ps_local s) (ao_local c) (ps_isn_generator s)),
      ps_inflight := AList.update (ao_local c) (hs_inflight crc c s) (ps_inflight s)\<rparr>)"
  using assms
  by (simp add: passive_receive_def passive_syn_def ipv4_new_def hs_syn_def tcp_new_def scan_syn_options
      hs_inflight_def Let_def split: prod.split)

lemma handshake_synack:
  assumes "map_of (ps_inflight s) (ao_local c) = Some ia" "0 < ia_attempts ia"
  shows "passive_background (Some l) (ao_local c) s =
    Some (s\<lparr>ps_inflight := AList.update (ao_local c) (ia\<lparr>ia_attempts := ia_attempts ia - 1\<rparr>) (ps_inflight s)\<rparr>,
      [tcp_segment_to l (ps_link s) (ps_local s) (ao_local c) (ps_config s) (hs_synack ia c s)])"
  using assms
  by (simp add: passive_background_def synack_header_def push_syn_options_fresh tcp_new_def hs_synack_def Let_def)

definition hs_active_cb ::
  "instant \<Rightarrow> (ipv4addr \<Rightarrow> mac_address option) \<Rightarrow> inflight_accept \<Rightarrow> active_open \<Rightarrow> tcp_config \<Rightarrow> ctrl_block" where
  "hs_active_cb now arp ia c cfg =
     cb_new (ao_local c) (ao_remote c) now (ao_link c) (cfg_tx_checksum_offload (ao_config c)) arp
       (seq_add (ia_local_isn ia) 1) (cfg_ack_delay_timeout (ao_config c))
       (ucast (push_bit (unat (cfg_window_scale (ao_config c))) (cfg_receive_window_size (ao_config c))))
       (ucast (cfg_window_scale (ao_config c))) (seq_add (ao_local_isn c) 1)
       (ucast (push_bit (unat (cfg_window_scale cfg)) (cfg_receive_window_size cfg))) (cfg_window_scale cfg) (advertised_mss cfg)"

lemma handshake_synack_received:
  assumes "config_ok (ps_config s)" "arp (fst (ao_remote c)) = Some l" "ia_remote_isn ia = ao_local_isn c"
    "unat (cfg_window_scale (ao_config c)) \<le> 14" "unat (cfg_window_scale (ps_config s)) \<le> 14"
  shows "active_receive now arp (hs_synack ia c s) c =
    Some (set_result (Ok (hs_active_cb now arp ia c (ps_config s))) c,
      [tcp_segment_to l (ao_link c) (ao_local c) (ao_remote c) (ao_config c) (hs_ack ia c)])"
  using assms
  by (simp add: active_receive_def active_connection_def hs_synack_def tcp_new_def scan_syn_options negotiate_scale_def
      scale_le_14 ucast_scale checked_shl_u16_def hs_active_cb_def hs_ack_def Let_def)

definition hs_passive_cb ::
  "instant \<Rightarrow> (ipv4addr \<Rightarrow> mac_address option) \<Rightarrow> inflight_accept \<Rightarrow> active_open \<Rightarrow> passive_socket \<Rightarrow> ctrl_block" where
  "hs_passive_cb now arp ia c s =
     cb_new (ps_local s) (ao_local c) now (ps_link s) (cfg_tx_checksum_offload (ps_config s)) arp
       (seq_add (ia_remote_isn ia) 1) (cfg_ack_delay_timeout (ps_config s))
       (push_bit (unat (cfg_window_scale (ps_config s))) (ucast (cfg_receive_window_size (ps_config s))))
       (ucast (cfg_window_scale (ps_config s))) (seq_add (ia_local_isn ia) 1)
       (ucast (push_bit (unat (cfg_window_scale (ao_config c))) (cfg_receive_window_size (ao_config c))))
       (cfg_window_scale (ao_config c)) (advertised_mss (ao_config c))"

lemma handshake_ack_received:
  assumes "map_of (ps_inflight s) (ao_local c) = Some ia" "ao_local c \<notin> set (rs_endpoints (ps_ready s))"
    "ia_remote_window_scale ia = Some (cfg_window_scale (ao_config c))" "ia_mss ia = advertised_mss (ao_config c)"
    "ia_header_window_size ia = cfg_receive_window_size (ao_config c)"
    "unat (cfg_window_scale (ao_config c)) \<le> 14" "unat (cfg_window_scale (ps_config s)) \<le> 14"
  shows "\<exists>s'. passive_receive crc now arp (ipv4_new (fst (ao_local c)) r TCP) (hs_ack ia c) s = (Ok (), s')
    \<and> rs_ready (ps_ready s') = rs_ready (ps_ready s) @ [Ok (hs_passive_cb now arp ia c s)]"
  using assms
  by (simp add: passive_receive_def passive_ack_def passive_connection_def hs_ack_def ipv4_new_def tcp_new_def
      negotiate_scale_def ucast_scale checked_shl_u16_def checked_shl_u32_def hs_passive_cb_def rs_push_ok_def
      rs_wake_def cb_new_def Let_def)

lemma push_bit_fits:
  fixes w :: u16
  assumes "unat w * 2 ^ n < 2 ^ 16"
  shows "(ucast (push_bit n w) :: u32) = push_bit n (ucast w)"
proof (rule word_unat_eq_iff [THEN iffD2])
  have "unat (push_bit n w) = unat w * 2 ^ n"
    using assms by (simp add: unsigned_push_bit_eq push_bit_eq_mult [of n "unat w"] take_bit_nat_eq_self)
  moreover have "unat (push_bit n (ucast w :: u32)) = unat w * 2 ^ n"
    using assms by (simp add: unsigned_push_bit_eq push_bit_eq_mult [of n "unat w"] take_bit_nat_eq_self)
  ultimately show "unat (ucast (push_bit n w) :: u32) = unat (push_bit n (ucast w :: u32))"
    by simp
qed

lemma handshake_mirrors:
  assumes "ia_remote_isn ia = ao_local_isn c" "ao_remote c = ps_local s"
  shows "mirrors (hs_active_cb t arp ia c (ps_config s)) (hs_passive_cb t' arp' ia c s)"
    "mirrors (hs_passive_cb t' arp' ia c s) (hs_active_cb t arp ia c (ps_config s))"
  using assms
  by (simp_all add: mirrors_def hs_active_cb_def hs_passive_cb_def cb_new_def sender_new_def receiver_new_def)

text \<open>C7: the three-way handshake. An active socket sends its SYN to a listening socket that has room for it; the
  listener answers with a SYN+ACK, the active side with an ACK, and both end with an established connection.
  The two ends mirror each other: each expects the sequence number the other sends next, has the other's
  advertised segment size, and scales the other's window as the other does. The window the listener may send
  into is the one the active side keeps; in the other direction the windows agree when the scaled window of
  the listener fits in 16 bits.\<close>

theorem three_way_handshake:
  assumes conf: "config_ok (ao_config c)" "config_ok (ps_config s)"
      "unat (cfg_window_scale (ao_config c)) \<le> 14" "unat (cfg_window_scale (ps_config s)) \<le> 14"
    and peers: "ao_remote c = ps_local s" "0 < ao_attempts c" "arp (fst (ao_remote c)) = Some link"
    and room: "ao_local c \<notin> set (rs_endpoints (ps_ready s))" "map_of (ps_inflight s) (ao_local c) = None"
      "length (ps_inflight s) + length (rs_ready (ps_ready s)) < ps_max_backlog s"
  shows "\<exists>c1 syn s1 s2 synack c2 ackn s3 cb_c cb_s.
    active_background (Some link_s) c = Some (c1, [syn])
    \<and> passive_receive crc t1 arp_s (ipv4_hdr syn) (tcp_hdr syn) s = (Ok (), s1)
    \<and> passive_background (Some link_c) (ao_local c) s1 = Some (s2, [synack])
    \<and> active_receive t2 arp (tcp_hdr synack) c1 = Some (c2, [ackn]) \<and> ao_result c2 = Some (Ok cb_c)
    \<and> passive_receive crc t3 arp_s (ipv4_hdr ackn) (tcp_hdr ackn) s2 = (Ok (), s3)
    \<and> rs_ready (ps_ready s3) = rs_ready (ps_ready s) @ [Ok cb_s]
    \<and> mirrors cb_c cb_s \<and> mirrors cb_s cb_c
    \<and> mss (cb_sender cb_c) = advertised_mss (ps_config s) \<and> mss (cb_sender cb_s) = advertised_mss (ao_config c)
    \<and> send_window (cb_sender cb_s) = receive_buffer_size cb_c
    \<and> (unat (cfg_receive_window_size (ps_config s)) * 2 ^ unat (cfg_window_scale (ps_config s)) < 2 ^ 16 \<longrightarrow>
         send_window (cb_sender cb_c) = receive_buffer_size cb_s)"
proof -
  define ia where "ia = hs_inflight crc c s"
  define c1 where "c1 = c\<lparr>ao_attempts := ao_attempts c - 1\<rparr>"
  define s1 where "s1 = s\<lparr>ps_isn_generator := snd (isn_generate crc (ps_local s) (ao_local c) (ps_isn_generator s)),
      ps_inflight := AList.update (ao_local c) ia (ps_inflight s)\<rparr>"
  define ia' where "ia' = ia\<lparr>ia_attempts := ia_attempts ia - 1\<rparr>"
  define s2 where "s2 = s1\<lparr>ps_inflight := AList.update (ao_local c) ia' (ps_inflight s1)\<rparr>"
  have ia: "ia_remote_isn ia = ao_local_isn c1" "0 < ia_attempts ia" "hs_synack ia c s1 = hs_synack ia c1 s"
    "hs_ack ia c1 = hs_ack ia' c"
    using conf(2) by (simp_all add: ia_def hs_inflight_def config_ok_def c1_def hs_ack_def ia'_def hs_synack_def s1_def)
  have 3: "passive_background (Some link_c) (ao_local c) s1 =
      Some (s2, [tcp_segment_to link_c (ps_link s) (ps_local s) (ao_local c) (ps_config s) (hs_synack ia c1 s)])"
    using handshake_synack [of s1 c ia link_c] ia by (simp add: s1_def s2_def ia'_def update_conv)
  have 4: "active_receive t2 arp (hs_synack ia c1 s) c1 =
      Some (set_result (Ok (hs_active_cb t2 arp ia c1 (ps_config s))) c1,
        [tcp_segment_to link (ao_link c) (ao_local c) (ao_remote c) (ao_config c) (hs_ack ia' c)])"
    using handshake_synack_received [of s arp c1 link ia t2] conf peers ia by (simp add: c1_def)
  obtain s3 where 5: "passive_receive crc t3 arp_s (ipv4_new (fst (ao_local c)) (fst (ao_remote c)) TCP) (hs_ack ia' c) s2 = (Ok (), s3)"
    "rs_ready (ps_ready s3) = rs_ready (ps_ready s) @ [Ok (hs_passive_cb t3 arp_s ia' c s2)]"
    using handshake_ack_received [of s2 c ia' crc t3 arp_s "fst (ao_remote c)"] conf room(1)
    by (auto simp: s2_def s1_def ia'_def ia_def hs_inflight_def update_conv)
  have cbs: "hs_passive_cb t3 arp_s ia' c s2 = hs_passive_cb t3 arp_s ia c1 s"
    by (simp add: hs_passive_cb_def s2_def s1_def ia'_def c1_def)
  let ?c = "hs_active_cb t2 arp ia c1 (ps_config s)" and ?s = "hs_passive_cb t3 arp_s ia c1 s"
  have "mirrors ?c ?s" "mirrors ?s ?c"
    using handshake_mirrors [of ia c1 s] ia peers(1) by (simp_all add: c1_def)
  moreover have "mss (cb_sender ?c) = advertised_mss (ps_config s)" "mss (cb_sender ?s) = advertised_mss (ao_config c)"
      "send_window (cb_sender ?s) = receive_buffer_size ?c"
      "send_window (cb_sender ?c) = ucast (push_bit (unat (cfg_window_scale (ps_config s))) (cfg_receive_window_size (ps_config s)))"
      "receive_buffer_size ?s = push_bit (unat (cfg_window_scale (ps_config s))) (ucast (cfg_receive_window_size (ps_config s)))"
    by (simp_all add: hs_active_cb_def hs_passive_cb_def cb_new_def sender_new_def c1_def)
  moreover have 2: "passive_receive crc t1 arp_s (ipv4_new (fst (ao_local c)) (fst (ao_remote c)) TCP) (hs_syn c) s = (Ok (), s1)"
    using handshake_syn_received [OF conf(1) room] by (simp add: s1_def ia_def)
  moreover note handshake_syn [OF peers(2), of link_s, folded c1_def] push_bit_fits
  ultimately show ?thesis
    using 3 4 5 cbs
    by (intro exI [of _ c1] exI [of _ s1] exI [of _ s2] exI [of _ s3] exI [of _ ?c] exI [of _ ?s]
        exI [of _ "tcp_segment_to _ _ _ _ _ _"] exI [of _ "set_result _ _"]) (simp add: set_result_def)
qed


text \<open>Two hosts with the default configuration and a listener with a backlog of one.\<close>

definition demo_active :: active_open where
  "demo_active = active_open_new 0xFFFFFFFF (0x0A000107, 50000) (0x0A000109, 80) tcp_config_default (Mac 1 1 1 1 1 1)"

definition demo_listener :: passive_socket where
  "demo_listener = passive_new (0x0A000109, 80) 1 tcp_config_default (Mac 2 2 2 2 2 2) 7"

theorem three_way_handshake_witness:
  "\<exists>c1 syn s1 s2 synack c2 ackn s3 cb_c cb_s.
    active_background (Some (Mac 2 2 2 2 2 2)) demo_active = Some (c1, [syn])
    \<and> passive_receive (\<lambda>_. 42) 0 Map.empty (ipv4_hdr syn) (tcp_hdr syn) demo_listener = (Ok (), s1)
    \<and> passive_background (Some (Mac 1 1 1 1 1 1)) (0x0A000107, 50000) s1 = Some (s2, [synack])
    \<and> active_receive 1 (\<lambda>_. Some (Mac 2 2 2 2 2 2)) (tcp_hdr synack) c1 = Some (c2, [ackn]) \<and> ao_result c2 = Some (Ok cb_c)
    \<and> passive_receive (\<lambda>_. 42) 2 Map.empty (ipv4_hdr ackn) (tcp_hdr ackn) s2 = (Ok (), s3)
    \<and> rs_ready (ps_ready s3) = [Ok cb_s] \<and> mirrors cb_c cb_s \<and> send_window (cb_sender cb_c) = receive_buffer_size cb_s"
proof -
  have "ao_config demo_active = tcp_config_default" "ps_config demo_listener = tcp_config_default"
    "ao_remote demo_active = ps_local demo_listener" "0 < ao_attempts demo_active" "ao_local demo_active = (0x0A000107, 50000)"
    "ps_ready demo_listener = \<lparr>rs_ready = [], rs_endpoints = [], rs_waker = None, rs_woken = []\<rparr>"
    "ps_inflight demo_listener = []" "ps_max_backlog demo_listener = 1"
    by (simp_all add: demo_active_def demo_listener_def active_open_new_def passive_new_def tcp_config_default_def)
  moreover have "cfg_window_scale tcp_config_default = 0" "cfg_receive_window_size tcp_config_default = 0xffff"
    by (simp_all add: tcp_config_default_def)
  ultimately show ?thesis
    using three_way_handshake [of demo_active demo_listener "\<lambda>_. Some (Mac 2 2 2 2 2 2)" "Mac 2 2 2 2 2 2" "Mac 2 2 2 2 2 2"
        "\<lambda>_. 42" 0 Map.empty "Mac 1 1 1 1 1 1" 1 2] config_ok_default
    by simp metis
qed

section \<open>The tables of a listener\<close>

text \<open>The steps of a listening socket: a segment arrives, the application polls for a connection, a coroutine
  resumes.\<close>

inductive passive_step :: "(bytes \<Rightarrow> u32) \<Rightarrow> passive_socket \<Rightarrow> passive_socket \<Rightarrow> bool" for crc where
  ps_receive: "passive_receive crc now arp ip h p = (r, p') \<Longrightarrow> r \<noteq> Panic \<Longrightarrow> passive_step crc p p'"
| ps_accept: "passive_poll_accept task p = Some (r, p') \<Longrightarrow> passive_step crc p p'"
| ps_background: "passive_background answer remote p = Some (p', tx) \<Longrightarrow> passive_step crc p p'"

text \<open>The ready queue holds connections from the listener's address to distinct endpoints, which are the recorded
  ones.\<close>

definition listener_ok :: "passive_socket \<Rightarrow> bool" where
  "listener_ok p \<longleftrightarrow> distinct (map fst (ps_inflight p))
     \<and> (\<exists>cbs. rs_ready (ps_ready p) = map Ok cbs \<and> rs_endpoints (ps_ready p) = map cb_remote cbs
          \<and> distinct (map cb_remote cbs) \<and> (\<forall>cb\<in>set cbs. cb_local cb = ps_local p))"

definition backlog :: "passive_socket \<Rightarrow> nat" where
  "backlog p = length (ps_inflight p) + length (rs_ready (ps_ready p))"

lemma length_update_new: "k \<notin> fst ` set al \<Longrightarrow> length (AList.update k v al) = Suc (length al)"
  by (induction al) auto

lemma length_update_old: "k \<in> fst ` set al \<Longrightarrow> length (AList.update k v al) = length al"
  by (induction al) auto

lemma length_delete_old: "distinct (map fst al) \<Longrightarrow> k \<in> fst ` set al \<Longrightarrow> Suc (length (AList.delete k al)) = length al"
proof (induction al)
  case (Cons x al)
  then show ?case
    by (cases "fst x = k") (auto simp: AList.delete_id)
qed simp

lemma passive_connection_endpoints:
  "passive_connection now arp remote ia p = Some cb \<Longrightarrow> cb_remote cb = remote \<and> cb_local cb = ps_local p"
  by (auto simp: passive_connection_def Let_def Option.bind_eq_Some_conv cb_new_def split: prod.splits)

lemma rs_push_ok_some:
  "rs_push_ok cb r = Some r' \<longleftrightarrow> cb_remote cb \<notin> set (rs_endpoints r)
     \<and> r' = rs_wake (r\<lparr>rs_endpoints := rs_endpoints r @ [cb_remote cb], rs_ready := rs_ready r @ [Ok cb]\<rparr>)"
  by (auto simp: rs_push_ok_def)

lemma rs_wake_sel [simp]: "rs_ready (rs_wake r) = rs_ready r" "rs_endpoints (rs_wake r) = rs_endpoints r"
  by (simp_all add: rs_wake_def)

lemma listener_push:
  assumes "listener_ok p" "cb_local cb = ps_local p" "rs_push_ok cb (ps_ready p) = Some rs" "distinct (map fst al)"
  shows "listener_ok (p\<lparr>ps_inflight := al, ps_ready := rs\<rparr>)"
proof -
  obtain cbs where cbs: "rs_ready (ps_ready p) = map Ok cbs" "rs_endpoints (ps_ready p) = map cb_remote cbs"
    "distinct (map cb_remote cbs)" "\<forall>cb\<in>set cbs. cb_local cb = ps_local p"
    using assms(1) by (auto simp: listener_ok_def)
  have rs: "rs_ready rs = map Ok (cbs @ [cb])" "rs_endpoints rs = map cb_remote (cbs @ [cb])"
    "cb_remote cb \<notin> set (map cb_remote cbs)"
    using assms(3) cbs(1,2) by (simp_all add: rs_push_ok_some)
  then show ?thesis
    unfolding listener_ok_def using cbs(3,4) assms(2,4)
    by (intro conjI exI [of _ "cbs @ [cb]"]) simp_all
qed

lemma listener_accept:
  assumes "listener_ok p"
  shows "\<exists>r p'. passive_poll_accept task p = Some (r, p') \<and> listener_ok p' \<and> backlog p' \<le> backlog p
    \<and> ps_max_backlog p' = ps_max_backlog p
    \<and> r = (case rs_ready (ps_ready p) of [] \<Rightarrow> None | x # _ \<Rightarrow> Some x)"
proof -
  obtain cbs where cbs: "rs_ready (ps_ready p) = map Ok cbs" "rs_endpoints (ps_ready p) = map cb_remote cbs"
    "distinct (map cb_remote cbs)" "\<forall>cb\<in>set cbs. cb_local cb = ps_local p"
    "distinct (map fst (ps_inflight p))"
    using assms by (auto simp: listener_ok_def)
  show ?thesis
  proof (cases cbs)
    case Nil
    then show ?thesis
      using assms cbs by (simp add: passive_poll_accept_def rs_poll_def listener_ok_def backlog_def)
  next
    case (Cons cb cbs')
    then have "filter (\<lambda>e. e \<noteq> cb_remote cb) (map cb_remote cbs) = map cb_remote cbs'"
      using cbs(3) by (auto simp: filter_id_conv image_iff)
    then show ?thesis
      using Cons cbs by (auto simp: passive_poll_accept_def rs_poll_def listener_ok_def backlog_def Let_def)
  qed
qed

lemma listener_table:
  assumes "listener_ok p" "distinct (map fst al)"
  shows "listener_ok (p\<lparr>ps_inflight := al\<rparr>)" "listener_ok (p\<lparr>ps_isn_generator := g, ps_inflight := al\<rparr>)"
  using assms by (simp_all add: listener_ok_def)

lemma listener_syn:
  assumes "listener_ok p" "remote \<notin> set (rs_endpoints (ps_ready p))" "map_of (ps_inflight p) remote = None"
    "passive_syn crc remote h p = (r, p')"
  shows "r \<noteq> Panic \<and> listener_ok p' \<and> backlog p' \<le> max (backlog p) (ps_max_backlog p) \<and> ps_max_backlog p' = ps_max_backlog p"
proof -
  have new: "remote \<notin> fst ` set (ps_inflight p)"
    using assms(3) by (simp add: map_of_eq_None_iff)
  have "listener_ok (p\<lparr>ps_isn_generator := g, ps_inflight := AList.update remote ia (ps_inflight p)\<rparr>)" for g ia
    using assms(1) by (intro listener_table distinct_update) (simp_all add: listener_ok_def)
  then show ?thesis
    using assms(1,4) length_update_new [OF new]
    by (auto simp: passive_syn_def backlog_def Let_def split: if_splits prod.splits)
qed

lemma listener_ack:
  assumes "listener_ok p" "remote \<notin> set (rs_endpoints (ps_ready p))" "map_of (ps_inflight p) remote = Some ia"
    "passive_ack now arp remote h ia p = (r, p')"
  shows "(r = Panic \<longrightarrow> passive_connection now arp remote ia p = None)
    \<and> (r \<noteq> Panic \<longrightarrow> listener_ok p' \<and> backlog p' = backlog p \<and> ps_max_backlog p' = ps_max_backlog p)"
proof (cases "passive_connection now arp remote ia p")
  case (Some cb)
  let ?al = "AList.delete remote (ps_inflight p)"
  have cb: "cb_remote cb = remote" "cb_local cb = ps_local p"
    using passive_connection_endpoints [OF Some] by auto
  have old: "remote \<in> fst ` set (ps_inflight p)" "distinct (map fst (ps_inflight p))"
    using assms(1,3) by (auto simp: listener_ok_def dest: map_of_SomeD intro: rev_image_eqI)
  obtain rs where rs: "rs_push_ok cb (ps_ready p) = Some rs" "length (rs_ready rs) = Suc (length (rs_ready (ps_ready p)))"
    using assms(2) cb(1) by (simp add: rs_push_ok_def)
  have "listener_ok (p\<lparr>ps_inflight := ?al, ps_ready := rs\<rparr>)"
    using old(2) by (intro listener_push [OF assms(1) cb(2) rs(1)] distinct_delete)
  moreover have "backlog (p\<lparr>ps_inflight := ?al, ps_ready := rs\<rparr>) = backlog p"
    using length_delete_old [OF old(2,1)] rs(2) by (simp add: backlog_def)
  ultimately show ?thesis
    using assms(1,4) Some rs(1) by (auto simp: passive_ack_def Let_def split: if_splits)
qed (use assms in \<open>auto simp: passive_ack_def split: if_splits\<close>)

lemma listener_background:
  assumes "listener_ok p" "passive_background answer remote p = Some (p', tx)"
  shows "listener_ok p' \<and> backlog p' = backlog p \<and> ps_max_backlog p' = ps_max_backlog p"
proof (cases "map_of (ps_inflight p) remote")
  case (Some ia)
  then have old: "remote \<in> fst ` set (ps_inflight p)"
    by (auto dest: map_of_SomeD intro: rev_image_eqI)
  let ?al = "AList.update remote (ia\<lparr>ia_attempts := ia_attempts ia - 1\<rparr>) (ps_inflight p)"
  have "listener_ok (p\<lparr>ps_inflight := ?al\<rparr>)"
    using assms(1) by (intro listener_table distinct_update) (simp_all add: listener_ok_def)
  moreover have "backlog (p\<lparr>ps_inflight := ?al\<rparr>) = backlog p"
    using length_update_old [OF old] by (simp add: backlog_def)
  ultimately show ?thesis
    using assms Some by (auto simp: passive_background_def Let_def split: if_splits option.splits)
qed (use assms in \<open>auto simp: passive_background_def\<close>)

lemma listener_receive:
  assumes "listener_ok p" "passive_receive crc now arp ip h p = (r, p')"
  shows "(r = Panic \<longrightarrow> (\<exists>ia. map_of (ps_inflight p) (ip_src_addr ip, src_port h) = Some ia
      \<and> passive_connection now arp (ip_src_addr ip, src_port h) ia p = None))
    \<and> (r \<noteq> Panic \<longrightarrow> listener_ok p' \<and> backlog p' \<le> max (backlog p) (ps_max_backlog p) \<and> ps_max_backlog p' = ps_max_backlog p)"
proof (cases "(ip_src_addr ip, src_port h) \<in> set (rs_endpoints (ps_ready p))")
  case False
  show ?thesis
  proof (cases "map_of (ps_inflight p) (ip_src_addr ip, src_port h)")
    case None
    then show ?thesis
      using assms listener_syn [OF assms(1) False None, of crc h r p'] False by (simp add: passive_receive_def)
  next
    case (Some ia)
    then show ?thesis
      using assms listener_ack [OF assms(1) False Some, of now arp h r p'] False by (auto simp: passive_receive_def)
  qed
qed (use assms in \<open>auto simp: passive_receive_def\<close>)

lemma listener_step: "passive_step crc p p' \<Longrightarrow> listener_ok p \<Longrightarrow>
    listener_ok p' \<and> backlog p' \<le> max (backlog p) (ps_max_backlog p) \<and> ps_max_backlog p' = ps_max_backlog p"
proof (induction rule: passive_step.induct)
  case (ps_receive now arp ip h p r p')
  then show ?case
    using listener_receive [of p crc now arp ip h r p'] by blast
next
  case (ps_accept task p r p')
  then show ?case
    using listener_accept [of p task] by auto
next
  case (ps_background answer remote p p' tx)
  then show ?case
    using listener_background [of p answer remote p' tx] by simp
qed

lemma listener_steps:
  assumes "(passive_step crc)\<^sup>*\<^sup>* p p'" "listener_ok p" "backlog p \<le> ps_max_backlog p"
  shows "listener_ok p' \<and> backlog p' \<le> ps_max_backlog p \<and> ps_max_backlog p' = ps_max_backlog p"
  using assms by (induction rule: rtranclp_induct) (auto dest: listener_step)

lemma listener_new: "listener_ok (passive_new local n cfg link m)" "backlog (passive_new local n cfg link m) = 0"
  by (simp_all add: listener_ok_def passive_new_def backlog_def)

lemma passive_connection_none:
  assumes "passive_connection now arp remote ia p = None"
  shows "\<exists>w. ia_remote_window_scale ia = Some w \<and> (16 \<le> unat w \<or> 32 \<le> unat (cfg_window_scale (ps_config p)))"
  using assms
  by (auto simp: passive_connection_def negotiate_scale_def checked_shl_u16_def checked_shl_u32_def ucast_scale
      split: option.splits if_splits)

text \<open>whatever arrives, a listening socket never holds more half-open and waiting connections than its backlog.
  Polling it never fails an assertion, and hands out the connections in the order they were completed. Receiving a
  segment panics only on the acknowledgement of a half-open connection whose peer asked for a window scale of 16 or
  more, or when the configured scale is 32 or more.\<close>

theorem listener_within_backlog:
  assumes "(passive_step crc)\<^sup>*\<^sup>* (passive_new local max_backlog cfg link n) p"
  shows "length (ps_inflight p) + length (rs_ready (ps_ready p)) \<le> max_backlog
    \<and> (\<exists>p'. passive_poll_accept task p = Some (case rs_ready (ps_ready p) of [] \<Rightarrow> None | x # _ \<Rightarrow> Some x, p'))
    \<and> (fst (passive_receive crc now arp ip h p) = Panic \<longrightarrow>
        (\<exists>ia w. map_of (ps_inflight p) (ip_src_addr ip, src_port h) = Some ia \<and> ia_remote_window_scale ia = Some w
          \<and> (16 \<le> unat w \<or> 32 \<le> unat (cfg_window_scale (ps_config p)))))"
proof -
  have "ps_max_backlog (passive_new local max_backlog cfg link n) = max_backlog"
    by (simp add: passive_new_def)
  then have p: "listener_ok p" "backlog p \<le> max_backlog"
    using listener_steps [OF assms listener_new(1)] listener_new(2) by auto
  obtain r p' where r: "passive_receive crc now arp ip h p = (r, p')"
    by fastforce
  show ?thesis
    using p listener_accept [OF p(1), of task] listener_receive [OF p(1) r] r passive_connection_none
    by (auto simp: backlog_def)
qed

theorem listener_within_backlog_witness:
  "length (ps_inflight demo_listener) + length (rs_ready (ps_ready demo_listener)) \<le> 1
   \<and> (\<exists>p'. passive_poll_accept 3 demo_listener = Some (None, p'))
   \<and> fst (passive_receive (\<lambda>_. 42) 0 Map.empty (ipv4_new 1 2 TCP) (tcp_new 3 4) demo_listener) \<noteq> Panic"
proof -
  have "(passive_step (\<lambda>_. 42))\<^sup>*\<^sup>* (passive_new (0x0A000109, 80) 1 tcp_config_default (Mac 2 2 2 2 2 2) 7) demo_listener"
    by (simp add: demo_listener_def)
  moreover have "rs_ready (ps_ready demo_listener) = []" "ps_inflight demo_listener = []"
    by (simp_all add: demo_listener_def passive_new_def)
  ultimately show ?thesis
    using listener_within_backlog [of "\<lambda>_. 42" "(0x0A000109, 80)" 1 tcp_config_default "Mac 2 2 2 2 2 2" 7 demo_listener
        3 0 Map.empty "ipv4_new 1 2 TCP" "tcp_new 3 4"] by auto
qed

text \<open>window scaling loses the high bits: a peer that advertises a window of 32768 with a scale of 1, which is
  65536 bytes, gets a send window of zero on both the active and the passive side.\<close>

theorem scaled_window_truncated:
  "(ia_header_window_size ia = 0x8000 \<and> ia_remote_window_scale ia = Some 1 \<and> unat (cfg_window_scale (ps_config p)) < 32 \<longrightarrow>
     (\<exists>cb. passive_connection now arp remote ia p = Some cb \<and> send_window (cb_sender cb) = 0))
   \<and> (window_size h = 0x8000 \<and> option_list h = [WindowScale 1] \<and> unat (cfg_window_scale (ao_config a)) \<le> 14 \<longrightarrow>
     (\<exists>cb. active_connection now arp h a = Some cb \<and> send_window (cb_sender cb) = 0))"
  by (auto simp: passive_connection_def active_connection_def negotiate_scale_def checked_shl_u16_def checked_shl_u32_def
      ucast_scale scale_le_14 scan_options_def cb_new_def sender_new_def Let_def)

theorem scaled_window_truncated_witness:
  "\<exists>cb. active_connection 0 Map.empty ((tcp_new 80 50000)\<lparr>window_size := 0x8000, option_list := [WindowScale 1]\<rparr>) demo_active
      = Some cb \<and> send_window (cb_sender cb) = 0"
  using scaled_window_truncated [of _ _ _ _ _ "(tcp_new 80 50000)\<lparr>window_size := 0x8000, option_list := [WindowScale 1]\<rparr>" demo_active]
  by (simp add: demo_active_def active_open_new_def tcp_config_default_def)

end
