(* ===== verification/Peer_Tables.thy ===== *)
theory Peer_Tables
  imports Tcp_Peer Conn_Frame Tcp_Handshake
begin

text \<open>
  The tables of a TCP peer stay consistent, whatever the application calls, whatever arrives from the network and
  however the background tasks are interleaved.
\<close>

section \<open>The invariant\<close>

text \<open>A descriptor of a listening or established socket has its entry in the table of passive sockets or of
  connections; a connection has at most one descriptor, and the reverse table only names connections.\<close>

definition socks_ok :: "tcp_peer \<Rightarrow> bool" where
  "socks_ok p \<longleftrightarrow> distinct (map fst (pe_sockets p))
     \<and> (\<forall>qd l. map_of (pe_sockets p) qd = Some (Listening l) \<longrightarrow> l \<in> dom (pe_passive p))
     \<and> (\<forall>qd l r. map_of (pe_sockets p) qd = Some (SockEstablished l r) \<longrightarrow> (l, r) \<in> dom (pe_established p))
     \<and> (\<forall>qd qd' l r. map_of (pe_sockets p) qd = Some (SockEstablished l r) \<longrightarrow>
          map_of (pe_sockets p) qd' = Some (SockEstablished l r) \<longrightarrow> qd' = qd)
     \<and> dom (pe_qds p) \<subseteq> dom (pe_established p)"

text \<open>Every entry is filed under the endpoints it is for.\<close>

definition conns_ok :: "tcp_peer \<Rightarrow> bool" where
  "conns_ok p \<longleftrightarrow>
     (\<forall>l ps. pe_passive p l = Some ps \<longrightarrow> listener_ok ps \<and> ps_local ps = l)
     \<and> (\<forall>k es. pe_established p k = Some es \<longrightarrow> (cb_local (es_cb es), cb_remote (es_cb es)) = k)
     \<and> (\<forall>k a. pe_connecting p k = Some a \<longrightarrow> (ao_local a, ao_remote a) = k
          \<and> (\<forall>cb. ao_result a = Some (Ok cb) \<longrightarrow> (cb_local cb, cb_remote cb) = k))"

definition tables_ok :: "tcp_peer \<Rightarrow> bool" where
  "tables_ok p \<longleftrightarrow> socks_ok p \<and> conns_ok p"

lemma tables_okD:
  "tables_ok p \<Longrightarrow> pe_passive p l = Some ps \<Longrightarrow> listener_ok ps \<and> ps_local ps = l"
  "tables_ok p \<Longrightarrow> pe_established p k = Some es \<Longrightarrow> (cb_local (es_cb es), cb_remote (es_cb es)) = k"
  "tables_ok p \<Longrightarrow> pe_connecting p k = Some a \<Longrightarrow> (ao_local a, ao_remote a) = k
     \<and> (\<forall>cb. ao_result a = Some (Ok cb) \<longrightarrow> (cb_local cb, cb_remote cb) = k)"
  unfolding tables_ok_def conns_ok_def by blast+

text \<open>Most operations leave the descriptors and the keys of the tables alone.\<close>

definition same_tables :: "tcp_peer \<Rightarrow> tcp_peer \<Rightarrow> bool" where
  "same_tables p p' \<longleftrightarrow> pe_sockets p' = pe_sockets p \<and> dom (pe_passive p') = dom (pe_passive p)
     \<and> dom (pe_established p') = dom (pe_established p) \<and> pe_qds p' = pe_qds p"

lemma same_tables_refl [simp]: "same_tables p p"
  by (simp add: same_tables_def)

lemma socks_ok_same: "same_tables p p' \<Longrightarrow> socks_ok p' = socks_ok p"
  by (simp add: same_tables_def socks_ok_def)

text \<open>Fields outside the tables.\<close>

lemma tables_ok_updates [simp]:
  "tables_ok (p\<lparr>pe_now := t\<rparr>) = tables_ok p" "tables_ok (p\<lparr>pe_arp := m\<rparr>) = tables_ok p"
  "tables_ok (p\<lparr>pe_ephemeral_ports := e\<rparr>) = tables_ok p" "tables_ok (p\<lparr>pe_tcpmig := g\<rparr>) = tables_ok p"
  "tables_ok (p\<lparr>pe_transmitted := x\<rparr>) = tables_ok p" "tables_ok (p\<lparr>pe_woken := w\<rparr>) = tables_ok p"
  "tables_ok (p\<lparr>pe_isn_generator := i\<rparr>) = tables_ok p" "tables_ok (p\<lparr>pe_migrated_qd := q\<rparr>) = tables_ok p"
  "tables_ok (p\<lparr>pe_recv_queue_stats := s1\<rparr>) = tables_ok p" "tables_ok (p\<lparr>pe_rps_stats := s2\<rparr>) = tables_ok p"
  "tables_ok (p\<lparr>pe_rq_store := h1\<rparr>) = tables_ok p" "tables_ok (p\<lparr>pe_rps_store := h2\<rparr>) = tables_ok p"
  "tables_ok (p\<lparr>pe_next_handle := n\<rparr>) = tables_ok p" "tables_ok (p\<lparr>pe_reactive_migration_enabled := b\<rparr>) = tables_ok p"
  "tables_ok (p\<lparr>pe_last_rps_signal := l\<rparr>) = tables_ok p"
  by (simp_all add: tables_ok_def socks_ok_def conns_ok_def)

lemma tables_ok_log [simp]: "tables_ok (log_cb cb p) = tables_ok p"
  by (simp add: log_cb_def)

section \<open>Operations on connections\<close>

lemma load_cb_endpoints [simp]: "cb_local (load_cb es p) = cb_local (es_cb es)" "cb_remote (load_cb es p) = cb_remote (es_cb es)"
  by (simp_all add: load_cb_def refresh_cb_def Let_def)

lemma store_cb_ok:
  assumes "tables_ok p" "pe_established p key = Some es" "kept (load_cb es p) cb"
  shows "tables_ok (store_cb key es cb p)"
proof -
  have "same_tables p (store_cb key es cb p)"
    using assms(2) by (auto simp: same_tables_def store_cb_def log_cb_def)
  moreover have "conns_ok (store_cb key es cb p)"
    using assms by (auto simp: tables_ok_def conns_ok_def store_cb_def log_cb_def kept_def)
  ultimately show ?thesis
    using assms(1) by (simp add: tables_ok_def socks_ok_same)
qed

lemma on_connection_ok:
  assumes "tables_ok p" "\<And>cb a cb'. f cb = Ok (a, cb') \<Longrightarrow> kept cb cb'" "on_connection key f p = (r, p')"
  shows "tables_ok p'"
  using assms(1,3)
  by (auto simp: on_connection_def split: option.splits outcome.splits prod.splits intro: store_cb_ok assms(2))

lemma set_passive_ok:
  assumes "tables_ok p" "listener_ok ps" "ps_local ps = l"
  shows "tables_ok (p\<lparr>pe_passive := (pe_passive p)(l \<mapsto> ps)\<rparr>)"
  using assms by (auto simp: tables_ok_def socks_ok_def conns_ok_def)

lemma set_connecting_ok:
  assumes "tables_ok p" "(ao_local a, ao_remote a) = k" "\<And>cb. ao_result a = Some (Ok cb) \<Longrightarrow> (cb_local cb, cb_remote cb) = k"
  shows "tables_ok (p\<lparr>pe_connecting := (pe_connecting p)(k \<mapsto> a)\<rparr>)"
  using assms by (auto simp: tables_ok_def socks_ok_def conns_ok_def)

lemma drop_connecting_ok: "tables_ok p \<Longrightarrow> tables_ok (p\<lparr>pe_connecting := (pe_connecting p)(k := None)\<rparr>)"
  by (auto simp: tables_ok_def socks_ok_def conns_ok_def)

text \<open>Sockets that are neither listening nor established put no demand on the tables.\<close>

fun plain_socket :: "socket \<Rightarrow> bool" where
  "plain_socket (Listening _) = False"
| "plain_socket (SockEstablished _ _) = False"
| "plain_socket _ = True"

lemma set_plain_socket_ok:
  assumes "tables_ok p" "plain_socket s"
  shows "tables_ok (p\<lparr>pe_sockets := AList.update qd s (pe_sockets p)\<rparr>)"
  using assms unfolding tables_ok_def socks_ok_def conns_ok_def
  by (auto simp: update_conv' distinct_update split: if_splits)

lemma delete_socket_ok: "tables_ok p \<Longrightarrow> tables_ok (p\<lparr>pe_sockets := AList.delete qd (pe_sockets p)\<rparr>)"
  unfolding tables_ok_def socks_ok_def conns_ok_def
  by (auto simp: delete_conv' distinct_delete split: if_splits)

section \<open>Socket calls\<close>

lemma do_socket_ok: "tables_ok p \<Longrightarrow> do_socket qd p = (r, p') \<Longrightarrow> tables_ok p'"
  by (auto simp: do_socket_def split: option.splits intro: set_plain_socket_ok)

lemma bind_ok:
  assumes "tables_ok p" "bind qd addr p = (r, p')"
  shows "tables_ok p'"
proof -
  have set: "tables_ok (q\<lparr>pe_sockets := AList.update qd (Inactive x) (pe_sockets q)\<rparr>)" if "tables_ok q" for q x
    using that by (rule set_plain_socket_ok) simp
  have ok: "tables_ok (p\<lparr>pe_ephemeral_ports := ports, pe_tcpmig := mig\<rparr>)" for ports mig
    using assms(1) by simp
  show ?thesis
    using assms set [OF ok]
    by (auto simp: bind_def Let_def split: if_splits prod.splits outcome.splits option.splits socket.splits)
qed

lemma listen_ok:
  assumes "tables_ok p" "listen qd b n p = (r, p')"
  shows "tables_ok p'"
proof -
  have "tables_ok (p\<lparr>pe_passive := (pe_passive p)(l \<mapsto> ps), pe_sockets := AList.update qd (Listening l) (pe_sockets p)\<rparr>)"
    if "listener_ok ps" "ps_local ps = l" for l ps
    using assms(1) that unfolding tables_ok_def socks_ok_def conns_ok_def
    by (auto simp: update_conv' distinct_update split: if_splits)
  moreover have "ps_local (passive_new l b c k n) = l" for l c k
    by (simp add: passive_new_def)
  ultimately show ?thesis
    using assms listener_new(1) by (auto simp: listen_def split: if_splits option.splits socket.splits)
qed

text \<open>A connection enters the tables.\<close>

lemma add_established_ok:
  assumes "tables_ok p" "pe_established p (l, r) = None" "(cb_local (es_cb es), cb_remote (es_cb es)) = (l, r)"
    "q = pe_qds p \<or> q = (pe_qds p)((l, r) \<mapsto> qd)"
  shows "tables_ok (p\<lparr>pe_sockets := AList.update qd (SockEstablished l r) (pe_sockets p), pe_qds := q,
    pe_established := (pe_established p)((l, r) \<mapsto> es)\<rparr>)"
proof -
  let ?p = "p\<lparr>pe_sockets := AList.update qd (SockEstablished l r) (pe_sockets p), pe_qds := q,
    pe_established := (pe_established p)((l, r) \<mapsto> es)\<rparr>"
  note s = assms(1) [unfolded tables_ok_def socks_ok_def]
  have none: "map_of (pe_sockets p) x \<noteq> Some (SockEstablished l r)" for x
    using s assms(2) by (metis domIff)
  have "dom (pe_qds p) \<subseteq> dom (pe_established p)"
    using s by blast
  then have q: "dom q \<subseteq> insert (l, r) (dom (pe_established p))"
    using assms(4) by (elim disjE) (simp_all add: subset_insertI2 insert_mono)
  have "socks_ok ?p"
    unfolding socks_ok_def
  proof (intro conjI)
    show "dom (pe_qds ?p) \<subseteq> dom (pe_established ?p)"
      using q by simp
  qed (use s none in \<open>auto simp: update_conv' distinct_update split: if_splits\<close>)
  moreover have "conns_ok ?p"
    using assms(1,3) by (auto simp: tables_ok_def conns_ok_def)
  ultimately show ?thesis
    by (simp add: tables_ok_def)
qed

lemma receive_buffered_kept: "receive_buffered q cb = Some cb' \<Longrightarrow> kept cb cb'"
  by (induction q cb rule: receive_buffered.induct)
    (auto simp: Option.bind_eq_Some_conv dest: kept_cb_receive intro: kept_trans)

lemma enable_stats_frame:
  assumes "enable_stats h n p = Some p'"
  shows "tables_ok p' = tables_ok p" "pe_sockets p' = pe_sockets p" "pe_qds p' = pe_qds p" "pe_established p' = pe_established p"
  using assms by (auto simp: enable_stats_def Option.bind_eq_Some_conv)

lemma new_established_frame:
  assumes "new_established cb p = (es, p1)"
  shows "tables_ok p1 = tables_ok p" "es_cb es = cb" "pe_established p1 = pe_established p"
  using assms by (auto simp: new_established_def Let_def)

lemma accept_connection_ok:
  assumes "tables_ok p" "cb_local cb = l" "accept_connection l qd cb p = (r, p')"
  shows "tables_ok p'"
proof -
  obtain buffered mig where c: "close_active_migration (cb_remote cb) (pe_tcpmig p) = (buffered, mig)"
    by fastforce
  let ?p = "p\<lparr>pe_tcpmig := mig\<rparr>"
  let ?q = "case buffered of Some q \<Rightarrow> q | None \<Rightarrow> []"
  show ?thesis
  proof (cases "receive_buffered ?q (refresh_cb ?p cb)")
    case None
    then show ?thesis
      using assms(1,3) c by (auto simp: accept_connection_def Let_def)
  next
    case (Some cb1)
    have cb1: "cb_local cb1 = l" "cb_remote cb1 = cb_remote cb"
      using receive_buffered_kept [OF Some] assms(2) by (simp_all add: kept_def refresh_cb_def)
    obtain es p1 where es: "new_established cb1 (log_cb cb1 ?p) = (es, p1)"
      by fastforce
    then have p1: "tables_ok p1" "es_cb es = cb1"
      using assms(1) new_established_frame [OF es] by simp_all
    show ?thesis
    proof (cases "enable_stats (es_handle es) (length (recv_queue (cb_receiver cb1))) p1")
      case None
      then show ?thesis
        using assms(3) c Some es p1 by (simp add: accept_connection_def Let_def)
    next
      case (Some p2)
      note p2 = enable_stats_frame [OF Some]
      show ?thesis
        using assms(3) c \<open>receive_buffered ?q (refresh_cb ?p cb) = Some cb1\<close> es Some p1 p2(1) cb1
        by (auto simp: accept_connection_def Let_def split: if_splits intro!: add_established_ok)
    qed
  qed
qed

lemma rs_poll_head:
  assumes "passive_poll_accept t ps = Some (Some (Ok cb), ps')" "listener_ok ps"
  shows "cb_local cb = ps_local ps"
  using assms listener_accept [OF assms(2), of t]
  by (auto simp: listener_ok_def split: list.splits)

lemma poll_accept_local: "passive_poll_accept t ps = Some (r, ps') \<Longrightarrow> ps_local ps' = ps_local ps"
  by (auto simp: passive_poll_accept_def)

lemma poll_accept_ok:
  assumes "tables_ok p" "poll_accept qd new_qd t p = (r, p')"
  shows "tables_ok p'"
proof (cases "map_of (pe_sockets p) qd")
  case (Some s)
  show ?thesis
  proof (cases s)
    case (Listening l)
    obtain ps where ps: "pe_passive p l = Some ps"
      using assms(1) Some Listening unfolding tables_ok_def socks_ok_def by blast
    then have ok: "listener_ok ps" "ps_local ps = l"
      using tables_okD(1) [OF assms(1)] by simp_all
    obtain x ps' where x: "passive_poll_accept t ps = Some (x, ps')" "listener_ok ps'"
      using listener_accept [OF ok(1), of t] by auto
    let ?p = "p\<lparr>pe_passive := (pe_passive p)(l \<mapsto> ps')\<rparr>"
    have p: "tables_ok ?p"
      using assms(1) x(2) poll_accept_local [OF x(1)] ok(2) by (intro set_passive_ok) simp_all
    then show ?thesis
      using assms(2) Some Listening ps x(1) ok rs_poll_head [OF _ ok(1)] accept_connection_ok [OF p, of _ l new_qd]
      by (auto simp: poll_accept_def Let_def split: option.splits outcome.splits prod.splits) blast
  qed (use assms Some in \<open>auto simp: poll_accept_def\<close>)
qed (use assms in \<open>auto simp: poll_accept_def\<close>)

lemma connect_ok:
  assumes "tables_ok p" "connect crc qd remote p = (r, p')"
  shows "tables_ok p'"
proof -
  obtain x p1 where c: "connect_local qd p = (x, p1)"
    by fastforce
  then have p1: "tables_ok p1"
    using assms(1) by (auto simp: connect_local_def split: option.splits socket.splits prod.splits outcome.splits)
  show ?thesis
  proof (cases x)
    case (Ok l)
    obtain isn g where g: "isn_generate crc l remote (pe_isn_generator p1) = (isn, g)"
      by fastforce
    let ?a = "active_open_new isn l remote (pe_config p1) (pe_link p1)"
    let ?q = "p1\<lparr>pe_sockets := AList.update qd (Connecting l remote) (pe_sockets p1), pe_isn_generator := g\<rparr>"
    have "tables_ok ?q"
      using set_plain_socket_ok [OF p1, of "Connecting l remote" qd] by simp
    then have "tables_ok (?q\<lparr>pe_connecting := (pe_connecting ?q)((l, remote) \<mapsto> ?a)\<rparr>)"
      by (rule set_connecting_ok) (simp_all add: active_open_new_def)
    then show ?thesis
      using assms(2) c Ok g by (auto simp: connect_def Let_def split: if_splits)
  qed (use assms(2) c p1 in \<open>auto simp: connect_def\<close>)
qed

lemma poll_connect_finished_ok:
  assumes "tables_ok p" "poll_connect_finished fd t p = (r, p')"
  shows "tables_ok p'"
proof (cases "map_of (pe_sockets p) fd")
  case (Some s)
  show ?thesis
  proof (cases s)
    case (Connecting l rm)
    show ?thesis
    proof (cases "pe_connecting p (l, rm)")
      case None
      then show ?thesis
        using assms Some Connecting by (auto simp: poll_connect_finished_def)
    next
      case (Some a)
      note a = tables_okD(3) [OF assms(1) Some]
      let ?p = "p\<lparr>pe_connecting := (pe_connecting p)((l, rm) := None)\<rparr>"
      show ?thesis
      proof (cases "ao_result a")
        case None
        have "tables_ok (p\<lparr>pe_connecting := (pe_connecting p)((l, rm) \<mapsto> a\<lparr>ao_waker := Some t\<rparr>)\<rparr>)"
          using assms(1) a by (intro set_connecting_ok) simp_all
        then show ?thesis
          using assms(2) \<open>map_of (pe_sockets p) fd = Some s\<close> Connecting Some None
          by (auto simp: poll_connect_finished_def poll_result_def)
      next
        case r: (Some x)
        have p: "tables_ok ?p"
          by (rule drop_connecting_ok [OF assms(1)])
        show ?thesis
        proof (cases x)
          case (Ok cb)
          obtain es p1 where es: "new_established cb ?p = (es, p1)"
            by fastforce
          note p1 = new_established_frame [OF es]
          have "tables_ok (p1\<lparr>pe_sockets := AList.update fd (SockEstablished l rm) (pe_sockets p1),
              pe_established := (pe_established p1)((l, rm) \<mapsto> es)\<rparr>)" if "pe_established p1 (l, rm) = None"
            using add_established_ok [of p1 l rm es "pe_qds p1" fd] that p1 p a r Ok by simp
          then show ?thesis
            using assms(2) \<open>map_of (pe_sockets p) fd = Some s\<close> Connecting Some r Ok es p1 p
            by (auto simp: poll_connect_finished_def poll_result_def split: if_splits)
        qed (use assms(2) \<open>map_of (pe_sockets p) fd = Some s\<close> Connecting Some r p in
            \<open>auto simp: poll_connect_finished_def poll_result_def\<close>)
      qed
    qed
  qed (use assms Some in \<open>auto simp: poll_connect_finished_def\<close>)
qed (use assms in \<open>auto simp: poll_connect_finished_def\<close>)

lemma peer_poll_recv_ok:
  assumes "tables_ok p" "peer_poll_recv fd t p = (r, p')"
  shows "tables_ok p'"
proof -
  have "on_connection k (\<lambda>cb. Ok (poll_recv t cb)) p = (x, q) \<Longrightarrow> tables_ok q" for k x q
    by (rule on_connection_ok [OF assms(1)]) (auto intro: kept_poll_recv)
  then show ?thesis
    using assms by (auto simp: peer_poll_recv_def split: option.splits socket.splits prod.splits outcome.splits)
qed

lemma peer_send_ok:
  assumes "tables_ok p" "peer_send fd b p = (r, p')"
  shows "tables_ok p'"
proof -
  have "on_connection k (\<lambda>cb. bind_out (cb_send b cb) (\<lambda>cb. Ok ((), cb))) p = (x, q) \<Longrightarrow> tables_ok q" for k x q
    by (rule on_connection_ok [OF assms(1)]) (auto simp: kept_cb_send)
  then show ?thesis
    using assms by (auto simp: peer_send_def split: option.splits socket.splits)
qed

lemma do_close_ok:
  assumes "tables_ok p" "do_close qd p = (r, p')"
  shows "tables_ok p'"
proof -
  let ?p = "p\<lparr>pe_sockets := AList.delete qd (pe_sockets p)\<rparr>"
  have p: "tables_ok ?p"
    by (rule delete_socket_ok [OF assms(1)])
  have "on_connection k (\<lambda>cb. bind_out (expect (cb_close cb)) (\<lambda>cb. Ok ((), cb))) ?p = (x, q) \<Longrightarrow> tables_ok q" for k x q
    by (rule on_connection_ok [OF p]) (auto simp: expect_def split: option.splits intro: kept_cb_close)
  then show ?thesis
    using assms(2) p by (auto simp: do_close_def Let_def split: option.splits socket.splits)
qed

section \<open>Segments and background tasks\<close>

lemma active_receive_kept:
  assumes "active_receive now arp h a = Some (a', tx)"
  shows "ao_local a' = ao_local a" "ao_remote a' = ao_remote a"
    "ao_result a' = Some (Ok cb) \<Longrightarrow> ao_result a = Some (Ok cb) \<or> (cb_local cb, cb_remote cb) = (ao_local a, ao_remote a)"
  using assms
  by (auto simp: active_receive_def active_connection_def set_result_def cb_new_def Let_def Option.bind_eq_Some_conv
      split: if_splits option.splits prod.splits)

lemma active_background_kept:
  assumes "active_background ans a = Some (a', tx)"
  shows "ao_local a' = ao_local a" "ao_remote a' = ao_remote a" "ao_result a' = Some (Ok cb) \<Longrightarrow> ao_result a = Some (Ok cb)"
  using assms by (auto simp: active_background_def set_result_def Let_def split: if_splits option.splits)

lemma passive_receive_local: "passive_receive crc now arp ip h ps = (r, ps') \<Longrightarrow> ps_local ps' = ps_local ps"
  by (auto simp: passive_receive_def passive_ack_def passive_syn_def Let_def split: if_splits option.splits prod.splits)

lemma passive_background_local: "passive_background ans rm ps = Some (ps', tx) \<Longrightarrow> ps_local ps' = ps_local ps"
  by (auto simp: passive_background_def Let_def split: if_splits option.splits)

lemma update_connecting_ok:
  assumes "tables_ok p" "pe_connecting p k = Some a" "ao_local a' = ao_local a" "ao_remote a' = ao_remote a"
    "\<And>cb. ao_result a' = Some (Ok cb) \<Longrightarrow> ao_result a = Some (Ok cb) \<or> (cb_local cb, cb_remote cb) = (ao_local a, ao_remote a)"
  shows "tables_ok (p\<lparr>pe_connecting := (pe_connecting p)(k \<mapsto> a'), pe_transmitted := tx\<rparr>)"
proof -
  have "tables_ok (p\<lparr>pe_connecting := (pe_connecting p)(k \<mapsto> a')\<rparr>)"
    using tables_okD(3) [OF assms(1,2)] assms(3,4,5) by (intro set_connecting_ok [OF assms(1)]) auto
  then show ?thesis
    by simp
qed

lemma peer_route_ok:
  assumes "tables_ok p" "peer_route crc ip h d p = (r, p')" "r \<noteq> Panic"
  shows "tables_ok p'"
proof -
  let ?l = "(ip_dst_addr ip, dst_port h)" and ?r = "(ip_src_addr ip, src_port h)"
  have est: "on_connection (?l, ?r) (\<lambda>cb. bind_out (expect (cb_receive h d cb)) (\<lambda>cb. Ok ((), cb))) p = (x, q) \<Longrightarrow> tables_ok q" for x q
    by (rule on_connection_ok [OF assms(1)]) (auto simp: expect_def split: option.splits intro: kept_cb_receive)
  have con: "tables_ok (p\<lparr>pe_connecting := (pe_connecting p)((?l, ?r) \<mapsto> a'), pe_transmitted := pe_transmitted p @ tx\<rparr>)"
    if "pe_connecting p (?l, ?r) = Some a" "active_receive (pe_now p) (pe_arp p) h a = Some (a', tx)" for a a' tx
    using active_receive_kept [OF that(2)] by (intro update_connecting_ok [OF assms(1) that(1)]) auto
  have pas: "tables_ok (p\<lparr>pe_passive := (pe_passive p)(?l \<mapsto> ps')\<rparr>)"
    if "pe_passive p ?l = Some ps" "passive_receive crc (pe_now p) (pe_arp p) ip h ps = (x, ps')" "x \<noteq> Panic" for ps ps' x
    using tables_okD(1) [OF assms(1) that(1)] listener_receive [OF _ that(2)] passive_receive_local [OF that(2)] that(3)
    by (intro set_passive_ok [OF assms(1)]) auto
  show ?thesis
    using assms est con pas
    by (auto simp: peer_route_def send_rst_def Let_def split: if_splits option.splits prod.splits bool.splits)
qed

lemma connecting_background_ok:
  assumes "tables_ok p" "connecting_background k ans p = Some p'"
  shows "tables_ok p'"
  using assms active_background_kept
  by (auto simp: connecting_background_def split: option.splits intro!: update_connecting_ok)

lemma listening_background_ok:
  assumes "tables_ok p" "listening_background l rm ans p = Some p'"
  shows "tables_ok p'"
proof (cases "pe_passive p l")
  case (Some ps)
  obtain ps' tx where b: "passive_background ans rm ps = Some (ps', tx)"
    and p': "p' = p\<lparr>pe_passive := (pe_passive p)(l \<mapsto> ps'), pe_transmitted := pe_transmitted p @ tx\<rparr>"
    using assms(2) Some by (auto simp: listening_background_def)
  have "tables_ok (p\<lparr>pe_passive := (pe_passive p)(l \<mapsto> ps')\<rparr>)"
    using tables_okD(1) [OF assms(1) Some] listener_background [OF _ b] passive_background_local [OF b]
    by (intro set_passive_ok [OF assms(1)]) simp_all
  then show ?thesis
    by (simp add: p')
qed (use assms in \<open>simp add: listening_background_def\<close>)

section \<open>Migration\<close>

lemma drop_established_ok:
  assumes "tables_ok p" "map_of (pe_sockets p) qd = Some (SockEstablished l r)"
  shows "tables_ok (p\<lparr>pe_sockets := AList.update qd (MigratedOut l r) (pe_sockets p),
    pe_qds := (pe_qds p)((l, r) := None), pe_established := (pe_established p)((l, r) := None)\<rparr>)"
proof -
  let ?p = "p\<lparr>pe_sockets := AList.update qd (MigratedOut l r) (pe_sockets p),
    pe_qds := (pe_qds p)((l, r) := None), pe_established := (pe_established p)((l, r) := None)\<rparr>"
  note s = assms(1) [unfolded tables_ok_def socks_ok_def]
  have one: "x = qd" if "map_of (pe_sockets p) x = Some (SockEstablished l r)" for x
    using s assms(2) that by blast
  have "dom (pe_qds p) \<subseteq> dom (pe_established p)"
    using s by blast
  then have q: "dom (pe_qds ?p) \<subseteq> dom (pe_established ?p)"
    by (simp add: dom_fun_upd) blast
  have "socks_ok ?p"
    unfolding socks_ok_def
  proof (intro conjI allI impI)
    fix x l' r'
    assume "map_of (pe_sockets ?p) x = Some (SockEstablished l' r')"
    then have x: "x \<noteq> qd" "map_of (pe_sockets p) x = Some (SockEstablished l' r')"
      by (auto simp: update_conv' split: if_splits)
    then have "(l', r') \<noteq> (l, r)"
      using one by blast
    moreover have "(l', r') \<in> dom (pe_established p)"
      using s x(2) by blast
    ultimately show "(l', r') \<in> dom (pe_established ?p)"
      by (simp add: dom_fun_upd)
  next
    fix x l'
    assume "map_of (pe_sockets ?p) x = Some (Listening l')"
    then have "map_of (pe_sockets p) x = Some (Listening l')"
      by (auto simp: update_conv' split: if_splits)
    then have "l' \<in> dom (pe_passive p)"
      using s by blast
    then show "l' \<in> dom (pe_passive ?p)"
      by simp
  qed (use s q in \<open>auto simp: update_conv' distinct_update split: if_splits\<close>)
  moreover have "conns_ok ?p"
    using assms(1) by (auto simp: tables_ok_def conns_ok_def)
  ultimately show ?thesis
    by (simp add: tables_ok_def)
qed

lemma migrate_out_connection_ok:
  assumes "tables_ok p" "migrate_out_connection qd p = Some (st, p')"
  shows "tables_ok p'"
  using assms drop_established_ok [of p qd]
  by (auto simp: migrate_out_connection_def Let_def Option.bind_eq_Some_conv
      split: option.splits socket.splits if_splits prod.splits)

lemma migrate_out_and_send_ok: "tables_ok p \<Longrightarrow> migrate_out_and_send qd p = Some p' \<Longrightarrow> tables_ok p'"
  by (auto simp: migrate_out_and_send_def Option.bind_eq_Some_conv dest: migrate_out_connection_ok)

lemma migrate_in_connection_ok:
  assumes "tables_ok p" "migrate_in_connection st p = (r, p')"
  shows "tables_ok p'"
proof -
  let ?cb = "cb_from_state (pe_now p) (pe_link p) (cfg_tx_checksum_offload (pe_config p)) (pe_arp p)
      (cfg_ack_delay_timeout (pe_config p)) (ts_cb st)"
  have "tables_ok (p\<lparr>pe_passive := (pe_passive p)(cb_local ?cb \<mapsto> ps')\<rparr>)"
    if ps: "pe_passive p (cb_local ?cb) = Some ps" "push_migrated_in ?cb ps = Some ps'" for ps ps'
  proof -
    have ok: "listener_ok ps" "ps_local ps = cb_local ?cb"
      using tables_okD(1) [OF assms(1) ps(1)] by simp_all
    obtain rs where rs: "rs_push_ok ?cb (ps_ready ps) = Some rs" "ps' = ps\<lparr>ps_ready := rs\<rparr>"
      using ps(2) by (auto simp: push_migrated_in_def)
    have "listener_ok (ps\<lparr>ps_inflight := ps_inflight ps, ps_ready := rs\<rparr>)"
      using ok rs(1) by (intro listener_push) (simp_all add: listener_ok_def)
    then show ?thesis
      using ok(2) rs(2) by (intro set_passive_ok [OF assms(1)]) simp_all
  qed
  then show ?thesis
    using assms by (auto simp: migrate_in_connection_def Let_def split: option.splits)
qed

lemma start_migration_ok: "tables_ok p \<Longrightarrow> start_migration c qd p = Some p' \<Longrightarrow> tables_ok p'"
  by (auto simp: start_migration_def disable_stats_of_def Let_def split: option.splits)

lemma initiate_by_addr_ok: "tables_ok p \<Longrightarrow> initiate_migration_by_addr c p = Some p' \<Longrightarrow> tables_ok p'"
  by (auto simp: initiate_migration_by_addr_def split: option.splits intro: start_migration_ok)

lemma initiate_by_qd_ok: "tables_ok p \<Longrightarrow> initiate_migration_by_qd qd p = (r, p') \<Longrightarrow> tables_ok p'"
  by (auto simp: initiate_migration_by_qd_def split: option.splits socket.splits dest: start_migration_ok)

lemma initiate_all_ok: "initiate_all cs p = Some p' \<Longrightarrow> tables_ok p \<Longrightarrow> tables_ok p'"
  by (induction cs p rule: initiate_all.induct) (auto simp: Option.bind_eq_Some_conv dest: initiate_by_addr_ok)

lemma act_on_status_ok:
  assumes "tables_ok p" "act_on_status s p = (r, p')"
  shows "tables_ok p'"
proof (cases s)
  case (PrepareMigrationAcked qd)
  then show ?thesis
    using assms migrate_out_and_send_ok [of "p\<lparr>pe_migrated_qd := Some qd\<rparr>" qd]
    by (auto simp: act_on_status_def split: option.splits)
qed (use assms in \<open>auto simp: act_on_status_def enable_stats_frame split: option.splits
      intro: initiate_by_addr_ok migrate_in_connection_ok\<close>)

lemma receive_tcpmig_ok:
  assumes "tables_ok p" "receive_tcpmig ip b p = (r, p')"
  shows "tables_ok p'"
proof -
  have "act_on_status s (p\<lparr>pe_tcpmig := mig\<rparr>) = (r, p') \<Longrightarrow> tables_ok p'" for s mig
    by (rule act_on_status_ok) (simp_all add: assms(1))
  then show ?thesis
    using assms by (auto simp: receive_tcpmig_def Let_def split: prod.splits outcome.splits)
qed

lemma rps_signal_action_ok:
  assumes "tables_ok p" "rps_signal_action p = Some p'"
  shows "tables_ok p'"
proof -
  have "tables_ok q" if "initiate_all cs (p\<lparr>pe_last_rps_signal := x, pe_rps_stats := y, pe_reactive_migration_enabled := b\<rparr>) = Some q"
    for cs x y b q
    using initiate_all_ok [OF that] assms(1) by simp
  then show ?thesis
    using assms
    by (auto simp: rps_signal_action_def Let_def split: option.splits prod.splits if_splits)
qed

section \<open>The peer as a state machine\<close>

text \<open>Time passes, the ARP cache changes, the application calls, segments and messages arrive, tasks resume. A step
  that panics is no step.\<close>

inductive peer_step :: "(bytes \<Rightarrow> u32) \<Rightarrow> tcp_peer \<Rightarrow> tcp_peer \<Rightarrow> bool" for crc where
  pt_clock: "0 \<le> d \<Longrightarrow> peer_step crc p (p\<lparr>pe_now := pe_now p + d\<rparr>)"
| pt_arp: "peer_step crc p (p\<lparr>pe_arp := m\<rparr>)"
| pt_socket: "do_socket qd p = (r, p') \<Longrightarrow> r \<noteq> Panic \<Longrightarrow> peer_step crc p p'"
| pt_bind: "bind qd addr p = (r, p') \<Longrightarrow> r \<noteq> Panic \<Longrightarrow> peer_step crc p p'"
| pt_listen: "listen qd b n p = (r, p') \<Longrightarrow> r \<noteq> Panic \<Longrightarrow> peer_step crc p p'"
| pt_accept: "poll_accept qd new_qd t p = (x, p') \<Longrightarrow> x \<noteq> Some Panic \<Longrightarrow> peer_step crc p p'"
| pt_connect: "connect crc qd remote p = (r, p') \<Longrightarrow> r \<noteq> Panic \<Longrightarrow> peer_step crc p p'"
| pt_connected: "poll_connect_finished qd t p = (y, p') \<Longrightarrow> y \<noteq> Some Panic \<Longrightarrow> peer_step crc p p'"
| pt_recv: "peer_poll_recv qd t p = (z, p') \<Longrightarrow> z \<noteq> Some Panic \<Longrightarrow> peer_step crc p p'"
| pt_send: "peer_send qd buf p = (r, p') \<Longrightarrow> r \<noteq> Panic \<Longrightarrow> peer_step crc p p'"
| pt_close: "do_close qd p = (r, p') \<Longrightarrow> r \<noteq> Panic \<Longrightarrow> peer_step crc p p'"
| pt_segment: "peer_receive crc ip buf p = (r, p') \<Longrightarrow> r \<noteq> Panic \<Longrightarrow> peer_step crc p p'"
| pt_tcpmig: "receive_tcpmig ip buf p = (r, p') \<Longrightarrow> r \<noteq> Panic \<Longrightarrow> peer_step crc p p'"
| pt_signal: "receive_rps_signal buf p = Some p' \<Longrightarrow> peer_step crc p p'"
| pt_signal_action: "rps_signal_action p = Some p' \<Longrightarrow> peer_step crc p p'"
| pt_stats: "poll_stats p = Some p' \<Longrightarrow> peer_step crc p p'"
| pt_migrate: "initiate_migration_by_qd qd p = (r, p') \<Longrightarrow> r \<noteq> Panic \<Longrightarrow> peer_step crc p p'"
| pt_migrate_out: "migrate_out_and_send qd p = Some p' \<Longrightarrow> peer_step crc p p'"
| pt_register: "register_application_state qd sz f p = Some p' \<Longrightarrow> peer_step crc p p'"
| pt_app_state: "get_migrated_application_state g qd p = Some (st, p') \<Longrightarrow> peer_step crc p p'"
| pt_connecting: "connecting_background k ans p = Some p' \<Longrightarrow> peer_step crc p p'"
| pt_listening: "listening_background l remote ans p = Some p' \<Longrightarrow> peer_step crc p p'"
| pt_connection: "pe_established p k = Some es \<Longrightarrow> cb_step (load_cb es p) e cb \<Longrightarrow>
    e \<in> {AckTimer, RetransmitTimer, SenderResumed, SenderArpAnswered w, ProbeTimer b' n'} \<Longrightarrow> peer_step crc p (store_cb k es cb p)"

lemma peer_receive_ok: "tables_ok p \<Longrightarrow> peer_receive crc ip b p = (r, p') \<Longrightarrow> r \<noteq> Panic \<Longrightarrow> tables_ok p'"
  by (auto simp: peer_receive_def split: outcome.splits prod.splits intro: peer_route_ok)

lemma peer_step_ok: "peer_step crc p p' \<Longrightarrow> tables_ok p \<Longrightarrow> tables_ok p'"
proof (induction rule: peer_step.induct)
  case (pt_connection p k es e cb b' n')
  then show ?case
    using kept_cb_step by (blast intro: store_cb_ok)
next
  case (pt_signal buf p p')
  then show ?case
    by (auto simp: receive_rps_signal_def split: if_splits)
next
  case (pt_stats p p')
  then show ?case
    by (auto simp: poll_stats_def Option.bind_eq_Some_conv)
next
  case (pt_register qd sz f p p')
  then show ?case
    by (auto simp: register_application_state_def split: option.splits socket.splits)
next
  case (pt_app_state g qd p st p')
  then show ?case
    by (auto simp: get_migrated_application_state_def split: option.splits socket.splits prod.splits)
qed (simp, simp, (blast intro: do_socket_ok bind_ok listen_ok poll_accept_ok connect_ok poll_connect_finished_ok peer_poll_recv_ok
      peer_send_ok do_close_ok peer_receive_ok receive_tcpmig_ok rps_signal_action_ok initiate_by_qd_ok
      migrate_out_and_send_ok connecting_background_ok listening_background_ok)+)

lemma tables_ok_new: "tables_ok (tcp_peer_new now link ip cfg arp ports n a b c d e f)"
  by (simp add: tables_ok_def socks_ok_def conns_ok_def tcp_peer_new_def)

lemma peer_steps_ok: "(peer_step crc)\<^sup>*\<^sup>* p p' \<Longrightarrow> tables_ok p \<Longrightarrow> tables_ok p'"
  by (induction rule: rtranclp_induct) (auto intro: peer_step_ok)

text \<open>C4: the tables of a TCP peer are consistent in every state that can be reached: a listening descriptor has its
  passive socket, an established one its connection, no connection has two descriptors, the reverse table names
  only existing connections, every entry is filed under its own endpoints, and every listener is in order.\<close>

theorem peer_tables_consistent:
  assumes "(peer_step crc)\<^sup>*\<^sup>* (tcp_peer_new now link ip cfg arp ports n rt mp mr mt th eps) p"
  shows "(\<forall>qd l. map_of (pe_sockets p) qd = Some (Listening l) \<longrightarrow>
      (\<exists>ps. pe_passive p l = Some ps \<and> ps_local ps = l \<and> listener_ok ps))
    \<and> (\<forall>qd l r. map_of (pe_sockets p) qd = Some (SockEstablished l r) \<longrightarrow>
      (\<exists>es. pe_established p (l, r) = Some es \<and> cb_local (es_cb es) = l \<and> cb_remote (es_cb es) = r)
      \<and> (\<forall>qd'. map_of (pe_sockets p) qd' = Some (SockEstablished l r) \<longrightarrow> qd' = qd))
    \<and> (\<forall>k qd. pe_qds p k = Some qd \<longrightarrow> pe_established p k \<noteq> None)
    \<and> (\<forall>l r a. pe_connecting p (l, r) = Some a \<longrightarrow> ao_local a = l \<and> ao_remote a = r)"
proof -
  have p: "tables_ok p"
    using peer_steps_ok [OF assms tables_ok_new] .
  note s = p [unfolded tables_ok_def socks_ok_def]
  show ?thesis
  proof (intro conjI allI impI)
    fix qd l
    assume "map_of (pe_sockets p) qd = Some (Listening l)"
    then obtain ps where "pe_passive p l = Some ps"
      using s by blast
    then show "\<exists>ps. pe_passive p l = Some ps \<and> ps_local ps = l \<and> listener_ok ps"
      using tables_okD(1) [OF p] by blast
  next
    fix qd l r
    assume "map_of (pe_sockets p) qd = Some (SockEstablished l r)"
    then obtain es where "pe_established p (l, r) = Some es"
      using s by blast
    then show "\<exists>es. pe_established p (l, r) = Some es \<and> cb_local (es_cb es) = l \<and> cb_remote (es_cb es) = r"
      using tables_okD(2) [OF p] by blast
  next
    fix qd l r qd'
    assume "map_of (pe_sockets p) qd = Some (SockEstablished l r)" "map_of (pe_sockets p) qd' = Some (SockEstablished l r)"
    then show "qd' = qd"
      using s by blast
  next
    fix k qd
    assume "pe_qds p k = Some qd"
    then show "pe_established p k \<noteq> None"
      using s by blast
  qed (use tables_okD(3) [OF p] in blast)+
qed

theorem peer_tables_consistent_witness:
  "\<exists>p ps. snd (listen 1 8 2 (snd (bind 1 (5, 80) (snd (do_socket 1
      (tcp_peer_new 0 (Mac 1 2 3 4 5 6) 5 tcp_config_default (\<lambda>_. None) [] 1 100 None None 100 (1 / 2) 0)))))) = p
    \<and> map_of (pe_sockets p) 1 = Some (Listening (5, 80)) \<and> pe_passive p (5, 80) = Some ps
    \<and> ps_local ps = (5, 80) \<and> listener_ok ps"
proof -
  let ?p0 = "tcp_peer_new 0 (Mac 1 2 3 4 5 6) 5 tcp_config_default (\<lambda>_. None) [] 1 100 None None 100 (1 / 2) 0"
  define p1 where "p1 = snd (do_socket 1 ?p0)"
  define p2 where "p2 = snd (bind 1 (5, 80) p1)"
  define p3 where "p3 = snd (listen 1 8 2 p2)"
  have p1: "do_socket 1 ?p0 = (Ok (), p1)" "pe_sockets p1 = [(1, Inactive None)]" "pe_passive p1 = Map.empty"
    by (simp_all add: p1_def do_socket_def tcp_peer_new_def)
  have p2: "bind 1 (5, 80) p1 = (Ok (), p2)" "pe_sockets p2 = [(1, Inactive (Some (5, 80)))]" "pe_passive p2 = Map.empty"
    by (simp_all add: p2_def bind_def bind_port_def is_private_def FIRST_PRIVATE_PORT_def p1 Let_def)
  have p3: "listen 1 8 2 p2 = (Ok (), p3)" "map_of (pe_sockets p3) 1 = Some (Listening (5, 80))"
    by (simp_all add: p3_def listen_def p2)
  have "peer_step (\<lambda>_. 0) ?p0 p1" "peer_step (\<lambda>_. 0) p1 p2" "peer_step (\<lambda>_. 0) p2 p3"
    by (rule pt_socket [OF p1(1)], simp, rule pt_bind [OF p2(1)], simp, rule pt_listen [OF p3(1)], simp)
  then have "(peer_step (\<lambda>_. 0))\<^sup>*\<^sup>* ?p0 p3"
    by (intro converse_rtranclp_into_rtranclp [OF _ converse_rtranclp_into_rtranclp [OF _ r_into_rtranclp]])
  from peer_tables_consistent [OF this] obtain ps where "pe_passive p3 (5, 80) = Some ps" "ps_local ps = (5, 80)" "listener_ok ps"
    using p3(2) by blast
  then show ?thesis
    using p3(2) p1_def p2_def p3_def by (intro exI [of _ p3] exI [of _ ps]) simp
qed

end
