(* ===== verification/Tcpmig_Handshake.thy ===== *)
theory Tcpmig_Handshake
  imports Tcpmig_Peer
begin

text \<open>
  The migration protocol carried out between two hosts: preparation, transfer of the connection state in
  fragments, acknowledgement. Messages pass through the wire format of \<^verbatim>\<open>Tcpmig_Segment\<close>.
\<close>

lemmas handle_defs = tp_handle_def tp_dispatch_def process_packet_def tp_transmit_def Let_def

section \<open>The three short messages\<close>

text \<open>Where an origin and a target stand while a migration of \<open>client\<close> is prepared.\<close>

definition origin_waits :: "migration_stage \<Rightarrow> sockaddr \<Rightarrow> sockaddr \<Rightarrow> qdesc \<Rightarrow> tcpmig_peer \<Rightarrow> bool" where
  "origin_waits stage local client qd p \<longleftrightarrow>
     (\<exists>a. tp_active_migrations p client = Some a \<and> am_last_sent_stage a = stage \<and> am_qd a = Some qd
        \<and> am_origin a = local \<and> am_client a = client)"

definition target_collects :: "sockaddr \<Rightarrow> defragmenter \<Rightarrow> tcpmig_peer \<Rightarrow> bool" where
  "target_collects client df p \<longleftrightarrow>
     (\<exists>a. tp_active_migrations p client = Some a \<and> am_last_sent_stage a = PrepareMigrationAck \<and> am_qd a = None
        \<and> am_defragmenter a = df \<and> am_local_ipv4_addr a = tp_local_ipv4_addr p \<and> am_self_udp_port a = tp_self_udp_port p)"

lemma initiate_sends_prepare:
  assumes "tp_active_migrations p client = None"
  shows "\<exists>p' m. tp_initiate_migration (local, client) qd p = Some p' \<and> tp_transmitted p' = tp_transmitted p @ [m]
    \<and> origin_waits PrepareMigration local client qd p' \<and> tp_application_state p' = tp_application_state p
    \<and> mh_stage (ms_tcpmig_hdr m) = PrepareMigration \<and> mh_client (ms_tcpmig_hdr m) = client"
  using assms
  by (simp add: tp_initiate_migration_def am_initiate_migration_def tp_new_active_def active_new_def am_send_empty
      tp_transmit_def origin_waits_def tcpmig_new_def Let_def)

lemma target_acks_prepare:
  assumes "tp_active_migrations p client = None"
    and "mh_stage (ms_tcpmig_hdr m) = PrepareMigration" "mh_client (ms_tcpmig_hdr m) = client"
  shows "\<exists>p' m'. deliver m p = (Ok RsOk, p') \<and> tp_transmitted p' = tp_transmitted p @ [m']
    \<and> target_collects client defragmenter_new p' \<and> tp_application_state p' = tp_application_state p
    \<and> tp_local_ipv4_addr p' = tp_local_ipv4_addr p \<and> tp_self_udp_port p' = tp_self_udp_port p
    \<and> mh_stage (ms_tcpmig_hdr m') = PrepareMigrationAck \<and> mh_client (ms_tcpmig_hdr m') = client"
  using assms
  by (simp add: deliver_eq handle_defs tp_new_active_def active_new_def am_expect_prepare_def am_send_empty
      next_header_def swap_src_dst_port_def target_collects_def)

lemma origin_gets_prepare_ack:
  assumes "origin_waits PrepareMigration local client qd p"
    and "mh_stage (ms_tcpmig_hdr m) = PrepareMigrationAck" "mh_client (ms_tcpmig_hdr m) = client"
  shows "\<exists>p'. deliver m p = (Ok (PrepareMigrationAcked qd), p') \<and> origin_waits PrepareMigration local client qd p'
    \<and> tp_transmitted p' = tp_transmitted p \<and> tp_application_state p' = tp_application_state p"
  using assms by (auto simp: deliver_eq handle_defs am_expect_prepare_ack_def origin_waits_def)

lemma origin_gets_state_ack:
  assumes "origin_waits ConnectionState local client qd p"
    and "mh_stage (ms_tcpmig_hdr m) = ConnectionStateAck" "mh_client (ms_tcpmig_hdr m) = client"
  shows "\<exists>p'. deliver m p = (Ok MigrationCompleted, p') \<and> tp_active_migrations p' client = None"
  using assms by (auto simp: deliver_eq handle_defs am_expect_state_ack_def origin_waits_def)

section \<open>The connection state\<close>

lemma origin_sends_state:
  assumes "origin_waits PrepareMigration local client qd p" "ts_remote st = client"
    and sent: "st' = (case tp_application_state p client of Some (Registered sz f) \<Rightarrow> add_app_state sz f st | _ \<Rightarrow> st)"
    and buf: "tcp_state_serialize st' = Some buf" "length buf \<le> 1452 * 65535"
  shows "\<exists>p' s fs. send_tcp_state st p = Some p' \<and> tp_transmitted p' = tp_transmitted p @ fs
    \<and> origin_waits ConnectionState local client qd p'
    \<and> fragments_from (seg_fragments s) = Some fs \<and> ms_data s = buf
    \<and> mh_stage (ms_tcpmig_hdr s) = ConnectionState \<and> mh_client (ms_tcpmig_hdr s) = client"
proof -
  obtain a where a: "tp_active_migrations p client = Some a" "am_last_sent_stage a = PrepareMigration"
    "am_qd a = Some qd" "am_origin a = local" "am_client a = client"
    using assms(1) by (auto simp: origin_waits_def)
  define s where "s = \<lparr>ms_ethernet2_hdr = eth_new (am_remote_link_addr a) (am_local_link_addr a) Ipv4,
     ms_ipv4_hdr = ipv4_new (am_local_ipv4_addr a) (am_remote_ipv4_addr a) UDP,
     ms_tcpmig_hdr = tcpmig_new local client 0 ConnectionState (am_self_udp_port a) (am_dest_udp_port a), ms_data = buf\<rparr>"
  have "length buf div 1452 \<le> 65535"
    using div_le_mono [OF buf(2), of 1452] by simp
  moreover obtain fs where fs: "fragments_from (seg_fragments s) = Some fs"
    using fragments_from_spec [of 0 s] num_fragments_bound [OF buf(2)] by (auto simp: seg_fragments_def s_def)
  ultimately have "am_send (tcpmig_new local client 0 ConnectionState (am_self_udp_port a) (am_dest_udp_port a)) buf
      (a\<lparr>am_last_sent_stage := ConnectionState\<rparr>) = Some fs"
    by (simp add: am_send_def s_def)
  then have "send_connection_state st' a = Some (a\<lparr>am_last_sent_stage := ConnectionState\<rparr>, fs)"
    using a buf(1) by (simp add: send_connection_state_def)
  then show ?thesis
    using a fs assms(2) sent
    by (intro exI [of _ _] exI [of _ s] exI [of _ fs])
      (auto simp: send_tcp_state_def tp_transmit_def origin_waits_def Let_def s_def tcpmig_new_def)
qed

definition target_done :: "sockaddr \<Rightarrow> tcpmig_peer \<Rightarrow> bool" where
  "target_done client p \<longleftrightarrow> (\<exists>a. tp_active_migrations p client = Some a \<and> am_last_sent_stage a = ConnectionStateAck)"

text \<open>What the table of application states holds once a state has been received, and what is handed on.\<close>

definition stored_app_state :: "tcp_state_msg \<Rightarrow> tcpmig_peer \<Rightarrow> sockaddr \<Rightarrow> migrated_application_state option" where
  "stored_app_state st p =
     (case ts_app_state st of
        MigratedIn b \<Rightarrow> (tp_application_state p)(ts_remote st \<mapsto> MigratedIn b)
      | _ \<Rightarrow> tp_application_state p)"

lemma stored_app_state_cong:
  "tp_application_state p = tp_application_state q \<Longrightarrow> stored_app_state st p = stored_app_state st q"
  by (simp add: stored_app_state_def split: migrated_application_state.split)

definition received_state :: "sockaddr \<Rightarrow> tcp_state_msg \<Rightarrow> tcp_state_msg" where
  "received_state local st =
     ts_set_local local (case ts_app_state st of MigratedIn b \<Rightarrow> st\<lparr>ts_app_state := NoAppState\<rparr> | _ \<Rightarrow> st)"

definition is_state_fragment :: "sockaddr \<Rightarrow> tcpmig_segment \<Rightarrow> bool" where
  "is_state_fragment client m \<longleftrightarrow> mh_stage (ms_tcpmig_hdr m) = ConnectionState \<and> mh_client (ms_tcpmig_hdr m) = client"

lemma collect_more:
  assumes "target_collects client df p" "is_state_fragment client m"
    and "defragment (ms_tcpmig_hdr m) (ms_data m) df = Some (None, df')"
  shows "\<exists>p'. deliver m p = (Ok RsOk, p') \<and> target_collects client df' p' \<and> tp_transmitted p' = tp_transmitted p
    \<and> tp_application_state p' = tp_application_state p
    \<and> tp_local_ipv4_addr p' = tp_local_ipv4_addr p \<and> tp_self_udp_port p' = tp_self_udp_port p"
  using assms
  by (auto simp: deliver_eq handle_defs am_expect_state_def target_collects_def is_state_fragment_def)

lemma collect_last:
  assumes "target_collects client df p" "is_state_fragment client m"
    and "defragment (ms_tcpmig_hdr m) (ms_data m) df = Some (Some (h, b), df')"
    and "tcp_state_deserialize b = Some st" "mh_client h = client"
  shows "\<exists>p' m'. deliver m p = (Ok (StateReceived (received_state (tp_local_ipv4_addr p, tp_self_udp_port p) st)), p')
    \<and> target_done client p' \<and> tp_transmitted p' = tp_transmitted p @ [m']
    \<and> tp_application_state p' = stored_app_state st p
    \<and> mh_stage (ms_tcpmig_hdr m') = ConnectionStateAck \<and> mh_client (ms_tcpmig_hdr m') = client"
  using assms
  by (cases "ts_app_state st")
    (auto simp: deliver_eq handle_defs am_expect_state_def target_collects_def is_state_fragment_def am_send_empty
      next_header_def swap_src_dst_port_def target_done_def stored_app_state_def received_state_def ts_set_local_def
      ts_connection_def ts_remote_def)

lemma late_fragment:
  assumes "target_done client p" "is_state_fragment client m"
  shows "deliver m p = (Ok RsOk, p)"
  using assms by (cases p)
    (auto simp: deliver_eq handle_defs target_done_def is_state_fragment_def fun_upd_idem)

lemma late_fragments:
  assumes "target_done client p" "list_all (is_state_fragment client) ms"
  shows "deliver_all ms p = (replicate (length ms) (Ok RsOk), p)"
  using assms(2) by (induction ms) (simp_all add: late_fragment [OF assms(1)])

text \<open>If the defragmenter restores a message from a sequence of fragments, the target reports the connection
  state it holds exactly once while the sequence arrives, and acknowledges it.\<close>

lemma deliver_fragments:
  assumes "target_collects client df p" "list_all (is_state_fragment client) ms"
    and "defragment_all (map frag_wire ms) df = Some ([(h, b)], df')"
    and "tcp_state_deserialize b = Some st" "mh_client h = client"
  shows "\<exists>rs p' m'. deliver_all ms p = (rs, p')
    \<and> mset rs = add_mset (Ok (StateReceived (received_state (tp_local_ipv4_addr p, tp_self_udp_port p) st)))
        (replicate_mset (length ms - 1) (Ok RsOk))
    \<and> target_done client p' \<and> tp_transmitted p' = tp_transmitted p @ [m']
    \<and> tp_application_state p' = stored_app_state st p
    \<and> mh_stage (ms_tcpmig_hdr m') = ConnectionStateAck \<and> mh_client (ms_tcpmig_hdr m') = client"
  using assms(1-3)
proof (induction ms arbitrary: p df)
  case (Cons m ms)
  have m: "is_state_fragment client m" and ms: "list_all (is_state_fragment client) ms"
    using Cons.prems(2) by simp_all
  obtain r df1 rs1 where step: "defragment (ms_tcpmig_hdr m) (ms_data m) df = Some (r, df1)"
    and rest: "defragment_all (map frag_wire ms) df1 = Some (rs1, df')"
    and out: "(case r of None \<Rightarrow> rs1 | Some x \<Rightarrow> x # rs1) = [(h, b)]"
    using Cons.prems(3) frag_wire_def [of m] by (auto simp: Option.bind_eq_Some_conv)
  show ?case
  proof (cases r)
    case None
    obtain p1 where p1: "deliver m p = (Ok RsOk, p1)" "target_collects client df1 p1"
      "tp_transmitted p1 = tp_transmitted p" "tp_application_state p1 = tp_application_state p"
      "tp_local_ipv4_addr p1 = tp_local_ipv4_addr p" "tp_self_udp_port p1 = tp_self_udp_port p"
      using collect_more [OF Cons.prems(1) m] step None by auto
    obtain rs p' m' where ih: "deliver_all ms p1 = (rs, p')"
      "mset rs = add_mset (Ok (StateReceived (received_state (tp_local_ipv4_addr p1, tp_self_udp_port p1) st)))
        (replicate_mset (length ms - 1) (Ok RsOk))"
      "target_done client p'" "tp_transmitted p' = tp_transmitted p1 @ [m']"
      "tp_application_state p' = stored_app_state st p1"
      "mh_stage (ms_tcpmig_hdr m') = ConnectionStateAck" "mh_client (ms_tcpmig_hdr m') = client"
      using Cons.IH [OF p1(2) ms] rest out None by auto
    have "ms \<noteq> []"
      using rest out None by auto
    then have "length ms = Suc (length ms - 1)"
      by simp
    then have "replicate_mset (length ms) (Ok RsOk) = add_mset (Ok RsOk) (replicate_mset (length ms - 1) (Ok RsOk))"
      by (metis replicate_mset_Suc)
    then show ?thesis
      using p1 ih stored_app_state_cong [OF p1(4), of st] by (auto simp: add_mset_commute)
  next
    case (Some x)
    then have x: "x = (h, b)" and "rs1 = []"
      using out by auto
    obtain p' m' where p': "deliver m p = (Ok (StateReceived (received_state (tp_local_ipv4_addr p, tp_self_udp_port p) st)), p')"
      "target_done client p'" "tp_transmitted p' = tp_transmitted p @ [m']"
      "tp_application_state p' = stored_app_state st p"
      "mh_stage (ms_tcpmig_hdr m') = ConnectionStateAck" "mh_client (ms_tcpmig_hdr m') = client"
      using collect_last [OF Cons.prems(1) m _ assms(4,5)] step Some x by auto
    then show ?thesis
      using late_fragments [OF p'(2) ms] by simp
  qed
qed simp

section \<open>The whole exchange\<close>

lemma fragment_headers:
  assumes "fragments_from (seg_fragments s) = Some fs" "length (ms_data s) \<le> 1452 * 65535"
    and "mh_stage (ms_tcpmig_hdr s) = ConnectionState" "mh_client (ms_tcpmig_hdr s) = client"
  shows "list_all (is_state_fragment client) fs" "fs \<noteq> []"
proof -
  have "fs = map (nth_fragment s 0) [0 ..< num_fragments (ms_data s)]"
    using assms(1) fragments_from_spec [of 0 s] num_fragments_bound [OF assms(2)] by (simp add: seg_fragments_def)
  then show "list_all (is_state_fragment client) fs" "fs \<noteq> []"
    using assms(3,4) num_fragments_pos [of "ms_data s"]
    by (auto simp: list_all_iff nth_fragment_def is_state_fragment_def)
qed

text \<open>The state the origin sends: the connection, and the application state registered for it.\<close>

definition state_to_send :: "tcp_state_msg \<Rightarrow> tcpmig_peer \<Rightarrow> tcp_state_msg" where
  "state_to_send st p =
     (case tp_application_state p (ts_remote st) of Some (Registered sz f) \<Rightarrow> add_app_state sz f st | _ \<Rightarrow> st)"

definition app_bytes :: "migrated_application_state \<Rightarrow> bytes option" where
  "app_bytes app = (case app of Registered n f \<Rightarrow> if n = 0 then None else Some (f (replicate n 0)) | _ \<Rightarrow> None)"

text \<open>The preparation, up to the point where the origin is told to hand over the connection.\<close>

lemma prepare_exchange:
  assumes "tp_active_migrations orig client = None" "tp_active_migrations targ client = None"
  obtains o1 m1 t1 m2 o2 where "tp_initiate_migration (local, client) qd orig = Some o1"
    "tp_transmitted o1 = tp_transmitted orig @ [m1]"
    "deliver m1 targ = (Ok RsOk, t1)" "tp_transmitted t1 = tp_transmitted targ @ [m2]"
    "deliver m2 o1 = (Ok (PrepareMigrationAcked qd), o2)" "origin_waits PrepareMigration local client qd o2"
    "tp_transmitted o2 = tp_transmitted o1" "tp_application_state o2 = tp_application_state orig"
    "target_collects client defragmenter_new t1"
    "tp_local_ipv4_addr t1 = tp_local_ipv4_addr targ" "tp_self_udp_port t1 = tp_self_udp_port targ"
proof -
  obtain o1 m1 where o1: "tp_initiate_migration (local, client) qd orig = Some o1" "tp_transmitted o1 = tp_transmitted orig @ [m1]"
    "origin_waits PrepareMigration local client qd o1" "tp_application_state o1 = tp_application_state orig"
    and m1: "mh_stage (ms_tcpmig_hdr m1) = PrepareMigration" "mh_client (ms_tcpmig_hdr m1) = client"
    using initiate_sends_prepare [OF assms(1)] by blast
  obtain t1 m2 where t1: "deliver m1 targ = (Ok RsOk, t1)" "tp_transmitted t1 = tp_transmitted targ @ [m2]"
    "target_collects client defragmenter_new t1"
    "tp_local_ipv4_addr t1 = tp_local_ipv4_addr targ" "tp_self_udp_port t1 = tp_self_udp_port targ"
    and m2: "mh_stage (ms_tcpmig_hdr m2) = PrepareMigrationAck" "mh_client (ms_tcpmig_hdr m2) = client"
    using target_acks_prepare [OF assms(2) m1] by blast
  obtain o2 where o2: "deliver m2 o1 = (Ok (PrepareMigrationAcked qd), o2)" "origin_waits PrepareMigration local client qd o2"
    "tp_transmitted o2 = tp_transmitted o1" "tp_application_state o2 = tp_application_state o1"
    using origin_gets_prepare_ack [OF o1(3) m2] by blast
  show thesis
    using that [OF o1(1,2) t1(1,2) o2(1,2,3) _ t1(3,4,5)] o1(4) o2(4) by simp
qed

text \<open>The fragments of a message reach a target that collects them, in any order.\<close>

lemma target_completes:
  assumes t: "target_collects client defragmenter_new t" and len: "length (ms_data s) \<le> 1452 * 65535"
    and fs: "fragments_from (seg_fragments s) = Some fs" "mh_stage (ms_tcpmig_hdr s) = ConnectionState"
      "mh_client (ms_tcpmig_hdr s) = client"
    and msg: "tcp_state_deserialize (ms_data s) = Some msg" and perm: "mset ps = mset fs"
  shows "\<exists>rs t' m. deliver_all ps t = (rs, t')
    \<and> mset rs = add_mset (Ok (StateReceived (received_state (tp_local_ipv4_addr t, tp_self_udp_port t) msg)))
        (replicate_mset (length fs - 1) (Ok RsOk))
    \<and> tp_application_state t' = stored_app_state msg t \<and> tp_transmitted t' = tp_transmitted t @ [m]
    \<and> mh_stage (ms_tcpmig_hdr m) = ConnectionStateAck \<and> mh_client (ms_tcpmig_hdr m) = client"
proof -
  have frag: "list_all (is_state_fragment client) ps"
    using fragment_headers(1) [OF fs(1) len fs(2,3)] perm by (metis list_all_iff mset_eq_setD)
  have "mset (map frag_wire ps) = mset (map frag_wire fs)"
    using perm by simp
  from defragment_permuted_fst [OF len fs(1) this]
  obtain df' where df': "defragment_all (map frag_wire ps) defragmenter_new
      = Some ([((ms_tcpmig_hdr s)\<lparr>mh_flag_next_fragment := False, mh_fragment_offset := 0\<rparr>, ms_data s)], df')"
    by auto
  have "length ps = length fs"
    using perm by (metis size_mset)
  then show ?thesis
    using deliver_fragments [OF t frag df' msg] fs(3) by auto
qed

text \<open>The state as the target decodes it.\<close>

definition decoded_state :: "tcp_state_msg \<Rightarrow> migrated_application_state \<Rightarrow> tcp_state_msg" where
  "decoded_state st app = \<lparr>ts_cb = cb_unstamp (ts_cb st),
     ts_app_state = (case app of Registered n f \<Rightarrow> if n = 0 then NoAppState else MigratedIn (f (replicate n 0)) | _ \<Rightarrow> NoAppState)\<rparr>"

lemma received_decoded:
  "received_state l (decoded_state st app) = \<lparr>ts_cb = (cb_unstamp (ts_cb st))\<lparr>cs_local := l\<rparr>, ts_app_state = NoAppState\<rparr>"
  by (simp add: received_state_def decoded_state_def ts_set_local_def split: migrated_application_state.split)

lemma stored_decoded:
  "app_bytes app = Some b \<Longrightarrow> stored_app_state (decoded_state st app) p (ts_remote st) = Some (MigratedIn b)"
  by (auto simp: stored_app_state_def decoded_state_def app_bytes_def ts_remote_def cb_unstamp_def
      split: migrated_application_state.splits if_splits)

text \<open>What the origin's application registered serializes to as many bytes as it is given.\<close>

definition app_fits :: "tcpmig_peer \<Rightarrow> sockaddr \<Rightarrow> bool" where
  "app_fits p client \<longleftrightarrow>
     (\<forall>n f. tp_application_state p client = Some (Registered n f) \<longrightarrow> (\<forall>b. length (f b) = length b))"

lemma origin_hands_over:
  assumes o: "origin_waits PrepareMigration local client qd p" "tp_application_state p = tp_application_state orig"
    and st: "ts_remote st = client" "ts_app_state st = NoAppState" "cb_fits (ts_cb st)"
    and app: "app_fits orig client" and small: "tcp_state_size (state_to_send st orig) \<le> 1452 * 65535"
  obtains p' fs s where "send_tcp_state st p = Some p'" "tp_transmitted p' = tp_transmitted p @ fs" "fs \<noteq> []"
    "origin_waits ConnectionState local client qd p'" "fragments_from (seg_fragments s) = Some fs"
    "length (ms_data s) \<le> 1452 * 65535" "mh_stage (ms_tcpmig_hdr s) = ConnectionState" "mh_client (ms_tcpmig_hdr s) = client"
    "tcp_state_deserialize (ms_data s) = Some (decoded_state st (ts_app_state (state_to_send st orig)))"
proof -
  let ?st = "state_to_send st orig"
  have cb: "ts_cb ?st = ts_cb st"
    by (simp add: state_to_send_def add_app_state_def split: option.split migrated_application_state.split)
  have "length (f b) = length b" if "ts_app_state ?st = Registered n f" for n f and b :: bytes
    using st(1,2) that app
    by (auto simp: app_fits_def state_to_send_def add_app_state_def split: option.splits migrated_application_state.splits)
  then obtain buf where buf: "tcp_state_serialize ?st = Some buf" "length buf = tcp_state_size ?st"
    "tcp_state_deserialize buf = Some (decoded_state st (ts_app_state ?st))"
    using tcp_state_codec [of ?st] st(3) cb by (auto simp: decoded_state_def)
  have small': "length buf \<le> 1452 * 65535"
    using buf(2) small by simp
  have "?st = (case tp_application_state p client of Some (Registered sz f) \<Rightarrow> add_app_state sz f st | _ \<Rightarrow> st)"
    using o(2) st(1) by (simp add: state_to_send_def)
  from origin_sends_state [OF o(1) st(1) this buf(1) small']
  obtain p' s fs where "send_tcp_state st p = Some p'" "tp_transmitted p' = tp_transmitted p @ fs"
    "origin_waits ConnectionState local client qd p'" "fragments_from (seg_fragments s) = Some fs" "ms_data s = buf"
    "mh_stage (ms_tcpmig_hdr s) = ConnectionState" "mh_client (ms_tcpmig_hdr s) = client"
    by blast
  then show thesis
    using that buf(3) small' fragment_headers(2) by blast
qed

text \<open>C6: a migration between two hosts that are not yet migrating the client's connection runs to completion
  when no message is lost: the target acknowledges the preparation, the origin is told to hand over the
  connection, the fragments of the connection state arrive in any order, and the target then has the
  connection with its own address as local endpoint, reports it exactly once, and keeps the application
  state the origin's application had registered; its acknowledgement ends the migration at the origin. No
  step fails or panics.\<close>

theorem migration_handshake:
  assumes free: "tp_active_migrations orig client = None" "tp_active_migrations targ client = None"
    and st: "ts_remote st = client" "ts_app_state st = NoAppState" "cb_fits (ts_cb st)"
    and app: "\<forall>n f. tp_application_state orig client = Some (Registered n f) \<longrightarrow> (\<forall>b. length (f b) = length b)"
    and small: "tcp_state_size (state_to_send st orig) \<le> 1452 * 65535"
  shows "\<exists>o1 m1 t1 m2 o2 o3 fs. tp_initiate_migration (local, client) qd orig = Some o1
    \<and> tp_transmitted o1 = tp_transmitted orig @ [m1]
    \<and> deliver m1 targ = (Ok RsOk, t1) \<and> tp_transmitted t1 = tp_transmitted targ @ [m2]
    \<and> deliver m2 o1 = (Ok (PrepareMigrationAcked qd), o2)
    \<and> send_tcp_state st o2 = Some o3 \<and> tp_transmitted o3 = tp_transmitted o2 @ fs \<and> fs \<noteq> []
    \<and> (\<forall>ps. mset ps = mset fs \<longrightarrow>
        (\<exists>rs t2 m3 o4. deliver_all ps t1 = (rs, t2)
          \<and> mset rs = add_mset (Ok (StateReceived
                \<lparr>ts_cb = (cb_unstamp (ts_cb st))\<lparr>cs_local := (tp_local_ipv4_addr targ, tp_self_udp_port targ)\<rparr>,
                 ts_app_state = NoAppState\<rparr>)) (replicate_mset (length fs - 1) (Ok RsOk))
          \<and> (\<forall>b. app_bytes (ts_app_state (state_to_send st orig)) = Some b \<longrightarrow>
               tp_application_state t2 client = Some (MigratedIn b))
          \<and> tp_transmitted t2 = tp_transmitted t1 @ [m3]
          \<and> deliver m3 o3 = (Ok MigrationCompleted, o4) \<and> tp_active_migrations o4 client = None))"
proof -
  obtain o1 m1 t1 m2 o2 where ex: "tp_initiate_migration (local, client) qd orig = Some o1"
    "tp_transmitted o1 = tp_transmitted orig @ [m1]" "deliver m1 targ = (Ok RsOk, t1)" "tp_transmitted t1 = tp_transmitted targ @ [m2]"
    "deliver m2 o1 = (Ok (PrepareMigrationAcked qd), o2)"
    and o2: "origin_waits PrepareMigration local client qd o2" "tp_application_state o2 = tp_application_state orig"
    and t1: "target_collects client defragmenter_new t1"
      "tp_local_ipv4_addr t1 = tp_local_ipv4_addr targ" "tp_self_udp_port t1 = tp_self_udp_port targ"
    by (rule prepare_exchange [OF free])
  obtain o3 fs s where o3: "send_tcp_state st o2 = Some o3" "tp_transmitted o3 = tp_transmitted o2 @ fs" "fs \<noteq> []"
    and s: "origin_waits ConnectionState local client qd o3" "fragments_from (seg_fragments s) = Some fs"
      "length (ms_data s) \<le> 1452 * 65535" "mh_stage (ms_tcpmig_hdr s) = ConnectionState" "mh_client (ms_tcpmig_hdr s) = client"
      "tcp_state_deserialize (ms_data s) = Some (decoded_state st (ts_app_state (state_to_send st orig)))"
    by (rule origin_hands_over [OF o2 st app [folded app_fits_def] small])
  have last: "\<exists>rs t2 m3 o4. deliver_all ps t1 = (rs, t2)
      \<and> mset rs = add_mset (Ok (StateReceived
            \<lparr>ts_cb = (cb_unstamp (ts_cb st))\<lparr>cs_local := (tp_local_ipv4_addr targ, tp_self_udp_port targ)\<rparr>,
             ts_app_state = NoAppState\<rparr>)) (replicate_mset (length fs - 1) (Ok RsOk))
      \<and> (\<forall>b. app_bytes (ts_app_state (state_to_send st orig)) = Some b \<longrightarrow>
           tp_application_state t2 client = Some (MigratedIn b))
      \<and> tp_transmitted t2 = tp_transmitted t1 @ [m3]
      \<and> deliver m3 o3 = (Ok MigrationCompleted, o4) \<and> tp_active_migrations o4 client = None"
    if perm: "mset ps = mset fs" for ps
    using target_completes [OF t1(1) s(3,2,4,5,6) perm] origin_gets_state_ack [OF s(1)] st(1)
      stored_decoded [of "ts_app_state (state_to_send st orig)" _ st t1]
    unfolding t1(2,3) received_decoded by metis
  show ?thesis
    by (intro exI [of _ o1] exI [of _ m1] exI [of _ t1] exI [of _ m2] exI [of _ o2] exI [of _ o3] exI [of _ fs])
      (use ex o3 last in \<open>intro conjI allI impI; assumption?\<close>)
qed

text \<open>Two hosts, and a connection to hand over.\<close>

definition demo_origin :: tcpmig_peer where
  "demo_origin = tcpmig_peer_new (Mac 1 2 3 4 5 6) BACKEND_IP"

definition demo_target :: tcpmig_peer where
  "demo_target = tp_set_port 10001 (tcpmig_peer_new (Mac 1 2 3 4 5 7) BACKEND_IP)"

definition demo_state :: tcp_state_msg where
  "demo_state = tcp_state_new (fst (the (cb_into_state demo_cb)))"

lemma demo_state_ok:
  "ts_remote demo_state = cb_remote demo_cb" "ts_app_state demo_state = NoAppState" "cb_fits (ts_cb demo_state)"
  "state_to_send demo_state demo_origin = demo_state" "tcp_state_size demo_state \<le> 1452 * 65535"
  by (simp_all add: demo_state_def tcp_state_new_def demo_cb_def cb_new_def sender_new_def receiver_new_def
      cb_into_state_def sender_into_state_def receiver_into_state_def cb_fits_def receiver_fits_def sender_fits_def
      ts_remote_def state_to_send_def demo_origin_def tcpmig_peer_new_def tcp_state_size_def cb_serialized_size_def
      receiver_serialized_size_def sender_serialized_size_def)

theorem migration_handshake_witness:
  "\<exists>o1 m1 t1 m2 o2 o3 fs rs t2. tp_initiate_migration (cb_local demo_cb, cb_remote demo_cb) 7 demo_origin = Some o1
    \<and> tp_transmitted o1 = [m1] \<and> deliver m1 demo_target = (Ok RsOk, t1) \<and> tp_transmitted t1 = [m2]
    \<and> deliver m2 o1 = (Ok (PrepareMigrationAcked 7), o2) \<and> send_tcp_state demo_state o2 = Some o3
    \<and> tp_transmitted o3 = tp_transmitted o2 @ fs
    \<and> deliver_all (rev fs) t1 = (rs, t2) \<and> Ok (StateReceived \<lparr>ts_cb = (cb_unstamp (ts_cb demo_state))
        \<lparr>cs_local := (BACKEND_IP, 10001)\<rparr>, ts_app_state = NoAppState\<rparr>) \<in> set rs"
proof -
  have h: "tp_active_migrations demo_origin (cb_remote demo_cb) = None" "tp_active_migrations demo_target (cb_remote demo_cb) = None"
    "tp_application_state demo_origin (cb_remote demo_cb) \<noteq> Some (Registered n f)"
    "tp_transmitted demo_origin = []" "tp_transmitted demo_target = []"
    "tp_local_ipv4_addr demo_target = BACKEND_IP" "tp_self_udp_port demo_target = 10001" for n f
    by (simp_all add: demo_origin_def demo_target_def tcpmig_peer_new_def tp_set_port_def)
  have reg: "\<forall>n f. tp_application_state demo_origin (cb_remote demo_cb) = Some (Registered n f) \<longrightarrow> (\<forall>b. length (f b) = length b)"
    using h(3) by blast
  have small: "tcp_state_size (state_to_send demo_state demo_origin) \<le> 1452 * 65535"
    using demo_state_ok(4,5) by simp
  note inst = migration_handshake [OF h(1,2) demo_state_ok(1-3) reg small,
      of "cb_local demo_cb" 7, unfolded h(4-7) append_Nil]
  have mem: "x \<in> set rs" if "mset rs = add_mset x M" for x and rs :: "receive_status outcome list" and M
    using that by (metis set_mset_mset union_single_eq_member)
  from inst show ?thesis
  proof (elim exE conjE, goal_cases)
    case (1 o1 m1 t1 m2 o2 o3 fs)
    from 1(9) [THEN spec, of "rev fs"] show ?case
      by (elim impE exE conjE) (simp, intro exI conjI, (rule 1 | assumption | erule mem)+)
  qed
qed

section \<open>Stages\<close>

text \<open>A migration that is given one message after another: what each message said and how it was answered, the migration
  afterwards and the segments sent. The process ends with the first panic.\<close>

type_synonym mig_log = "(migration_stage \<times> receive_status outcome) list"

fun am_run :: "(tcpmig_header \<times> bytes) list \<Rightarrow> active_migration \<Rightarrow> mig_log \<times> active_migration \<times> tcpmig_segment list" where
  "am_run [] a = ([], a, [])"
| "am_run ((hdr, buf) # ms) a =
     (case process_packet hdr buf a of
        Panic \<Rightarrow> ([(mh_stage hdr, Panic)], a, [])
      | Err e \<Rightarrow> (case am_run ms a of (lg, a', tx) \<Rightarrow> ((mh_stage hdr, Err e) # lg, a', tx))
      | Ok (r, a1, tx1) \<Rightarrow> (case am_run ms a1 of (lg, a', tx) \<Rightarrow> ((mh_stage hdr, Ok r) # lg, a', tx1 @ tx)))"

definition refused :: "receive_status outcome \<Rightarrow> bool" where
  "refused r \<longleftrightarrow> (case r of Err e \<Rightarrow> errno e = EBADMSG | _ \<Rightarrow> False)"

text \<open>The protocol of a target, as the runs that are possible from each stage and the stages of the messages sent.\<close>

inductive target_protocol :: "sockaddr \<Rightarrow> migration_stage \<Rightarrow> mig_log \<Rightarrow> migration_stage list \<Rightarrow> bool" for local where
  stop: "target_protocol local s [] []"
| early: "m \<noteq> PrepareMigration \<Longrightarrow> refused r \<Longrightarrow> target_protocol local StageNone lg tx \<Longrightarrow> target_protocol local StageNone ((m, r) # lg) tx"
| prepare: "target_protocol local PrepareMigrationAck lg tx \<Longrightarrow>
    target_protocol local StageNone ((PrepareMigration, Ok RsOk) # lg) (PrepareMigrationAck # tx)"
| stray: "m \<noteq> ConnectionState \<Longrightarrow> refused r \<Longrightarrow> target_protocol local PrepareMigrationAck lg tx \<Longrightarrow>
    target_protocol local PrepareMigrationAck ((m, r) # lg) tx"
| fragment: "target_protocol local PrepareMigrationAck lg tx \<Longrightarrow>
    target_protocol local PrepareMigrationAck ((ConnectionState, Ok RsOk) # lg) tx"
| malformed: "target_protocol local PrepareMigrationAck [(ConnectionState, Panic)] []"
| complete: "fst (ts_connection st) = local \<Longrightarrow> target_protocol local ConnectionStateAck lg tx \<Longrightarrow>
    target_protocol local PrepareMigrationAck ((ConnectionState, Ok (StateReceived st)) # lg) (ConnectionStateAck # tx)"
| late: "target_protocol local ConnectionStateAck lg tx \<Longrightarrow> target_protocol local ConnectionStateAck ((m, Ok RsOk) # lg) tx"

lemma fresh_step:
  assumes "am_last_sent_stage a = StageNone"
  shows "mh_stage hdr = PrepareMigration \<Longrightarrow> \<exists>a' m. process_packet hdr buf a = Ok (RsOk, a', [m])
      \<and> am_last_sent_stage a' = PrepareMigrationAck \<and> am_local_ipv4_addr a' = am_local_ipv4_addr a
      \<and> am_self_udp_port a' = am_self_udp_port a \<and> mh_stage (ms_tcpmig_hdr m) = PrepareMigrationAck"
    "mh_stage hdr \<noteq> PrepareMigration \<Longrightarrow> \<exists>e. process_packet hdr buf a = Err e \<and> refused (Err e)"
  using assms
  by (simp_all add: process_packet_def am_expect_prepare_def am_send_empty next_header_def swap_src_dst_port_def fail_new_def
      expect_def refused_def Let_def)

lemma collecting_step:
  assumes "am_last_sent_stage a = PrepareMigrationAck"
  shows "mh_stage hdr \<noteq> ConnectionState \<Longrightarrow> \<exists>e. process_packet hdr buf a = Err e \<and> refused (Err e)"
    "mh_stage hdr = ConnectionState \<Longrightarrow> process_packet hdr buf a = Panic
      \<or> (\<exists>df. process_packet hdr buf a = Ok (RsOk, a\<lparr>am_defragmenter := df\<rparr>, []))
      \<or> (\<exists>st df m. process_packet hdr buf a = Ok (StateReceived st, a\<lparr>am_defragmenter := df, am_last_sent_stage := ConnectionStateAck\<rparr>, [m])
          \<and> fst (ts_connection st) = (am_local_ipv4_addr a, am_self_udp_port a) \<and> mh_stage (ms_tcpmig_hdr m) = ConnectionStateAck)"
  using assms
  by (auto simp: process_packet_def am_expect_state_def am_send_empty next_header_def swap_src_dst_port_def fail_new_def
      expect_def refused_def ts_connection_def ts_set_local_def Let_def split: option.split prod.split)

lemma target_keeps_to_protocol:
  assumes "am_last_sent_stage a \<in> {StageNone, PrepareMigrationAck, ConnectionStateAck}"
  shows "case am_run ms a of (lg, a', tx) \<Rightarrow>
    target_protocol (am_local_ipv4_addr a, am_self_udp_port a) (am_last_sent_stage a) lg (map (mh_stage \<circ> ms_tcpmig_hdr) tx)"
  using assms
proof (induction ms a rule: am_run.induct)
  case (2 hdr buf ms a)
  note IH2 = "2.IH" and prems2 = "2.prems"
  consider "am_last_sent_stage a = StageNone" | "am_last_sent_stage a = PrepareMigrationAck" | "am_last_sent_stage a = ConnectionStateAck"
    using prems2 by blast
  then show ?case
  proof cases
    case 1
    show ?thesis
    proof (cases "mh_stage hdr = PrepareMigration")
      case True
      then obtain a1 m where pp: "process_packet hdr buf a = Ok (RsOk, a1, [m])" and "am_last_sent_stage a1 = PrepareMigrationAck"
        "am_local_ipv4_addr a1 = am_local_ipv4_addr a" "am_self_udp_port a1 = am_self_udp_port a"
        "mh_stage (ms_tcpmig_hdr m) = PrepareMigrationAck"
        using fresh_step(1) [OF 1, of hdr buf] by blast
      then show ?thesis
        using IH2(1) [OF pp refl refl] 1 True by (auto split: prod.split intro: target_protocol.prepare)
    next
      case False
      then obtain e where "process_packet hdr buf a = Err e" "refused (Err e)"
        using fresh_step(2) [OF 1, of hdr buf] by blast
      then show ?thesis
        using IH2(2) 1 False by (auto split: prod.split intro: target_protocol.early)
    qed
  next
    case 2
    show ?thesis
    proof (cases "mh_stage hdr = ConnectionState")
      case True
      from collecting_step(2) [OF 2 True, of buf] show ?thesis
      proof (elim disjE exE conjE)
        assume "process_packet hdr buf a = Panic"
        then show ?thesis
          using 2 True by (simp add: target_protocol.malformed)
      next
        fix df
        assume pp: "process_packet hdr buf a = Ok (RsOk, a\<lparr>am_defragmenter := df\<rparr>, [])"
        then show ?thesis
          using IH2(1) [OF pp refl refl] 2 True
          by (auto split: prod.split intro: target_protocol.fragment)
      next
        fix st df m
        let ?a = "a\<lparr>am_defragmenter := df, am_last_sent_stage := ConnectionStateAck\<rparr>"
        assume pp: "process_packet hdr buf a = Ok (StateReceived st, ?a, [m])"
          and "fst (ts_connection st) = (am_local_ipv4_addr a, am_self_udp_port a)" "mh_stage (ms_tcpmig_hdr m) = ConnectionStateAck"
        then show ?thesis
          using IH2(1) [OF pp refl refl] 2 True
          by (auto split: prod.split intro: target_protocol.complete)
      qed
    next
      case False
      then obtain e where "process_packet hdr buf a = Err e" "refused (Err e)"
        using collecting_step(1) [OF 2, of hdr buf] by blast
      then show ?thesis
        using IH2(2) 2 False by (auto split: prod.split intro: target_protocol.stray)
    qed
  next
    case 3
    then have pp: "process_packet hdr buf a = Ok (RsOk, a, [])"
      by (simp add: process_packet_def)
    then show ?thesis
      using IH2(1) [OF pp refl refl] 3 by (auto split: prod.split intro: target_protocol.late)
  qed
qed (simp add: target_protocol.stop)

text \<open>What the protocol promises from each stage on.\<close>

definition without_effect :: "mig_log \<Rightarrow> bool" where
  "without_effect lg \<longleftrightarrow> list_all (\<lambda>(_, r). r = Ok RsOk) lg"

definition delivers :: "mig_log \<Rightarrow> bool" where
  "delivers lg \<longleftrightarrow> list_ex (\<lambda>(_, r). case r of Ok (StateReceived _) \<Rightarrow> True | _ \<Rightarrow> False) lg"

lemma refused_simps [simp]: "\<not> refused Panic" "\<not> refused (Ok x)"
  by (simp_all add: refused_def)

lemma delivers_simps [simp]: "\<not> delivers []" "delivers ((m, Ok (StateReceived st)) # lg)" "delivers ((m, Ok RsOk) # lg) = delivers lg"
  "delivers ((m, Panic) # lg) = delivers lg" "refused r \<Longrightarrow> delivers ((m, r) # lg) = delivers lg"
  by (auto simp: delivers_def refused_def split: outcome.splits)

lemma protocol_done:
  "target_protocol local s lg tx \<Longrightarrow> s = ConnectionStateAck \<Longrightarrow> without_effect lg \<and> tx = []"
  by (induction rule: target_protocol.induct) (auto simp: without_effect_def)

lemma without_effect_mem: "without_effect lg \<Longrightarrow> (m, r) \<in> set lg \<Longrightarrow> r = Ok RsOk"
  by (auto simp: without_effect_def list_all_iff)

lemma without_effect_quiet: "without_effect lg \<Longrightarrow> \<not> delivers lg"
  by (auto simp: without_effect_def delivers_def list_all_iff list_ex_iff)

lemma protocol_state:
  assumes "target_protocol local s lg tx" "s \<noteq> ConnectionStateAck" "lg = l1 @ (m, Ok (StateReceived st)) # l2"
  shows "m = ConnectionState \<and> fst (ts_connection st) = local \<and> without_effect l2
    \<and> (s = StageNone \<longrightarrow> (PrepareMigration, Ok RsOk) \<in> set l1)"
  using assms
proof (induction arbitrary: l1 rule: target_protocol.induct)
  case (complete st' lg tx)
  then show ?case
    using protocol_done [OF complete(2)] without_effect_mem [of lg m "Ok (StateReceived st)"] by (auto simp: Cons_eq_append_conv)
qed (auto simp: Cons_eq_append_conv)

lemma protocol_panic:
  assumes "target_protocol local s lg tx" "lg = l1 @ (m, Panic) # l2"
  shows "m = ConnectionState \<and> l2 = [] \<and> (s = StageNone \<longrightarrow> (PrepareMigration, Ok RsOk) \<in> set l1)"
  using assms
proof (induction arbitrary: l1 rule: target_protocol.induct)
  case (complete st' lg tx)
  then show ?case
    using protocol_done [OF complete(2)] without_effect_mem [of lg m Panic] by (auto simp: Cons_eq_append_conv)
qed (auto simp: Cons_eq_append_conv)

lemma protocol_early:
  assumes "target_protocol local s lg tx" "s = StageNone" "lg = l1 @ (m, r) # l2" "PrepareMigration \<notin> fst ` set (l1 @ [(m, r)])"
  shows "refused r"
  using assms
proof (induction arbitrary: l1 rule: target_protocol.induct)
  case (early m' r' lg tx)
  then show ?case
    by (cases l1) auto
qed (auto simp: Cons_eq_append_conv)

lemma protocol_sends:
  assumes "target_protocol local s lg tx"
  shows "s = StageNone \<Longrightarrow> tx = (if PrepareMigration \<in> fst ` set lg then [PrepareMigrationAck] else []) @ (if delivers lg then [ConnectionStateAck] else [])"
    "s = PrepareMigrationAck \<Longrightarrow> tx = (if delivers lg then [ConnectionStateAck] else [])"
  using assms
proof (induction rule: target_protocol.induct)
  case (complete st' lg tx)
  {
    case 2
    then show ?case
      using protocol_done [OF complete(2)] by simp
  }
qed simp_all

text \<open>C16: a target follows the protocol, whatever messages arrive and in whatever order. Every message up to the request to
  prepare is refused with EBADMSG. The connection state is delivered only by a ConnectionState message that comes after
  an accepted request, it names the target's own address, and every message after it is accepted without effect, so that
  it is delivered once. The process panics only on a ConnectionState message after an accepted request. The target sends
  one acknowledgement of the preparation if there was a request, one of the state if there was a state, in this order,
  and nothing else.\<close>

theorem target_follows_protocol:
  assumes "am_last_sent_stage a = StageNone" "am_run ms a = (lg, a', tx)"
  shows "(\<forall>l1 m r l2. lg = l1 @ (m, r) # l2 \<longrightarrow> PrepareMigration \<notin> fst ` set (l1 @ [(m, r)]) \<longrightarrow> refused r)
    \<and> (\<forall>l1 m st l2. lg = l1 @ (m, Ok (StateReceived st)) # l2 \<longrightarrow>
        m = ConnectionState \<and> fst (ts_connection st) = (am_local_ipv4_addr a, am_self_udp_port a)
        \<and> (PrepareMigration, Ok RsOk) \<in> set l1 \<and> without_effect l2)
    \<and> (\<forall>l1 m l2. lg = l1 @ (m, Panic) # l2 \<longrightarrow> m = ConnectionState \<and> (PrepareMigration, Ok RsOk) \<in> set l1 \<and> l2 = [])
    \<and> map (mh_stage \<circ> ms_tcpmig_hdr) tx = (if PrepareMigration \<in> fst ` set lg then [PrepareMigrationAck] else [])
        @ (if delivers lg then [ConnectionStateAck] else [])"
proof -
  have p: "target_protocol (am_local_ipv4_addr a, am_self_udp_port a) StageNone lg (map (mh_stage \<circ> ms_tcpmig_hdr) tx)"
    using target_keeps_to_protocol [of a ms] assms by simp
  show ?thesis
    using protocol_early [OF p refl] protocol_state [OF p] protocol_panic [OF p] protocol_sends(1) [OF p refl] by auto
qed

theorem target_follows_protocol_witness:
  "\<exists>e a' t. am_run [(tcpmig_new (1, 80) (2, 5000) 0 ConnectionState 1 2, []), (tcpmig_new (1, 80) (2, 5000) 0 PrepareMigration 1 2, [])]
      (tp_new_active 1 (1, 80) (2, 5000) None demo_target) = ([(ConnectionState, e), (PrepareMigration, Ok RsOk)], a', [t])
    \<and> refused e \<and> mh_stage (ms_tcpmig_hdr t) = PrepareMigrationAck"
proof -
  let ?ms = "[(tcpmig_new (1, 80) (2, 5000) 0 ConnectionState 1 2, []), (tcpmig_new (1, 80) (2, 5000) 0 PrepareMigration 1 2, [])]"
  let ?a = "tp_new_active 1 (1, 80) (2, 5000) None demo_target"
  have st: "am_last_sent_stage ?a = StageNone"
    by (simp add: tp_new_active_def active_new_def)
  obtain e a' t where run: "am_run ?ms ?a = ([(ConnectionState, Err e), (PrepareMigration, Ok RsOk)], a', [t])"
    using st by (simp add: process_packet_def am_expect_prepare_def am_send_empty expect_def tcpmig_new_def Let_def)
  have "refused (Err e)"
    using target_follows_protocol [OF st run, THEN conjunct1, rule_format, of "[]" ConnectionState "Err e"] by simp
  moreover have "mh_stage (ms_tcpmig_hdr t) = PrepareMigrationAck"
    using target_follows_protocol [OF st run] by simp
  ultimately show ?thesis
    using run by blast
qed

text \<open>a message for a client whose connection is not being migrated, other than a request to prepare or a
  heartbeat, aborts the process: a duplicate of the acknowledgement that ended a migration is enough.\<close>

theorem duplicate_state_ack_panics:
  assumes "origin_waits ConnectionState local client qd p"
    and "mh_stage (ms_tcpmig_hdr m) = ConnectionStateAck" "mh_client (ms_tcpmig_hdr m) = client"
  shows "\<exists>p'. fst (deliver m p) = Ok MigrationCompleted \<and> snd (deliver m p) = p' \<and> fst (deliver m p') = Panic"
  using assms by (auto simp: deliver_eq handle_defs am_expect_state_ack_def origin_waits_def)

theorem duplicate_state_ack_panics_witness:
  "\<exists>p'. fst (deliver (demo_segment\<lparr>ms_tcpmig_hdr := tcpmig_new (1, 80) (2, 5000) 0 ConnectionStateAck 1 2\<rparr>)
      (demo_origin\<lparr>tp_active_migrations := [(2, 5000) \<mapsto>
        (tp_new_active 1 (1, 80) (2, 5000) (Some 7) demo_origin)\<lparr>am_last_sent_stage := ConnectionState\<rparr>]\<rparr>)) = Ok MigrationCompleted
    \<and> snd (deliver (demo_segment\<lparr>ms_tcpmig_hdr := tcpmig_new (1, 80) (2, 5000) 0 ConnectionStateAck 1 2\<rparr>)
      (demo_origin\<lparr>tp_active_migrations := [(2, 5000) \<mapsto>
        (tp_new_active 1 (1, 80) (2, 5000) (Some 7) demo_origin)\<lparr>am_last_sent_stage := ConnectionState\<rparr>]\<rparr>)) = p'
    \<and> fst (deliver (demo_segment\<lparr>ms_tcpmig_hdr := tcpmig_new (1, 80) (2, 5000) 0 ConnectionStateAck 1 2\<rparr>) p') = Panic"
  by (rule duplicate_state_ack_panics [where qd = 7 and local = "(1, 80)" and client = "(2, 5000)"])
    (simp_all add: origin_waits_def tcpmig_new_def tp_new_active_def active_new_def)

section \<open>Application state\<close>

text \<open>the state an application registers on the origin is what the target's application fetches after the
  migration, but only the first time: a second fetch finds nothing and drops the registration, so that a
  further migration of the connection leaves the application state behind.\<close>

theorem application_state_fetched_once:
  assumes "tp_application_state p remote = Some (MigratedIn b)"
  shows "\<exists>p1 p2. tp_get_migrated_application_state de remote p = (Some (de b), p1)
    \<and> tp_application_state p1 remote = Some (Registered (fst (de b)) (snd (de b)))
    \<and> tp_get_migrated_application_state de remote p1 = (None, p2)
    \<and> tp_application_state p2 remote = None
    \<and> (\<forall>st. ts_remote st = remote \<longrightarrow> state_to_send st p2 = st)"
  using assms by (simp add: tp_get_migrated_application_state_def Let_def state_to_send_def)

theorem application_state_fetched_once_witness:
  "\<exists>p1 p2. tp_get_migrated_application_state (\<lambda>b. (length b, \<lambda>_. b)) (2, 5000)
      (demo_target\<lparr>tp_application_state := [(2, 5000) \<mapsto> MigratedIn [1, 2]]\<rparr>) = (Some (2, \<lambda>_. [1, 2]), p1)
    \<and> tp_get_migrated_application_state (\<lambda>b. (length b, \<lambda>_. b)) (2, 5000) p1 = (None, p2)"
  using application_state_fetched_once [of "demo_target\<lparr>tp_application_state := [(2, 5000) \<mapsto> MigratedIn [1, 2]]\<rparr>"
      "(2, 5000)" "[1, 2]" "\<lambda>b. (length b, \<lambda>_. b)"]
  by (auto simp: numeral_2_eq_2)

end
