(* ===== verification/Peer_Migration.thy ===== *)
theory Peer_Migration
  imports Tcp_Peer Tcpmig_Handshake
begin

text \<open>
  Migration of a connection from one TCP peer to another: the tables of the two peers, the migration protocol and
  the conversion of the connection put together.
\<close>

definition peer_deliver :: "tcpmig_segment \<Rightarrow> tcp_peer \<Rightarrow> unit outcome \<times> tcp_peer" where
  "peer_deliver m p = receive_tcpmig (ms_ipv4_hdr m) (tcpmig_payload m) p"

fun peer_deliver_all :: "tcpmig_segment list \<Rightarrow> tcp_peer \<Rightarrow> unit outcome list \<times> tcp_peer" where
  "peer_deliver_all [] p = ([], p)"
| "peer_deliver_all (m # ms) p =
     (let (r, p) = peer_deliver m p; (rs, p) = peer_deliver_all ms p in (r # rs, p))"

definition mig_sent :: "tcp_peer \<Rightarrow> tcp_peer \<Rightarrow> tcpmig_segment list \<Rightarrow> bool" where
  "mig_sent p p' ms \<longleftrightarrow> tp_transmitted (pe_tcpmig p') = tp_transmitted (pe_tcpmig p) @ ms"

lemma peer_deliver_eq:
  "deliver m (pe_tcpmig p) = (Ok s, mig) \<Longrightarrow> peer_deliver m p = act_on_status s (p\<lparr>pe_tcpmig := mig\<rparr>)"
  by (simp add: peer_deliver_def deliver_def receive_tcpmig_def)

section \<open>The connection itself\<close>

text \<open>Bringing a block up to date does not touch what travels.\<close>

lemma into_state_loaded:
  "map_option fst (cb_into_state (wake (load_cb es p))) = map_option fst (cb_into_state (es_cb es))"
  by (auto simp: wake_def load_cb_def refresh_cb_def cb_into_state_def receiver_into_state_def Let_def
      split: option.split)

lemma from_state_local:
  "rx_core (cb_from_state now link off arp d (st\<lparr>cs_local := l\<rparr>)) = rx_core (cb_from_state now link off arp d st)"
  "cb_sender (cb_from_state now link off arp d (st\<lparr>cs_local := l\<rparr>)) = cb_sender (cb_from_state now link off arp d st)"
  "cb_remote (cb_from_state now link off arp d (st\<lparr>cs_local := l\<rparr>)) = cb_remote (cb_from_state now link off arp d st)"
  "receive_buffer_size (cb_from_state now link off arp d (st\<lparr>cs_local := l\<rparr>)) = receive_buffer_size (cb_from_state now link off arp d st)"
  "window_scale (cb_from_state now link off arp d (st\<lparr>cs_local := l\<rparr>)) = window_scale (cb_from_state now link off arp d st)"
  "cb_state (cb_from_state now link off arp d (st\<lparr>cs_local := l\<rparr>)) = cb_state (cb_from_state now link off arp d st)"
  "cb_local (cb_from_state now link off arp d (st\<lparr>cs_local := l\<rparr>)) = l"
  by (simp_all add: cb_from_state_def rx_core_def receiver_from_state_def Let_def)

section \<open>Fragments arriving at a peer\<close>

lemma peer_deliver_quiet:
  assumes "deliver_all ms (pe_tcpmig p) = (rs, mig)" "set rs \<subseteq> {Ok RsOk}"
  shows "peer_deliver_all ms p = (replicate (length ms) (Ok ()), p\<lparr>pe_tcpmig := mig\<rparr>)"
  using assms
proof (induction ms arbitrary: p rs)
  case (Cons m ms)
  obtain r g where m: "deliver m (pe_tcpmig p) = (r, g)"
    by fastforce
  obtain rs1 where rest: "deliver_all ms g = (rs1, mig)" "rs = r # rs1"
    using Cons.prems(1) m by (auto simp: Let_def split: prod.splits)
  have "peer_deliver m p = (Ok (), p\<lparr>pe_tcpmig := g\<rparr>)"
    using peer_deliver_eq [of m p RsOk g] m rest(2) Cons.prems(2) by (simp add: act_on_status_def)
  then show ?case
    using Cons.IH [of "p\<lparr>pe_tcpmig := g\<rparr>" rs1] rest Cons.prems(2) by simp
qed simp

lemma peer_deliver_state:
  assumes "deliver_all ms (pe_tcpmig p) = (rs, mig)"
    and "mset rs = add_mset (Ok (StateReceived st)) (replicate_mset k (Ok RsOk))"
    and "\<And>g. migrate_in_connection st (p\<lparr>pe_tcpmig := g\<rparr>) = (Ok (), p\<lparr>pe_tcpmig := g, pe_passive := X\<rparr>)"
  shows "peer_deliver_all ms p = (replicate (length ms) (Ok ()), p\<lparr>pe_tcpmig := mig, pe_passive := X\<rparr>)"
  using assms
proof (induction ms arbitrary: p rs k)
  case (Cons m ms)
  obtain r g where m: "deliver m (pe_tcpmig p) = (r, g)"
    by fastforce
  obtain rs1 where rest: "deliver_all ms g = (rs1, mig)" "rs = r # rs1"
    using Cons.prems(1) m by (auto simp: Let_def split: prod.splits)
  show ?case
  proof (cases "r = Ok RsOk")
    case True
    have "peer_deliver m p = (Ok (), p\<lparr>pe_tcpmig := g\<rparr>)"
      using peer_deliver_eq [of m p RsOk g] m True by (simp add: act_on_status_def)
    moreover obtain k' where "mset rs1 = add_mset (Ok (StateReceived st)) (replicate_mset k' (Ok RsOk))"
    proof -
      have e: "add_mset (Ok RsOk) (mset rs1) = add_mset (Ok (StateReceived st)) (replicate_mset k (Ok RsOk))"
        using Cons.prems(2) rest(2) True by simp
      then have "Ok RsOk \<in># replicate_mset k (Ok RsOk)"
        by (metis insert_noteq_member outcome.inject(1) receive_status.distinct(9))
      then obtain k' where "k = Suc k'"
        by (cases k) simp_all
      then have "mset rs1 = add_mset (Ok (StateReceived st)) (replicate_mset k' (Ok RsOk))"
        using e by (simp add: add_mset_commute [of "Ok RsOk"])
      then show thesis
        using that by blast
    qed
    ultimately show ?thesis
      using Cons.IH [of "p\<lparr>pe_tcpmig := g\<rparr>" rs1] rest(1) Cons.prems(3) by simp
  next
    case False
    have e: "add_mset r (mset rs1) = add_mset (Ok (StateReceived st)) (replicate_mset k (Ok RsOk))"
      using Cons.prems(2) rest(2) by simp
    have "r \<notin># replicate_mset k (Ok RsOk)"
      using False by (auto simp: in_replicate_mset)
    then have r: "r = Ok (StateReceived st)" "mset rs1 = replicate_mset k (Ok RsOk)"
      using e by (metis insert_noteq_member, metis add_mset_remove_trivial insert_noteq_member)
    then have "set rs1 \<subseteq> {Ok RsOk}"
      by (metis set_mset_mset set_mset_replicate_mset_subset empty_subsetI order_refl)
    then have "peer_deliver_all ms (p\<lparr>pe_tcpmig := g, pe_passive := X\<rparr>) =
        (replicate (length ms) (Ok ()), p\<lparr>pe_tcpmig := mig, pe_passive := X\<rparr>)"
      using peer_deliver_quiet [of ms "p\<lparr>pe_tcpmig := g, pe_passive := X\<rparr>" rs1 mig] rest(1) by simp
    moreover have "peer_deliver m p = (Ok (), p\<lparr>pe_tcpmig := g, pe_passive := X\<rparr>)"
      using peer_deliver_eq [of m p "StateReceived st" g] m r(1) Cons.prems(3) by (simp add: act_on_status_def)
    ultimately show ?thesis
      by simp
  qed
qed simp

section \<open>From one peer to the other\<close>

lemma origin_starts:
  assumes "map_of (pe_sockets p) qd = Some (SockEstablished local client)" "pe_established p (local, client) = Some es"
    and "tp_initiate_migration (local, client) qd (pe_tcpmig p) = Some mig"
  shows "initiate_migration_by_qd qd p = (Ok (), (disable_stats_of (es_handle es) p)\<lparr>pe_tcpmig := mig\<rparr>)"
  using assms by (simp add: initiate_migration_by_qd_def start_migration_def disable_stats_of_def Let_def)

lemma origin_releases:
  assumes "deliver m (pe_tcpmig p) = (Ok (PrepareMigrationAcked qd), mig)" "send_tcp_state (tcp_state_new st) mig = Some mig'"
    and "map_of (pe_sockets p) qd = Some (SockEstablished local client)" "pe_qds p (local, client) = Some qd'"
    and "pe_established p (local, client) = Some es" "cb_into_state (es_cb es) = Some (st, left)"
  shows "\<exists>p'. peer_deliver m p = (Ok (), p') \<and> pe_tcpmig p' = mig' \<and> pe_migrated_qd p' = Some qd
    \<and> map_of (pe_sockets p') qd = Some (MigratedOut local client)
    \<and> pe_established p' (local, client) = None \<and> pe_qds p' (local, client) = None"
proof -
  let ?p = "p\<lparr>pe_tcpmig := mig, pe_migrated_qd := Some qd,
      pe_sockets := AList.update qd (MigratedOut local client) (pe_sockets p), pe_qds := (pe_qds p)((local, client) := None),
      pe_established := (pe_established p)((local, client) := None)\<rparr>"
  have "map_option fst (cb_into_state (wake (load_cb es ?p))) = Some st"
    using into_state_loaded [of es ?p] assms(6) by simp
  then obtain left' where "cb_into_state (wake (load_cb es ?p)) = Some (st, left')"
    by auto
  then have "migrate_out_and_send qd (p\<lparr>pe_tcpmig := mig, pe_migrated_qd := Some qd\<rparr>) =
      Some ((log_cb (wake (load_cb es ?p)) ?p)\<lparr>pe_tcpmig := mig'\<rparr>)"
    using assms(2-5) by (simp add: migrate_out_and_send_def migrate_out_connection_def Let_def log_cb_def)
  then show ?thesis
    using peer_deliver_eq [OF assms(1)] by (simp add: act_on_status_def log_cb_def update_conv)
qed

lemma target_takes_over:
  fixes st :: ctrl_block_state and l :: sockaddr and p :: tcp_peer
  defines "cb \<equiv> cb_from_state (pe_now p) (pe_link p) (cfg_tx_checksum_offload (pe_config p)) (pe_arp p)
      (cfg_ack_delay_timeout (pe_config p)) (st\<lparr>cs_local := l\<rparr>)"
  assumes "pe_passive p l = Some ps" "cs_remote st \<notin> set (rs_endpoints (ps_ready ps))"
  shows "\<exists>ps'. rs_ready (ps_ready ps') = rs_ready (ps_ready ps) @ [Ok cb] \<and>
    (\<forall>g. migrate_in_connection \<lparr>ts_cb = st\<lparr>cs_local := l\<rparr>, ts_app_state = NoAppState\<rparr> (p\<lparr>pe_tcpmig := g\<rparr>) =
      (Ok (), p\<lparr>pe_tcpmig := g, pe_passive := (pe_passive p)(l \<mapsto> ps')\<rparr>))"
proof -
  have cb: "cb_local cb = l" "cb_remote cb = cs_remote st"
    by (simp_all add: cb_def cb_from_state_def Let_def)
  obtain ps' where ps': "push_migrated_in cb ps = Some ps'" "rs_ready (ps_ready ps') = rs_ready (ps_ready ps) @ [Ok cb]"
    using assms(3) cb(2) by (simp add: push_migrated_in_def rs_push_ok_def rs_wake_def)
  have "migrate_in_connection \<lparr>ts_cb = st\<lparr>cs_local := l\<rparr>, ts_app_state = NoAppState\<rparr> (p\<lparr>pe_tcpmig := g\<rparr>) =
      (Ok (), p\<lparr>pe_tcpmig := g, pe_passive := (pe_passive p)(l \<mapsto> ps')\<rparr>)" for g
    using assms(2) ps'(1) cb(1) by (simp add: migrate_in_connection_def cb_def [symmetric] Let_def)
  then show ?thesis
    using ps'(2) by blast
qed

text \<open>What the target's copy of a connection has in common with the original.\<close>

definition same_connection :: "ctrl_block \<Rightarrow> ctrl_block \<Rightarrow> bool" where
  "same_connection cb cb' \<longleftrightarrow> cb_remote cb' = cb_remote cb \<and> rx_core cb' = rx_core cb
     \<and> cb_sender cb' = (cb_sender cb)\<lparr>unacked_queue := map unstamp (unacked_queue (cb_sender cb))\<rparr>
     \<and> receive_buffer_size cb' = receive_buffer_size cb \<and> window_scale cb' = window_scale cb \<and> cb_state cb' = Established"

text \<open>The state of a connection that can travel, and its copy under another address.\<close>

definition target_cb :: "tcp_peer \<Rightarrow> sockaddr \<Rightarrow> ctrl_block_state \<Rightarrow> ctrl_block" where
  "target_cb p l st = cb_from_state (pe_now p) (pe_link p) (cfg_tx_checksum_offload (pe_config p)) (pe_arp p)
     (cfg_ack_delay_timeout (pe_config p)) ((cb_unstamp st)\<lparr>cs_local := l\<rparr>)"

lemma travelling_state:
  assumes "migratable cb" "cb_into_state cb = Some (st, left)"
  shows "ts_remote (tcp_state_new st) = cb_remote cb" "ts_app_state (tcp_state_new st) = NoAppState"
    "cb_fits (ts_cb (tcp_state_new st))" "same_connection cb (target_cb p l st)" "cb_local (target_cb p l st) = l"
    "cs_remote (cb_unstamp st) = cb_remote cb"
proof -
  have ok: "cb_fits st" "\<And>now link off arp d. let cb' = cb_from_state now link off arp d (cb_unstamp st) in
       rx_core cb' = rx_core cb \<and> cb_local cb' = cb_local cb \<and> cb_remote cb' = cb_remote cb
       \<and> receive_buffer_size cb' = receive_buffer_size cb \<and> window_scale cb' = window_scale cb
       \<and> cb_sender cb' = (cb_sender cb)\<lparr>unacked_queue := map unstamp (unacked_queue (cb_sender cb))\<rparr>
       \<and> cb_state cb' = Established"
    using migratable_into_state [OF assms(1)] assms(2) by auto
  have rem: "cs_remote st = cb_remote cb"
    using assms(2) by (auto simp: cb_into_state_def Let_def split: option.splits prod.splits)
  then show "ts_remote (tcp_state_new st) = cb_remote cb" "ts_app_state (tcp_state_new st) = NoAppState"
    "cb_fits (ts_cb (tcp_state_new st))" "cs_remote (cb_unstamp st) = cb_remote cb"
    using ok(1) by (simp_all add: ts_remote_def tcp_state_new_def cb_unstamp_def)
  show "same_connection cb (target_cb p l st)" "cb_local (target_cb p l st) = l"
    using ok(2) by (simp_all add: same_connection_def target_cb_def from_state_local Let_def)
qed

lemma target_peer_completes:
  assumes t: "target_collects client defragmenter_new (pe_tcpmig t)"
      "l = (tp_local_ipv4_addr (pe_tcpmig t), tp_self_udp_port (pe_tcpmig t))"
    and s: "length (ms_data s) \<le> 1452 * 65535" "fragments_from (seg_fragments s) = Some fs"
      "mh_stage (ms_tcpmig_hdr s) = ConnectionState" "mh_client (ms_tcpmig_hdr s) = client"
      "tcp_state_deserialize (ms_data s) = Some (decoded_state (tcp_state_new st) app)"
    and ps: "pe_passive t l = Some ps" "cs_remote (cb_unstamp st) \<notin> set (rs_endpoints (ps_ready ps))"
    and perm: "mset frs = mset fs"
  shows "\<exists>t' ps' m. peer_deliver_all frs t = (replicate (length frs) (Ok ()), t') \<and> mig_sent t t' [m]
    \<and> pe_passive t' l = Some ps' \<and> rs_ready (ps_ready ps') = rs_ready (ps_ready ps) @ [Ok (target_cb t l st)]
    \<and> mh_stage (ms_tcpmig_hdr m) = ConnectionStateAck \<and> mh_client (ms_tcpmig_hdr m) = client"
proof -
  obtain rs g m where g: "deliver_all frs (pe_tcpmig t) = (rs, g)"
    "mset rs = add_mset (Ok (StateReceived \<lparr>ts_cb = (cb_unstamp st)\<lparr>cs_local := l\<rparr>, ts_app_state = NoAppState\<rparr>))
      (replicate_mset (length fs - 1) (Ok RsOk))" "tp_transmitted g = tp_transmitted (pe_tcpmig t) @ [m]"
    "mh_stage (ms_tcpmig_hdr m) = ConnectionStateAck" "mh_client (ms_tcpmig_hdr m) = client"
    using target_completes [OF t(1) s perm] unfolding t(2) [symmetric] received_decoded by (auto simp: tcp_state_new_def)
  obtain ps' where ps': "rs_ready (ps_ready ps') = rs_ready (ps_ready ps) @ [Ok (target_cb t l st)]"
    "\<And>x. migrate_in_connection \<lparr>ts_cb = (cb_unstamp st)\<lparr>cs_local := l\<rparr>, ts_app_state = NoAppState\<rparr> (t\<lparr>pe_tcpmig := x\<rparr>) =
      (Ok (), t\<lparr>pe_tcpmig := x, pe_passive := (pe_passive t)(l \<mapsto> ps')\<rparr>)"
    using target_takes_over [OF ps] unfolding target_cb_def by blast
  have "peer_deliver_all frs t = (replicate (length frs) (Ok ()), t\<lparr>pe_tcpmig := g, pe_passive := (pe_passive t)(l \<mapsto> ps')\<rparr>)"
    by (rule peer_deliver_state [OF g(1,2) ps'(2)])
  then show ?thesis
    using g(3-5) ps'(1) by (auto simp: mig_sent_def)
qed

text \<open>C2: a connection moves from one TCP peer to another. The origin, asked to migrate an established connection,
  and a target that listens on its own migration address carry out the protocol; every step succeeds. When the
  target has agreed, the origin's descriptor is marked as migrated out and the connection has left its tables.
  When the fragments of the connection state have arrived, in any order, the target's listener has the
  connection at the end of its ready queue, under the target's own address, with the same data received and
  unread, the same data queued and in flight, and the same windows; the target's acknowledgement ends the
  migration at the origin.\<close>

theorem connection_migrates:
  assumes conn: "map_of (pe_sockets orig) qd = Some (SockEstablished local client)" "pe_qds orig (local, client) = Some qd"
      "pe_established orig (local, client) = Some es" "cb_remote (es_cb es) = client" "migratable (es_cb es)"
    and free: "tp_active_migrations (pe_tcpmig orig) client = None" "tp_active_migrations (pe_tcpmig targ) client = None"
    and app: "app_fits (pe_tcpmig orig) client"
    and small: "cb_into_state (es_cb es) = Some (st, left)"
      "tcp_state_size (state_to_send (tcp_state_new st) (pe_tcpmig orig)) \<le> 1452 * 65535"
    and addr: "l = (tp_local_ipv4_addr (pe_tcpmig targ), tp_self_udp_port (pe_tcpmig targ))"
    and listening: "pe_passive targ l = Some ps" "client \<notin> set (rs_endpoints (ps_ready ps))"
  shows "\<exists>o1 m1 t1 m2 o2 fs cb'.
    initiate_migration_by_qd qd orig = (Ok (), o1) \<and> mig_sent orig o1 [m1]
    \<and> peer_deliver m1 targ = (Ok (), t1) \<and> mig_sent targ t1 [m2]
    \<and> peer_deliver m2 o1 = (Ok (), o2) \<and> mig_sent o1 o2 fs
    \<and> map_of (pe_sockets o2) qd = Some (MigratedOut local client) \<and> pe_established o2 (local, client) = None
    \<and> same_connection (es_cb es) cb' \<and> cb_local cb' = l
    \<and> (\<forall>frs. mset frs = mset fs \<longrightarrow>
        (\<exists>t2 ps' m3 o3. peer_deliver_all frs t1 = (replicate (length frs) (Ok ()), t2) \<and> mig_sent t1 t2 [m3]
          \<and> pe_passive t2 l = Some ps' \<and> rs_ready (ps_ready ps') = rs_ready (ps_ready ps) @ [Ok cb']
          \<and> peer_deliver m3 o2 = (Ok (), o3) \<and> tp_active_migrations (pe_tcpmig o3) client = None))"
proof -
  obtain g1 m1 h1 m2 g2 where ex: "tp_initiate_migration (local, client) qd (pe_tcpmig orig) = Some g1"
    "tp_transmitted g1 = tp_transmitted (pe_tcpmig orig) @ [m1]"
    "deliver m1 (pe_tcpmig targ) = (Ok RsOk, h1)" "tp_transmitted h1 = tp_transmitted (pe_tcpmig targ) @ [m2]"
    "deliver m2 g1 = (Ok (PrepareMigrationAcked qd), g2)" "tp_transmitted g2 = tp_transmitted g1"
    and g2: "origin_waits PrepareMigration local client qd g2" "tp_application_state g2 = tp_application_state (pe_tcpmig orig)"
    and h1: "target_collects client defragmenter_new h1"
      "tp_local_ipv4_addr h1 = tp_local_ipv4_addr (pe_tcpmig targ)" "tp_self_udp_port h1 = tp_self_udp_port (pe_tcpmig targ)"
    by (rule prepare_exchange [OF free])
  note st = travelling_state(1,2,3,6) [OF conn(5) small(1), unfolded conn(4)]
    and copy = travelling_state(4,5) [OF conn(5) small(1)]
  from origin_hands_over [OF g2 st(1,2,3) app small(2)]
  obtain g3 fs s where g3: "send_tcp_state (tcp_state_new st) g2 = Some g3" "tp_transmitted g3 = tp_transmitted g2 @ fs"
    and s: "origin_waits ConnectionState local client qd g3" "fragments_from (seg_fragments s) = Some fs"
      "length (ms_data s) \<le> 1452 * 65535" "mh_stage (ms_tcpmig_hdr s) = ConnectionState" "mh_client (ms_tcpmig_hdr s) = client"
      "tcp_state_deserialize (ms_data s)
         = Some (decoded_state (tcp_state_new st) (ts_app_state (state_to_send (tcp_state_new st) (pe_tcpmig orig))))"
    by blast
  define o1 where "o1 = (disable_stats_of (es_handle es) orig)\<lparr>pe_tcpmig := g1\<rparr>"
  define t1 where "t1 = targ\<lparr>pe_tcpmig := h1\<rparr>"
  obtain o2 where o2: "peer_deliver m2 o1 = (Ok (), o2)" "pe_tcpmig o2 = g3"
    "map_of (pe_sockets o2) qd = Some (MigratedOut local client)" "pe_established o2 (local, client) = None"
    using origin_releases [of m2 o1 qd g2 st g3 local client qd es left] ex(5) g3(1) conn small(1)
    by (auto simp: o1_def disable_stats_of_def)
  have "\<exists>t2 ps' m3 o3. peer_deliver_all frs t1 = (replicate (length frs) (Ok ()), t2) \<and> mig_sent t1 t2 [m3]
      \<and> pe_passive t2 l = Some ps' \<and> rs_ready (ps_ready ps') = rs_ready (ps_ready ps) @ [Ok (target_cb targ l st)]
      \<and> peer_deliver m3 o2 = (Ok (), o3) \<and> tp_active_migrations (pe_tcpmig o3) client = None"
    if perm: "mset frs = mset fs" for frs
  proof -
    obtain t2 ps' m3 where t2: "peer_deliver_all frs t1 = (replicate (length frs) (Ok ()), t2)" "mig_sent t1 t2 [m3]"
      "pe_passive t2 l = Some ps'" "rs_ready (ps_ready ps') = rs_ready (ps_ready ps) @ [Ok (target_cb t1 l st)]"
      "mh_stage (ms_tcpmig_hdr m3) = ConnectionStateAck" "mh_client (ms_tcpmig_hdr m3) = client"
      using target_peer_completes [of client t1 l, OF _ _ s(3,2,4,5,6) _ _ perm] h1 addr listening st(4) by (auto simp: t1_def)
    obtain g4 where g4: "deliver m3 g3 = (Ok MigrationCompleted, g4)" "tp_active_migrations g4 client = None"
      using origin_gets_state_ack [OF s(1) t2(5,6)] by blast
    have "peer_deliver m3 o2 = (Ok (), o2\<lparr>pe_tcpmig := g4\<rparr>)"
      using peer_deliver_eq [of m3 o2 MigrationCompleted g4] g4(1) o2(2) by (simp add: act_on_status_def)
    moreover have "target_cb t1 l st = target_cb targ l st"
      by (simp add: target_cb_def t1_def)
    ultimately show ?thesis
      using t2(1-4) g4(2) by auto
  qed
  moreover have "peer_deliver m1 targ = (Ok (), t1)"
    using peer_deliver_eq [OF ex(3)] by (simp add: act_on_status_def t1_def)
  moreover have "mig_sent orig o1 [m1]" "mig_sent targ t1 [m2]" "mig_sent o1 o2 fs"
    using ex(2,4,6) g3(2) o2(2) by (simp_all add: mig_sent_def o1_def t1_def)
  ultimately show ?thesis
    using origin_starts [OF conn(1,3) ex(1)] o2 copy o1_def
    by (intro exI [of _ o1] exI [of _ m1] exI [of _ t1] exI [of _ m2] exI [of _ o2] exI [of _ fs]
        exI [of _ "target_cb targ l st"]) simp
qed

text \<open>Two peers: one with the connection of the example control block, one that listens.\<close>

definition demo_host :: tcp_peer where
  "demo_host = tcp_peer_new 0 (Mac 1 2 3 4 5 6) FRONTEND_IP tcp_config_default (\<lambda>_. None) [] 1 100 None None 100 (1 / 2) 0"

definition demo_peer_origin :: tcp_peer where
  "demo_peer_origin = demo_host\<lparr>pe_sockets := [(7, SockEstablished (cb_local demo_cb) (cb_remote demo_cb))],
     pe_qds := [(cb_local demo_cb, cb_remote demo_cb) \<mapsto> 7],
     pe_established := [(cb_local demo_cb, cb_remote demo_cb) \<mapsto> \<lparr>es_cb = demo_cb, es_handle = 0\<rparr>]\<rparr>"

definition demo_peer_target :: tcp_peer where
  "demo_peer_target = demo_host\<lparr>pe_sockets := [(3, Listening (FRONTEND_IP, 10000))],
     pe_passive := [(FRONTEND_IP, 10000) \<mapsto> passive_new (FRONTEND_IP, 10000) 8 tcp_config_default (Mac 1 2 3 4 5 6) 2]\<rparr>"

lemma demo_peer_origin_ok:
  "map_of (pe_sockets demo_peer_origin) 7 = Some (SockEstablished (cb_local demo_cb) (cb_remote demo_cb))"
  "pe_qds demo_peer_origin (cb_local demo_cb, cb_remote demo_cb) = Some 7"
  "pe_established demo_peer_origin (cb_local demo_cb, cb_remote demo_cb) = Some \<lparr>es_cb = demo_cb, es_handle = 0\<rparr>"
  "tp_active_migrations (pe_tcpmig demo_peer_origin) c = None" "tp_application_state (pe_tcpmig demo_peer_origin) c = None"
  by (simp_all add: demo_peer_origin_def demo_host_def tcp_peer_new_def tcpmig_peer_new_def)

lemma demo_peer_target_ok:
  "tp_active_migrations (pe_tcpmig demo_peer_target) c = None" "tp_local_ipv4_addr (pe_tcpmig demo_peer_target) = FRONTEND_IP"
  "tp_self_udp_port (pe_tcpmig demo_peer_target) = 10000"
  "pe_passive demo_peer_target (FRONTEND_IP, 10000) = Some (passive_new (FRONTEND_IP, 10000) 8 tcp_config_default (Mac 1 2 3 4 5 6) 2)"
  by (simp_all add: demo_peer_target_def demo_host_def tcp_peer_new_def tcpmig_peer_new_def SELF_UDP_PORT_def)

theorem connection_migrates_witness:
  "\<exists>o1 m1 t1 m2 o2 fs cb' t2 ps'. initiate_migration_by_qd 7 demo_peer_origin = (Ok (), o1) \<and> mig_sent demo_peer_origin o1 [m1]
    \<and> peer_deliver m1 demo_peer_target = (Ok (), t1) \<and> peer_deliver m2 o1 = (Ok (), o2) \<and> mig_sent o1 o2 fs
    \<and> peer_deliver_all (rev fs) t1 = (replicate (length (rev fs)) (Ok ()), t2)
    \<and> pe_passive t2 (FRONTEND_IP, 10000) = Some ps' \<and> rs_ready (ps_ready ps') = [Ok cb'] \<and> same_connection demo_cb cb'"
proof -
  let ?es = "\<lparr>es_cb = demo_cb, es_handle = 0\<rparr>" and ?ps = "passive_new (FRONTEND_IP, 10000) 8 tcp_config_default (Mac 1 2 3 4 5 6) 2"
  obtain left where st: "cb_into_state (es_cb ?es) = Some (ts_cb demo_state, left)"
    by (simp add: demo_state_def tcp_state_new_def cb_into_state_def sender_into_state_def receiver_into_state_def demo_cb_def
        cb_new_def sender_new_def)
  have mig: "cb_remote (es_cb ?es) = cb_remote demo_cb" "migratable (es_cb ?es)"
    by (simp_all add: migratable_def demo_cb_def cb_new_def sender_new_def receiver_new_def)
  have "state_to_send (tcp_state_new (ts_cb demo_state)) (pe_tcpmig demo_peer_origin) = demo_state"
    by (simp add: state_to_send_def demo_peer_origin_ok) (simp add: demo_state_def tcp_state_new_def)
  then have small: "tcp_state_size (state_to_send (tcp_state_new (ts_cb demo_state)) (pe_tcpmig demo_peer_origin)) \<le> 1452 * 65535"
    using demo_state_ok(5) by simp
  have ps: "rs_ready (ps_ready ?ps) = []" "cb_remote demo_cb \<notin> set (rs_endpoints (ps_ready ?ps))"
    by (simp_all add: passive_new_def)
  have app: "app_fits (pe_tcpmig demo_peer_origin) (cb_remote demo_cb)"
    by (simp add: app_fits_def demo_peer_origin_ok)
  have addr: "(FRONTEND_IP, 10000) = (tp_local_ipv4_addr (pe_tcpmig demo_peer_target), tp_self_udp_port (pe_tcpmig demo_peer_target))"
    by (simp add: demo_peer_target_ok)
  note inst = connection_migrates [OF demo_peer_origin_ok(1-3) mig demo_peer_origin_ok(4) demo_peer_target_ok(1) app st small
      addr demo_peer_target_ok(4) ps(2), unfolded ps(1) append_Nil established_socket.simps]
  from inst show ?thesis
  proof (elim exE conjE, goal_cases)
    case (1 o1 m1 t1 m2 o2 fs cb')
    from 1(11) [THEN spec, of "rev fs"] show ?case
      by (elim impE exE conjE) (simp, intro exI conjI, (rule 1 | assumption)+)
  qed
qed

end
