(* ===== verification/Ttl_Cache.thy ===== *)
theory Ttl_Cache
  imports Prelude
begin

text \<open>
  The cache with a time to live (\<^verbatim>\<open>inetstack/collections/hashttlcache/mod.rs\<close>). An entry may have an expiration
  time; expired entries are moved to the graveyard by the next insertion.
\<close>

section \<open>The cache\<close>

record 'v ttl_record =
  tr_value :: 'v
  tr_expiration :: "instant option"

definition has_expired :: "instant \<Rightarrow> 'v ttl_record \<Rightarrow> bool" where
  "has_expired now r = (case tr_expiration r of Some e \<Rightarrow> e \<le> now | None \<Rightarrow> False)"

record ('k, 'v) ttl_cache =
  tc_map :: "'k \<Rightarrow> 'v ttl_record option"
  tc_graveyard :: "'k \<Rightarrow> 'v option"
  tc_default_ttl :: "duration option"
  tc_clock :: instant

text \<open>\<open>None\<close> is a failed assertion: a time to live has to be positive.\<close>

definition valid_ttl :: "duration option \<Rightarrow> bool" where
  "valid_ttl ttl = (case ttl of Some d \<Rightarrow> 0 < d | None \<Rightarrow> True)"

definition ttl_new :: "instant \<Rightarrow> duration option \<Rightarrow> ('k, 'v) ttl_cache option" where
  "ttl_new now ttl =
     (if valid_ttl ttl
      then Some \<lparr>tc_map = Map.empty, tc_graveyard = Map.empty, tc_default_ttl = ttl, tc_clock = now\<rparr>
      else None)"

definition ttl_clear :: "('k, 'v) ttl_cache \<Rightarrow> ('k, 'v) ttl_cache" where
  "ttl_clear c = c\<lparr>tc_graveyard := Map.empty, tc_map := Map.empty\<rparr>"

definition ttl_advance_clock :: "instant \<Rightarrow> ('k, 'v) ttl_cache \<Rightarrow> ('k, 'v) ttl_cache option" where
  "ttl_advance_clock now c = (if tc_clock c \<le> now then Some (c\<lparr>tc_clock := now\<rparr>) else None)"

definition ttl_cleanup :: "('k, 'v) ttl_cache \<Rightarrow> ('k, 'v) ttl_cache" where
  "ttl_cleanup c =
     (let dead = (\<lambda>k. case tc_map c k of Some r \<Rightarrow> has_expired (tc_clock c) r | None \<Rightarrow> False)
      in c\<lparr>tc_map := (\<lambda>k. if dead k then None else tc_map c k),
           tc_graveyard := (\<lambda>k. if dead k then map_option tr_value (tc_map c k) else tc_graveyard c k)\<rparr>)"

text \<open>The value that is replaced is returned too.\<close>

definition ttl_insert_with ::
  "'k \<Rightarrow> 'v \<Rightarrow> duration option \<Rightarrow> ('k, 'v) ttl_cache \<Rightarrow> ('v option \<times> ('k, 'v) ttl_cache) option" where
  "ttl_insert_with k v ttl c =
     (if valid_ttl ttl then
        let expiration = map_option (\<lambda>d. tc_clock c + d) ttl;
            c = ttl_cleanup c;
            r = \<lparr>tr_value = v, tr_expiration = expiration\<rparr>
        in Some (map_option tr_value (tc_map c k), c\<lparr>tc_map := (tc_map c)(k \<mapsto> r)\<rparr>)
      else None)"

definition ttl_insert :: "'k \<Rightarrow> 'v \<Rightarrow> ('k, 'v) ttl_cache \<Rightarrow> ('v option \<times> ('k, 'v) ttl_cache) option" where
  "ttl_insert k v c = ttl_insert_with k v (tc_default_ttl c) c"

definition ttl_get :: "'k \<Rightarrow> ('k, 'v) ttl_cache \<Rightarrow> 'v option" where
  "ttl_get k c = map_option tr_value (tc_map c k)"

text \<open>The entries an iteration over the cache goes through, as a map.\<close>

definition ttl_iter :: "('k, 'v) ttl_cache \<Rightarrow> 'k \<Rightarrow> 'v option" where
  "ttl_iter c k = (case tc_map c k of Some r \<Rightarrow> if has_expired (tc_clock c) r then None else Some (tr_value r) | None \<Rightarrow> None)"

section \<open>Histories\<close>

text \<open>What a client does with a cache; an insertion names its time to live.\<close>

datatype ('k, 'v) ttl_op = Insert 'k 'v "duration option" | Advance instant

fun ttl_step :: "('k, 'v) ttl_op \<Rightarrow> ('k, 'v) ttl_cache \<Rightarrow> ('k, 'v) ttl_cache option" where
  "ttl_step (Insert k v ttl) c = map_option snd (ttl_insert_with k v ttl c)"
| "ttl_step (Advance now) c = ttl_advance_clock now c"

fun ttl_run :: "('k, 'v) ttl_op list \<Rightarrow> ('k, 'v) ttl_cache \<Rightarrow> ('k, 'v) ttl_cache option" where
  "ttl_run [] c = Some c"
| "ttl_run (x # xs) c = Option.bind (ttl_step x c) (ttl_run xs)"

text \<open>The reference: the clock only moves forward, and the last insertion for a key decides. \<open>last_insert\<close> has its
  value and the time at which it expires.\<close>

fun sane_history :: "instant \<Rightarrow> ('k, 'v) ttl_op list \<Rightarrow> bool" where
  "sane_history t [] = True"
| "sane_history t (Insert k v ttl # xs) = (valid_ttl ttl \<and> sane_history t xs)"
| "sane_history t (Advance now # xs) = (t \<le> now \<and> sane_history now xs)"

fun time_after :: "instant \<Rightarrow> ('k, 'v) ttl_op list \<Rightarrow> instant" where
  "time_after t [] = t"
| "time_after t (Insert k v ttl # xs) = time_after t xs"
| "time_after t (Advance now # xs) = time_after now xs"

fun last_insert :: "instant \<Rightarrow> ('k, 'v) ttl_op list \<Rightarrow> 'k \<Rightarrow> ('v \<times> instant option) option" where
  "last_insert t [] k = None"
| "last_insert t (Insert k' v ttl # xs) k =
     (case last_insert t xs k of
        Some e \<Rightarrow> Some e
      | None \<Rightarrow> if k' = k then Some (v, map_option (\<lambda>d. t + d) ttl) else None)"
| "last_insert t (Advance now # xs) k = last_insert now xs k"

definition alive :: "instant \<Rightarrow> 'v \<times> instant option \<Rightarrow> bool" where
  "alive now e = (case snd e of Some x \<Rightarrow> now < x | None \<Rightarrow> True)"

lemma ttl_run_append: "ttl_run (xs @ ys) c = Option.bind (ttl_run xs c) (ttl_run ys)"
  by (induction xs arbitrary: c) (auto simp: Option.bind_assoc split: Option.bind_splits)

text \<open>What a cache knows of a key, given what the key's last insertion was: the record, or nothing because it has
  expired and was buried.\<close>

definition knows :: "('k, 'v) ttl_cache \<Rightarrow> 'k \<Rightarrow> ('v \<times> instant option) option \<Rightarrow> bool" where
  "knows c k e \<longleftrightarrow> (case e of
       None \<Rightarrow> tc_map c k = None
     | Some e \<Rightarrow> tc_map c k = Some \<lparr>tr_value = fst e, tr_expiration = snd e\<rparr>
         \<or> tc_map c k = None \<and> \<not> alive (tc_clock c) e \<and> tc_graveyard c k = Some (fst e))"

lemma knows_insert:
  assumes "knows c k e" "ttl_insert_with k' v ttl c = Some (r, c')"
  shows "knows c' k (if k' = k then Some (v, map_option (\<lambda>d. tc_clock c + d) ttl) else e)"
  using assms
  by (auto simp: knows_def ttl_insert_with_def ttl_cleanup_def has_expired_def alive_def Let_def
      split: if_splits option.splits)

lemma knows_advance:
  assumes "knows c k e" "ttl_advance_clock now c = Some c'"
  shows "knows c' k e"
  using assms
  by (auto simp: knows_def ttl_advance_clock_def alive_def split: if_splits option.splits)

lemma ttl_insert_total: "valid_ttl ttl \<Longrightarrow> \<exists>r c'. ttl_insert_with k v ttl c = Some (r, c') \<and> tc_clock c' = tc_clock c"
  by (simp add: ttl_insert_with_def ttl_cleanup_def Let_def)

lemma knows_run:
  assumes "sane_history (tc_clock c) xs" "knows c k e"
  shows "\<exists>c'. ttl_run xs c = Some c' \<and> tc_clock c' = time_after (tc_clock c) xs
    \<and> knows c' k (case last_insert (tc_clock c) xs k of Some i \<Rightarrow> Some i | None \<Rightarrow> e)"
  using assms
proof (induction "tc_clock c" xs arbitrary: c e rule: sane_history.induct)
  case (2 k' v ttl xs)
  obtain r c1 where c1: "ttl_insert_with k' v ttl c = Some (r, c1)" "tc_clock c1 = tc_clock c"
    using 2(2) ttl_insert_total [of ttl k' v c] by auto
  show ?case
    using 2(1) [of c1, OF _ _ knows_insert [OF 2(3) c1(1)]] 2(2) c1
    by (auto split: option.splits if_splits)
next
  case (3 now xs)
  then have c1: "ttl_advance_clock now c = Some (c\<lparr>tc_clock := now\<rparr>)"
    by (simp add: ttl_advance_clock_def)
  show ?case
    using 3(1) [of "c\<lparr>tc_clock := now\<rparr>", OF _ _ knows_advance [OF 3(3) c1]] 3(2) c1 by auto
qed simp

text \<open>C23: an iteration over the cache sees, for every history of insertions and clock advances, exactly the keys
  whose last insertion has not expired yet, each with the value inserted last; an entry that is no longer seen
  is still in the map or has been moved to the graveyard. No operation of such a history fails an assertion.\<close>

theorem ttl_cache_history:
  assumes "ttl_new t ttl = Some c" "sane_history t xs"
  shows "\<exists>c'. ttl_run xs c = Some c' \<and> tc_clock c' = time_after t xs
    \<and> (\<forall>k. ttl_iter c' k = (case last_insert t xs k of
          Some e \<Rightarrow> if alive (time_after t xs) e then Some (fst e) else None
        | None \<Rightarrow> None))
    \<and> (\<forall>k e. last_insert t xs k = Some e \<longrightarrow> tc_map c' k \<noteq> None \<or> tc_graveyard c' k = Some (fst e))"
proof -
  have c: "tc_clock c = t" "\<And>k. knows c k None"
    using assms(1) by (auto simp: ttl_new_def knows_def split: if_splits)
  obtain c' where c': "ttl_run xs c = Some c'" "tc_clock c' = time_after t xs"
    using knows_run [of c xs _ None] c assms(2) by blast
  have k: "knows c' k (last_insert t xs k)" for k
    using knows_run [of c xs k None] c c'(1) assms(2) by (auto split: option.splits)
  have "ttl_iter c' k = (case last_insert t xs k of
          Some e \<Rightarrow> if alive (time_after t xs) e then Some (fst e) else None
        | None \<Rightarrow> None)" for k
    using k [of k] c'(2)
    by (auto simp: knows_def ttl_iter_def has_expired_def alive_def split: option.splits)
  moreover have "tc_map c' k \<noteq> None \<or> tc_graveyard c' k = Some (fst e)" if "last_insert t xs k = Some e" for k e
    using k [of k] that by (auto simp: knows_def)
  ultimately show ?thesis
    using c' by blast
qed

theorem ttl_cache_history_witness:
  "\<exists>c'. ttl_run [Insert (1 :: nat) (10 :: nat) (Some 5), Insert 2 20 None, Advance 7, Insert 3 30 (Some 1)]
      \<lparr>tc_map = Map.empty, tc_graveyard = Map.empty, tc_default_ttl = None, tc_clock = 0\<rparr> = Some c'
    \<and> ttl_iter c' 1 = None \<and> ttl_iter c' 2 = Some 20 \<and> ttl_iter c' 3 = Some 30"
proof -
  let ?xs = "[Insert (1 :: nat) (10 :: nat) (Some 5), Insert 2 20 None, Advance 7, Insert 3 30 (Some 1)]"
  have "sane_history 0 ?xs"
    by (simp add: valid_ttl_def)
  from ttl_cache_history [of 0 None _, OF _ this] show ?thesis
    by (auto simp: ttl_new_def valid_ttl_def alive_def)
qed

text \<open>A lookup does not check the expiration: an entry is found after its time to live, until a further insertion
  removes it.\<close>

theorem expired_entry_still_found:
  fixes c :: "('k, 'v) ttl_cache"
  assumes "ttl_insert_with k v ttl c = Some (r, c1)" "ttl_run (map Advance ts) c1 = Some c2"
  shows "ttl_get k c2 = Some v"
proof -
  have "tc_map c' = tc_map c" if "ttl_run (map Advance ts) c = Some c'" for ts and c c' :: "('k, 'v) ttl_cache"
    using that
    by (induction ts arbitrary: c) (auto simp: Option.bind_eq_Some_conv ttl_advance_clock_def split: if_splits)
  then show ?thesis
    using assms by (auto simp: ttl_get_def ttl_insert_with_def Let_def split: if_splits)
qed

end
