(* ===== verification/Arp_Peer.thy ===== *)
theory Arp_Peer
  imports Ttl_Cache Link_Layer
begin

text \<open>
  Address resolution (\<^verbatim>\<open>protocols/arp/\<close>): the configuration, the cache of resolutions, the messages and the peer
  that answers requests and resolves addresses for the other protocols. A query is a coroutine; its state between
  two polls is a value, and the one-shot channels that queries wait on are entries of the peer: waiting,
  sent, or dropped together with their sender. The choice \<^verbatim>\<open>select!\<close> makes when both of its branches
  are ready is a parameter.
\<close>

section \<open>Configuration\<close>

record arp_config =
  cache_ttl :: duration
  request_timeout :: duration
  retry_count :: nat
  initial_values :: "(ipv4addr \<times> mac_address) list"
  disable_arp :: bool

definition arp_config_default :: arp_config where
  "arp_config_default = \<lparr>cache_ttl = 15, request_timeout = 20, retry_count = 5, initial_values = [], disable_arp = False\<rparr>"

definition arp_config_new ::
  "duration option \<Rightarrow> duration option \<Rightarrow> nat option \<Rightarrow> (ipv4addr \<times> mac_address) list option \<Rightarrow> bool option \<Rightarrow> arp_config" where
  "arp_config_new ttl timeout retries values dis =
     (let c = arp_config_default;
          c = (case ttl of Some x \<Rightarrow> c\<lparr>cache_ttl := x\<rparr> | None \<Rightarrow> c);
          c = (case timeout of Some x \<Rightarrow> c\<lparr>request_timeout := x\<rparr> | None \<Rightarrow> c);
          c = (case retries of Some x \<Rightarrow> c\<lparr>retry_count := x\<rparr> | None \<Rightarrow> c);
          c = (case values of Some x \<Rightarrow> c\<lparr>initial_values := x\<rparr> | None \<Rightarrow> c)
      in case dis of Some x \<Rightarrow> c\<lparr>disable_arp := x\<rparr> | None \<Rightarrow> c)"

section \<open>Cache\<close>

record arp_cache =
  ac_cache :: "(ipv4addr, mac_address) ttl_cache"
  ac_disable :: bool

definition DUMMY_MAC_ADDRESS :: mac_address where
  "DUMMY_MAC_ADDRESS = Mac 0 0 0 0 0 0"

text \<open>\<open>None\<close> is a failed assertion of the cache below.\<close>

definition ac_insert :: "ipv4addr \<Rightarrow> mac_address \<Rightarrow> arp_cache \<Rightarrow> (mac_address option \<times> arp_cache) option" where
  "ac_insert ip link a = map_option (\<lambda>(old, c). (old, a\<lparr>ac_cache := c\<rparr>)) (ttl_insert ip link (ac_cache a))"

fun ac_populate :: "(ipv4addr \<times> mac_address) list \<Rightarrow> arp_cache \<Rightarrow> arp_cache option" where
  "ac_populate [] a = Some a"
| "ac_populate ((ip, link) # vs) a = Option.bind (ac_insert ip link a) (\<lambda>(_, a). ac_populate vs a)"

definition ac_new :: "instant \<Rightarrow> duration option \<Rightarrow> (ipv4addr \<times> mac_address) list option \<Rightarrow> bool \<Rightarrow> arp_cache option" where
  "ac_new now ttl values dis =
     Option.bind (ttl_new now ttl) (\<lambda>c.
       let a = \<lparr>ac_cache = c, ac_disable = dis\<rparr>
       in case values of Some vs \<Rightarrow> ac_populate vs a | None \<Rightarrow> Some a)"

definition ac_get :: "ipv4addr \<Rightarrow> arp_cache \<Rightarrow> mac_address option" where
  "ac_get ip a = (if ac_disable a then Some DUMMY_MAC_ADDRESS else ttl_get ip (ac_cache a))"

definition ac_advance_clock :: "instant \<Rightarrow> arp_cache \<Rightarrow> arp_cache option" where
  "ac_advance_clock now a = map_option (\<lambda>c. a\<lparr>ac_cache := c\<rparr>) (ttl_advance_clock now (ac_cache a))"

definition ac_clear :: "arp_cache \<Rightarrow> arp_cache" where
  "ac_clear a = a\<lparr>ac_cache := ttl_clear (ac_cache a)\<rparr>"

section \<open>Messages\<close>

record arp_message =
  am_ethernet2_hdr :: ethernet2_header
  am_header :: arp_header

definition am_header_size :: nat where
  "am_header_size = ETHERNET2_HEADER_SIZE + ARP_MESSAGE_SIZE"

definition am_write_header :: "arp_message \<Rightarrow> bytes \<Rightarrow> bytes option" where
  "am_write_header m buf =
     (if length buf < am_header_size then None
      else Option.bind (eth_serialize (am_ethernet2_hdr m) (slice 0 ETHERNET2_HEADER_SIZE buf)) (\<lambda>e.
           Option.bind (arp_serialize (am_header m) (slice ETHERNET2_HEADER_SIZE am_header_size buf)) (\<lambda>a.
           Some (e @ a @ drop am_header_size buf))))"

section \<open>Peer\<close>

datatype oneshot = Waiting | Sent mac_address | Dropped

record arp_peer =
  ar_now :: instant
  ar_local_link :: mac_address
  ar_local_ip :: ipv4addr
  ar_cache :: arp_cache
  ar_waiters :: "ipv4addr \<Rightarrow> nat list option"
  ar_config :: arp_config
  ar_transmitted :: "arp_message list"
  ar_channels :: "nat \<Rightarrow> oneshot"
  ar_next_channel :: nat

definition arp_peer_new :: "instant \<Rightarrow> mac_address \<Rightarrow> ipv4addr \<Rightarrow> arp_config \<Rightarrow> arp_peer option" where
  "arp_peer_new now link ip cfg =
     map_option (\<lambda>c. \<lparr>ar_now = now, ar_local_link = link, ar_local_ip = ip, ar_cache = c, ar_waiters = Map.empty,
         ar_config = cfg, ar_transmitted = [], ar_channels = (\<lambda>_. Waiting), ar_next_channel = 0\<rparr>)
       (ac_new now (Some (cache_ttl cfg)) (Some (initial_values cfg)) (disable_arp cfg))"

definition settle :: "oneshot \<Rightarrow> nat list option \<Rightarrow> arp_peer \<Rightarrow> arp_peer" where
  "settle x ws p = (case ws of Some ws \<Rightarrow> p\<lparr>ar_channels := (\<lambda>w. if w \<in> set ws then x else ar_channels p w)\<rparr> | None \<Rightarrow> p)"

definition do_drop :: "ipv4addr \<Rightarrow> arp_peer \<Rightarrow> arp_peer" where
  "do_drop ip p = settle Dropped (ar_waiters p ip) (p\<lparr>ar_waiters := (ar_waiters p)(ip := None)\<rparr>)"

definition do_insert :: "ipv4addr \<Rightarrow> mac_address \<Rightarrow> arp_peer \<Rightarrow> arp_peer option" where
  "do_insert ip link p =
     (let p = settle (Sent link) (ar_waiters p ip) (p\<lparr>ar_waiters := (ar_waiters p)(ip := None)\<rparr>)
      in map_option (\<lambda>(_, c). p\<lparr>ar_cache := c\<rparr>) (ac_insert ip link (ar_cache p)))"

text \<open>The new channel is returned.\<close>

definition do_wait_link_addr :: "ipv4addr \<Rightarrow> arp_peer \<Rightarrow> nat \<times> arp_peer" where
  "do_wait_link_addr ip p =
     (let w = ar_next_channel p;
          p = p\<lparr>ar_next_channel := w + 1, ar_channels := (ar_channels p)(w := Waiting)\<rparr>
      in (w, case ac_get ip (ar_cache p) of
               Some link \<Rightarrow> p\<lparr>ar_channels := (ar_channels p)(w := Sent link)\<rparr>
             | None \<Rightarrow>
                 (case ar_waiters p ip of
                    Some q \<Rightarrow> p\<lparr>ar_waiters := (ar_waiters p)(ip \<mapsto> q @ [w])\<rparr>
                  | None \<Rightarrow> p\<lparr>ar_waiters := (ar_waiters p)(ip \<mapsto> [w])\<rparr>)))"

definition arp_background :: "arp_peer \<Rightarrow> arp_peer option" where
  "arp_background p = map_option (\<lambda>c. p\<lparr>ar_cache := c\<rparr>) (ac_advance_clock (ar_now p) (ar_cache p))"

definition arp_transmit :: "arp_message \<Rightarrow> arp_peer \<Rightarrow> arp_peer" where
  "arp_transmit m p = p\<lparr>ar_transmitted := ar_transmitted p @ [m]\<rparr>"

definition arp_reply :: "arp_header \<Rightarrow> arp_peer \<Rightarrow> arp_message" where
  "arp_reply h p =
     \<lparr>am_ethernet2_hdr = eth_new (arp_sender_hw h) (ar_local_link p) Arp,
      am_header = arp_new Reply (ar_local_link p) (ar_local_ip p) (arp_sender_hw h) (arp_sender_ip h)\<rparr>"

definition arp_handle :: "arp_header \<Rightarrow> arp_peer \<Rightarrow> unit outcome \<times> arp_peer" where
  "arp_handle h p =
     (let insert = (\<lambda>p. do_insert (arp_sender_ip h) (arp_sender_hw h) p);
          merge_flag = (ac_get (arp_sender_ip h) (ar_cache p) \<noteq> None)
      in case (if merge_flag then insert p else Some p) of
           None \<Rightarrow> (Panic, p)
         | Some p \<Rightarrow>
             if arp_target_ip h \<noteq> ar_local_ip p
             then if merge_flag then (Ok (), p) else (Err (fail_new EBADMSG ''unrecognized IP address''), p)
             else case (if merge_flag then Some p else insert p) of
                    None \<Rightarrow> (Panic, p)
                  | Some p \<Rightarrow>
                      (case arp_op h of
                         Request \<Rightarrow> (Ok (), arp_transmit (arp_reply h p) p)
                       | Reply \<Rightarrow>
                           (case ac_insert (arp_sender_ip h) (arp_sender_hw h) (ar_cache p) of
                              None \<Rightarrow> (Panic, p)
                            | Some (_, c) \<Rightarrow> (Ok (), p\<lparr>ar_cache := c\<rparr>))))"

definition arp_receive :: "bytes \<Rightarrow> arp_peer \<Rightarrow> unit outcome \<times> arp_peer" where
  "arp_receive buf p = (case arp_parse buf of Panic \<Rightarrow> (Panic, p) | Err e \<Rightarrow> (Err e, p) | Ok h \<Rightarrow> arp_handle h p)"

definition try_query :: "ipv4addr \<Rightarrow> arp_peer \<Rightarrow> mac_address option" where
  "try_query ip p = ac_get ip (ar_cache p)"

section \<open>Queries\<close>

definition mac_broadcast :: mac_address where
  "mac_broadcast = Mac 0xff 0xff 0xff 0xff 0xff 0xff"

definition arp_request :: "ipv4addr \<Rightarrow> arp_peer \<Rightarrow> arp_message" where
  "arp_request ip p =
     \<lparr>am_ethernet2_hdr = eth_new mac_broadcast (ar_local_link p) Arp,
      am_header = arp_new Request (ar_local_link p) (ar_local_ip p) mac_broadcast ip\<rparr>"

text \<open>A query that waits: the address, its channel, the number of the attempt and when the attempt times out.\<close>

datatype arp_query = QueryStart ipv4addr | QueryWait ipv4addr nat nat instant

text \<open>The loop over the attempts from a poll of \<^verbatim>\<open>with_timeout\<close> on. \<open>timer_first i\<close>: the \<^verbatim>\<open>select!\<close> of attempt
  \<open>i\<close> looks at its timer first. A channel whose sender is gone panics.\<close>

function arp_await ::
  "(nat \<Rightarrow> bool) \<Rightarrow> ipv4addr \<Rightarrow> nat \<Rightarrow> nat \<Rightarrow> instant \<Rightarrow> arp_peer \<Rightarrow> (mac_address outcome + arp_query) \<times> arp_peer" where
  "arp_await timer_first ip w i deadline p =
     (let answer = (case ar_channels p w of Sent link \<Rightarrow> Some (Ok link) | Dropped \<Rightarrow> Some Panic | Waiting \<Rightarrow> None)
      in if deadline \<le> ar_now p \<and> (answer = None \<or> timer_first i) then
           if i < retry_count (ar_config p)
           then arp_await timer_first ip w (i + 1) (ar_now p + request_timeout (ar_config p)) (arp_transmit (arp_request ip p) p)
           else (Inl (Err (fail_new ETIMEDOUT ''ARP query timeout'')), do_drop ip p)
         else case answer of Some r \<Rightarrow> (Inl r, p) | None \<Rightarrow> (Inr (QueryWait ip w i deadline), p))"
  by pat_completeness auto

termination arp_await
  by (relation "measure (\<lambda>(_, _, _, i, _, p). retry_count (ar_config p) - i)") (auto simp: arp_transmit_def)

declare arp_await.simps [simp del]

fun query_poll :: "(nat \<Rightarrow> bool) \<Rightarrow> arp_query \<Rightarrow> arp_peer \<Rightarrow> (mac_address outcome + arp_query) \<times> arp_peer" where
  "query_poll timer_first (QueryStart ip) p =
     (case ac_get ip (ar_cache p) of
        Some link \<Rightarrow> (Inl (Ok link), p)
      | None \<Rightarrow>
          let (w, p) = do_wait_link_addr ip p
          in arp_await timer_first ip w 0 (ar_now p + request_timeout (ar_config p)) (arp_transmit (arp_request ip p) p))"
| "query_poll timer_first (QueryWait ip w i deadline) p = arp_await timer_first ip w i deadline p"

end
