(* ===== verification/Arp_Resolution.thy ===== *)
theory Arp_Resolution
  imports Arp_Peer
begin

text \<open>
  What the ARP peer guarantees: its assertions hold in every reachable state, a request is answered and resolves the
  query that sent it, a query that nobody answers gives up after its retries, and then takes the other queries for
  the same address down with it.
\<close>

section \<open>Invariant\<close>

text \<open>The time to live is positive, the cache's clock is not ahead, and a channel that is queued for an answer is
  open.\<close>

definition arp_ok :: "arp_peer \<Rightarrow> bool" where
  "arp_ok p \<longleftrightarrow> (\<exists>d. tc_default_ttl (ac_cache (ar_cache p)) = Some d \<and> 0 < d)
     \<and> tc_clock (ac_cache (ar_cache p)) \<le> ar_now p
     \<and> (\<forall>ip ws. ar_waiters p ip = Some ws \<longrightarrow> (\<forall>w\<in>set ws. w < ar_next_channel p \<and> ar_channels p w = Waiting))
     \<and> (\<forall>ip ip' ws ws' w. ar_waiters p ip = Some ws \<longrightarrow> ar_waiters p ip' = Some ws' \<longrightarrow> w \<in> set ws \<longrightarrow> w \<in> set ws' \<longrightarrow> ip = ip')"

lemma ac_insert_total:
  assumes "tc_default_ttl (ac_cache a) = Some d" "0 < d"
  shows "\<exists>old a'. ac_insert ip link a = Some (old, a') \<and> tc_default_ttl (ac_cache a') = Some d
    \<and> tc_clock (ac_cache a') = tc_clock (ac_cache a) \<and> ac_disable a' = ac_disable a
    \<and> (\<not> ac_disable a \<longrightarrow> ac_get ip a' = Some link)"
  using assms
  by (auto simp: ac_insert_def ttl_insert_def ttl_insert_with_def valid_ttl_def ttl_cleanup_def ac_get_def ttl_get_def Let_def)

lemma ac_populate_total:
  "tc_default_ttl (ac_cache a) = Some d \<Longrightarrow> 0 < d \<Longrightarrow> \<exists>a'. ac_populate vs a = Some a' \<and> tc_default_ttl (ac_cache a') = Some d
    \<and> tc_clock (ac_cache a') = tc_clock (ac_cache a)"
proof (induction vs arbitrary: a)
  case (Cons v vs)
  obtain ip link where v: "v = (ip, link)"
    by fastforce
  obtain old a1 where a1: "ac_insert ip link a = Some (old, a1)" "tc_default_ttl (ac_cache a1) = Some d"
    "tc_clock (ac_cache a1) = tc_clock (ac_cache a)"
    using ac_insert_total [OF Cons.prems, of ip link] by blast
  show ?case
    using Cons.IH [OF a1(2) Cons.prems(2)] a1 v by auto
qed simp

lemma arp_peer_new_ok:
  assumes "0 < cache_ttl cfg"
  shows "\<exists>p. arp_peer_new now link ip cfg = Some p \<and> arp_ok p"
proof -
  let ?c = "\<lparr>tc_map = Map.empty, tc_graveyard = Map.empty, tc_default_ttl = Some (cache_ttl cfg), tc_clock = now\<rparr>"
  obtain a where a: "ac_populate (initial_values cfg) \<lparr>ac_cache = ?c, ac_disable = disable_arp cfg\<rparr> = Some a"
    "tc_default_ttl (ac_cache a) = Some (cache_ttl cfg)" "tc_clock (ac_cache a) = now"
    using ac_populate_total [of "\<lparr>ac_cache = ?c, ac_disable = disable_arp cfg\<rparr>" "cache_ttl cfg"] assms by auto
  then show ?thesis
    using assms by (simp add: arp_peer_new_def ac_new_def ttl_new_def valid_ttl_def arp_ok_def)
qed

lemma do_insert_ok:
  assumes "arp_ok p"
  shows "\<exists>p'. do_insert ip link p = Some p' \<and> arp_ok p' \<and> ar_waiters p' ip = None
    \<and> ar_local_ip p' = ar_local_ip p \<and> ar_local_link p' = ar_local_link p \<and> ar_transmitted p' = ar_transmitted p
    \<and> ar_now p' = ar_now p \<and> ac_disable (ar_cache p') = ac_disable (ar_cache p)
    \<and> (\<not> ac_disable (ar_cache p) \<longrightarrow> ac_get ip (ar_cache p') = Some link)
    \<and> (\<forall>ws w. ar_waiters p ip = Some ws \<longrightarrow> w \<in> set ws \<longrightarrow> ar_channels p' w = Sent link)"
proof -
  obtain d where d: "tc_default_ttl (ac_cache (ar_cache p)) = Some d" "0 < d"
    using assms by (auto simp: arp_ok_def)
  obtain old c where c: "ac_insert ip link (ar_cache p) = Some (old, c)" "tc_default_ttl (ac_cache c) = Some d"
    "tc_clock (ac_cache c) = tc_clock (ac_cache (ar_cache p))" "ac_disable c = ac_disable (ar_cache p)"
    "\<not> ac_disable (ar_cache p) \<longrightarrow> ac_get ip c = Some link"
    using ac_insert_total [OF d, of ip link] by blast
  let ?p = "(settle (Sent link) (ar_waiters p ip) (p\<lparr>ar_waiters := (ar_waiters p)(ip := None)\<rparr>))\<lparr>ar_cache := c\<rparr>"
  have "do_insert ip link p = Some ?p"
    using c(1) by (simp add: do_insert_def settle_def split: option.split)
  moreover have "arp_ok ?p"
    using assms c(2,3) d(2) unfolding arp_ok_def settle_def
    by (auto split: option.splits if_splits; blast)
  ultimately show ?thesis
    using c(4,5) by (auto simp: settle_def split: option.split)
qed

lemma arp_ok_transmit [simp]: "arp_ok (arp_transmit m p) = arp_ok p"
  by (simp add: arp_ok_def arp_transmit_def)

lemma arp_parse_no_panic: "arp_parse buf \<noteq> Panic"
proof -
  have mac: "\<exists>m. mac_from_bytes bs = Some m" if "length bs = 6" for bs
    using that by (auto simp: numeral_eq_Suc length_Suc_conv)
  have "arp_parse buf \<noteq> Panic" if "ARP_MESSAGE_SIZE \<le> length buf"
  proof -
    let ?b = "take ARP_MESSAGE_SIZE buf"
    have "length (slice 8 14 ?b) = 6" "length (slice 18 24 ?b) = 6"
      using that by (simp_all add: slice_def ARP_MESSAGE_SIZE_def)
    then obtain x y where "mac_from_bytes (slice 8 14 ?b) = Some x" "mac_from_bytes (slice 18 24 ?b) = Some y"
      using mac by blast
    then show ?thesis
      by (simp add: arp_parse_def Let_def split: option.split)
  qed
  then show ?thesis
    by (cases "ARP_MESSAGE_SIZE \<le> length buf") (simp_all add: arp_parse_def)
qed

lemma arp_handle_ok:
  assumes "arp_ok p" "arp_handle h p = (r, p')"
  shows "r \<noteq> Panic \<and> arp_ok p'"
proof -
  obtain p1 where p1: "do_insert (arp_sender_ip h) (arp_sender_hw h) p = Some p1" "arp_ok p1"
    using do_insert_ok [OF assms(1)] by blast
  obtain d where d: "tc_default_ttl (ac_cache (ar_cache p1)) = Some d" "0 < d"
    using p1(2) by (auto simp: arp_ok_def)
  obtain old c where c: "ac_insert (arp_sender_ip h) (arp_sender_hw h) (ar_cache p1) = Some (old, c)"
    "tc_default_ttl (ac_cache c) = Some d" "tc_clock (ac_cache c) = tc_clock (ac_cache (ar_cache p1))"
    using ac_insert_total [OF d] by blast
  have "arp_ok (p1\<lparr>ar_cache := c\<rparr>)"
    using p1(2) c d(2) by (simp add: arp_ok_def)
  then show ?thesis
    using assms p1 c(1) by (auto simp: arp_handle_def Let_def split: if_splits arp_operation.splits)
qed

lemma do_drop_ok: "arp_ok p \<Longrightarrow> arp_ok (do_drop ip p)"
  unfolding arp_ok_def do_drop_def settle_def by (auto split: option.splits if_splits; blast)

lemma do_wait_ok:
  assumes "arp_ok p" "do_wait_link_addr ip p = (w, p')"
  shows "arp_ok p'"
proof -
  let ?n = "ar_next_channel p"
  define q where "q = p\<lparr>ar_next_channel := ?n + 1, ar_channels := (ar_channels p)(?n := Waiting)\<rparr>"
  have fresh: "?n \<notin> set ws" if "ar_waiters p i = Some ws" for i ws
    using assms(1) that unfolding arp_ok_def by blast
  have q: "arp_ok q" "arp_ok (q\<lparr>ar_channels := (ar_channels p)(?n := Sent link)\<rparr>)" for link
    using assms(1) fresh unfolding arp_ok_def q_def by (auto simp: less_Suc_eq)
  have "arp_ok (q\<lparr>ar_waiters := (ar_waiters q)(ip \<mapsto> ws @ [?n])\<rparr>)"
    if ws: "ar_waiters p ip = Some ws \<or> ar_waiters p ip = None \<and> ws = []" for ws
  proof -
    have "w \<notin> set (ws @ [?n])" if "ar_waiters p i = Some ws'" "i \<noteq> ip" "w \<in> set ws'" for i ws' w
      using assms(1) ws that fresh [OF that(1)] unfolding arp_ok_def by auto
    then show ?thesis
      using assms(1) ws unfolding arp_ok_def q_def by (auto simp: less_Suc_eq)
  qed
  then show ?thesis
    using assms(2) q unfolding do_wait_link_addr_def Let_def q_def
    by (auto split: option.splits)
qed

lemma arp_await_ok: "arp_ok p \<Longrightarrow> arp_ok (snd (arp_await f ip w i dl p))"
  by (induction f ip w i dl p rule: arp_await.induct)
    (subst arp_await.simps, simp add: Let_def do_drop_ok split: oneshot.split)

lemma query_poll_ok:
  assumes "query_poll f q p = (r, p')" "arp_ok p"
  shows "arp_ok p'"
proof (cases q)
  case (QueryStart ip)
  obtain w p1 where w: "do_wait_link_addr ip p = (w, p1)"
    by fastforce
  let ?a = "arp_await f ip w 0 (ar_now p1 + request_timeout (ar_config p1)) (arp_transmit (arp_request ip p1) p1)"
  have "arp_ok (snd ?a)"
    using do_wait_ok [OF assms(2) w] by (intro arp_await_ok) simp
  then show ?thesis
    using assms QueryStart w by (auto split: option.splits)
next
  case (QueryWait ip w i dl)
  then show ?thesis
    using assms arp_await_ok [OF assms(2), of f ip w i dl] by simp
qed

text \<open>Time passes, frames arrive, the background task runs and queries are polled, in any order.\<close>

inductive arp_step :: "arp_peer \<Rightarrow> arp_peer \<Rightarrow> bool" where
  as_clock: "0 \<le> d \<Longrightarrow> arp_step p (p\<lparr>ar_now := ar_now p + d\<rparr>)"
| as_receive: "arp_receive buf p = (r, p') \<Longrightarrow> arp_step p p'"
| as_background: "arp_background p = Some p' \<Longrightarrow> arp_step p p'"
| as_query: "query_poll f q p = (x, p') \<Longrightarrow> arp_step p p'"

lemma arp_background_ok: "arp_ok p \<Longrightarrow> \<exists>p'. arp_background p = Some p' \<and> arp_ok p'"
  by (auto simp: arp_background_def ac_advance_clock_def ttl_advance_clock_def arp_ok_def)

lemma arp_receive_ok: "arp_ok p \<Longrightarrow> arp_receive buf p = (r, p') \<Longrightarrow> r \<noteq> Panic \<and> arp_ok p'"
  using arp_parse_no_panic [of buf] arp_handle_ok by (auto simp: arp_receive_def split: outcome.splits)

lemma arp_steps_ok: "arp_step\<^sup>*\<^sup>* p p' \<Longrightarrow> arp_ok p \<Longrightarrow> arp_ok p'"
proof (induction rule: rtranclp_induct)
  case (step q r)
  then have "arp_ok q"
    by blast
  with step.hyps(2) show ?case
  proof cases
    case (as_clock d)
    with \<open>arp_ok q\<close> show ?thesis
      by (auto simp: arp_ok_def)
  next
    case as_background
    with \<open>arp_ok q\<close> show ?thesis
      using arp_background_ok [of q] by simp
  qed (use arp_receive_ok query_poll_ok in blast)+
qed

text \<open>the assertions of the ARP cache hold in every reachable state of a peer created with a positive time to
  live: whatever bytes arrive are handled or refused with an error, and the clean-up task finds the clock in order.\<close>

theorem arp_peer_never_aborts:
  assumes "arp_peer_new now link ip cfg = Some p0" "arp_step\<^sup>*\<^sup>* p0 p"
  shows "fst (arp_receive buf p) \<noteq> Panic \<and> (\<exists>p'. arp_background p = Some p')"
proof -
  have "0 < cache_ttl cfg"
    using assms(1) by (auto simp: arp_peer_new_def ac_new_def ttl_new_def valid_ttl_def Option.bind_eq_Some_conv split: if_splits)
  then have "arp_ok p"
    using arp_peer_new_ok [of cfg now link ip] assms arp_steps_ok by auto
  then show ?thesis
    using arp_receive_ok [of p buf] arp_background_ok [of p] by (cases "arp_receive buf p") auto
qed

section \<open>Resolution\<close>

text \<open>A frame with a message arrives at a peer.\<close>

definition arp_deliver :: "arp_message \<Rightarrow> arp_peer \<Rightarrow> unit outcome \<times> arp_peer" where
  "arp_deliver m p =
     (case am_write_header m (replicate am_header_size 0) of
        None \<Rightarrow> (Panic, p)
      | Some frame \<Rightarrow> (case eth_parse frame of Ok (_, payload) \<Rightarrow> arp_receive payload p | Err e \<Rightarrow> (Err e, p) | Panic \<Rightarrow> (Panic, p)))"

lemma arp_deliver_eq: "arp_deliver m p = arp_handle (am_header m) p"
proof -
  let ?h = "am_header m" and ?e = "am_ethernet2_hdr m"
  let ?a = "be16 1 @ be16 0x800 @ [6, 4] @ be16 (arp_operation_code (arp_op ?h))
      @ mac_octets (arp_sender_hw ?h) @ be32 (arp_sender_ip ?h) @ mac_octets (arp_target_hw ?h) @ be32 (arp_target_ip ?h)"
  let ?w = "mac_octets (eth_dst_addr ?e) @ mac_octets (eth_src_addr ?e) @ be16 (ether_type_code (eth_ether_type ?e))"
  have "slice 0 14 (replicate 42 0) = (replicate 14 0 :: bytes)" "slice 14 42 (replicate 42 0) = (replicate 28 0 :: bytes)"
    by (simp_all add: slice_def)
  then have "am_write_header m (replicate am_header_size 0) = Some (?w @ ?a)"
    using eth_serialize_bytes [of "replicate 14 0" ?e] arp_serialize_bytes [of "replicate 28 0" ?h]
    by (simp add: am_write_header_def am_header_size_def ETHERNET2_HEADER_SIZE_def ARP_MESSAGE_SIZE_def)
  moreover have "eth_parse (?w @ ?a) = Ok (eth_new (eth_dst_addr ?e) (eth_src_addr ?e) (eth_ether_type ?e), ?a)"
    using eth_parse_bytes [of "eth_dst_addr ?e" "eth_src_addr ?e" "eth_ether_type ?e" ?a] by simp
  moreover have "arp_parse ?a = Ok ?h"
    using arp_parse_bytes [of "arp_op ?h" "arp_sender_hw ?h" "arp_sender_ip ?h" "arp_target_hw ?h" "arp_target_ip ?h" "[]"]
    by (simp add: arp_new_def)
  ultimately show ?thesis
    by (simp add: arp_deliver_def arp_receive_def)
qed

lemma query_starts:
  assumes "ac_get ip (ar_cache p) = None" "0 < request_timeout (ar_config p)"
  shows "query_poll f (QueryStart ip) p =
    (Inr (QueryWait ip (ar_next_channel p) 0 (ar_now p + request_timeout (ar_config p))),
     arp_transmit (arp_request ip p) (snd (do_wait_link_addr ip p)))"
proof -
  define p1 where "p1 = snd (do_wait_link_addr ip p)"
  have w: "do_wait_link_addr ip p = (ar_next_channel p, p1)"
    by (simp add: p1_def do_wait_link_addr_def Let_def)
  have p1: "ar_channels p1 (ar_next_channel p) = Waiting" "ar_now p1 = ar_now p" "ar_config p1 = ar_config p"
    "arp_request ip p1 = arp_request ip p"
    using assms(1) by (simp_all add: p1_def do_wait_link_addr_def arp_request_def Let_def split: option.split)
  have "arp_await f ip (ar_next_channel p) 0 (ar_now p + request_timeout (ar_config p)) (arp_transmit (arp_request ip p) p1)
    = (Inr (QueryWait ip (ar_next_channel p) 0 (ar_now p + request_timeout (ar_config p))), arp_transmit (arp_request ip p) p1)"
    using p1 assms(2) by (subst arp_await.simps) (simp add: arp_transmit_def)
  then show ?thesis
    using assms(1) w p1 by simp
qed

lemma do_wait_frame:
  assumes "ac_get ip (ar_cache p) = None"
  shows "ar_cache (snd (do_wait_link_addr ip p)) = ar_cache p" "ar_local_ip (snd (do_wait_link_addr ip p)) = ar_local_ip p"
    "ar_local_link (snd (do_wait_link_addr ip p)) = ar_local_link p" "ar_now (snd (do_wait_link_addr ip p)) = ar_now p"
    "ar_transmitted (snd (do_wait_link_addr ip p)) = ar_transmitted p"
    "\<exists>ws. ar_waiters (snd (do_wait_link_addr ip p)) ip = Some (ws @ [ar_next_channel p]) \<and>
       (\<forall>ws'. ar_waiters p ip = Some ws' \<longrightarrow> ws' = ws)"
  using assms by (auto simp: do_wait_link_addr_def Let_def split: option.split)

lemma handle_request:
  assumes "arp_ok p" "arp_op h = Request" "arp_target_ip h = ar_local_ip p"
  shows "\<exists>p'. arp_handle h p = (Ok (), p') \<and> ar_transmitted p' = ar_transmitted p @ [arp_reply h p]
    \<and> (\<not> ac_disable (ar_cache p) \<longrightarrow> try_query (arp_sender_ip h) p' = Some (arp_sender_hw h))"
proof -
  obtain p1 where p1: "do_insert (arp_sender_ip h) (arp_sender_hw h) p = Some p1" "ar_local_ip p1 = ar_local_ip p"
    "ar_local_link p1 = ar_local_link p" "ar_transmitted p1 = ar_transmitted p"
    "\<not> ac_disable (ar_cache p) \<longrightarrow> ac_get (arp_sender_ip h) (ar_cache p1) = Some (arp_sender_hw h)"
    using do_insert_ok [OF assms(1), of "arp_sender_ip h" "arp_sender_hw h"] by blast
  then show ?thesis
    using assms(2,3) by (auto simp: arp_handle_def Let_def arp_transmit_def arp_reply_def try_query_def)
qed

lemma handle_reply:
  assumes "arp_ok p" "arp_op h = Reply" "arp_target_ip h = ar_local_ip p" "\<not> ac_disable (ar_cache p)"
  shows "\<exists>p'. arp_handle h p = (Ok (), p') \<and> try_query (arp_sender_ip h) p' = Some (arp_sender_hw h) \<and> ar_now p' = ar_now p
    \<and> (\<forall>ws w. ar_waiters p (arp_sender_ip h) = Some ws \<longrightarrow> w \<in> set ws \<longrightarrow> ar_channels p' w = Sent (arp_sender_hw h))"
proof -
  obtain p1 where p1: "do_insert (arp_sender_ip h) (arp_sender_hw h) p = Some p1" "arp_ok p1" "ar_local_ip p1 = ar_local_ip p"
    "ar_now p1 = ar_now p" "ac_disable (ar_cache p1) = ac_disable (ar_cache p)"
    "\<forall>ws w. ar_waiters p (arp_sender_ip h) = Some ws \<longrightarrow> w \<in> set ws \<longrightarrow> ar_channels p1 w = Sent (arp_sender_hw h)"
    using do_insert_ok [OF assms(1), of "arp_sender_ip h" "arp_sender_hw h"] by blast
  obtain d where d: "tc_default_ttl (ac_cache (ar_cache p1)) = Some d" "0 < d"
    using p1(2) by (auto simp: arp_ok_def)
  obtain old c where "ac_insert (arp_sender_ip h) (arp_sender_hw h) (ar_cache p1) = Some (old, c)"
    "ac_get (arp_sender_ip h) c = Some (arp_sender_hw h)"
    using ac_insert_total [OF d] p1(5) assms(4) by blast
  then show ?thesis
    using assms(2,3) p1 by (auto simp: arp_handle_def Let_def try_query_def)
qed

text \<open>C21: an address is resolved by one exchange. A query for an address that is not cached broadcasts a request; the
  host that has the address answers it and learns the address of the asker; when the answer arrives, the query
  returns the host's link address, every other query that waits for the same address is answered too, and later
  lookups find it in the cache.\<close>

theorem arp_resolution:
  assumes "arp_ok a" "arp_ok b" "ar_local_ip b = ip" "ac_get ip (ar_cache a) = None" "0 < request_timeout (ar_config a)"
    "\<not> ac_disable (ar_cache b)"
  shows "\<exists>q a1 req b1 rep a2. query_poll f (QueryStart ip) a = (Inr q, a1) \<and> ar_transmitted a1 = ar_transmitted a @ [req]
    \<and> arp_deliver req b = (Ok (), b1) \<and> ar_transmitted b1 = ar_transmitted b @ [rep]
    \<and> try_query (ar_local_ip a) b1 = Some (ar_local_link a)
    \<and> arp_deliver rep a1 = (Ok (), a2) \<and> query_poll f q a2 = (Inl (Ok (ar_local_link b)), a2)
    \<and> try_query ip a2 = Some (ar_local_link b)
    \<and> (\<forall>ws w. ar_waiters a ip = Some ws \<longrightarrow> w \<in> set ws \<longrightarrow> ar_channels a2 w = Sent (ar_local_link b))"
proof -
  let ?req = "arp_request ip a" and ?w = "ar_next_channel a" and ?dl = "ar_now a + request_timeout (ar_config a)"
  define a1 where "a1 = arp_transmit ?req (snd (do_wait_link_addr ip a))"
  note fr = do_wait_frame [OF assms(4)]
  have a1: "query_poll f (QueryStart ip) a = (Inr (QueryWait ip ?w 0 ?dl), a1)" "arp_ok a1"
    using query_starts [OF assms(4,5), of f] do_wait_ok [OF assms(1), of ip]
    by (simp_all add: a1_def prod.expand split: prod.splits) (cases "do_wait_link_addr ip a", simp)
  have a1': "ar_transmitted a1 = ar_transmitted a @ [?req]" "ar_local_ip a1 = ar_local_ip a" "ar_cache a1 = ar_cache a"
    "ar_now a1 = ar_now a"
    using fr by (simp_all add: a1_def arp_transmit_def)
  obtain ws where ws: "ar_waiters a1 ip = Some (ws @ [?w])" "\<forall>ws'. ar_waiters a ip = Some ws' \<longrightarrow> ws' = ws"
    using fr(6) by (auto simp: a1_def arp_transmit_def)
  let ?h = "am_header ?req" and ?rep = "arp_reply (am_header ?req) b"
  have h: "arp_op ?h = Request" "arp_target_ip ?h = ip" "arp_sender_ip ?h = ar_local_ip a" "arp_sender_hw ?h = ar_local_link a"
    by (simp_all add: arp_request_def arp_new_def)
  obtain b1 where b1: "arp_deliver ?req b = (Ok (), b1)" "ar_transmitted b1 = ar_transmitted b @ [?rep]"
    "try_query (ar_local_ip a) b1 = Some (ar_local_link a)"
    using handle_request [OF assms(2), of ?h] assms(3,6) h unfolding arp_deliver_eq by auto
  have rep: "arp_op (am_header ?rep) = Reply" "arp_target_ip (am_header ?rep) = ar_local_ip a1"
    "arp_sender_ip (am_header ?rep) = ip" "arp_sender_hw (am_header ?rep) = ar_local_link b"
    using h assms(3) a1'(2) by (simp_all add: arp_reply_def arp_new_def)
  have "\<not> ac_disable (ar_cache a1)"
    using assms(4) a1'(3) by (auto simp: ac_get_def)
  then obtain a2 where a2: "arp_deliver ?rep a1 = (Ok (), a2)" "try_query ip a2 = Some (ar_local_link b)" "ar_now a2 = ar_now a1"
    "\<forall>w \<in> set (ws @ [?w]). ar_channels a2 w = Sent (ar_local_link b)"
    using handle_reply [OF a1(2) rep(1,2)] rep(3,4) ws(1) unfolding arp_deliver_eq by auto
  have "query_poll f (QueryWait ip ?w 0 ?dl) a2 = (Inl (Ok (ar_local_link b)), a2)"
    using a2(3,4) a1'(4) assms(5) by (simp, subst arp_await.simps) simp
  then show ?thesis
    using a1(1) a1'(1) b1 a2 ws(2) by auto
qed

text \<open>Two hosts with empty caches.\<close>

definition demo_arp :: "mac_address \<Rightarrow> ipv4addr \<Rightarrow> arp_peer" where
  "demo_arp link ip = the (arp_peer_new 0 link ip arp_config_default)"

lemma demo_arp_ok:
  "arp_peer_new 0 link ip arp_config_default = Some (demo_arp link ip)" "arp_ok (demo_arp link ip)"
  "ar_local_ip (demo_arp link ip) = ip" "ar_local_link (demo_arp link ip) = link"
  "ac_get x (ar_cache (demo_arp link ip)) = None" "\<not> ac_disable (ar_cache (demo_arp link ip))"
  "ar_config (demo_arp link ip) = arp_config_default" "ar_now (demo_arp link ip) = 0" "ar_next_channel (demo_arp link ip) = 0"
  "ar_transmitted (demo_arp link ip) = []"
  by (simp_all add: demo_arp_def arp_peer_new_def ac_new_def ttl_new_def valid_ttl_def arp_config_default_def arp_ok_def
      ac_get_def ttl_get_def)

lemma demo_timeout: "0 < request_timeout arp_config_default" "retry_count arp_config_default = 5"
  by (simp_all add: arp_config_default_def)

theorem arp_peer_never_aborts_witness:
  "fst (arp_receive [1, 2, 3] (snd (arp_receive [] (demo_arp (Mac 1 2 3 4 5 6) 9)))) \<noteq> Panic"
proof -
  let ?p = "demo_arp (Mac 1 2 3 4 5 6) 9"
  have "arp_step ?p (snd (arp_receive [] ?p))"
    by (rule as_receive [of "[]" _ "fst (arp_receive [] ?p)"]) simp
  then show ?thesis
    using arp_peer_never_aborts [OF demo_arp_ok(1) r_into_rtranclp] by blast
qed

theorem arp_resolution_witness:
  "\<exists>q a1 req b1 rep a2. query_poll (\<lambda>_. False) (QueryStart 9) (demo_arp (Mac 1 1 1 1 1 1) 8) = (Inr q, a1)
    \<and> arp_deliver req (demo_arp (Mac 2 2 2 2 2 2) 9) = (Ok (), b1) \<and> ar_transmitted b1 = [rep]
    \<and> arp_deliver rep a1 = (Ok (), a2) \<and> query_poll (\<lambda>_. False) q a2 = (Inl (Ok (Mac 2 2 2 2 2 2)), a2)
    \<and> try_query 9 a2 = Some (Mac 2 2 2 2 2 2)"
  using arp_resolution [of "demo_arp (Mac 1 1 1 1 1 1) 8" "demo_arp (Mac 2 2 2 2 2 2) 9" 9 "\<lambda>_. False"]
  by (simp del: query_poll.simps add: demo_arp_ok demo_timeout) blast

section \<open>Queries without an answer\<close>

text \<open>The timeout of the current attempt passes \<open>n\<close> times, and the query is polled each time.\<close>

fun wait_out :: "(nat \<Rightarrow> bool) \<Rightarrow> nat \<Rightarrow> arp_query \<Rightarrow> arp_peer \<Rightarrow> (mac_address outcome + arp_query) \<times> arp_peer" where
  "wait_out f 0 q p = (Inr q, p)"
| "wait_out f (Suc n) q p =
     (case query_poll f q (p\<lparr>ar_now := ar_now p + request_timeout (ar_config p)\<rparr>) of
        (Inl r, p) \<Rightarrow> (Inl r, p)
      | (Inr q, p) \<Rightarrow> wait_out f n q p)"

lemma wait_out_times_out:
  assumes "ar_channels p w = Waiting" "retry_count (ar_config p) = i + n" "0 < request_timeout (ar_config p)"
    "dl = ar_now p + request_timeout (ar_config p)"
  shows "\<exists>p'. wait_out f (Suc n) (QueryWait ip w i dl) p = (Inl (Err (fail_new ETIMEDOUT ''ARP query timeout'')), p')
    \<and> ar_transmitted p' = ar_transmitted p @ replicate n (arp_request ip p)
    \<and> ar_now p' = ar_now p + of_nat (Suc n) * request_timeout (ar_config p) \<and> ar_waiters p' ip = None"
  using assms
proof (induction n arbitrary: p i dl)
  case 0
  have "query_poll f (QueryWait ip w i dl) (p\<lparr>ar_now := ar_now p + request_timeout (ar_config p)\<rparr>) =
    (Inl (Err (fail_new ETIMEDOUT ''ARP query timeout'')), do_drop ip (p\<lparr>ar_now := ar_now p + request_timeout (ar_config p)\<rparr>))"
    using 0 by (simp, subst arp_await.simps) simp
  then show ?case
    by (simp add: do_drop_def settle_def split: option.split)
next
  case (Suc n)
  let ?t = "request_timeout (ar_config p)"
  let ?p = "p\<lparr>ar_now := ar_now p + ?t\<rparr>"
  let ?q = "arp_transmit (arp_request ip p) ?p"
  have req: "arp_request ip ?p = arp_request ip p" "arp_request ip ?q = arp_request ip p"
    by (simp_all add: arp_request_def arp_transmit_def)
  have "query_poll f (QueryWait ip w i dl) ?p = arp_await f ip w (i + 1) (ar_now ?p + ?t) ?q"
    using Suc.prems req(1) by (simp, subst arp_await.simps) (simp add: arp_transmit_def)
  also have "\<dots> = (Inr (QueryWait ip w (i + 1) (ar_now ?p + ?t)), ?q)"
    using Suc.prems by (subst arp_await.simps) (simp add: arp_transmit_def)
  finally have step: "query_poll f (QueryWait ip w i dl) ?p = (Inr (QueryWait ip w (i + 1) (ar_now ?p + ?t)), ?q)" .
  have "\<exists>p'. wait_out f (Suc n) (QueryWait ip w (i + 1) (ar_now ?p + ?t)) ?q = (Inl (Err (fail_new ETIMEDOUT ''ARP query timeout'')), p')
    \<and> ar_transmitted p' = ar_transmitted ?q @ replicate n (arp_request ip ?q)
    \<and> ar_now p' = ar_now ?q + of_nat (Suc n) * request_timeout (ar_config ?q) \<and> ar_waiters p' ip = None"
    by (rule Suc.IH) (use Suc.prems in \<open>simp_all add: arp_transmit_def\<close>)
  then show ?case
    using step req(2) by (simp add: arp_transmit_def algebra_simps del: wait_out.simps(2)) (simp add: arp_transmit_def algebra_simps)
qed

text \<open>C22: a query that nobody answers ends. It sends one request for each of its attempts, the first and the retries,
  and fails with ETIMEDOUT when the last of them has timed out.\<close>

theorem arp_query_gives_up:
  assumes "ac_get ip (ar_cache p) = None" "0 < request_timeout (ar_config p)" "n = Suc (retry_count (ar_config p))"
  shows "\<exists>q p1 p2. query_poll f (QueryStart ip) p = (Inr q, p1)
    \<and> wait_out f n q p1 = (Inl (Err (fail_new ETIMEDOUT ''ARP query timeout'')), p2)
    \<and> ar_transmitted p2 = ar_transmitted p @ replicate n (arp_request ip p)
    \<and> ar_now p2 = ar_now p + of_nat n * request_timeout (ar_config p)"
proof -
  let ?t = "request_timeout (ar_config p)"
  define p1 where "p1 = arp_transmit (arp_request ip p) (snd (do_wait_link_addr ip p))"
  have p1: "ar_channels p1 (ar_next_channel p) = Waiting" "ar_config p1 = ar_config p" "ar_now p1 = ar_now p"
    "ar_transmitted p1 = ar_transmitted p @ [arp_request ip p]" "arp_request ip p1 = arp_request ip p"
    using assms(1) by (simp_all add: p1_def arp_transmit_def do_wait_link_addr_def arp_request_def Let_def split: option.split)
  obtain p2 where "wait_out f n (QueryWait ip (ar_next_channel p) 0 (ar_now p + ?t)) p1 =
      (Inl (Err (fail_new ETIMEDOUT ''ARP query timeout'')), p2)"
    "ar_transmitted p2 = ar_transmitted p1 @ replicate (retry_count (ar_config p)) (arp_request ip p1)"
    "ar_now p2 = ar_now p1 + of_nat n * ?t"
    using wait_out_times_out [of p1 "ar_next_channel p" 0 "retry_count (ar_config p)" "ar_now p + ?t" f ip] p1 assms(2,3)
    by auto
  then show ?thesis
    using query_starts [OF assms(1,2), of f] p1 assms(3) by (auto simp: p1_def)
qed

theorem arp_query_gives_up_witness:
  "\<exists>q p1 p2. query_poll (\<lambda>_. False) (QueryStart 9) (demo_arp (Mac 1 1 1 1 1 1) 8) = (Inr q, p1)
    \<and> wait_out (\<lambda>_. False) 6 q p1 = (Inl (Err (fail_new ETIMEDOUT ''ARP query timeout'')), p2) \<and> length (ar_transmitted p2) = 6"
  using arp_query_gives_up [of 9 "demo_arp (Mac 1 1 1 1 1 1) 8" 6 "\<lambda>_. False"]
  by (simp del: query_poll.simps wait_out.simps add: demo_arp_ok demo_timeout) (metis length_replicate)

text \<open>a query that times out takes the others down. It drops the channels of every query that waits for the same
  address; when one of those is polled next, within its own time, the process aborts.\<close>

theorem arp_timeout_aborts_others:
  assumes "ar_waiters p ip = Some ws" "w' \<in> set ws" "ar_channels p w = Waiting"
    and "retry_count (ar_config p) \<le> i" "dl \<le> ar_now p" "ar_now p < dl'"
  shows "\<exists>p'. query_poll f (QueryWait ip w i dl) p = (Inl (Err (fail_new ETIMEDOUT ''ARP query timeout'')), p')
    \<and> query_poll f' (QueryWait ip w' i' dl') p' = (Inl Panic, p')"
proof -
  have "query_poll f (QueryWait ip w i dl) p = (Inl (Err (fail_new ETIMEDOUT ''ARP query timeout'')), do_drop ip p)"
    using assms(3-5) by (simp, subst arp_await.simps) simp
  moreover have "query_poll f' (QueryWait ip w' i' dl') (do_drop ip p) = (Inl Panic, do_drop ip p)"
    using assms(1,2,6) by (simp, subst arp_await.simps) (simp add: do_drop_def settle_def)
  ultimately show ?thesis
    by blast
qed

theorem arp_timeout_aborts_others_witness:
  "\<exists>p'. query_poll (\<lambda>_. False) (QueryWait 9 0 5 120)
      ((demo_arp (Mac 1 1 1 1 1 1) 8)\<lparr>ar_now := 120, ar_waiters := [9 \<mapsto> [0, 1]], ar_channels := (\<lambda>_. Waiting)\<rparr>)
      = (Inl (Err (fail_new ETIMEDOUT ''ARP query timeout'')), p')
    \<and> query_poll (\<lambda>_. False) (QueryWait 9 1 5 130) p' = (Inl Panic, p')"
  by (rule arp_timeout_aborts_others [of _ _ "[0, 1]"]) (simp_all add: demo_arp_ok arp_config_default_def)

end
