(* ===== verification/Pin_Slab.thy ===== *)
theory Pin_Slab
  imports Prelude
begin

text \<open>
  The pinned slab (\<^verbatim>\<open>scheduler/pin_slab.rs\<close>): storage that grows by slots of doubling size, in which a value keeps its
  key until it is removed; removed entries form a chain of vacant ones. A slot is a list of entries. It implements
  a map with keys of the slab's choice.
\<close>

section \<open>Definitions\<close>

datatype 'a entry = ENone | Vacant nat | Occupied 'a

record 'a pin_slab =
  slots :: "'a entry list list"
  slab_len :: nat
  slab_next :: nat

definition FIRST_SLOT_SIZE :: nat where
  "FIRST_SLOT_SIZE = 16"

text \<open>The number of bits of a word without its leading zeros.\<close>

fun bit_length :: "nat \<Rightarrow> nat" where
  "bit_length n = (if n = 0 then 0 else Suc (bit_length (n div 2)))"

declare bit_length.simps [simp del]

definition FIRST_SLOT_MASK :: nat where
  "FIRST_SLOT_MASK = bit_length FIRST_SLOT_SIZE - 1"

text \<open>The slot of a key, the place in the slot and the slot's size; \<^verbatim>\<open>usize\<close> has 64 bits.\<close>

definition calculate_key :: "nat \<Rightarrow> (nat \<times> nat \<times> nat) option" where
  "calculate_key key =
     (if 2 ^ 63 \<le> key then None
      else let slot = bit_length key - FIRST_SLOT_MASK;
               (start, end) = (if key < FIRST_SLOT_SIZE then (0, FIRST_SLOT_SIZE)
                               else (FIRST_SLOT_SIZE * 2 ^ (slot - 1), FIRST_SLOT_SIZE * 2 ^ slot))
           in Some (slot, key - start, end - start))"

definition slab_new :: "'a pin_slab" where
  "slab_new = \<lparr>slots = [], slab_len = 0, slab_next = 0\<rparr>"

definition internal_get :: "nat \<Rightarrow> 'a pin_slab \<Rightarrow> 'a option" where
  "internal_get key s =
     Option.bind (calculate_key key) (\<lambda>(slot, offset, _).
       if slot < length (slots s)
       then (case slots s ! slot ! offset of Occupied v \<Rightarrow> Some v | _ \<Rightarrow> None)
       else None)"

definition slab_get :: "nat \<Rightarrow> 'a pin_slab \<Rightarrow> 'a option" where
  "slab_get key s = internal_get key s"

definition set_entry :: "nat \<Rightarrow> nat \<Rightarrow> 'a entry \<Rightarrow> 'a pin_slab \<Rightarrow> 'a pin_slab" where
  "set_entry slot offset e s = s\<lparr>slots := (slots s)[slot := (slots s ! slot)[offset := e]]\<rparr>"

text \<open>A value changed through the pinned reference that \<^verbatim>\<open>get_pin_mut\<close> returns.\<close>

definition slab_put :: "nat \<Rightarrow> 'a \<Rightarrow> 'a pin_slab \<Rightarrow> 'a pin_slab" where
  "slab_put key v s =
     (case calculate_key key of
        Some (slot, offset, _) \<Rightarrow> if internal_get key s = None then s else set_entry slot offset (Occupied v) s
      | None \<Rightarrow> s)"

definition new_slot :: "nat \<Rightarrow> 'a entry list" where
  "new_slot n = replicate n ENone"

text \<open>\<open>None\<close>: the key is out of range, and nothing has changed. An occupied entry is unreachable.\<close>

definition insert_at :: "nat \<Rightarrow> 'a \<Rightarrow> 'a pin_slab \<Rightarrow> 'a pin_slab option outcome" where
  "insert_at key v s =
     (case calculate_key key of
        None \<Rightarrow> Ok None
      | Some (slot, offset, len) \<Rightarrow>
          let count = (\<lambda>s. s\<lparr>slab_len := slab_len s + 1\<rparr>)
          in if slot < length (slots s)
             then (case slots s ! slot ! offset of
                     ENone \<Rightarrow> Ok (Some (count ((set_entry slot offset (Occupied v) s)\<lparr>slab_next := key + 1\<rparr>)))
                   | Vacant nxt \<Rightarrow> Ok (Some (count ((set_entry slot offset (Occupied v) s)\<lparr>slab_next := nxt\<rparr>)))
                   | Occupied _ \<Rightarrow> Panic)
             else Ok (Some (count (s\<lparr>slots := slots s @ [(new_slot len)[0 := Occupied v]], slab_next := key + 1\<rparr>))))"

definition slab_insert :: "'a \<Rightarrow> 'a pin_slab \<Rightarrow> (nat \<times> 'a pin_slab) option outcome" where
  "slab_insert v s = bind_out (insert_at (slab_next s) v s) (\<lambda>r. Ok (map_option (Pair (slab_next s)) r))"

definition vacate :: "nat \<Rightarrow> nat \<Rightarrow> nat \<Rightarrow> 'a pin_slab \<Rightarrow> 'a pin_slab" where
  "vacate key slot offset s =
     (set_entry slot offset (Vacant (slab_next s)) s)\<lparr>slab_len := slab_len s - 1, slab_next := key\<rparr>"

definition slab_remove :: "nat \<Rightarrow> 'a pin_slab \<Rightarrow> bool option \<times> 'a pin_slab" where
  "slab_remove key s =
     (case calculate_key key of
        None \<Rightarrow> (None, s)
      | Some (slot, offset, _) \<Rightarrow>
          if slot < length (slots s)
          then (case slots s ! slot ! offset of Occupied _ \<Rightarrow> (Some True, vacate key slot offset s) | _ \<Rightarrow> (Some False, s))
          else (Some False, s))"

definition remove_unpin :: "nat \<Rightarrow> 'a pin_slab \<Rightarrow> 'a option \<times> 'a pin_slab" where
  "remove_unpin key s =
     (case calculate_key key of
        None \<Rightarrow> (None, s)
      | Some (slot, offset, _) \<Rightarrow>
          if slot < length (slots s)
          then (case slots s ! slot ! offset of Occupied v \<Rightarrow> (Some v, vacate key slot offset s) | _ \<Rightarrow> (None, s))
          else (None, s))"

definition slot_size :: "nat \<Rightarrow> nat" where
  "slot_size n = (if n \<le> 1 then FIRST_SLOT_SIZE else FIRST_SLOT_SIZE * 2 ^ (n - 1))"

section \<open>Keys\<close>

text \<open>A slot starts where the slots before it end.\<close>

definition slot_start :: "nat \<Rightarrow> nat" where
  "slot_start n = (\<Sum>i<n. slot_size i)"

lemma slot_start_Suc: "slot_start (Suc n) = 16 * 2 ^ n"
proof (induction n)
  case (Suc n)
  have "slot_start (Suc (Suc n)) = slot_start (Suc n) + slot_size (Suc n)"
    by (simp add: slot_start_def)
  then show ?case
    using Suc by (cases n) (simp_all add: slot_size_def FIRST_SLOT_SIZE_def)
qed (simp add: slot_start_def slot_size_def FIRST_SLOT_SIZE_def)

lemma slot_start_0 [simp]: "slot_start 0 = 0"
  by (simp add: slot_start_def)

lemma bit_length_bounds: "n \<noteq> 0 \<Longrightarrow> 2 ^ (bit_length n - 1) \<le> n \<and> n < 2 ^ bit_length n \<and> 0 < bit_length n"
proof (induction n rule: bit_length.induct)
  case (1 n)
  have e: "bit_length n = Suc (bit_length (n div 2))"
    using "1.prems" by (subst bit_length.simps) simp
  show ?case
  proof (cases "n div 2 = 0")
    case True
    then have "n = 1" "bit_length n = 1"
      using "1.prems" e by (simp_all add: bit_length.simps [of 0])
    then show ?thesis
      by simp
  next
    case False
    then have ih: "2 ^ (bit_length (n div 2) - 1) \<le> n div 2" "n div 2 < 2 ^ bit_length (n div 2)" "0 < bit_length (n div 2)"
      using 1 by auto
    then have "2 * 2 ^ (bit_length (n div 2) - 1) \<le> n" "n < 2 * 2 ^ bit_length (n div 2)"
      by linarith+
    moreover have "(2 :: nat) * 2 ^ (bit_length (n div 2) - 1) = 2 ^ bit_length (n div 2)"
      using ih(3) by (cases "bit_length (n div 2)") simp_all
    ultimately show ?thesis
      by (simp add: e)
  qed
qed

lemma mask [simp]: "FIRST_SLOT_MASK = 4"
  by (simp add: FIRST_SLOT_MASK_def FIRST_SLOT_SIZE_def bit_length.simps)

lemma power_two_less: "(2 :: nat) ^ m < 2 ^ n \<Longrightarrow> m < n"
  by (rule power_less_imp_less_exp [of 2]) simp_all

lemma calculate_key_eq:
  assumes "key < 2 ^ 63"
  shows "\<exists>slot offset. calculate_key key = Some (slot, offset, slot_size slot) \<and> offset < slot_size slot
    \<and> key = slot_start slot + offset"
proof (cases "key < 16")
  case True
  have "bit_length key \<le> 4"
  proof (cases "key = 0")
    case False
    then have "2 ^ (bit_length key - 1) < (16 :: nat)"
      using bit_length_bounds [of key] True by auto
    then have "bit_length key - 1 < 4"
      using power_two_less [of "bit_length key - 1" 4] by simp
    then show ?thesis by simp
  qed (simp add: bit_length.simps)
  then show ?thesis
    using True assms by (auto simp: calculate_key_def FIRST_SLOT_SIZE_def slot_size_def)
next
  case False
  define b where "b = bit_length key"
  have b: "2 ^ (b - 1) \<le> key" "key < 2 ^ b"
    using bit_length_bounds [of key] False by (auto simp: b_def)
  have "4 < b"
    using power_two_less [of 4 b] b(2) False by auto
  define n where "n = b - 5"
  have n: "b = n + 5"
    using \<open>4 < b\<close> by (simp add: n_def)
  have "16 * 2 ^ n \<le> key" "key < 16 * 2 ^ (n + 1)"
    using b by (simp_all add: n power_add)
  then show ?thesis
    using False assms slot_start_Suc [of n]
    by (auto simp: calculate_key_def b_def [symmetric] n FIRST_SLOT_SIZE_def slot_size_def Let_def)
qed

lemma slot_start_step: "s < t \<Longrightarrow> slot_start s + slot_size s \<le> slot_start t"
proof -
  assume "s < t"
  then have "slot_start (Suc s) \<le> slot_start t"
    unfolding slot_start_def by (intro sum_mono2) auto
  then show ?thesis
    by (simp add: slot_start_def)
qed

lemma slot_unique:
  assumes "slot_start s + a = slot_start t + b" "a < slot_size s" "b < slot_size t"
  shows "s = t" "a = b"
proof -
  show "s = t"
    using assms slot_start_step [of s t] slot_start_step [of t s] by (cases s t rule: linorder_cases) linarith+
  then show "a = b"
    using assms(1) by simp
qed

section \<open>The slab as one array\<close>

definition entries :: "'a pin_slab \<Rightarrow> 'a entry list" where
  "entries s = concat (slots s)"

definition sizes_ok :: "'a pin_slab \<Rightarrow> bool" where
  "sizes_ok s \<longleftrightarrow> (\<forall>i<length (slots s). length (slots s ! i) = slot_size i)"

lemma concat_pos:
  assumes "i < length xss" "j < length (xss ! i)"
  shows "concat xss ! (length (concat (take i xss)) + j) = xss ! i ! j"
    "concat (xss[i := (xss ! i)[j := e]]) = (concat xss)[length (concat (take i xss)) + j := e]"
    "length (concat (take i xss)) + j < length (concat xss)"
proof -
  have split: "concat xss = concat (take i xss) @ xss ! i @ concat (drop (Suc i) xss)"
    using assms(1) by (metis concat.simps(2) concat_append id_take_nth_drop)
  show "concat xss ! (length (concat (take i xss)) + j) = xss ! i ! j"
    "length (concat (take i xss)) + j < length (concat xss)"
    using assms(2) by (simp_all add: split nth_append)
  have "concat (xss[i := (xss ! i)[j := e]]) = concat (take i xss) @ (xss ! i)[j := e] @ concat (drop (Suc i) xss)"
    using assms(1) by (simp add: upd_conv_take_nth_drop)
  then show "concat (xss[i := (xss ! i)[j := e]]) = (concat xss)[length (concat (take i xss)) + j := e]"
    using assms(2) by (simp add: split list_update_append)
qed

lemma length_before: "sizes_ok s \<Longrightarrow> i \<le> length (slots s) \<Longrightarrow> length (concat (take i (slots s))) = slot_start i"
proof (induction i)
  case (Suc i)
  then show ?case
    by (simp add: take_Suc_conv_app_nth slot_start_def sizes_ok_def)
qed simp

lemma length_entries: "sizes_ok s \<Longrightarrow> length (entries s) = slot_start (length (slots s))"
  using length_before [of s "length (slots s)"] by (simp add: entries_def)

lemma key_place:
  assumes "sizes_ok s" "key < 2 ^ 63" "calculate_key key = Some (slot, offset, len)"
  shows "slot < length (slots s) \<longleftrightarrow> key < length (entries s)" "len = slot_size slot" "offset < len"
    "slot < length (slots s) \<Longrightarrow> slots s ! slot ! offset = entries s ! key"
    "slot < length (slots s) \<Longrightarrow> entries (set_entry slot offset e s) = (entries s)[key := e] \<and> sizes_ok (set_entry slot offset e s)"
    "key = length (entries s) \<Longrightarrow> slot = length (slots s) \<and> offset = 0"
proof -
  have k: "len = slot_size slot" "offset < slot_size slot" "key = slot_start slot + offset"
    using calculate_key_eq [OF assms(2)] assms(3) by auto
  show "len = slot_size slot" "offset < len"
    using k by simp_all
  show iff: "slot < length (slots s) \<longleftrightarrow> key < length (entries s)"
  proof
    assume "slot < length (slots s)"
    then show "key < length (entries s)"
      using slot_start_step [of slot "length (slots s)"] k length_entries [OF assms(1)] by linarith
  next
    assume "key < length (entries s)"
    then show "slot < length (slots s)"
      using k length_entries [OF assms(1)] slot_start_step [of "length (slots s)" slot]
      by (cases slot "length (slots s)" rule: linorder_cases) auto
  qed
  show "slots s ! slot ! offset = entries s ! key" if "slot < length (slots s)"
    using concat_pos(1) [of slot "slots s" offset] that k length_before [OF assms(1), of slot] assms(1)
    by (simp add: entries_def sizes_ok_def)
  show "entries (set_entry slot offset e s) = (entries s)[key := e] \<and> sizes_ok (set_entry slot offset e s)"
    if "slot < length (slots s)"
    using concat_pos(2) [of slot "slots s" offset e] that k length_before [OF assms(1), of slot] assms(1)
    by (auto simp: entries_def sizes_ok_def set_entry_def nth_list_update)
  show "slot = length (slots s) \<and> offset = 0" if "key = length (entries s)"
    using slot_unique [of slot offset "length (slots s)" 0] k that length_entries [OF assms(1)]
    by (simp add: slot_size_def FIRST_SLOT_SIZE_def split: if_splits)
qed

section \<open>Invariant\<close>

text \<open>The vacant entries from \<open>slab_next\<close> on form a chain that ends at the first entry never used.\<close>

fun chain :: "'a entry list \<Rightarrow> nat \<Rightarrow> nat list \<Rightarrow> nat \<Rightarrow> bool" where
  "chain es n [] f \<longleftrightarrow> n = f"
| "chain es n (k # ks) f \<longleftrightarrow> n = k \<and> k < length es \<and> (\<exists>m. es ! k = Vacant m \<and> chain es m ks f)"

definition free_ok :: "'a entry list \<Rightarrow> nat list \<Rightarrow> nat \<Rightarrow> bool" where
  "free_ok es fs f \<longleftrightarrow> distinct fs \<and> f \<le> length es \<and> f \<le> 2 ^ 63 \<and> (\<forall>k\<in>set fs. k < f)
     \<and> (\<forall>k<f. k \<in> set fs \<or> (\<exists>v. es ! k = Occupied v)) \<and> (\<forall>k. f \<le> k \<longrightarrow> k < length es \<longrightarrow> es ! k = ENone)"

definition slab_ok :: "'a pin_slab \<Rightarrow> bool" where
  "slab_ok s \<longleftrightarrow> sizes_ok s \<and>
     (\<exists>fs f. chain (entries s) (slab_next s) fs f \<and> free_ok (entries s) fs f \<and> slab_len s + length fs = f)"

definition occupant :: "nat \<Rightarrow> 'a entry list \<Rightarrow> 'a option" where
  "occupant k es = (if k < length es then case es ! k of Occupied v \<Rightarrow> Some v | _ \<Rightarrow> None else None)"

lemma chain_update: "k \<notin> set fs \<Longrightarrow> chain (es[k := e]) n fs f = chain es n fs f"
  by (induction fs arbitrary: n) auto

lemma chain_append: "chain es n fs f \<Longrightarrow> chain (es @ es') n fs f"
  by (induction fs arbitrary: n) (auto simp: nth_append)

lemma chain_vacant: "chain es n fs f \<Longrightarrow> k \<in> set fs \<Longrightarrow> k < length es \<and> (\<exists>m. es ! k = Vacant m)"
  by (induction fs arbitrary: n) auto

lemma slab_get_eq:
  assumes "slab_ok s"
  shows "slab_get k s = occupant k (entries s)"
proof -
  obtain fs f where s: "sizes_ok s" "free_ok (entries s) fs f"
    using assms by (auto simp: slab_ok_def)
  show ?thesis
  proof (cases "k < 2 ^ 63")
    case True
    then obtain slot offset len where c: "calculate_key k = Some (slot, offset, len)"
      using calculate_key_eq by blast
    show ?thesis
      using key_place(1,4) [OF s(1) True c] c by (auto simp: slab_get_def internal_get_def occupant_def)
  next
    case False
    then have "k < length (entries s) \<Longrightarrow> entries s ! k = ENone"
      using s(2) by (auto simp: free_ok_def)
    then show ?thesis
      using False by (auto simp: slab_get_def internal_get_def calculate_key_def occupant_def)
  qed
qed

section \<open>Operations\<close>

lemma slab_okI: "sizes_ok s \<Longrightarrow> chain (entries s) (slab_next s) fs f \<Longrightarrow> free_ok (entries s) fs f \<Longrightarrow> slab_len s + length fs = f \<Longrightarrow> slab_ok s"
  by (auto simp: slab_ok_def)

lemma slab_new_ok: "slab_ok slab_new"
  by (rule slab_okI [of _ "[]" 0]) (simp_all add: slab_new_def sizes_ok_def entries_def free_ok_def)

lemma slab_new_get: "slab_get k slab_new = None"
  by (simp add: slab_get_eq [OF slab_new_ok]) (simp add: slab_new_def entries_def occupant_def)

text \<open>The three places a value can go: the head of the chain, the next entry of the last slot, a new slot.\<close>

lemma insert_vacant:
  assumes "chain es k (k # fs) f" "free_ok es (k # fs) f"
  shows "\<exists>m. es ! k = Vacant m \<and> k < length es \<and> chain (es[k := Occupied v]) m fs f \<and> free_ok (es[k := Occupied v]) fs f"
  using assms by (auto simp: free_ok_def chain_update nth_list_update)

lemma insert_fresh:
  assumes "free_ok es [] f" "f < length es" "f < 2 ^ 63"
  shows "es ! f = ENone \<and> free_ok (es[f := Occupied v]) [] (f + 1)"
  using assms by (auto simp: free_ok_def nth_list_update less_Suc_eq)

lemma insert_grow:
  assumes "free_ok es [] (length es)" "length es < 2 ^ 63" "0 < n"
  shows "free_ok (es @ (replicate n ENone)[0 := Occupied v]) [] (length es + 1)"
  using assms by (auto simp: free_ok_def nth_append nth_list_update)

text \<open>A value has been stored under a key that was free.\<close>

definition stored :: "nat \<Rightarrow> 'a \<Rightarrow> 'a pin_slab \<Rightarrow> 'a pin_slab \<Rightarrow> bool" where
  "stored k v s s' \<longleftrightarrow> slab_ok s' \<and> occupant k (entries s) = None
     \<and> (\<forall>j. occupant j (entries s') = (if j = k then Some v else occupant j (entries s)))"

lemma occupant_update: "k < length es \<Longrightarrow> occupant j (es[k := Occupied v]) = (if j = k then Some v else occupant j es)"
  by (auto simp: occupant_def nth_list_update)

text \<open>A free entry of the slab is overwritten.\<close>

lemma stored_in_place:
  assumes "sizes_ok s" "k < 2 ^ 63" "calculate_key k = Some (slot, offset, len)" "slot < length (slots s)"
    and "occupant k (entries s) = None" "chain ((entries s)[k := Occupied v]) n fs f" "free_ok ((entries s)[k := Occupied v]) fs f"
    and "slab_len s + 1 + length fs = f"
  shows "stored k v s ((set_entry slot offset (Occupied v) s)\<lparr>slab_next := n, slab_len := slab_len s + 1\<rparr>)"
proof -
  let ?s = "(set_entry slot offset (Occupied v) s)\<lparr>slab_next := n, slab_len := slab_len s + 1\<rparr>"
  note place = key_place [OF assms(1-3)]
  have e: "entries ?s = (entries s)[k := Occupied v]" "sizes_ok ?s"
    using place(5) [OF assms(4), of "Occupied v"] by (simp_all add: entries_def sizes_ok_def)
  have "slab_ok ?s"
    by (rule slab_okI [of _ fs f]) (use e assms(6-8) in simp_all)
  then show ?thesis
    unfolding stored_def e(1) using place(1) assms(4,5) by (simp add: occupant_update)
qed

lemma slab_insert_grows:
  assumes "sizes_ok s" "free_ok (entries s) [] f" "f = length (entries s)" "slab_next s = f" "slab_len s = f" "f < 2 ^ 63"
  shows "\<exists>s'. slab_insert v s = Ok (Some (f, s')) \<and> stored f v s s'"
proof -
  let ?es = "entries s"
  obtain slot offset len where c: "calculate_key f = Some (slot, offset, len)"
    using calculate_key_eq [OF assms(6)] by blast
  have sl: "slot = length (slots s)" "offset = 0" "len = slot_size slot" "0 < len"
    using key_place(2,3,6) [OF assms(1,6) c] assms(3) by auto
  let ?s = "s\<lparr>slots := slots s @ [(new_slot len)[0 := Occupied v]], slab_next := f + 1, slab_len := slab_len s + 1\<rparr>"
  have e: "entries ?s = ?es @ (replicate len ENone)[0 := Occupied v]" "sizes_ok ?s"
    using assms(1) sl by (auto simp: entries_def sizes_ok_def new_slot_def nth_append less_Suc_eq)
  have "slab_ok ?s"
    by (rule slab_okI [of _ "[]" "f + 1"]) (use e insert_grow [of ?es len v] assms sl(4) in simp_all)
  moreover have "occupant j (entries ?s) = (if j = f then Some v else occupant j ?es)" for j
    unfolding e(1) using sl(4) assms(3) by (auto simp: occupant_def nth_append nth_list_update)
  ultimately have "stored f v s ?s"
    using assms(3) by (simp add: stored_def occupant_def)
  moreover have "slab_insert v s = Ok (Some (f, ?s))"
    using c sl assms(4) by (simp add: slab_insert_def insert_at_def)
  ultimately show ?thesis
    by blast
qed

lemma slab_insert_ok:
  assumes "slab_ok s"
  shows "slab_insert v s = Ok None \<and> 2 ^ 63 \<le> slab_next s
    \<or> (\<exists>k s'. slab_insert v s = Ok (Some (k, s')) \<and> stored k v s s')"
proof -
  let ?es = "entries s" and ?k = "slab_next s"
  obtain fs f where s: "sizes_ok s" "chain ?es ?k fs f" "free_ok ?es fs f" "slab_len s + length fs = f"
    using assms by (auto simp: slab_ok_def)
  show ?thesis
  proof (cases "?k < 2 ^ 63")
    case False
    then show ?thesis
      by (simp add: slab_insert_def insert_at_def calculate_key_def)
  next
    case True
    then obtain slot offset len where c: "calculate_key ?k = Some (slot, offset, len)"
      using calculate_key_eq by blast
    note place = key_place [OF s(1) True c] and here = stored_in_place [OF s(1) True c]
    show ?thesis
    proof (cases fs)
      case (Cons k ks)
      then obtain m where m: "?es ! ?k = Vacant m" "?k < length ?es" "chain (?es[?k := Occupied v]) m ks f"
        "free_ok (?es[?k := Occupied v]) ks f"
        using insert_vacant [of ?es ?k ks f v] s(2,3) by auto
      then have "slot < length (slots s)" "slots s ! slot ! offset = Vacant m" "occupant ?k ?es = None"
        using place(1,4) by (auto simp: occupant_def)
      then show ?thesis
        using here [of v m ks f] m(3,4) s(4) Cons c by (auto simp: slab_insert_def insert_at_def set_entry_def)
    next
      case Nil
      then have k: "?k = f"
        using s(2) by simp
      show ?thesis
      proof (cases "f < length ?es")
        case True
        then have "?es ! ?k = ENone" "free_ok (?es[?k := Occupied v]) [] (f + 1)"
          using insert_fresh [of ?es f v] s(3) Nil k \<open>?k < 2 ^ 63\<close> by simp_all
        moreover from this have "slot < length (slots s)" "slots s ! slot ! offset = ENone" "occupant ?k ?es = None"
          using place(1,4) True k by (auto simp: occupant_def)
        ultimately show ?thesis
          using here [of v "f + 1" "[]" "f + 1"] s(4) Nil c k by (auto simp: slab_insert_def insert_at_def set_entry_def)
      next
        case False
        then show ?thesis
          using slab_insert_grows [of s f v] s k Nil True by (auto simp: free_ok_def)
      qed
    qed
  qed
qed

lemma vacate_free:
  assumes "chain es n fs f" "free_ok es fs f" "k < length es" "es ! k = Occupied v"
  shows "chain (es[k := Vacant n]) k (k # fs) f \<and> free_ok (es[k := Vacant n]) (k # fs) f \<and> length fs < f"
proof -
  have "k \<notin> set fs"
    using chain_vacant [OF assms(1), of k] assms(4) by auto
  have "k < f"
  proof (rule ccontr)
    assume "\<not> k < f"
    then show False
      using assms(2-4) by (auto simp: free_ok_def)
  qed
  moreover have "insert k (set fs) \<subseteq> {..<f}" "distinct (k # fs)"
    using \<open>k < f\<close> \<open>k \<notin> set fs\<close> assms(2) by (auto simp: free_ok_def)
  then have "card (set (k # fs)) \<le> f" "card (set (k # fs)) = Suc (length fs)"
    using card_mono [of "{..<f}" "set (k # fs)"] distinct_card [of "k # fs"] by simp_all
  ultimately show ?thesis
    using assms \<open>k \<notin> set fs\<close> by (auto simp: free_ok_def chain_update nth_list_update)
qed

lemma slab_vacate:
  assumes "slab_ok s" "slab_get k s = Some v" "calculate_key k = Some (slot, offset, len)"
  shows "slab_ok (vacate k slot offset s)" "slab_get j (vacate k slot offset s) = (if j = k then None else slab_get j s)"
proof -
  obtain fs f where s: "sizes_ok s" "chain (entries s) (slab_next s) fs f" "free_ok (entries s) fs f" "slab_len s + length fs = f"
    using assms(1) by (auto simp: slab_ok_def)
  have k: "k < length (entries s)" "entries s ! k = Occupied v" "k < 2 ^ 63"
    using assms(2,3) slab_get_eq [OF assms(1), of k] by (auto simp: occupant_def calculate_key_def split: if_splits entry.splits)
  note place = key_place [OF s(1) k(3) assms(3)]
  let ?s = "vacate k slot offset s"
  have e: "entries ?s = (entries s)[k := Vacant (slab_next s)]" "sizes_ok ?s"
    using place(5) [of "Vacant (slab_next s)"] place(1) k(1) by (simp_all add: vacate_def entries_def sizes_ok_def)
  have n: "slab_next ?s = k"
    by (simp add: vacate_def)
  note free = vacate_free [OF s(2,3) k(1,2)]
  show ok: "slab_ok ?s"
  proof (rule slab_okI [of _ "k # fs" f])
    show "chain (entries ?s) (slab_next ?s) (k # fs) f" "free_ok (entries ?s) (k # fs) f"
      unfolding e(1) n using free by blast+
    show "slab_len ?s + length (k # fs) = f"
      using free s(4) by (simp add: vacate_def)
  qed (rule e(2))
  show "slab_get j ?s = (if j = k then None else slab_get j s)"
    using slab_get_eq [OF ok] slab_get_eq [OF assms(1)] k(1) by (simp add: e occupant_def nth_list_update)
qed

section \<open>A map with keys of its own choice\<close>

locale keyed_store =
  fixes ok :: "'s \<Rightarrow> bool" and get :: "nat \<Rightarrow> 's \<Rightarrow> 'a option"
    and ins :: "'a \<Rightarrow> 's \<Rightarrow> (nat \<times> 's) option outcome" and del :: "nat \<Rightarrow> 's \<Rightarrow> 'a option \<times> 's"
    and put :: "nat \<Rightarrow> 'a \<Rightarrow> 's \<Rightarrow> 's"
  assumes ins_cases: "ok s \<Longrightarrow> ins v s = Ok None \<or> (\<exists>k s'. ins v s = Ok (Some (k, s')))"
    and ins_ok: "ok s \<Longrightarrow> ins v s = Ok (Some (k, s')) \<Longrightarrow> ok s'"
    and ins_fresh: "ok s \<Longrightarrow> ins v s = Ok (Some (k, s')) \<Longrightarrow> get k s = None"
    and get_ins: "ok s \<Longrightarrow> ins v s = Ok (Some (k, s')) \<Longrightarrow> get j s' = (if j = k then Some v else get j s)"
    and del_ok: "ok s \<Longrightarrow> ok (snd (del k s))"
    and del_value: "ok s \<Longrightarrow> fst (del k s) = get k s"
    and get_del: "ok s \<Longrightarrow> get j (snd (del k s)) = (if j = k then None else get j s)"
    and put_ok: "ok s \<Longrightarrow> ok (put k v s)"
    and get_put: "ok s \<Longrightarrow> get j (put k v s) = (if j = k \<and> get k s \<noteq> None then Some v else get j s)"
begin

text \<open>A sequence of insertions and removals; an insertion records the key it got, a removal the value.\<close>

inductive runs :: "'s \<Rightarrow> (nat \<times> 'a option) list \<Rightarrow> 's \<Rightarrow> bool" for s0 where
  runs_nil: "runs s0 [] s0"
| runs_ins: "runs s0 xs s \<Longrightarrow> ins v s = Ok (Some (k, s')) \<Longrightarrow> runs s0 (xs @ [(k, Some v)]) s'"
| runs_del: "runs s0 xs s \<Longrightarrow> del k s = (r, s') \<Longrightarrow> runs s0 (xs @ [(k, None)]) s'"

lemma runs_ok: "runs s0 xs s \<Longrightarrow> ok s0 \<Longrightarrow> ok s"
proof (induction rule: runs.induct)
  case (runs_del xs s k r s')
  then show ?case
    using del_ok [of s k] by simp
qed (auto intro: ins_ok)

text \<open>The last record of a key decides.\<close>

lemma runs_get: "runs s0 xs s \<Longrightarrow> ok s0 \<Longrightarrow> get j s = (case map_of (rev xs) j of Some r \<Rightarrow> r | None \<Rightarrow> get j s0)"
proof (induction rule: runs.induct)
  case (runs_ins xs s v k s')
  then show ?case
    using get_ins [OF runs_ok, of s0 xs s v k s' j] by simp
next
  case (runs_del xs s k r s')
  then show ?case
    using get_del [OF runs_ok, of s0 xs s j k] by simp
qed simp

end

lemma slab_put_ok:
  assumes "slab_ok s"
  shows "slab_ok (slab_put k v s) \<and> slab_get j (slab_put k v s) = (if j = k \<and> slab_get k s \<noteq> None then Some v else slab_get j s)"
proof (cases "slab_get k s")
  case None
  then show ?thesis
    using assms by (auto simp: slab_put_def slab_get_def split: option.splits)
next
  case (Some w)
  obtain fs f where s: "sizes_ok s" "chain (entries s) (slab_next s) fs f" "free_ok (entries s) fs f" "slab_len s + length fs = f"
    using assms by (auto simp: slab_ok_def)
  obtain slot offset len where c: "calculate_key k = Some (slot, offset, len)"
    using Some by (auto simp: slab_get_def internal_get_def Option.bind_eq_Some_conv)
  have k: "k < length (entries s)" "entries s ! k = Occupied w" "k < 2 ^ 63"
    using Some c slab_get_eq [OF assms, of k] by (auto simp: occupant_def calculate_key_def split: if_splits entry.splits)
  let ?s = "set_entry slot offset (Occupied v) s"
  have e: "entries ?s = (entries s)[k := Occupied v]" "sizes_ok ?s"
    using key_place(1,5) [OF s(1) k(3) c] k(1) by simp_all
  have f: "slab_next ?s = slab_next s" "slab_len ?s = slab_len s"
    by (simp_all add: set_entry_def)
  have "k \<notin> set fs"
    using chain_vacant [OF s(2), of k] k(2) by auto
  moreover have "k < f"
    using k(1,2) s(3) by (auto simp: free_ok_def not_less [symmetric])
  ultimately have "chain (entries ?s) (slab_next ?s) fs f" "free_ok (entries ?s) fs f"
    unfolding e(1) f using s(2,3) by (auto simp: chain_update free_ok_def nth_list_update)
  then have ok: "slab_ok ?s"
    by (rule slab_okI [OF e(2)]) (simp add: f s(4))
  have "slab_put k v s = ?s"
    using c Some by (simp add: slab_put_def slab_get_def)
  then show ?thesis
    using ok Some slab_get_eq [OF ok, of j] slab_get_eq [OF assms, of j] k(1) by (simp add: e(1) occupant_update)
qed

lemma remove_unpin_eq:
  assumes "slab_ok s"
  shows "fst (remove_unpin k s) = slab_get k s" "slab_ok (snd (remove_unpin k s))"
    "slab_get j (snd (remove_unpin k s)) = (if j = k then None else slab_get j s)"
    "snd (slab_remove k s) = snd (remove_unpin k s)"
proof -
  show val: "fst (remove_unpin k s) = slab_get k s"
    by (auto simp: remove_unpin_def slab_get_def internal_get_def split: option.splits entry.splits)
  have "slab_ok (snd (remove_unpin k s)) \<and> slab_get j (snd (remove_unpin k s)) = (if j = k then None else slab_get j s)"
  proof (cases "slab_get k s")
    case None
    then have "snd (remove_unpin k s) = s"
      by (auto simp: remove_unpin_def slab_get_def internal_get_def split: option.splits entry.splits if_splits)
    then show ?thesis
      using None assms by simp
  next
    case (Some v)
    then obtain slot offset len where c: "calculate_key k = Some (slot, offset, len)"
      by (auto simp: slab_get_def internal_get_def Option.bind_eq_Some_conv)
    then have "snd (remove_unpin k s) = vacate k slot offset s"
      using Some by (simp add: remove_unpin_def slab_get_def internal_get_def split: entry.splits if_splits)
    then show ?thesis
      using slab_vacate [OF assms Some c] by simp
  qed
  then show "slab_ok (snd (remove_unpin k s))" "slab_get j (snd (remove_unpin k s)) = (if j = k then None else slab_get j s)"
    by simp_all
  show "snd (slab_remove k s) = snd (remove_unpin k s)"
    by (simp add: slab_remove_def remove_unpin_def split: option.split entry.split)
qed

interpretation slab: keyed_store slab_ok slab_get slab_insert remove_unpin slab_put
proof
  fix s s' :: "'a pin_slab" and v :: 'a and k j :: nat
  assume ok: "slab_ok s"
  show "slab_insert v s = Ok None \<or> (\<exists>k s'. slab_insert v s = Ok (Some (k, s')))"
    using slab_insert_ok [OF ok, of v] by blast
  show "slab_ok s'" "slab_get k s = None" "slab_get j s' = (if j = k then Some v else slab_get j s)"
    if "slab_insert v s = Ok (Some (k, s'))"
  proof -
    have st: "stored k v s s'"
      using slab_insert_ok [OF ok, of v] that by auto
    then show ok': "slab_ok s'" and "slab_get k s = None"
      using slab_get_eq [OF ok] by (simp_all add: stored_def)
    show "slab_get j s' = (if j = k then Some v else slab_get j s)"
      using st slab_get_eq [OF ok] slab_get_eq [OF ok'] by (simp add: stored_def)
  qed
qed (rule remove_unpin_eq conjunct1 [OF slab_put_ok] conjunct2 [OF slab_put_ok], assumption)+

text \<open>C25: the slab is a map whose keys it chooses itself. Along every sequence of insertions and removals from the empty
  slab, a key is found exactly when its last operation was an insertion, with the value inserted then; an
  insertion never panics and never hands out a key that is in use; it only fails when the keys below
  \<open>2 ^ 63\<close> are exhausted.\<close>

theorem pin_slab_is_map:
  assumes "slab.runs slab_new xs s"
  shows "(\<forall>k. slab_get k s = (case map_of (rev xs) k of Some r \<Rightarrow> r | None \<Rightarrow> None))
    \<and> (slab_insert v s = Ok None \<and> 2 ^ 63 \<le> slab_next s
       \<or> (\<exists>k s'. slab_insert v s = Ok (Some (k, s')) \<and> slab_get k s = None))"
proof -
  have ok: "slab_ok s"
    using slab.runs_ok [OF assms slab_new_ok] .
  have "slab_get k s = (case map_of (rev xs) k of Some r \<Rightarrow> r | None \<Rightarrow> None)" for k
    unfolding slab.runs_get [OF assms slab_new_ok, of k] by (simp add: slab_new_get split: option.split)
  then show ?thesis
    using slab_insert_ok [OF ok, of v] slab.ins_fresh [OF ok, of v] by blast
qed

theorem pin_slab_is_map_witness:
  "\<exists>s. slab.runs slab_new [(0, Some ''a''), (1, Some ''b''), (0, None)] s \<and> slab_get 0 s = None \<and> slab_get 1 s = Some ''b''"
proof -
  have key: "calculate_key 0 = Some (0, 0, 16)" "calculate_key 1 = Some (0, 1, 16)"
    by (simp_all add: calculate_key_def bit_length.simps FIRST_SLOT_SIZE_def)
  let ?s1 = "\<lparr>slots = [(new_slot 16)[0 := Occupied ''a'']], slab_len = 1, slab_next = 1\<rparr>"
  let ?s2 = "\<lparr>slots = [(new_slot 16)[0 := Occupied ''a'', 1 := Occupied ''b'']], slab_len = 2, slab_next = 2\<rparr>"
  have i: "slab_insert ''a'' slab_new = Ok (Some (0, ?s1))" "slab_insert ''b'' ?s1 = Ok (Some (1, ?s2))"
    using key by (simp_all add: slab_insert_def insert_at_def slab_new_def set_entry_def new_slot_def)
  have "slab.runs slab_new ((([] @ [(0, Some ''a'')]) @ [(1, Some ''b'')]) @ [(0, None)]) (snd (remove_unpin 0 ?s2))"
    by (rule slab.runs_del [OF slab.runs_ins [OF slab.runs_ins [OF slab.runs_nil i(1)] i(2)] prod.collapse [symmetric]])
  then have "slab.runs slab_new [(0, Some ''a''), (1, Some ''b''), (0, None)] (snd (remove_unpin 0 ?s2))"
    by simp
  from this pin_slab_is_map [OF this] show ?thesis
    by (intro exI [of _ "snd (remove_unpin 0 ?s2)"]) simp
qed

end
