(* ===== verification/Scheduler.thy ===== *)
theory Scheduler
  imports Pin_Slab
begin

text \<open>
  The cooperative task scheduler (\<^verbatim>\<open>scheduler/\<close>): pages of 64 tasks whose notified, completed and dropped flags are the
  bits of three words, over the pinned slab that holds the tasks. A task is any value; one poll of it is a
  function that is a parameter, as the scheduler is generic in its futures: it returns whether the task has finished,
  its new value, the new state of the world, and the calls it made to the scheduler.
\<close>

section \<open>Wakers\<close>

type_synonym u64 = "64 word"

definition fetch_or :: "u64 \<Rightarrow> u64 \<Rightarrow> u64" where
  "fetch_or v s = s OR v"

definition fetch_and :: "u64 \<Rightarrow> u64 \<Rightarrow> u64" where
  "fetch_and v s = s AND v"

definition fetch_add :: "u64 \<Rightarrow> u64 \<Rightarrow> u64 \<times> u64" where
  "fetch_add v s = (s, s + v)"

definition fetch_sub :: "u64 \<Rightarrow> u64 \<Rightarrow> u64 option \<times> u64" where
  "fetch_sub v s = (if s < v then (None, s) else (Some s, s - v))"

section \<open>Pages\<close>

record waker_page =
  wp_refcount :: u64
  wp_notified :: u64
  wp_completed :: u64
  wp_dropped :: u64

definition page_default :: waker_page where
  "page_default = \<lparr>wp_refcount = 1, wp_notified = 0, wp_completed = 0, wp_dropped = 0\<rparr>"

definition page_notify :: "nat \<Rightarrow> waker_page \<Rightarrow> waker_page" where
  "page_notify ix p = p\<lparr>wp_notified := fetch_or (push_bit ix 1) (wp_notified p)\<rparr>"

definition take_notified :: "waker_page \<Rightarrow> u64 \<times> waker_page" where
  "take_notified p = (wp_notified p AND NOT (wp_completed p) AND NOT (wp_dropped p), p\<lparr>wp_notified := 0\<rparr>)"

definition page_has_completed :: "nat \<Rightarrow> waker_page \<Rightarrow> bool" where
  "page_has_completed ix p \<longleftrightarrow> wp_completed p AND push_bit ix 1 \<noteq> 0"

definition mark_completed :: "nat \<Rightarrow> waker_page \<Rightarrow> waker_page" where
  "mark_completed ix p = p\<lparr>wp_completed := fetch_or (push_bit ix 1) (wp_completed p)\<rparr>"

definition mark_dropped :: "nat \<Rightarrow> waker_page \<Rightarrow> waker_page" where
  "mark_dropped ix p = p\<lparr>wp_dropped := fetch_or (push_bit ix 1) (wp_dropped p)\<rparr>"

definition take_dropped :: "waker_page \<Rightarrow> u64 \<times> waker_page" where
  "take_dropped p = (wp_dropped p, p\<lparr>wp_dropped := 0\<rparr>)"

definition was_dropped :: "nat \<Rightarrow> waker_page \<Rightarrow> bool" where
  "was_dropped ix p \<longleftrightarrow> wp_dropped p AND push_bit ix 1 \<noteq> 0"

definition page_initialize :: "nat \<Rightarrow> waker_page \<Rightarrow> waker_page" where
  "page_initialize ix p =
     p\<lparr>wp_notified := fetch_or (push_bit ix 1) (wp_notified p),
       wp_completed := fetch_and (NOT (push_bit ix 1)) (wp_completed p),
       wp_dropped := fetch_and (NOT (push_bit ix 1)) (wp_dropped p)\<rparr>"

definition page_clear :: "nat \<Rightarrow> waker_page \<Rightarrow> waker_page" where
  "page_clear ix p =
     p\<lparr>wp_notified := fetch_and (NOT (push_bit ix 1)) (wp_notified p),
       wp_completed := fetch_and (NOT (push_bit ix 1)) (wp_completed p),
       wp_dropped := fetch_and (NOT (push_bit ix 1)) (wp_dropped p)\<rparr>"

definition refcount_inc :: "waker_page \<Rightarrow> u64 \<times> waker_page" where
  "refcount_inc p = (case fetch_add 1 (wp_refcount p) of (old, n) \<Rightarrow> (old, p\<lparr>wp_refcount := n\<rparr>))"

definition refcount_dec :: "waker_page \<Rightarrow> u64 option \<times> waker_page" where
  "refcount_dec p = (case fetch_sub 1 (wp_refcount p) of (old, n) \<Rightarrow> (old, p\<lparr>wp_refcount := n\<rparr>))"

text \<open>A waker is the address of its page plus the number of its task; pages are aligned to their size, 64 bytes.\<close>

definition into_raw_waker_ref :: "u64 \<Rightarrow> nat \<Rightarrow> u64" where
  "into_raw_waker_ref page ix = page + of_nat ix"

definition align_offset :: "u64 \<Rightarrow> u64" where
  "align_offset p = (64 - p mod 64) mod 64"

definition waker_base_ptr :: "u64 \<Rightarrow> u64 \<times> u64" where
  "waker_base_ptr ptr =
     (let forward_offset = align_offset ptr
      in if forward_offset \<noteq> 0 then (ptr - (64 - forward_offset), 64 - forward_offset) else (ptr, 0))"

section \<open>Scheduler\<close>

record 'f scheduler =
  sc_slab :: "'f pin_slab"
  sc_pages :: "waker_page list"

definition sched_default :: "'f scheduler" where
  "sched_default = \<lparr>sc_slab = slab_new, sc_pages = []\<rparr>"

text \<open>The page of a key and the place on it; the shift and the mask of the code divide by 64.\<close>

definition page_of :: "nat \<Rightarrow> nat \<times> nat" where
  "page_of key = (key div 64, key mod 64)"

definition on_page :: "(nat \<Rightarrow> waker_page \<Rightarrow> waker_page) \<Rightarrow> nat \<Rightarrow> 'f scheduler \<Rightarrow> 'f scheduler option" where
  "on_page f key s =
     (case page_of key of (p, ix) \<Rightarrow>
        if p < length (sc_pages s) then Some (s\<lparr>sc_pages := (sc_pages s)[p := f ix (sc_pages s ! p)]\<rparr>) else None)"

text \<open>Pages are added until the key has one.\<close>

function add_pages :: "nat \<Rightarrow> waker_page list \<Rightarrow> waker_page list" where
  "add_pages key ps = (if key \<ge> length ps * 64 then add_pages key (ps @ [page_default]) else ps)"
  by pat_completeness auto

termination add_pages
  by (relation "measure (\<lambda>(key, ps). Suc key - length ps * 64)") auto

declare add_pages.simps [simp del]

text \<open>\<open>Ok None\<close>: the slab is exhausted.\<close>

definition sched_insert :: "'f \<Rightarrow> 'f scheduler \<Rightarrow> (nat \<times> 'f scheduler) option outcome" where
  "sched_insert f s =
     (case slab_insert f (sc_slab s) of
        Panic \<Rightarrow> Panic
      | Err e \<Rightarrow> Err e
      | Ok None \<Rightarrow> Ok None
      | Ok (Some (key, slab)) \<Rightarrow>
          (case on_page page_initialize key (s\<lparr>sc_slab := slab, sc_pages := add_pages key (sc_pages s)\<rparr>) of
             None \<Rightarrow> Panic
           | Some s \<Rightarrow> Ok (Some (key, s))))"

text \<open>A handle is its key: it has completed, it is dropped, or its task is taken out.\<close>

definition has_completed :: "nat \<Rightarrow> 'f scheduler \<Rightarrow> bool" where
  "has_completed key s = (case page_of key of (p, ix) \<Rightarrow> page_has_completed ix (sc_pages s ! p))"

definition handle_drop :: "nat \<Rightarrow> 'f scheduler \<Rightarrow> 'f scheduler option" where
  "handle_drop key s = on_page mark_dropped key s"

definition wake_task :: "nat \<Rightarrow> 'f scheduler \<Rightarrow> 'f scheduler option" where
  "wake_task key s = on_page page_notify key s"

definition sched_take :: "nat \<Rightarrow> 'f scheduler \<Rightarrow> ('f \<times> 'f scheduler) option" where
  "sched_take key s =
     (case page_of key of (p, ix) \<Rightarrow>
        if p < length (sc_pages s) \<and> \<not> was_dropped ix (sc_pages s ! p) then
          Option.bind (on_page page_clear key s) (\<lambda>s.
            (case remove_unpin key (sc_slab s) of
               (None, _) \<Rightarrow> None
             | (Some f, slab) \<Rightarrow> Some (f, s\<lparr>sc_slab := slab\<rparr>)))
        else None)"

definition from_raw_handle :: "nat \<Rightarrow> 'f scheduler \<Rightarrow> nat option outcome" where
  "from_raw_handle key s =
     (if slab_get key (sc_slab s) = None then Ok None
      else case page_of key of (p, _) \<Rightarrow> if p < length (sc_pages s) then Ok (Some key) else Panic)"

section \<open>Polling\<close>

datatype 'f sched_call = Wake nat | Spawn 'f | DropTask nat

text \<open>\<open>None\<close> is a panic; a task whose insertion fails is not scheduled.\<close>

fun do_call :: "'f sched_call \<Rightarrow> 'f scheduler \<Rightarrow> 'f scheduler option" where
  "do_call (Wake key) s = wake_task key s"
| "do_call (Spawn f) s =
     (case sched_insert f s of Ok (Some (_, s)) \<Rightarrow> Some s | Ok None \<Rightarrow> Some s | _ \<Rightarrow> None)"
| "do_call (DropTask key) s = handle_drop key s"

fun do_calls :: "'f sched_call list \<Rightarrow> 'f scheduler \<Rightarrow> 'f scheduler option" where
  "do_calls [] s = Some s"
| "do_calls (c # cs) s = Option.bind (do_call c s) (do_calls cs)"

type_synonym ('f, 'w) poll_fn = "nat \<Rightarrow> 'f \<Rightarrow> 'w \<Rightarrow> bool \<times> 'f \<times> 'w \<times> 'f sched_call list"

definition poll_task :: "('f, 'w) poll_fn \<Rightarrow> nat \<Rightarrow> 'f scheduler \<times> 'w \<Rightarrow> ('f scheduler \<times> 'w) option" where
  "poll_task run key sw =
     (case sw of (s, w) \<Rightarrow>
        Option.bind (slab_get key (sc_slab s)) (\<lambda>f.
          (case run key f w of (ready, f, w, calls) \<Rightarrow>
             Option.bind (do_calls calls (s\<lparr>sc_slab := slab_put key f (sc_slab s)\<rparr>)) (\<lambda>s.
               map_option (\<lambda>s. (s, w)) (if ready then on_page mark_completed key s else Some s)))))"

fun poll_tasks :: "('f, 'w) poll_fn \<Rightarrow> nat list \<Rightarrow> 'f scheduler \<times> 'w \<Rightarrow> ('f scheduler \<times> 'w) option" where
  "poll_tasks run [] sw = Some sw"
| "poll_tasks run (k # ks) sw = Option.bind (poll_task run k sw) (poll_tasks run ks)"

text \<open>\<^verbatim>\<open>BitIter\<close>: the positions of the bits that are set, in ascending order.\<close>

definition bit_iter :: "u64 \<Rightarrow> nat list" where
  "bit_iter w = filter (bit w) [0..<64]"

text \<open>The first task of a page is left alone.\<close>

fun drop_tasks :: "nat \<Rightarrow> nat list \<Rightarrow> 'f scheduler \<Rightarrow> 'f scheduler option" where
  "drop_tasks p [] s = Some s"
| "drop_tasks p (ix # ixs) s =
     (if ix \<noteq> 0
      then Option.bind (on_page page_clear (p * 64 + ix) (s\<lparr>sc_slab := snd (slab_remove (p * 64 + ix) (sc_slab s))\<rparr>)) (drop_tasks p ixs)
      else drop_tasks p ixs s)"

definition poll_page :: "('f, 'w) poll_fn \<Rightarrow> nat \<Rightarrow> 'f scheduler \<times> 'w \<Rightarrow> ('f scheduler \<times> 'w) option" where
  "poll_page run p sw =
     (case sw of (s, w) \<Rightarrow>
        if p < length (sc_pages s) then
          (case take_notified (sc_pages s ! p) of (notified, page) \<Rightarrow>
           case take_dropped page of (dropped, page) \<Rightarrow>
             Option.bind (poll_tasks run (map (\<lambda>ix. p * 64 + ix) (bit_iter notified)) (s\<lparr>sc_pages := (sc_pages s)[p := page]\<rparr>, w)) (\<lambda>(s, w).
               map_option (\<lambda>s. (s, w)) (drop_tasks p (bit_iter dropped) s)))
        else None)"

fun poll_pages :: "('f, 'w) poll_fn \<Rightarrow> nat list \<Rightarrow> 'f scheduler \<times> 'w \<Rightarrow> ('f scheduler \<times> 'w) option" where
  "poll_pages run [] sw = Some sw"
| "poll_pages run (p # ps) sw = Option.bind (poll_page run p sw) (poll_pages run ps)"

definition sched_poll :: "('f, 'w) poll_fn \<Rightarrow> 'f scheduler \<times> 'w \<Rightarrow> ('f scheduler \<times> 'w) option" where
  "sched_poll run sw = poll_pages run [0..<length (sc_pages (fst sw))] sw"

end
