(* ===== verification/Sched_Poll.thy ===== *)
theory Sched_Poll
  imports Scheduler
begin

text \<open>
  What the scheduler guarantees: a poll runs every task that is ready, once and in order, and never a finished one,
  provided that tasks only wake tasks and drop handles of tasks that are there at that moment; a task whose handle is
  dropped before its page is reached is not run. A waker that outlives its task makes the next poll abort, and
  the first task of a page survives the drop of its handle.
\<close>

section \<open>Flags of tasks\<close>

definition flag :: "(waker_page \<Rightarrow> u64) \<Rightarrow> nat \<Rightarrow> 'f scheduler \<Rightarrow> bool" where
  "flag g k s \<longleftrightarrow> k div 64 < length (sc_pages s) \<and> bit (g (sc_pages s ! (k div 64))) (k mod 64)"

abbreviation "notified \<equiv> flag wp_notified"
abbreviation "completed \<equiv> flag wp_completed"
abbreviation "dropped \<equiv> flag wp_dropped"

definition live :: "nat \<Rightarrow> 'f scheduler \<Rightarrow> bool" where
  "live k s \<longleftrightarrow> slab_get k (sc_slab s) \<noteq> None"

definition runnable :: "nat \<Rightarrow> 'f scheduler \<Rightarrow> bool" where
  "runnable k s \<longleftrightarrow> notified k s \<and> \<not> completed k s \<and> \<not> dropped k s"

lemma same_place: "k div 64 = j div 64 \<Longrightarrow> k mod 64 = j mod (64 :: nat) \<Longrightarrow> k = j"
  by (metis div_mult_mod_eq)

lemma bit_or_one: "ix < 64 \<Longrightarrow> bit (fetch_or (2 ^ ix) w) n \<longleftrightarrow> bit w n \<or> n = ix"
  by (auto simp: fetch_or_def bit_simps)

lemma bit_and_not: "ix < 64 \<Longrightarrow> bit (fetch_and (NOT (2 ^ ix)) w) n \<longleftrightarrow> bit w n \<and> n \<noteq> ix"
  using bit_imp_le_length [of w n] by (auto simp: fetch_and_def bit_simps)

lemmas page_ops = page_notify_def mark_completed_def mark_dropped_def page_initialize_def page_clear_def

lemma on_page_total: "k div 64 < length (sc_pages s) \<Longrightarrow> \<exists>s'. on_page f k s = Some s'"
  by (simp add: on_page_def page_of_def)

lemma on_page_frame:
  assumes "on_page f k s = Some s'"
  shows "sc_slab s' = sc_slab s" "length (sc_pages s') = length (sc_pages s)" "k div 64 < length (sc_pages s)"
  using assms by (auto simp: on_page_def page_of_def split: if_splits)

lemma on_page_flag:
  assumes "on_page f k s = Some s'"
    and "\<And>p ix n. ix < 64 \<Longrightarrow> bit (g (f ix p)) n = (if n = ix then b else bit (g p) n)"
  shows "flag g j s' = (if j = k then b else flag g j s)"
proof -
  have k: "k div 64 < length (sc_pages s)" "sc_pages s' = (sc_pages s)[k div 64 := f (k mod 64) (sc_pages s ! (k div 64))]"
    using assms(1) by (auto simp: on_page_def page_of_def split: if_splits)
  have m: "k mod 64 < (64 :: nat)"
    by simp
  show ?thesis
  proof (cases "j div 64 = k div 64")
    case True
    then have "j = k \<longleftrightarrow> j mod 64 = k mod 64"
      using same_place [of j k] by auto
    then show ?thesis
      using True k assms(2) [OF m] by (auto simp: flag_def nth_list_update)
  next
    case False
    then show ?thesis
      using k by (auto simp: flag_def nth_list_update)
  qed
qed

lemma on_page_same:
  assumes "on_page f k s = Some s'" "\<And>p ix. g (f ix p) = g p"
  shows "flag g j s' = flag g j s"
  using assms by (auto simp: on_page_def page_of_def flag_def nth_list_update split: if_splits)

lemma wake_flags:
  assumes "on_page page_notify k s = Some s'"
  shows "notified j s' \<longleftrightarrow> j = k \<or> notified j s" "completed j s' = completed j s" "dropped j s' = dropped j s"
  using on_page_flag [OF assms, of wp_notified True j] on_page_same [OF assms, of wp_completed j] on_page_same [OF assms, of wp_dropped j]
  by (simp_all add: page_ops bit_or_one)

lemma complete_flags:
  assumes "on_page mark_completed k s = Some s'"
  shows "completed j s' \<longleftrightarrow> j = k \<or> completed j s" "notified j s' = notified j s" "dropped j s' = dropped j s"
  using on_page_flag [OF assms, of wp_completed True j] on_page_same [OF assms, of wp_notified j] on_page_same [OF assms, of wp_dropped j]
  by (simp_all add: page_ops bit_or_one)

lemma drop_flags:
  assumes "on_page mark_dropped k s = Some s'"
  shows "dropped j s' \<longleftrightarrow> j = k \<or> dropped j s" "notified j s' = notified j s" "completed j s' = completed j s"
  using on_page_flag [OF assms, of wp_dropped True j] on_page_same [OF assms, of wp_notified j] on_page_same [OF assms, of wp_completed j]
  by (simp_all add: page_ops bit_or_one)

lemma init_flags:
  assumes "on_page page_initialize k s = Some s'"
  shows "notified j s' \<longleftrightarrow> j = k \<or> notified j s" "completed j s' \<longleftrightarrow> j \<noteq> k \<and> completed j s" "dropped j s' \<longleftrightarrow> j \<noteq> k \<and> dropped j s"
  using on_page_flag [OF assms, of wp_notified True j] on_page_flag [OF assms, of wp_completed False j] on_page_flag [OF assms, of wp_dropped False j]
  by (simp_all add: page_ops bit_or_one bit_and_not)

lemma clear_flags:
  assumes "on_page page_clear k s = Some s'"
  shows "notified j s' \<longleftrightarrow> j \<noteq> k \<and> notified j s" "completed j s' \<longleftrightarrow> j \<noteq> k \<and> completed j s" "dropped j s' \<longleftrightarrow> j \<noteq> k \<and> dropped j s"
  using on_page_flag [OF assms, of wp_notified False j] on_page_flag [OF assms, of wp_completed False j] on_page_flag [OF assms, of wp_dropped False j]
  by (simp_all add: page_ops bit_and_not)

section \<open>Invariant\<close>

text \<open>A task has a page; what is ready to run or has been dropped is there.\<close>

definition sched_ok :: "'f scheduler \<Rightarrow> bool" where
  "sched_ok s \<longleftrightarrow> slab_ok (sc_slab s) \<and> (\<forall>k. live k s \<longrightarrow> k div 64 < length (sc_pages s))
     \<and> (\<forall>k. runnable k s \<longrightarrow> live k s) \<and> (\<forall>k. dropped k s \<longrightarrow> live k s)"

lemma add_pages_spec: "\<exists>n. add_pages k ps = ps @ replicate n page_default \<and> k div 64 < length (add_pages k ps)"
proof (induction k ps rule: add_pages.induct)
  case (1 k ps)
  show ?case
  proof (cases "k \<ge> length ps * 64")
    case True
    then obtain n where "add_pages k (ps @ [page_default]) = (ps @ [page_default]) @ replicate n page_default"
      "k div 64 < length (add_pages k (ps @ [page_default]))"
      using 1 by blast
    moreover have "add_pages k ps = add_pages k (ps @ [page_default])"
      using True by (subst add_pages.simps) simp
    ultimately show ?thesis
      by (intro exI [of _ "Suc n"]) simp
  next
    case False
    then have "add_pages k ps = ps"
      by (subst add_pages.simps) simp
    then show ?thesis
      using False by (intro exI [of _ 0]) (simp add: div_less_iff_less_mult)
  qed
qed

lemma add_pages_flag:
  assumes "g page_default = 0"
  shows "flag g j (s\<lparr>sc_slab := x, sc_pages := add_pages k (sc_pages s)\<rparr>) = flag g j s"
proof -
  obtain n where "add_pages k (sc_pages s) = sc_pages s @ replicate n page_default"
    using add_pages_spec by blast
  then show ?thesis
    using assms by (auto simp: flag_def nth_append)
qed

lemma sched_insert_ok:
  assumes "sched_ok s"
  shows "sched_insert f s = Ok None \<or> (\<exists>k s'. sched_insert f s = Ok (Some (k, s')) \<and> sched_ok s' \<and> \<not> live k s
    \<and> length (sc_pages s) \<le> length (sc_pages s')
    \<and> (\<forall>j. slab_get j (sc_slab s') = (if j = k then Some f else slab_get j (sc_slab s)))
    \<and> (\<forall>j. notified j s' \<longleftrightarrow> j = k \<or> notified j s) \<and> (\<forall>j. completed j s' \<longleftrightarrow> j \<noteq> k \<and> completed j s)
    \<and> (\<forall>j. dropped j s' = dropped j s))"
proof (cases "slab_insert f (sc_slab s) = Ok None")
  case True
  then show ?thesis
    by (simp add: sched_insert_def)
next
  case False
  have ok: "slab_ok (sc_slab s)"
    using assms by (simp add: sched_ok_def)
  then obtain k slab where i: "slab_insert f (sc_slab s) = Ok (Some (k, slab))"
    using False slab.ins_cases [of "sc_slab s" f] by blast
  note sl = slab.ins_ok [OF ok i] slab.ins_fresh [OF ok i] slab.get_ins [OF ok i]
  let ?s = "s\<lparr>sc_slab := slab, sc_pages := add_pages k (sc_pages s)\<rparr>"
  have "k div 64 < length (sc_pages ?s)"
    using add_pages_spec [of k "sc_pages s"] by auto
  then obtain s' where s': "on_page page_initialize k ?s = Some s'"
    using on_page_total by blast
  note fr = on_page_frame [OF s']
  have len: "length (sc_pages s) \<le> length (sc_pages s')" "k div 64 < length (sc_pages s')"
    using fr(2,3) add_pages_spec [of k "sc_pages s"] by auto
  have new: "notified j ?s = notified j s" "completed j ?s = completed j s" "dropped j ?s = dropped j s" for j
    by (rule add_pages_flag, simp add: page_default_def)+
  note fl = init_flags [OF s', unfolded new]
  have nd: "\<not> dropped k s"
    using assms sl(2) by (auto simp: sched_ok_def live_def)
  have lv: "live j s' \<longleftrightarrow> j = k \<or> live j s" for j
    using sl(3) fr(1) by (simp add: live_def)
  have "sched_ok s'"
    using assms sl(1) fr(1) len lv fl unfolding sched_ok_def runnable_def
    by (auto intro: less_le_trans)
  then show ?thesis
    using i s' sl(2,3) fr(1) len(1) fl nd by (auto simp: sched_insert_def live_def)
qed

section \<open>Polling\<close>

text \<open>The calls of a task to the scheduler concern tasks that are there at the time of the call: a waker wakes a task that has
  not been removed, a handle is dropped while its task is there. This is followed through the calls of one task and
  the tasks of a poll.\<close>

fun call_known :: "'f sched_call \<Rightarrow> 'f scheduler \<Rightarrow> bool" where
  "call_known (Wake k) s = live k s"
| "call_known (Spawn f) s = True"
| "call_known (DropTask k) s = live k s"

fun calls_known :: "'f sched_call list \<Rightarrow> 'f scheduler \<Rightarrow> bool" where
  "calls_known [] s = True"
| "calls_known (c # cs) s = (call_known c s \<and> (case do_call c s of None \<Rightarrow> True | Some s \<Rightarrow> calls_known cs s))"

definition task_known :: "('f, 'w) poll_fn \<Rightarrow> nat \<Rightarrow> 'f scheduler \<times> 'w \<Rightarrow> bool" where
  "task_known run k sw =
     (case sw of (s, w) \<Rightarrow>
        (case slab_get k (sc_slab s) of
           None \<Rightarrow> True
         | Some f \<Rightarrow> (case run k f w of (_, f, _, calls) \<Rightarrow> calls_known calls (s\<lparr>sc_slab := slab_put k f (sc_slab s)\<rparr>))))"

fun tasks_known :: "('f, 'w) poll_fn \<Rightarrow> nat list \<Rightarrow> 'f scheduler \<times> 'w \<Rightarrow> bool" where
  "tasks_known run [] sw = True"
| "tasks_known run (k # ks) sw =
     (task_known run k sw \<and> (case poll_task run k sw of None \<Rightarrow> True | Some sw \<Rightarrow> tasks_known run ks sw))"

definition page_keys :: "nat \<Rightarrow> 'f scheduler \<Rightarrow> nat list" where
  "page_keys p s = map (\<lambda>ix. p * 64 + ix) (bit_iter (fst (take_notified (sc_pages s ! p))))"

definition page_taken :: "nat \<Rightarrow> 'f scheduler \<Rightarrow> 'f scheduler" where
  "page_taken p s = s\<lparr>sc_pages := (sc_pages s)[p := (sc_pages s ! p)\<lparr>wp_notified := 0, wp_dropped := 0\<rparr>]\<rparr>"

definition page_known :: "('f, 'w) poll_fn \<Rightarrow> nat \<Rightarrow> 'f scheduler \<times> 'w \<Rightarrow> bool" where
  "page_known run p sw = tasks_known run (page_keys p (fst sw)) (page_taken p (fst sw), snd sw)"

fun pages_known :: "('f, 'w) poll_fn \<Rightarrow> nat list \<Rightarrow> 'f scheduler \<times> 'w \<Rightarrow> bool" where
  "pages_known run [] sw = True"
| "pages_known run (p # ps) sw =
     (page_known run p sw \<and> (case poll_page run p sw of None \<Rightarrow> True | Some sw \<Rightarrow> pages_known run ps sw))"

definition poll_known :: "('f, 'w) poll_fn \<Rightarrow> 'f scheduler \<times> 'w \<Rightarrow> bool" where
  "poll_known run sw = pages_known run [0..<length (sc_pages (fst sw))] sw"

text \<open>A poll function that also records which tasks are polled, with the calls they make.\<close>

type_synonym 'f poll_log = "(nat \<times> 'f sched_call list) list"

definition traced :: "('f, 'w) poll_fn \<Rightarrow> ('f, 'w \<times> 'f poll_log) poll_fn" where
  "traced run k f wt = (case run k f (fst wt) of (ready, f, w, calls) \<Rightarrow> (ready, f, (w, snd wt @ [(k, calls)]), calls))"

definition drops :: "'f sched_call list \<Rightarrow> nat set" where
  "drops cs = {k. DropTask k \<in> set cs}"

definition log_drops :: "'f poll_log \<Rightarrow> nat set" where
  "log_drops T = (\<Union>x\<in>set T. drops (snd x))"

lemma drops_simps [simp]: "drops [] = {}" "drops (Wake k # cs) = drops cs" "drops (Spawn f # cs) = drops cs"
  "drops (DropTask k # cs) = insert k (drops cs)"
  by (auto simp: drops_def)

lemma drops_Cons: "drops (c # cs) = drops [c] \<union> drops cs"
  by (auto simp: drops_def)

lemma log_drops_simps [simp]: "log_drops [] = {}" "log_drops (x # T) = drops (snd x) \<union> log_drops T" "log_drops (T @ T') = log_drops T \<union> log_drops T'"
  by (auto simp: log_drops_def)

text \<open>How the tasks of a scheduler develop while others are polled: those in \<open>K\<close> may finish, the handles of those in \<open>D\<close> may
  be dropped, none disappears and no notification is lost.\<close>

definition develops :: "nat set \<Rightarrow> nat set \<Rightarrow> 'f scheduler \<Rightarrow> 'f scheduler \<Rightarrow> bool" where
  "develops K D s s' \<longleftrightarrow> length (sc_pages s) \<le> length (sc_pages s')
     \<and> (\<forall>k. live k s \<longrightarrow> live k s' \<and> (notified k s \<longrightarrow> notified k s') \<and> (dropped k s \<longrightarrow> dropped k s')
          \<and> (k \<notin> D \<longrightarrow> dropped k s' = dropped k s) \<and> (k \<notin> K \<longrightarrow> completed k s' = completed k s))"

lemma develops_refl: "develops K D s s"
  by (simp add: develops_def)

lemma develops_trans: "develops K D s s1 \<Longrightarrow> develops K' D' s1 s2 \<Longrightarrow> develops (K \<union> K') (D \<union> D') s s2"
  unfolding develops_def by (auto intro: order_trans)

lemma do_call_ok:
  assumes "sched_ok s" "call_known c s"
  shows "\<exists>s'. do_call c s = Some s' \<and> sched_ok s' \<and> develops {} (drops [c]) s s'"
proof (cases c)
  case (Wake k)
  then have k: "live k s" "k div 64 < length (sc_pages s)"
    using assms by (auto simp: sched_ok_def)
  then obtain s' where s': "on_page page_notify k s = Some s'"
    using on_page_total by blast
  note fr = on_page_frame [OF s'] and fl = wake_flags [OF s']
  have lv: "live j s' = live j s" for j
    using fr(1) by (simp add: live_def)
  show ?thesis
    using assms(1) k s' fr fl lv Wake by (auto simp: wake_task_def sched_ok_def develops_def runnable_def)
next
  case (DropTask k)
  then have k: "live k s" "k div 64 < length (sc_pages s)"
    using assms by (auto simp: sched_ok_def)
  then obtain s' where s': "on_page mark_dropped k s = Some s'"
    using on_page_total by blast
  note fr = on_page_frame [OF s'] and fl = drop_flags [OF s']
  have lv: "live j s' = live j s" for j
    using fr(1) by (simp add: live_def)
  show ?thesis
    using assms(1) k s' fr fl lv DropTask by (auto simp: handle_drop_def sched_ok_def develops_def runnable_def)
next
  case (Spawn f)
  show ?thesis
  proof (cases "sched_insert f s = Ok None")
    case True
    then show ?thesis
      using Spawn assms(1) by (simp add: develops_refl)
  next
    case False
    then obtain k s' where i: "sched_insert f s = Ok (Some (k, s'))" "sched_ok s'" "\<not> live k s"
      "length (sc_pages s) \<le> length (sc_pages s')"
      "\<forall>j. slab_get j (sc_slab s') = (if j = k then Some f else slab_get j (sc_slab s))"
      "\<forall>j. notified j s' \<longleftrightarrow> j = k \<or> notified j s" "\<forall>j. completed j s' \<longleftrightarrow> j \<noteq> k \<and> completed j s"
      "\<forall>j. dropped j s' = dropped j s"
      using sched_insert_ok [OF assms(1), of f] by blast
    then have "develops {} {} s s'"
      by (auto simp: develops_def live_def)
    then show ?thesis
      using i Spawn by auto
  qed
qed

lemma do_calls_ok:
  assumes "sched_ok s" "calls_known cs s"
  shows "\<exists>s'. do_calls cs s = Some s' \<and> sched_ok s' \<and> develops {} (drops cs) s s'"
  using assms
proof (induction cs arbitrary: s)
  case (Cons c cs)
  then obtain s1 where s1: "do_call c s = Some s1" "sched_ok s1" "develops {} (drops [c]) s s1"
    using do_call_ok [of s c] by auto
  moreover obtain s2 where "do_calls cs s1 = Some s2" "sched_ok s2" "develops {} (drops cs) s1 s2"
    using Cons.IH [OF s1(2)] Cons.prems(2) s1(1) by auto
  ultimately show ?case
    using develops_trans [of "{}" "drops [c]" s s1 "{}" "drops cs" s2] by (simp add: drops_Cons [of c cs])
qed (simp add: develops_refl)

lemma sched_put_ok:
  assumes "sched_ok s"
  shows "sched_ok (s\<lparr>sc_slab := slab_put k f (sc_slab s)\<rparr>)" "develops {} {} s (s\<lparr>sc_slab := slab_put k f (sc_slab s)\<rparr>)"
proof -
  let ?s = "s\<lparr>sc_slab := slab_put k f (sc_slab s)\<rparr>"
  have ok: "slab_ok (sc_slab s)"
    using assms by (simp add: sched_ok_def)
  have "live j ?s = live j s" "flag g j ?s = flag g j s" for j g
    using slab.get_put [OF ok, of j k f] by (auto simp: live_def flag_def)
  then show "sched_ok ?s" "develops {} {} s ?s"
    using assms slab.put_ok [OF ok, of k f] by (auto simp: sched_ok_def runnable_def develops_def)
qed

lemma complete_ok:
  assumes "sched_ok s" "live k s"
  shows "\<exists>s'. on_page mark_completed k s = Some s' \<and> sched_ok s' \<and> develops {k} {} s s'"
proof -
  obtain s' where s': "on_page mark_completed k s = Some s'"
    using assms on_page_total [of k s mark_completed] by (auto simp: sched_ok_def)
  note fr = on_page_frame [OF s'] and fl = complete_flags [OF s']
  have "live j s' = live j s" for j
    using fr(1) by (simp add: live_def)
  then show ?thesis
    using assms s' fr fl by (auto simp: sched_ok_def runnable_def develops_def)
qed

lemma poll_task_ok:
  assumes "sched_ok s" "live k s" "task_known (traced run) k (s, w, t)"
  shows "\<exists>s' w' cs. poll_task (traced run) k (s, w, t) = Some (s', w', t @ [(k, cs)]) \<and> sched_ok s' \<and> develops {k} (drops cs) s s'"
proof -
  obtain f where f: "slab_get k (sc_slab s) = Some f"
    using assms(2) by (auto simp: live_def)
  obtain ready f' w' calls where r: "run k f w = (ready, f', w', calls)"
    using prod_cases4 by blast
  let ?s = "s\<lparr>sc_slab := slab_put k f' (sc_slab s)\<rparr>"
  have calls: "calls_known calls ?s"
    using assms(3) f r by (simp add: task_known_def traced_def)
  note put = sched_put_ok [OF assms(1), of k f']
  obtain s1 where s1: "do_calls calls ?s = Some s1" "sched_ok s1" "develops {} (drops calls) ?s s1"
    using do_calls_ok [OF put(1) calls] by blast
  have d: "develops {} (drops calls) s s1"
    using develops_trans [OF put(2) s1(3)] by simp
  then have "live k s1"
    using assms(2) by (simp add: develops_def)
  then obtain s2 where "on_page mark_completed k s1 = Some s2" "sched_ok s2" "develops {k} {} s1 s2"
    using complete_ok [OF s1(2)] by blast
  then show ?thesis
    using f r s1 d develops_trans [OF d, of "{k}" "{}" s2]
    by (cases ready) (auto simp: poll_task_def traced_def develops_def)
qed

lemma poll_tasks_ok:
  assumes "sched_ok s" "\<forall>k\<in>set ks. live k s" "tasks_known (traced run) ks (s, w, t)"
  shows "\<exists>s' w' T. poll_tasks (traced run) ks (s, w, t) = Some (s', w', t @ T) \<and> map fst T = ks \<and> sched_ok s'
    \<and> develops (set ks) (log_drops T) s s'"
  using assms
proof (induction ks arbitrary: s w t)
  case (Cons k ks)
  then obtain s1 w1 cs where s1: "poll_task (traced run) k (s, w, t) = Some (s1, w1, t @ [(k, cs)])" "sched_ok s1" "develops {k} (drops cs) s s1"
    using poll_task_ok [OF Cons.prems(1), of k run w t] by auto
  have "\<forall>k\<in>set ks. live k s1" "tasks_known (traced run) ks (s1, w1, t @ [(k, cs)])"
    using Cons.prems(2,3) s1(1,3) by (auto simp: develops_def)
  then obtain s2 w2 T where "poll_tasks (traced run) ks (s1, w1, t @ [(k, cs)]) = Some (s2, w2, (t @ [(k, cs)]) @ T)" "map fst T = ks"
    "sched_ok s2" "develops (set ks) (log_drops T) s1 s2"
    using Cons.IH [OF s1(2)] by blast
  then show ?case
    using s1 develops_trans [OF s1(3), of "set ks" "log_drops T" s2]
    by (intro exI [of _ s2] exI [of _ w2] exI [of _ "(k, cs) # T"]) simp
qed (simp add: develops_refl)

text \<open>Tasks of other pages are not touched by the removal of dropped ones, and develop while a page is polled.\<close>

definition elsewhere :: "nat \<Rightarrow> nat set \<Rightarrow> 'f scheduler \<Rightarrow> 'f scheduler \<Rightarrow> bool" where
  "elsewhere p D s s' \<longleftrightarrow> length (sc_pages s) \<le> length (sc_pages s')
     \<and> (\<forall>k. k div 64 \<noteq> p \<longrightarrow> live k s \<longrightarrow>
          live k s' \<and> (notified k s \<longrightarrow> notified k s') \<and> (dropped k s \<longrightarrow> dropped k s')
          \<and> (k \<notin> D \<longrightarrow> dropped k s' = dropped k s) \<and> completed k s' = completed k s)"

lemma elsewhere_trans: "elsewhere p D s s1 \<Longrightarrow> elsewhere p D' s1 s2 \<Longrightarrow> elsewhere p (D \<union> D') s s2"
  unfolding elsewhere_def by (auto intro: order_trans)

lemma remove_ok:
  assumes "sched_ok s" "k div 64 = p" "p < length (sc_pages s)"
  shows "\<exists>s'. on_page page_clear k (s\<lparr>sc_slab := snd (slab_remove k (sc_slab s))\<rparr>) = Some s' \<and> sched_ok s' \<and> elsewhere p {} s s'
    \<and> length (sc_pages s') = length (sc_pages s)"
proof -
  have ok: "slab_ok (sc_slab s)"
    using assms(1) by (simp add: sched_ok_def)
  let ?s = "s\<lparr>sc_slab := snd (slab_remove k (sc_slab s))\<rparr>"
  obtain s' where s': "on_page page_clear k ?s = Some s'"
    using on_page_total [of k ?s] assms(2,3) by auto
  note fr = on_page_frame [OF s'] and fl = clear_flags [OF s']
  have fl': "flag g j ?s = flag g j s" for g j
    by (simp add: flag_def)
  have lv: "live j s' \<longleftrightarrow> j \<noteq> k \<and> live j s" for j
    using fr(1) remove_unpin_eq(3) [OF ok, of j k] remove_unpin_eq(4) [OF ok, of k] by (simp add: live_def)
  have "slab_ok (sc_slab s')"
    using fr(1) remove_unpin_eq(2) [OF ok, of k] remove_unpin_eq(4) [OF ok, of k] by simp
  then have "sched_ok s'"
    using assms fr(2) fl lv unfolding sched_ok_def runnable_def fl' by auto
  moreover have "elsewhere p {} s s'"
    using assms(2) fr(2) fl lv unfolding elsewhere_def fl' by auto
  ultimately show ?thesis
    using s' fr(2) by auto
qed

lemma drop_tasks_ok:
  assumes "sched_ok s" "\<forall>ix\<in>set ixs. ix < 64" "p < length (sc_pages s)"
  shows "\<exists>s'. drop_tasks p ixs s = Some s' \<and> sched_ok s' \<and> elsewhere p {} s s'"
  using assms
proof (induction ixs arbitrary: s)
  case (Cons ix ixs)
  show ?case
  proof (cases "ix = 0")
    case True
    then show ?thesis
      using Cons.IH [OF Cons.prems(1)] Cons.prems(2,3) by auto
  next
    case False
    have k: "(p * 64 + ix) div 64 = p"
      using Cons.prems(2) by auto
    obtain s1 where s1: "on_page page_clear (p * 64 + ix) (s\<lparr>sc_slab := snd (slab_remove (p * 64 + ix) (sc_slab s))\<rparr>) = Some s1"
      "sched_ok s1" "elsewhere p {} s s1" "length (sc_pages s1) = length (sc_pages s)"
      using remove_ok [OF Cons.prems(1) k Cons.prems(3)] by blast
    moreover obtain s2 where "drop_tasks p ixs s1 = Some s2" "sched_ok s2" "elsewhere p {} s1 s2"
      using Cons.IH [OF s1(2)] Cons.prems(2,3) s1(4) by auto
    ultimately show ?thesis
      using False elsewhere_trans [of p "{}" s s1 "{}" s2] by auto
  qed
qed (simp add: elsewhere_def)

lemma set_bit_iter: "set (bit_iter w) = {ix. bit w ix}"
  using bit_imp_le_length [of w] by (auto simp: bit_iter_def)

lemma set_page_keys:
  assumes "p < length (sc_pages s)"
  shows "set (page_keys p s) = {k. k div 64 = p \<and> runnable k s}"
proof -
  let ?w = "fst (take_notified (sc_pages s ! p))"
  have b: "bit ?w ix \<longleftrightarrow> ix < 64 \<and> runnable (p * 64 + ix) s" for ix
    using bit_imp_le_length [of "wp_notified (sc_pages s ! p)" ix] assms
    by (auto simp: take_notified_def runnable_def flag_def bit_simps)
  have "k \<in> set (page_keys p s) \<longleftrightarrow> k div 64 = p \<and> runnable k s" for k
  proof -
    have "k \<in> set (page_keys p s) \<longleftrightarrow> (\<exists>ix<64. k = p * 64 + ix \<and> runnable k s)"
      by (auto simp: page_keys_def set_bit_iter b)
    also have "\<dots> \<longleftrightarrow> k div 64 = p \<and> runnable k s"
      by (auto intro!: exI [of _ "k mod 64"])
    finally show ?thesis .
  qed
  then show ?thesis
    by blast
qed

lemma sorted_page_keys: "sorted_wrt (<) (page_keys p s)"
  by (simp add: page_keys_def sorted_wrt_map bit_iter_def sorted_wrt_filter)

lemma page_taken_flags:
  assumes "p < length (sc_pages s)"
  shows "notified k (page_taken p s) \<longleftrightarrow> k div 64 \<noteq> p \<and> notified k s" "dropped k (page_taken p s) \<longleftrightarrow> k div 64 \<noteq> p \<and> dropped k s"
    "completed k (page_taken p s) = completed k s" "live k (page_taken p s) = live k s"
    "length (sc_pages (page_taken p s)) = length (sc_pages s)"
  using assms by (auto simp: page_taken_def flag_def live_def nth_list_update)

lemma poll_page_ok:
  assumes "sched_ok s" "page_known (traced run) p (s, w, t)" "p < length (sc_pages s)"
  shows "\<exists>s' w' T. poll_page (traced run) p (s, w, t) = Some (s', w', t @ T) \<and> map fst T = page_keys p s \<and> sched_ok s'
    \<and> elsewhere p (log_drops T) s s'"
proof -
  let ?s1 = "page_taken p s"
  note fl = page_taken_flags [OF assms(3)]
  have ok1: "sched_ok ?s1"
    using assms(1) fl unfolding sched_ok_def runnable_def by (auto simp: page_taken_def)
  have "\<forall>k\<in>set (page_keys p s). live k ?s1"
    using set_page_keys [OF assms(3)] assms(1) fl(4) by (auto simp: sched_ok_def)
  then obtain s2 w2 T where s2: "poll_tasks (traced run) (page_keys p s) (?s1, w, t) = Some (s2, w2, t @ T)" "map fst T = page_keys p s"
    "sched_ok s2" "develops (set (page_keys p s)) (log_drops T) ?s1 s2"
    using poll_tasks_ok [OF ok1, of "page_keys p s" run w t] assms(2) by (auto simp: page_known_def)
  let ?d = "bit_iter (wp_dropped (sc_pages s ! p))"
  have "\<forall>ix\<in>set ?d. ix < 64" "p < length (sc_pages s2)"
    using assms(3) fl(5) s2(4) by (auto simp: bit_iter_def develops_def)
  then obtain s3 where s3: "drop_tasks p ?d s2 = Some s3" "sched_ok s3" "elsewhere p {} s2 s3"
    using drop_tasks_ok [OF s2(3), of ?d p] by blast
  have "poll_page (traced run) p (s, w, t) = Some (s3, w2, t @ T)"
    using assms(3) s2(1) s3(1) by (simp add: poll_page_def take_notified_def take_dropped_def page_keys_def page_taken_def)
  moreover have "elsewhere p (log_drops T) s s2"
    using s2(4) fl set_page_keys [OF assms(3)] unfolding develops_def elsewhere_def by auto
  ultimately show ?thesis
    using s2(2) s3 elsewhere_trans [of p "log_drops T" s s2 "{}" s3] by auto
qed

text \<open>The tasks a poll runs, given the pages it visits. A task that was ready is run unless a task of an earlier page has
  dropped its handle.\<close>

definition dropped_before :: "nat \<Rightarrow> 'f poll_log \<Rightarrow> bool" where
  "dropped_before k T \<longleftrightarrow> (\<exists>(j, cs)\<in>set T. j div 64 < k div 64 \<and> DropTask k \<in> set cs)"

definition fair_trace :: "nat list \<Rightarrow> 'f scheduler \<Rightarrow> 'f poll_log \<Rightarrow> bool" where
  "fair_trace ps s T \<longleftrightarrow> sorted_wrt (<) (map fst T) \<and> (\<forall>k\<in>fst ` set T. k div 64 \<in> set ps)
     \<and> (\<forall>k. k div 64 \<in> set ps \<longrightarrow> runnable k s \<longrightarrow> \<not> dropped_before k T \<longrightarrow> k \<in> fst ` set T)
     \<and> (\<forall>k\<in>fst ` set T. live k s \<longrightarrow> \<not> completed k s \<and> \<not> dropped k s)"

lemma fair_trace_Cons:
  assumes "fair_trace ps s1 T" "elsewhere p (log_drops P) s s1" "sched_ok s" "sorted_wrt (<) (p # ps)" "p < length (sc_pages s)"
    and P: "map fst P = page_keys p s"
  shows "fair_trace (p # ps) s (P @ T)"
proof -
  have pk: "k \<in> fst ` set P \<longleftrightarrow> k div 64 = p \<and> runnable k s" for k
    using set_page_keys [OF assms(5)] P by (metis (mono_tags, lifting) list.set_map mem_Collect_eq)
  have T: "p < k div 64" if "k \<in> fst ` set T" for k
    using assms(1,4) that by (auto simp: fair_trace_def)
  have lt: "k < j" if "k \<in> fst ` set P" "j \<in> fst ` set T" for k j
  proof -
    have "k div 64 < j div 64"
      using that(1) T [OF that(2)] by (simp add: pk)
    then show ?thesis
      using div_le_mono [of j k 64] by (meson leD not_le)
  qed
  have "sorted_wrt (<) (map fst (P @ T))"
    using sorted_page_keys [of p s] assms(1) lt unfolding sorted_wrt_append map_append fair_trace_def P [symmetric]
    by (simp only: list.set_map) blast
  moreover have "k \<in> fst ` set T" if k: "k div 64 \<in> set ps" "runnable k s" "\<not> dropped_before k (P @ T)" for k
  proof -
    have "p < k div 64"
      using k(1) assms(4) by simp
    have "k \<notin> log_drops P"
    proof
      assume "k \<in> log_drops P"
      then obtain j cs where j: "(j, cs) \<in> set P" "DropTask k \<in> set cs"
        by (auto simp: log_drops_def drops_def)
      then have "j div 64 = p"
        using pk [of j] by (metis fst_conv image_eqI)
      then show False
        using j k(3) \<open>p < k div 64\<close> unfolding dropped_before_def by fastforce
    qed
    then have "runnable k s1"
      using \<open>p < k div 64\<close> k(2) assms(2,3) by (auto simp: elsewhere_def sched_ok_def runnable_def)
    then show ?thesis
      using assms(1) k(1,3) by (auto simp: fair_trace_def dropped_before_def)
  qed
  moreover have "\<not> completed k s \<and> \<not> dropped k s" if "k \<in> fst ` set T" "live k s" for k
    using T [OF that(1)] that assms(1,2) by (auto simp: elsewhere_def fair_trace_def)
  moreover have "\<forall>k\<in>fst ` set T. k div 64 \<in> set ps"
    using assms(1) by (simp add: fair_trace_def)
  moreover have "\<forall>k\<in>fst ` set P. k div 64 = p \<and> \<not> completed k s \<and> \<not> dropped k s"
    using pk by (simp add: runnable_def)
  moreover have "k \<in> fst ` set P" if "k div 64 = p" "runnable k s" for k
    using that pk by simp
  ultimately show ?thesis
    unfolding fair_trace_def set_append image_Un ball_Un list.set by blast
qed

lemma poll_pages_ok:
  assumes "sched_ok s" "pages_known (traced run) ps (s, w, t)" "sorted_wrt (<) ps" "\<forall>p\<in>set ps. p < length (sc_pages s)"
  shows "\<exists>s' w' T. poll_pages (traced run) ps (s, w, t) = Some (s', w', t @ T) \<and> sched_ok s' \<and> fair_trace ps s T"
  using assms
proof (induction ps arbitrary: s w t)
  case (Cons p ps)
  obtain s1 w1 P where s1: "poll_page (traced run) p (s, w, t) = Some (s1, w1, t @ P)" "map fst P = page_keys p s" "sched_ok s1"
    "elsewhere p (log_drops P) s s1"
    using poll_page_ok [OF Cons.prems(1), of run p w t] Cons.prems(2,4) by auto
  have "pages_known (traced run) ps (s1, w1, t @ P)" "\<forall>p\<in>set ps. p < length (sc_pages s1)"
    using Cons.prems(2,4) s1(1,4) by (auto simp: elsewhere_def intro: less_le_trans)
  then obtain s2 w2 T where "poll_pages (traced run) ps (s1, w1, t @ P) = Some (s2, w2, (t @ P) @ T)" "sched_ok s2" "fair_trace ps s1 T"
    using Cons.IH [OF s1(3), of w1 "t @ P"] Cons.prems(3) by auto
  moreover from this have "fair_trace (p # ps) s (P @ T)"
    using fair_trace_Cons [OF _ s1(4) Cons.prems(1,3) _ s1(2)] Cons.prems(4) by simp
  ultimately show ?case
    using s1(1) by auto
qed (simp add: fair_trace_def)

text \<open>C24: a poll is total and fair. When every call of a task to wake a task or to drop a handle concerns a task that is in
  the scheduler at that moment, whether it was there before the poll or has been spawned in it, the poll does not abort;
  the tasks it runs come in the order of their keys, each at most once; every task that was ready when the poll began is
  among them, unless its handle is dropped during the poll by a task of an earlier page; and no task that had finished or
  whose handle had been dropped is run. The scheduler stays well formed.\<close>

theorem poll_fair:
  assumes "sched_ok s" "poll_known (traced run) (s, w, [])"
  shows "\<exists>s' w' T. sched_poll (traced run) (s, w, []) = Some (s', w', T) \<and> sched_ok s'
    \<and> sorted_wrt (<) (map fst T) \<and> (\<forall>k. runnable k s \<longrightarrow> \<not> dropped_before k T \<longrightarrow> k \<in> fst ` set T)
    \<and> (\<forall>k\<in>fst ` set T. live k s \<longrightarrow> \<not> completed k s \<and> \<not> dropped k s)"
proof -
  obtain s' w' T where "sched_poll (traced run) (s, w, []) = Some (s', w', T)" "sched_ok s'" "fair_trace [0..<length (sc_pages s)] s T"
    using poll_pages_ok [OF assms(1), of run "[0..<length (sc_pages s)]" w "[]"] assms(2) by (auto simp: sched_poll_def poll_known_def)
  then show ?thesis
    by (auto simp: fair_trace_def runnable_def flag_def)
qed

section \<open>Dropped tasks\<close>

definition idle :: "'f scheduler \<Rightarrow> bool" where
  "idle s \<longleftrightarrow> (\<forall>pg\<in>set (sc_pages s). wp_notified pg = 0 \<and> wp_dropped pg = 0)"

lemma poll_idle_pages:
  assumes "\<forall>p\<in>set ps. p < length (sc_pages s) \<and> wp_notified (sc_pages s ! p) = 0 \<and> wp_dropped (sc_pages s ! p) = 0"
  shows "poll_pages run ps (s, w) = Some (s, w)"
  using assms
proof (induction ps)
  case (Cons p ps)
  have "(sc_pages s)[p := (sc_pages s ! p)\<lparr>wp_notified := 0, wp_dropped := 0\<rparr>] = sc_pages s"
    using Cons.prems by (simp add: list_update_same_conv)
  then have "poll_page run p (s, w) = Some (s, w)"
    using Cons.prems by (simp add: poll_page_def take_notified_def take_dropped_def bit_iter_def)
  then show ?case
    using Cons by simp
qed simp

lemma poll_pages_append: "poll_pages run (ps @ qs) sw = Option.bind (poll_pages run ps sw) (poll_pages run qs)"
  by (induction ps arbitrary: sw) (simp_all split: Option.bind_split)

text \<open>A poll that finds one page to work on.\<close>

lemma sched_poll_one_page:
  assumes "p < length (sc_pages s)"
    and "\<And>q. q < length (sc_pages s) \<Longrightarrow> q \<noteq> p \<Longrightarrow> wp_notified (sc_pages s ! q) = 0 \<and> wp_dropped (sc_pages s ! q) = 0"
    and "\<And>s' w'. poll_page run p (s, w) = Some (s', w') \<Longrightarrow> length (sc_pages s') = length (sc_pages s)
      \<and> (\<forall>q. q \<noteq> p \<longrightarrow> sc_pages s' ! q = sc_pages s ! q)"
  shows "sched_poll run (s, w) = poll_page run p (s, w)"
proof -
  let ?n = "length (sc_pages s)"
  have "[0..<?n] = [0..<p] @ [p] @ [Suc p..<?n]"
    using assms(1) upt_add_eq_append [of 0 p "?n - p"] upt_conv_Cons [of p ?n] by simp
  moreover have "poll_pages run [0..<p] (s, w) = Some (s, w)"
    using assms(1,2) by (intro poll_idle_pages) auto
  moreover have "poll_pages run [Suc p..<?n] sw = Some sw" if sw: "poll_page run p (s, w) = Some sw" for sw
  proof -
    obtain s' w' where "sw = (s', w')"
      by (cases sw)
    then show ?thesis
      using assms(2) assms(3) [of s' w'] sw by (auto intro!: poll_idle_pages)
  qed
  ultimately show ?thesis
    by (cases "poll_page run p (s, w)") (simp_all add: sched_poll_def poll_pages_append)
qed

lemma bit_iter_one: "ix < 64 \<Longrightarrow> bit_iter (2 ^ ix) = [ix]"
proof -
  assume "ix < 64"
  then have "[0..<64] = [0..<ix] @ [ix] @ [Suc ix..<64]"
    using upt_add_eq_append [of 0 ix "64 - ix"] upt_conv_Cons [of ix 64] by simp
  then show ?thesis
    using \<open>ix < 64\<close> by (auto simp: bit_iter_def bit_simps filter_empty_conv)
qed

text \<open>The next poll after a drop, and one after a wake of a task that is gone.\<close>

lemma poll_dropped:
  assumes "sched_ok s" "idle s" "live k s" "handle_drop k s = Some s1"
  shows "\<exists>s2. sched_poll run (s1, w) = Some (s2, w) \<and> (live k s2 \<longleftrightarrow> k mod 64 = 0) \<and> idle s2
    \<and> length (sc_pages s2) = length (sc_pages s) \<and> (k mod 64 \<noteq> 0 \<longrightarrow> \<not> completed k s2)"
proof -
  let ?p = "k div 64" and ?ix = "k mod 64"
  let ?pg = "sc_pages s ! ?p"
  have p: "?p < length (sc_pages s)"
    using assms(1,3) by (simp add: sched_ok_def)
  have z: "wp_notified (sc_pages s ! q) = 0" "wp_dropped (sc_pages s ! q) = 0" if "q < length (sc_pages s)" for q
    using assms(2) that by (auto simp: idle_def)
  have s1: "s1 = s\<lparr>sc_pages := (sc_pages s)[?p := mark_dropped ?ix ?pg]\<rparr>"
    using assms(4) p by (simp add: handle_drop_def on_page_def page_of_def)
  have ok: "slab_ok (sc_slab s)"
    using assms(1) by (simp add: sched_ok_def)
  define s' where "s' = s\<lparr>sc_pages := (sc_pages s)[?p := ?pg\<lparr>wp_notified := 0, wp_dropped := 0\<rparr>]\<rparr>"
  have same: "s' = s"
    using p z [OF p] by (simp add: s'_def list_update_same_conv)
  define s2 where "s2 = (if ?ix = 0 then s
    else s\<lparr>sc_slab := snd (slab_remove k (sc_slab s)), sc_pages := (sc_pages s)[?p := page_clear ?ix ?pg]\<rparr>)"
  have "wp_dropped (mark_dropped ?ix ?pg) = 2 ^ ?ix" "wp_notified (mark_dropped ?ix ?pg) = 0"
    using z [OF p] by (simp_all add: mark_dropped_def fetch_or_def)
  moreover have "(mark_dropped ?ix ?pg)\<lparr>wp_notified := 0, wp_dropped := 0\<rparr> = ?pg\<lparr>wp_notified := 0, wp_dropped := 0\<rparr>"
    by (simp add: mark_dropped_def)
  ultimately have "poll_page run ?p (s1, w) = map_option (\<lambda>s. (s, w)) (drop_tasks ?p [?ix] s')"
    using p by (simp add: poll_page_def take_notified_def take_dropped_def s1 s'_def bit_iter_one bit_iter_def [of 0])
  moreover have "drop_tasks ?p [?ix] s = Some s2"
    using p by (simp add: on_page_def page_of_def s2_def)
  ultimately have pp: "poll_page run ?p (s1, w) = Some (s2, w)"
    by (simp add: same)
  have "length (sc_pages s2) = length (sc_pages s1)" "\<forall>q. q \<noteq> ?p \<longrightarrow> sc_pages s2 ! q = sc_pages s1 ! q"
    by (simp_all add: s1 s2_def)
  moreover have "?p < length (sc_pages s1)"
    using p by (simp add: s1)
  moreover have "wp_notified (sc_pages s1 ! q) = 0 \<and> wp_dropped (sc_pages s1 ! q) = 0"
    if "q < length (sc_pages s1)" "q \<noteq> ?p" for q
    using z [of q] that by (simp add: s1)
  ultimately have "sched_poll run (s1, w) = poll_page run ?p (s1, w)"
    using pp by (intro sched_poll_one_page) simp_all
  then have "sched_poll run (s1, w) = Some (s2, w)"
    using pp by simp
  moreover have "live k s2 \<longleftrightarrow> ?ix = 0"
    using assms(3) remove_unpin_eq(3) [OF ok, of k k] remove_unpin_eq(4) [OF ok, of k] by (simp add: live_def s2_def)
  moreover have "idle s2"
    using assms(2) z [OF p] set_update_subset_insert [of "sc_pages s" ?p "page_clear ?ix ?pg"]
    by (auto simp: s2_def idle_def page_clear_def fetch_and_def)
  moreover have "length (sc_pages s2) = length (sc_pages s)" "?ix \<noteq> 0 \<longrightarrow> \<not> completed k s2"
    using bit_and_not [of ?ix] by (auto simp: s2_def flag_def page_clear_def)
  ultimately show ?thesis
    by (intro exI [of _ s2] conjI)
qed

lemma poll_stale:
  assumes "idle s" "\<not> live k s" "\<not> completed k s" "k div 64 < length (sc_pages s)" "wake_task k s = Some s1"
  shows "sched_poll run (s1, w) = None"
proof -
  let ?p = "k div 64" and ?ix = "k mod 64"
  let ?pg = "sc_pages s ! ?p"
  have z: "wp_notified (sc_pages s ! q) = 0" "wp_dropped (sc_pages s ! q) = 0" if "q < length (sc_pages s)" for q
    using assms(1) that by (auto simp: idle_def)
  have s1: "s1 = s\<lparr>sc_pages := (sc_pages s)[?p := page_notify ?ix ?pg]\<rparr>"
    using assms(4,5) by (simp add: wake_task_def on_page_def page_of_def)
  have c: "\<not> bit (wp_completed ?pg) ?ix"
    using assms(3,4) by (simp add: flag_def)
  have "bit (2 ^ ?ix AND NOT (wp_completed ?pg)) n \<longleftrightarrow> bit (2 ^ ?ix :: u64) n" if "n < 64" for n
    using c that by (auto simp: bit_simps)
  then have "2 ^ ?ix AND NOT (wp_completed ?pg) = (2 ^ ?ix :: u64)"
    by (intro bit_word_eqI) simp
  then have "fst (take_notified (page_notify ?ix ?pg)) = 2 ^ ?ix"
    using z [OF assms(4)] by (simp add: take_notified_def page_notify_def fetch_or_def)
  then have "poll_page run ?p (s1, w) = None"
    using assms(2,4) by (simp add: poll_page_def s1 split_def bit_iter_one poll_task_def live_def)
  then show ?thesis
    using sched_poll_one_page [of ?p s1 run w] assms(4) z by (simp add: s1)
qed

text \<open>what becomes of a task whose handle is dropped. The next poll removes it from the scheduler unless it is the first
  task of its page, which stays; and once it is removed, a waker that still refers to it makes the poll after
  that abort.\<close>

theorem dropped_task:
  assumes "sched_ok s" "idle s" "live k s"
  shows "\<exists>s1 s2 s3. handle_drop k s = Some s1 \<and> sched_poll run (s1, w) = Some (s2, w) \<and> (live k s2 \<longleftrightarrow> k mod 64 = 0)
    \<and> wake_task k s2 = Some s3 \<and> (k mod 64 \<noteq> 0 \<longrightarrow> sched_poll run (s3, w) = None)"
proof -
  have p: "k div 64 < length (sc_pages s)"
    using assms(1,3) by (simp add: sched_ok_def)
  then obtain s1 where s1: "handle_drop k s = Some s1"
    using on_page_total [of k s mark_dropped] by (auto simp: handle_drop_def)
  then obtain s2 where s2: "sched_poll run (s1, w) = Some (s2, w)" "live k s2 \<longleftrightarrow> k mod 64 = 0" "idle s2"
    "length (sc_pages s2) = length (sc_pages s)" "k mod 64 \<noteq> 0 \<longrightarrow> \<not> completed k s2"
    using poll_dropped [OF assms s1, of run w] by (elim exE conjE) (rule that)
  then obtain s3 where "wake_task k s2 = Some s3"
    using on_page_total [of k s2 page_notify] p by (auto simp: wake_task_def)
  then show ?thesis
    using s1 s2 p poll_stale [OF s2(3), of k s3 run w] by auto
qed

text \<open>Two tasks on a page, before their first poll and after it; the second wakes the first, spawns a third, wakes
  it and drops its handle, and finishes.\<close>

definition demo_sched :: "u64 \<Rightarrow> nat scheduler" where
  "demo_sched n =
     \<lparr>sc_slab = \<lparr>slots = [(new_slot 16)[0 := Occupied 3, 1 := Occupied 4]], slab_len = 2, slab_next = 2\<rparr>,
      sc_pages = [page_default\<lparr>wp_notified := n\<rparr>]\<rparr>"

definition demo_run :: "(nat, nat) poll_fn" where
  "demo_run k f w = (if k = 1 then (True, f, w + f, [Wake 0, Spawn 7, Wake 2, DropTask 2]) else (False, f, w + f, []))"

lemma demo_insert: "\<exists>s1. sched_insert 3 sched_default = Ok (Some (0, s1)) \<and> sched_insert 4 s1 = Ok (Some (1, demo_sched 3))"
proof -
  have key: "calculate_key 0 = Some (0, 0, 16)" "calculate_key 1 = Some (0, 1, 16)"
    by (simp_all add: calculate_key_def bit_length.simps FIRST_SLOT_SIZE_def)
  let ?s1 = "\<lparr>sc_slab = \<lparr>slots = [(new_slot 16)[0 := Occupied 3]], slab_len = 1, slab_next = 1\<rparr>,
    sc_pages = [page_default\<lparr>wp_notified := 1\<rparr>]\<rparr>"
  have pages: "add_pages 0 [] = [page_default]" "add_pages 1 [p] = [p]" for p
    by (simp_all add: add_pages.simps)
  note defs = sched_insert_def slab_insert_def insert_at_def set_entry_def new_slot_def on_page_def page_of_def
    page_initialize_def fetch_or_def fetch_and_def
  have "sched_insert 3 sched_default = Ok (Some (0, ?s1))"
    by (simp add: defs key pages sched_default_def slab_new_def page_default_def)
  moreover have "sched_insert 4 ?s1 = Ok (Some (1, demo_sched 3))"
    using key(2) pages(2) by (simp add: defs demo_sched_def page_default_def)
  ultimately show ?thesis
    by blast
qed

lemma sched_default_ok: "sched_ok sched_default"
  by (simp add: sched_ok_def sched_default_def slab_new_ok slab_new_get live_def runnable_def flag_def)

lemma demo_sched_ok: "sched_ok (demo_sched 3)" "live 0 (demo_sched 3)" "live 1 (demo_sched 3)"
proof -
  obtain s1 where s1: "sched_insert 3 sched_default = Ok (Some (0, s1))" "sched_insert 4 s1 = Ok (Some (1, demo_sched 3))"
    using demo_insert by blast
  then have ok: "sched_ok s1" "\<forall>j. slab_get j (sc_slab s1) = (if j = 0 then Some 3 else slab_get j (sc_slab sched_default))"
    using sched_insert_ok [OF sched_default_ok, of "3 :: nat"] by auto
  then have "sched_ok (demo_sched 3)" "\<forall>j. slab_get j (sc_slab (demo_sched 3)) = (if j = 1 then Some 4 else slab_get j (sc_slab s1))"
    using s1(2) sched_insert_ok [OF ok(1), of 4] by auto
  then show "sched_ok (demo_sched 3)" "live 0 (demo_sched 3)" "live 1 (demo_sched 3)"
    using ok(2) by (simp_all add: live_def)
qed

lemma demo_spawn:
  assumes "sc_slab s = \<lparr>slots = [(new_slot 16)[0 := Occupied x, 1 := Occupied y]], slab_len = 2, slab_next = 2\<rparr>" "length (sc_pages s) = 1"
  shows "\<exists>s'. sched_insert f s = Ok (Some (2, s'))"
proof -
  have key: "calculate_key 2 = Some (0, 2, 16)"
    by (simp add: calculate_key_def bit_length.simps FIRST_SLOT_SIZE_def)
  have "add_pages 2 (sc_pages s) = sc_pages s"
    using assms(2) by (simp add: add_pages.simps)
  then show ?thesis
    using assms key
    by (simp add: sched_insert_def slab_insert_def insert_at_def set_entry_def new_slot_def on_page_def page_of_def)
qed

lemma demo_known: "poll_known (traced demo_run) (demo_sched 3, 0, [])"
proof -
  let ?s = "page_taken 0 (demo_sched 3)"
  have keys: "page_keys 0 (demo_sched 3) = [0, 1]"
  proof -
    have "bit_iter 3 = [0, 1]"
      by (simp add: bit_iter_def upt_rec [of _ 64] bit_simps)
    then show ?thesis
      by (simp add: page_keys_def demo_sched_def take_notified_def page_default_def)
  qed
  have key: "calculate_key 0 = Some (0, 0, 16)" "calculate_key 1 = Some (0, 1, 16)"
    by (simp_all add: calculate_key_def bit_length.simps FIRST_SLOT_SIZE_def)
  have get: "slab_get 0 (sc_slab ?s) = Some 3" "slab_get 1 (sc_slab ?s) = Some 4"
    and put: "slab_put 0 3 (sc_slab ?s) = sc_slab ?s" "slab_put 1 4 (sc_slab ?s) = sc_slab ?s"
    using key by (simp_all add: slab_get_def slab_put_def internal_get_def set_entry_def page_taken_def demo_sched_def new_slot_def
        list_update_swap)
  have one: "length (sc_pages ?s) = 1" "sched_ok ?s"
    using demo_sched_ok(1) page_taken_flags [of 0 "demo_sched 3"] unfolding sched_ok_def runnable_def
    by (auto simp: page_taken_def demo_sched_def)
  obtain s1 where s1: "wake_task 0 ?s = Some s1" "sched_ok s1" "sc_slab s1 = sc_slab ?s" "length (sc_pages s1) = 1"
    using do_call_ok [OF one(2), of "Wake 0"] get(1) one(1) by (fastforce simp: live_def wake_task_def dest: on_page_frame(1,2))
  obtain s2 where s2: "sched_insert 7 s1 = Ok (Some (2, s2))"
    using demo_spawn [of s1 3 4 7] s1(3,4) by (auto simp: page_taken_def demo_sched_def)
  then have "sched_ok s2" "live 2 s2"
    using sched_insert_ok [OF s1(2), of 7] by (auto simp: live_def)
  moreover from this obtain s3 where "wake_task 2 s2 = Some s3" "sched_ok s3" "live 2 s3"
    using do_call_ok [of s2 "Wake 2"] by (auto simp: develops_def)
  ultimately have "calls_known [Wake 0, Spawn 7, Wake 2, DropTask 2] ?s"
    using s1(1) s2 get(1) by (auto simp: live_def split: option.split)
  then show ?thesis
    using get put keys
    by (simp add: poll_known_def page_known_def task_known_def poll_task_def traced_def demo_run_def demo_sched_def [of 3, THEN arg_cong [of _ _ "\<lambda>s. length (sc_pages s)"]]
        split: option.split)
qed

theorem poll_fair_witness:
  "\<exists>s' w' T. sched_poll (traced demo_run) (demo_sched 3, 0, []) = Some (s', w', T) \<and> sched_ok s' \<and> sorted_wrt (<) (map fst T)
    \<and> 0 \<in> fst ` set T"
proof -
  have fl: "notified 0 (demo_sched 3)" "\<not> completed k (demo_sched 3)" "\<not> dropped k (demo_sched 3)" for k
    by (auto simp: flag_def demo_sched_def page_default_def nth_Cons')
  have "\<not> dropped_before 0 T" for T
    by (auto simp: dropped_before_def)
  moreover have "runnable 0 (demo_sched 3)"
    using fl by (simp add: runnable_def)
  ultimately show ?thesis
    using poll_fair [OF demo_sched_ok(1) demo_known] by blast
qed

theorem dropped_task_witness:
  "\<exists>s1 s2 s3. handle_drop 1 (demo_sched 0) = Some s1 \<and> sched_poll demo_run (s1, 0) = Some (s2, 0) \<and> \<not> live 1 s2
    \<and> wake_task 1 s2 = Some s3 \<and> sched_poll demo_run (s3, 0) = None"
proof -
  have lv: "live k (demo_sched 0) = live k (demo_sched 3)" for k
    by (simp add: live_def demo_sched_def)
  have fl: "\<not> notified k (demo_sched 0)" "\<not> dropped k (demo_sched 0)" for k
    by (auto simp: flag_def demo_sched_def page_default_def nth_Cons')
  have "sched_ok (demo_sched 0)"
    using demo_sched_ok(1) fl lv unfolding sched_ok_def runnable_def by (auto simp: demo_sched_def)
  moreover have "idle (demo_sched 0)"
    by (simp add: idle_def demo_sched_def page_default_def)
  ultimately show ?thesis
    using dropped_task [of "demo_sched 0" 1 demo_run 0] demo_sched_ok(3) lv by auto
qed

section \<open>Wakers as pointers\<close>

text \<open>The pointer of a waker splits again into its page and its task, for pages aligned to their size.\<close>

lemma waker_base_ptr_inverse:
  assumes "page mod 64 = 0" "ix < 64"
  shows "waker_base_ptr (into_raw_waker_ref page ix) = (page, of_nat ix)"
proof -
  have le: "(of_nat ix :: u64) < 64" and ix: "uint (of_nat ix :: u64) = int ix"
    using assms(2) by (simp_all add: word_less_nat_alt unat_of_nat uint_nat)
  have "uint page mod 64 = 0"
    using arg_cong [OF assms(1), of uint] by (simp add: uint_mod)
  then have "(uint page + int ix) mod 64 = int ix"
    using assms(2) mod_add_left_eq [of "uint page" 64 "int ix"] by simp
  then have "uint ((page + of_nat ix) mod 64) = int ix"
    by (simp add: uint_mod uint_word_ariths ix mod_mod_cancel)
  then have off: "(page + of_nat ix) mod 64 = of_nat ix"
    using ix by (simp add: word_uint_eq_iff)
  show ?thesis
  proof (cases "ix = 0")
    case True
    then show ?thesis
      using assms(1) by (simp add: waker_base_ptr_def into_raw_waker_ref_def align_offset_def)
  next
    case False
    then have "(of_nat ix :: u64) \<noteq> 0"
      using assms(2) by (simp add: unat_eq_zero [symmetric] unat_of_nat)
    then have "64 - of_nat ix < (64 :: u64)" "64 - of_nat ix \<noteq> (0 :: u64)"
      using le by (auto simp: word_less_nat_alt unat_sub word_le_nat_alt unat_gt_0)
    then show ?thesis
      by (simp add: waker_base_ptr_def into_raw_waker_ref_def align_offset_def off mod_word_less)
  qed
qed

end
