(* ===== verification/Ring_Buffer.thy ===== *)
theory Ring_Buffer
  imports Pin_Slab
begin

text \<open>
  The ring buffer of one writer and one reader (\<^verbatim>\<open>collections/ring.rs\<close>) over a fixed array (\<^verbatim>\<open>collections/raw_array.rs\<close>).
  Call by call it implements a bounded queue. The single loads and stores of a writer and a reader in two threads are
  modelled as well: as long as they take effect in program order nothing is lost or reordered, but the code asks for
  \<^verbatim>\<open>Ordering::Relaxed\<close>, which allows the index to become visible before the item, and then the reader gets what was in
  the array before.
\<close>

unbundle bit_operations_syntax

section \<open>Definitions\<close>

subsection \<open>Raw arrays\<close>

record 'a raw_array =
  arr_data :: "'a list"
  arr_managed :: bool

definition ISIZE_MAX :: nat where
  "ISIZE_MAX = 2 ^ 63 - 1"

text \<open>The bytes that an allocation or a caller provides are a parameter; the capacity is their length.\<close>

definition arr_new :: "nat \<Rightarrow> nat \<Rightarrow> 'a list \<Rightarrow> 'a raw_array outcome" where
  "arr_new size_of_t cap memory =
     (if cap = 0 then Err (fail_new EINVAL ''cannot create a raw array with zero capacity'')
      else if ISIZE_MAX < cap * size_of_t then Err (fail_new EAGAIN ''failed to create memory layout for raw array'')
      else Ok \<lparr>arr_data = take cap memory, arr_managed = True\<rparr>)"

definition arr_from_raw_parts :: "nat \<Rightarrow> nat \<Rightarrow> 'a list \<Rightarrow> 'a raw_array outcome" where
  "arr_from_raw_parts ptr len memory =
     (if len = 0 then Err (fail_new EINVAL ''cannot create a raw array with zero capacity'')
      else if ptr = 0 then Err (fail_new EAGAIN ''cannot create raw array from null pointer'')
      else Ok \<lparr>arr_data = take len memory, arr_managed = False\<rparr>)"

definition arr_capacity :: "'a raw_array \<Rightarrow> nat" where
  "arr_capacity a = length (arr_data a)"

subsection \<open>Ring buffers\<close>

record 'a ring =
  rg_back :: nat
  rg_front :: nat
  rg_buffer :: "'a raw_array"
  rg_mask :: nat
  rg_managed :: bool

definition ilog2 :: "nat \<Rightarrow> nat" where
  "ilog2 n = bit_length n - 1"

definition is_power_of_two :: "nat \<Rightarrow> bool" where
  "is_power_of_two n \<longleftrightarrow> n \<noteq> 0 \<and> n = 2 ^ ilog2 n"

definition ring_new :: "nat \<Rightarrow> nat \<Rightarrow> 'a list \<Rightarrow> 'a ring outcome" where
  "ring_new size_of_t capacity memory =
     (if \<not> is_power_of_two capacity
      then Err (fail_new EINVAL ''cannot create a ring buffer that does not have a power of two capacity'')
      else bind_out (arr_new size_of_t capacity memory) (\<lambda>buffer.
        Ok \<lparr>rg_back = 0, rg_front = 0, rg_buffer = buffer, rg_mask = capacity - 1, rg_managed = True\<rparr>))"

text \<open>How far an address is from the next multiple; the code's \<^verbatim>\<open>align_offset\<close> panics unless the alignment is a power of two.\<close>

definition align_up :: "nat \<Rightarrow> nat \<Rightarrow> nat" where
  "align_up ptr align = (align - ptr mod align) mod align"

definition size_of_usize :: nat where
  "size_of_usize = 8"

text \<open>A region of memory at \<open>ptr\<close>: the indices stored in its first two words, and the items from the aligned address on.\<close>

definition ring_from_raw_parts :: "bool \<Rightarrow> nat \<Rightarrow> nat \<Rightarrow> nat \<Rightarrow> nat \<Rightarrow> nat \<Rightarrow> 'a list \<Rightarrow> 'a ring outcome" where
  "ring_from_raw_parts init ptr sz size_of_t front back memory =
     (if ptr = 0 then Err (fail_new EINVAL ''cannot construct a ring buffer from a null pointer'')
      else if align_up ptr size_of_usize \<noteq> 0
      then Err (fail_new EINVAL ''cannot construct a ring buffer from a unaligned memory region'')
      else if \<not> is_power_of_two size_of_t then Panic
      else let padding = align_up (ptr + size_of_usize + size_of_usize) size_of_t;
               size_of_ring = size_of_usize + size_of_usize + padding
           in if sz < size_of_ring + size_of_t
              then Err (fail_new EINVAL ''memory region is too small to fit in a ring buffer'')
              else let len = 2 ^ ilog2 ((sz - size_of_ring) div size_of_t)
                   in bind_out (arr_from_raw_parts (ptr + size_of_ring) len memory) (\<lambda>buffer.
                        Ok \<lparr>rg_back = (if init then 0 else back), rg_front = (if init then 0 else front),
                            rg_buffer = buffer, rg_mask = len - 1, rg_managed = False\<rparr>))"

definition ring_capacity :: "'a ring \<Rightarrow> nat" where
  "ring_capacity r = arr_capacity (rg_buffer r) - 1"

definition next_index :: "'a ring \<Rightarrow> nat \<Rightarrow> nat" where
  "next_index r i = (i + 1) AND rg_mask r"

definition is_full :: "'a ring \<Rightarrow> bool" where
  "is_full r \<longleftrightarrow> next_index r (rg_back r) = rg_front r"

definition is_empty :: "'a ring \<Rightarrow> bool" where
  "is_empty r \<longleftrightarrow> rg_back r = rg_front r"

definition write_item :: "nat \<Rightarrow> 'a \<Rightarrow> 'a ring \<Rightarrow> 'a ring option" where
  "write_item i x r =
     (if i < arr_capacity (rg_buffer r) then Some (r\<lparr>rg_buffer := (rg_buffer r)\<lparr>arr_data := (arr_data (rg_buffer r))[i := x]\<rparr>\<rparr>) else None)"

definition read_item :: "nat \<Rightarrow> 'a ring \<Rightarrow> 'a option" where
  "read_item i r = (if i < arr_capacity (rg_buffer r) then Some (arr_data (rg_buffer r) ! i) else None)"

text \<open>\<open>None\<close> is an index out of range; the item comes back when the ring is full.\<close>

definition try_enqueue :: "'a \<Rightarrow> 'a ring \<Rightarrow> ('a option \<times> 'a ring) option" where
  "try_enqueue x r =
     (if next_index r (rg_back r) = rg_front r then Some (Some x, r)
      else map_option (\<lambda>r'. (None, r'\<lparr>rg_back := next_index r (rg_back r)\<rparr>)) (write_item (rg_back r) x r))"

definition try_dequeue :: "'a ring \<Rightarrow> ('a option \<times> 'a ring) option" where
  "try_dequeue r =
     (if rg_back r = rg_front r then Some (None, r)
      else map_option (\<lambda>x. (Some x, r\<lparr>rg_front := next_index r (rg_front r)\<rparr>)) (read_item (rg_front r) r))"

text \<open>The calls that spin until they succeed; alone on a ring they do not return when the first attempt fails.\<close>

partial_function (option) ring_enqueue :: "'a \<Rightarrow> 'a ring \<Rightarrow> 'a ring option" where
  "ring_enqueue x r =
     (case try_enqueue x r of
        None \<Rightarrow> None
      | Some (None, r') \<Rightarrow> Some r'
      | Some (Some _, r') \<Rightarrow> ring_enqueue x r')"

partial_function (option) ring_dequeue :: "'a ring \<Rightarrow> ('a \<times> 'a ring) option" where
  "ring_dequeue r =
     (case try_dequeue r of
        None \<Rightarrow> None
      | Some (Some x, r') \<Rightarrow> Some (x, r')
      | Some (None, r') \<Rightarrow> ring_dequeue r')"

section \<open>Indices modulo the capacity\<close>

definition gap :: "nat \<Rightarrow> nat \<Rightarrow> nat \<Rightarrow> nat" where
  "gap c f b = (if f \<le> b then b - f else b + c - f)"

definition succ_mod :: "nat \<Rightarrow> nat \<Rightarrow> nat" where
  "succ_mod c i = (if Suc i = c then 0 else Suc i)"

lemma succ_mod_less: "i < c \<Longrightarrow> succ_mod c i < c"
  by (simp add: succ_mod_def)

lemma gap_basics:
  assumes "f < c" "b < c"
  shows "gap c f b < c" "gap c f b = 0 \<longleftrightarrow> f = b" "(f + gap c f b) mod c = b"
  using assms by (auto simp: gap_def)

lemma gap_back:
  assumes "f < c" "b < c"
  shows "succ_mod c b \<noteq> f \<longleftrightarrow> Suc (gap c f b) < c" "succ_mod c b \<noteq> f \<Longrightarrow> gap c f (succ_mod c b) = Suc (gap c f b)"
  using assms by (auto simp: gap_def succ_mod_def)

lemma gap_front: "f < c \<Longrightarrow> b < c \<Longrightarrow> f \<noteq> b \<Longrightarrow> Suc (gap c (succ_mod c f) b) = gap c f b"
  by (auto simp: gap_def succ_mod_def)

lemma place_inj:
  fixes c :: nat
  assumes "f < c" "i < c" "j < c" "(f + i) mod c = (f + j) mod c"
  shows "i = j"
proof -
  have "(f + k) mod c = (if f + k < c then f + k else f + k - c)" if "k < c" for k
    using assms(1) that by (simp add: mod_if [of "f + k"])
  then show ?thesis
    using assms by (auto split: if_splits)
qed

lemma succ_mod_place: "f < c \<Longrightarrow> (succ_mod c f + i) mod c = (f + Suc i) mod c"
proof (cases "Suc f = c")
  case True
  then have "f + Suc i = c + i"
    by simp
  then show ?thesis
    using True by (simp only: succ_mod_def mod_add_self1) simp
qed (simp add: succ_mod_def)

section \<open>A ring as a queue\<close>

definition ring_ok :: "'a ring \<Rightarrow> bool" where
  "ring_ok r \<longleftrightarrow> is_power_of_two (arr_capacity (rg_buffer r)) \<and> rg_mask r = arr_capacity (rg_buffer r) - 1
     \<and> rg_front r < arr_capacity (rg_buffer r) \<and> rg_back r < arr_capacity (rg_buffer r)"

definition items_from :: "'a ring \<Rightarrow> nat \<Rightarrow> nat \<Rightarrow> 'a list" where
  "items_from r f n = map (\<lambda>i. arr_data (rg_buffer r) ! ((f + i) mod arr_capacity (rg_buffer r))) [0..<n]"

definition items :: "'a ring \<Rightarrow> 'a list" where
  "items r = items_from r (rg_front r) (gap (arr_capacity (rg_buffer r)) (rg_front r) (rg_back r))"

lemma next_index_succ:
  assumes "ring_ok r" "i < arr_capacity (rg_buffer r)"
  shows "next_index r i = succ_mod (arr_capacity (rg_buffer r)) i"
proof -
  let ?c = "arr_capacity (rg_buffer r)"
  obtain k where k: "?c = 2 ^ k"
    using assms(1) by (auto simp: ring_ok_def is_power_of_two_def)
  then have "rg_mask r = mask k"
    using assms(1) by (simp add: ring_ok_def mask_eq_exp_minus_1)
  then have "next_index r i = Suc i mod ?c"
    using k by (simp add: next_index_def take_bit_eq_mask [symmetric] take_bit_eq_mod)
  then show ?thesis
    using assms(2) by (auto simp: succ_mod_def)
qed

lemma items_simps: "length (items_from r f n) = n" "i < n \<Longrightarrow> items_from r f n ! i = arr_data (rg_buffer r) ! ((f + i) mod arr_capacity (rg_buffer r))"
  by (simp_all add: items_from_def)

lemma items_from_Suc: "items_from r f (Suc n) = items_from r f n @ [arr_data (rg_buffer r) ! ((f + n) mod arr_capacity (rg_buffer r))]"
  by (simp add: items_from_def)

lemma items_from_cons:
  assumes "f < arr_capacity (rg_buffer r)"
  shows "items_from r f (Suc n) = arr_data (rg_buffer r) ! f # items_from r (succ_mod (arr_capacity (rg_buffer r)) f) n"
proof (rule nth_equalityI)
  show "items_from r f (Suc n) ! i = (arr_data (rg_buffer r) ! f # items_from r (succ_mod (arr_capacity (rg_buffer r)) f) n) ! i"
    if "i < length (items_from r f (Suc n))" for i
    using that assms by (cases i) (simp_all add: items_simps succ_mod_place)
qed (simp add: items_simps)

text \<open>Writing the first free place changes nothing that is stored.\<close>

lemma write_item_ok:
  assumes "ring_ok r"
  shows "\<exists>r'. write_item (rg_back r) x r = Some r' \<and> ring_ok r' \<and> rg_front r' = rg_front r \<and> rg_back r' = rg_back r
    \<and> arr_capacity (rg_buffer r') = arr_capacity (rg_buffer r) \<and> rg_mask r' = rg_mask r
    \<and> arr_data (rg_buffer r') = (arr_data (rg_buffer r))[rg_back r := x] \<and> items r' = items r"
proof -
  let ?c = "arr_capacity (rg_buffer r)" and ?f = "rg_front r" and ?b = "rg_back r"
  let ?r' = "r\<lparr>rg_buffer := (rg_buffer r)\<lparr>arr_data := (arr_data (rg_buffer r))[?b := x]\<rparr>\<rparr>"
  have fb: "?f < ?c" "?b < ?c"
    using assms by (simp_all add: ring_ok_def)
  have "?b \<noteq> (?f + i) mod ?c" if "i < gap ?c ?f ?b" for i
    using place_inj [of ?f ?c i "gap ?c ?f ?b"] gap_basics [OF fb] fb that by auto
  then have "items ?r' = items r"
    by (auto simp: items_def items_from_def arr_capacity_def)
  then show ?thesis
    using assms fb by (auto simp: write_item_def ring_ok_def arr_capacity_def)
qed

lemma commit_write:
  assumes "ring_ok r" "next_index r (rg_back r) \<noteq> rg_front r" "arr_data (rg_buffer r) ! rg_back r = x"
  shows "ring_ok (r\<lparr>rg_back := next_index r (rg_back r)\<rparr>)" "items (r\<lparr>rg_back := next_index r (rg_back r)\<rparr>) = items r @ [x]"
proof -
  let ?c = "arr_capacity (rg_buffer r)" and ?f = "rg_front r" and ?b = "rg_back r"
  have fb: "?f < ?c" "?b < ?c" and n: "next_index r ?b = succ_mod ?c ?b"
    using assms(1) next_index_succ [OF assms(1)] by (simp_all add: ring_ok_def)
  show "ring_ok (r\<lparr>rg_back := next_index r ?b\<rparr>)"
    using assms(1) succ_mod_less [OF fb(2)] by (simp add: ring_ok_def n)
  show "items (r\<lparr>rg_back := next_index r ?b\<rparr>) = items r @ [x]"
    using gap_back(2) [OF fb] gap_basics(3) [OF fb] assms(2,3) items_from_Suc [of r ?f "gap ?c ?f ?b"]
    by (simp add: items_def n items_from_def)
qed

lemma commit_read:
  assumes "ring_ok r" "rg_back r \<noteq> rg_front r"
  shows "ring_ok (r\<lparr>rg_front := next_index r (rg_front r)\<rparr>)"
    "items r = arr_data (rg_buffer r) ! rg_front r # items (r\<lparr>rg_front := next_index r (rg_front r)\<rparr>)"
proof -
  let ?c = "arr_capacity (rg_buffer r)" and ?f = "rg_front r" and ?b = "rg_back r"
  have fb: "?f < ?c" "?b < ?c" and n: "next_index r ?f = succ_mod ?c ?f"
    using assms(1) next_index_succ [OF assms(1)] by (simp_all add: ring_ok_def)
  show "ring_ok (r\<lparr>rg_front := next_index r ?f\<rparr>)"
    using assms(1) succ_mod_less [OF fb(1)] by (simp add: ring_ok_def n)
  show "items r = arr_data (rg_buffer r) ! ?f # items (r\<lparr>rg_front := next_index r ?f\<rparr>)"
    using gap_front [OF fb] assms(2) items_from_cons [OF fb(1), of "gap ?c (succ_mod ?c ?f) ?b"]
    by (simp add: items_def n items_from_def)
qed

lemma length_items: "ring_ok r \<Longrightarrow> length (items r) = gap (arr_capacity (rg_buffer r)) (rg_front r) (rg_back r)"
  by (simp add: items_def items_simps)

lemma is_full_items: "ring_ok r \<Longrightarrow> is_full r \<longleftrightarrow> length (items r) = ring_capacity r"
  using gap_back(1) [of "rg_front r" "arr_capacity (rg_buffer r)" "rg_back r"]
    gap_basics(1) [of "rg_front r" "arr_capacity (rg_buffer r)" "rg_back r"] next_index_succ [of r "rg_back r"]
  by (auto simp: is_full_def length_items ring_capacity_def ring_ok_def)

lemma is_empty_items:
  assumes "ring_ok r"
  shows "is_empty r \<longleftrightarrow> items r = []"
proof -
  have "length (items r) = 0 \<longleftrightarrow> rg_front r = rg_back r"
    using assms length_items [OF assms] gap_basics(2) [of "rg_front r" "arr_capacity (rg_buffer r)" "rg_back r"]
    unfolding ring_ok_def by presburger
  then show ?thesis
    by (auto simp: is_empty_def)
qed

section \<open>Bounded queues\<close>

text \<open>The contract of a queue with a fixed capacity: \<open>enq\<close> gives the item back when there is no room, \<open>deq\<close> gives nothing when there
  is no item; an operation whose result is \<open>None\<close> has aborted.\<close>

text \<open>What such a queue answers to a sequence of calls: \<open>Some x\<close> enqueues, \<open>None\<close> dequeues.\<close>

fun answers :: "nat \<Rightarrow> 'a option list \<Rightarrow> 'a list \<Rightarrow> 'a option list \<times> 'a list" where
  "answers n [] q = ([], q)"
| "answers n (Some x # cs) q =
     (if length q = n then (case answers n cs q of (rs, q) \<Rightarrow> (Some x # rs, q))
      else (case answers n cs (q @ [x]) of (rs, q) \<Rightarrow> (None # rs, q)))"
| "answers n (None # cs) [] = (case answers n cs [] of (rs, q) \<Rightarrow> (None # rs, q))"
| "answers n (None # cs) (y # q) = (case answers n cs q of (rs, q) \<Rightarrow> (Some y # rs, q))"

locale bounded_queue =
  fixes ok :: "'s \<Rightarrow> bool" and contents :: "'s \<Rightarrow> 'a list" and room :: "'s \<Rightarrow> nat"
    and enq :: "'a \<Rightarrow> 's \<Rightarrow> ('a option \<times> 's) option" and deq :: "'s \<Rightarrow> ('a option \<times> 's) option"
  assumes enq_full: "ok s \<Longrightarrow> length (contents s) = room s \<Longrightarrow> enq x s = Some (Some x, s)"
    and enq_room: "ok s \<Longrightarrow> length (contents s) \<noteq> room s \<Longrightarrow>
      \<exists>s'. enq x s = Some (None, s') \<and> ok s' \<and> contents s' = contents s @ [x] \<and> room s' = room s"
    and deq_empty: "ok s \<Longrightarrow> contents s = [] \<Longrightarrow> deq s = Some (None, s)"
    and deq_some: "ok s \<Longrightarrow> contents s = x # xs \<Longrightarrow> \<exists>s'. deq s = Some (Some x, s') \<and> ok s' \<and> contents s' = xs \<and> room s' = room s"
begin

fun calls :: "'a option list \<Rightarrow> 's \<Rightarrow> ('a option list \<times> 's) option" where
  "calls [] s = Some ([], s)"
| "calls (Some x # cs) s = Option.bind (enq x s) (\<lambda>(r, s). map_option (\<lambda>(rs, s). (r # rs, s)) (calls cs s))"
| "calls (None # cs) s = Option.bind (deq s) (\<lambda>(r, s). map_option (\<lambda>(rs, s). (r # rs, s)) (calls cs s))"

lemma calls_refine:
  assumes "ok s"
  shows "\<exists>s'. calls cs s = Some (fst (answers (room s) cs (contents s)), s') \<and> ok s'
    \<and> contents s' = snd (answers (room s) cs (contents s)) \<and> room s' = room s"
  using assms
proof (induction cs arbitrary: s)
  case (Cons c cs)
  show ?case
  proof (cases c)
    case None
    show ?thesis
    proof (cases "contents s")
      case Nil
      then show ?thesis
        using Cons.IH [OF Cons.prems] None deq_empty [OF Cons.prems Nil] by (auto split: prod.split)
    next
      case yq: (Cons y q)
      then obtain s1 where "deq s = Some (Some y, s1)" "ok s1" "contents s1 = q" "room s1 = room s"
        using deq_some [OF Cons.prems yq] by blast
      then show ?thesis
        using Cons.IH [of s1] None yq by (auto split: prod.split)
    qed
  next
    case (Some x)
    show ?thesis
    proof (cases "length (contents s) = room s")
      case True
      then show ?thesis
        using Cons.IH [OF Cons.prems] Some enq_full [OF Cons.prems True] by (auto split: prod.split)
    next
      case False
      then obtain s1 where "enq x s = Some (None, s1)" "ok s1" "contents s1 = contents s @ [x]" "room s1 = room s"
        using enq_room [OF Cons.prems False] by blast
      then show ?thesis
        using Cons.IH [of s1] Some False by (auto split: prod.split)
    qed
  qed
qed simp

end

interpretation rq: bounded_queue ring_ok items ring_capacity try_enqueue try_dequeue
proof
  fix r :: "'a ring" and x :: 'a and xs
  assume ok: "ring_ok r"
  have full: "next_index r (rg_back r) = rg_front r \<longleftrightarrow> length (items r) = ring_capacity r"
    using is_full_items [OF ok] by (simp add: is_full_def)
  have empty: "rg_back r = rg_front r \<longleftrightarrow> items r = []"
    using is_empty_items [OF ok] by (simp add: is_empty_def)
  show "try_enqueue x r = Some (Some x, r)" if "length (items r) = ring_capacity r"
    using that full by (simp add: try_enqueue_def)
  show "try_dequeue r = Some (None, r)" if "items r = []"
    using that empty by (simp add: try_dequeue_def)
  show "\<exists>r'. try_enqueue x r = Some (None, r') \<and> ring_ok r' \<and> items r' = items r @ [x] \<and> ring_capacity r' = ring_capacity r"
    if "length (items r) \<noteq> ring_capacity r"
  proof -
    obtain r1 where w: "write_item (rg_back r) x r = Some r1" "ring_ok r1" "rg_front r1 = rg_front r" "rg_back r1 = rg_back r"
      "arr_capacity (rg_buffer r1) = arr_capacity (rg_buffer r)" "rg_mask r1 = rg_mask r"
      "arr_data (rg_buffer r1) = (arr_data (rg_buffer r))[rg_back r := x]" "items r1 = items r"
      using write_item_ok [OF ok, of x] by blast
    have n: "next_index r1 (rg_back r1) = next_index r (rg_back r)"
      using w by (simp add: next_index_def)
    have "arr_data (rg_buffer r1) ! rg_back r1 = x"
      using w(4,7) ok by (simp add: ring_ok_def arr_capacity_def)
    note c = commit_write [OF w(2) _ this, unfolded n w(3,8)]
    have "next_index r (rg_back r) \<noteq> rg_front r"
      using that full by simp
    then show ?thesis
      using w(1,5) c by (simp add: try_enqueue_def ring_capacity_def)
  qed
  show "\<exists>r'. try_dequeue r = Some (Some x, r') \<and> ring_ok r' \<and> items r' = xs \<and> ring_capacity r' = ring_capacity r"
    if "items r = x # xs"
  proof -
    have ne: "rg_back r \<noteq> rg_front r"
      using that empty by simp
    then show ?thesis
      using that ok commit_read [OF ok ne] by (simp add: try_dequeue_def read_item_def ring_ok_def ring_capacity_def)
  qed
qed

lemma ring_new_ok:
  assumes "ring_new size_of_t cap memory = Ok r" "length memory = cap"
  shows "ring_ok r" "items r = []" "ring_capacity r = cap - 1"
  using assms
  by (auto simp: ring_new_def arr_new_def ring_ok_def arr_capacity_def items_def items_from_def gap_def ring_capacity_def
      is_power_of_two_def split: if_splits)

text \<open>A sequence of calls on a ring: \<open>Some x\<close> is \<^verbatim>\<open>try_enqueue(x)\<close>, \<open>None\<close> is \<^verbatim>\<open>try_dequeue()\<close>; the answers are those of the code, and the
  result is \<open>None\<close> when an index is out of range.\<close>

fun ring_calls :: "'a option list \<Rightarrow> 'a ring \<Rightarrow> ('a option list \<times> 'a ring) option" where
  "ring_calls [] r = Some ([], r)"
| "ring_calls (Some x # cs) r = Option.bind (try_enqueue x r) (\<lambda>(a, r). map_option (\<lambda>(as, r). (a # as, r)) (ring_calls cs r))"
| "ring_calls (None # cs) r = Option.bind (try_dequeue r) (\<lambda>(a, r). map_option (\<lambda>(as, r). (a # as, r)) (ring_calls cs r))"

lemma ring_calls_eq: "ring_calls cs r = rq.calls cs r"
proof (induction cs arbitrary: r)
  case (Cons c cs)
  then show ?case
    by (cases c) simp_all
qed simp

text \<open>C26: a ring buffer of capacity \<open>n\<close> is a queue for \<open>n - 1\<close> items. Whatever the sequence of complete calls, one after the other, no
  index is out of range, and the answers and the contents are those of the queue: items come out once and in order, an
  item that finds no room is handed back, and an empty ring gives nothing; \<^verbatim>\<open>is_full\<close> and \<^verbatim>\<open>is_empty\<close> tell the two cases. (Calls of
  two threads that overlap are the subject of the next section.)\<close>

theorem ring_refines_queue:
  assumes "ring_new size_of_t cap memory = Ok r" "length memory = cap"
  shows "\<exists>r'. ring_calls cs r = Some (fst (answers (cap - 1) cs []), r') \<and> items r' = snd (answers (cap - 1) cs [])
    \<and> (is_full r' \<longleftrightarrow> length (items r') = cap - 1) \<and> (is_empty r' \<longleftrightarrow> items r' = [])"
proof -
  obtain r' where "rq.calls cs r = Some (fst (answers (cap - 1) cs []), r')" "ring_ok r'" "items r' = snd (answers (cap - 1) cs [])"
    "ring_capacity r' = cap - 1"
    using rq.calls_refine [OF ring_new_ok(1) [OF assms], of cs] unfolding ring_new_ok(2,3) [OF assms] by blast
  then show ?thesis
    by (auto simp: ring_calls_eq is_full_items is_empty_items)
qed

theorem ring_refines_queue_witness:
  "\<exists>r r'. ring_new 4 4 [0, 0, 0, 0 :: nat] = Ok r \<and> is_full r'
    \<and> ring_calls [None, Some 1, Some 2, Some 3, Some 4, None, Some 4, None, Some 5] r
      = Some ([None, None, None, None, Some 4, Some 1, None, Some 2, None], r')"
proof -
  have "is_power_of_two 4"
    by (simp add: is_power_of_two_def ilog2_def bit_length.simps)
  then obtain r where r: "ring_new 4 4 [0, 0, 0, 0 :: nat] = Ok r"
    by (simp add: ring_new_def arr_new_def ISIZE_MAX_def)
  from ring_refines_queue [OF r, of "[None, Some 1, Some 2, Some 3, Some 4, None, Some 4, None, Some 5]"] r show ?thesis
    by auto
qed

text \<open>The spinning calls return exactly when there is room, or an item, and then do what the attempt does.\<close>

lemma spinning_calls_return:
  "ring_enqueue x r = Some r' \<Longrightarrow> \<not> is_full r"
  "ring_dequeue r = Some y \<Longrightarrow> \<not> is_empty r"
proof -
  assume "ring_enqueue x r = Some r'"
  then show "\<not> is_full r"
    by (rule ring_enqueue.raw_induct [of "\<lambda>x r r'. \<not> is_full r" "(x, r)" r', unfolded prod.case, rotated])
      (auto simp: try_enqueue_def is_full_def split: if_splits)
next
  assume "ring_dequeue r = Some y"
  then show "\<not> is_empty r"
    by (rule ring_dequeue.raw_induct [of "\<lambda>r y. \<not> is_empty r" r y, rotated])
      (auto simp: try_dequeue_def is_empty_def split: if_splits)
qed

lemma ring_enqueue_eq: "ring_enqueue x r = (if is_full r then None else map_option snd (try_enqueue x r))"
proof (cases "is_full r")
  case True
  then show ?thesis
    using spinning_calls_return(1) [of x r] by (cases "ring_enqueue x r") simp_all
next
  case False
  then show ?thesis
    by (subst ring_enqueue.simps) (auto simp: try_enqueue_def is_full_def split: option.splits)
qed

lemma ring_dequeue_eq: "ring_dequeue r = (if is_empty r then None else map_option (\<lambda>(y, r'). (the y, r')) (try_dequeue r))"
proof (cases "is_empty r")
  case True
  then show ?thesis
    using spinning_calls_return(2) [of r] by (cases "ring_dequeue r") simp_all
next
  case False
  then show ?thesis
    by (subst ring_dequeue.simps) (auto simp: try_dequeue_def is_empty_def split: option.splits)
qed

text \<open>A ring over memory of the caller has the largest power of two of places that fits.\<close>

lemma bit_length_power: "bit_length (2 ^ k) = Suc k"
proof (induction k)
  case (Suc k)
  have "bit_length (2 ^ Suc k) = Suc (bit_length (2 ^ Suc k div 2))"
    by (subst bit_length.simps) simp
  then show ?case
    using Suc by simp
qed (simp add: bit_length.simps)

lemma is_power_of_two_power: "is_power_of_two (2 ^ k)"
  by (simp add: is_power_of_two_def ilog2_def bit_length_power)

lemma ring_from_raw_parts_fits:
  assumes "ring_from_raw_parts init ptr sz size_of_t front back memory = Ok r" "sz \<le> 2 ^ 63"
    and "length memory = (sz - (16 + align_up (16 + ptr) size_of_t)) div size_of_t"
  shows "16 + align_up (16 + ptr) size_of_t + arr_capacity (rg_buffer r) * size_of_t \<le> sz"
    "sz < 16 + align_up (16 + ptr) size_of_t + 2 * arr_capacity (rg_buffer r) * size_of_t"
    "init \<Longrightarrow> ring_ok r \<and> items r = []"
proof -
  let ?h = "16 + align_up (16 + ptr) size_of_t"
  let ?n = "(sz - ?h) div size_of_t"
  have t: "0 < size_of_t" and h: "?h + size_of_t \<le> sz"
    and r: "r = \<lparr>rg_back = (if init then 0 else back), rg_front = (if init then 0 else front),
      rg_buffer = \<lparr>arr_data = take (2 ^ ilog2 ?n) memory, arr_managed = False\<rparr>, rg_mask = 2 ^ ilog2 ?n - 1, rg_managed = False\<rparr>"
    using assms(1) by (auto simp: ring_from_raw_parts_def arr_from_raw_parts_def Let_def size_of_usize_def is_power_of_two_def split: if_splits)
  have n: "0 < ?n"
    using t h by (simp add: div_greater_zero_iff)
  have b: "2 ^ ilog2 ?n \<le> ?n" "?n < 2 * 2 ^ ilog2 ?n"
    using bit_length_bounds [of ?n] n by (auto simp: ilog2_def simp flip: power_Suc)
  have c: "arr_capacity (rg_buffer r) = 2 ^ ilog2 ?n"
    using b(1) assms(3) by (simp add: r arr_capacity_def)
  have "2 ^ ilog2 ?n * size_of_t \<le> sz - ?h"
    using b(1) t by (metis div_times_less_eq_dividend le_trans mult_le_mono1)
  then show "?h + arr_capacity (rg_buffer r) * size_of_t \<le> sz"
    using h c by simp
  have "sz - ?h < 2 * 2 ^ ilog2 ?n * size_of_t"
    using b(2) t by (simp add: div_less_iff_less_mult)
  then show "sz < ?h + 2 * arr_capacity (rg_buffer r) * size_of_t"
    using c by simp
  show "ring_ok r \<and> items r = []" if init
    using that c by (simp add: ring_ok_def items_def items_from_def gap_def r is_power_of_two_power)
qed

section \<open>One writer and one reader\<close>

text \<open>Where a thread stands between two accesses to the shared indices and the array: \<^verbatim>\<open>enqueue\<close> loads the front, loads the back, writes
  the item and stores the back; \<^verbatim>\<open>dequeue\<close> loads both, reads and stores the front. Both spin on failure. Nothing in the code orders
  the write of the item and the relaxed store of the back: \<open>WEarly\<close> is a writer whose store of the back is visible and whose
  item is not yet.\<close>

datatype writer = WIdle | WFront nat | WBack nat nat | WWritten nat | WEarly nat

datatype 'a reader = RIdle | RFront nat | RBack nat nat | RTaken 'a nat

record 'a spsc =
  sp_ring :: "'a ring"
  sp_writer :: writer
  sp_reader :: "'a reader"
  sp_todo :: "'a list"
  sp_sent :: "'a list"
  sp_received :: "'a list"
  sp_aborted :: bool

definition spsc_init :: "'a ring \<Rightarrow> 'a list \<Rightarrow> 'a spsc" where
  "spsc_init r xs = \<lparr>sp_ring = r, sp_writer = WIdle, sp_reader = RIdle, sp_todo = xs, sp_sent = [], sp_received = [], sp_aborted = False\<rparr>"

text \<open>One access of one thread. With \<open>relaxed = False\<close> every thread's accesses take effect in program order and at once; with
  \<open>relaxed = True\<close> the two stores of the writer may also take effect in the other order. Relaxed atomics allow more than that
  (the loads of the reader may be reordered too, and the accesses to the array are a data race); this much is enough to
  lose an item.\<close>

inductive spsc_step :: "bool \<Rightarrow> 'a spsc \<Rightarrow> 'a spsc \<Rightarrow> bool" for relaxed where
  w_front: "sp_writer s = WIdle \<Longrightarrow> sp_todo s \<noteq> [] \<Longrightarrow> spsc_step relaxed s (s\<lparr>sp_writer := WFront (rg_front (sp_ring s))\<rparr>)"
| w_back: "sp_writer s = WFront f \<Longrightarrow> spsc_step relaxed s (s\<lparr>sp_writer := WBack f (rg_back (sp_ring s))\<rparr>)"
| w_full: "sp_writer s = WBack f b \<Longrightarrow> next_index (sp_ring s) b = f \<Longrightarrow> spsc_step relaxed s (s\<lparr>sp_writer := WIdle\<rparr>)"
| w_write: "sp_writer s = WBack f b \<Longrightarrow> next_index (sp_ring s) b \<noteq> f \<Longrightarrow> sp_todo s = x # xs \<Longrightarrow> write_item b x (sp_ring s) = Some r \<Longrightarrow>
    spsc_step relaxed s (s\<lparr>sp_ring := r, sp_writer := WWritten b\<rparr>)"
| w_abort: "sp_writer s = WBack f b \<Longrightarrow> next_index (sp_ring s) b \<noteq> f \<Longrightarrow> sp_todo s = x # xs \<Longrightarrow> write_item b x (sp_ring s) = None \<Longrightarrow>
    spsc_step relaxed s (s\<lparr>sp_aborted := True\<rparr>)"
| w_commit: "sp_writer s = WWritten b \<Longrightarrow> sp_todo s = x # xs \<Longrightarrow>
    spsc_step relaxed s (s\<lparr>sp_ring := (sp_ring s)\<lparr>rg_back := next_index (sp_ring s) b\<rparr>, sp_writer := WIdle, sp_todo := xs, sp_sent := sp_sent s @ [x]\<rparr>)"
| w_early: "relaxed \<Longrightarrow> sp_writer s = WBack f b \<Longrightarrow> next_index (sp_ring s) b \<noteq> f \<Longrightarrow> sp_todo s \<noteq> [] \<Longrightarrow>
    spsc_step relaxed s (s\<lparr>sp_ring := (sp_ring s)\<lparr>rg_back := next_index (sp_ring s) b\<rparr>, sp_writer := WEarly b\<rparr>)"
| w_late: "sp_writer s = WEarly b \<Longrightarrow> sp_todo s = x # xs \<Longrightarrow> write_item b x (sp_ring s) = Some r \<Longrightarrow>
    spsc_step relaxed s (s\<lparr>sp_ring := r, sp_writer := WIdle, sp_todo := xs, sp_sent := sp_sent s @ [x]\<rparr>)"
| r_front: "sp_reader s = RIdle \<Longrightarrow> spsc_step relaxed s (s\<lparr>sp_reader := RFront (rg_front (sp_ring s))\<rparr>)"
| r_back: "sp_reader s = RFront f \<Longrightarrow> spsc_step relaxed s (s\<lparr>sp_reader := RBack f (rg_back (sp_ring s))\<rparr>)"
| r_empty: "sp_reader s = RBack f b \<Longrightarrow> b = f \<Longrightarrow> spsc_step relaxed s (s\<lparr>sp_reader := RIdle\<rparr>)"
| r_read: "sp_reader s = RBack f b \<Longrightarrow> b \<noteq> f \<Longrightarrow> read_item f (sp_ring s) = Some x \<Longrightarrow> spsc_step relaxed s (s\<lparr>sp_reader := RTaken x f\<rparr>)"
| r_abort: "sp_reader s = RBack f b \<Longrightarrow> b \<noteq> f \<Longrightarrow> read_item f (sp_ring s) = None \<Longrightarrow> spsc_step relaxed s (s\<lparr>sp_aborted := True\<rparr>)"
| r_commit: "sp_reader s = RTaken x f \<Longrightarrow>
    spsc_step relaxed s (s\<lparr>sp_ring := (sp_ring s)\<lparr>rg_front := next_index (sp_ring s) f\<rparr>, sp_reader := RIdle, sp_received := sp_received s @ [x]\<rparr>)"

text \<open>An index that was loaded earlier is behind the current one: the writer sees at most as much room as there is, the reader at
  most as many items.\<close>

definition writer_ok :: "'a ring \<Rightarrow> 'a list \<Rightarrow> writer \<Rightarrow> bool" where
  "writer_ok r todo w \<longleftrightarrow>
     (let c = arr_capacity (rg_buffer r)
      in case w of
           WIdle \<Rightarrow> True
         | WFront f \<Rightarrow> f < c \<and> gap c (rg_front r) (rg_back r) \<le> gap c f (rg_back r) \<and> todo \<noteq> []
         | WBack f b \<Rightarrow> b = rg_back r \<and> f < c \<and> gap c (rg_front r) (rg_back r) \<le> gap c f (rg_back r) \<and> todo \<noteq> []
         | WWritten b \<Rightarrow> b = rg_back r \<and> next_index r b \<noteq> rg_front r \<and> todo \<noteq> [] \<and> arr_data (rg_buffer r) ! b = hd todo
         | WEarly b \<Rightarrow> False)"

definition reader_ok :: "'a ring \<Rightarrow> 'a reader \<Rightarrow> bool" where
  "reader_ok r rd \<longleftrightarrow>
     (let c = arr_capacity (rg_buffer r)
      in case rd of
           RIdle \<Rightarrow> True
         | RFront f \<Rightarrow> f = rg_front r
         | RBack f b \<Rightarrow> f = rg_front r \<and> b < c \<and> gap c f b \<le> gap c f (rg_back r)
         | RTaken x f \<Rightarrow> f = rg_front r \<and> rg_back r \<noteq> f \<and> arr_data (rg_buffer r) ! f = x)"

lemma writer_ok_simps [simp]:
  "writer_ok r todo WIdle"
  "writer_ok r todo (WFront f) \<longleftrightarrow> f < arr_capacity (rg_buffer r) \<and> todo \<noteq> []
     \<and> gap (arr_capacity (rg_buffer r)) (rg_front r) (rg_back r) \<le> gap (arr_capacity (rg_buffer r)) f (rg_back r)"
  "writer_ok r todo (WBack f b) \<longleftrightarrow> b = rg_back r \<and> writer_ok r todo (WFront f)"
  "writer_ok r todo (WWritten b) \<longleftrightarrow> b = rg_back r \<and> next_index r b \<noteq> rg_front r \<and> todo \<noteq> [] \<and> arr_data (rg_buffer r) ! b = hd todo"
  "\<not> writer_ok r todo (WEarly b)"
  by (auto simp: writer_ok_def Let_def)

lemma reader_ok_simps [simp]:
  "reader_ok r RIdle"
  "reader_ok r (RFront f) \<longleftrightarrow> f = rg_front r"
  "reader_ok r (RBack f b) \<longleftrightarrow> f = rg_front r \<and> b < arr_capacity (rg_buffer r)
     \<and> gap (arr_capacity (rg_buffer r)) f b \<le> gap (arr_capacity (rg_buffer r)) f (rg_back r)"
  "reader_ok r (RTaken x f) \<longleftrightarrow> f = rg_front r \<and> rg_back r \<noteq> f \<and> arr_data (rg_buffer r) ! f = x"
  by (simp_all add: reader_ok_def Let_def)

definition spsc_ok :: "'a list \<Rightarrow> 'a spsc \<Rightarrow> bool" where
  "spsc_ok xs s \<longleftrightarrow> ring_ok (sp_ring s) \<and> \<not> sp_aborted s \<and> sp_sent s @ sp_todo s = xs
     \<and> sp_sent s = sp_received s @ items (sp_ring s) \<and> writer_ok (sp_ring s) (sp_todo s) (sp_writer s)
     \<and> reader_ok (sp_ring s) (sp_reader s)"

text \<open>A thread keeps its standing while the other one takes a step.\<close>

lemma reader_ok_write:
  assumes "reader_ok r rd" "rg_front r' = rg_front r" "rg_back r' = rg_back r" "arr_capacity (rg_buffer r') = arr_capacity (rg_buffer r)"
    and "arr_data (rg_buffer r') = (arr_data (rg_buffer r))[rg_back r := x]"
  shows "reader_ok r' rd"
  using assms by (auto simp: reader_ok_def Let_def split: reader.splits)

lemma reader_ok_commit:
  assumes "ring_ok r" "reader_ok r rd" "next_index r (rg_back r) \<noteq> rg_front r"
  shows "reader_ok (r\<lparr>rg_back := next_index r (rg_back r)\<rparr>) rd"
proof -
  let ?c = "arr_capacity (rg_buffer r)"
  have fb: "rg_front r < ?c" "rg_back r < ?c" and n: "next_index r (rg_back r) = succ_mod ?c (rg_back r)"
    using assms(1) next_index_succ [OF assms(1)] by (simp_all add: ring_ok_def)
  have "gap ?c (rg_front r) (succ_mod ?c (rg_back r)) = Suc (gap ?c (rg_front r) (rg_back r))"
    using gap_back(2) [OF fb] assms(3) n by simp
  then show ?thesis
    using assms(2,3) n by (auto simp: reader_ok_def Let_def split: reader.splits)
qed

lemma writer_ok_commit:
  assumes "ring_ok r" "writer_ok r todo w" "rg_back r \<noteq> rg_front r"
  shows "writer_ok (r\<lparr>rg_front := next_index r (rg_front r)\<rparr>) todo w"
proof -
  let ?c = "arr_capacity (rg_buffer r)"
  have fb: "rg_front r < ?c" "rg_back r < ?c" and n: "next_index r (rg_front r) = succ_mod ?c (rg_front r)"
    "next_index r (rg_back r) = succ_mod ?c (rg_back r)"
    using assms(1) next_index_succ [OF assms(1)] by (simp_all add: ring_ok_def)
  have g: "Suc (gap ?c (succ_mod ?c (rg_front r)) (rg_back r)) = gap ?c (rg_front r) (rg_back r)"
    using gap_front [OF fb] assms(3) by simp
  then have "succ_mod ?c (rg_back r) \<noteq> succ_mod ?c (rg_front r)"
    using gap_back(1) [OF succ_mod_less [OF fb(1)] fb(2)] gap_basics(1) [OF fb] by simp
  then show ?thesis
    using assms(2) g n by (auto simp: writer_ok_def Let_def next_index_def split: writer.splits)
qed

lemma spsc_write:
  assumes "spsc_ok xs s" "sp_writer s = WBack f b" "next_index (sp_ring s) b \<noteq> f" "sp_todo s = x # ys"
  shows "\<exists>r. write_item b x (sp_ring s) = Some r \<and> spsc_ok xs (s\<lparr>sp_ring := r, sp_writer := WWritten b\<rparr>)"
proof -
  let ?r = "sp_ring s"
  let ?c = "arr_capacity (rg_buffer ?r)"
  have ok: "ring_ok ?r" and rd: "reader_ok ?r (sp_reader s)"
    and w: "b = rg_back ?r" "f < ?c" "gap ?c (rg_front ?r) (rg_back ?r) \<le> gap ?c f (rg_back ?r)"
    using assms(1,2) by (simp_all add: spsc_ok_def)
  have fb: "rg_front ?r < ?c" "b < ?c"
    using ok w(1) by (simp_all add: ring_ok_def)
  have "Suc (gap ?c (rg_front ?r) b) < ?c"
    using gap_back(1) [OF w(2) fb(2)] assms(3) next_index_succ [OF ok fb(2)] w(1,3) by simp
  then have room: "next_index ?r b \<noteq> rg_front ?r"
    using gap_back(1) [OF fb] next_index_succ [OF ok fb(2)] by simp
  obtain r where r: "write_item b x ?r = Some r" "ring_ok r" "rg_front r = rg_front ?r" "rg_back r = rg_back ?r"
    "arr_capacity (rg_buffer r) = ?c" "rg_mask r = rg_mask ?r" "arr_data (rg_buffer r) = (arr_data (rg_buffer ?r))[rg_back ?r := x]"
    "items r = items ?r"
    using write_item_ok [OF ok, of x] w(1) by blast
  have "arr_data (rg_buffer r) ! b = x"
    using r(7) fb(2) w(1) by (simp add: arr_capacity_def)
  moreover have "next_index r b = next_index ?r b"
    by (simp add: next_index_def r(6))
  ultimately have "writer_ok r (sp_todo s) (WWritten b)"
    using r(3,4) w(1) room assms(4) by (simp add:)
  then show ?thesis
    using r(1,2,8) assms(1) reader_ok_write [OF rd r(3-5,7)] by (auto simp: spsc_ok_def)
qed

lemma spsc_commit:
  assumes "spsc_ok xs s" "sp_writer s = WWritten b" "sp_todo s = x # ys"
  shows "spsc_ok xs (s\<lparr>sp_ring := (sp_ring s)\<lparr>rg_back := next_index (sp_ring s) b\<rparr>, sp_writer := WIdle, sp_todo := ys, sp_sent := sp_sent s @ [x]\<rparr>)"
proof -
  have ok: "ring_ok (sp_ring s)" "reader_ok (sp_ring s) (sp_reader s)"
    and w: "b = rg_back (sp_ring s)" "next_index (sp_ring s) (rg_back (sp_ring s)) \<noteq> rg_front (sp_ring s)"
      "arr_data (rg_buffer (sp_ring s)) ! rg_back (sp_ring s) = x"
    using assms by (auto simp: spsc_ok_def)
  show ?thesis
    using assms commit_write [OF ok(1) w(2,3)] reader_ok_commit [OF ok w(2)] w(1) by (auto simp: spsc_ok_def)
qed

lemma spsc_read:
  assumes "spsc_ok xs s" "sp_reader s = RBack f b" "b \<noteq> f"
  shows "\<exists>x. read_item f (sp_ring s) = Some x \<and> spsc_ok xs (s\<lparr>sp_reader := RTaken x f\<rparr>)"
proof -
  let ?r = "sp_ring s"
  let ?c = "arr_capacity (rg_buffer ?r)"
  have ok: "ring_ok ?r" and rd: "f = rg_front ?r" "b < ?c" "gap ?c f b \<le> gap ?c f (rg_back ?r)"
    using assms(1,2) by (auto simp: spsc_ok_def)
  have fb: "f < ?c" "rg_back ?r < ?c"
    using ok rd(1) by (simp_all add: ring_ok_def)
  have "rg_back ?r \<noteq> f"
    using gap_basics(2) [OF fb] gap_basics(2) [OF fb(1) rd(2)] assms(3) rd(3) by auto
  then show ?thesis
    using fb(1) rd(1) assms(1) by (auto simp: read_item_def spsc_ok_def)
qed

lemma spsc_take:
  assumes "spsc_ok xs s" "sp_reader s = RTaken x f"
  shows "spsc_ok xs (s\<lparr>sp_ring := (sp_ring s)\<lparr>rg_front := next_index (sp_ring s) f\<rparr>, sp_reader := RIdle, sp_received := sp_received s @ [x]\<rparr>)"
proof -
  have ok: "ring_ok (sp_ring s)" "writer_ok (sp_ring s) (sp_todo s) (sp_writer s)"
    and rd: "f = rg_front (sp_ring s)" "rg_back (sp_ring s) \<noteq> rg_front (sp_ring s)" "arr_data (rg_buffer (sp_ring s)) ! rg_front (sp_ring s) = x"
    using assms by (auto simp: spsc_ok_def)
  show ?thesis
    using assms commit_read [OF ok(1) rd(2)] writer_ok_commit [OF ok rd(2)] rd by (auto simp: spsc_ok_def)
qed

lemma spsc_step_ok: "spsc_step False s s' \<Longrightarrow> spsc_ok xs s \<Longrightarrow> spsc_ok xs s'"
proof (induction rule: spsc_step.induct)
  case (w_write s f b x ys r)
  then show ?case
    using spsc_write [OF w_write.prems w_write.hyps(1-3)] by auto
next
  case (w_abort s f b x ys)
  then show ?case
    using spsc_write [OF w_abort.prems w_abort.hyps(1-3)] by auto
next
  case (r_read s f b x)
  then show ?case
    using spsc_read [OF r_read.prems r_read.hyps(1,2)] by auto
next
  case (r_abort s f b)
  then show ?case
    using spsc_read [OF r_abort.prems r_abort.hyps(1,2)] by auto
next
  case (w_commit s b x ys)
  then show ?case
    using spsc_commit [OF w_commit.prems w_commit.hyps] by simp
next
  case (r_commit s x f)
  then show ?case
    using spsc_take [OF r_commit.prems r_commit.hyps] by simp
qed (auto simp: spsc_ok_def ring_ok_def)

text \<open>If the accesses of each thread took effect in program order, one writer and one reader could use a ring at the same time:
  however their loads and stores interleave, no index is out of range, and nothing is lost, duplicated or reordered. This
  is what the algorithm gives with release stores and acquire loads of the indices; the code has relaxed ones.\<close>

theorem ring_interleaved:
  assumes "ring_new size_of_t cap memory = Ok r" "length memory = cap" "(spsc_step False)\<^sup>*\<^sup>* (spsc_init r xs) s"
  shows "\<not> sp_aborted s \<and> xs = sp_received s @ items (sp_ring s) @ sp_todo s \<and> sp_sent s = sp_received s @ items (sp_ring s)"
proof -
  have "spsc_ok xs (spsc_init r xs)"
    using ring_new_ok [OF assms(1,2)] by (simp add: spsc_ok_def spsc_init_def)
  with assms(3) have "spsc_ok xs s"
    by (induction rule: rtranclp_induct) (auto intro: spsc_step_ok)
  then show ?thesis
    by (auto simp: spsc_ok_def)
qed

text \<open>With the relaxed stores of the code the reader can receive something that was never sent: the index becomes visible first, the
  reader takes what the fresh array happened to hold, and the item is written behind it.\<close>

definition stale_ring :: "nat \<Rightarrow> nat \<Rightarrow> nat \<Rightarrow> nat ring" where
  "stale_ring front back item =
     \<lparr>rg_back = back, rg_front = front, rg_buffer = \<lparr>arr_data = [item, 0], arr_managed = True\<rparr>, rg_mask = 1, rg_managed = True\<rparr>"

definition stale_at :: "nat ring \<Rightarrow> writer \<Rightarrow> nat reader \<Rightarrow> nat list \<Rightarrow> nat list \<Rightarrow> nat list \<Rightarrow> nat spsc" where
  "stale_at r w rd todo sent received =
     \<lparr>sp_ring = r, sp_writer = w, sp_reader = rd, sp_todo = todo, sp_sent = sent, sp_received = received, sp_aborted = False\<rparr>"

lemma stale_write:
  "spsc_step True (stale_at (stale_ring 0 0 9) WIdle RIdle [7] [] []) (stale_at (stale_ring 0 0 9) (WFront 0) RIdle [7] [] [])"
  "spsc_step True (stale_at (stale_ring 0 0 9) (WFront 0) RIdle [7] [] []) (stale_at (stale_ring 0 0 9) (WBack 0 0) RIdle [7] [] [])"
  "spsc_step True (stale_at (stale_ring 0 0 9) (WBack 0 0) RIdle [7] [] []) (stale_at (stale_ring 0 1 9) (WEarly 0) RIdle [7] [] [])"
  "spsc_step True (stale_at (stale_ring 1 1 9) (WEarly 0) RIdle [7] [] [9]) (stale_at (stale_ring 1 1 7) WIdle RIdle [] [7] [9])"
  using spsc_step.w_front [of "stale_at (stale_ring 0 0 9) WIdle RIdle [7] [] []" True]
    spsc_step.w_back [of "stale_at (stale_ring 0 0 9) (WFront 0) RIdle [7] [] []" _ True]
    spsc_step.w_early [of True "stale_at (stale_ring 0 0 9) (WBack 0 0) RIdle [7] [] []" 0 0]
    spsc_step.w_late [of "stale_at (stale_ring 1 1 9) (WEarly 0) RIdle [7] [] [9]" 0 7 "[]" "stale_ring 1 1 7" True]
  by (simp_all add: stale_at_def stale_ring_def next_index_def write_item_def arr_capacity_def)

lemma stale_read:
  "spsc_step True (stale_at (stale_ring 0 1 9) (WEarly 0) RIdle [7] [] []) (stale_at (stale_ring 0 1 9) (WEarly 0) (RFront 0) [7] [] [])"
  "spsc_step True (stale_at (stale_ring 0 1 9) (WEarly 0) (RFront 0) [7] [] []) (stale_at (stale_ring 0 1 9) (WEarly 0) (RBack 0 1) [7] [] [])"
  "spsc_step True (stale_at (stale_ring 0 1 9) (WEarly 0) (RBack 0 1) [7] [] []) (stale_at (stale_ring 0 1 9) (WEarly 0) (RTaken 9 0) [7] [] [])"
  "spsc_step True (stale_at (stale_ring 0 1 9) (WEarly 0) (RTaken 9 0) [7] [] []) (stale_at (stale_ring 1 1 9) (WEarly 0) RIdle [7] [] [9])"
  using spsc_step.r_front [of "stale_at (stale_ring 0 1 9) (WEarly 0) RIdle [7] [] []" True]
    spsc_step.r_back [of "stale_at (stale_ring 0 1 9) (WEarly 0) (RFront 0) [7] [] []" 0 True]
    spsc_step.r_read [of "stale_at (stale_ring 0 1 9) (WEarly 0) (RBack 0 1) [7] [] []" 0 1 9 True]
    spsc_step.r_commit [of "stale_at (stale_ring 0 1 9) (WEarly 0) (RTaken 9 0) [7] [] []" 9 0 True]
  by (simp_all add: stale_at_def stale_ring_def next_index_def read_item_def arr_capacity_def)

theorem relaxed_ring_stale:
  "\<exists>r s. ring_new 8 2 [9, 0 :: nat] = Ok r \<and> (spsc_step True)\<^sup>*\<^sup>* (spsc_init r [7]) s \<and> sp_sent s = [7] \<and> sp_received s = [9] \<and> is_empty (sp_ring s)"
proof -
  have "ring_new 8 2 [9, 0 :: nat] = Ok (stale_ring 0 0 9)"
    by (simp add: ring_new_def arr_new_def ISIZE_MAX_def stale_ring_def is_power_of_two_def ilog2_def bit_length.simps)
  moreover have "spsc_init (stale_ring 0 0 9) [7] = stale_at (stale_ring 0 0 9) WIdle RIdle [7] [] []"
    by (simp add: spsc_init_def stale_at_def)
  moreover have "(spsc_step True)\<^sup>*\<^sup>* (stale_at (stale_ring 0 0 9) WIdle RIdle [7] [] []) (stale_at (stale_ring 1 1 7) WIdle RIdle [] [7] [9])"
    using stale_write stale_read by (meson converse_rtranclp_into_rtranclp rtranclp.rtrancl_refl)
  ultimately show ?thesis
    by (intro exI [of _ "stale_ring 0 0 9"] exI [of _ "stale_at (stale_ring 1 1 7) WIdle RIdle [] [7] [9]"])
      (simp add: stale_at_def stale_ring_def is_empty_def)
qed

end
