(* ===== verification/Udp_Peer.thy ===== *)
theory Udp_Peer
  imports Arp_Peer Datagram_Headers Tcp_Config
begin

text \<open>
  UDP sockets (\<^verbatim>\<open>protocols/udp/\<close>): datagrams, the shared queues between the stack and its coroutines, the tables of
  sockets and bound addresses, and the background sender. The channel inside a shared queue is the bounded channel
  of the \<^verbatim>\<open>futures\<close> package and a parameter. Queues are shared by reference, so the peer has a store of them. A result
  \<open>None\<close> of an operation that may loop forever means that it does.
\<close>

section \<open>Configuration\<close>

record udp_config =
  udp_rx_checksum :: bool
  udp_tx_checksum :: bool

definition udp_config_default :: udp_config where
  "udp_config_default = \<lparr>udp_rx_checksum = False, udp_tx_checksum = False\<rparr>"

definition udp_config_new :: "bool option \<Rightarrow> bool option \<Rightarrow> udp_config" where
  "udp_config_new rx tx =
     (let c = udp_config_default;
          c = (case rx of Some x \<Rightarrow> c\<lparr>udp_rx_checksum := x\<rparr> | None \<Rightarrow> c)
      in case tx of Some x \<Rightarrow> c\<lparr>udp_tx_checksum := x\<rparr> | None \<Rightarrow> c)"

section \<open>Datagrams\<close>

record udp_datagram =
  ud_ethernet2_hdr :: ethernet2_header
  ud_ipv4_hdr :: ipv4_header
  ud_udp_hdr :: udp_header
  ud_data :: bytes
  ud_checksum_offload :: bool

definition ud_header_size :: nat where
  "ud_header_size = ETHERNET2_HEADER_SIZE + IPV4_HEADER_MIN_SIZE + UDP_HEADER_SIZE"

definition ud_body_size :: "udp_datagram \<Rightarrow> nat" where
  "ud_body_size d = length (ud_data d)"

definition ud_write_header :: "udp_datagram \<Rightarrow> bytes \<Rightarrow> bytes option" where
  "ud_write_header d buf =
     (if length buf < ud_header_size then None
      else let eth_hdr_size = ETHERNET2_HEADER_SIZE;
               ipv4_end = eth_hdr_size + IPV4_HEADER_MIN_SIZE;
               ipv4_payload_len = UDP_HEADER_SIZE + length (ud_data d)
           in Option.bind (eth_serialize (ud_ethernet2_hdr d) (slice 0 eth_hdr_size buf)) (\<lambda>e.
              Option.bind (ipv4_serialize (ud_ipv4_hdr d) (slice eth_hdr_size ipv4_end buf) ipv4_payload_len) (\<lambda>i.
              Option.bind (udp_serialize (ud_udp_hdr d) (slice ipv4_end ud_header_size buf) (ud_ipv4_hdr d) (ud_data d) (ud_checksum_offload d)) (\<lambda>u.
              Some (e @ i @ u @ drop ud_header_size buf)))))"

definition ud_take_body :: "udp_datagram \<Rightarrow> bytes option" where
  "ud_take_body d = Some (ud_data d)"

section \<open>Shared queues\<close>

text \<open>A channel: \<open>ch_try_send\<close> fails when it is full, \<open>ch_try_next\<close> gives \<open>Some (Some m)\<close> for a message, \<open>Some None\<close> when the channel is
  closed and \<open>None\<close> when it is empty.\<close>

record ('c, 'a) channel_ops =
  ch_new :: "nat \<Rightarrow> 'c"
  ch_try_send :: "'a \<Rightarrow> 'c \<Rightarrow> 'c option"
  ch_try_next :: "'c \<Rightarrow> 'a option option \<times> 'c"

record slot =
  sl_local :: sockaddr
  sl_remote :: sockaddr
  sl_data :: bytes

text \<open>\<open>sq_awaited\<close>: a suspended \<^verbatim>\<open>pop\<close> keeps the receiving end borrowed.\<close>

record 'c shared_queue =
  sq_channel :: 'c
  sq_length :: nat
  sq_capacity :: nat
  sq_awaited :: bool

definition sq_new :: "('c, 'a) channel_ops \<Rightarrow> nat \<Rightarrow> 'c shared_queue" where
  "sq_new M n = \<lparr>sq_channel = ch_new M n, sq_length = 0, sq_capacity = n, sq_awaited = False\<rparr>"

definition sq_try_pop :: "('c, 'a) channel_ops \<Rightarrow> 'c shared_queue \<Rightarrow> 'a option outcome \<times> 'c shared_queue" where
  "sq_try_pop M q =
     (if sq_awaited q then (Panic, q)
      else case ch_try_next M (sq_channel q) of
             (Some (Some msg), c) \<Rightarrow> (Ok (Some msg), q\<lparr>sq_channel := c, sq_length := sq_length q - 1\<rparr>)
           | (Some None, c) \<Rightarrow> (Err (fail_new EIO ''failed to pop from shared queue''), q\<lparr>sq_channel := c\<rparr>)
           | (None, c) \<Rightarrow> (Ok None, q\<lparr>sq_channel := c\<rparr>))"

text \<open>The loop of \<^verbatim>\<open>push\<close> that drops messages ignores how a pop went, unless it panics.\<close>

partial_function (option) sq_make_room :: "('c, 'a) channel_ops \<Rightarrow> 'c shared_queue \<Rightarrow> (unit outcome \<times> 'c shared_queue) option" where
  "sq_make_room M q =
     (if sq_capacity q div 2 \<le> sq_length q
      then (case sq_try_pop M q of (Panic, q) \<Rightarrow> Some (Panic, q) | (_, q) \<Rightarrow> sq_make_room M q)
      else Some (Ok (), q))"

definition sq_push :: "('c, 'a) channel_ops \<Rightarrow> 'a \<Rightarrow> 'c shared_queue \<Rightarrow> (unit outcome \<times> 'c shared_queue) option" where
  "sq_push M msg q =
     Option.bind (if sq_length q = sq_capacity q then sq_make_room M q else Some (Ok (), q)) (\<lambda>(r, q).
       Some (case r of
               Ok _ \<Rightarrow>
                 (case ch_try_send M msg (sq_channel q) of
                    Some c \<Rightarrow> (Ok (), q\<lparr>sq_channel := c, sq_length := sq_length q + 1\<rparr>)
                  | None \<Rightarrow> (Err (fail_new EIO ''failed to push to shared queue''), q))
             | _ \<Rightarrow> (r, q)))"

text \<open>One poll of the asynchronous \<^verbatim>\<open>pop\<close>; \<open>resumed\<close> if this future has been polled before. \<open>None\<close>: pending.\<close>

definition sq_pop :: "('c, 'a) channel_ops \<Rightarrow> bool \<Rightarrow> 'c shared_queue \<Rightarrow> 'a outcome option \<times> 'c shared_queue" where
  "sq_pop M resumed q =
     (if sq_awaited q \<and> \<not> resumed then (Some Panic, q)
      else case ch_try_next M (sq_channel q) of
             (Some (Some msg), c) \<Rightarrow> (Some (Ok msg), q\<lparr>sq_channel := c, sq_length := sq_length q - 1, sq_awaited := False\<rparr>)
           | (Some None, c) \<Rightarrow> (Some (Err (fail_new EIO ''failed to pop from shared queue'')), q\<lparr>sq_channel := c, sq_awaited := False\<rparr>)
           | (None, c) \<Rightarrow> (None, q\<lparr>sq_channel := c, sq_awaited := True\<rparr>))"

section \<open>Peer\<close>

definition RECV_QUEUE_MAX_SIZE :: nat where
  "RECV_QUEUE_MAX_SIZE = 1024"

definition SEND_QUEUE_MAX_SIZE :: nat where
  "SEND_QUEUE_MAX_SIZE = 1024"

text \<open>Where the background sender stands: waiting for a datagram, or for the link address of one.\<close>

datatype udp_sender = SenderPop bool | SenderQuery slot arp_query

record 'c udp_peer =
  up_ephemeral_ports :: ephemeral_ports
  up_sockets :: "qdesc \<Rightarrow> sockaddr option option"
  up_bound :: "sockaddr \<Rightarrow> nat option"
  up_queues :: "nat \<Rightarrow> 'c shared_queue"
  up_next_queue :: nat
  up_send_queue :: "'c shared_queue"
  up_local_link :: mac_address
  up_local_ip :: ipv4addr
  up_checksum_offload :: bool
  up_background :: udp_sender
  up_transmitted :: "udp_datagram list"

text \<open>A new peer, with its background task scheduled. The pool of ports comes from the random-number generator.\<close>

definition udp_peer_new :: "('c, slot) channel_ops \<Rightarrow> ephemeral_ports \<Rightarrow> mac_address \<Rightarrow> ipv4addr \<Rightarrow> bool \<Rightarrow> 'c udp_peer" where
  "udp_peer_new M ports link ip offload =
     \<lparr>up_ephemeral_ports = ports, up_sockets = Map.empty, up_bound = Map.empty, up_queues = (\<lambda>_. sq_new M RECV_QUEUE_MAX_SIZE),
      up_next_queue = 0, up_send_queue = sq_new M SEND_QUEUE_MAX_SIZE, up_local_link = link, up_local_ip = ip,
      up_checksum_offload = offload, up_background = SenderPop False, up_transmitted = []\<rparr>"

definition udp_send :: "mac_address \<Rightarrow> bytes \<Rightarrow> sockaddr \<Rightarrow> sockaddr \<Rightarrow> 'c udp_peer \<Rightarrow> 'c udp_peer" where
  "udp_send remote_link buf local remote p =
     p\<lparr>up_transmitted := up_transmitted p @
         [\<lparr>ud_ethernet2_hdr = eth_new remote_link (up_local_link p) Ipv4,
           ud_ipv4_hdr = ipv4_new (up_local_ip p) (fst remote) UDP,
           ud_udp_hdr = udp_new (snd local) (snd remote), ud_data = buf, ud_checksum_offload = up_checksum_offload p\<rparr>]\<rparr>"

definition udp_socket :: "qdesc \<Rightarrow> 'c udp_peer \<Rightarrow> unit outcome \<times> 'c udp_peer" where
  "udp_socket qd p =
     (case up_sockets p qd of
        None \<Rightarrow> (Ok (), p\<lparr>up_sockets := (up_sockets p)(qd \<mapsto> None)\<rparr>)
      | Some _ \<Rightarrow> (Err (fail_new EEXIST ''queue descriptor in use''), p))"

definition udp_bind_port :: "u16 \<Rightarrow> ephemeral_ports \<Rightarrow> u16 outcome \<times> ephemeral_ports" where
  "udp_bind_port port ports =
     (if is_private port then (case alloc_port port ports of (Ok _, ports) \<Rightarrow> (Ok port, ports) | (Err e, ports) \<Rightarrow> (Err e, ports) | (Panic, ports) \<Rightarrow> (Panic, ports))
      else if port = 0 then alloc_any ports
      else (Ok port, ports))"

definition udp_bind :: "('c, slot) channel_ops \<Rightarrow> qdesc \<Rightarrow> sockaddr \<Rightarrow> 'c udp_peer \<Rightarrow> unit outcome \<times> 'c udp_peer" where
  "udp_bind M qd addr p =
     (if up_bound p addr \<noteq> None then (Err (fail_new EADDRINUSE ''address in use''), p)
      else case udp_bind_port (snd addr) (up_ephemeral_ports p) of
             (Panic, ports) \<Rightarrow> (Panic, p\<lparr>up_ephemeral_ports := ports\<rparr>)
           | (Err e, ports) \<Rightarrow> (Err e, p\<lparr>up_ephemeral_ports := ports\<rparr>)
           | (Ok port, ports) \<Rightarrow>
               let addr = (fst addr, port);
                   p = p\<lparr>up_ephemeral_ports := ports\<rparr>;
                   rollback = (\<lambda>p. if is_private port then p\<lparr>up_ephemeral_ports := free_port port (up_ephemeral_ports p)\<rparr> else p)
               in case up_sockets p qd of
                    Some None \<Rightarrow>
                      let q = up_next_queue p;
                          used = (up_bound p addr \<noteq> None);
                          p = p\<lparr>up_sockets := (up_sockets p)(qd \<mapsto> Some addr),
                                up_queues := (up_queues p)(q := sq_new M RECV_QUEUE_MAX_SIZE),
                                up_next_queue := q + 1, up_bound := (up_bound p)(addr \<mapsto> q)\<rparr>
                      in if used then (Err (fail_new EADDRINUSE ''address in use''), rollback p) else (Ok (), p)
                  | _ \<Rightarrow> (Err (fail_new EBADF ''invalid queue descriptor''), rollback p))"

definition udp_close :: "qdesc \<Rightarrow> 'c udp_peer \<Rightarrow> unit outcome \<times> 'c udp_peer" where
  "udp_close qd p =
     (case up_sockets p qd of
        None \<Rightarrow> (Err (fail_new EBADF ''invalid queue descriptor''), p)
      | Some socket \<Rightarrow>
          let p = p\<lparr>up_sockets := (up_sockets p)(qd := None)\<rparr>
          in case socket of
               None \<Rightarrow> (Err (fail_new EBADF ''invalid queue descriptor''), p)
             | Some local \<Rightarrow>
                 let r = (if up_bound p local \<noteq> None then Ok () else Err (fail_new EBADF ''invalid queue descriptor''))
                 in (r, p\<lparr>up_bound := (up_bound p)(local := None)\<rparr>))"

definition udp_pushto ::
  "('c, slot) channel_ops \<Rightarrow> arp_peer \<Rightarrow> qdesc \<Rightarrow> bytes \<Rightarrow> sockaddr \<Rightarrow> 'c udp_peer \<Rightarrow> (unit outcome \<times> 'c udp_peer) option" where
  "udp_pushto M arp qd data remote p =
     (case up_sockets p qd of
        Some (Some local) \<Rightarrow>
          (case try_query (fst remote) arp of
             Some link \<Rightarrow> Some (Ok (), udp_send link data local remote p)
           | None \<Rightarrow>
               map_option (\<lambda>(r, q). (r, p\<lparr>up_send_queue := q\<rparr>))
                 (sq_push M \<lparr>sl_local = local, sl_remote = remote, sl_data = data\<rparr> (up_send_queue p)))
      | _ \<Rightarrow> Some (Err (fail_new EBADF ''invalid queue descriptor''), p))"

text \<open>A pop is a future: its descriptor and the queue it shares. One poll of it gives a result or is pending.\<close>

definition udp_pop :: "qdesc \<Rightarrow> 'c udp_peer \<Rightarrow> (qdesc \<times> nat) outcome" where
  "udp_pop qd p =
     (case up_sockets p qd of
        Some (Some local) \<Rightarrow> (case up_bound p local of Some q \<Rightarrow> Ok (qd, q) | None \<Rightarrow> Panic)
      | _ \<Rightarrow> Panic)"

definition udp_pop_poll ::
  "('c, slot) channel_ops \<Rightarrow> qdesc \<times> nat \<Rightarrow> 'c udp_peer \<Rightarrow> (sockaddr \<times> bytes) outcome option \<times> 'c udp_peer" where
  "udp_pop_poll M fut p =
     (case sq_try_pop M (up_queues p (snd fut)) of
        (r, q) \<Rightarrow>
          (case r of
             Ok (Some msg) \<Rightarrow> Some (Ok (sl_remote msg, sl_data msg))
           | Ok None \<Rightarrow> None
           | Err e \<Rightarrow> Some (Err e)
           | Panic \<Rightarrow> Some Panic,
           p\<lparr>up_queues := (up_queues p)(snd fut := q)\<rparr>))"

definition UNSPECIFIED :: ipv4addr where
  "UNSPECIFIED = 0"

definition udp_deliver :: "('c, slot) channel_ops \<Rightarrow> nat \<Rightarrow> slot \<Rightarrow> 'c udp_peer \<Rightarrow> (unit outcome \<times> 'c udp_peer) option" where
  "udp_deliver M i msg p =
     map_option (\<lambda>(r, q). (case r of Ok _ \<Rightarrow> Ok () | _ \<Rightarrow> Panic, p\<lparr>up_queues := (up_queues p)(i := q)\<rparr>)) (sq_push M msg (up_queues p i))"

definition udp_receive :: "('c, slot) channel_ops \<Rightarrow> ipv4_header \<Rightarrow> bytes \<Rightarrow> 'c udp_peer \<Rightarrow> (unit outcome \<times> 'c udp_peer) option" where
  "udp_receive M ip buf p =
     (case udp_parse_from_slice ip buf (up_checksum_offload p) of
        Panic \<Rightarrow> Some (Panic, p)
      | Err e \<Rightarrow> Some (Err e, p)
      | Ok (hdr, data) \<Rightarrow>
          let local = (ip_dst_addr ip, udp_dest_port hdr);
              remote = (ip_src_addr ip, udp_src_port hdr);
              msg = \<lparr>sl_local = local, sl_remote = remote, sl_data = data\<rparr>
          in case up_bound p local of
               Some i \<Rightarrow> udp_deliver M i msg p
             | None \<Rightarrow>
                 (case up_bound p (UNSPECIFIED, udp_dest_port hdr) of
                    Some i \<Rightarrow> udp_deliver M i msg p
                  | None \<Rightarrow> Some (Err (fail_new ENOTCONN ''port not bound''), p)))"

text \<open>One poll of the background sender: it goes on until it has to wait. The peer and the ARP peer change.\<close>

partial_function (option) udp_background_sender ::
  "('c, slot) channel_ops \<Rightarrow> (nat \<Rightarrow> bool) \<Rightarrow> arp_peer \<Rightarrow> 'c udp_peer \<Rightarrow> (unit outcome \<times> arp_peer \<times> 'c udp_peer) option" where
  "udp_background_sender M timer_first arp p =
     (case up_background p of
        SenderPop resumed \<Rightarrow>
          (case sq_pop M resumed (up_send_queue p) of
             (None, q) \<Rightarrow> Some (Ok (), arp, p\<lparr>up_send_queue := q, up_background := SenderPop True\<rparr>)
           | (Some Panic, q) \<Rightarrow> Some (Panic, arp, p\<lparr>up_send_queue := q\<rparr>)
           | (Some (Err e), q) \<Rightarrow> udp_background_sender M timer_first arp (p\<lparr>up_send_queue := q, up_background := SenderPop False\<rparr>)
           | (Some (Ok msg), q) \<Rightarrow>
               udp_background_sender M timer_first arp
                 (p\<lparr>up_send_queue := q, up_background := SenderQuery msg (QueryStart (fst (sl_remote msg)))\<rparr>))
      | SenderQuery msg query \<Rightarrow>
          (case query_poll timer_first query arp of
             (Inr query, arp) \<Rightarrow> Some (Ok (), arp, p\<lparr>up_background := SenderQuery msg query\<rparr>)
           | (Inl Panic, arp) \<Rightarrow> Some (Panic, arp, p)
           | (Inl (Err e), arp) \<Rightarrow> udp_background_sender M timer_first arp (p\<lparr>up_background := SenderPop False\<rparr>)
           | (Inl (Ok link), arp) \<Rightarrow>
               udp_background_sender M timer_first arp
                 (udp_send link (sl_data msg) (sl_local msg) (sl_remote msg) (p\<lparr>up_background := SenderPop False\<rparr>))))"

end
