(* ===== verification/Ip_Frame.thy ===== *)
theory Ip_Frame
  imports Link_Layer Ipv4_Datagram
begin

text \<open>
  Frames that carry an IPv4 datagram: the link and network headers in front of any payload are taken apart again by the two
  parsers, whatever padding the link adds. TCP, UDP and ICMPv4 share this.
\<close>

lemma ip_frame:
  assumes "ipv4_sendable h (length payload)" "34 \<le> length hb"
  shows "\<exists>e w ip. eth_serialize eh (slice 0 14 hb) = Some e \<and> ipv4_serialize h (slice 14 34 hb) (length payload) = Some w
    \<and> eth_parse (e @ w @ payload @ padding) = Ok (eh, w @ payload @ padding) \<and> ipv4_parse (w @ payload @ padding) = Ok (ip, payload)
    \<and> ip_src_addr ip = ip_src_addr h \<and> ip_dst_addr ip = ip_dst_addr h \<and> ip_protocol ip = ip_protocol h"
proof -
  obtain e where e: "eth_serialize eh (slice 0 14 hb) = Some e" "\<And>p. eth_parse (e @ p) = Ok (eh, p)"
    using eth_serialize_bytes [of "slice 0 14 hb" eh] assms(2) by (simp add: ETHERNET2_HEADER_SIZE_def eth_parse_bytes eth_new_def)
  obtain c0 c1 where c: "be16 (ipv4_compute_checksum (ipv4_wire h (length payload) 0 0)) = [c0, c1]"
    and w: "ipv4_serialize h (slice 14 34 hb) (length payload) = Some (ipv4_wire h (length payload) c0 c1)"
    using ipv4_serialize_wire [of "slice 14 34 hb" h "length payload"] assms(2) by (auto simp: IPV4_HEADER_MIN_SIZE_def)
  from e w ipv4_parse_wire [OF assms(1) c refl, of padding] show ?thesis
    by (intro exI conjI) (assumption | simp)+
qed

end
