(* ===== verification/Udp_Tables.thy ===== *)
theory Udp_Tables
  imports Udp_Peer Arp_Resolution Ip_Frame
begin

text \<open>
  What UDP sockets guarantee, for every channel that keeps its contract: shared queues return and keep the newest
  messages, the tables of a peer agree in every reachable state so that no received bytes abort it, and a datagram arrives
  at the socket it was sent to. A burst of datagrams to an unresolved address aborts the process. With \<^verbatim>\<open>CORE_ID\<close> set, the
  tables agree as long as no socket is bound explicitly to the port that it adds to the pool, and break when one is.
\<close>

section \<open>Shared queues\<close>

text \<open>The contract of the bounded channel: it has room for its buffer and one more message of its only sender, and gives the messages
  in order.\<close>

definition channel_laws :: "('c, 'a) channel_ops \<Rightarrow> ('c \<Rightarrow> 'a list) \<Rightarrow> ('c \<Rightarrow> nat) \<Rightarrow> bool" where
  "channel_laws M msgs buf \<longleftrightarrow>
     (\<forall>n. msgs (ch_new M n) = [] \<and> buf (ch_new M n) = n)
     \<and> (\<forall>m c. length (msgs c) \<le> buf c \<longrightarrow> (\<exists>c'. ch_try_send M m c = Some c' \<and> msgs c' = msgs c @ [m] \<and> buf c' = buf c))
     \<and> (\<forall>c. msgs c = [] \<longrightarrow> ch_try_next M c = (None, c))
     \<and> (\<forall>c m ms. msgs c = m # ms \<longrightarrow> (\<exists>c'. ch_try_next M c = (Some (Some m), c') \<and> msgs c' = ms \<and> buf c' = buf c))"

lemma channel_send:
  "channel_laws M msgs buf \<Longrightarrow> length (msgs c) \<le> buf c \<Longrightarrow> \<exists>c'. ch_try_send M m c = Some c' \<and> msgs c' = msgs c @ [m] \<and> buf c' = buf c"
  unfolding channel_laws_def by blast

abbreviation sq_msgs :: "('c \<Rightarrow> 'a list) \<Rightarrow> 'c shared_queue \<Rightarrow> 'a list" where
  "sq_msgs msgs q \<equiv> msgs (sq_channel q)"

definition sq_ok :: "('c \<Rightarrow> 'a list) \<Rightarrow> ('c \<Rightarrow> nat) \<Rightarrow> 'c shared_queue \<Rightarrow> bool" where
  "sq_ok msgs buf q \<longleftrightarrow> sq_length q = length (sq_msgs msgs q) \<and> sq_length q \<le> sq_capacity q \<and> buf (sq_channel q) = sq_capacity q"

lemma sq_new_ok: "channel_laws M msgs buf \<Longrightarrow> sq_ok msgs buf (sq_new M n) \<and> sq_msgs msgs (sq_new M n) = []"
  by (simp add: channel_laws_def sq_ok_def sq_new_def)

text \<open>Taking a message, in the two ways the code has.\<close>

lemma sq_try_pop_ok:
  assumes "channel_laws M msgs buf" "sq_ok msgs buf q" "\<not> sq_awaited q"
  shows "sq_msgs msgs q = [] \<Longrightarrow> sq_try_pop M q = (Ok None, q)"
    and "sq_msgs msgs q = m # ms \<Longrightarrow> \<exists>q'. sq_try_pop M q = (Ok (Some m), q') \<and> sq_ok msgs buf q' \<and> sq_msgs msgs q' = ms
      \<and> sq_capacity q' = sq_capacity q \<and> \<not> sq_awaited q'"
proof -
  show "sq_try_pop M q = (Ok None, q)" if "sq_msgs msgs q = []"
    using assms that by (simp add: channel_laws_def sq_try_pop_def)
  show "\<exists>q'. sq_try_pop M q = (Ok (Some m), q') \<and> sq_ok msgs buf q' \<and> sq_msgs msgs q' = ms
      \<and> sq_capacity q' = sq_capacity q \<and> \<not> sq_awaited q'" if m: "sq_msgs msgs q = m # ms"
  proof -
    obtain c where "ch_try_next M (sq_channel q) = (Some (Some m), c)" "msgs c = ms" "buf c = buf (sq_channel q)"
      using assms(1) m unfolding channel_laws_def by blast
    then show ?thesis
      using assms m by (simp add: sq_try_pop_def sq_ok_def)
  qed
qed

lemma sq_pop_ok:
  assumes "channel_laws M msgs buf" "sq_ok msgs buf q" "sq_awaited q \<longleftrightarrow> resumed"
  shows "sq_msgs msgs q = [] \<Longrightarrow> sq_pop M resumed q = (None, q\<lparr>sq_awaited := True\<rparr>)"
    and "sq_msgs msgs q = m # ms \<Longrightarrow> \<exists>q'. sq_pop M resumed q = (Some (Ok m), q') \<and> sq_ok msgs buf q' \<and> sq_msgs msgs q' = ms
      \<and> sq_capacity q' = sq_capacity q \<and> \<not> sq_awaited q'"
proof -
  show "sq_pop M resumed q = (None, q\<lparr>sq_awaited := True\<rparr>)" if "sq_msgs msgs q = []"
    using assms that by (simp add: channel_laws_def sq_pop_def)
  show "\<exists>q'. sq_pop M resumed q = (Some (Ok m), q') \<and> sq_ok msgs buf q' \<and> sq_msgs msgs q' = ms
      \<and> sq_capacity q' = sq_capacity q \<and> \<not> sq_awaited q'" if m: "sq_msgs msgs q = m # ms"
  proof -
    obtain c where "ch_try_next M (sq_channel q) = (Some (Some m), c)" "msgs c = ms" "buf c = buf (sq_channel q)"
      using assms(1) m unfolding channel_laws_def by blast
    then show ?thesis
      using assms m by (simp add: sq_pop_def sq_ok_def)
  qed
qed

lemma sq_make_room_ok:
  assumes "channel_laws M msgs buf" "sq_ok msgs buf q" "\<not> sq_awaited q" "2 \<le> sq_capacity q"
  shows "\<exists>q'. sq_make_room M q = Some (Ok (), q') \<and> sq_ok msgs buf q' \<and> sq_capacity q' = sq_capacity q \<and> \<not> sq_awaited q'
    \<and> sq_msgs msgs q' = drop (sq_length q - (sq_capacity q div 2 - 1)) (sq_msgs msgs q)"
  using assms(2-4)
proof (induction "sq_length q" arbitrary: q rule: less_induct)
  case less
  have len: "sq_length q = length (sq_msgs msgs q)"
    using less.prems(1) by (simp add: sq_ok_def)
  show ?case
  proof (cases "sq_capacity q div 2 \<le> sq_length q")
    case True
    have "1 \<le> sq_capacity q div 2"
      using less.prems(3) div_le_mono [of 2 "sq_capacity q" 2] by simp
    then obtain m ms where m: "sq_msgs msgs q = m # ms"
      using True len by (cases "sq_msgs msgs q") auto
    then obtain q1 where q1: "sq_try_pop M q = (Ok (Some m), q1)" "sq_ok msgs buf q1" "sq_msgs msgs q1 = ms"
      "sq_capacity q1 = sq_capacity q" "\<not> sq_awaited q1"
      using sq_try_pop_ok(2) [OF assms(1) less.prems(1,2) m] by blast
    have l1: "Suc (sq_length q1) = sq_length q"
      using q1(2,3) len m by (simp add: sq_ok_def)
    then obtain q' where "sq_make_room M q1 = Some (Ok (), q')" "sq_ok msgs buf q'" "sq_capacity q' = sq_capacity q1" "\<not> sq_awaited q'"
      "sq_msgs msgs q' = drop (sq_length q1 - (sq_capacity q1 div 2 - 1)) (sq_msgs msgs q1)"
      using less.hyps [OF _ q1(2,5)] q1(4) less.prems(3) by auto
    moreover have "sq_length q - (sq_capacity q div 2 - 1) = Suc (sq_length q1 - (sq_capacity q div 2 - 1))"
      using l1 True \<open>1 \<le> sq_capacity q div 2\<close> by simp
    moreover have "sq_make_room M q = sq_make_room M q1"
      using True q1(1) by (subst sq_make_room.simps) simp
    ultimately show ?thesis
      using q1(3,4) m by auto
  next
    case False
    then have "sq_make_room M q = Some (Ok (), q)"
      by (subst sq_make_room.simps) simp
    then show ?thesis
      using less.prems False by auto
  qed
qed

lemma sq_push_ok:
  assumes "channel_laws M msgs buf" "sq_ok msgs buf q" "2 \<le> sq_capacity q" "sq_length q = sq_capacity q \<longrightarrow> \<not> sq_awaited q"
  shows "\<exists>q'. sq_push M m q = Some (Ok (), q') \<and> sq_ok msgs buf q' \<and> sq_capacity q' = sq_capacity q \<and> sq_awaited q' = sq_awaited q
    \<and> sq_msgs msgs q' = (if sq_length q = sq_capacity q then drop (sq_capacity q - (sq_capacity q div 2 - 1)) (sq_msgs msgs q)
                          else sq_msgs msgs q) @ [m]"
proof -
  obtain q1 where q1: "(if sq_length q = sq_capacity q then sq_make_room M q else Some (Ok (), q)) = Some (Ok (), q1)"
    "sq_ok msgs buf q1" "sq_capacity q1 = sq_capacity q" "sq_awaited q1 = sq_awaited q"
    "sq_msgs msgs q1 = (if sq_length q = sq_capacity q then drop (sq_capacity q - (sq_capacity q div 2 - 1)) (sq_msgs msgs q)
                          else sq_msgs msgs q)"
    using sq_make_room_ok [OF assms(1,2) _ assms(3)] assms(2,4) by (cases "sq_length q = sq_capacity q") auto
  have "sq_length q1 < sq_capacity q1"
    using q1(2,3,5) assms(2,3) by (auto simp: sq_ok_def split: if_splits)
  then obtain c where "ch_try_send M m (sq_channel q1) = Some c" "msgs c = sq_msgs msgs q1 @ [m]" "buf c = buf (sq_channel q1)"
    using channel_send [OF assms(1), of "sq_channel q1" m] q1(2) by (auto simp: sq_ok_def)
  then show ?thesis
    using q1 \<open>sq_length q1 < sq_capacity q1\<close> by (simp add: sq_push_def sq_ok_def)
qed

text \<open>A list as a channel.\<close>

definition list_channel :: "(nat \<times> 'a list, 'a) channel_ops" where
  "list_channel =
     \<lparr>ch_new = (\<lambda>n. (n, [])),
      ch_try_send = (\<lambda>m (n, ms). if length ms \<le> n then Some (n, ms @ [m]) else None),
      ch_try_next = (\<lambda>(n, ms). case ms of [] \<Rightarrow> (None, (n, [])) | m # ms \<Rightarrow> (Some (Some m), (n, ms)))\<rparr>"

lemma list_channel_laws: "channel_laws list_channel snd fst"
  by (simp add: channel_laws_def list_channel_def)

text \<open>pushing to a shared queue always returns and always has room for the message. A queue that is not full gets it at its
  end; a full one first drops its oldest messages until fewer than half of its capacity are left, so the newest ones
  survive, in order.\<close>

theorem push_keeps_newest:
  assumes "channel_laws M msgs buf" "sq_ok msgs buf q" "2 \<le> sq_capacity q" "\<not> sq_awaited q"
  shows "\<exists>q'. sq_push M m q = Some (Ok (), q') \<and> sq_ok msgs buf q'
    \<and> sq_msgs msgs q' = (if sq_length q = sq_capacity q then drop (sq_capacity q - (sq_capacity q div 2 - 1)) (sq_msgs msgs q)
                          else sq_msgs msgs q) @ [m]"
  using sq_push_ok [OF assms(1-3)] assms(4) by blast

theorem push_keeps_newest_witness:
  "\<exists>q'. sq_push list_channel 5 \<lparr>sq_channel = (4, [1, 2, 3, 4 :: nat]), sq_length = 4, sq_capacity = 4, sq_awaited = False\<rparr> = Some (Ok (), q')
    \<and> snd (sq_channel q') = [4, 5]"
  using push_keeps_newest [OF list_channel_laws, of "\<lparr>sq_channel = (4, [1, 2, 3, 4 :: nat]), sq_length = 4, sq_capacity = 4, sq_awaited = False\<rparr>" 5]
  by (auto simp: sq_ok_def)

section \<open>Tables\<close>

definition udp_maps_ok :: "'c udp_peer \<Rightarrow> bool" where
  "udp_maps_ok p \<longleftrightarrow>
     (\<forall>qd a. up_sockets p qd = Some (Some a) \<longrightarrow> up_bound p a \<noteq> None)
     \<and> (\<forall>qd qd' a. up_sockets p qd = Some (Some a) \<longrightarrow> up_sockets p qd' = Some (Some a) \<longrightarrow> qd = qd')
     \<and> (\<forall>a i. up_bound p a = Some i \<longrightarrow> (\<exists>qd. up_sockets p qd = Some (Some a)) \<and> i < up_next_queue p)
     \<and> (\<forall>a b i. up_bound p a = Some i \<longrightarrow> up_bound p b = Some i \<longrightarrow> a = b)"

definition udp_ports_ok :: "'c udp_peer \<Rightarrow> bool" where
  "udp_ports_ok p \<longleftrightarrow> distinct (up_ephemeral_ports p)
     \<and> (\<forall>a. up_bound p a \<noteq> None \<longrightarrow> snd a \<notin> set (up_ephemeral_ports p))"

text \<open>The pool holds private ports, and possibly some of a given set: the port that \<^verbatim>\<open>CORE_ID\<close> adds is not private.\<close>

definition pool_within :: "u16 set \<Rightarrow> 'c udp_peer \<Rightarrow> bool" where
  "pool_within E p \<longleftrightarrow> (\<forall>n\<in>set (up_ephemeral_ports p). is_private n \<or> n \<in> E)"

definition udp_queues_ok :: "('c \<Rightarrow> slot list) \<Rightarrow> ('c \<Rightarrow> nat) \<Rightarrow> 'c udp_peer \<Rightarrow> bool" where
  "udp_queues_ok msgs buf p \<longleftrightarrow>
     (\<forall>i. sq_ok msgs buf (up_queues p i) \<and> \<not> sq_awaited (up_queues p i) \<and> sq_capacity (up_queues p i) = RECV_QUEUE_MAX_SIZE)
     \<and> sq_ok msgs buf (up_send_queue p) \<and> sq_capacity (up_send_queue p) = SEND_QUEUE_MAX_SIZE
     \<and> (sq_awaited (up_send_queue p) \<longleftrightarrow> up_background p = SenderPop True)"

definition udp_ok :: "('c \<Rightarrow> slot list) \<Rightarrow> ('c \<Rightarrow> nat) \<Rightarrow> 'c udp_peer \<Rightarrow> bool" where
  "udp_ok msgs buf p \<longleftrightarrow> udp_maps_ok p \<and> udp_ports_ok p \<and> udp_queues_ok msgs buf p"

lemmas udp_ok_defs = udp_ok_def udp_maps_ok_def udp_ports_ok_def udp_queues_ok_def

lemma udp_new_ok:
  assumes "channel_laws M msgs buf" "distinct ports"
  shows "udp_ok msgs buf (udp_peer_new M ports link ip offload)"
  using assms sq_new_ok [OF assms(1)] by (auto simp: udp_ok_defs udp_peer_new_def sq_new_def)

lemma udp_maps_cong:
  assumes "\<And>qd a. up_sockets p' qd = Some (Some a) \<longleftrightarrow> up_sockets p qd = Some (Some a)" "up_bound p' = up_bound p"
    "up_next_queue p' = up_next_queue p"
  shows "udp_maps_ok p' = udp_maps_ok p"
  unfolding udp_maps_ok_def assms ..

lemma udp_mapsI:
  assumes "\<And>qd a. up_sockets p qd = Some (Some a) \<Longrightarrow> up_bound p a \<noteq> None"
    and "\<And>qd qd' a. up_sockets p qd = Some (Some a) \<Longrightarrow> up_sockets p qd' = Some (Some a) \<Longrightarrow> qd = qd'"
    and "\<And>a i. up_bound p a = Some i \<Longrightarrow> \<exists>qd. up_sockets p qd = Some (Some a)"
    and "\<And>a i. up_bound p a = Some i \<Longrightarrow> i < up_next_queue p"
    and "\<And>a b i. up_bound p a = Some i \<Longrightarrow> up_bound p b = Some i \<Longrightarrow> a = b"
  shows "udp_maps_ok p"
  unfolding udp_maps_ok_def using assms by blast

lemma udp_mapsD:
  assumes "udp_maps_ok p"
  shows "up_sockets p qd = Some (Some a) \<Longrightarrow> up_bound p a \<noteq> None"
    and "up_sockets p qd = Some (Some a) \<Longrightarrow> up_sockets p qd' = Some (Some a) \<Longrightarrow> qd = qd'"
    and "up_bound p a = Some i \<Longrightarrow> \<exists>qd. up_sockets p qd = Some (Some a)"
    and "up_bound p a = Some i \<Longrightarrow> i < up_next_queue p"
    and "up_bound p a = Some i \<Longrightarrow> up_bound p b = Some i \<Longrightarrow> a = b"
  using assms unfolding udp_maps_ok_def by blast+

lemma udp_socket_ok:
  assumes "udp_ok msgs buf p"
  shows "udp_ok msgs buf (snd (udp_socket qd p))"
proof (cases "up_sockets p qd")
  case None
  then have "udp_maps_ok (snd (udp_socket qd p)) = udp_maps_ok p"
    by (intro udp_maps_cong) (auto simp: udp_socket_def)
  then show ?thesis
    using assms None by (simp add: udp_socket_def udp_ok_def udp_ports_ok_def udp_queues_ok_def)
qed (use assms in \<open>simp add: udp_socket_def\<close>)

lemma udp_close_ok:
  assumes "udp_ok msgs buf p"
  shows "udp_ok msgs buf (snd (udp_close qd p))"
proof (cases "up_sockets p qd")
  case (Some s)
  show ?thesis
  proof (cases s)
    case None
    then show ?thesis
      using assms Some udp_maps_cong [of "p\<lparr>up_sockets := (up_sockets p)(qd := None)\<rparr>" p]
      by (auto simp: udp_close_def udp_ok_def udp_ports_ok_def udp_queues_ok_def)
  next
    case (Some a)
    have s: "up_sockets p qd = Some (Some a)"
      using \<open>up_sockets p qd = Some s\<close> Some by simp
    let ?p = "p\<lparr>up_sockets := (up_sockets p)(qd := None), up_bound := (up_bound p)(a := None)\<rparr>"
    have maps: "udp_maps_ok p"
      using assms by (simp add: udp_ok_def)
    have "udp_maps_ok ?p"
    proof (rule udp_mapsI)
      show "up_bound ?p b \<noteq> None" if "up_sockets ?p qd' = Some (Some b)" for qd' b
      proof -
        have qd': "up_sockets p qd' = Some (Some b)" "qd' \<noteq> qd"
          using that by (auto split: if_splits)
        then have "b \<noteq> a"
          using udp_mapsD(2) [OF maps s] by blast
        then show ?thesis
          using udp_mapsD(1) [OF maps qd'(1)] by simp
      qed
      show "\<exists>qd'. up_sockets ?p qd' = Some (Some b)" if "up_bound ?p b = Some i" for b i
      proof -
        have "b \<noteq> a" "up_bound p b = Some i"
          using that by (auto split: if_splits)
        then obtain qd' where "up_sockets p qd' = Some (Some b)" "qd' \<noteq> qd"
          using udp_mapsD(3) [OF maps] s by (metis option.inject)
        then show ?thesis
          by auto
      qed
      show "qd1 = qd2" if "up_sockets ?p qd1 = Some (Some b)" "up_sockets ?p qd2 = Some (Some b)" for qd1 qd2 b
        using that udp_mapsD(2) [OF maps, of qd1 b qd2] by (simp split: if_splits)
      show "i < up_next_queue ?p" if "up_bound ?p b = Some i" for b i
        using that udp_mapsD(4) [OF maps, of b i] by (simp split: if_splits)
      show "b = c" if "up_bound ?p b = Some i" "up_bound ?p c = Some i" for b c i
        using that udp_mapsD(5) [OF maps, of b i c] by (simp split: if_splits)
    qed
    moreover have "snd (udp_close qd p) = ?p"
      using s by (simp add: udp_close_def)
    ultimately show ?thesis
      using assms by (simp add: udp_ok_def udp_ports_ok_def udp_queues_ok_def)
  qed
qed (use assms in \<open>simp add: udp_close_def\<close>)

text \<open>A port for a new binding: it is not in the pool any more, and when it came from the pool no one is bound to it.\<close>

lemma udp_bind_port_cases:
  assumes "udp_ports_ok p" "up_bound p a = None" "snd a = 0 \<or> is_private (snd a) \<or> snd a \<notin> set (up_ephemeral_ports p)"
  shows "(\<exists>port ports. udp_bind_port (snd a) (up_ephemeral_ports p) = (Ok port, ports) \<and> port \<notin> set ports
      \<and> set ports \<subseteq> set (up_ephemeral_ports p) \<and> distinct ports \<and> up_bound p (fst a, port) = None
      \<and> (is_private port \<longrightarrow> port \<in> set (up_ephemeral_ports p)))
    \<or> (\<exists>e. udp_bind_port (snd a) (up_ephemeral_ports p) = (Err e, up_ephemeral_ports p))"
proof -
  let ?ports = "up_ephemeral_ports p"
  have d: "distinct ?ports" and free: "up_bound p (fst a, n) = None" if "n \<in> set ?ports" for n
    using assms(1) that unfolding udp_ports_ok_def by force+
  show ?thesis
  proof (cases "is_private (snd a)")
    case True
    then show ?thesis
      using assms(1,2) by (auto simp: udp_bind_port_def alloc_port_def udp_ports_ok_def)
  next
    case np: False
    show ?thesis
    proof (cases "snd a = 0 \<and> ?ports \<noteq> []")
      case True
      have "last ?ports \<notin> set (butlast ?ports)"
        using assms(1) True by (metis append_butlast_last_id distinct_butlast not_distinct_conv_prefix udp_ports_ok_def)
      then show ?thesis
        using assms(1) True np free [OF last_in_set] by (auto simp: udp_bind_port_def alloc_any_def udp_ports_ok_def distinct_butlast dest: in_set_butlastD)
    next
      case False
      then show ?thesis
        using assms np by (auto simp: udp_bind_port_def alloc_any_def udp_ports_ok_def)
    qed
  qed
qed

lemma udp_pool_ok:
  assumes "udp_ok msgs buf p" "distinct ps" "set ps \<subseteq> set (up_ephemeral_ports p)"
  shows "udp_ok msgs buf (p\<lparr>up_ephemeral_ports := ps\<rparr>)"
proof -
  have "udp_ports_ok (p\<lparr>up_ephemeral_ports := ps\<rparr>)"
    using assms unfolding udp_ok_def udp_ports_ok_def by simp blast
  then show ?thesis
    using assms(1) by (simp add: udp_ok_def udp_queues_ok_def udp_maps_ok_def)
qed

lemma udp_bind_ok:
  assumes "channel_laws M msgs buf" "udp_ok msgs buf p" "snd a = 0 \<or> is_private (snd a) \<or> snd a \<notin> set (up_ephemeral_ports p)"
  shows "udp_ok msgs buf (snd (udp_bind M qd a p)) \<and> fst (udp_bind M qd a p) \<noteq> Panic"
proof (cases "up_bound p a = None")
  case True
  have maps: "udp_maps_ok p" and ports: "udp_ports_ok p" and qs: "udp_queues_ok msgs buf p"
    using assms(2) by (simp_all add: udp_ok_def)
  from udp_bind_port_cases [OF ports True assms(3)] show ?thesis
  proof (elim disjE exE conjE)
    fix e
    assume "udp_bind_port (snd a) (up_ephemeral_ports p) = (Err e, up_ephemeral_ports p)"
    then show ?thesis
      using True assms(2) by (simp add: udp_bind_def)
  next
    fix port ps
    assume b: "udp_bind_port (snd a) (up_ephemeral_ports p) = (Ok port, ps)" "port \<notin> set ps" "set ps \<subseteq> set (up_ephemeral_ports p)"
      "distinct ps" "up_bound p (fst a, port) = None" "is_private port \<longrightarrow> port \<in> set (up_ephemeral_ports p)"
    let ?p = "p\<lparr>up_ephemeral_ports := ps\<rparr>"
    have roll: "udp_ok msgs buf (if is_private port then ?p\<lparr>up_ephemeral_ports := free_port port ps\<rparr> else ?p)"
      using udp_pool_ok [OF assms(2), of ps] udp_pool_ok [OF assms(2), of "free_port port ps"] b(2-4,6)
      by (auto simp: free_port_def)
    show ?thesis
    proof (cases "up_sockets p qd = Some None")
      case s: True
      let ?q = "?p\<lparr>up_sockets := (up_sockets p)(qd \<mapsto> Some (fst a, port)),
                     up_queues := (up_queues p)(up_next_queue p := sq_new M RECV_QUEUE_MAX_SIZE),
                     up_next_queue := up_next_queue p + 1, up_bound := (up_bound p)((fst a, port) \<mapsto> up_next_queue p)\<rparr>"
      have "udp_bind M qd a p = (Ok (), ?q)"
        using True b(1,5) s by (simp add: udp_bind_def Let_def)
      moreover have "udp_maps_ok ?q"
      proof (rule udp_mapsI)
        show "up_bound ?q c \<noteq> None" if "up_sockets ?q qd' = Some (Some c)" for qd' c
          using that udp_mapsD(1) [OF maps, of qd' c] by (simp split: if_splits)
        show "qd1 = qd2" if "up_sockets ?q qd1 = Some (Some c)" "up_sockets ?q qd2 = Some (Some c)" for qd1 qd2 c
          using that udp_mapsD(2) [OF maps, of qd1 c qd2] udp_mapsD(1) [OF maps, of qd1 c] udp_mapsD(1) [OF maps, of qd2 c] b(5)
          by (auto split: if_splits)
        show "\<exists>qd'. up_sockets ?q qd' = Some (Some c)" if "up_bound ?q c = Some i" for c i
          using that udp_mapsD(3) [OF maps, of c i] s by (auto split: if_splits) (metis option.distinct(1) option.inject)
        show "i < up_next_queue ?q" if "up_bound ?q c = Some i" for c i
          using that udp_mapsD(4) [OF maps, of c i] by (simp split: if_splits)
        show "c = d" if "up_bound ?q c = Some i" "up_bound ?q d = Some i" for c d i
          using that udp_mapsD(5) [OF maps, of c i d] udp_mapsD(4) [OF maps, of c i] udp_mapsD(4) [OF maps, of d i]
          by (auto split: if_splits)
      qed
      moreover have "udp_ports_ok ?q"
        using udp_pool_ok [OF assms(2) b(4,3)] b(2) by (simp add: udp_ok_def udp_ports_ok_def)
      moreover have "udp_queues_ok msgs buf ?q"
        using qs sq_new_ok [OF assms(1), of RECV_QUEUE_MAX_SIZE] by (simp add: udp_queues_ok_def sq_new_def)
      ultimately show ?thesis
        by (simp add: udp_ok_def)
    next
      case False
      then have "udp_bind M qd a p = (Err (fail_new EBADF ''invalid queue descriptor''),
        if is_private port then ?p\<lparr>up_ephemeral_ports := free_port port ps\<rparr> else ?p)"
        using True b(1) by (cases "up_sockets p qd") (auto simp: udp_bind_def Let_def split: option.split)
      then show ?thesis
        using roll by simp
    qed
  qed
qed (use assms(2) in \<open>simp add: udp_bind_def\<close>)

lemma udp_send_ok [simp]: "udp_ok msgs buf (udp_send link data l r p) = udp_ok msgs buf p"
  by (simp add: udp_ok_defs udp_send_def)

lemma udp_send_fields:
  "up_send_queue (udp_send link data l r p) = up_send_queue p" "up_background (udp_send link data l r p) = up_background p"
  by (simp_all add: udp_send_def)

lemma udp_send_queue_ok:
  assumes "udp_ok msgs buf p" "sq_ok msgs buf q" "sq_capacity q = SEND_QUEUE_MAX_SIZE" "sq_awaited q \<longleftrightarrow> b = SenderPop True"
  shows "udp_ok msgs buf (p\<lparr>up_send_queue := q, up_background := b\<rparr>)"
  using assms by (simp add: udp_ok_defs)

lemma udp_queue_ok:
  assumes "udp_ok msgs buf p" "sq_ok msgs buf q" "sq_capacity q = RECV_QUEUE_MAX_SIZE" "\<not> sq_awaited q"
  shows "udp_ok msgs buf (p\<lparr>up_queues := (up_queues p)(i := q)\<rparr>)"
  using assms by (simp add: udp_ok_defs)

lemma udp_queuesD:
  assumes "udp_ok msgs buf p"
  shows "sq_ok msgs buf (up_queues p i)" "\<not> sq_awaited (up_queues p i)" "sq_capacity (up_queues p i) = RECV_QUEUE_MAX_SIZE"
    "sq_ok msgs buf (up_send_queue p)" "sq_capacity (up_send_queue p) = SEND_QUEUE_MAX_SIZE"
    "sq_awaited (up_send_queue p) \<longleftrightarrow> up_background p = SenderPop True"
  using assms by (simp_all add: udp_ok_def udp_queues_ok_def)

lemma udp_pop_poll_ok:
  assumes "channel_laws M msgs buf" "udp_ok msgs buf p"
  shows "udp_ok msgs buf (snd (udp_pop_poll M fut p)) \<and> fst (udp_pop_poll M fut p) \<noteq> Some Panic"
proof -
  note q = udp_queuesD(1-3) [OF assms(2), of "snd fut"]
  show ?thesis
  proof (cases "sq_msgs msgs (up_queues p (snd fut))")
    case Nil
    then show ?thesis
      using sq_try_pop_ok(1) [OF assms(1) q(1,2) Nil] assms(2) by (simp add: udp_pop_poll_def)
  next
    case (Cons m ms)
    then show ?thesis
      using sq_try_pop_ok(2) [OF assms(1) q(1,2) Cons] q(3) udp_queue_ok [OF assms(2)] by (auto simp: udp_pop_poll_def)
  qed
qed

text \<open>A message for a bound socket goes to the end of its queue; when that is full, its older half makes room.\<close>

lemma udp_deliver_ok:
  assumes "channel_laws M msgs buf" "udp_ok msgs buf p"
  shows "\<exists>p'. udp_deliver M i m p = Some (Ok (), p') \<and> udp_ok msgs buf p' \<and> up_sockets p' = up_sockets p \<and> up_bound p' = up_bound p
    \<and> (\<exists>n\<le>513. sq_msgs msgs (up_queues p' i) = drop n (sq_msgs msgs (up_queues p i)) @ [m])"
proof -
  note q = udp_queuesD(1-3) [OF assms(2), of i]
  have "2 \<le> sq_capacity (up_queues p i)"
    using q(3) by (simp add: RECV_QUEUE_MAX_SIZE_def)
  then obtain q' where q': "sq_push M m (up_queues p i) = Some (Ok (), q')" "sq_ok msgs buf q'" "sq_capacity q' = RECV_QUEUE_MAX_SIZE"
    "\<not> sq_awaited q'" "sq_msgs msgs q' = (if sq_length (up_queues p i) = sq_capacity (up_queues p i)
      then drop (sq_capacity (up_queues p i) - (sq_capacity (up_queues p i) div 2 - 1)) (sq_msgs msgs (up_queues p i))
      else sq_msgs msgs (up_queues p i)) @ [m]"
    using sq_push_ok [OF assms(1) q(1), of m] q by auto
  have "\<exists>n\<le>513. sq_msgs msgs q' = drop n (sq_msgs msgs (up_queues p i)) @ [m]"
    using q'(5) q(3) by (cases "sq_length (up_queues p i) = sq_capacity (up_queues p i)") (auto simp: RECV_QUEUE_MAX_SIZE_def intro: exI [of _ 0])
  then show ?thesis
    using q'(1-4) udp_queue_ok [OF assms(2)] by (simp add: udp_deliver_def)
qed

lemma udp_parse_no_panic: "udp_parse_from_slice ip b off \<noteq> Panic"
  by (auto simp: udp_parse_from_slice_def udp_checksum_def Let_def UDP_HEADER_SIZE_def expect_def)

lemma udp_receive_ok:
  assumes "channel_laws M msgs buf" "udp_ok msgs buf p"
  shows "\<exists>r p'. udp_receive M ip bs p = Some (r, p') \<and> r \<noteq> Panic \<and> udp_ok msgs buf p'"
proof (cases "udp_parse_from_slice ip bs (up_checksum_offload p)")
  case (Ok x)
  obtain hdr data where x: "x = (hdr, data)"
    by fastforce
  have "\<exists>p'. udp_deliver M i m p = Some (Ok (), p') \<and> udp_ok msgs buf p'" for i m
    using udp_deliver_ok [OF assms] by blast
  then have d: "\<exists>r p'. udp_deliver M i m p = Some (r, p') \<and> r \<noteq> Panic \<and> udp_ok msgs buf p'" for i m
    by (metis outcome.distinct(3))
  show ?thesis
    using assms(2) Ok x d by (cases "up_bound p (ip_dst_addr ip, udp_dest_port hdr)"; cases "up_bound p (UNSPECIFIED, udp_dest_port hdr)")
      (simp_all add: udp_receive_def Let_def)
qed (use assms(2) udp_parse_no_panic in \<open>auto simp: udp_receive_def\<close>)

section \<open>The background sender\<close>

text \<open>A poll of the background sender returns: every round takes a message out of the queue or ends a query.\<close>

lemma udp_background_ok:
  assumes "channel_laws M msgs buf" "udp_ok msgs buf p"
  shows "\<exists>r arp' p'. udp_background_sender M timer_first arp p = Some (r, arp', p') \<and> udp_ok msgs buf p'"
  using assms(2)
proof (induction "2 * length (sq_msgs msgs (up_send_queue p)) + (case up_background p of SenderPop _ \<Rightarrow> 0 | SenderQuery _ _ \<Rightarrow> 1)"
    arbitrary: arp p rule: less_induct)
  case less
  note q = udp_queuesD(4-6) [OF less.prems]
  note unf = udp_background_sender.simps [of M timer_first arp p]
  show ?case
  proof (cases "up_background p")
    case (SenderPop resumed)
    have aw: "sq_awaited (up_send_queue p) \<longleftrightarrow> resumed"
      using q(3) SenderPop by simp
    show ?thesis
    proof (cases "sq_msgs msgs (up_send_queue p)")
      case Nil
      have "udp_ok msgs buf (p\<lparr>up_send_queue := (up_send_queue p)\<lparr>sq_awaited := True\<rparr>, up_background := SenderPop True\<rparr>)"
        using udp_send_queue_ok [OF less.prems, of "(up_send_queue p)\<lparr>sq_awaited := True\<rparr>" "SenderPop True"] q(1,2) by (simp add: sq_ok_def)
      then show ?thesis
        using unf SenderPop sq_pop_ok(1) [OF assms(1) q(1) aw Nil] by simp
    next
      case (Cons m ms)
      then obtain q' where q': "sq_pop M resumed (up_send_queue p) = (Some (Ok m), q')" "sq_ok msgs buf q'" "sq_msgs msgs q' = ms"
        "sq_capacity q' = sq_capacity (up_send_queue p)" "\<not> sq_awaited q'"
        using sq_pop_ok(2) [OF assms(1) q(1) aw Cons] by blast
      let ?p = "p\<lparr>up_send_queue := q', up_background := SenderQuery m (QueryStart (fst (sl_remote m)))\<rparr>"
      have "udp_ok msgs buf ?p"
        using udp_send_queue_ok [OF less.prems q'(2)] q'(4,5) q(2) by simp
      then have "\<exists>r arp' p'. udp_background_sender M timer_first arp ?p = Some (r, arp', p') \<and> udp_ok msgs buf p'"
        using less.hyps [of ?p arp] SenderPop q'(3) Cons by simp
      then show ?thesis
        using unf SenderPop q'(1) by simp
    qed
  next
    case (SenderQuery m query)
    have nq: "\<not> sq_awaited (up_send_queue p)"
      using q(3) SenderQuery by simp
    have bg: "udp_ok msgs buf (p\<lparr>up_background := b\<rparr>)" if "b \<noteq> SenderPop True" for b
      using udp_send_queue_ok [OF less.prems q(1,2), of b] that nq by simp
    obtain r arp' where r: "query_poll timer_first query arp = (r, arp')"
      by fastforce
    have rec: "\<exists>r a' p'. udp_background_sender M timer_first arp' p1 = Some (r, a', p') \<and> udp_ok msgs buf p'"
      if "udp_ok msgs buf p1" "up_send_queue p1 = up_send_queue p" "up_background p1 = SenderPop False" for p1
      using less.hyps [of p1 arp'] that SenderQuery by simp
    have pop: "\<exists>r a' p'. udp_background_sender M timer_first arp' (p\<lparr>up_background := SenderPop False\<rparr>) = Some (r, a', p') \<and> udp_ok msgs buf p'"
      using bg by (intro rec) simp_all
    have sent: "\<exists>r a' p'. udp_background_sender M timer_first arp'
        (udp_send link (sl_data m) (sl_local m) (sl_remote m) (p\<lparr>up_background := SenderPop False\<rparr>)) = Some (r, a', p') \<and> udp_ok msgs buf p'" for link
      using bg by (intro rec) (simp_all add: udp_send_fields)
    show ?thesis
      using unf SenderQuery r bg less.prems pop sent by (auto split: sum.split outcome.split)
  qed
qed

section \<open>Reachable states\<close>

text \<open>The calls of an application and the events of a peer, where no socket is bound explicitly to a port of \<open>E\<close>.\<close>

inductive udp_moves :: "('c, slot) channel_ops \<Rightarrow> u16 set \<Rightarrow> 'c udp_peer \<Rightarrow> 'c udp_peer \<Rightarrow> bool" for M E where
  ustep_socket: "udp_moves M E p (snd (udp_socket qd p))"
| ustep_bind: "snd a = 0 \<or> snd a \<notin> E \<Longrightarrow> udp_moves M E p (snd (udp_bind M qd a p))"
| ustep_close: "udp_moves M E p (snd (udp_close qd p))"
| ustep_pushto: "udp_pushto M arp qd data remote p = Some (Ok (), p') \<Longrightarrow> udp_moves M E p p'"
| ustep_pop: "udp_moves M E p (snd (udp_pop_poll M fut p))"
| ustep_receive: "udp_receive M ip bs p = Some (r, p') \<Longrightarrow> udp_moves M E p p'"
| ustep_background: "udp_background_sender M timer_first arp p = Some (r, arp', p') \<Longrightarrow> udp_moves M E p p'"

text \<open>All of them, for a pool of private ports.\<close>

abbreviation udp_step :: "('c, slot) channel_ops \<Rightarrow> 'c udp_peer \<Rightarrow> 'c udp_peer \<Rightarrow> bool" where
  "udp_step M \<equiv> udp_moves M {}"

lemma udp_pushto_ok:
  assumes "channel_laws M msgs buf" "udp_ok msgs buf p" "udp_pushto M arp qd data remote p = Some (Ok (), p')"
  shows "udp_ok msgs buf p'"
proof -
  obtain local where l: "up_sockets p qd = Some (Some local)"
    using assms(3) by (auto simp: udp_pushto_def split: option.splits)
  show ?thesis
  proof (cases "try_query (fst remote) arp")
    case None
    let ?m = "\<lparr>sl_local = local, sl_remote = remote, sl_data = data\<rparr>"
    note q = udp_queuesD(4-6) [OF assms(2)]
    obtain q' where p': "sq_push M ?m (up_send_queue p) = Some (Ok (), q')" "p' = p\<lparr>up_send_queue := q'\<rparr>"
      using assms(3) l None by (auto simp: udp_pushto_def)
    have "sq_length (up_send_queue p) = sq_capacity (up_send_queue p) \<longrightarrow> \<not> sq_awaited (up_send_queue p)"
    proof
      assume "sq_length (up_send_queue p) = sq_capacity (up_send_queue p)"
      moreover from this have "sq_make_room M (up_send_queue p) = Some (Panic, up_send_queue p)" if "sq_awaited (up_send_queue p)"
        using that by (subst sq_make_room.simps) (simp add: sq_try_pop_def)
      ultimately show "\<not> sq_awaited (up_send_queue p)"
        using p'(1) by (auto simp: sq_push_def)
    qed
    then show ?thesis
      using sq_push_ok [OF assms(1) q(1), of ?m] q(2,3) p' udp_send_queue_ok [OF assms(2), of q' "up_background p"]
      by (auto simp: SEND_QUEUE_MAX_SIZE_def)
  qed (use assms(2,3) l in \<open>auto simp: udp_pushto_def\<close>)
qed

text \<open>A bind takes ports out of the pool and may give a private one back; nothing else touches the pool.\<close>

lemma alloc_pool:
  "set (snd (alloc_any ps)) \<subseteq> set ps" "set (snd (alloc_port n ps)) \<subseteq> set ps"
  by (auto simp: alloc_any_def alloc_port_def dest: in_set_butlastD)

lemma udp_bind_pool:
  assumes "pool_within E p"
  shows "pool_within E (snd (udp_bind M qd a p))"
proof -
  have sub: "set ps \<subseteq> set (up_ephemeral_ports p)" if "udp_bind_port (snd a) (up_ephemeral_ports p) = (r, ps)" for r ps
    using that alloc_pool(1) [of "up_ephemeral_ports p"] alloc_pool(2) [of "snd a" "up_ephemeral_ports p"]
    by (auto simp: udp_bind_port_def split: if_splits prod.splits outcome.splits)
  show ?thesis
    using assms sub
    by (auto simp: udp_bind_def pool_within_def free_port_def Let_def split: outcome.split option.split prod.split)
qed

lemma udp_background_pool:
  assumes "udp_background_sender M timer_first arp p = Some x"
  shows "up_ephemeral_ports (snd (snd x)) = up_ephemeral_ports p"
  by (rule udp_background_sender.raw_induct [where P = "\<lambda>M timer_first arp p x. up_ephemeral_ports (snd (snd x)) = up_ephemeral_ports p", OF _ assms])
    (fastforce simp: udp_send_def split: udp_sender.splits prod.splits option.splits outcome.splits sum.splits)

lemma udp_deliver_pool: "udp_deliver M i msg p = Some (r, p') \<Longrightarrow> up_ephemeral_ports p' = up_ephemeral_ports p"
  by (auto simp: udp_deliver_def)

lemma udp_receive_pool: "udp_receive M ip bs p = Some (r, p') \<Longrightarrow> up_ephemeral_ports p' = up_ephemeral_ports p"
  by (auto simp: udp_receive_def Let_def dest: udp_deliver_pool split: outcome.splits option.splits)

lemma udp_moves_pool: "udp_moves M E p p' \<Longrightarrow> pool_within E p \<Longrightarrow> pool_within E p'"
proof (induction rule: udp_moves.induct)
  case (ustep_bind a p qd)
  then show ?case
    using udp_bind_pool by blast
next
  case (ustep_background timer_first arp p r arp' p')
  then show ?case
    using udp_background_pool [OF ustep_background.hyps] by (simp add: pool_within_def)
next
  case (ustep_receive ip bs p r p')
  then show ?case
    using udp_receive_pool [OF ustep_receive.hyps] by (simp add: pool_within_def)
qed (auto simp: pool_within_def udp_socket_def udp_close_def udp_pop_poll_def udp_pushto_def udp_send_def Let_def split: option.splits outcome.splits prod.splits)

lemma udp_moves_ok:
  assumes "channel_laws M msgs buf"
  shows "udp_moves M E p p' \<Longrightarrow> udp_ok msgs buf p \<Longrightarrow> pool_within E p \<Longrightarrow> udp_ok msgs buf p'"
proof (induction rule: udp_moves.induct)
  case (ustep_bind a p qd)
  then have "snd a = 0 \<or> is_private (snd a) \<or> snd a \<notin> set (up_ephemeral_ports p)"
    by (auto simp: pool_within_def)
  then show ?case
    using udp_bind_ok [OF assms ustep_bind.prems(1)] by blast
next
  case (ustep_receive ip bs p r p')
  then show ?case
    using udp_receive_ok [OF assms, of p ip bs] by auto
next
  case (ustep_background timer_first arp p r arp' p')
  then show ?case
    using udp_background_ok [OF assms, of p timer_first arp] by auto
next
  case (ustep_pushto arp qd data remote p p')
  show ?case
    by (rule udp_pushto_ok [OF assms ustep_pushto.prems(1) ustep_pushto.hyps])
qed (simp_all add: udp_socket_ok udp_close_ok udp_pop_poll_ok [OF assms])

lemma udp_reach_ok:
  assumes "channel_laws M msgs buf" "distinct ports" "\<forall>n\<in>set ports. is_private n \<or> n \<in> E"
    and "(udp_moves M E)\<^sup>*\<^sup>* (udp_peer_new M ports link ip offload) p"
  shows "udp_ok msgs buf p"
proof -
  from assms(4) have "udp_ok msgs buf p \<and> pool_within E p"
  proof (induction rule: rtranclp_induct)
    case base
    show ?case
      using udp_new_ok [OF assms(1,2)] assms(3) by (simp add: pool_within_def udp_peer_new_def)
  next
    case (step p p')
    then show ?case
      using udp_moves_ok [OF assms(1)] udp_moves_pool by blast
  qed
  then show ?thesis
    by simp
qed

text \<open>The pool that a peer starts with: distinct ports, all private but the one of \<^verbatim>\<open>CORE_ID\<close>.\<close>

definition core_port :: "u16 option \<Rightarrow> u16 set" where
  "core_port core_id = (case core_id of None \<Rightarrow> {} | Some core \<Rightarrow> {9999 + core})"

lemma ephemeral_new_pool:
  assumes "\<And>ps. mset (shuffle ps) = mset ps" "\<forall>n\<in>core_port core_id. \<not> is_private n"
  shows "distinct (ephemeral_new shuffle core_id)" "\<forall>n\<in>set (ephemeral_new shuffle core_id). is_private n \<or> n \<in> core_port core_id"
proof -
  define ps where "ps = (map of_nat [unat FIRST_PRIVATE_PORT..<unat LAST_PRIVATE_PORT] :: u16 list)"
  have set: "set (shuffle ps) = set ps"
    by (rule mset_eq_setD [OF assms(1)])
  have d: "distinct (shuffle ps)"
    using mset_eq_imp_distinct_iff [OF assms(1)] distinct_ports unfolding ps_def by blast
  have priv: "is_private n" if n: "n \<in> set ps" for n
  proof -
    obtain k where k: "n = of_nat k" "unat FIRST_PRIVATE_PORT \<le> k" "k < unat LAST_PRIVATE_PORT"
      using n unfolding ps_def by auto
    then have "k < 2 ^ 16"
      using unsigned_less [of LAST_PRIVATE_PORT, where 'a = nat] by simp
    then show ?thesis
      using k by (simp add: is_private_def word_le_nat_alt unat_of_nat take_bit_nat_eq_self)
  qed
  show "distinct (ephemeral_new shuffle core_id)" "\<forall>n\<in>set (ephemeral_new shuffle core_id). is_private n \<or> n \<in> core_port core_id"
    using d set priv assms(2) unfolding ephemeral_new_def Let_def ps_def [symmetric]
    by (auto simp: core_port_def split: option.split)
qed

text \<open>C27: the tables of a UDP peer agree in every state it can reach, whatever arrives and whatever the application does, except
  for binding a socket explicitly to the port that \<^verbatim>\<open>CORE_ID\<close> adds to the pool: an address belongs to one socket, a bound
  socket can always be popped, no received bytes make the peer panic or loop, a pop never panics, and the background
  sender always returns. Without \<^verbatim>\<open>CORE_ID\<close> there is no exception. The shuffle of the pool is any permutation, and the
  added port is not itself a private one.\<close>

theorem udp_peer_safe:
  assumes "channel_laws M msgs buf" "\<And>ps. mset (shuffle ps) = mset ps" "\<forall>n\<in>core_port core_id. \<not> is_private n"
    and "(udp_moves M (core_port core_id))\<^sup>*\<^sup>* (udp_peer_new M (ephemeral_new shuffle core_id) link ip offload) p"
  shows "(\<forall>qd qd' a. up_sockets p qd = Some (Some a) \<longrightarrow> up_sockets p qd' = Some (Some a) \<longrightarrow> qd = qd')
    \<and> (\<forall>qd a. up_sockets p qd = Some (Some a) \<longrightarrow> (\<exists>i. udp_pop qd p = Ok (qd, i)))
    \<and> (\<forall>ip bs. \<exists>r p'. udp_receive M ip bs p = Some (r, p') \<and> r \<noteq> Panic)
    \<and> (\<forall>fut. fst (udp_pop_poll M fut p) \<noteq> Some Panic)
    \<and> (\<forall>timer_first arp. udp_background_sender M timer_first arp p \<noteq> None)"
proof -
  have ok: "udp_ok msgs buf p"
    using udp_reach_ok [OF assms(1) ephemeral_new_pool [OF assms(2,3)] assms(4)] .
  then have maps: "udp_maps_ok p"
    by (simp add: udp_ok_def)
  have "\<exists>i. udp_pop qd p = Ok (qd, i)" if "up_sockets p qd = Some (Some a)" for qd a
    using udp_mapsD(1) [OF maps that] that by (auto simp: udp_pop_def)
  moreover have "\<exists>r p'. udp_receive M ip bs p = Some (r, p') \<and> r \<noteq> Panic" for ip bs
    using udp_receive_ok [OF assms(1) ok] by blast
  moreover have "udp_background_sender M timer_first arp p \<noteq> None" for timer_first arp
    using udp_background_ok [OF assms(1) ok, of timer_first arp] by auto
  ultimately show ?thesis
    using udp_mapsD(2) [OF maps] udp_pop_poll_ok [OF assms(1) ok] by blast
qed

text \<open>A peer with one socket that was bound to a free port of its choice.\<close>

definition demo_udp :: "ipv4addr \<Rightarrow> (nat \<times> slot list) udp_peer" where
  "demo_udp ip = udp_peer_new list_channel [50000, 50001] (Mac 1 2 3 4 5 6) ip False"

definition demo_bound :: "ipv4addr \<Rightarrow> (nat \<times> slot list) udp_peer" where
  "demo_bound ip = snd (udp_bind list_channel 3 (ip, 0) (snd (udp_socket 3 (demo_udp ip))))"

lemma demo_udp_ports: "distinct [50000, 50001 :: u16]" "\<forall>n\<in>set [50000, 50001 :: u16]. is_private n"
  by (simp_all add: is_private_def FIRST_PRIVATE_PORT_def)

lemma demo_bound_run: "(udp_step list_channel)\<^sup>*\<^sup>* (demo_udp ip) (demo_bound ip)"
  using ustep_socket [of list_channel "{}" "demo_udp ip" 3] ustep_bind [of "(ip, 0)" "{}" list_channel "snd (udp_socket 3 (demo_udp ip))" 3]
  by (simp add: demo_bound_def)

lemma demo_bound_simps:
  "up_sockets (demo_bound ip) 3 = Some (Some (ip, 50001))" "up_bound (demo_bound ip) (ip, 50001) = Some 0"
  "up_background (demo_bound ip) = SenderPop False" "up_send_queue (demo_bound ip) = sq_new list_channel 1024"
  "up_queues (demo_bound ip) 0 = sq_new list_channel 1024" "up_local_ip (demo_bound ip) = ip"
  by (simp_all add: demo_bound_def demo_udp_def udp_bind_def udp_bind_port_def is_private_def FIRST_PRIVATE_PORT_def alloc_any_def
      udp_socket_def udp_peer_new_def SEND_QUEUE_MAX_SIZE_def RECV_QUEUE_MAX_SIZE_def Let_def)

text \<open>The peer of a process with \<^verbatim>\<open>CORE_ID\<close> 1, whose first free port is 10000.\<close>

definition core_udp :: "ipv4addr \<Rightarrow> (nat \<times> slot list) udp_peer" where
  "core_udp ip = udp_peer_new list_channel (ephemeral_new rev (Some 1)) (Mac 1 2 3 4 5 6) ip False"

lemma core_udp_any: "alloc_any (up_ephemeral_ports (core_udp ip)) = (Ok 10000, butlast (up_ephemeral_ports (core_udp ip)))"
  by (simp add: core_udp_def udp_peer_new_def alloc_any_def ephemeral_new_def)

theorem udp_peer_safe_witness:
  "\<exists>p. (udp_moves list_channel (core_port (Some 1)))\<^sup>*\<^sup>* (core_udp 7) p \<and> up_sockets p 3 = Some (Some (7, 10000))
    \<and> (\<exists>i. udp_pop 3 p = Ok (3, i))"
proof -
  let ?p = "snd (udp_bind list_channel 3 (7, 0) (snd (udp_socket 3 (core_udp 7))))"
  have run: "(udp_moves list_channel (core_port (Some 1)))\<^sup>*\<^sup>* (core_udp 7) ?p"
    using ustep_socket [of list_channel "core_port (Some 1)" "core_udp 7" 3]
      ustep_bind [of "(7, 0)" "core_port (Some 1)" list_channel "snd (udp_socket 3 (core_udp 7))" 3] by simp
  have s: "up_sockets ?p 3 = Some (Some (7, 10000))"
    using core_udp_any [of 7]
    by (simp add: udp_bind_def udp_bind_port_def is_private_def FIRST_PRIVATE_PORT_def udp_socket_def)
      (simp add: core_udp_def udp_peer_new_def Let_def)
  have np: "\<forall>n\<in>core_port (Some 1). \<not> is_private n"
    by (simp add: core_port_def is_private_def FIRST_PRIVATE_PORT_def)
  show ?thesis
    using udp_peer_safe [OF list_channel_laws _ np run [unfolded core_udp_def]] s run by (auto simp: core_udp_def)
qed

text \<open>what happens when a process with \<^verbatim>\<open>CORE_ID\<close> 1 binds a socket to port 10000 and
  then lets the peer choose a port for a second one: the choice is 10000 as well, the second bind fails with EADDRINUSE but
  has already recorded the address for both sockets, and once the first is closed a pop on the second aborts.\<close>

theorem core_port_shared:
  "\<exists>p1 p2 p3 e. udp_bind list_channel 3 (7, 10000) (snd (udp_socket 4 (snd (udp_socket 3 (core_udp 7))))) = (Ok (), p1)
    \<and> udp_bind list_channel 4 (7, 0) p1 = (Err e, p2) \<and> errno e = EADDRINUSE
    \<and> up_sockets p2 3 = Some (Some (7, 10000)) \<and> up_sockets p2 4 = Some (Some (7, 10000))
    \<and> udp_close 3 p2 = (Ok (), p3) \<and> udp_pop 4 p3 = Panic"
proof -
  let ?p0 = "snd (udp_socket 4 (snd (udp_socket 3 (core_udp 7))))"
  have p0: "up_sockets ?p0 = [3 \<mapsto> None, 4 \<mapsto> None]" "up_bound ?p0 = Map.empty" "up_ephemeral_ports ?p0 = up_ephemeral_ports (core_udp 7)"
    by (simp_all add: udp_socket_def core_udp_def udp_peer_new_def)
  obtain p1 where p1: "udp_bind list_channel 3 (7, 10000) ?p0 = (Ok (), p1)" "up_sockets p1 = [3 \<mapsto> Some (7, 10000), 4 \<mapsto> None]"
    "up_bound p1 = [(7, 10000) \<mapsto> up_next_queue ?p0]" "up_ephemeral_ports p1 = up_ephemeral_ports (core_udp 7)"
    using p0 by (simp add: udp_bind_def udp_bind_port_def is_private_def FIRST_PRIVATE_PORT_def Let_def fun_upd_twist)
  obtain e p2 where "udp_bind list_channel 4 (7, 0) p1 = (Err e, p2)" "errno e = EADDRINUSE"
    "up_sockets p2 = [3 \<mapsto> Some (7, 10000), 4 \<mapsto> Some (7, 10000)]" "up_bound p2 = [(7, 10000) \<mapsto> up_next_queue p1]"
    using p1 core_udp_any [of 7]
    by (simp add: udp_bind_def udp_bind_port_def is_private_def FIRST_PRIVATE_PORT_def fail_new_def Let_def)
  then show ?thesis
    using p1(1) by (simp add: udp_close_def udp_pop_def)
qed

section \<open>Bursts\<close>

text \<open>Pushing datagrams one after the other, without a poll of the scheduler in between.\<close>

fun udp_burst :: "('c, slot) channel_ops \<Rightarrow> arp_peer \<Rightarrow> qdesc \<Rightarrow> sockaddr \<Rightarrow> bytes list \<Rightarrow> 'c udp_peer \<Rightarrow> (unit outcome \<times> 'c udp_peer) option" where
  "udp_burst M arp qd remote [] p = Some (Ok (), p)"
| "udp_burst M arp qd remote (d # ds) p =
     Option.bind (udp_pushto M arp qd d remote p) (\<lambda>(r, p). case r of Ok _ \<Rightarrow> udp_burst M arp qd remote ds p | _ \<Rightarrow> Some (r, p))"

lemma udp_burst_panics:
  assumes "channel_laws M msgs buf" "udp_ok msgs buf p" "up_sockets p qd = Some (Some local)" "try_query (fst remote) arp = None"
    and "up_background p = SenderPop True" "length ds + sq_length (up_send_queue p) = Suc SEND_QUEUE_MAX_SIZE"
  shows "\<exists>p'. udp_burst M arp qd remote ds p = Some (Panic, p')"
  using assms(2,3,5,6)
proof (induction ds arbitrary: p)
  case Nil
  then show ?case
    using udp_queuesD(4,5) [OF Nil.prems(1)] by (simp add: sq_ok_def)
next
  case (Cons d ds)
  note q = udp_queuesD(4-6) [OF Cons.prems(1)]
  let ?m = "\<lparr>sl_local = local, sl_remote = remote, sl_data = d\<rparr>"
  have push: "udp_pushto M arp qd d remote p = map_option (\<lambda>(r, q). (r, p\<lparr>up_send_queue := q\<rparr>)) (sq_push M ?m (up_send_queue p))"
    using Cons.prems(2) assms(4) by (simp add: udp_pushto_def)
  show ?case
  proof (cases "ds = []")
    case True
    then have full: "sq_length (up_send_queue p) = sq_capacity (up_send_queue p)"
      using Cons.prems(4) q(2) by simp
    then have "sq_make_room M (up_send_queue p) = Some (Panic, up_send_queue p)"
      using q(3) Cons.prems(3) by (subst sq_make_room.simps) (simp add: sq_try_pop_def)
    then show ?thesis
      using push full by (simp add: sq_push_def)
  next
    case False
    then have nf: "sq_length (up_send_queue p) \<noteq> sq_capacity (up_send_queue p)"
      using Cons.prems(4) q(2) by (cases ds) auto
    then obtain q' where q': "sq_push M ?m (up_send_queue p) = Some (Ok (), q')" "sq_ok msgs buf q'" "sq_capacity q' = SEND_QUEUE_MAX_SIZE"
      "sq_awaited q' = sq_awaited (up_send_queue p)" "sq_msgs msgs q' = sq_msgs msgs (up_send_queue p) @ [?m]"
      using sq_push_ok [OF assms(1) q(1), of ?m] q(2) by (auto simp: SEND_QUEUE_MAX_SIZE_def)
    let ?p = "p\<lparr>up_send_queue := q'\<rparr>"
    have "udp_ok msgs buf ?p"
      using udp_send_queue_ok [OF Cons.prems(1) q'(2,3), of "up_background p"] q(3) q'(4) by simp
    moreover have "length ds + sq_length (up_send_queue ?p) = Suc SEND_QUEUE_MAX_SIZE"
      using Cons.prems(4) q(1) q'(2,5) by (simp add: sq_ok_def)
    ultimately have "\<exists>p'. udp_burst M arp qd remote ds ?p = Some (Panic, p')"
      using Cons.IH [of ?p] Cons.prems(2,3) by simp
    then show ?thesis
      using push q'(1) by simp
  qed
qed

text \<open>the background sender keeps the receiving end of the send queue borrowed while it waits for a datagram. An application that
  pushes 1025 datagrams to an address that is not resolved yet, before it waits for anything, fills the queue and
  aborts: making room in the queue borrows the receiving end again.\<close>

theorem unresolved_burst_aborts:
  assumes "channel_laws M msgs buf" "distinct ports" "\<forall>n\<in>set ports. is_private n"
    and "(udp_step M)\<^sup>*\<^sup>* (udp_peer_new M ports link ip offload) p" "up_background p = SenderPop True" "sq_length (up_send_queue p) = 0"
    and "up_sockets p qd = Some (Some local)" "try_query (fst remote) arp = None" "length ds = 1025"
  shows "\<exists>p'. udp_burst M arp qd remote ds p = Some (Panic, p')"
proof -
  have "udp_ok msgs buf p"
    using udp_reach_ok [OF assms(1,2) _ assms(4)] assms(3) by simp
  then show ?thesis
    using udp_burst_panics [OF assms(1) _ assms(7,8,5)] assms(6,9) by (simp add: SEND_QUEUE_MAX_SIZE_def)
qed

theorem unresolved_burst_aborts_witness:
  "\<exists>p p'. (udp_step list_channel)\<^sup>*\<^sup>* (demo_udp 7) p
    \<and> udp_burst list_channel (demo_arp (Mac 1 2 3 4 5 6) 7) 3 (8, 9) (replicate 1025 [1]) p = Some (Panic, p')"
proof -
  let ?a = "demo_arp (Mac 1 2 3 4 5 6) 7" and ?p = "demo_bound 7"
  let ?q = "?p\<lparr>up_send_queue := (up_send_queue ?p)\<lparr>sq_awaited := True\<rparr>, up_background := SenderPop True\<rparr>"
  have "udp_background_sender list_channel (\<lambda>_. False) ?a ?p = Some (Ok (), ?a, ?q)"
    by (subst udp_background_sender.simps) (simp add: demo_bound_simps sq_pop_def sq_new_def list_channel_def)
  then have run: "(udp_step list_channel)\<^sup>*\<^sup>* (demo_udp 7) ?q"
    using rtranclp.rtrancl_into_rtrancl [OF demo_bound_run ustep_background] by blast
  have "\<exists>p'. udp_burst list_channel ?a 3 (8, 9) (replicate 1025 [1]) ?q = Some (Panic, p')"
    by (rule unresolved_burst_aborts [OF list_channel_laws demo_udp_ports run [unfolded demo_udp_def]])
      (simp_all add: demo_bound_simps sq_new_def try_query_def demo_arp_ok)
  then show ?thesis
    using run by blast
qed

section \<open>Delivery\<close>

lemma udp_parse_ip_cong:
  assumes "ip_src_addr ip = ip_src_addr ip'" "ip_dst_addr ip = ip_dst_addr ip'"
  shows "udp_parse_from_slice ip = udp_parse_from_slice ip'"
proof -
  have eq: "udp_checksum ip = udp_checksum ip'"
    using assms by (simp add: fun_eq_iff udp_checksum_def pseudo_header_sum_def)
  show ?thesis
    by (intro ext) (simp only: udp_parse_from_slice_def eq)
qed

text \<open>The bytes of a datagram on the wire, with its body, as the other host's layers take them apart.\<close>

lemma ud_wire:
  assumes "ipv4_sendable (ud_ipv4_hdr d) (8 + length (ud_data d))" "length (ud_data d) < 65528" "length hb = ud_header_size"
  shows "\<exists>bs ip_buf ip u. ud_write_header d hb = Some bs
    \<and> eth_parse (bs @ ud_data d @ padding) = Ok (ud_ethernet2_hdr d, ip_buf) \<and> ipv4_parse ip_buf = Ok (ip, u @ ud_data d)
    \<and> ip_src_addr ip = ip_src_addr (ud_ipv4_hdr d) \<and> ip_dst_addr ip = ip_dst_addr (ud_ipv4_hdr d)
    \<and> ip_protocol ip = ip_protocol (ud_ipv4_hdr d) \<and> length u = 8
    \<and> udp_parse_from_slice ip (u @ ud_data d) rx_offload = Ok (ud_udp_hdr d, ud_data d)"
proof -
  have len: "length hb = 42"
    using assms(3) by (simp add: ud_header_size_def ETHERNET2_HEADER_SIZE_def IPV4_HEADER_MIN_SIZE_def UDP_HEADER_SIZE_def)
  have "length (slice 34 42 hb) = UDP_HEADER_SIZE"
    using len by (simp add: UDP_HEADER_SIZE_def)
  then obtain u where u: "udp_serialize (ud_udp_hdr d) (slice 34 42 hb) (ud_ipv4_hdr d) (ud_data d) (ud_checksum_offload d) = Some u"
    "length u = 8" "udp_parse_from_slice (ud_ipv4_hdr d) (u @ ud_data d) rx_offload = Ok (ud_udp_hdr d, ud_data d)"
    using udp_roundtrip [OF _ assms(2), of "slice 34 42 hb" "ud_udp_hdr d" "ud_ipv4_hdr d" "ud_checksum_offload d" rx_offload]
    by (auto simp: UDP_HEADER_SIZE_def)
  obtain e w ip where f: "eth_serialize (ud_ethernet2_hdr d) (slice 0 14 hb) = Some e"
    "ipv4_serialize (ud_ipv4_hdr d) (slice 14 34 hb) (8 + length (ud_data d)) = Some w"
    "eth_parse (e @ w @ (u @ ud_data d) @ padding) = Ok (ud_ethernet2_hdr d, w @ (u @ ud_data d) @ padding)"
    "ipv4_parse (w @ (u @ ud_data d) @ padding) = Ok (ip, u @ ud_data d)"
    "ip_src_addr ip = ip_src_addr (ud_ipv4_hdr d)" "ip_dst_addr ip = ip_dst_addr (ud_ipv4_hdr d)" "ip_protocol ip = ip_protocol (ud_ipv4_hdr d)"
    using ip_frame [of "ud_ipv4_hdr d" "u @ ud_data d" hb "ud_ethernet2_hdr d" padding] assms(1) len u(2) by auto
  have "ud_write_header d hb = Some (e @ w @ u)"
    using len f(1,2) u(1)
    by (simp add: ud_write_header_def ud_header_size_def ETHERNET2_HEADER_SIZE_def IPV4_HEADER_MIN_SIZE_def UDP_HEADER_SIZE_def Let_def)
  moreover have "udp_parse_from_slice ip (u @ ud_data d) rx_offload = Ok (ud_udp_hdr d, ud_data d)"
    using u(3) udp_parse_ip_cong [OF f(5,6)] by simp
  ultimately show ?thesis
    using f(3-7) u(2) by fastforce
qed

text \<open>What a push to a resolved address puts on the wire, and what the receiving socket does with it.\<close>

lemma udp_pushto_frame:
  assumes "up_sockets pa qd = Some (Some local)" "try_query (fst remote) arp = Some link" "length data < 65508"
  shows "\<exists>d bs ip_buf ip u. udp_pushto M arp qd data remote pa = Some (Ok (), udp_send link data local remote pa)
    \<and> up_transmitted (udp_send link data local remote pa) = up_transmitted pa @ [d] \<and> ud_data d = data
    \<and> ud_write_header d (replicate 42 0) = Some bs
    \<and> eth_parse (bs @ data @ padding) = Ok (eth_new link (up_local_link pa) Ipv4, ip_buf)
    \<and> ipv4_parse ip_buf = Ok (ip, u @ data) \<and> length u = 8 \<and> ip_protocol ip = UDP
    \<and> ip_src_addr ip = up_local_ip pa \<and> ip_dst_addr ip = fst remote
    \<and> udp_parse_from_slice ip (u @ data) rx_offload = Ok (udp_new (snd local) (snd remote), data)"
proof -
  define d where "d = \<lparr>ud_ethernet2_hdr = eth_new link (up_local_link pa) Ipv4, ud_ipv4_hdr = ipv4_new (up_local_ip pa) (fst remote) UDP,
    ud_udp_hdr = udp_new (snd local) (snd remote), ud_data = data, ud_checksum_offload = up_checksum_offload pa\<rparr>"
  have "udp_pushto M arp qd data remote pa = Some (Ok (), udp_send link data local remote pa)"
    "up_transmitted (udp_send link data local remote pa) = up_transmitted pa @ [d]" "ud_data d = data"
    using assms(1,2) by (simp_all add: udp_pushto_def udp_send_def d_def)
  moreover have w1: "ipv4_sendable (ud_ipv4_hdr d) (8 + length (ud_data d))"
    using assms(3) by (simp add: d_def ipv4_sendable_def ipv4_new_def)
  moreover have w2: "length (ud_data d) < 65528" "length (replicate 42 (0 :: u8)) = ud_header_size"
    using assms(3) by (simp_all add: d_def ud_header_size_def ETHERNET2_HEADER_SIZE_def IPV4_HEADER_MIN_SIZE_def UDP_HEADER_SIZE_def)
  moreover have "ud_ethernet2_hdr d = eth_new link (up_local_link pa) Ipv4" "ud_udp_hdr d = udp_new (snd local) (snd remote)"
    "ip_src_addr (ud_ipv4_hdr d) = up_local_ip pa" "ip_dst_addr (ud_ipv4_hdr d) = fst remote" "ip_protocol (ud_ipv4_hdr d) = UDP"
    by (simp_all add: d_def ipv4_new_def)
  ultimately show ?thesis
    using ud_wire [OF w1 w2, of padding rx_offload] by metis
qed

lemma udp_message_arrives:
  assumes "channel_laws M msgs buf" "udp_ok msgs buf p" "up_bound p (ip_dst_addr ip, udp_dest_port hdr) = Some i"
    and "udp_parse_from_slice ip b (up_checksum_offload p) = Ok (hdr, data)"
    and "m = \<lparr>sl_local = (ip_dst_addr ip, udp_dest_port hdr), sl_remote = (ip_src_addr ip, udp_src_port hdr), sl_data = data\<rparr>"
  shows "\<exists>p'. udp_receive M ip b p = Some (Ok (), p')
    \<and> (\<exists>n\<le>513. sq_msgs msgs (up_queues p' i) = drop n (sq_msgs msgs (up_queues p i)) @ [m])
    \<and> (sq_msgs msgs (up_queues p i) = [] \<longrightarrow> fst (udp_pop_poll M (qd, i) p') = Some (Ok (sl_remote m, data)))"
proof -
  obtain p' where p': "udp_deliver M i m p = Some (Ok (), p')" "udp_ok msgs buf p'"
    "\<exists>n\<le>513. sq_msgs msgs (up_queues p' i) = drop n (sq_msgs msgs (up_queues p i)) @ [m]"
    using udp_deliver_ok [OF assms(1,2), of i m] by blast
  have "udp_receive M ip b p = Some (Ok (), p')"
    using assms(3-5) p'(1) by (simp add: udp_receive_def)
  moreover have "fst (udp_pop_poll M (qd, i) p') = Some (Ok (sl_remote m, data))" if "sq_msgs msgs (up_queues p i) = []"
  proof -
    have "sq_msgs msgs (up_queues p' i) = [m]"
      using p'(3) that by auto
    then show ?thesis
      using sq_try_pop_ok(2) [OF assms(1) udp_queuesD(1,2) [OF p'(2)], of i m "[]"] assms(5) by (auto simp: udp_pop_poll_def)
  qed
  ultimately show ?thesis
    using p'(3) by blast
qed

text \<open>a datagram pushed to a resolved address arrives. The peer hands one frame to the network; its bytes, with any link padding,
  pass the layers of the other host and end up behind the messages its socket has queued, with the sender's address and
  the data unchanged, and a pop on an empty socket returns them.\<close>

theorem udp_delivery:
  assumes "channel_laws M msgs buf" "distinct ports" "\<forall>n\<in>set ports. is_private n"
    and "(udp_step M)\<^sup>*\<^sup>* (udp_peer_new M ports link_b ip_b offload) pb" "up_bound pb remote = Some i"
    and "up_sockets pa qd = Some (Some local)" "try_query (fst remote) arp = Some link" "length data < 65508"
  shows "\<exists>pa' d bs ip_buf ip udp_buf pb'. udp_pushto M arp qd data remote pa = Some (Ok (), pa')
    \<and> up_transmitted pa' = up_transmitted pa @ [d] \<and> ud_write_header d (replicate 42 0) = Some bs
    \<and> eth_parse (bs @ ud_data d @ padding) = Ok (eth_new link (up_local_link pa) Ipv4, ip_buf) \<and> ipv4_parse ip_buf = Ok (ip, udp_buf)
    \<and> ip_protocol ip = UDP \<and> udp_receive M ip udp_buf pb = Some (Ok (), pb')
    \<and> (\<exists>n\<le>513. sq_msgs msgs (up_queues pb' i)
         = drop n (sq_msgs msgs (up_queues pb i)) @ [\<lparr>sl_local = remote, sl_remote = (up_local_ip pa, snd local), sl_data = data\<rparr>])
    \<and> (sq_msgs msgs (up_queues pb i) = [] \<longrightarrow> fst (udp_pop_poll M (qd', i) pb') = Some (Ok ((up_local_ip pa, snd local), data)))"
proof -
  have ok: "udp_ok msgs buf pb"
    using udp_reach_ok [OF assms(1,2) _ assms(4)] assms(3) by simp
  let ?m = "\<lparr>sl_local = remote, sl_remote = (up_local_ip pa, snd local), sl_data = data\<rparr>"
  obtain d bs ip_buf ip u where w: "udp_pushto M arp qd data remote pa = Some (Ok (), udp_send link data local remote pa)"
    "up_transmitted (udp_send link data local remote pa) = up_transmitted pa @ [d]" "ud_data d = data"
    "ud_write_header d (replicate 42 0) = Some bs" "eth_parse (bs @ data @ padding) = Ok (eth_new link (up_local_link pa) Ipv4, ip_buf)"
    "ipv4_parse ip_buf = Ok (ip, u @ data)" "ip_protocol ip = UDP" "ip_src_addr ip = up_local_ip pa" "ip_dst_addr ip = fst remote"
    "udp_parse_from_slice ip (u @ data) (up_checksum_offload pb) = Ok (udp_new (snd local) (snd remote), data)"
    using udp_pushto_frame [OF assms(6-8), of M padding "up_checksum_offload pb"] by blast
  obtain pb' where "udp_receive M ip (u @ data) pb = Some (Ok (), pb')"
    "\<exists>n\<le>513. sq_msgs msgs (up_queues pb' i) = drop n (sq_msgs msgs (up_queues pb i)) @ [?m]"
    "sq_msgs msgs (up_queues pb i) = [] \<longrightarrow> fst (udp_pop_poll M (qd', i) pb') = Some (Ok ((up_local_ip pa, snd local), data))"
    using udp_message_arrives [OF assms(1) ok _ w(10), of i ?m qd'] assms(5) w(8,9) by (auto simp: udp_new_def)
  moreover have "eth_parse (bs @ ud_data d @ padding) = Ok (eth_new link (up_local_link pa) Ipv4, ip_buf)"
    using w(3,5) by simp
  ultimately show ?thesis
    using w(1,2,4,6,7) by blast
qed

theorem udp_delivery_witness:
  "\<exists>pa' d bs ip_buf ip udp_buf pb'. udp_pushto list_channel
      ((demo_arp (Mac 1 2 3 4 5 6) 8)\<lparr>ar_cache := (ar_cache (demo_arp (Mac 1 2 3 4 5 6) 8))\<lparr>ac_disable := True\<rparr>\<rparr>) 3 [1, 2, 3] (7, 50001) (demo_bound 8) = Some (Ok (), pa')
    \<and> up_transmitted pa' = up_transmitted (demo_bound 8) @ [d] \<and> ud_write_header d (replicate 42 0) = Some bs
    \<and> eth_parse (bs @ ud_data d @ [0, 0]) = Ok (eth_new DUMMY_MAC_ADDRESS (up_local_link (demo_bound 8)) Ipv4, ip_buf)
    \<and> ipv4_parse ip_buf = Ok (ip, udp_buf) \<and> udp_receive list_channel ip udp_buf (demo_bound 7) = Some (Ok (), pb')
    \<and> fst (udp_pop_poll list_channel (3, 0) pb') = Some (Ok ((8, 50001), [1, 2, 3]))"
proof -
  let ?a = "(demo_arp (Mac 1 2 3 4 5 6) 8)\<lparr>ar_cache := (ar_cache (demo_arp (Mac 1 2 3 4 5 6) 8))\<lparr>ac_disable := True\<rparr>\<rparr>"
  have "try_query (fst (7, 50001)) ?a = Some DUMMY_MAC_ADDRESS"
    by (simp add: try_query_def ac_get_def)
  moreover have "snd (sq_channel (up_queues (demo_bound 7) 0)) = []"
    by (simp add: demo_bound_simps sq_new_def list_channel_def)
  ultimately show ?thesis
    using udp_delivery [OF list_channel_laws demo_udp_ports demo_bound_run [of 7, unfolded demo_udp_def] demo_bound_simps(2)
        demo_bound_simps(1) [of 8], of ?a DUMMY_MAC_ADDRESS "[1, 2, 3]" "[0, 0]" 3]
    by (simp add: demo_bound_simps(6)) blast
qed

end
