(* ===== verification/Icmp_Peer.thy ===== *)
theory Icmp_Peer
  imports Arp_Resolution Datagram_Headers Ip_Frame Udp_Peer
begin

text \<open>
  The ICMPv4 peer (\<^verbatim>\<open>protocols/icmpv4/\<close>): it answers echo requests in the background and pings other hosts. The unbounded
  channel between the receive path and the background task belongs to the \<^verbatim>\<open>futures\<close> package and is a parameter. A ping is
  a coroutine; the one-shot channel it waits on is an entry of the peer.
\<close>

section \<open>Messages\<close>

record icmpv4_message =
  im_ethernet2_hdr :: ethernet2_header
  im_ipv4_hdr :: ipv4_header
  im_icmpv4_hdr :: icmpv4_header

definition im_header_size :: nat where
  "im_header_size = ETHERNET2_HEADER_SIZE + IPV4_HEADER_MIN_SIZE + ICMPV4_HEADER_SIZE"

definition im_write_header :: "icmpv4_message \<Rightarrow> bytes \<Rightarrow> bytes option" where
  "im_write_header m buf =
     (if length buf < im_header_size then None
      else let eth_hdr_size = ETHERNET2_HEADER_SIZE;
               ipv4_end = eth_hdr_size + IPV4_HEADER_MIN_SIZE
           in Option.bind (eth_serialize (im_ethernet2_hdr m) (slice 0 eth_hdr_size buf)) (\<lambda>e.
              Option.bind (ipv4_serialize (im_ipv4_hdr m) (slice eth_hdr_size ipv4_end buf) ICMPV4_HEADER_SIZE) (\<lambda>i.
              Option.bind (icmp_serialize (im_icmpv4_hdr m) (slice ipv4_end im_header_size buf)) (\<lambda>c.
              Some (e @ i @ c @ drop im_header_size buf)))))"

section \<open>Peer\<close>

datatype ping_channel = Awaited | Answered | Abandoned

type_synonym echo = "ipv4addr \<times> u16 \<times> u16"

text \<open>Where the background task stands: waiting for a request to answer, or for the link address of one.\<close>

datatype icmp_task = ReplyNext | ReplyQuery echo arp_query

record 'c icmp_peer =
  ic_now :: instant
  ic_local_link :: mac_address
  ic_local_ip :: ipv4addr
  ic_echoes :: 'c
  ic_requests :: "u16 \<times> u16 \<Rightarrow> nat option"
  ic_channels :: "nat \<Rightarrow> ping_channel"
  ic_next_channel :: nat
  ic_seq :: u16
  ic_background :: icmp_task
  ic_transmitted :: "icmpv4_message list"

definition icmp_peer_new :: "('c, echo) channel_ops \<Rightarrow> instant \<Rightarrow> mac_address \<Rightarrow> ipv4addr \<Rightarrow> 'c icmp_peer" where
  "icmp_peer_new M now link ip =
     \<lparr>ic_now = now, ic_local_link = link, ic_local_ip = ip, ic_echoes = ch_new M 0, ic_requests = Map.empty,
      ic_channels = (\<lambda>_. Awaited), ic_next_channel = 0, ic_seq = 0, ic_background = ReplyNext, ic_transmitted = []\<rparr>"

definition icmp_transmit :: "mac_address \<Rightarrow> ipv4addr \<Rightarrow> icmpv4_type2 \<Rightarrow> 'c icmp_peer \<Rightarrow> 'c icmp_peer" where
  "icmp_transmit link ip t p =
     p\<lparr>ic_transmitted := ic_transmitted p @
         [\<lparr>im_ethernet2_hdr = eth_new link (ic_local_link p) Ipv4, im_ipv4_hdr = ipv4_new (ic_local_ip p) ip ICMPv4,
           im_icmpv4_hdr = \<lparr>icmp_protocol = t, icmp_code = 0\<rparr>\<rparr>]\<rparr>"

text \<open>One poll of the background task; \<open>None\<close>: it never returns. A task whose channel is closed ends and is not polled again.\<close>

partial_function (option) icmp_background ::
  "('c, echo) channel_ops \<Rightarrow> (nat \<Rightarrow> bool) \<Rightarrow> arp_peer \<Rightarrow> 'c icmp_peer \<Rightarrow> (unit outcome \<times> arp_peer \<times> 'c icmp_peer) option" where
  "icmp_background M timer_first arp p =
     (case ic_background p of
        ReplyNext \<Rightarrow>
          (case ch_try_next M (ic_echoes p) of
             (None, c) \<Rightarrow> Some (Ok (), arp, p\<lparr>ic_echoes := c\<rparr>)
           | (Some None, c) \<Rightarrow> Some (Ok (), arp, p\<lparr>ic_echoes := c\<rparr>)
           | (Some (Some e), c) \<Rightarrow> icmp_background M timer_first arp (p\<lparr>ic_echoes := c, ic_background := ReplyQuery e (QueryStart (fst e))\<rparr>))
      | ReplyQuery e query \<Rightarrow>
          (case query_poll timer_first query arp of
             (Inr query, arp) \<Rightarrow> Some (Ok (), arp, p\<lparr>ic_background := ReplyQuery e query\<rparr>)
           | (Inl Panic, arp) \<Rightarrow> Some (Panic, arp, p)
           | (Inl (Err _), arp) \<Rightarrow> icmp_background M timer_first arp (p\<lparr>ic_background := ReplyNext\<rparr>)
           | (Inl (Ok link), arp) \<Rightarrow>
               icmp_background M timer_first arp
                 (icmp_transmit link (fst e) (EchoReply (fst (snd e)) (snd (snd e))) (p\<lparr>ic_background := ReplyNext\<rparr>))))"

definition icmp_receive :: "('c, echo) channel_ops \<Rightarrow> ipv4_header \<Rightarrow> bytes \<Rightarrow> 'c icmp_peer \<Rightarrow> unit outcome \<times> 'c icmp_peer" where
  "icmp_receive M ip buf p =
     (case icmp_parse buf of
        Panic \<Rightarrow> (Panic, p)
      | Err e \<Rightarrow> (Err e, p)
      | Ok (hdr, _) \<Rightarrow>
          (case icmp_protocol hdr of
             EchoRequest i seq_num \<Rightarrow>
               (case ch_try_send M (ip_src_addr ip, i, seq_num) (ic_echoes p) of
                  Some c \<Rightarrow> (Ok (), p\<lparr>ic_echoes := c\<rparr>)
                | None \<Rightarrow> (Panic, p))
           | EchoReply i seq_num \<Rightarrow>
               (Ok (), case ic_requests p (i, seq_num) of
                         Some w \<Rightarrow> p\<lparr>ic_requests := (ic_requests p)((i, seq_num) := None), ic_channels := (ic_channels p)(w := Answered)\<rparr>
                       | None \<Rightarrow> p)
           | _ \<Rightarrow> (Ok (), p)))"

section \<open>Pings\<close>

text \<open>The process number and the nonce of the random-number generator are parameters.\<close>

definition make_id :: "u32 \<Rightarrow> u16 \<Rightarrow> 'c icmp_peer \<Rightarrow> u16" where
  "make_id pid salt p =
     (let addr_octets = be32 (ic_local_ip p);
          pid_buf = be32 pid;
          state = (0xFFFF :: u32);
          state = state + ucast (read_u16 addr_octets 0);
          state = state + ucast (read_u16 addr_octets 2);
          state = state + ucast (read_u16 pid_buf 0);
          state = state + ucast (read_u16 pid_buf 2);
          state = state + ucast salt
      in checksum_finish state)"

definition make_seq_num :: "'c icmp_peer \<Rightarrow> u16 \<times> 'c icmp_peer" where
  "make_seq_num p = (ic_seq p, p\<lparr>ic_seq := ic_seq p + 1\<rparr>)"

record ping_call =
  pg_dst :: ipv4addr
  pg_timeout :: duration
  pg_id :: u16
  pg_seq :: u16

text \<open>A ping that has not been polled, waits for the link address since \<open>t0\<close>, or waits for the answer until a deadline.\<close>

datatype ping = PingStart ping_call | PingQuery ping_call instant arp_query | PingWait ping_call instant nat instant

definition icmp_ping :: "u32 \<Rightarrow> u16 \<Rightarrow> ipv4addr \<Rightarrow> duration option \<Rightarrow> 'c icmp_peer \<Rightarrow> ping \<times> 'c icmp_peer" where
  "icmp_ping pid salt dst timeout p =
     (let timeout = (case timeout of Some t \<Rightarrow> t | None \<Rightarrow> 5);
          i = make_id pid salt p;
          (seq_num, p) = make_seq_num p
      in (PingStart \<lparr>pg_dst = dst, pg_timeout = timeout, pg_id = i, pg_seq = seq_num\<rparr>, p))"

text \<open>The answer against the timer: \<open>timer_wins\<close> is the choice of \<^verbatim>\<open>select!\<close> when both are ready. A lost sender counts as an answer.\<close>

definition ping_await :: "bool \<Rightarrow> ping_call \<Rightarrow> instant \<Rightarrow> nat \<Rightarrow> instant \<Rightarrow> 'c icmp_peer \<Rightarrow> duration outcome + ping" where
  "ping_await timer_wins c t0 w deadline p =
     (if deadline \<le> ic_now p \<and> (ic_channels p w = Awaited \<or> timer_wins) then Inl (Err (fail_new ETIMEDOUT ''timer expired''))
      else if ic_channels p w = Awaited then Inr (PingWait c t0 w deadline)
      else Inl (Ok (ic_now p - t0)))"

definition ping_send :: "bool \<Rightarrow> ping_call \<Rightarrow> instant \<Rightarrow> mac_address \<Rightarrow> 'c icmp_peer \<Rightarrow> (duration outcome + ping) \<times> 'c icmp_peer" where
  "ping_send timer_wins c t0 link p =
     (let p = icmp_transmit link (pg_dst c) (EchoRequest (pg_id c) (pg_seq c)) p;
          w = ic_next_channel p;
          used = (ic_requests p (pg_id c, pg_seq c) \<noteq> None);
          p = p\<lparr>ic_next_channel := w + 1, ic_channels := (ic_channels p)(w := Awaited),
                ic_requests := (ic_requests p)((pg_id c, pg_seq c) \<mapsto> w)\<rparr>
      in if used then (Inl Panic, p) else (ping_await timer_wins c t0 w (ic_now p + pg_timeout c) p, p))"

definition ping_query ::
  "(nat \<Rightarrow> bool) \<Rightarrow> bool \<Rightarrow> ping_call \<Rightarrow> instant \<Rightarrow> arp_query \<Rightarrow> arp_peer \<Rightarrow> 'c icmp_peer \<Rightarrow> (duration outcome + ping) \<times> arp_peer \<times> 'c icmp_peer" where
  "ping_query timer_first timer_wins c t0 query arp p =
     (case query_poll timer_first query arp of
        (Inr query, arp) \<Rightarrow> (Inr (PingQuery c t0 query), arp, p)
      | (Inl (Ok link), arp) \<Rightarrow> (case ping_send timer_wins c t0 link p of (r, p) \<Rightarrow> (r, arp, p))
      | (Inl (Err e), arp) \<Rightarrow> (Inl (Err e), arp, p)
      | (Inl Panic, arp) \<Rightarrow> (Inl Panic, arp, p))"

fun ping_poll ::
  "(nat \<Rightarrow> bool) \<Rightarrow> bool \<Rightarrow> ping \<Rightarrow> arp_peer \<Rightarrow> 'c icmp_peer \<Rightarrow> (duration outcome + ping) \<times> arp_peer \<times> 'c icmp_peer" where
  "ping_poll timer_first timer_wins (PingStart c) arp p = ping_query timer_first timer_wins c (ic_now p) (QueryStart (pg_dst c)) arp p"
| "ping_poll timer_first timer_wins (PingQuery c t0 query) arp p = ping_query timer_first timer_wins c t0 query arp p"
| "ping_poll timer_first timer_wins (PingWait c t0 w deadline) arp p = (ping_await timer_wins c t0 w deadline p, arp, p)"

end
