(* ===== verification/Icmp_Ping.thy ===== *)
theory Icmp_Ping
  imports Icmp_Peer
begin

text \<open>
  What the ICMPv4 peer guarantees: two hosts that know each other's link addresses complete a ping, over the bytes of both
  messages. A ping that times out leaves its entry behind, and a later one with the same numbers aborts.
\<close>

section \<open>Messages on the wire\<close>

lemma im_wire:
  assumes "ipv4_sendable (im_ipv4_hdr m) 8" "length hb = im_header_size"
  shows "\<exists>bs ip_buf ip icmp_buf. im_write_header m hb = Some bs
    \<and> eth_parse (bs @ padding) = Ok (im_ethernet2_hdr m, ip_buf) \<and> ipv4_parse ip_buf = Ok (ip, icmp_buf)
    \<and> ip_src_addr ip = ip_src_addr (im_ipv4_hdr m) \<and> ip_dst_addr ip = ip_dst_addr (im_ipv4_hdr m)
    \<and> ip_protocol ip = ip_protocol (im_ipv4_hdr m) \<and> icmp_parse icmp_buf = Ok (im_icmpv4_hdr m, [])"
proof -
  have len: "length hb = 42"
    using assms(2) by (simp add: im_header_size_def ETHERNET2_HEADER_SIZE_def IPV4_HEADER_MIN_SIZE_def ICMPV4_HEADER_SIZE_def)
  obtain c where c: "icmp_serialize (im_icmpv4_hdr m) (slice 34 42 hb) = Some c" "icmp_parse c = Ok (im_icmpv4_hdr m, [])"
    using icmp_roundtrip [of "slice 34 42 hb" "im_icmpv4_hdr m"] len by (auto simp: ICMPV4_HEADER_SIZE_def)
  have cl: "length c = 8"
    using c(1) len by (auto simp: icmp_serialize_def ICMPV4_HEADER_SIZE_def Let_def split: prod.splits dest!: icmp_type_roundtrip)
  obtain e w ip where f: "eth_serialize (im_ethernet2_hdr m) (slice 0 14 hb) = Some e" "ipv4_serialize (im_ipv4_hdr m) (slice 14 34 hb) (length c) = Some w"
    "eth_parse (e @ w @ c @ padding) = Ok (im_ethernet2_hdr m, w @ c @ padding)" "ipv4_parse (w @ c @ padding) = Ok (ip, c)"
    "ip_src_addr ip = ip_src_addr (im_ipv4_hdr m)" "ip_dst_addr ip = ip_dst_addr (im_ipv4_hdr m)" "ip_protocol ip = ip_protocol (im_ipv4_hdr m)"
    using ip_frame [of "im_ipv4_hdr m" c hb "im_ethernet2_hdr m" padding] assms(1) len cl by auto
  have "im_write_header m hb = Some (e @ w @ c)"
    using len f(1,2) c(1) cl
    by (simp add: im_write_header_def im_header_size_def ETHERNET2_HEADER_SIZE_def IPV4_HEADER_MIN_SIZE_def ICMPV4_HEADER_SIZE_def Let_def)
  then show ?thesis
    using f(3-7) c(2) by fastforce
qed

text \<open>A message that arrives at a host passes the layers below ICMPv4.\<close>

definition icmp_arrives :: "('c, echo) channel_ops \<Rightarrow> icmpv4_message \<Rightarrow> bytes \<Rightarrow> 'c icmp_peer \<Rightarrow> (unit outcome \<times> 'c icmp_peer) option" where
  "icmp_arrives M m padding p =
     Option.bind (im_write_header m (replicate im_header_size 0)) (\<lambda>bs.
       case eth_parse (bs @ padding) of
         Ok (_, ip_buf) \<Rightarrow> (case ipv4_parse ip_buf of Ok (ip, icmp_buf) \<Rightarrow> Some (icmp_receive M ip icmp_buf p) | _ \<Rightarrow> None)
       | _ \<Rightarrow> None)"

lemma icmp_arrives_request:
  assumes "ch_try_send M (src, i, n) (ic_echoes p) = Some c"
  shows "icmp_arrives M \<lparr>im_ethernet2_hdr = eh, im_ipv4_hdr = ipv4_new src dst ICMPv4, im_icmpv4_hdr = \<lparr>icmp_protocol = EchoRequest i n, icmp_code = k\<rparr>\<rparr> padding p
    = Some (Ok (), p\<lparr>ic_echoes := c\<rparr>)"
proof -
  let ?m = "\<lparr>im_ethernet2_hdr = eh, im_ipv4_hdr = ipv4_new src dst ICMPv4, im_icmpv4_hdr = \<lparr>icmp_protocol = EchoRequest i n, icmp_code = k\<rparr>\<rparr>"
  have "ipv4_sendable (im_ipv4_hdr ?m) 8"
    by (simp add: ipv4_sendable_def ipv4_new_def)
  from im_wire [OF this, of "replicate im_header_size 0" padding] show ?thesis
    using assms by (auto simp: icmp_arrives_def icmp_receive_def ipv4_new_def)
qed

lemma icmp_arrives_reply:
  assumes "ic_requests p (i, n) = Some w"
  shows "icmp_arrives M \<lparr>im_ethernet2_hdr = eh, im_ipv4_hdr = ipv4_new src dst ICMPv4, im_icmpv4_hdr = \<lparr>icmp_protocol = EchoReply i n, icmp_code = k\<rparr>\<rparr> padding p
    = Some (Ok (), p\<lparr>ic_requests := (ic_requests p)((i, n) := None), ic_channels := (ic_channels p)(w := Answered)\<rparr>)"
proof -
  let ?m = "\<lparr>im_ethernet2_hdr = eh, im_ipv4_hdr = ipv4_new src dst ICMPv4, im_icmpv4_hdr = \<lparr>icmp_protocol = EchoReply i n, icmp_code = k\<rparr>\<rparr>"
  have "ipv4_sendable (im_ipv4_hdr ?m) 8"
    by (simp add: ipv4_sendable_def ipv4_new_def)
  from im_wire [OF this, of "replicate im_header_size 0" padding] show ?thesis
    using assms by (auto simp: icmp_arrives_def icmp_receive_def)
qed

section \<open>A ping and its answer\<close>

text \<open>The contract of the unbounded channel.\<close>

definition unbounded_laws :: "('c, 'a) channel_ops \<Rightarrow> ('c \<Rightarrow> 'a list) \<Rightarrow> bool" where
  "unbounded_laws M msgs \<longleftrightarrow>
     (\<forall>n. msgs (ch_new M n) = [])
     \<and> (\<forall>m c. \<exists>c'. ch_try_send M m c = Some c' \<and> msgs c' = msgs c @ [m])
     \<and> (\<forall>c. msgs c = [] \<longrightarrow> ch_try_next M c = (None, c))
     \<and> (\<forall>c m ms. msgs c = m # ms \<longrightarrow> (\<exists>c'. ch_try_next M c = (Some (Some m), c') \<and> msgs c' = ms))"

lemma unbounded_send: "unbounded_laws M msgs \<Longrightarrow> \<exists>c'. ch_try_send M m c = Some c' \<and> msgs c' = msgs c @ [m]"
  unfolding unbounded_laws_def by blast

lemma query_cached: "ac_get ip (ar_cache arp) = Some link \<Longrightarrow> query_poll timer_first (QueryStart ip) arp = (Inl (Ok link), arp)"
  by simp

text \<open>An idle background task answers the next request when it knows the sender.\<close>

lemma icmp_background_answers:
  assumes "unbounded_laws M msgs" "ic_background p = ReplyNext" "msgs (ic_echoes p) = [(ip, i, n)]" "ac_get ip (ar_cache arp) = Some link"
  shows "\<exists>p'. icmp_background M timer_first arp p = Some (Ok (), arp, p') \<and> ic_transmitted p' = ic_transmitted p @
      [\<lparr>im_ethernet2_hdr = eth_new link (ic_local_link p) Ipv4, im_ipv4_hdr = ipv4_new (ic_local_ip p) ip ICMPv4,
        im_icmpv4_hdr = \<lparr>icmp_protocol = EchoReply i n, icmp_code = 0\<rparr>\<rparr>]"
proof -
  obtain c where c: "ch_try_next M (ic_echoes p) = (Some (Some (ip, i, n)), c)" "msgs c = []"
    using assms(1,3) unfolding unbounded_laws_def by blast
  then have "ch_try_next M c = (None, c)"
    using assms(1) unfolding unbounded_laws_def by blast
  then have "icmp_background M timer_first arp p
    = Some (Ok (), arp, icmp_transmit link ip (EchoReply i n) (p\<lparr>ic_echoes := c, ic_background := ReplyNext\<rparr>))"
    using assms(2,4) c(1)
    by (subst icmp_background.simps, simp, subst icmp_background.simps, simp, subst icmp_background.simps, simp add: icmp_transmit_def)
  then show ?thesis
    by (simp add: icmp_transmit_def)
qed

lemma ping_sends:
  assumes "ac_get dst (ar_cache arp) = Some link" "ic_requests p (i, n) = None" "0 < t"
  shows "\<exists>p' w. ping_poll tf tw (PingStart \<lparr>pg_dst = dst, pg_timeout = t, pg_id = i, pg_seq = n\<rparr>) arp p
      = (Inr (PingWait \<lparr>pg_dst = dst, pg_timeout = t, pg_id = i, pg_seq = n\<rparr> (ic_now p) w (ic_now p + t)), arp, p')
    \<and> ic_requests p' = (ic_requests p)((i, n) \<mapsto> w) \<and> ic_channels p' w = Awaited \<and> ic_now p' = ic_now p
    \<and> ic_transmitted p' = ic_transmitted p @
      [\<lparr>im_ethernet2_hdr = eth_new link (ic_local_link p) Ipv4, im_ipv4_hdr = ipv4_new (ic_local_ip p) dst ICMPv4,
        im_icmpv4_hdr = \<lparr>icmp_protocol = EchoRequest i n, icmp_code = 0\<rparr>\<rparr>]"
  using assms by (simp add: ping_query_def query_cached ping_send_def ping_await_def icmp_transmit_def Let_def)

text \<open>a ping between two hosts that know each other's link addresses succeeds. The first poll sends the request; its bytes reach the
  other host, whose background task answers with the same numbers; when the answer's bytes arrive before the
  deadline, the next poll of the ping returns the time that has passed.\<close>

theorem ping_answered:
  assumes "unbounded_laws M msgs" "ac_get (ic_local_ip b) (ar_cache arp_a) = Some link_b" "ac_get (ic_local_ip a) (ar_cache arp_b) = Some link_a"
    and "ic_background b = ReplyNext" "msgs (ic_echoes b) = []" "ic_requests a (i, n) = None" "0 < t" "0 \<le> d" "d < t"
    and "call = \<lparr>pg_dst = ic_local_ip b, pg_timeout = t, pg_id = i, pg_seq = n\<rparr>"
  shows "\<exists>ping a1 req b1 b2 rep a2. ping_poll tf tw (PingStart call) arp_a a = (Inr ping, arp_a, a1) \<and> ic_transmitted a1 = ic_transmitted a @ [req]
    \<and> icmp_arrives M req pad1 b = Some (Ok (), b1) \<and> icmp_background M tf' arp_b b1 = Some (Ok (), arp_b, b2)
    \<and> ic_transmitted b2 = ic_transmitted b @ [rep] \<and> icmp_arrives M rep pad2 (a1\<lparr>ic_now := ic_now a + d\<rparr>) = Some (Ok (), a2)
    \<and> ping_poll tf tw ping arp_a a2 = (Inl (Ok d), arp_a, a2) \<and> ic_requests a2 (i, n) = None"
proof -
  let ?req = "\<lparr>im_ethernet2_hdr = eth_new link_b (ic_local_link a) Ipv4, im_ipv4_hdr = ipv4_new (ic_local_ip a) (ic_local_ip b) ICMPv4,
        im_icmpv4_hdr = \<lparr>icmp_protocol = EchoRequest i n, icmp_code = 0\<rparr>\<rparr>"
  let ?rep = "\<lparr>im_ethernet2_hdr = eth_new link_a (ic_local_link b) Ipv4, im_ipv4_hdr = ipv4_new (ic_local_ip b) (ic_local_ip a) ICMPv4,
        im_icmpv4_hdr = \<lparr>icmp_protocol = EchoReply i n, icmp_code = 0\<rparr>\<rparr>"
  obtain a1 w where a1: "ping_poll tf tw (PingStart call) arp_a a = (Inr (PingWait call (ic_now a) w (ic_now a + t)), arp_a, a1)"
    "ic_requests a1 = (ic_requests a)((i, n) \<mapsto> w)" "ic_transmitted a1 = ic_transmitted a @ [?req]"
    using ping_sends [OF assms(2,6,7), of tf tw] assms(10) by auto
  obtain c where c: "ch_try_send M (ic_local_ip a, i, n) (ic_echoes b) = Some c" "msgs c = [(ic_local_ip a, i, n)]"
    using unbounded_send [OF assms(1), of "(ic_local_ip a, i, n)" "ic_echoes b"] assms(5) by auto
  let ?b1 = "b\<lparr>ic_echoes := c\<rparr>"
  obtain b2 where b2: "icmp_background M tf' arp_b ?b1 = Some (Ok (), arp_b, b2)" "ic_transmitted b2 = ic_transmitted b @ [?rep]"
    using icmp_background_answers [OF assms(1), of ?b1 "ic_local_ip a" i n arp_b link_a tf'] assms(3,4) c(2) by auto
  let ?a2 = "a1\<lparr>ic_now := ic_now a + d, ic_requests := (ic_requests a1)((i, n) := None), ic_channels := (ic_channels a1)(w := Answered)\<rparr>"
  have "icmp_arrives M ?rep pad2 (a1\<lparr>ic_now := ic_now a + d\<rparr>) = Some (Ok (), ?a2)"
    using icmp_arrives_reply [of "a1\<lparr>ic_now := ic_now a + d\<rparr>" i n w] a1(2) by simp
  moreover have "ping_poll tf tw (PingWait call (ic_now a) w (ic_now a + t)) arp_a ?a2 = (Inl (Ok d), arp_a, ?a2)"
    using assms(9) by (simp add: ping_await_def)
  ultimately show ?thesis
    using a1(1,3) icmp_arrives_request [OF c(1)] b2 by (intro exI conjI) (assumption | simp)+
qed

text \<open>A list as an unbounded channel, and hosts that do not need ARP.\<close>

definition list_unbounded :: "('a list, 'a) channel_ops" where
  "list_unbounded =
     \<lparr>ch_new = (\<lambda>_. []), ch_try_send = (\<lambda>m ms. Some (ms @ [m])),
      ch_try_next = (\<lambda>ms. case ms of [] \<Rightarrow> (None, []) | m # ms \<Rightarrow> (Some (Some m), ms))\<rparr>"

lemma list_unbounded_laws: "unbounded_laws list_unbounded (\<lambda>ms. ms)"
  by (simp add: unbounded_laws_def list_unbounded_def)

definition demo_static_arp :: arp_peer where
  "demo_static_arp = (let p = demo_arp (Mac 1 2 3 4 5 6) 8 in p\<lparr>ar_cache := (ar_cache p)\<lparr>ac_disable := True\<rparr>\<rparr>)"

lemma demo_static_get: "ac_get x (ar_cache demo_static_arp) = Some DUMMY_MAC_ADDRESS"
  by (simp add: demo_static_arp_def ac_get_def Let_def)

definition demo_icmp :: "ipv4addr \<Rightarrow> echo list icmp_peer" where
  "demo_icmp ip = icmp_peer_new list_unbounded 100 (Mac 1 2 3 4 5 6) ip"

lemma demo_icmp_simps:
  "ic_local_ip (demo_icmp ip) = ip" "ic_background (demo_icmp ip) = ReplyNext" "ic_echoes (demo_icmp ip) = []"
  "ic_requests (demo_icmp ip) x = None" "ic_now (demo_icmp ip) = 100"
  by (simp_all add: demo_icmp_def icmp_peer_new_def list_unbounded_def)

theorem ping_answered_witness:
  "\<exists>ping a1 req b1 b2 rep a2.
      ping_poll (\<lambda>_. False) False (PingStart \<lparr>pg_dst = 9, pg_timeout = 5, pg_id = 3, pg_seq = 0\<rparr>) demo_static_arp (demo_icmp 8) = (Inr ping, demo_static_arp, a1)
    \<and> ic_transmitted a1 = ic_transmitted (demo_icmp 8) @ [req]
    \<and> icmp_arrives list_unbounded req [] (demo_icmp 9) = Some (Ok (), b1)
    \<and> icmp_background list_unbounded (\<lambda>_. False) demo_static_arp b1 = Some (Ok (), demo_static_arp, b2)
    \<and> ic_transmitted b2 = ic_transmitted (demo_icmp 9) @ [rep] \<and> icmp_arrives list_unbounded rep [0] (a1\<lparr>ic_now := 102\<rparr>) = Some (Ok (), a2)
    \<and> ping_poll (\<lambda>_. False) False ping demo_static_arp a2 = (Inl (Ok 2), demo_static_arp, a2) \<and> ic_requests a2 (3, 0) = None"
  using ping_answered [OF list_unbounded_laws demo_static_get demo_static_get,
      of "demo_icmp 9" "demo_icmp 8" 3 0 5 2 "\<lparr>pg_dst = 9, pg_timeout = 5, pg_id = 3, pg_seq = 0\<rparr>" "\<lambda>_. False" False "[]" "\<lambda>_. False" "[0]"]
  by (simp add: demo_icmp_simps)

text \<open>A ping that is not answered fails with ETIMEDOUT at its deadline, but its entry stays in the table of requests: a later ping that
  draws the same identifier and sequence number aborts.\<close>

theorem ping_timeout_leaves_entry:
  assumes "ac_get dst (ar_cache arp) = Some link" "ic_requests p (i, n) = None" "0 < t"
    and "call = \<lparr>pg_dst = dst, pg_timeout = t, pg_id = i, pg_seq = n\<rparr>" "ac_get dst' (ar_cache arp) = Some link'"
    and "again = \<lparr>pg_dst = dst', pg_timeout = t', pg_id = i, pg_seq = n\<rparr>"
  shows "\<exists>ping p1. ping_poll tf tw (PingStart call) arp p = (Inr ping, arp, p1)
    \<and> ping_poll tf tw ping arp (p1\<lparr>ic_now := ic_now p + t\<rparr>) = (Inl (Err (fail_new ETIMEDOUT ''timer expired'')), arp, p1\<lparr>ic_now := ic_now p + t\<rparr>)
    \<and> fst (ping_poll tf tw (PingStart again) arp (p1\<lparr>ic_now := ic_now p + t\<rparr>)) = Inl Panic"
proof -
  obtain p1 w where p1: "ping_poll tf tw (PingStart call) arp p = (Inr (PingWait call (ic_now p) w (ic_now p + t)), arp, p1)"
    "ic_requests p1 = (ic_requests p)((i, n) \<mapsto> w)" "ic_channels p1 w = Awaited"
    using ping_sends [OF assms(1-3), of tf tw] assms(4) by auto
  then have "ping_poll tf tw (PingWait call (ic_now p) w (ic_now p + t)) arp (p1\<lparr>ic_now := ic_now p + t\<rparr>)
    = (Inl (Err (fail_new ETIMEDOUT ''timer expired'')), arp, p1\<lparr>ic_now := ic_now p + t\<rparr>)"
    by (simp add: ping_await_def)
  moreover have "fst (ping_poll tf tw (PingStart again) arp (p1\<lparr>ic_now := ic_now p + t\<rparr>)) = Inl Panic"
    using p1(2) assms(5,6) by (simp add: ping_query_def query_cached ping_send_def icmp_transmit_def Let_def)
  ultimately show ?thesis
    using p1(1) by blast
qed

theorem ping_timeout_leaves_entry_witness:
  "\<exists>ping p1. ping_poll (\<lambda>_. False) False (PingStart \<lparr>pg_dst = 9, pg_timeout = 5, pg_id = 3, pg_seq = 0\<rparr>) demo_static_arp (demo_icmp 8)
      = (Inr ping, demo_static_arp, p1)
    \<and> ping_poll (\<lambda>_. False) False ping demo_static_arp (p1\<lparr>ic_now := 105\<rparr>)
      = (Inl (Err (fail_new ETIMEDOUT ''timer expired'')), demo_static_arp, p1\<lparr>ic_now := 105\<rparr>)
    \<and> fst (ping_poll (\<lambda>_. False) False (PingStart \<lparr>pg_dst = 10, pg_timeout = 1, pg_id = 3, pg_seq = 0\<rparr>) demo_static_arp (p1\<lparr>ic_now := 105\<rparr>)) = Inl Panic"
  using ping_timeout_leaves_entry [OF demo_static_get, of "demo_icmp 8" 3 0 5 "\<lparr>pg_dst = 9, pg_timeout = 5, pg_id = 3, pg_seq = 0\<rparr>" 9 10 DUMMY_MAC_ADDRESS
      "\<lparr>pg_dst = 10, pg_timeout = 1, pg_id = 3, pg_seq = 0\<rparr>" 1 "\<lambda>_. False" False]
  by (simp add: demo_icmp_simps demo_static_get)

end
