(* ===== verification/Inet_Stack.thy ===== *)
theory Inet_Stack
  imports Tcp_Peer Udp_Peer Icmp_Peer Scheduler
begin

text \<open>
  The stack's entry points (\<^verbatim>\<open>inetstack/mod.rs\<close>, \<^verbatim>\<open>protocols/peer.rs\<close>): frames are dispatched to the protocols, socket calls go
  through the table of descriptors, operations become tasks of the scheduler, and waiting polls the network and the
  scheduler and takes results out. The \<^verbatim>\<open>slab\<close> package behind the table of descriptors and the channels of the \<^verbatim>\<open>futures\<close>
  package are parameters, and so are the polls of the protocols' own background coroutines, which their theories model
  one by one.
\<close>

section \<open>Descriptors\<close>

datatype qtype = UdpSocket | TcpSocket

fun qtype_code :: "qtype \<Rightarrow> u32" where
  "qtype_code UdpSocket = 1"
| "qtype_code TcpSocket = 2"

definition qtype_try_from :: "u32 \<Rightarrow> qtype option" where
  "qtype_try_from v = (if v = 1 then Some UdpSocket else if v = 2 then Some TcpSocket else None)"

record 't slab_ops =
  sb_new :: 't
  sb_insert :: "u32 \<Rightarrow> 't \<Rightarrow> nat \<times> 't"
  sb_get :: "nat \<Rightarrow> 't \<Rightarrow> u32 option"
  sb_remove :: "nat \<Rightarrow> 't \<Rightarrow> u32 \<times> 't"

definition table_alloc :: "'t slab_ops \<Rightarrow> u32 \<Rightarrow> 't \<Rightarrow> qdesc \<times> 't" where
  "table_alloc S q t = sb_insert S q t"

definition table_get :: "'t slab_ops \<Rightarrow> qdesc \<Rightarrow> 't \<Rightarrow> u32 option" where
  "table_get S qd t = (if sb_get S qd t = None then None else sb_get S qd t)"

definition table_free :: "'t slab_ops \<Rightarrow> qdesc \<Rightarrow> 't \<Rightarrow> u32 option \<times> 't" where
  "table_free S qd t = (if sb_get S qd t = None then (None, t) else case sb_remove S qd t of (v, t) \<Rightarrow> (Some v, t))"

section \<open>Operations\<close>

datatype operation_result =
    ResConnect
  | ResAccept qdesc
  | ResPush
  | ResPop "sockaddr option" bytes
  | ResFailed fail

text \<open>Tasks of the scheduler: an operation together with its result, once it has one.\<close>

datatype 'b operation =
    OpAccept qdesc qdesc "qdesc outcome option"
  | OpConnect qdesc "unit outcome option"
  | OpPush qdesc "fail option" "unit outcome option"
  | OpPop qdesc "bytes outcome option"
  | OpPushto qdesc "unit outcome"
  | OpUdpPop qdesc nat "(sockaddr \<times> bytes) outcome option"
  | OpBackground 'b

definition result_of :: "('a \<Rightarrow> operation_result) \<Rightarrow> 'a outcome \<Rightarrow> operation_result option" where
  "result_of f r = (case r of Ok x \<Rightarrow> Some (f x) | Err e \<Rightarrow> Some (ResFailed e) | Panic \<Rightarrow> None)"

text \<open>The result of a finished operation; an unfinished one and a background task panic (\<open>None\<close>).\<close>

fun expect_result :: "'b operation \<Rightarrow> (qdesc \<times> qdesc option \<times> operation_result) option" where
  "expect_result (OpConnect fd (Some r)) = map_option (\<lambda>x. (fd, None, x)) (result_of (\<lambda>_. ResConnect) r)"
| "expect_result (OpAccept qd new_qd (Some r)) = map_option (\<lambda>x. (qd, Some new_qd, x)) (result_of ResAccept r)"
| "expect_result (OpPush fd _ (Some r)) = map_option (\<lambda>x. (fd, None, x)) (result_of (\<lambda>_. ResPush) r)"
| "expect_result (OpPop fd (Some r)) = map_option (\<lambda>x. (fd, None, x)) (result_of (ResPop None) r)"
| "expect_result (OpPushto fd r) = map_option (\<lambda>x. (fd, None, x)) (result_of (\<lambda>_. ResPush) r)"
| "expect_result (OpUdpPop fd _ (Some r)) = map_option (\<lambda>x. (fd, None, x)) (result_of (\<lambda>(a, b). ResPop (Some a) b) r)"
| "expect_result _ = None"

section \<open>State\<close>

text \<open>What tasks work on: the protocols. \<open>nt_aborted\<close>: a task has panicked.\<close>

record ('u, 'i) net =
  nt_arp :: arp_peer
  nt_icmp :: "'i icmp_peer"
  nt_tcp :: tcp_peer
  nt_udp :: "'u udp_peer"
  nt_aborted :: bool

record ('t, 'u, 'i, 'b) inet_stack =
  ik_net :: "('u, 'i) net"
  ik_file_table :: 't
  ik_scheduler :: "'b operation scheduler"
  ik_ts_iters :: nat
  ik_migrated_qds :: "qdesc list"
  ik_now :: instant

record ('t, 'u, 'i, 'b) env =
  ev_slab :: "'t slab_ops"
  ev_udp :: "('u, slot) channel_ops"
  ev_icmp :: "('i, echo) channel_ops"
  ev_crc :: "bytes \<Rightarrow> u32"
  ev_background :: "nat \<Rightarrow> 'b \<Rightarrow> ('u, 'i) net \<Rightarrow> bool \<times> 'b \<times> ('u, 'i) net \<times> 'b operation sched_call list"

text \<open>The TCP peer looks addresses up in the shared ARP cache.\<close>

definition tcp_view :: "('u, 'i) net \<Rightarrow> tcp_peer" where
  "tcp_view n = (nt_tcp n)\<lparr>pe_arp := (\<lambda>ip. try_query ip (nt_arp n))\<rparr>"

definition TIMER_RESOLUTION :: nat where
  "TIMER_RESOLUTION = 64"

definition MAX_RECV_ITERS :: nat where
  "MAX_RECV_ITERS = 2"

section \<open>Receiving\<close>

text \<open>\<open>None\<close>: the handler never returns.\<close>

definition ipv4_receive :: "('t, 'u, 'i, 'b) env \<Rightarrow> bytes \<Rightarrow> ('u, 'i) net \<Rightarrow> (unit outcome \<times> ('u, 'i) net) option" where
  "ipv4_receive E buf n =
     (case ipv4_parse buf of
        Panic \<Rightarrow> Some (Panic, n)
      | Err e \<Rightarrow> Some (Err e, n)
      | Ok (header, payload) \<Rightarrow>
          let tcp = (\<lambda>(r, p). Some (r, n\<lparr>nt_tcp := p\<rparr>))
          in case ip_protocol header of
               ICMPv4 \<Rightarrow> (case icmp_receive (ev_icmp E) header payload (nt_icmp n) of (r, p) \<Rightarrow> Some (r, n\<lparr>nt_icmp := p\<rparr>))
             | TCP \<Rightarrow> tcp (peer_receive (ev_crc E) header payload (tcp_view n))
             | UDP \<Rightarrow>
                 if is_tcpmig payload then tcp (receive_tcpmig header payload (tcp_view n))
                 else if is_rps_signal payload
                 then tcp (case receive_rps_signal payload (tcp_view n) of Some p \<Rightarrow> (Ok (), p) | None \<Rightarrow> (Panic, tcp_view n))
                 else map_option (\<lambda>(r, p). (r, n\<lparr>nt_udp := p\<rparr>)) (udp_receive (ev_udp E) header payload (nt_udp n)))"

definition do_receive :: "('t, 'u, 'i, 'b) env \<Rightarrow> bytes \<Rightarrow> ('u, 'i) net \<Rightarrow> (unit outcome \<times> ('u, 'i) net) option" where
  "do_receive E bytes n =
     (case eth_parse bytes of
        Panic \<Rightarrow> Some (Panic, n)
      | Err e \<Rightarrow> Some (Err e, n)
      | Ok (header, payload) \<Rightarrow>
          (case eth_ether_type header of
             Arp \<Rightarrow> (case arp_receive payload (nt_arp n) of (r, p) \<Rightarrow> Some (r, n\<lparr>nt_arp := p\<rparr>))
           | Ipv4 \<Rightarrow> ipv4_receive E payload n
           | Ipv6 \<Rightarrow> Some (Ok (), n)))"

section \<open>Tasks\<close>

text \<open>Tasks that a change of the TCP peer has woken are passed on to the scheduler.\<close>

definition with_tcp :: "tcp_peer \<Rightarrow> ('u, 'i) net \<Rightarrow> ('u, 'i) net \<times> 'b operation sched_call list" where
  "with_tcp p n = (n\<lparr>nt_tcp := p\<lparr>pe_woken := []\<rparr>\<rparr>, map Wake (pe_woken p))"

text \<open>One poll of an operation, as \<^verbatim>\<open>FutureResult\<close> wraps it: a result is kept, and a finished operation must not be polled. The last
  argument makes the operation again from its result.\<close>

definition tcp_poll ::
  "(tcp_peer \<Rightarrow> 'a outcome option \<times> tcp_peer) \<Rightarrow> ('a outcome option \<Rightarrow> 'b operation) \<Rightarrow> ('u, 'i) net \<Rightarrow>
   bool \<times> 'b operation \<times> ('u, 'i) net \<times> 'b operation sched_call list" where
  "tcp_poll f op n =
     (case f (tcp_view n) of (r, p) \<Rightarrow>
      case with_tcp p n of (n, calls) \<Rightarrow>
        (case r of
           None \<Rightarrow> (False, op None, n, calls)
         | Some Panic \<Rightarrow> (True, op r, n\<lparr>nt_aborted := True\<rparr>, calls)
         | Some _ \<Rightarrow> (True, op r, n, calls)))"

fun op_poll ::
  "('t, 'u, 'i, 'b) env \<Rightarrow> nat \<Rightarrow> 'b operation \<Rightarrow> ('u, 'i) net \<Rightarrow> bool \<times> 'b operation \<times> ('u, 'i) net \<times> 'b operation sched_call list" where
  "op_poll E key (OpAccept qd new_qd None) n = tcp_poll (poll_accept qd new_qd key) (OpAccept qd new_qd) n"
| "op_poll E key (OpConnect fd None) n = tcp_poll (poll_connect_finished fd key) (OpConnect fd) n"
| "op_poll E key (OpPush fd err None) n = (True, OpPush fd None (Some (case err of None \<Rightarrow> Ok () | Some e \<Rightarrow> Err e)), n, [])"
| "op_poll E key (OpPop fd None) n = tcp_poll (peer_poll_recv fd key) (OpPop fd) n"
| "op_poll E key (OpPushto fd r) n = (True, OpPushto fd r, n, [])"
| "op_poll E key (OpUdpPop fd q None) n =
     (case udp_pop_poll (ev_udp E) (fd, q) (nt_udp n) of (r, u) \<Rightarrow>
        let n = n\<lparr>nt_udp := u\<rparr>
        in case r of
             None \<Rightarrow> (False, OpUdpPop fd q None, n, [Wake key])
           | Some Panic \<Rightarrow> (True, OpUdpPop fd q r, n\<lparr>nt_aborted := True\<rparr>, [])
           | Some _ \<Rightarrow> (True, OpUdpPop fd q r, n, []))"
| "op_poll E key (OpBackground b) n =
     (case ev_background E key b n of (ready, b, n, calls) \<Rightarrow> (ready, OpBackground b, n, calls))"
| "op_poll E key op n = (True, op, n\<lparr>nt_aborted := True\<rparr>, [])"

section \<open>Socket calls\<close>

definition AF_INET :: int where "AF_INET = 2"
definition SOCK_STREAM :: int where "SOCK_STREAM = 1"
definition SOCK_DGRAM :: int where "SOCK_DGRAM = 2"

definition on_tcp :: "(tcp_peer \<Rightarrow> 'r outcome \<times> tcp_peer) \<Rightarrow> ('t, 'u, 'i, 'b) inet_stack \<Rightarrow> 'r outcome \<times> ('t, 'u, 'i, 'b) inet_stack" where
  "on_tcp f k = (case f (tcp_view (ik_net k)) of (r, p) \<Rightarrow> (r, k\<lparr>ik_net := (ik_net k)\<lparr>nt_tcp := p\<rparr>\<rparr>))"

definition on_udp :: "('u udp_peer \<Rightarrow> 'r outcome \<times> 'u udp_peer) \<Rightarrow> ('t, 'u, 'i, 'b) inet_stack \<Rightarrow> 'r outcome \<times> ('t, 'u, 'i, 'b) inet_stack" where
  "on_udp f k = (case f (nt_udp (ik_net k)) of (r, p) \<Rightarrow> (r, k\<lparr>ik_net := (ik_net k)\<lparr>nt_udp := p\<rparr>\<rparr>))"

text \<open>A new descriptor for a socket that \<open>open_it\<close> opens in its protocol; it is given back when that fails.\<close>

definition open_socket ::
  "('t, 'u, 'i, 'b) env \<Rightarrow> qtype \<Rightarrow> (qdesc \<Rightarrow> ('t, 'u, 'i, 'b) inet_stack \<Rightarrow> unit outcome \<times> ('t, 'u, 'i, 'b) inet_stack) \<Rightarrow>
   ('t, 'u, 'i, 'b) inet_stack \<Rightarrow> qdesc outcome \<times> ('t, 'u, 'i, 'b) inet_stack" where
  "open_socket E q open_it k =
     (case table_alloc (ev_slab E) (qtype_code q) (ik_file_table k) of (qd, t) \<Rightarrow>
        (case open_it qd (k\<lparr>ik_file_table := t\<rparr>) of
           (Ok _, k) \<Rightarrow> (Ok qd, k)
         | (Err e, k) \<Rightarrow> (Err e, k\<lparr>ik_file_table := snd (table_free (ev_slab E) qd (ik_file_table k))\<rparr>)
         | (Panic, k) \<Rightarrow> (Panic, k)))"

definition stack_socket :: "('t, 'u, 'i, 'b) env \<Rightarrow> int \<Rightarrow> int \<Rightarrow> ('t, 'u, 'i, 'b) inet_stack \<Rightarrow> qdesc outcome \<times> ('t, 'u, 'i, 'b) inet_stack" where
  "stack_socket E domain socket_type k =
     (if domain \<noteq> AF_INET then (Err (fail_new ENOTSUP ''address family not supported''), k)
      else if socket_type = SOCK_STREAM then open_socket E TcpSocket (\<lambda>qd. on_tcp (do_socket qd)) k
      else if socket_type = SOCK_DGRAM then open_socket E UdpSocket (\<lambda>qd. on_udp (udp_socket qd)) k
      else (Err (fail_new ENOTSUP ''socket type not supported''), k))"

text \<open>The kind of a descriptor decides which protocol a call goes to.\<close>

definition by_qtype :: "('t, 'u, 'i, 'b) env \<Rightarrow> qdesc \<Rightarrow> ('t, 'u, 'i, 'b) inet_stack \<Rightarrow> qtype outcome" where
  "by_qtype E qd k =
     (case table_get (ev_slab E) qd (ik_file_table k) of
        None \<Rightarrow> Err (fail_new EBADF ''bad queue descriptor'')
      | Some v \<Rightarrow> (case qtype_try_from v of Some q \<Rightarrow> Ok q | None \<Rightarrow> Err (fail_new EINVAL ''invalid queue type'')))"

definition stack_bind :: "('t, 'u, 'i, 'b) env \<Rightarrow> qdesc \<Rightarrow> sockaddr \<Rightarrow> ('t, 'u, 'i, 'b) inet_stack \<Rightarrow> unit outcome \<times> ('t, 'u, 'i, 'b) inet_stack" where
  "stack_bind E qd local k =
     (case by_qtype E qd k of
        Ok TcpSocket \<Rightarrow> on_tcp (bind qd local) k
      | Ok UdpSocket \<Rightarrow> on_udp (udp_bind (ev_udp E) qd local) k
      | Err e \<Rightarrow> (Err e, k)
      | Panic \<Rightarrow> (Panic, k))"

definition stack_listen ::
  "('t, 'u, 'i, 'b) env \<Rightarrow> qdesc \<Rightarrow> nat \<Rightarrow> u32 \<Rightarrow> ('t, 'u, 'i, 'b) inet_stack \<Rightarrow> unit outcome \<times> ('t, 'u, 'i, 'b) inet_stack" where
  "stack_listen E qd backlog n k =
     (if backlog = 0 then (Err (fail_new EINVAL ''invalid backlog length''), k)
      else case by_qtype E qd k of
             Ok TcpSocket \<Rightarrow> on_tcp (listen qd backlog n) k
           | Ok UdpSocket \<Rightarrow> (Err (fail_new EINVAL ''invalid queue type''), k)
           | Err e \<Rightarrow> (Err e, k)
           | Panic \<Rightarrow> (Panic, k))"

text \<open>A token for an operation is its key in the scheduler.\<close>

definition schedule :: "'b operation \<Rightarrow> ('t, 'u, 'i, 'b) inet_stack \<Rightarrow> nat outcome \<times> ('t, 'u, 'i, 'b) inet_stack" where
  "schedule op k =
     (case sched_insert op (ik_scheduler k) of
        Ok (Some (key, s)) \<Rightarrow> (Ok key, k\<lparr>ik_scheduler := s\<rparr>)
      | Ok None \<Rightarrow> (Err (fail_new EAGAIN ''cannot schedule co-routine''), k)
      | Err e \<Rightarrow> (Err e, k)
      | Panic \<Rightarrow> (Panic, k))"

text \<open>The descriptor an accepted connection will have: one of a connection that was migrated out, or a new one.\<close>

definition book_qd :: "('t, 'u, 'i, 'b) env \<Rightarrow> ('t, 'u, 'i, 'b) inet_stack \<Rightarrow> qdesc \<times> ('t, 'u, 'i, 'b) inet_stack" where
  "book_qd E k =
     (case ik_migrated_qds k of
        qd # qds \<Rightarrow> (qd, k\<lparr>ik_migrated_qds := qds\<rparr>)
      | [] \<Rightarrow> (case table_alloc (ev_slab E) (qtype_code TcpSocket) (ik_file_table k) of (qd, t) \<Rightarrow> (qd, k\<lparr>ik_file_table := t\<rparr>)))"

definition stack_accept :: "('t, 'u, 'i, 'b) env \<Rightarrow> qdesc \<Rightarrow> ('t, 'u, 'i, 'b) inet_stack \<Rightarrow> nat outcome \<times> ('t, 'u, 'i, 'b) inet_stack" where
  "stack_accept E qd k =
     (case by_qtype E qd k of
        Ok TcpSocket \<Rightarrow>
          (case book_qd E k of (new_qd, k) \<Rightarrow>
           case schedule (OpAccept qd new_qd None) k of
             (Err e, k) \<Rightarrow> (Err e, k\<lparr>ik_file_table := snd (table_free (ev_slab E) new_qd (ik_file_table k))\<rparr>)
           | r \<Rightarrow> r)
      | Ok UdpSocket \<Rightarrow> (Err (fail_new EINVAL ''invalid queue type''), k)
      | Err e \<Rightarrow> (Err e, k)
      | Panic \<Rightarrow> (Panic, k))"

definition stack_connect :: "('t, 'u, 'i, 'b) env \<Rightarrow> qdesc \<Rightarrow> sockaddr \<Rightarrow> ('t, 'u, 'i, 'b) inet_stack \<Rightarrow> nat outcome \<times> ('t, 'u, 'i, 'b) inet_stack" where
  "stack_connect E qd remote k =
     (case by_qtype E qd k of
        Ok TcpSocket \<Rightarrow>
          (case on_tcp (connect (ev_crc E) qd remote) k of
             (Ok _, k) \<Rightarrow> schedule (OpConnect qd None) k
           | (Err e, k) \<Rightarrow> (Err e, k)
           | (Panic, k) \<Rightarrow> (Panic, k))
      | Ok UdpSocket \<Rightarrow> (Err (fail_new EINVAL ''invalid queue type''), k)
      | Err e \<Rightarrow> (Err e, k)
      | Panic \<Rightarrow> (Panic, k))"

definition stack_close :: "('t, 'u, 'i, 'b) env \<Rightarrow> qdesc \<Rightarrow> ('t, 'u, 'i, 'b) inet_stack \<Rightarrow> unit outcome \<times> ('t, 'u, 'i, 'b) inet_stack" where
  "stack_close E qd k =
     (let r = (case by_qtype E qd k of
                 Ok TcpSocket \<Rightarrow> on_tcp (do_close qd) k
               | Ok UdpSocket \<Rightarrow> on_udp (udp_close qd) k
               | Err e \<Rightarrow> (Err e, k)
               | Panic \<Rightarrow> (Panic, k))
      in case r of
           (Ok _, k) \<Rightarrow> (Ok (), k\<lparr>ik_file_table := snd (table_free (ev_slab E) qd (ik_file_table k))\<rparr>)
         | _ \<Rightarrow> r)"

text \<open>A push is carried out at once; its task only reports how it went. A panic aborts.\<close>

definition do_push :: "('t, 'u, 'i, 'b) env \<Rightarrow> qdesc \<Rightarrow> bytes \<Rightarrow> ('t, 'u, 'i, 'b) inet_stack \<Rightarrow> 'b operation outcome \<times> ('t, 'u, 'i, 'b) inet_stack" where
  "do_push E qd buf k =
     (case by_qtype E qd k of
        Ok TcpSocket \<Rightarrow>
          (case on_tcp (peer_send qd buf) k of
             (Ok _, k) \<Rightarrow> (Ok (OpPush qd None None), k)
           | (Err e, k) \<Rightarrow> (Ok (OpPush qd (Some e) None), k)
           | (Panic, k) \<Rightarrow> (Panic, k))
      | Ok UdpSocket \<Rightarrow> (Err (fail_new EINVAL ''invalid queue type''), k)
      | Err e \<Rightarrow> (Err e, k)
      | Panic \<Rightarrow> (Panic, k))"

definition schedule_op :: "'b operation outcome \<times> ('t, 'u, 'i, 'b) inet_stack \<Rightarrow> nat outcome \<times> ('t, 'u, 'i, 'b) inet_stack" where
  "schedule_op r = (case r of (Ok op, k) \<Rightarrow> schedule op k | (Err e, k) \<Rightarrow> (Err e, k) | (Panic, k) \<Rightarrow> (Panic, k))"

definition push2 :: "('t, 'u, 'i, 'b) env \<Rightarrow> qdesc \<Rightarrow> bytes \<Rightarrow> ('t, 'u, 'i, 'b) inet_stack \<Rightarrow> nat outcome \<times> ('t, 'u, 'i, 'b) inet_stack" where
  "push2 E qd data k =
     (if data = [] then (Err (fail_new EINVAL ''zero-length buffer''), k) else schedule_op (do_push E qd data k))"

text \<open>\<open>None\<close>: the push to the send queue never returns.\<close>

definition do_pushto ::
  "('t, 'u, 'i, 'b) env \<Rightarrow> qdesc \<Rightarrow> bytes \<Rightarrow> sockaddr \<Rightarrow> ('t, 'u, 'i, 'b) inet_stack \<Rightarrow> ('b operation outcome \<times> ('t, 'u, 'i, 'b) inet_stack) option" where
  "do_pushto E qd buf to k =
     (case by_qtype E qd k of
        Ok UdpSocket \<Rightarrow>
          map_option (\<lambda>(r, u). (if r = Panic then Panic else Ok (OpPushto qd r), k\<lparr>ik_net := (ik_net k)\<lparr>nt_udp := u\<rparr>\<rparr>))
            (udp_pushto (ev_udp E) (nt_arp (ik_net k)) qd buf to (nt_udp (ik_net k)))
      | Ok TcpSocket \<Rightarrow> Some (Err (fail_new EINVAL ''invalid queue type''), k)
      | Err e \<Rightarrow> Some (Err e, k)
      | Panic \<Rightarrow> Some (Panic, k))"

definition pushto2 ::
  "('t, 'u, 'i, 'b) env \<Rightarrow> qdesc \<Rightarrow> bytes \<Rightarrow> sockaddr \<Rightarrow> ('t, 'u, 'i, 'b) inet_stack \<Rightarrow> (nat outcome \<times> ('t, 'u, 'i, 'b) inet_stack) option" where
  "pushto2 E qd data remote k =
     (if data = [] then Some (Err (fail_new EINVAL ''zero-length buffer''), k) else map_option schedule_op (do_pushto E qd data remote k))"

definition stack_pop :: "('t, 'u, 'i, 'b) env \<Rightarrow> qdesc \<Rightarrow> ('t, 'u, 'i, 'b) inet_stack \<Rightarrow> nat outcome \<times> ('t, 'u, 'i, 'b) inet_stack" where
  "stack_pop E qd k =
     (case by_qtype E qd k of
        Ok TcpSocket \<Rightarrow> schedule (OpPop qd None) k
      | Ok UdpSocket \<Rightarrow>
          (case udp_pop qd (nt_udp (ik_net k)) of
             Ok (fd, q) \<Rightarrow> schedule (OpUdpPop fd q None) k
           | Err e \<Rightarrow> (Err e, k)
           | Panic \<Rightarrow> (Panic, k))
      | Err e \<Rightarrow> (Err e, k)
      | Panic \<Rightarrow> (Panic, k))"

section \<open>Background work\<close>

text \<open>What the outside provides to one round of background work: the batches the network runtime returns, the tasks that timers and channels
  have woken, and the time.\<close>

record round =
  rd_batches :: "bytes list list"
  rd_woken :: "nat list"
  rd_now :: instant

text \<open>A frame that is refused is dropped. \<open>None\<close>: the process has aborted or hangs.\<close>

fun receive_batch :: "('t, 'u, 'i, 'b) env \<Rightarrow> bytes list \<Rightarrow> ('u, 'i) net \<Rightarrow> ('u, 'i) net option" where
  "receive_batch E [] n = Some n"
| "receive_batch E (pkt # pkts) n =
     (case do_receive E pkt n of
        None \<Rightarrow> None
      | Some (Panic, _) \<Rightarrow> None
      | Some (_, n) \<Rightarrow> receive_batch E pkts n)"

fun receive_batches :: "nat \<Rightarrow> ('t, 'u, 'i, 'b) env \<Rightarrow> bytes list list \<Rightarrow> ('u, 'i) net \<Rightarrow> ('u, 'i) net option" where
  "receive_batches 0 E bs n = Some n"
| "receive_batches (Suc i) E [] n = Some n"
| "receive_batches (Suc i) E (b # bs) n = (if b = [] then Some n else Option.bind (receive_batch E b n) (receive_batches i E bs))"

definition poll_runtime :: "('t, 'u, 'i, 'b) env \<Rightarrow> bytes list list \<Rightarrow> ('t, 'u, 'i, 'b) inet_stack \<Rightarrow> ('t, 'u, 'i, 'b) inet_stack option" where
  "poll_runtime E bs k =
     Option.bind (receive_batches MAX_RECV_ITERS E bs (ik_net k)) (\<lambda>n.
       case with_tcp (nt_tcp n) n of (n, calls) \<Rightarrow>
         map_option (\<lambda>s. k\<lparr>ik_net := n, ik_scheduler := s\<rparr>) (do_calls calls (ik_scheduler k)))"

definition poll_scheduler :: "('t, 'u, 'i, 'b) env \<Rightarrow> ('t, 'u, 'i, 'b) inet_stack \<Rightarrow> ('t, 'u, 'i, 'b) inet_stack option" where
  "poll_scheduler E k =
     (case sched_poll (op_poll E) (ik_scheduler k, ik_net k) of
        None \<Rightarrow> None
      | Some (s, n) \<Rightarrow> if nt_aborted n then None else Some (k\<lparr>ik_scheduler := s, ik_net := n\<rparr>))"

definition migration_work :: "tcp_peer \<Rightarrow> tcp_peer option" where
  "migration_work p =
     Option.bind (poll_stats p) (\<lambda>p.
     Option.bind (rps_signal_action p) (\<lambda>p.
     initiate_all (case peer_reactive_connections p of Some cs \<Rightarrow> cs | None \<Rightarrow> []) p))"

definition advance_clock :: "instant \<Rightarrow> ('t, 'u, 'i, 'b) inet_stack \<Rightarrow> ('t, 'u, 'i, 'b) inet_stack" where
  "advance_clock now k =
     (let n = ik_net k
      in k\<lparr>ik_now := now, ik_net := n\<lparr>nt_arp := (nt_arp n)\<lparr>ar_now := now\<rparr>, nt_icmp := (nt_icmp n)\<lparr>ic_now := now\<rparr>,
                                     nt_tcp := (nt_tcp n)\<lparr>pe_now := now\<rparr>\<rparr>\<rparr>)"

definition poll_bg_work :: "('t, 'u, 'i, 'b) env \<Rightarrow> round \<Rightarrow> ('t, 'u, 'i, 'b) inet_stack \<Rightarrow> ('t, 'u, 'i, 'b) inet_stack option" where
  "poll_bg_work E rd k =
     Option.bind (do_calls (map Wake (rd_woken rd)) (ik_scheduler k)) (\<lambda>s.
     Option.bind (poll_runtime E (rd_batches rd) (k\<lparr>ik_scheduler := s\<rparr>)) (\<lambda>k.
     Option.bind (poll_scheduler E k) (\<lambda>k.
     Option.bind (migration_work (tcp_view (ik_net k))) (\<lambda>p.
       let k = k\<lparr>ik_net := (ik_net k)\<lparr>nt_tcp := p\<rparr>\<rparr>;
           k = (if ik_ts_iters k = 0 then advance_clock (rd_now rd) k else k)
       in Some (k\<lparr>ik_ts_iters := (ik_ts_iters k + 1) mod TIMER_RESOLUTION\<rparr>)))))"

section \<open>Waiting\<close>

text \<open>The result of a task is taken out together with the task; the descriptor booked for an accept that failed is given back.\<close>

definition take_operation :: "('t, 'u, 'i, 'b) env \<Rightarrow> nat \<Rightarrow> ('t, 'u, 'i, 'b) inet_stack \<Rightarrow> ((qdesc \<times> operation_result) \<times> ('t, 'u, 'i, 'b) inet_stack) option" where
  "take_operation E key k =
     Option.bind (sched_take key (ik_scheduler k)) (\<lambda>(op, s).
     Option.bind (expect_result op) (\<lambda>(qd, new_qd, r).
       let k = k\<lparr>ik_scheduler := s\<rparr>;
           k = (case (new_qd, r) of
                  (Some qd, ResFailed _) \<Rightarrow> k\<lparr>ik_file_table := snd (table_free (ev_slab E) qd (ik_file_table k))\<rparr>
                | _ \<Rightarrow> k)
       in Some ((qd, r), k)))"

text \<open>The search for finished operations among the given tokens, with the indices of the tokens; at most \<open>limit\<close> results are taken, the
  length of the arrays they are written to.\<close>

fun scan_tokens ::
  "('t, 'u, 'i, 'b) env \<Rightarrow> nat \<Rightarrow> nat \<Rightarrow> nat list \<Rightarrow> (nat \<times> qdesc \<times> operation_result) list \<Rightarrow> ('t, 'u, 'i, 'b) inet_stack \<Rightarrow>
   (nat \<times> qdesc \<times> operation_result) list outcome \<times> ('t, 'u, 'i, 'b) inet_stack" where
  "scan_tokens E limit i [] found k = (Ok found, k)"
| "scan_tokens E limit i (qt # qts) found k =
     (if length found = limit then (Ok found, k)
      else case from_raw_handle qt (ik_scheduler k) of
             Panic \<Rightarrow> (Panic, k)
           | Err e \<Rightarrow> (Err e, k)
           | Ok None \<Rightarrow> (Err (fail_new EINVAL ''invalid queue token''), k)
           | Ok (Some key) \<Rightarrow>
               if has_completed key (ik_scheduler k)
               then (case take_operation E key k of
                       None \<Rightarrow> (Panic, k)
                     | Some (r, k) \<Rightarrow> scan_tokens E limit (i + 1) qts (found @ [(i, r)]) k)
               else scan_tokens E limit (i + 1) qts found k)"

text \<open>Waiting for one operation, given what the outside does round by round; \<open>Inr\<close>: it is still waiting when the rounds are over.\<close>

fun wait2_loop :: "('t, 'u, 'i, 'b) env \<Rightarrow> nat \<Rightarrow> round list \<Rightarrow> ('t, 'u, 'i, 'b) inet_stack \<Rightarrow>
   ((qdesc \<times> operation_result) outcome \<times> ('t, 'u, 'i, 'b) inet_stack) + ('t, 'u, 'i, 'b) inet_stack" where
  "wait2_loop E key [] k = Inr k"
| "wait2_loop E key (rd # rds) k =
     (case poll_bg_work E rd k of
        None \<Rightarrow> Inl (Panic, k)
      | Some k \<Rightarrow>
          if has_completed key (ik_scheduler k)
          then Inl (case take_operation E key k of None \<Rightarrow> (Panic, k) | Some (r, k) \<Rightarrow> (Ok r, k))
          else wait2_loop E key rds k)"

definition wait2 :: "('t, 'u, 'i, 'b) env \<Rightarrow> nat \<Rightarrow> round list \<Rightarrow> ('t, 'u, 'i, 'b) inet_stack \<Rightarrow>
   ((qdesc \<times> operation_result) outcome \<times> ('t, 'u, 'i, 'b) inet_stack) + ('t, 'u, 'i, 'b) inet_stack" where
  "wait2 E qt rds k =
     (case from_raw_handle qt (ik_scheduler k) of
        Ok (Some key) \<Rightarrow> wait2_loop E key rds k
      | Ok None \<Rightarrow> Inl (Err (fail_new EINVAL ''invalid queue token''), k)
      | Err e \<Rightarrow> Inl (Err e, k)
      | Panic \<Rightarrow> Inl (Panic, k))"

text \<open>The first round after which \<open>expired\<close> holds ends the wait.\<close>

fun timedwait2_loop :: "('t, 'u, 'i, 'b) env \<Rightarrow> (instant \<Rightarrow> bool) \<Rightarrow> nat \<Rightarrow> round list \<Rightarrow> ('t, 'u, 'i, 'b) inet_stack \<Rightarrow>
   ((qdesc \<times> operation_result) outcome \<times> ('t, 'u, 'i, 'b) inet_stack) + ('t, 'u, 'i, 'b) inet_stack" where
  "timedwait2_loop E expired key [] k = Inr k"
| "timedwait2_loop E expired key (rd # rds) k =
     (case poll_bg_work E rd k of
        None \<Rightarrow> Inl (Panic, k)
      | Some k \<Rightarrow>
          if has_completed key (ik_scheduler k)
          then Inl (case take_operation E key k of None \<Rightarrow> (Panic, k) | Some (r, k) \<Rightarrow> (Ok r, k))
          else if expired (rd_now rd) then Inl (Err (fail_new ETIMEDOUT ''timer expired''), k)
          else timedwait2_loop E expired key rds k)"

definition timedwait2 :: "('t, 'u, 'i, 'b) env \<Rightarrow> nat \<Rightarrow> instant option \<Rightarrow> round list \<Rightarrow> ('t, 'u, 'i, 'b) inet_stack \<Rightarrow>
   ((qdesc \<times> operation_result) outcome \<times> ('t, 'u, 'i, 'b) inet_stack) + ('t, 'u, 'i, 'b) inet_stack" where
  "timedwait2 E qt abstime rds k =
     (case from_raw_handle qt (ik_scheduler k) of
        Ok (Some key) \<Rightarrow> timedwait2_loop E (\<lambda>now. case abstime of None \<Rightarrow> True | Some t \<Rightarrow> t \<le> now) key rds k
      | Ok None \<Rightarrow> Inl (Err (fail_new EINVAL ''invalid queue token''), k)
      | Err e \<Rightarrow> Inl (Err e, k)
      | Panic \<Rightarrow> Inl (Panic, k))"

fun wait_any2 :: "('t, 'u, 'i, 'b) env \<Rightarrow> nat list \<Rightarrow> nat \<Rightarrow> duration option \<Rightarrow> instant \<Rightarrow> round list \<Rightarrow> ('t, 'u, 'i, 'b) inet_stack \<Rightarrow>
   ((nat \<times> qdesc \<times> operation_result) list outcome \<times> ('t, 'u, 'i, 'b) inet_stack) + ('t, 'u, 'i, 'b) inet_stack" where
  "wait_any2 E qts limit timeout begin [] k = Inr k"
| "wait_any2 E qts limit timeout begin (rd # rds) k =
     (case poll_bg_work E rd k of
        None \<Rightarrow> Inl (Panic, k)
      | Some k \<Rightarrow>
          (case scan_tokens E limit 0 qts [] k of
             (Ok found, k) \<Rightarrow>
               if found \<noteq> [] then Inl (Ok found, k)
               else if (case timeout of Some t \<Rightarrow> t \<le> rd_now rd - begin | None \<Rightarrow> False) then Inl (Ok [], k)
               else wait_any2 E qts limit timeout begin rds k
           | (r, k) \<Rightarrow> Inl (r, k)))"

text \<open>Without waiting. The first variant does not look at the length of the arrays for the results, \<open>room\<close>, before it writes to them; the
  second stops at the first result.\<close>

definition wait_any_nonblocking2 :: "('t, 'u, 'i, 'b) env \<Rightarrow> nat list \<Rightarrow> nat \<Rightarrow> round \<Rightarrow> ('t, 'u, 'i, 'b) inet_stack \<Rightarrow>
   (nat \<times> qdesc \<times> operation_result) list outcome \<times> ('t, 'u, 'i, 'b) inet_stack" where
  "wait_any_nonblocking2 E qts room rd k =
     (case poll_bg_work E rd k of
        None \<Rightarrow> (Panic, k)
      | Some k \<Rightarrow>
          (case scan_tokens E (Suc room) 0 qts [] k of
             (Ok found, k) \<Rightarrow> if room < length found then (Panic, k) else (Ok found, k)
           | r \<Rightarrow> r))"

definition wait_any_nonblocking_one2 :: "('t, 'u, 'i, 'b) env \<Rightarrow> nat list \<Rightarrow> round \<Rightarrow> ('t, 'u, 'i, 'b) inet_stack \<Rightarrow>
   (nat \<times> qdesc \<times> operation_result) option outcome \<times> ('t, 'u, 'i, 'b) inet_stack" where
  "wait_any_nonblocking_one2 E qts rd k =
     (case poll_bg_work E rd k of
        None \<Rightarrow> (Panic, k)
      | Some k \<Rightarrow>
          (case scan_tokens E 1 0 qts [] k of
             (Ok found, k) \<Rightarrow> (Ok (case found of [] \<Rightarrow> None | x # _ \<Rightarrow> Some x), k)
           | (Err e, k) \<Rightarrow> (Err e, k)
           | (Panic, k) \<Rightarrow> (Panic, k)))"

end
