(* ===== verification/Stack_Calls.thy ===== *)
theory Stack_Calls
  imports Inet_Stack Udp_Tables Icmp_Ping
begin

text \<open>
  Descriptors: every socket of a protocol is in the table of descriptors under its kind, whatever calls an application
  makes, so a new socket always gets a descriptor that neither protocol knows and no call reaches the wrong protocol.
  A close that fails has removed the socket but not its descriptor.
\<close>

section \<open>The table\<close>

text \<open>The contract of the \<^verbatim>\<open>slab\<close> package: an insertion takes a free place, a removal frees it.\<close>

definition slab_laws :: "'t slab_ops \<Rightarrow> ('t \<Rightarrow> nat \<Rightarrow> u32 option) \<Rightarrow> bool" where
  "slab_laws S view \<longleftrightarrow>
     view (sb_new S) = Map.empty
     \<and> (\<forall>v t i t'. sb_insert S v t = (i, t') \<longrightarrow> view t i = None \<and> view t' = (view t)(i \<mapsto> v))
     \<and> (\<forall>i t. sb_get S i t = view t i)
     \<and> (\<forall>i t v. view t i = Some v \<longrightarrow> fst (sb_remove S i t) = v \<and> view (snd (sb_remove S i t)) = (view t)(i := None))"

lemma table_alloc_ok:
  assumes "slab_laws S view" "table_alloc S v t = (qd, t')"
  shows "view t qd = None" "view t' = (view t)(qd \<mapsto> v)"
  using assms unfolding slab_laws_def table_alloc_def by blast+

lemma table_get_ok: "slab_laws S view \<Longrightarrow> table_get S qd t = view t qd"
  by (simp add: slab_laws_def table_get_def)

lemma table_free_ok: "slab_laws S view \<Longrightarrow> view (snd (table_free S qd t)) = (view t)(qd := None)"
proof -
  assume laws: "slab_laws S view"
  then have "sb_get S qd t = view t qd" "view t qd = Some v \<Longrightarrow> view (snd (sb_remove S qd t)) = (view t)(qd := None)" for v
    unfolding slab_laws_def by blast+
  then show ?thesis
    by (cases "view t qd") (auto simp: table_free_def split: prod.splits)
qed

text \<open>A list as a table.\<close>

fun first_free :: "'a option list \<Rightarrow> nat" where
  "first_free [] = 0"
| "first_free (None # t) = 0"
| "first_free (Some v # t) = Suc (first_free t)"

definition list_slab :: "u32 option list slab_ops" where
  "list_slab =
     \<lparr>sb_new = [],
      sb_insert = (\<lambda>v t. let i = first_free t in (i, if i < length t then t[i := Some v] else t @ [Some v])),
      sb_get = (\<lambda>i t. if i < length t then t ! i else None),
      sb_remove = (\<lambda>i t. (the (t ! i), t[i := None]))\<rparr>"

abbreviation list_view :: "u32 option list \<Rightarrow> nat \<Rightarrow> u32 option" where
  "list_view t \<equiv> (\<lambda>i. if i < length t then t ! i else None)"

lemma first_free: "first_free t \<le> length t \<and> (first_free t < length t \<longrightarrow> t ! first_free t = None)"
  by (induction t rule: first_free.induct) auto

lemma list_slab_laws: "slab_laws list_slab list_view"
proof -
  have "first_free t = length t \<or> first_free t < length t" "first_free t < length t \<Longrightarrow> t ! first_free t = None" for t :: "u32 option list"
    using first_free [of t] by auto
  moreover have "length t = first_free t" if "\<not> first_free t < length t" for t :: "u32 option list"
    using that calculation(1) [of t] by auto
  ultimately show ?thesis
    unfolding slab_laws_def list_slab_def
    by (auto simp: Let_def fun_eq_iff nth_append nth_list_update less_Suc_eq)
qed

section \<open>Which protocol knows a descriptor\<close>

abbreviation udp_fds :: "('t, 'u, 'i, 'b) inet_stack \<Rightarrow> qdesc set" where
  "udp_fds k \<equiv> dom (up_sockets (nt_udp (ik_net k)))"

abbreviation tcp_fds :: "('t, 'u, 'i, 'b) inet_stack \<Rightarrow> qdesc set" where
  "tcp_fds k \<equiv> dom (map_of (pe_sockets (nt_tcp (ik_net k))))"

definition fds_agree :: "('t \<Rightarrow> nat \<Rightarrow> u32 option) \<Rightarrow> ('t, 'u, 'i, 'b) inet_stack \<Rightarrow> bool" where
  "fds_agree view k \<longleftrightarrow> (\<forall>qd\<in>udp_fds k. view (ik_file_table k) qd = Some 1) \<and> (\<forall>qd\<in>tcp_fds k. view (ik_file_table k) qd = Some 2)"

lemma fds_agree_mono:
  assumes "fds_agree view k" "udp_fds k' \<subseteq> udp_fds k" "tcp_fds k' \<subseteq> tcp_fds k" "view (ik_file_table k') = view (ik_file_table k)"
  shows "fds_agree view k'"
  using assms(1) subsetD [OF assms(2)] subsetD [OF assms(3)] unfolding fds_agree_def assms(4) by blast

text \<open>The calls of the protocols.\<close>

abbreviation socks :: "tcp_peer \<Rightarrow> qdesc set" where
  "socks p \<equiv> dom (map_of (pe_sockets p))"

lemma on_connection_sockets: "pe_sockets (snd (on_connection key f p)) = pe_sockets p"
  by (auto simp: on_connection_def store_cb_def log_cb_def Let_def split: option.splits outcome.splits prod.splits)

lemma bind_sockets: "socks (snd (bind qd addr p)) \<subseteq> socks p"
  by (auto simp: bind_def Let_def update_conv' split: outcome.splits option.splits socket.splits if_splits prod.splits)

lemma listen_sockets: "socks (snd (listen qd b n p)) \<subseteq> socks p"
  by (auto simp: listen_def Let_def update_conv' split: outcome.splits option.splits socket.splits if_splits prod.splits)

lemma connect_sockets: "socks (snd (connect crc qd r p)) \<subseteq> socks p"
  by (auto simp: connect_def connect_local_def Let_def update_conv' split: outcome.splits option.splits socket.splits if_splits prod.splits)

lemma peer_send_sockets: "pe_sockets (snd (peer_send qd b p)) = pe_sockets p"
  by (auto simp: peer_send_def on_connection_sockets split: option.splits socket.splits)

lemma do_socket_sockets: "do_socket qd p = (r, p') \<Longrightarrow> qd \<notin> socks p \<Longrightarrow> r = Ok () \<and> socks p' = insert qd (socks p)"
  by (auto simp: do_socket_def update_conv' dom_def split: option.splits)

lemma do_close_sockets: "socks (snd (do_close qd p)) = socks p - {qd}"
  by (auto simp: do_close_def Let_def on_connection_sockets delete_conv' split: option.splits socket.splits)

lemma udp_bind_sockets: "dom (up_sockets (snd (udp_bind M qd a p))) \<subseteq> dom (up_sockets p)"
  by (auto simp: udp_bind_def Let_def split: outcome.splits option.splits if_splits prod.splits)

lemma udp_pushto_sockets: "udp_pushto M arp qd b a p = Some (r, p') \<Longrightarrow> up_sockets p' = up_sockets p"
  by (auto simp: udp_pushto_def udp_send_def split: option.splits)

lemma udp_close_sockets: "dom (up_sockets (snd (udp_close qd p))) = dom (up_sockets p) - {qd}"
  by (auto simp: udp_close_def Let_def split: option.splits)

lemma udp_socket_sockets: "udp_socket qd p = (r, p') \<Longrightarrow> qd \<notin> dom (up_sockets p) \<Longrightarrow> r = Ok () \<and> dom (up_sockets p') = insert qd (dom (up_sockets p))"
  by (auto simp: udp_socket_def split: option.splits)


section \<open>Sequences of calls\<close>

lemma by_qtype_ok:
  assumes "slab_laws (ev_slab E) view"
  shows "by_qtype E qd k = Ok UdpSocket \<longleftrightarrow> view (ik_file_table k) qd = Some 1"
    and "by_qtype E qd k = Ok TcpSocket \<longleftrightarrow> view (ik_file_table k) qd = Some 2"
  by (auto simp: by_qtype_def table_get_ok [OF assms] qtype_try_from_def split: option.splits)

lemma tcp_view_socks [simp]: "socks (tcp_view n) = socks (nt_tcp n)"
  by (simp add: tcp_view_def)

lemma on_tcp_fds:
  "udp_fds (snd (on_tcp f k)) = udp_fds k" "tcp_fds (snd (on_tcp f k)) = socks (snd (f (tcp_view (ik_net k))))"
  "ik_file_table (snd (on_tcp f k)) = ik_file_table k" "fst (on_tcp f k) = fst (f (tcp_view (ik_net k)))"
  by (simp_all add: on_tcp_def tcp_view_def split: prod.split)

lemma on_udp_fds:
  "tcp_fds (snd (on_udp f k)) = tcp_fds k" "udp_fds (snd (on_udp f k)) = dom (up_sockets (snd (f (nt_udp (ik_net k)))))"
  "ik_file_table (snd (on_udp f k)) = ik_file_table k" "fst (on_udp f k) = fst (f (nt_udp (ik_net k)))"
  by (simp_all add: on_udp_def split: prod.split)

lemma schedule_fds:
  "udp_fds (snd (schedule op k)) = udp_fds k" "tcp_fds (snd (schedule op k)) = tcp_fds k" "ik_file_table (snd (schedule op k)) = ik_file_table k"
  by (auto simp: schedule_def split: outcome.splits option.splits)

text \<open>The calls of an application, in any order; what it passes is arbitrary.\<close>

inductive stack_call :: "('t, 'u, 'i, 'b) env \<Rightarrow> ('t, 'u, 'i, 'b) inet_stack \<Rightarrow> ('t, 'u, 'i, 'b) inet_stack \<Rightarrow> bool" for E where
  call_socket: "stack_call E k (snd (stack_socket E domain ty k))"
| call_bind: "stack_call E k (snd (stack_bind E qd addr k))"
| call_listen: "stack_call E k (snd (stack_listen E qd backlog n k))"
| call_accept: "stack_call E k (snd (stack_accept E qd k))" if "ik_migrated_qds k = []"
| call_connect: "stack_call E k (snd (stack_connect E qd remote k))"
| call_push: "stack_call E k (snd (push2 E qd data k))"
| call_pushto: "stack_call E k k'" if "pushto2 E qd data remote k = Some (r, k')"
| call_pop: "stack_call E k (snd (stack_pop E qd k))"
| call_close: "stack_call E k (snd (stack_close E qd k))"

text \<open>A new descriptor is one that neither protocol knows.\<close>

lemma fds_alloc:
  assumes "slab_laws S view" "fds_agree view k" "table_alloc S v (ik_file_table k) = (qd, t)"
  shows "qd \<notin> udp_fds k" "qd \<notin> tcp_fds k" "fds_agree view (k\<lparr>ik_file_table := t\<rparr>)"
proof -
  note a = table_alloc_ok [OF assms(1,3)]
  show qd: "qd \<notin> udp_fds k" "qd \<notin> tcp_fds k"
    using assms(2) a(1) unfolding fds_agree_def by force+
  show "fds_agree view (k\<lparr>ik_file_table := t\<rparr>)"
    using assms(2) qd a(2) unfolding fds_agree_def by auto
qed

lemma open_socket_ok:
  assumes "slab_laws (ev_slab E) view" "fds_agree view k"
  shows "\<exists>qd k'. stack_socket E AF_INET SOCK_STREAM k = (Ok qd, k') \<and> qd \<notin> udp_fds k \<union> tcp_fds k \<and> fds_agree view k'
      \<and> tcp_fds k' = insert qd (tcp_fds k) \<and> udp_fds k' = udp_fds k"
    and "\<exists>qd k'. stack_socket E AF_INET SOCK_DGRAM k = (Ok qd, k') \<and> qd \<notin> udp_fds k \<union> tcp_fds k \<and> fds_agree view k'
      \<and> udp_fds k' = insert qd (udp_fds k) \<and> tcp_fds k' = tcp_fds k"
proof -
  have kind: "SOCK_DGRAM \<noteq> SOCK_STREAM"
    by (simp add: SOCK_DGRAM_def SOCK_STREAM_def)
  obtain qd t where t: "table_alloc (ev_slab E) 2 (ik_file_table k) = (qd, t)"
    by fastforce
  note a = fds_alloc [OF assms t] table_alloc_ok [OF assms(1) t]
  let ?k = "k\<lparr>ik_file_table := t\<rparr>"
  obtain r k' where k': "on_tcp (do_socket qd) ?k = (r, k')"
    by fastforce
  have "r = Ok ()" "tcp_fds k' = insert qd (tcp_fds k)" "udp_fds k' = udp_fds k" "ik_file_table k' = t"
    using do_socket_sockets [of qd "tcp_view (ik_net ?k)"] on_tcp_fds [of "do_socket qd" ?k] a(2) k'
    by (cases "do_socket qd (tcp_view (ik_net ?k))"; simp)+
  then show "\<exists>qd k'. stack_socket E AF_INET SOCK_STREAM k = (Ok qd, k') \<and> qd \<notin> udp_fds k \<union> tcp_fds k \<and> fds_agree view k'
      \<and> tcp_fds k' = insert qd (tcp_fds k) \<and> udp_fds k' = udp_fds k"
    using t k' a by (auto simp: stack_socket_def open_socket_def fds_agree_def)
next
  have kind: "SOCK_DGRAM \<noteq> SOCK_STREAM"
    by (simp add: SOCK_DGRAM_def SOCK_STREAM_def)
  obtain qd t where t: "table_alloc (ev_slab E) 1 (ik_file_table k) = (qd, t)"
    by fastforce
  note a = fds_alloc [OF assms t] table_alloc_ok [OF assms(1) t]
  let ?k = "k\<lparr>ik_file_table := t\<rparr>"
  obtain r k' where k': "on_udp (udp_socket qd) ?k = (r, k')"
    by fastforce
  have "r = Ok ()" "udp_fds k' = insert qd (udp_fds k)" "tcp_fds k' = tcp_fds k" "ik_file_table k' = t"
    using udp_socket_sockets [of qd "nt_udp (ik_net ?k)"] on_udp_fds [of "udp_socket qd" ?k] a(1) k'
    by (cases "udp_socket qd (nt_udp (ik_net ?k))"; simp)+
  then show "\<exists>qd k'. stack_socket E AF_INET SOCK_DGRAM k = (Ok qd, k') \<and> qd \<notin> udp_fds k \<union> tcp_fds k \<and> fds_agree view k'
      \<and> udp_fds k' = insert qd (udp_fds k) \<and> tcp_fds k' = tcp_fds k"
    using t k' a kind by (auto simp: stack_socket_def open_socket_def fds_agree_def)
qed


lemma socket_keeps:
  assumes "slab_laws (ev_slab E) view" "fds_agree view k"
  shows "fds_agree view (snd (stack_socket E domain ty k))"
proof -
  consider "domain = AF_INET" "ty = SOCK_STREAM" | "domain = AF_INET" "ty = SOCK_DGRAM"
    | "domain \<noteq> AF_INET \<or> ty \<noteq> SOCK_STREAM \<and> ty \<noteq> SOCK_DGRAM"
    by blast
  then show ?thesis
    by cases (use open_socket_ok [OF assms] assms(2) in \<open>auto simp: stack_socket_def\<close>)
qed

lemma shrink_keeps:
  assumes "fds_agree view k" "socks (snd (f (tcp_view (ik_net k)))) \<subseteq> tcp_fds k"
  shows "fds_agree view (snd (on_tcp f k))"
  using assms(2) by (intro fds_agree_mono [OF assms(1)]) (simp_all only: on_tcp_fds order_refl)

lemma udp_shrink_keeps:
  assumes "fds_agree view k" "dom (up_sockets (snd (f (nt_udp (ik_net k))))) \<subseteq> udp_fds k"
  shows "fds_agree view (snd (on_udp f k))"
  using assms(2) by (intro fds_agree_mono [OF assms(1)]) (simp_all only: on_udp_fds order_refl)

lemma schedule_keeps: "fds_agree view (snd (schedule op k)) = fds_agree view k"
  unfolding fds_agree_def schedule_fds ..

lemma stack_bind_keeps:
  assumes "fds_agree view k"
  shows "fds_agree view (snd (stack_bind E qd addr k))"
  using assms shrink_keeps [OF assms, of "bind qd addr"] udp_shrink_keeps [OF assms, of "udp_bind (ev_udp E) qd addr"]
    bind_sockets [of qd addr "tcp_view (ik_net k)"] udp_bind_sockets [of "ev_udp E" qd addr "nt_udp (ik_net k)"]
  by (simp add: stack_bind_def split: outcome.splits qtype.splits)

lemma listen_keeps:
  assumes "fds_agree view k"
  shows "fds_agree view (snd (stack_listen E qd b n k))"
  using assms shrink_keeps [OF assms, of "listen qd b n"] listen_sockets [of qd b n "tcp_view (ik_net k)"]
  by (simp add: stack_listen_def split: outcome.splits qtype.splits)

lemma connect_keeps:
  assumes "fds_agree view k"
  shows "fds_agree view (snd (stack_connect E qd remote k))"
  using assms shrink_keeps [OF assms, of "connect (ev_crc E) qd remote"] connect_sockets [of "ev_crc E" qd remote "tcp_view (ik_net k)"]
  by (auto simp: stack_connect_def schedule_keeps split: outcome.splits qtype.splits prod.splits)

lemma push_keeps:
  assumes "fds_agree view k"
  shows "fds_agree view (snd (push2 E qd data k))"
  using assms shrink_keeps [OF assms, of "peer_send qd data"] peer_send_sockets [of qd data "tcp_view (ik_net k)"]
  by (auto simp: push2_def do_push_def schedule_op_def schedule_keeps split: outcome.splits qtype.splits prod.splits)

lemma pushto_keeps:
  assumes "fds_agree view k" "pushto2 E qd data remote k = Some (r, k')"
  shows "fds_agree view k'"
proof -
  have keep: "fds_agree view (k\<lparr>ik_net := (ik_net k)\<lparr>nt_udp := u\<rparr>\<rparr>)" if "up_sockets u = up_sockets (nt_udp (ik_net k))" for u
    using assms(1) that by (simp add: fds_agree_def)
  have op: "fds_agree view (snd (schedule_op (r, k)))" if "fds_agree view k" for r and k :: "('a, 'b, 'c, 'd) inet_stack"
    using that by (simp add: schedule_op_def schedule_keeps split: outcome.split)
  show ?thesis
  proof (cases "data = []")
    case False
    then obtain x k1 where x: "do_pushto E qd data remote k = Some (x, k1)" "k' = snd (schedule_op (x, k1))"
      using assms(2) by (cases "do_pushto E qd data remote k") (auto simp: pushto2_def)
    have "fds_agree view k1"
      using x(1) assms(1) by (auto simp: do_pushto_def split: outcome.splits qtype.splits intro!: keep dest!: udp_pushto_sockets)
    then show ?thesis
      using op x(2) by simp
  qed (use assms in \<open>simp add: pushto2_def\<close>)
qed

lemma accept_keeps:
  assumes "slab_laws (ev_slab E) view" "fds_agree view k" "ik_migrated_qds k = []"
  shows "fds_agree view (snd (stack_accept E qd k))"
proof -
  obtain new t where t: "table_alloc (ev_slab E) 2 (ik_file_table k) = (new, t)"
    by fastforce
  note a = fds_alloc [OF assms(1,2) t]
  let ?k = "snd (schedule (OpAccept qd new None) (k\<lparr>ik_file_table := t\<rparr>))"
  have k: "fds_agree view ?k"
    using a(3) by (simp add: schedule_keeps)
  have "fds_agree view (?k\<lparr>ik_file_table := snd (table_free (ev_slab E) new (ik_file_table ?k))\<rparr>)"
    using k a(1,2) table_free_ok [OF assms(1)] unfolding fds_agree_def by (auto simp: schedule_fds)
  then show ?thesis
    using assms(2,3) t k by (auto simp: stack_accept_def book_qd_def split: outcome.splits qtype.splits prod.splits)
qed

lemma close_keeps:
  assumes "slab_laws (ev_slab E) view" "fds_agree view k"
  shows "fds_agree view (snd (stack_close E qd k))"
proof -
  have free: "fds_agree view (k'\<lparr>ik_file_table := snd (table_free (ev_slab E) qd (ik_file_table k'))\<rparr>)"
    if "fds_agree view k'" "qd \<notin> udp_fds k'" "qd \<notin> tcp_fds k'" for k' :: "('a, 'b, 'c, 'd) inet_stack"
    using that table_free_ok [OF assms(1)] unfolding fds_agree_def by auto
  note q = by_qtype_ok [OF assms(1), of qd k]
  show ?thesis
  proof (cases "by_qtype E qd k")
    case (Ok ty)
    show ?thesis
    proof (cases ty)
      case TcpSocket
      let ?r = "on_tcp (do_close qd) k"
      have "tcp_fds (snd ?r) = tcp_fds k - {qd}" "fds_agree view (snd ?r)"
        using shrink_keeps [OF assms(2), of "do_close qd"] by (auto simp: on_tcp_fds do_close_sockets)
      moreover have "qd \<notin> udp_fds (snd ?r)"
        using assms(2) q(2) Ok TcpSocket unfolding fds_agree_def on_tcp_fds by force
      ultimately show ?thesis
        using free [of "snd ?r"] Ok TcpSocket by (cases ?r) (simp add: stack_close_def Let_def split: outcome.split)
    next
      case UdpSocket
      let ?r = "on_udp (udp_close qd) k"
      have "udp_fds (snd ?r) = udp_fds k - {qd}" "fds_agree view (snd ?r)"
        using udp_shrink_keeps [OF assms(2), of "udp_close qd"] by (auto simp: on_udp_fds udp_close_sockets)
      moreover have "qd \<notin> tcp_fds (snd ?r)"
        using assms(2) q(1) Ok UdpSocket unfolding fds_agree_def on_udp_fds by force
      ultimately show ?thesis
        using free [of "snd ?r"] Ok UdpSocket by (cases ?r) (simp add: stack_close_def Let_def split: outcome.split)
    qed
  qed (use assms(2) in \<open>simp_all add: stack_close_def\<close>)
qed

lemma pop_keeps: "fds_agree view k \<Longrightarrow> fds_agree view (snd (stack_pop E qd k))"
  by (simp add: stack_pop_def schedule_keeps split: outcome.splits qtype.splits prod.split)

lemma stack_call_keeps:
  assumes "slab_laws (ev_slab E) view" "stack_call E k k'" "fds_agree view k"
  shows "fds_agree view k'"
  using assms(2,3)
  by (induction rule: stack_call.induct)
    (simp_all add: socket_keeps [OF assms(1)] stack_bind_keeps listen_keeps accept_keeps [OF assms(1)] connect_keeps push_keeps pushto_keeps pop_keeps
      close_keeps [OF assms(1)])

text \<open>C29: whatever calls an application has made, each descriptor belongs to at most one protocol and the table has its kind, so calls
  reach the protocol that has the socket. A new socket, of either kind, always succeeds, with a descriptor that no socket
  has, and leaves the other protocol alone.\<close>

theorem descriptors_agree:
  assumes "slab_laws (ev_slab E) view" "udp_fds k0 = {}" "tcp_fds k0 = {}" "(stack_call E)\<^sup>*\<^sup>* k0 k"
  shows "udp_fds k \<inter> tcp_fds k = {} \<and> (\<forall>qd\<in>udp_fds k. by_qtype E qd k = Ok UdpSocket) \<and> (\<forall>qd\<in>tcp_fds k. by_qtype E qd k = Ok TcpSocket)
    \<and> (\<exists>new k'. stack_socket E AF_INET SOCK_STREAM k = (Ok new, k') \<and> new \<notin> udp_fds k \<union> tcp_fds k
          \<and> tcp_fds k' = insert new (tcp_fds k) \<and> udp_fds k' = udp_fds k)
    \<and> (\<exists>new k'. stack_socket E AF_INET SOCK_DGRAM k = (Ok new, k') \<and> new \<notin> udp_fds k \<union> tcp_fds k
          \<and> udp_fds k' = insert new (udp_fds k) \<and> tcp_fds k' = tcp_fds k)"
proof -
  have "fds_agree view k0"
    using assms(2,3) unfolding fds_agree_def by blast
  with assms(4) have ok: "fds_agree view k"
    by (induction rule: rtranclp_induct) (auto intro: stack_call_keeps [OF assms(1)])
  then have "udp_fds k \<inter> tcp_fds k = {}"
    unfolding fds_agree_def by force
  moreover have "\<forall>qd\<in>udp_fds k. by_qtype E qd k = Ok UdpSocket" "\<forall>qd\<in>tcp_fds k. by_qtype E qd k = Ok TcpSocket"
    using ok by_qtype_ok [OF assms(1), of _ k] unfolding fds_agree_def by blast+
  ultimately show ?thesis
    using open_socket_ok [OF assms(1) ok] by blast
qed

text \<open>closing a TCP socket that is not connected fails with ENOTSUP but removes the socket, and keeps its descriptor: it is in the
  table for good, every later close of it fails with EBADF, and no new socket can have it.\<close>

theorem failed_close_leaks:
  assumes "slab_laws (ev_slab E) view" "fds_agree view k" "map_of (pe_sockets (nt_tcp (ik_net k))) qd = Some s"
    and "\<not> (\<exists>l r. s = SockEstablished l r)"
  shows "\<exists>e k1. stack_close E qd k = (Err e, k1) \<and> errno e = ENOTSUP \<and> qd \<notin> tcp_fds k1
    \<and> by_qtype E qd k1 = Ok TcpSocket \<and> (\<exists>e' k2. stack_close E qd k1 = (Err e', k2) \<and> errno e' = EBADF \<and> by_qtype E qd k2 = Ok TcpSocket)"
proof -
  have q: "by_qtype E qd k = Ok TcpSocket"
    using assms(2,3) by_qtype_ok(2) [OF assms(1)] unfolding fds_agree_def by blast
  obtain e k1 where k1: "on_tcp (do_close qd) k = (Err e, k1)" "errno e = ENOTSUP" "ik_file_table k1 = ik_file_table k"
    "map_of (pe_sockets (nt_tcp (ik_net k1))) qd = None"
    using assms(3,4) by (cases s) (auto simp: on_tcp_def do_close_def tcp_view_def fail_new_def delete_conv')
  have q1: "by_qtype E qd k1 = Ok TcpSocket"
    using q k1(3) by (simp add: by_qtype_def)
  obtain e' k2 where k2: "on_tcp (do_close qd) k1 = (Err e', k2)" "errno e' = EBADF" "ik_file_table k2 = ik_file_table k1"
    using k1(4) by (auto simp: on_tcp_def do_close_def tcp_view_def fail_new_def)
  have "by_qtype E qd k2 = Ok TcpSocket"
    using q1 k2(3) by (simp add: by_qtype_def)
  then show ?thesis
    using q q1 k1 k2 by (auto simp: stack_close_def)
qed


section \<open>An example\<close>

definition demo_env :: "(u32 option list, nat \<times> slot list, echo list, unit) env" where
  "demo_env = \<lparr>ev_slab = list_slab, ev_udp = list_channel, ev_icmp = list_unbounded, ev_crc = (\<lambda>_. 0), ev_background = (\<lambda>_ b n. (False, b, n, []))\<rparr>"

definition demo_stack :: "ipv4addr \<Rightarrow> (u32 option list, nat \<times> slot list, echo list, unit) inet_stack" where
  "demo_stack ip =
     \<lparr>ik_net = \<lparr>nt_arp = demo_static_arp, nt_icmp = demo_icmp ip,
        nt_tcp = tcp_peer_new 0 (Mac 1 2 3 4 5 6) ip tcp_config_default (\<lambda>_. None) [50000] 1 100 None None 100 (1 / 2) 0,
        nt_udp = demo_udp ip, nt_aborted = False\<rparr>,
      ik_file_table = [], ik_scheduler = sched_default, ik_ts_iters = 0, ik_migrated_qds = [], ik_now = 0\<rparr>"

definition demo_socket :: "ipv4addr \<Rightarrow> int \<Rightarrow> (u32 option list, nat \<times> slot list, echo list, unit) inet_stack" where
  "demo_socket ip ty = snd (stack_socket demo_env AF_INET ty (demo_stack ip))"

lemma demo_env_laws: "slab_laws (ev_slab demo_env) list_view"
  using list_slab_laws by (simp add: demo_env_def)

lemma demo_stack_fds: "udp_fds (demo_stack ip) = {}" "tcp_fds (demo_stack ip) = {}"
  by (simp_all add: demo_stack_def demo_udp_def udp_peer_new_def tcp_peer_new_def)

lemma demo_socket_run: "(stack_call demo_env)\<^sup>*\<^sup>* (demo_stack ip) (demo_socket ip ty)"
  using call_socket [of demo_env "demo_stack ip" AF_INET ty] by (simp add: demo_socket_def)

lemma demo_socket_table:
  "map_of (pe_sockets (nt_tcp (ik_net (demo_socket ip SOCK_STREAM)))) 0 = Some (Inactive None)"
  "up_sockets (nt_udp (ik_net (demo_socket ip SOCK_DGRAM))) 0 = Some None"
  by (simp_all add: demo_socket_def stack_socket_def open_socket_def AF_INET_def SOCK_STREAM_def SOCK_DGRAM_def table_alloc_def demo_env_def
      list_slab_def demo_stack_def on_tcp_def on_udp_def do_socket_def udp_socket_def tcp_view_def tcp_peer_new_def demo_udp_def udp_peer_new_def Let_def)

theorem descriptors_agree_witness:
  "(stack_call demo_env)\<^sup>*\<^sup>* (demo_stack 7) (demo_socket 7 SOCK_DGRAM) \<and> by_qtype demo_env 0 (demo_socket 7 SOCK_DGRAM) = Ok UdpSocket
    \<and> (\<exists>new k'. stack_socket demo_env AF_INET SOCK_STREAM (demo_socket 7 SOCK_DGRAM) = (Ok new, k') \<and> new \<noteq> 0)"
proof -
  have "0 \<in> udp_fds (demo_socket 7 SOCK_DGRAM)"
    using demo_socket_table(2) by auto
  moreover note d = descriptors_agree [OF demo_env_laws demo_stack_fds demo_socket_run [of 7 SOCK_DGRAM]]
  have "by_qtype demo_env 0 (demo_socket 7 SOCK_DGRAM) = Ok UdpSocket"
    using d calculation by blast
  moreover obtain new k' where "stack_socket demo_env AF_INET SOCK_STREAM (demo_socket 7 SOCK_DGRAM) = (Ok new, k')"
    "new \<notin> udp_fds (demo_socket 7 SOCK_DGRAM) \<union> tcp_fds (demo_socket 7 SOCK_DGRAM)"
    using d by blast
  ultimately show ?thesis
    using demo_socket_run by auto
qed

theorem failed_close_leaks_witness:
  "\<exists>e k1. stack_close demo_env 0 (demo_socket 7 SOCK_STREAM) = (Err e, k1) \<and> errno e = ENOTSUP \<and> 0 \<notin> tcp_fds k1
    \<and> by_qtype demo_env 0 k1 = Ok TcpSocket
    \<and> (\<exists>e' k2. stack_close demo_env 0 k1 = (Err e', k2) \<and> errno e' = EBADF \<and> by_qtype demo_env 0 k2 = Ok TcpSocket)"
proof -
  have "fds_agree list_view (demo_stack 7)"
    unfolding fds_agree_def demo_stack_fds by blast
  then have "fds_agree list_view (demo_socket 7 SOCK_STREAM)"
    unfolding demo_socket_def by (rule socket_keeps [OF demo_env_laws])
  then show ?thesis
    by (rule failed_close_leaks [OF demo_env_laws _ demo_socket_table(1)]) simp
qed

end
