(* ===== verification/Stack_Udp.thy ===== *)
theory Stack_Udp
  imports Stack_Calls Sched_Poll
begin

text \<open>
  The layers of the stack together: a datagram pushed on one host is waited for on another, through the socket calls, the
  wire, the dispatch of frames and the scheduler.
\<close>

section \<open>One task at a time\<close>

text \<open>A task that is inserted into an idle scheduler and finishes at its first poll is polled by the next poll, alone, and can be taken out.\<close>

lemma idle_no_flags:
  assumes "idle s"
  shows "\<not> notified j s" "\<not> dropped j s"
  using assms by (auto simp: idle_def flag_def)

lemma insert_into_idle:
  assumes "sched_ok s" "idle s" "sched_insert f s = Ok (Some (k, s1))"
  shows "sched_ok s1" "slab_get k (sc_slab s1) = Some f" "k div 64 < length (sc_pages s1)"
    "wp_notified (sc_pages s1 ! (k div 64)) = 2 ^ (k mod 64)" "wp_dropped (sc_pages s1 ! (k div 64)) = 0"
    "\<not> bit (wp_completed (sc_pages s1 ! (k div 64))) (k mod 64)"
    "q < length (sc_pages s1) \<Longrightarrow> q \<noteq> k div 64 \<Longrightarrow> wp_notified (sc_pages s1 ! q) = 0 \<and> wp_dropped (sc_pages s1 ! q) = 0"
proof -
  have i: "sched_ok s1" "\<forall>j. slab_get j (sc_slab s1) = (if j = k then Some f else slab_get j (sc_slab s))"
    "\<forall>j. notified j s1 \<longleftrightarrow> j = k \<or> notified j s" "\<forall>j. completed j s1 \<longleftrightarrow> j \<noteq> k \<and> completed j s" "\<forall>j. dropped j s1 = dropped j s"
    using sched_insert_ok [OF assms(1), of f] assms(3) by auto
  then show ok: "sched_ok s1" and g: "slab_get k (sc_slab s1) = Some f"
    by simp_all
  have "live k s1"
    using g by (simp add: live_def)
  then show p: "k div 64 < length (sc_pages s1)"
    using ok by (simp add: sched_ok_def)
  have bits: "bit (wp_notified (sc_pages s1 ! q)) n \<longleftrightarrow> q * 64 + n = k" "\<not> bit (wp_dropped (sc_pages s1 ! q)) n"
    if "q < length (sc_pages s1)" "n < 64" for q n
  proof -
    have e: "(q * 64 + n) div 64 = q" "(q * 64 + n) mod 64 = n"
      using that(2) by simp_all
    have "notified (q * 64 + n) s1 \<longleftrightarrow> q * 64 + n = k" "\<not> dropped (q * 64 + n) s1"
      using idle_no_flags [OF assms(2), of "q * 64 + n"] by (simp_all add: i(3,5))
    then show "bit (wp_notified (sc_pages s1 ! q)) n \<longleftrightarrow> q * 64 + n = k" "\<not> bit (wp_dropped (sc_pages s1 ! q)) n"
      unfolding flag_def e using that(1) by simp_all
  qed
  show "wp_notified (sc_pages s1 ! (k div 64)) = 2 ^ (k mod 64)"
  proof (rule bit_word_eqI)
    fix n assume "n < LENGTH(64)"
    moreover have "k div 64 * 64 + n = k \<longleftrightarrow> n = k mod 64"
      using div_mult_mod_eq [of k 64] by linarith
    ultimately show "bit (wp_notified (sc_pages s1 ! (k div 64))) n \<longleftrightarrow> bit (2 ^ (k mod 64) :: u64) n"
      using bits(1) [OF p] by (auto simp: bit_simps)
  qed
  show "wp_dropped (sc_pages s1 ! (k div 64)) = 0"
    using bits(2) [OF p] by (intro bit_word_eqI) simp
  show "\<not> bit (wp_completed (sc_pages s1 ! (k div 64))) (k mod 64)"
    using i(4) p by (auto simp: flag_def)
  show "wp_notified (sc_pages s1 ! q) = 0 \<and> wp_dropped (sc_pages s1 ! q) = 0" if "q < length (sc_pages s1)" "q \<noteq> k div 64"
  proof (intro conjI bit_word_eqI)
    fix n assume n: "n < LENGTH(64)"
    have "q * 64 + n \<noteq> k"
      using that(2) n by auto
    then show "bit (wp_notified (sc_pages s1 ! q)) n = bit 0 n" "bit (wp_dropped (sc_pages s1 ! q)) n = bit 0 n"
      using bits [OF that(1)] n by auto
  qed
qed

lemma poll_finishes:
  assumes "sched_ok s" "idle s" "sched_insert f s = Ok (Some (k, s1))" "run k f w = (True, f', w', [])"
  shows "\<exists>s2 s3. sched_poll run (s1, w) = Some (s2, w') \<and> has_completed k s2 \<and> sched_take k s2 = Some (f', s3)"
proof -
  let ?p = "k div 64" and ?ix = "k mod 64"
  let ?pg = "sc_pages s1 ! ?p"
  note i = insert_into_idle [OF assms(1-3)]
  have ok: "slab_ok (sc_slab s1)"
    using i(1) by (simp add: sched_ok_def)
  have "2 ^ ?ix AND NOT (wp_completed ?pg) = (2 ^ ?ix :: u64)"
    using i(6) by (intro bit_word_eqI) (auto simp: bit_simps)
  then have tn: "take_notified ?pg = (2 ^ ?ix, ?pg\<lparr>wp_notified := 0\<rparr>)"
    using i(4,5) by (simp add: take_notified_def)
  define s' where "s' = s1\<lparr>sc_pages := (sc_pages s1)[?p := ?pg\<lparr>wp_notified := 0, wp_dropped := 0\<rparr>]\<rparr>"
  define s2 where "s2 = s'\<lparr>sc_slab := slab_put k f' (sc_slab s1),
    sc_pages := (sc_pages s')[?p := mark_completed ?ix (sc_pages s' ! ?p)]\<rparr>"
  have pt: "poll_task run k (s', w) = Some (s2, w')"
    using i(2,3) assms(4) by (simp add: poll_task_def s'_def s2_def on_page_def page_of_def)
  have "poll_page run ?p (s1, w) = Some (s2, w')"
    using i(3,5) tn pt by (simp add: poll_page_def take_dropped_def bit_iter_one bit_iter_def [of 0] s'_def)
  moreover have "sched_poll run (s1, w) = poll_page run ?p (s1, w)"
    using calculation i(3,7) by (intro sched_poll_one_page) (auto simp: s2_def s'_def)
  moreover have "has_completed k s2"
    using i(3) by (auto simp: has_completed_def page_of_def page_has_completed_def s2_def s'_def mark_completed_def fetch_or_def bit_eq_iff bit_simps
        intro!: exI [of _ ?ix])
  moreover have "\<exists>s3. sched_take k s2 = Some (f', s3)"
  proof -
    have "slab_get k (slab_put k f' (sc_slab s1)) = Some f'" "slab_ok (slab_put k f' (sc_slab s1))"
      using slab.get_put [OF ok, of k k f'] slab.put_ok [OF ok, of k f'] i(2) by auto
    then have "fst (remove_unpin k (slab_put k f' (sc_slab s1))) = Some f'"
      using remove_unpin_eq(1) by metis
    then show ?thesis
      using i(3) by (auto simp: sched_take_def page_of_def on_page_def was_dropped_def s2_def s'_def mark_completed_def split: prod.split)
  qed
  ultimately show ?thesis
    by auto
qed


section \<open>Datagrams from host to host\<close>

text \<open>Which datagrams are taken for migration or load messages is decided by their first four bytes.\<close>

lemma not_hijacked:
  assumes "length u = 8" "take 4 data \<notin> {be32 MAGIC_NUMBER, be32 RPS_SIGNAL_SIGNATURE}"
  shows "\<not> is_tcpmig (u @ data)" "\<not> is_rps_signal (u @ data)"
proof -
  have "take 4 data = be32 (read_u32 (u @ data) 8)" if "4 \<le> length data"
  proof -
    have "take 4 data = [data ! 0, data ! 1, data ! 2, data ! 3]"
      using that by (auto simp: list_eq_iff_nth_eq less_Suc_eq numeral_eq_Suc)
    then show ?thesis
      using assms(1) that by (simp add: read_u32_def nth_append)
  qed
  then show "\<not> is_tcpmig (u @ data)" "\<not> is_rps_signal (u @ data)"
    using assms by (auto simp: is_tcpmig_def is_rps_signal_def TCPMIG_HEADER_SIZE_def RPS_SIGNAL_HEADER_SIZE_def)
qed

lemma same_view:
  assumes "pe_woken (nt_tcp n) = []"
  shows "with_tcp (nt_tcp n) n = (n, [])" "tcp_view (n\<lparr>nt_udp := u\<rparr>) = tcp_view n"
proof -
  have "(nt_tcp n)\<lparr>pe_woken := []\<rparr> = nt_tcp n"
    using assms by (cases "nt_tcp n") simp
  then show "with_tcp (nt_tcp n) n = (n, [])"
    using assms by (simp add: with_tcp_def)
  show "tcp_view (n\<lparr>nt_udp := u\<rparr>) = tcp_view n"
    by (simp add: tcp_view_def)
qed

text \<open>A waiting pop is served by the round in which a frame brings its datagram.\<close>

lemma pop_served:
  assumes "sched_ok (ik_scheduler k)" "idle (ik_scheduler k)" "sched_insert (OpUdpPop qd i None) (ik_scheduler k) = Ok (Some (key, s))"
    and "\<not> nt_aborted (ik_net k)" "pe_woken (nt_tcp (ik_net k)) = []" "migration_work (tcp_view (ik_net k)) = Some tcp"
    and "do_receive E frame (ik_net k) = Some (Ok (), (ik_net k)\<lparr>nt_udp := u\<rparr>)"
    and "fst (udp_pop_poll (ev_udp E) (qd, i) u) = Some (Ok (from, data))"
  shows "\<exists>k'. wait2 E key (\<lparr>rd_batches = [[frame]], rd_woken = [], rd_now = now\<rparr> # rds) (k\<lparr>ik_scheduler := s\<rparr>)
    = Inl (Ok (qd, ResPop (Some from) data), k')"
proof -
  let ?n = "(ik_net k)\<lparr>nt_udp := u\<rparr>" and ?op = "OpUdpPop qd i (Some (Ok (from, data)))"
  obtain u' where u': "udp_pop_poll (ev_udp E) (qd, i) u = (Some (Ok (from, data)), u')"
    using assms(8) by (cases "udp_pop_poll (ev_udp E) (qd, i) u") auto
  let ?n' = "?n\<lparr>nt_udp := u'\<rparr>"
  have run: "op_poll E key (OpUdpPop qd i None) ?n = (True, ?op, ?n', [])"
    using u' by (simp add: Let_def)
  obtain s2 s3 where s2: "sched_poll (op_poll E) (s, ?n) = Some (s2, ?n')" "has_completed key s2" "sched_take key s2 = Some (?op, s3)"
    using poll_finishes [OF assms(1-3), of "op_poll E", OF run] by blast
  have h: "from_raw_handle key s = Ok (Some key)"
    using insert_into_idle(2,3) [OF assms(1-3)] by (simp add: from_raw_handle_def page_of_def)
  have rt: "poll_runtime E [[frame]] (k\<lparr>ik_scheduler := s\<rparr>) = Some (k\<lparr>ik_scheduler := s, ik_net := ?n\<rparr>)"
    using assms(5,7) by (simp add: same_view(1) [of ?n, simplified] poll_runtime_def MAX_RECV_ITERS_def numeral_2_eq_2)
  have sc: "poll_scheduler E (k\<lparr>ik_scheduler := s, ik_net := ?n\<rparr>) = Some (k\<lparr>ik_scheduler := s2, ik_net := ?n'\<rparr>)"
    using s2(1) assms(4) by (simp add: poll_scheduler_def)
  have mw: "migration_work (tcp_view ?n') = Some tcp"
    using assms(6) same_view(2) [OF assms(5)] by simp
  obtain k2 where k2: "poll_bg_work E \<lparr>rd_batches = [[frame]], rd_woken = [], rd_now = now\<rparr> (k\<lparr>ik_scheduler := s\<rparr>) = Some k2"
    "ik_scheduler k2 = s2"
    using rt sc mw by (simp add: poll_bg_work_def advance_clock_def Let_def)
  have "\<exists>k'. take_operation E key k2 = Some ((qd, ResPop (Some from) data), k')"
    using s2(3) k2(2) by (simp add: take_operation_def result_of_def)
  then show ?thesis
    using h k2 s2(2) by (auto simp: wait2_def)
qed

lemma pushto_sent:
  assumes "by_qtype E qd k = Ok UdpSocket" "pushto2 E qd data remote k = Some (Ok qt, k1)"
    and "udp_pushto (ev_udp E) (nt_arp (ik_net k)) qd data remote (nt_udp (ik_net k)) = Some (Ok (), p)"
  shows "nt_udp (ik_net k1) = p"
  using assms by (auto simp: pushto2_def do_pushto_def schedule_op_def schedule_def split: if_splits outcome.splits option.splits)

text \<open>C28: from one application to another. A host that pushes a datagram to a resolved address hands one frame to its network. When
  the bytes of that frame, with any link padding, are among what the network of the other host returns, an application
  there that has popped the addressed socket and waits for the token gets the sender's address and the data, in
  that same round.\<close>

theorem udp_end_to_end:
  assumes "channel_laws (ev_udp EB) msgs buf" "distinct ports" "\<forall>n\<in>set ports. is_private n"
    and "(udp_step (ev_udp EB))\<^sup>*\<^sup>* (udp_peer_new (ev_udp EB) ports link_b ip_b offload) (nt_udp (ik_net kb))"
    and "by_qtype EB qd_b kb = Ok UdpSocket" "up_sockets (nt_udp (ik_net kb)) qd_b = Some (Some remote)"
    and "up_bound (nt_udp (ik_net kb)) remote = Some i" "sq_msgs msgs (up_queues (nt_udp (ik_net kb)) i) = []"
    and "sched_ok (ik_scheduler kb)" "idle (ik_scheduler kb)" "\<not> nt_aborted (ik_net kb)" "pe_woken (nt_tcp (ik_net kb)) = []"
    and "migration_work (tcp_view (ik_net kb)) = Some tcp" "stack_pop EB qd_b kb = (Ok qt, kb1)"
    and "by_qtype EA qd_a ka = Ok UdpSocket" "up_sockets (nt_udp (ik_net ka)) qd_a = Some (Some local)"
    and "try_query (fst remote) (nt_arp (ik_net ka)) = Some link" "pushto2 EA qd_a data remote ka = Some (Ok qt_a, ka1)"
    and "length data < 65508" "take 4 data \<notin> {be32 MAGIC_NUMBER, be32 RPS_SIGNAL_SIGNATURE}"
  shows "\<exists>d bs kb2. up_transmitted (nt_udp (ik_net ka1)) = up_transmitted (nt_udp (ik_net ka)) @ [d]
    \<and> ud_write_header d (replicate 42 0) = Some bs
    \<and> wait2 EB qt (\<lparr>rd_batches = [[bs @ ud_data d @ padding]], rd_woken = [], rd_now = now\<rparr> # rds) kb1
      = Inl (Ok (qd_b, ResPop (Some (up_local_ip (nt_udp (ik_net ka)), snd local)) data), kb2)"
proof -
  let ?pa = "nt_udp (ik_net ka)" and ?pb = "nt_udp (ik_net kb)"
  have ok: "udp_ok msgs buf ?pb"
    using udp_reach_ok [OF assms(1,2) _ assms(4)] assms(3) by simp
  obtain d bs ip_buf ip u where w: "udp_pushto (ev_udp EA) (nt_arp (ik_net ka)) qd_a data remote ?pa = Some (Ok (), udp_send link data local remote ?pa)"
    "up_transmitted (udp_send link data local remote ?pa) = up_transmitted ?pa @ [d]" "ud_data d = data"
    "ud_write_header d (replicate 42 0) = Some bs" "eth_parse (bs @ data @ padding) = Ok (eth_new link (up_local_link ?pa) Ipv4, ip_buf)"
    "ipv4_parse ip_buf = Ok (ip, u @ data)" "length u = 8" "ip_protocol ip = UDP" "ip_src_addr ip = up_local_ip ?pa" "ip_dst_addr ip = fst remote"
    "udp_parse_from_slice ip (u @ data) (up_checksum_offload ?pb) = Ok (udp_new (snd local) (snd remote), data)"
    using udp_pushto_frame [OF assms(16,17,19), of "ev_udp EA" padding "up_checksum_offload ?pb"] by blast
  have sent: "up_transmitted (nt_udp (ik_net ka1)) = up_transmitted ?pa @ [d]"
    using pushto_sent [OF assms(15,18) w(1)] w(2) by simp
  obtain pb' where pb': "udp_receive (ev_udp EB) ip (u @ data) ?pb = Some (Ok (), pb')"
    "fst (udp_pop_poll (ev_udp EB) (qd_b, i) pb') = Some (Ok ((up_local_ip ?pa, snd local), data))"
    using udp_message_arrives [OF assms(1) ok _ w(11) refl, of i qd_b] assms(7,8) w(9,10) by (auto simp: udp_new_def)
  have rx: "do_receive EB (bs @ ud_data d @ padding) (ik_net kb) = Some (Ok (), (ik_net kb)\<lparr>nt_udp := pb'\<rparr>)"
    using w(3,5,6,8) pb'(1) not_hijacked [OF w(7) assms(20)] by (simp add: do_receive_def ipv4_receive_def eth_new_def)
  obtain s where s: "sched_insert (OpUdpPop qd_b i None) (ik_scheduler kb) = Ok (Some (qt, s))" "kb1 = kb\<lparr>ik_scheduler := s\<rparr>"
    using assms(5-7,14) by (auto simp: stack_pop_def udp_pop_def schedule_def split: outcome.splits option.splits)
  show ?thesis
    using pop_served [OF assms(9,10) s(1) assms(11-13) rx pb'(2), of now rds] sent w(4) unfolding s(2) by blast
qed


text \<open>UDP payloads that begin with the magic number of the migration protocol never reach a socket, whatever port they are sent to.
  A datagram with 20 bytes or more that start with it leaves the sender like any other, but the other host hands it to the
  migration protocol and its UDP sockets see nothing of it.\<close>

theorem magic_datagrams_lost:
  assumes "by_qtype EA qd_a ka = Ok UdpSocket" "up_sockets (nt_udp (ik_net ka)) qd_a = Some (Some local)"
    and "try_query (fst remote) (nt_arp (ik_net ka)) = Some link" "pushto2 EA qd_a data remote ka = Some (Ok qt_a, ka1)"
    and "length data < 65508" "take 4 data = be32 MAGIC_NUMBER" "20 \<le> length data"
  shows "\<exists>d bs r n'. up_transmitted (nt_udp (ik_net ka1)) = up_transmitted (nt_udp (ik_net ka)) @ [d]
    \<and> ud_write_header d (replicate 42 0) = Some bs \<and> do_receive EB (bs @ ud_data d @ padding) n = Some (r, n') \<and> nt_udp n' = nt_udp n"
proof -
  let ?pa = "nt_udp (ik_net ka)"
  obtain d bs ip_buf ip u where w: "udp_pushto (ev_udp EA) (nt_arp (ik_net ka)) qd_a data remote ?pa = Some (Ok (), udp_send link data local remote ?pa)"
    "up_transmitted (udp_send link data local remote ?pa) = up_transmitted ?pa @ [d]" "ud_data d = data"
    "ud_write_header d (replicate 42 0) = Some bs" "eth_parse (bs @ data @ padding) = Ok (eth_new link (up_local_link ?pa) Ipv4, ip_buf)"
    "ipv4_parse ip_buf = Ok (ip, u @ data)" "length u = 8" "ip_protocol ip = UDP"
    using udp_pushto_frame [OF assms(2,3,5), of "ev_udp EA" padding] by blast
  have "data = be32 MAGIC_NUMBER @ drop 4 data"
    using assms(6) append_take_drop_id [of 4 data] by simp
  then have "read_u32 (u @ data) 8 = MAGIC_NUMBER"
    using read_u32_append [of 8 u MAGIC_NUMBER "drop 4 data"] w(7) by simp
  then have "is_tcpmig (u @ data)"
    using w(7) assms(7) by (simp add: is_tcpmig_def TCPMIG_HEADER_SIZE_def)
  then have "\<exists>r n'. do_receive EB (bs @ ud_data d @ padding) n = Some (r, n') \<and> nt_udp n' = nt_udp n"
    using w(3,5,6,8) by (cases "receive_tcpmig ip (u @ data) (tcp_view n)") (simp add: do_receive_def ipv4_receive_def eth_new_def)
  moreover have "up_transmitted (nt_udp (ik_net ka1)) = up_transmitted ?pa @ [d]"
    using pushto_sent [OF assms(1,4) w(1)] w(2) by simp
  ultimately show ?thesis
    using w(4) by blast
qed

section \<open>An example\<close>

text \<open>Two hosts with a UDP socket on port 50001.\<close>

definition demo_udp_host :: "ipv4addr \<Rightarrow> (u32 option list, nat \<times> slot list, echo list, unit) inet_stack" where
  "demo_udp_host ip = (let k = demo_stack ip in k\<lparr>ik_net := (ik_net k)\<lparr>nt_udp := demo_bound ip\<rparr>, ik_file_table := [None, None, None, Some 1]\<rparr>)"

lemma demo_udp_host_simps:
  "nt_udp (ik_net (demo_udp_host ip)) = demo_bound ip" "nt_arp (ik_net (demo_udp_host ip)) = demo_static_arp"
  "ik_scheduler (demo_udp_host ip) = sched_default" "by_qtype demo_env 3 (demo_udp_host ip) = Ok UdpSocket"
  "\<not> nt_aborted (ik_net (demo_udp_host ip))" "pe_woken (nt_tcp (ik_net (demo_udp_host ip))) = []"
  by (simp_all add: demo_udp_host_def demo_stack_def by_qtype_def table_get_def demo_env_def list_slab_def qtype_try_from_def tcp_peer_new_def)

lemma demo_op_insert: "\<exists>key s. sched_insert f sched_default = Ok (Some (key, s))"
proof -
  obtain s where "slab_insert f slab_new = Ok (Some (0, s))"
    using slab_insert_grows [of slab_new 0 f] by (auto simp: slab_new_def sizes_ok_def entries_def free_ok_def)
  moreover have "0 < length (add_pages 0 [])"
    using add_pages_spec [of 0 "[]"] by auto
  ultimately show ?thesis
    by (simp add: sched_insert_def sched_default_def on_page_def page_of_def)
qed

lemma demo_migration_work: "\<exists>tcp. migration_work (tcp_view (ik_net (demo_udp_host ip))) = Some tcp"
  by (simp add: migration_work_def poll_stats_def rps_signal_action_def peer_reactive_connections_def demo_udp_host_def demo_stack_def tcp_view_def
      tcp_peer_new_def stats_poll_def poll_loop.simps stats_new_def)


lemma demo_arp_query: "try_query x demo_static_arp = Some DUMMY_MAC_ADDRESS"
  by (simp add: try_query_def demo_static_get)

lemma demo_push: "data \<noteq> [] \<Longrightarrow> \<exists>qt k. pushto2 demo_env 3 data (7, 50001) (demo_udp_host 8) = Some (Ok qt, k)"
  using demo_op_insert [of "OpPushto 3 (Ok ()) :: unit operation"]
  by (auto simp: pushto2_def do_pushto_def schedule_op_def demo_udp_host_simps udp_pushto_def demo_bound_simps demo_arp_query schedule_def)

theorem udp_end_to_end_witness:
  "\<exists>qt kb1 qt_a ka1 d bs kb2. stack_pop demo_env 3 (demo_udp_host 7) = (Ok qt, kb1)
    \<and> pushto2 demo_env 3 [1, 2, 3] (7, 50001) (demo_udp_host 8) = Some (Ok qt_a, ka1)
    \<and> up_transmitted (nt_udp (ik_net ka1)) = up_transmitted (demo_bound 8) @ [d] \<and> ud_write_header d (replicate 42 0) = Some bs
    \<and> wait2 demo_env qt [\<lparr>rd_batches = [[bs @ ud_data d @ [0, 0]]], rd_woken = [], rd_now = 1\<rparr>] kb1
      = Inl (Ok (3, ResPop (Some (8, 50001)) [1, 2, 3]), kb2)"
proof -
  let ?a = "demo_udp_host 8" and ?b = "demo_udp_host 7"
  obtain qt kb1 where pop: "stack_pop demo_env 3 ?b = (Ok qt, kb1)"
    using demo_op_insert [of "OpUdpPop 3 0 None :: unit operation"]
    by (auto simp: stack_pop_def demo_udp_host_simps udp_pop_def demo_bound_simps schedule_def)
  obtain qt_a ka1 where push: "pushto2 demo_env 3 [1, 2, 3] (7, 50001) ?a = Some (Ok qt_a, ka1)"
    using demo_push [of "[1, 2, 3]"] by blast
  obtain tcp where mw: "migration_work (tcp_view (ik_net ?b)) = Some tcp"
    using demo_migration_work by blast
  have "sched_ok (sched_default :: unit operation scheduler)" "idle (sched_default :: unit operation scheduler)"
    by (simp_all add: slab_new_ok slab_new_get sched_ok_def idle_def sched_default_def live_def runnable_def flag_def)
  moreover have "ev_udp demo_env = list_channel"
    by (simp add: demo_env_def)
  moreover have "take 4 [1, 2, 3 :: u8] \<notin> {be32 MAGIC_NUMBER, be32 RPS_SIGNAL_SIGNATURE}"
    by (simp add: be32_def)
  ultimately have "\<exists>d bs kb2. up_transmitted (nt_udp (ik_net ka1)) = up_transmitted (nt_udp (ik_net ?a)) @ [d]
    \<and> ud_write_header d (replicate 42 0) = Some bs
    \<and> wait2 demo_env qt [\<lparr>rd_batches = [[bs @ ud_data d @ [0, 0]]], rd_woken = [], rd_now = 1\<rparr>] kb1
      = Inl (Ok (3, ResPop (Some (up_local_ip (nt_udp (ik_net ?a)), snd (8 :: ipv4addr, 50001 :: u16))) [1, 2, 3]), kb2)"
    using list_channel_laws demo_udp_ports demo_bound_run [of 7, unfolded demo_udp_def] demo_arp_query push pop mw
    by (intro udp_end_to_end [where EB = demo_env and EA = demo_env and msgs = snd and buf = fst and ports = "[50000, 50001]" and qd_b = 3
          and kb = ?b and remote = "(7, 50001)" and i = 0 and ka = ?a and qd_a = 3])
      (simp_all add: demo_udp_host_simps demo_bound_simps sq_new_def list_channel_def)
  then show ?thesis
    using pop push by (simp add: demo_udp_host_simps demo_bound_simps)
qed

theorem magic_datagrams_lost_witness:
  "\<exists>qt_a ka1 d bs r n'. pushto2 demo_env 3 (be32 MAGIC_NUMBER @ replicate 16 0) (7, 50001) (demo_udp_host 8) = Some (Ok qt_a, ka1)
    \<and> up_transmitted (nt_udp (ik_net ka1)) = up_transmitted (demo_bound 8) @ [d] \<and> ud_write_header d (replicate 42 0) = Some bs
    \<and> do_receive demo_env (bs @ ud_data d @ []) (ik_net (demo_udp_host 7)) = Some (r, n') \<and> nt_udp n' = demo_bound 7"
proof -
  let ?a = "demo_udp_host 8" and ?data = "be32 MAGIC_NUMBER @ replicate 16 0"
  have "?data \<noteq> []"
    by (simp add: be32_def)
  then obtain qt_a ka1 where push: "pushto2 demo_env 3 ?data (7, 50001) ?a = Some (Ok qt_a, ka1)"
    using demo_push by blast
  show ?thesis
    using magic_datagrams_lost [OF demo_udp_host_simps(4), of 8 "(8, 50001)" "(7, 50001)" DUMMY_MAC_ADDRESS ?data qt_a ka1 demo_env "[]" "ik_net (demo_udp_host 7)"]
      push demo_arp_query by (simp add: demo_udp_host_simps demo_bound_simps)
qed

end
