(* ===== verification/Pairing_Heap.thy ===== *)
theory Pairing_Heap
  imports Prelude
begin

text \<open>
  The intrusive pairing heap (\<^verbatim>\<open>collections/intrusive/pairing_heap.rs\<close>). Nodes live at addresses of a store and point to their parent,
  siblings and first child. The order of the data is that of a key, as the timer compares its entries by their expiry
  only. Loops over pointers may run forever in an arbitrary store (\<open>None\<close>).
\<close>

section \<open>Nodes\<close>

record 'a heap_node =
  hn_parent :: "nat option"
  hn_prev :: "nat option"
  hn_next :: "nat option"
  hn_first_child :: "nat option"
  hn_data :: 'a

type_synonym 'a nodes = "nat \<Rightarrow> 'a heap_node"

definition node_new :: "'a \<Rightarrow> 'a heap_node" where
  "node_new d = \<lparr>hn_parent = None, hn_prev = None, hn_next = None, hn_first_child = None, hn_data = d\<rparr>"

definition is_root :: "'a heap_node \<Rightarrow> bool" where
  "is_root n \<longleftrightarrow> hn_parent n = None"

definition at_node :: "nat \<Rightarrow> ('a heap_node \<Rightarrow> 'a heap_node) \<Rightarrow> 'a nodes \<Rightarrow> 'a nodes" where
  "at_node x f st = st(x := f (st x))"

definition safe_lesser :: "('a \<Rightarrow> 'k :: linorder) \<Rightarrow> 'a \<Rightarrow> 'a \<Rightarrow> bool" where
  "safe_lesser key a b \<longleftrightarrow> key a < key b"

definition add_child :: "nat \<Rightarrow> nat \<Rightarrow> 'a nodes \<Rightarrow> 'a nodes" where
  "add_child parent child st =
     (let old_first_child = hn_first_child (st parent);
          st = at_node parent (hn_first_child_update (\<lambda>_. None)) st;
          st = (case old_first_child of
                  None \<Rightarrow> st
                | Some c \<Rightarrow> at_node c (hn_prev_update (\<lambda>_. Some child)) (at_node child (hn_next_update (\<lambda>_. Some c)) st));
          st = at_node parent (hn_first_child_update (\<lambda>_. Some child)) st
      in at_node child (hn_parent_update (\<lambda>_. Some parent)) st)"

definition meld :: "('a \<Rightarrow> 'k :: linorder) \<Rightarrow> nat \<Rightarrow> nat \<Rightarrow> 'a nodes \<Rightarrow> nat \<times> 'a nodes" where
  "meld key left right st =
     (if safe_lesser key (hn_data (st left)) (hn_data (st right)) then (left, add_child left right st) else (right, add_child right left st))"

definition maybe_meld :: "('a \<Rightarrow> 'k :: linorder) \<Rightarrow> nat option \<Rightarrow> nat \<Rightarrow> 'a nodes \<Rightarrow> nat \<times> 'a nodes" where
  "maybe_meld key left right st = (case left of Some l \<Rightarrow> meld key l right st | None \<Rightarrow> (right, st))"

partial_function (option) last_child :: "nat \<Rightarrow> 'a nodes \<Rightarrow> nat option" where
  "last_child cur st = (case hn_next (st cur) of Some n \<Rightarrow> last_child n st | None \<Rightarrow> Some cur)"

definition unlink_prev :: "nat \<Rightarrow> 'a nodes \<Rightarrow> nat option \<times> 'a nodes" where
  "unlink_prev node st =
     (case hn_prev (st node) of
        None \<Rightarrow> (None, st)
      | Some prev \<Rightarrow> (Some prev, at_node prev (hn_next_update (\<lambda>_. None)) (at_node node (hn_prev_update (\<lambda>_. None)) st)))"

partial_function (option) merge_loop :: "('a \<Rightarrow> 'k :: linorder) \<Rightarrow> nat \<Rightarrow> nat option \<Rightarrow> 'a nodes \<Rightarrow> (nat \<times> 'a nodes) option" where
  "merge_loop key node current st =
     (case unlink_prev node (at_node node (hn_parent_update (\<lambda>_. None)) st) of
        (None, st) \<Rightarrow> Some (maybe_meld key current node st)
      | (Some prev, st) \<Rightarrow>
          (case unlink_prev prev (at_node prev (hn_parent_update (\<lambda>_. None)) st) of (prev_prev, st) \<Rightarrow>
           case meld key prev node st of (pair, st) \<Rightarrow>
           case maybe_meld key current pair st of (cur, st) \<Rightarrow>
             (case prev_prev of
                Some node \<Rightarrow> merge_loop key node (Some cur) st
              | None \<Rightarrow> Some (cur, st))))"

definition merge_children :: "('a \<Rightarrow> 'k :: linorder) \<Rightarrow> nat \<Rightarrow> 'a nodes \<Rightarrow> (nat \<times> 'a nodes) option" where
  "merge_children key first_child st = Option.bind (last_child first_child st) (\<lambda>node. merge_loop key node None st)"

section \<open>Heaps\<close>

record 'a pairing_heap =
  ph_root :: "nat option"
  ph_nodes :: "'a nodes"

definition heap_new :: "'a nodes \<Rightarrow> 'a pairing_heap" where
  "heap_new st = \<lparr>ph_root = None, ph_nodes = st\<rparr>"

definition heap_insert :: "('a \<Rightarrow> 'k :: linorder) \<Rightarrow> nat \<Rightarrow> 'a pairing_heap \<Rightarrow> 'a pairing_heap" where
  "heap_insert key node h =
     (case ph_root h of
        Some old \<Rightarrow> (case meld key old node (ph_nodes h) of (r, st) \<Rightarrow> \<lparr>ph_root = Some r, ph_nodes = st\<rparr>)
      | None \<Rightarrow> h\<lparr>ph_root := Some node\<rparr>)"

definition peek_min :: "'a pairing_heap \<Rightarrow> nat option" where
  "peek_min h = ph_root h"

text \<open>Unlinking a node from its parent and siblings, and giving its children back.\<close>

definition unlink_child :: "nat \<Rightarrow> nat \<Rightarrow> 'a nodes \<Rightarrow> 'a nodes" where
  "unlink_child node parent st =
     (let st = (case hn_prev (st node) of
                  Some prev \<Rightarrow> at_node prev (hn_next_update (\<lambda>_. hn_next (st node))) st
                | None \<Rightarrow> at_node parent (hn_first_child_update (\<lambda>_. hn_next (st node))) st);
          st = (case hn_next (st node) of
                  Some next \<Rightarrow> at_node next (hn_prev_update (\<lambda>_. hn_prev (st node))) st
                | None \<Rightarrow> st)
      in at_node node (\<lambda>n. n\<lparr>hn_next := None, hn_prev := None\<rparr>) st)"

definition heap_remove :: "('a \<Rightarrow> 'k :: linorder) \<Rightarrow> nat \<Rightarrow> 'a pairing_heap \<Rightarrow> 'a pairing_heap option" where
  "heap_remove key node h =
     (let parent = hn_parent (ph_nodes h node);
          st = at_node node (hn_parent_update (\<lambda>_. None)) (ph_nodes h);
          h = (case parent of
                 Some p \<Rightarrow> h\<lparr>ph_nodes := unlink_child node p st\<rparr>
               | None \<Rightarrow> \<lparr>ph_root = None, ph_nodes = st\<rparr>)
      in case hn_first_child (ph_nodes h node) of
           None \<Rightarrow> Some h
         | Some first_child \<Rightarrow>
             map_option (\<lambda>(children, st).
                 case parent of
                   Some p \<Rightarrow> h\<lparr>ph_nodes := add_child p children st\<rparr>
                 | None \<Rightarrow> \<lparr>ph_root = Some children, ph_nodes = st\<rparr>)
               (merge_children key first_child (at_node node (hn_first_child_update (\<lambda>_. None)) (ph_nodes h))))"

end
