(* ===== verification/Timer.thy ===== *)
theory Timer
  imports Pairing_Heap
begin

text \<open>
  Timers (\<^verbatim>\<open>runtime/timer.rs\<close>): a heap of waiting futures, ordered by expiry. A future contains its node of the heap, so it is known by
  the address of the node; \<open>tm_pending\<close> holds while it still has its reference to the timer. Wakers are the tasks they
  wake, and wake-ups are logged.
\<close>

datatype poll_state = Unregistered | Registered | Expired

record timer_entry =
  te_expiry :: instant
  te_task :: "nat option"
  te_state :: poll_state

record timer =
  tm_now :: instant
  tm_heap :: "timer_entry pairing_heap"
  tm_pending :: "nat \<Rightarrow> bool"
  tm_woken :: "nat list"

abbreviation timer_nodes :: "timer \<Rightarrow> timer_entry nodes" where
  "timer_nodes t \<equiv> ph_nodes (tm_heap t)"

abbreviation entry_at :: "timer \<Rightarrow> nat \<Rightarrow> timer_entry" where
  "entry_at t a \<equiv> hn_data (timer_nodes t a)"

definition set_entry_at :: "nat \<Rightarrow> (timer_entry \<Rightarrow> timer_entry) \<Rightarrow> timer \<Rightarrow> timer" where
  "set_entry_at a f t = t\<lparr>tm_heap := (tm_heap t)\<lparr>ph_nodes := at_node a (hn_data_update f) (timer_nodes t)\<rparr>\<rparr>"

text \<open>A new timer over given memory.\<close>

definition timer_new :: "instant \<Rightarrow> timer_entry nodes \<Rightarrow> timer" where
  "timer_new now st = \<lparr>tm_now = now, tm_heap = heap_new st, tm_pending = (\<lambda>_. False), tm_woken = []\<rparr>"

partial_function (option) expire :: "instant \<Rightarrow> timer \<Rightarrow> timer option" where
  "expire now t =
     (case peek_min (tm_heap t) of
        None \<Rightarrow> Some t
      | Some first \<Rightarrow>
          if now < te_expiry (entry_at t first) then Some t
          else let task = te_task (entry_at t first);
                   t = set_entry_at first (\<lambda>e. e\<lparr>te_state := Expired, te_task := None\<rparr>) t;
                   t = (case task of Some w \<Rightarrow> t\<lparr>tm_woken := tm_woken t @ [w]\<rparr> | None \<Rightarrow> t)
               in Option.bind (heap_remove te_expiry first (tm_heap t)) (\<lambda>h. expire now (t\<lparr>tm_heap := h\<rparr>)))"

text \<open>\<open>None\<close>: the clock must not go back.\<close>

definition timer_advance_clock :: "instant \<Rightarrow> timer \<Rightarrow> timer option" where
  "timer_advance_clock now t = (if tm_now t \<le> now then map_option (tm_now_update (\<lambda>_. now)) (expire now t) else None)"

text \<open>A new future, in memory at \<open>a\<close>.\<close>

definition wait_until :: "nat \<Rightarrow> instant \<Rightarrow> timer \<Rightarrow> timer" where
  "wait_until a expiry t =
     t\<lparr>tm_heap := (tm_heap t)\<lparr>ph_nodes := (timer_nodes t)(a := node_new \<lparr>te_expiry = expiry, te_task = None, te_state = Unregistered\<rparr>)\<rparr>,
       tm_pending := (tm_pending t)(a := True)\<rparr>"

definition timer_wait :: "nat \<Rightarrow> duration \<Rightarrow> timer \<Rightarrow> timer" where
  "timer_wait a timeout t = wait_until a (tm_now t + timeout) t"

text \<open>One poll of a future by a task: whether it is ready. A future that was ready must not be polled again.\<close>

definition wait_poll :: "nat \<Rightarrow> nat \<Rightarrow> timer \<Rightarrow> bool outcome \<times> timer" where
  "wait_poll a task t =
     (if \<not> tm_pending t a then (Panic, t)
      else let e = entry_at t a;
               done = (\<lambda>t. (Ok True, t\<lparr>tm_pending := (tm_pending t)(a := False)\<rparr>))
           in case te_state e of
                Unregistered \<Rightarrow>
                  if te_expiry e \<le> tm_now t then done (set_entry_at a (te_state_update (\<lambda>_. Expired)) t)
                  else let t = set_entry_at a (\<lambda>e. e\<lparr>te_task := Some task, te_state := Registered\<rparr>) t
                       in (Ok False, t\<lparr>tm_heap := heap_insert te_expiry a (tm_heap t)\<rparr>)
              | Registered \<Rightarrow>
                  (Ok False, if te_task e = Some task then t else set_entry_at a (te_task_update (\<lambda>_. Some task)) t)
              | Expired \<Rightarrow> done t)"

definition wait_drop :: "nat \<Rightarrow> timer \<Rightarrow> timer option" where
  "wait_drop a t =
     (if tm_pending t a \<and> te_state (entry_at t a) = Registered
      then map_option (\<lambda>h. set_entry_at a (te_state_update (\<lambda>_. Unregistered)) (t\<lparr>tm_heap := h\<rparr>)) (heap_remove te_expiry a (tm_heap t))
      else Some t)"

end
