(* ===== verification/Heap_Trees.thy ===== *)
theory Heap_Trees
  imports Pairing_Heap "HOL-Library.Multiset"
begin

text \<open>
  Correctness of the intrusive pairing heap: the nodes reachable from its root form a tree whose pointers agree and
  whose keys are in heap order; inserting, removing any member and reading the minimum work on the set of its nodes, always
  return, and touch no other memory.
\<close>

lemma node_new_data [simp]: "hn_data (node_new d) = d" "hn_data_update f (node_new d) = node_new (f d)"
  by (simp_all add: node_new_def)

section \<open>Trees\<close>

datatype ptree = PNode (troot: nat) (tkids: "ptree list")

fun addrs :: "ptree \<Rightarrow> nat list" where
  "addrs (PNode x ts) = x # concat (map addrs ts)"

abbreviation faddrs :: "ptree list \<Rightarrow> nat list" where
  "faddrs ts \<equiv> concat (map addrs ts)"

definition first :: "ptree list \<Rightarrow> nat option \<Rightarrow> nat option" where
  "first ts nxt = (case ts of [] \<Rightarrow> nxt | t # _ \<Rightarrow> Some (troot t))"

lemma first_simps [simp]: "first [] nxt = nxt" "first (t # ts) nxt = Some (troot t)"
  by (simp_all add: first_def)

lemma first_append: "first (ts @ us) nxt = first ts (first us nxt)"
  by (cases ts) simp_all

definition final :: "ptree list \<Rightarrow> nat option \<Rightarrow> nat option" where
  "final ts prev = (if ts = [] then prev else Some (troot (last ts)))"

lemma final_simps [simp]: "final [] prev = prev" "final (t # ts) prev = final ts (Some (troot t))" "final (ts @ [t]) prev = Some (troot t)"
  by (simp_all add: final_def)

text \<open>A list of siblings with all that is below them, between given neighbours.\<close>

fun forest :: "'a nodes \<Rightarrow> nat option \<Rightarrow> nat option \<Rightarrow> ptree list \<Rightarrow> nat option \<Rightarrow> bool" where
  "forest st par prev [] nxt \<longleftrightarrow> True"
| "forest st par prev (PNode x cs # ts) nxt \<longleftrightarrow>
     hn_parent (st x) = par \<and> hn_prev (st x) = prev \<and> hn_next (st x) = first ts nxt \<and> hn_first_child (st x) = first cs None
     \<and> forest st (Some x) None cs None \<and> forest st par (Some x) ts nxt"

lemma root_in_addrs [simp]: "troot t \<in> set (addrs t)"
  by (cases t) simp

lemma addrs_not_Nil [simp]: "addrs t \<noteq> []"
  by (cases t) simp

lemma forest_cong: "(\<And>x. x \<in> set (faddrs ts) \<Longrightarrow> st' x = st x) \<Longrightarrow> forest st' par prev ts nxt = forest st par prev ts nxt"
  by (induction st par prev ts nxt rule: forest.induct) simp_all

lemma forest_append: "forest st par prev (ts @ us) nxt \<longleftrightarrow> forest st par prev ts (first us nxt) \<and> forest st par (final ts prev) us nxt"
  by (induction st par prev ts nxt rule: forest.induct) (auto simp: first_append)


text \<open>A store that differs from another one at given addresses only, and nowhere in its data.\<close>

definition same_but :: "nat set \<Rightarrow> 'a nodes \<Rightarrow> 'a nodes \<Rightarrow> bool" where
  "same_but A st st' \<longleftrightarrow> (\<forall>y. hn_data (st' y) = hn_data (st y)) \<and> (\<forall>y. y \<notin> A \<longrightarrow> st' y = st y)"

lemma same_butD: "same_but A st st' \<Longrightarrow> y \<notin> A \<Longrightarrow> st' y = st y" "same_but A st st' \<Longrightarrow> hn_data (st' y) = hn_data (st y)"
  by (simp_all add: same_but_def)

lemma same_but_trans: "same_but A st st1 \<Longrightarrow> same_but B st1 st2 \<Longrightarrow> A \<subseteq> C \<Longrightarrow> B \<subseteq> C \<Longrightarrow> same_but C st st2"
  unfolding same_but_def by (metis subsetD)

lemma same_but_mono: "same_but A st st' \<Longrightarrow> A \<subseteq> B \<Longrightarrow> same_but B st st'"
  unfolding same_but_def by blast

lemma forest_frame:
  assumes "same_but A st st'" "forest st par prev ts nxt" "A \<inter> set (faddrs ts) = {}"
  shows "forest st' par prev ts nxt"
proof -
  have "st' x = st x" if "x \<in> set (faddrs ts)" for x
    using same_butD(1) [OF assms(1), of x] assms(3) that by blast
  then show ?thesis
    using assms(2) forest_cong by blast
qed

section \<open>Melding\<close>

lemma at_node_simps [simp]: "at_node x f st x = f (st x)" "y \<noteq> x \<Longrightarrow> at_node x f st y = st y"
  by (simp_all add: at_node_def)

lemma at_node_same: "(\<And>n. hn_data (f n) = hn_data n) \<Longrightarrow> same_but {x} st (at_node x f st)"
  by (simp add: same_but_def at_node_def)

lemma add_child_ok:
  assumes "forest st (Some p) None cs None" "hn_first_child (st p) = first cs None" "forest st None None [c] None"
    and "distinct (p # addrs c @ faddrs cs)"
  shows "forest (add_child p (troot c) st) (Some p) None (c # cs) None"
    and "add_child p (troot c) st p = (st p)\<lparr>hn_first_child := Some (troot c)\<rparr>"
    and "same_but (set (p # addrs c @ faddrs cs)) st (add_child p (troot c) st)"
proof -
  obtain x xs where c: "c = PNode x xs"
    by (cases c)
  have "forest (add_child p x st) (Some p) None (PNode x xs # cs) None \<and> add_child p x st p = (st p)\<lparr>hn_first_child := Some x\<rparr>
    \<and> same_but (set (p # addrs c @ faddrs cs)) st (add_child p x st)"
  proof (cases cs)
    case Nil
    let ?st = "add_child p x st"
    have st: "?st = at_node x (hn_parent_update (\<lambda>_. Some p)) (at_node p (hn_first_child_update (\<lambda>_. Some x)) (at_node p (hn_first_child_update (\<lambda>_. None)) st))"
      using assms(2) Nil by (simp add: add_child_def)
    have "?st y = st y" if "y \<in> set (faddrs xs)" for y
      using that assms(4) unfolding st by (auto simp: at_node_def c)
    then have "forest ?st (Some x) None xs None"
      using assms(3) forest_cong [of xs ?st st] by (simp add: c)
    then show ?thesis
      using assms Nil unfolding st by (auto simp: c at_node_def same_but_def)
  next
    case (Cons d ds)
    obtain y ys where d: "d = PNode y ys"
      by (cases d)
    let ?st = "add_child p x st"
    have st: "?st = at_node x (hn_parent_update (\<lambda>_. Some p)) (at_node p (hn_first_child_update (\<lambda>_. Some x))
        (at_node y (hn_prev_update (\<lambda>_. Some x)) (at_node x (hn_next_update (\<lambda>_. Some y)) (at_node p (hn_first_child_update (\<lambda>_. None)) st))))"
      using assms(2) Cons d by (simp add: add_child_def)
    have "?st z = st z" if "z \<in> set (faddrs xs @ faddrs ys @ faddrs ds)" for z
      using that assms(4) unfolding st by (auto simp: at_node_def c Cons d)
    then have "forest ?st (Some x) None xs None" "forest ?st (Some y) None ys None" "forest ?st (Some p) (Some y) ds None"
      using assms(1,3) forest_cong [of xs ?st st] forest_cong [of ys ?st st] forest_cong [of ds ?st st] by (simp_all add: c Cons d)
    then show ?thesis
      using assms Cons d unfolding st by (auto simp: c at_node_def same_but_def)
  qed
  then show "forest (add_child p (troot c) st) (Some p) None (c # cs) None"
    "add_child p (troot c) st p = (st p)\<lparr>hn_first_child := Some (troot c)\<rparr>"
    "same_but (set (p # addrs c @ faddrs cs)) st (add_child p (troot c) st)"
    by (simp_all add: c)
qed

text \<open>The heap order: a node is at most all that is below it.\<close>

fun ordered :: "(nat \<Rightarrow> 'k :: linorder) \<Rightarrow> ptree \<Rightarrow> bool" where
  "ordered k (PNode x ts) \<longleftrightarrow> (\<forall>y\<in>set (faddrs ts). k x \<le> k y) \<and> (\<forall>t\<in>set ts. ordered k t)"

definition node_key :: "('a \<Rightarrow> 'k) \<Rightarrow> 'a nodes \<Rightarrow> nat \<Rightarrow> 'k" where
  "node_key key st x = key (hn_data (st x))"

lemma node_key_same: "same_but A st st' \<Longrightarrow> node_key key st' = node_key key st"
  by (simp add: node_key_def same_but_def fun_eq_iff)

lemma ordered_root: "ordered k t \<Longrightarrow> y \<in> set (addrs t) \<Longrightarrow> k (troot t) \<le> k y"
  by (cases t) auto

text \<open>\<open>merges k ts t\<close>: the tree has the nodes of the forest and is ordered if the forest is.\<close>

definition merges :: "(nat \<Rightarrow> 'k :: linorder) \<Rightarrow> ptree list \<Rightarrow> ptree \<Rightarrow> bool" where
  "merges k ts t \<longleftrightarrow> mset (addrs t) = mset (faddrs ts) \<and> ((\<forall>u\<in>set ts. ordered k u) \<longrightarrow> ordered k t)"

lemma merges_set: "merges k ts t \<Longrightarrow> set (addrs t) = set (faddrs ts)" "merges k ts t \<Longrightarrow> distinct (addrs t) = distinct (faddrs ts)"
  unfolding merges_def by (metis mset_eq_setD, metis mset_eq_imp_distinct_iff)

lemma meld_ok:
  assumes "forest st None None [l] None" "forest st None None [r] None" "distinct (addrs l @ addrs r)"
  shows "\<exists>t st'. meld key (troot l) (troot r) st = (troot t, st') \<and> forest st' None None [t] None \<and> merges (node_key key st) [l, r] t
    \<and> same_but (set (addrs l @ addrs r)) st st'"
proof -
  have grow: "forest (add_child (troot a) (troot b) st) None None [PNode (troot a) (b # tkids a)] None"
      "merges (node_key key st) [a, b] (PNode (troot a) (b # tkids a))" "same_but (set (addrs a @ addrs b)) st (add_child (troot a) (troot b) st)"
    if "forest st None None [a] None" "forest st None None [b] None" "distinct (addrs a @ addrs b)"
      "node_key key st (troot a) \<le> node_key key st (troot b)" for a b
  proof -
    obtain x xs where a: "a = PNode x xs"
      by (cases a)
    have "forest st (Some x) None xs None" "hn_first_child (st x) = first xs None" "distinct (x # addrs b @ faddrs xs)"
      using that(1,3) a by auto
    note g = add_child_ok [OF this(1,2) that(2) this(3)]
    show "forest (add_child (troot a) (troot b) st) None None [PNode (troot a) (b # tkids a)] None"
      using g(1,2) that(1) a by simp
    have "node_key key st x \<le> node_key key st y" if "ordered (node_key key st) b" "y \<in> set (addrs b)" for y
      using ordered_root [OF that] \<open>node_key key st (troot a) \<le> node_key key st (troot b)\<close> a by simp
    then show "merges (node_key key st) [a, b] (PNode (troot a) (b # tkids a))"
      using a by (auto simp: merges_def)
    show "same_but (set (addrs a @ addrs b)) st (add_child (troot a) (troot b) st)"
      using g(3) a by (auto intro: same_but_mono)
  qed
  show ?thesis
  proof (cases "node_key key st (troot l) < node_key key st (troot r)")
    case True
    then show ?thesis
      using grow [OF assms] by (intro exI [of _ "PNode (troot l) (r # tkids l)"] exI) (auto simp: meld_def safe_lesser_def node_key_def)
  next
    case False
    have "merges (node_key key st) [l, r] t" if "merges (node_key key st) [r, l] t" for t
      using that by (auto simp: merges_def ac_simps)
    then show ?thesis
      using grow [of r l] False assms
      by (intro exI [of _ "PNode (troot r) (l # tkids r)"] exI) (auto simp: meld_def safe_lesser_def node_key_def ac_simps)
  qed
qed


lemma maybe_meld_ok:
  assumes "\<And>c. cur = Some c \<Longrightarrow> forest st None None [c] None" "forest st None None [r] None" "distinct (faddrs (case cur of None \<Rightarrow> [] | Some c \<Rightarrow> [c]) @ addrs r)"
  shows "\<exists>t st'. maybe_meld key (map_option troot cur) (troot r) st = (troot t, st') \<and> forest st' None None [t] None
    \<and> merges (node_key key st) ((case cur of None \<Rightarrow> [] | Some c \<Rightarrow> [c]) @ [r]) t
    \<and> same_but (set (faddrs ((case cur of None \<Rightarrow> [] | Some c \<Rightarrow> [c]) @ [r]))) st st'"
proof (cases cur)
  case None
  have "maybe_meld key (map_option troot cur) (troot r) st = (troot r, st)"
    using None by (simp add: maybe_meld_def)
  then show ?thesis
    using assms(2) None by (intro exI [of _ r] exI [of _ st]) (simp add: merges_def same_but_def)
next
  case (Some c)
  then show ?thesis
    using meld_ok [OF assms(1) [OF Some] assms(2), of key] assms(3) by (auto simp: maybe_meld_def)
qed

section \<open>Merging children\<close>

text \<open>Taking the last of a list of siblings out.\<close>

lemma take_last:
  assumes "forest st par None (ts @ [t]) None" "distinct (faddrs (ts @ [t]))"
  shows "\<exists>st'. unlink_prev (troot t) (at_node (troot t) (hn_parent_update (\<lambda>_. None)) st) = (final ts None, st')
    \<and> forest st' None None [t] None \<and> forest st' par None ts None \<and> same_but (set (faddrs (ts @ [t]))) st st'"
proof -
  obtain x xs where t: "t = PNode x xs"
    by (cases t)
  let ?st1 = "at_node x (hn_parent_update (\<lambda>_. None)) st"
  have f: "forest st par None ts (Some x)" "hn_prev (st x) = final ts None" "hn_next (st x) = None" "hn_first_child (st x) = first xs None"
    "forest st (Some x) None xs None"
    using assms(1) by (simp_all add: forest_append t)
  show ?thesis
  proof (cases ts rule: rev_cases)
    case Nil
    have "forest ?st1 (Some x) None xs None"
      using f(5) assms(2) forest_cong [of xs ?st1 st] by (force simp: t at_node_def)
    then show ?thesis
      using f Nil by (intro exI [of _ ?st1]) (simp add: unlink_prev_def t same_but_def at_node_def)
  next
    case (snoc us u)
    obtain y ys where u: "u = PNode y ys"
      by (cases u)
    let ?st = "at_node y (hn_next_update (\<lambda>_. None)) (at_node x (hn_prev_update (\<lambda>_. None)) ?st1)"
    have ne: "x \<noteq> y" "x \<notin> set (faddrs xs @ faddrs ys @ faddrs us)" "y \<notin> set (faddrs xs @ faddrs ys @ faddrs us)"
      using assms(2) by (auto simp: t snoc u)
    have "?st z = st z" if "z \<in> set (faddrs xs @ faddrs ys @ faddrs us)" for z
      using that ne by (auto simp: at_node_def)
    then have "forest ?st (Some x) None xs None" "forest ?st (Some y) None ys None" "forest ?st par None us (Some y)"
      using f forest_cong [of xs ?st st] forest_cong [of ys ?st st] forest_cong [of us ?st st] by (simp_all add: forest_append snoc u)
    then show ?thesis
      using f ne by (intro exI [of _ ?st]) (auto simp: unlink_prev_def t snoc u forest_append same_but_def at_node_def)
  qed
qed

lemma last_child_ok: "forest st par prev (t # ts) None \<Longrightarrow> last_child (troot t) st = Some (troot (last (t # ts)))"
proof (induction ts arbitrary: t prev)
  case Nil
  then show ?case
    by (cases t) (simp add: last_child.simps)
next
  case (Cons u ts)
  obtain x xs where t: "t = PNode x xs"
    by (cases t)
  then have "last_child x st = last_child (troot u) st"
    using Cons.prems by (subst last_child.simps) simp
  moreover have "forest st par (Some x) (u # ts) None"
    using Cons.prems t by simp
  ultimately show ?case
    using Cons.IH t by simp
qed

text \<open>The loop goes through the children from the last to the first, two at a time.\<close>

lemma merge_loop_ok:
  assumes "ts \<noteq> []" "forest st par None (rev ts) None" "\<And>c. cur = Some c \<Longrightarrow> forest st None None [c] None"
    and "distinct (faddrs ((case cur of None \<Rightarrow> [] | Some c \<Rightarrow> [c]) @ rev ts))"
  shows "\<exists>t st'. merge_loop key (troot (hd ts)) (map_option troot cur) st = Some (troot t, st') \<and> forest st' None None [t] None
    \<and> merges (node_key key st) ((case cur of None \<Rightarrow> [] | Some c \<Rightarrow> [c]) @ rev ts) t
    \<and> same_but (set (faddrs ((case cur of None \<Rightarrow> [] | Some c \<Rightarrow> [c]) @ rev ts))) st st'"
  using assms
proof (induction "length ts" arbitrary: ts cur st rule: less_induct)
  case less
  let ?c = "case cur of None \<Rightarrow> [] | Some c \<Rightarrow> [c]"
  obtain n us where ts: "ts = n # us"
    using less.prems(1) by (cases ts) auto
  obtain st1 where st1: "unlink_prev (troot n) (at_node (troot n) (hn_parent_update (\<lambda>_. None)) st) = (final (rev us) None, st1)"
    "forest st1 None None [n] None" "forest st1 par None (rev us) None" "same_but (set (faddrs (rev us @ [n]))) st st1"
    using take_last [of st par "rev us" n] less.prems(2,4) ts by auto
  have cur1: "forest st1 None None [c] None" if "cur = Some c" for c
    by (rule forest_frame [OF st1(4) less.prems(3) [OF that]]) (use less.prems(4) that ts in auto)
  show ?case
  proof (cases us)
    case Nil
    have d: "distinct (faddrs ?c @ addrs n)"
      using less.prems(4) ts Nil by simp
    obtain t st' where "maybe_meld key (map_option troot cur) (troot n) st1 = (troot t, st')" "forest st' None None [t] None"
      "merges (node_key key st1) (?c @ [n]) t" "same_but (set (faddrs (?c @ [n]))) st1 st'"
      using maybe_meld_ok [OF cur1 st1(2) d, of key] by blast
    moreover have "merge_loop key (troot n) (map_option troot cur) st = Some (maybe_meld key (map_option troot cur) (troot n) st1)"
      using st1(1) Nil by (subst merge_loop.simps) simp
    ultimately show ?thesis
      using ts Nil node_key_same [OF st1(4), of key] same_but_trans [OF st1(4), of "set (faddrs (?c @ [n]))" st' "set (faddrs (?c @ [n]))"] by auto
  next
    case (Cons p vs)
    obtain st2 where st2: "unlink_prev (troot p) (at_node (troot p) (hn_parent_update (\<lambda>_. None)) st1) = (final (rev vs) None, st2)"
      "forest st2 None None [p] None" "forest st2 par None (rev vs) None" "same_but (set (faddrs (rev vs @ [p]))) st1 st2"
      using take_last [of st1 par "rev vs" p] st1(3) less.prems(4) ts Cons by auto
    have n2: "forest st2 None None [n] None"
      by (rule forest_frame [OF st2(4) st1(2)]) (use less.prems(4) ts Cons in auto)
    obtain q st3 where q: "meld key (troot p) (troot n) st2 = (troot q, st3)" "forest st3 None None [q] None"
      "merges (node_key key st2) [p, n] q" "same_but (set (addrs p @ addrs n)) st2 st3"
      using meld_ok [OF st2(2) n2, of key] less.prems(4) ts Cons by auto
    note qs = merges_set [OF q(3)]
    have d3: "distinct (faddrs ?c @ addrs q)" "set (addrs q) \<inter> set (faddrs (rev vs)) = {}"
      using less.prems(4) ts Cons qs by auto
    have cur3: "forest st3 None None [c] None" if "cur = Some c" for c
    proof -
      have "forest st2 None None [c] None"
        by (rule forest_frame [OF st2(4) cur1 [OF that]]) (use less.prems(4) that ts Cons in auto)
      then show ?thesis
        by (rule forest_frame [OF q(4)]) (use less.prems(4) that ts Cons in auto)
    qed
    obtain r st4 where r: "maybe_meld key (map_option troot cur) (troot q) st3 = (troot r, st4)" "forest st4 None None [r] None"
      "merges (node_key key st3) (?c @ [q]) r" "same_but (set (faddrs (?c @ [q]))) st3 st4"
      using maybe_meld_ok [OF cur3 q(2) d3(1), of key] by blast
    note rs = merges_set [OF r(3)]
    have keys: "node_key key st3 = node_key key st" "node_key key st2 = node_key key st" "node_key key st4 = node_key key st"
      using node_key_same [OF st1(4), of key] node_key_same [OF st2(4), of key] node_key_same [OF q(4), of key] node_key_same [OF r(4), of key] by simp_all
    let ?A = "set (faddrs (?c @ rev ts))"
    have "same_but ?A st st2"
      by (rule same_but_trans [OF st1(4) st2(4)]) (auto simp: ts Cons)
    then have "same_but ?A st st3"
      by (rule same_but_trans [OF _ q(4)]) (auto simp: ts Cons)
    then have sb4: "same_but ?A st st4"
      by (rule same_but_trans [OF _ r(4)]) (use qs(1) in \<open>auto simp: ts Cons\<close>)
    have m4: "merges (node_key key st) (?c @ [p, n]) r"
      using q(3) r(3) unfolding keys by (auto simp: merges_def)
    have step: "merge_loop key (troot n) (map_option troot cur) st
      = (case final (rev vs) None of Some node \<Rightarrow> merge_loop key node (Some (troot r)) st4 | None \<Rightarrow> Some (troot r, st4))"
      using st1(1) st2(1) q(1) r(1) Cons by (subst merge_loop.simps) simp
    show ?thesis
    proof (cases vs)
      case Nil
      then have "merge_loop key (troot n) (map_option troot cur) st = Some (troot r, st4)"
        using step by simp
      then show ?thesis
        using r(2) sb4 m4 ts Cons Nil by auto
    next
      case (Cons w ws)
      have vs4: "forest st4 par None (rev vs) None"
      proof (rule forest_frame [OF r(4)])
        show "forest st3 par None (rev vs) None"
          by (rule forest_frame [OF q(4) st2(3)]) (use less.prems(4) ts \<open>us = p # vs\<close> in auto)
      qed (use d3(2) less.prems(4) ts \<open>us = p # vs\<close> in auto)
      have "distinct (faddrs ([r] @ rev vs))"
        using less.prems(4) ts \<open>us = p # vs\<close> rs qs by auto
      then obtain t st' where t: "merge_loop key (troot (hd vs)) (Some (troot r)) st4 = Some (troot t, st')" "forest st' None None [t] None"
        "merges (node_key key st4) (r # rev vs) t" "same_but (set (faddrs (r # rev vs))) st4 st'"
        using less.hyps [of vs st4 "Some r"] vs4 r(2) ts \<open>us = p # vs\<close> Cons by auto
      have "merges (node_key key st) (?c @ rev ts) t"
        using t(3) m4 unfolding keys by (auto simp: merges_def ts \<open>us = p # vs\<close>)
      moreover have "same_but ?A st st'"
        by (rule same_but_trans [OF sb4 t(4)]) (use qs(1) rs(1) in \<open>auto simp: ts \<open>us = p # vs\<close>\<close>)
      moreover have "merge_loop key (troot n) (map_option troot cur) st = Some (troot t, st')"
        using step t(1) Cons by (simp add: final_def)
      ultimately show ?thesis
        using t(2) ts by auto
    qed
  qed
qed

lemma merge_children_ok:
  assumes "cs \<noteq> []" "forest st par None cs None" "distinct (faddrs cs)"
  shows "\<exists>t st'. merge_children key (troot (hd cs)) st = Some (troot t, st') \<and> forest st' None None [t] None
    \<and> merges (node_key key st) cs t \<and> same_but (set (faddrs cs)) st st'"
proof -
  have "last_child (troot (hd cs)) st = Some (troot (hd (rev cs)))"
    using last_child_ok [of st par None "hd cs" "tl cs"] assms(1,2) by (simp add: hd_rev)
  then show ?thesis
    using merge_loop_ok [of "rev cs" st par None key] assms by (simp add: merge_children_def)
qed


section \<open>Removing a node\<close>

lemma unlink_child_ok:
  assumes "forest st (Some p) None (as @ PNode x cs # bs) None" "hn_first_child (st p) = first (as @ PNode x cs # bs) None"
    and "distinct (p # faddrs (as @ PNode x cs # bs))" "st' = unlink_child x p (at_node x (hn_parent_update (\<lambda>_. None)) st)"
  shows "forest st' (Some p) None (as @ bs) None" "st' p = (st p)\<lparr>hn_first_child := first (as @ bs) None\<rparr>"
    and "st' x = (node_new (hn_data (st x)))\<lparr>hn_first_child := first cs None\<rparr>" "forest st' (Some x) None cs None"
    and "same_but (set (p # faddrs (as @ PNode x cs # bs))) st st'"
proof -
  have f: "forest st (Some p) None as (Some x)" "hn_prev (st x) = final as None" "hn_next (st x) = first bs None" "hn_first_child (st x) = first cs None"
    "forest st (Some x) None cs None" "forest st (Some p) (Some x) bs None"
    using assms(1) by (simp_all add: forest_append)
  have px: "p \<noteq> x" "x \<notin> set (faddrs (as @ cs @ bs))" "p \<notin> set (faddrs (as @ cs @ bs))"
    using assms(3) by auto
  have fwd: "\<exists>a' us y ys. as = us @ [PNode y ys]" if "as \<noteq> []"
    using that by (metis append_butlast_last_id ptree.exhaust)
  consider (none) "as = []" "bs = []" | (right) z zs vs where "as = []" "bs = PNode z zs # vs"
    | (left) us y ys where "as = us @ [PNode y ys]" "bs = []" | (both) us y ys z zs vs where "as = us @ [PNode y ys]" "bs = PNode z zs # vs"
    using fwd by (metis neq_Nil_conv ptree.exhaust)
  then have "forest st' (Some p) None (as @ bs) None \<and> st' p = (st p)\<lparr>hn_first_child := first (as @ bs) None\<rparr>
    \<and> st' x = (node_new (hn_data (st x)))\<lparr>hn_first_child := first cs None\<rparr> \<and> forest st' (Some x) None cs None
    \<and> same_but (set (p # faddrs (as @ PNode x cs # bs))) st st'"
  proof cases
    case none
    have st': "st' = at_node x (\<lambda>n. n\<lparr>hn_next := None, hn_prev := None\<rparr>) (at_node p (hn_first_child_update (\<lambda>_. None)) (at_node x (hn_parent_update (\<lambda>_. None)) st))"
      using f(2,3) px(1) none by (simp add: assms(4) unlink_child_def)
    have "st' z = st z" if "z \<in> set (faddrs cs)" for z
      using that px unfolding st' by (auto simp: at_node_def)
    then show ?thesis
      using f px none forest_cong [of cs st' st] unfolding st' by (auto simp: at_node_def node_new_def same_but_def)
  next
    case right
    have st': "st' = at_node x (\<lambda>n. n\<lparr>hn_next := None, hn_prev := None\<rparr>) (at_node z (hn_prev_update (\<lambda>_. None))
        (at_node p (hn_first_child_update (\<lambda>_. Some z)) (at_node x (hn_parent_update (\<lambda>_. None)) st)))"
      using f(2,3) px right by (auto simp: assms(4) unlink_child_def)
    have z: "z \<noteq> x" "z \<noteq> p" "z \<notin> set (faddrs (cs @ zs @ vs))"
      using assms(3) right by auto
    have same: "st' w = st w" if "w \<in> set (faddrs (cs @ zs @ vs))" for w
      using that px z right unfolding st' by (auto simp: at_node_def)
    then have "forest st' (Some x) None cs None" "forest st' (Some z) None zs None" "forest st' (Some p) (Some z) vs None"
      using f forest_cong [of cs st' st] forest_cong [of zs st' st] forest_cong [of vs st' st] right by auto
    then show ?thesis
      using f px z right unfolding st' by (auto simp: at_node_def node_new_def same_but_def)
  next
    case left
    have st': "st' = at_node x (\<lambda>n. n\<lparr>hn_next := None, hn_prev := None\<rparr>) (at_node y (hn_next_update (\<lambda>_. None)) (at_node x (hn_parent_update (\<lambda>_. None)) st))"
      using f(2,3) px left by (auto simp: assms(4) unlink_child_def)
    have y: "y \<noteq> x" "y \<noteq> p" "y \<notin> set (faddrs (cs @ ys @ us))"
      using assms(3) left by auto
    have same: "st' w = st w" if "w \<in> set (faddrs (cs @ ys @ us))" for w
      using that px y left unfolding st' by (auto simp: at_node_def)
    then have "forest st' (Some x) None cs None" "forest st' (Some y) None ys None" "forest st' (Some p) None us (Some y)"
      using f forest_cong [of cs st' st] forest_cong [of ys st' st] forest_cong [of us st' st] left by (auto simp: forest_append)
    moreover have "st' p = st p" "hn_first_child (st p) = first (as @ bs) None"
      using px y assms(2) left unfolding st' by (auto simp: at_node_def first_append)
    then have "st' p = (st p)\<lparr>hn_first_child := first (as @ bs) None\<rparr>"
      by simp
    ultimately show ?thesis
      using f px y left unfolding st' by (auto simp: at_node_def node_new_def same_but_def forest_append)
  next
    case both
    have st': "st' = at_node x (\<lambda>n. n\<lparr>hn_next := None, hn_prev := None\<rparr>) (at_node z (hn_prev_update (\<lambda>_. Some y))
        (at_node y (hn_next_update (\<lambda>_. Some z)) (at_node x (hn_parent_update (\<lambda>_. None)) st)))"
      using f(2,3) px both by (auto simp: assms(4) unlink_child_def)
    have yz: "y \<noteq> x" "y \<noteq> p" "y \<notin> set (faddrs (cs @ ys @ us @ zs @ vs))" "z \<noteq> x" "z \<noteq> p" "z \<noteq> y" "z \<notin> set (faddrs (cs @ ys @ us @ zs @ vs))"
      using assms(3) both by auto
    have same: "st' w = st w" if "w \<in> set (faddrs (cs @ ys @ us @ zs @ vs))" for w
      using that px yz both unfolding st' by (auto simp: at_node_def)
    then have "forest st' (Some x) None cs None" "forest st' (Some y) None ys None" "forest st' (Some p) None us (Some y)"
      "forest st' (Some z) None zs None" "forest st' (Some p) (Some z) vs None"
      using f forest_cong [of cs st' st] forest_cong [of ys st' st] forest_cong [of us st' st] forest_cong [of zs st' st] forest_cong [of vs st' st] both
      by (auto simp: forest_append)
    moreover have "st' p = st p" "hn_first_child (st p) = first (as @ bs) None"
      using px yz assms(2) both unfolding st' by (auto simp: at_node_def first_append)
    then have "st' p = (st p)\<lparr>hn_first_child := first (as @ bs) None\<rparr>"
      by simp
    ultimately show ?thesis
      using f px yz both unfolding st' by (auto simp: at_node_def node_new_def same_but_def forest_append)
  qed
  then show "forest st' (Some p) None (as @ bs) None" "st' p = (st p)\<lparr>hn_first_child := first (as @ bs) None\<rparr>"
    "st' x = (node_new (hn_data (st x)))\<lparr>hn_first_child := first cs None\<rparr>" "forest st' (Some x) None cs None"
    "same_but (set (p # faddrs (as @ PNode x cs # bs))) st st'"
    by simp_all
qed


text \<open>\<open>without k ts x ts'\<close>: a forest that has lost one node.\<close>

definition without :: "(nat \<Rightarrow> 'k :: linorder) \<Rightarrow> ptree list \<Rightarrow> nat \<Rightarrow> ptree list \<Rightarrow> bool" where
  "without k ts x ts' \<longleftrightarrow> mset (faddrs ts) = add_mset x (mset (faddrs ts')) \<and> ((\<forall>t\<in>set ts. ordered k t) \<longrightarrow> (\<forall>t\<in>set ts'. ordered k t))"

lemma without_set: "without k ts x ts' \<Longrightarrow> set (faddrs ts) = insert x (set (faddrs ts'))"
  unfolding without_def by (metis set_mset_add_mset_insert set_mset_mset)

lemma without_distinct: "without k ts x ts' \<Longrightarrow> distinct (faddrs ts) \<Longrightarrow> distinct (faddrs ts') \<and> x \<notin> set (faddrs ts')"
  unfolding without_def using mset_eq_imp_distinct_iff [of "faddrs ts" "x # faddrs ts'"] by simp

lemma remove_child_ok:
  assumes "forest (ph_nodes h) (Some p) None ts None" "hn_first_child (ph_nodes h p) = first ts None" "distinct (p # faddrs ts)"
    and "x \<in> troot ` set ts"
  shows "\<exists>ts' st'. heap_remove key x h = Some (h\<lparr>ph_nodes := st'\<rparr>) \<and> forest st' (Some p) None ts' None
    \<and> st' p = (ph_nodes h p)\<lparr>hn_first_child := first ts' None\<rparr> \<and> without (node_key key (ph_nodes h)) ts x ts'
    \<and> st' x = node_new (hn_data (ph_nodes h x)) \<and> same_but (set (p # faddrs ts)) (ph_nodes h) st'"
proof -
  let ?st = "ph_nodes h"
  obtain as cs bs where ts: "ts = as @ PNode x cs # bs"
    using assms(4) by (metis (no_types, lifting) imageE in_set_conv_decomp ptree.collapse)
  define st1 where "st1 = unlink_child x p (at_node x (hn_parent_update (\<lambda>_. None)) ?st)"
  note u = unlink_child_ok [OF assms(1-3) [unfolded ts] st1_def]
  have par: "hn_parent (?st x) = Some p"
    using assms(1) by (simp add: ts forest_append)
  have px: "p \<noteq> x" "x \<notin> set (faddrs (as @ cs @ bs))" "p \<notin> set (faddrs (as @ cs @ bs))"
    using assms(3) ts by auto
  show ?thesis
  proof (cases cs)
    case Nil
    have "heap_remove key x h = Some (h\<lparr>ph_nodes := st1\<rparr>)"
      using par u(3) Nil by (simp add: heap_remove_def Let_def st1_def)
    moreover have "without (node_key key ?st) ts x (as @ bs)"
      using ts Nil by (auto simp: without_def)
    ultimately show ?thesis
      using u Nil ts by (intro exI [of _ "as @ bs"] exI [of _ st1]) (simp add: node_new_def)
  next
    case (Cons c ds)
    let ?st2 = "at_node x (hn_first_child_update (\<lambda>_. None)) st1"
    have sb: "same_but {x} st1 ?st2"
      by (rule at_node_same) simp
    have f2: "forest ?st2 (Some x) None cs None" "forest ?st2 (Some p) None (as @ bs) None"
      by (rule forest_frame [OF sb u(4)] forest_frame [OF sb u(1)]; use px(2) in auto)+
    have dc: "distinct (faddrs cs)"
      using assms(3) ts by simp
    obtain t st3 where t: "merge_children key (troot c) ?st2 = Some (troot t, st3)" "forest st3 None None [t] None"
      "merges (node_key key ?st2) cs t" "same_but (set (faddrs cs)) ?st2 st3"
      using merge_children_ok [OF _ f2(1) dc, of key] Cons by auto
    note ms = merges_set [OF t(3)]
    have f3: "forest st3 (Some p) None (as @ bs) None"
      by (rule forest_frame [OF t(4) f2(2)]) (use assms(3) ts in auto)
    have p3: "st3 p = (?st p)\<lparr>hn_first_child := first (as @ bs) None\<rparr>" "st3 x = node_new (hn_data (?st x))"
      using same_butD(1) [OF t(4), of p] same_butD(1) [OF t(4), of x] px u(2,3) by (auto simp: at_node_def node_new_def)
    have d3: "distinct (p # addrs t @ faddrs (as @ bs))"
      using assms(3) ts ms by auto
    let ?st4 = "add_child p (troot t) st3"
    have p3': "hn_first_child (st3 p) = first (as @ bs) None"
      by (simp add: p3)
    note a = add_child_ok [OF f3 p3' t(2) d3]
    have "heap_remove key x h = Some (h\<lparr>ph_nodes := ?st4\<rparr>)"
      using par u(3) Cons t(1) by (simp add: heap_remove_def Let_def st1_def)
    moreover have "node_key key ?st2 = node_key key ?st"
      using u(5) by (auto simp: node_key_def at_node_def same_but_def)
    then have "without (node_key key ?st) ts x (t # as @ bs)"
      using t(3) ts by (auto simp: without_def merges_def)
    moreover have "?st4 x = node_new (hn_data (?st x))"
      using same_butD(1) [OF a(3), of x] px ms(1) p3(2) by auto
    moreover have "same_but (set (p # faddrs ts)) ?st ?st4"
    proof -
      have "same_but (set (p # faddrs ts)) ?st ?st2"
        by (rule same_but_trans [OF u(5) sb]) (auto simp: ts)
      then have "same_but (set (p # faddrs ts)) ?st st3"
        by (rule same_but_trans [OF _ t(4)]) (auto simp: ts)
      then show ?thesis
        by (rule same_but_trans [OF _ a(3)]) (use ms(1) in \<open>auto simp: ts\<close>)
    qed
    ultimately show ?thesis
      using a(1,2) p3(1) by (intro exI [of _ "t # as @ bs"] exI [of _ ?st4]) simp
  qed
qed

lemma remove_deep_ok:
  assumes "forest (ph_nodes h) par prev ts nxt" "distinct (faddrs ts)" "x \<in> set (faddrs ts)" "x \<notin> troot ` set ts"
  shows "\<exists>ts' st'. heap_remove key x h = Some (h\<lparr>ph_nodes := st'\<rparr>) \<and> forest st' par prev ts' nxt \<and> map troot ts' = map troot ts
    \<and> without (node_key key (ph_nodes h)) ts x ts' \<and> st' x = node_new (hn_data (ph_nodes h x)) \<and> same_but (set (faddrs ts)) (ph_nodes h) st'"
  using assms
proof (induction "ph_nodes h" par prev ts nxt rule: forest.induct)
  case (2 par prev y cs ts nxt)
  let ?st = "ph_nodes h" and ?k = "node_key key (ph_nodes h)"
  have firsts: "first us n = first vs n" if "map troot us = map troot vs" for us vs n
    using that by (cases us; cases vs) auto
  have keep: "\<exists>ts'' st'. heap_remove key x h = Some (h\<lparr>ph_nodes := st'\<rparr>) \<and> forest st' par prev ts'' nxt \<and> map troot ts'' = map troot (PNode y cs # ts)
      \<and> without ?k (PNode y cs # ts) x ts'' \<and> st' x = node_new (hn_data (?st x)) \<and> same_but (set (faddrs (PNode y cs # ts))) ?st st'"
    if "heap_remove key x h = Some (h\<lparr>ph_nodes := st'\<rparr>)" "forest st' (Some y) None cs' None" "hn_first_child (st' y) = first cs' None"
      "hn_parent (st' y) = par" "hn_prev (st' y) = prev" "hn_next (st' y) = first ts nxt" "without ?k cs x cs'"
      "st' x = node_new (hn_data (?st x))" "same_but (set (y # faddrs cs)) ?st st'" for cs' st'
  proof -
    have "forest st' par (Some y) ts nxt"
      by (rule forest_frame [OF that(9)]) (use 2 in auto)
    moreover have "without ?k (PNode y cs # ts) x (PNode y cs' # ts)"
      using that(7) without_set [OF that(7)] by (auto simp: without_def)
    moreover have "same_but (set (faddrs (PNode y cs # ts))) ?st st'"
      by (rule same_but_mono [OF that(9)]) auto
    ultimately show ?thesis
      using that by (intro exI [of _ "PNode y cs' # ts"] exI [of _ st']) simp
  qed
  consider (here) "x \<in> troot ` set cs" | (below) "x \<in> set (faddrs cs)" "x \<notin> troot ` set cs" | (later) "x \<in> set (faddrs ts)" "x \<noteq> y"
    using 2(5,6) by auto
  then show ?case
  proof cases
    case here
    then obtain cs' st' where c: "heap_remove key x h = Some (h\<lparr>ph_nodes := st'\<rparr>)" "forest st' (Some y) None cs' None"
      "st' y = (?st y)\<lparr>hn_first_child := first cs' None\<rparr>" "without ?k cs x cs'" "st' x = node_new (hn_data (?st x))"
      "same_but (set (y # faddrs cs)) ?st st'"
      using remove_child_ok [of h y cs x key] 2(3,4) by auto
    then show ?thesis
      using 2(3) by (intro keep [OF c(1,2) _ _ _ _ c(4-6)]) simp_all
  next
    case below
    then obtain cs' st' where c: "heap_remove key x h = Some (h\<lparr>ph_nodes := st'\<rparr>)" "forest st' (Some y) None cs' None" "map troot cs' = map troot cs"
      "without ?k cs x cs'" "st' x = node_new (hn_data (?st x))" "same_but (set (faddrs cs)) ?st st'"
      using 2(1) 2(3,4) by auto
    have "st' y = ?st y"
      using same_butD(1) [OF c(6), of y] 2(4) by auto
    then show ?thesis
      using 2(3) firsts [OF c(3)] same_but_mono [OF c(6), of "set (y # faddrs cs)"] by (intro keep [OF c(1,2) _ _ _ _ c(4,5)]) auto
  next
    case later
    have "x \<notin> troot ` set ts"
      using 2(6) by auto
    then obtain ts' st' where c: "heap_remove key x h = Some (h\<lparr>ph_nodes := st'\<rparr>)" "forest st' par (Some y) ts' nxt" "map troot ts' = map troot ts"
      "without ?k ts x ts'" "st' x = node_new (hn_data (?st x))" "same_but (set (faddrs ts)) ?st st'"
      using 2(2) 2(3,4) later by auto
    have "st' y = ?st y"
      using same_butD(1) [OF c(6), of y] 2(4) by auto
    moreover have "forest st' (Some y) None cs None"
      by (rule forest_frame [OF c(6)]) (use 2(3,4) in auto)
    moreover have "without ?k (PNode y cs # ts) x (PNode y cs # ts')"
      using c(4) by (auto simp: without_def)
    moreover have "same_but (set (faddrs (PNode y cs # ts))) ?st st'"
      by (rule same_but_mono [OF c(6)]) auto
    ultimately show ?thesis
      using c 2(3) firsts [OF c(3)] by (intro exI [of _ "PNode y cs # ts'"] exI [of _ st']) simp
  qed
qed simp


section \<open>The heap as a set of nodes\<close>

text \<open>A heap that holds the nodes in a set, in order.\<close>

definition heap_ok :: "('a \<Rightarrow> 'k :: linorder) \<Rightarrow> nat set \<Rightarrow> 'a pairing_heap \<Rightarrow> bool" where
  "heap_ok key S h \<longleftrightarrow>
     (\<exists>ts. length ts \<le> 1 \<and> ph_root h = first ts None \<and> forest (ph_nodes h) None None ts None \<and> distinct (faddrs ts)
       \<and> set (faddrs ts) = S \<and> (\<forall>t\<in>set ts. ordered (node_key key (ph_nodes h)) t))"

lemma heap_okI:
  assumes "ph_root h = Some (troot t)" "forest (ph_nodes h) None None [t] None" "distinct (addrs t)" "set (addrs t) = S"
    and "ordered (node_key key (ph_nodes h)) t"
  shows "heap_ok key S h"
  unfolding heap_ok_def using assms by (intro exI [of _ "[t]"]) simp

lemma heap_okE:
  assumes "heap_ok key S h"
  obtains "S = {}" "ph_root h = None"
    | t where "ph_root h = Some (troot t)" "forest (ph_nodes h) None None [t] None" "distinct (addrs t)" "set (addrs t) = S"
        "ordered (node_key key (ph_nodes h)) t"
proof -
  obtain ts where ts: "length ts \<le> 1" "ph_root h = first ts None" "forest (ph_nodes h) None None ts None" "distinct (faddrs ts)"
    "set (faddrs ts) = S" "\<forall>t\<in>set ts. ordered (node_key key (ph_nodes h)) t"
    using assms unfolding heap_ok_def by blast
  then show ?thesis
    by (cases ts) (auto intro: that)
qed

lemma heap_new_ok: "heap_ok key {} (heap_new st)"
  unfolding heap_ok_def heap_new_def by (intro exI [of _ "[]"]) simp

lemma heap_insert_ok:
  assumes "heap_ok key S h" "x \<notin> S" "ph_nodes h x = node_new d"
  shows "heap_ok key (insert x S) (heap_insert key x h) \<and> same_but (insert x S) (ph_nodes h) (ph_nodes (heap_insert key x h))"
  using assms(1)
proof (cases rule: heap_okE)
  case 1
  have "heap_ok key (insert x S) (heap_insert key x h)"
    by (rule heap_okI [of _ "PNode x []"]) (use assms(3) 1 in \<open>simp_all add: heap_insert_def node_new_def\<close>)
  then show ?thesis
    using 1 by (simp add: heap_insert_def same_but_def)
next
  case (2 t)
  let ?x = "PNode x []"
  have "forest (ph_nodes h) None None [?x] None" "distinct (addrs t @ addrs ?x)"
    using assms(2,3) 2 by (auto simp: node_new_def)
  then obtain u st where u: "meld key (troot t) x (ph_nodes h) = (troot u, st)" "forest st None None [u] None"
    "merges (node_key key (ph_nodes h)) [t, ?x] u" "same_but (set (addrs t @ addrs ?x)) (ph_nodes h) st"
    using meld_ok [OF 2(2), of ?x key] by auto
  have "distinct (addrs u)" "set (addrs u) = insert x S" "ordered (node_key key (ph_nodes h)) u"
    using merges_set [OF u(3)] u(3) 2 assms(2) by (auto simp: merges_def)
  then show ?thesis
    using u 2 node_key_same [OF u(4), of key] by (auto simp: heap_insert_def intro!: heap_okI [of _ u])
qed

lemma peek_min_ok:
  assumes "heap_ok key S h"
  shows "peek_min h = None \<longleftrightarrow> S = {}"
    and "peek_min h = Some x \<Longrightarrow> x \<in> S \<and> (\<forall>y\<in>S. key (hn_data (ph_nodes h x)) \<le> key (hn_data (ph_nodes h y)))"
proof -
  show "peek_min h = None \<longleftrightarrow> S = {}"
    using assms by (cases rule: heap_okE) (auto simp: peek_min_def)
  show "x \<in> S \<and> (\<forall>y\<in>S. key (hn_data (ph_nodes h x)) \<le> key (hn_data (ph_nodes h y)))" if "peek_min h = Some x"
    using assms that by (cases rule: heap_okE) (auto simp: peek_min_def node_key_def dest: ordered_root)
qed

lemma remove_root_ok:
  assumes "ph_root h = Some x" "forest (ph_nodes h) None None [PNode x cs] None" "distinct (x # faddrs cs)"
    and "ordered (node_key key (ph_nodes h)) (PNode x cs)"
  shows "\<exists>h'. heap_remove key x h = Some h' \<and> heap_ok key (set (faddrs cs)) h' \<and> ph_nodes h' x = node_new (hn_data (ph_nodes h x))
    \<and> same_but (set (x # faddrs cs)) (ph_nodes h) (ph_nodes h')"
proof -
  let ?st = "ph_nodes h" and ?st1 = "at_node x (hn_parent_update (\<lambda>_. None)) (ph_nodes h)"
  show ?thesis
  proof (cases cs)
    case Nil
    have "heap_remove key x h = Some \<lparr>ph_root = None, ph_nodes = ?st1\<rparr>"
      using assms(2) Nil by (simp add: heap_remove_def Let_def)
    moreover have "heap_ok key {} \<lparr>ph_root = None, ph_nodes = ?st1\<rparr>"
      using heap_new_ok by (simp add: heap_new_def)
    ultimately show ?thesis
      using assms(2) Nil by (auto simp: same_but_def at_node_def node_new_def)
  next
    case (Cons c ds)
    let ?st2 = "at_node x (hn_first_child_update (\<lambda>_. None)) ?st1"
    have sb: "same_but {x} ?st ?st2"
      by (auto simp: same_but_def at_node_def)
    have f2: "forest ?st2 (Some x) None cs None"
      by (rule forest_frame [OF sb]) (use assms(2,3) in auto)
    have dc: "distinct (faddrs cs)"
      using assms(3) by simp
    obtain t st3 where t: "merge_children key (troot c) ?st2 = Some (troot t, st3)" "forest st3 None None [t] None"
      "merges (node_key key ?st2) cs t" "same_but (set (faddrs cs)) ?st2 st3"
      using merge_children_ok [OF _ f2 dc, of key] Cons by auto
    let ?h = "\<lparr>ph_root = Some (troot t), ph_nodes = st3\<rparr>"
    have "heap_remove key x h = Some ?h"
      using assms(2) Cons t(1) by (simp add: heap_remove_def Let_def)
    moreover have "heap_ok key (set (faddrs cs)) ?h"
    proof (rule heap_okI [of _ t])
      show "ordered (node_key key (ph_nodes ?h)) t"
        using assms(4) t(3) node_key_same [OF t(4), of key] node_key_same [OF sb, of key] by (simp add: merges_def)
    qed (use t merges_set [OF t(3)] dc in simp_all)
    moreover have "st3 x = node_new (hn_data (?st x))"
      using same_butD(1) [OF t(4), of x] assms(2,3) by (simp add: node_new_def)
    moreover have "same_but (set (x # faddrs cs)) ?st st3"
      by (rule same_but_trans [OF sb t(4)]) auto
    ultimately show ?thesis
      by auto
  qed
qed

lemma heap_remove_ok:
  assumes "heap_ok key S h" "x \<in> S"
  shows "\<exists>h'. heap_remove key x h = Some h' \<and> heap_ok key (S - {x}) h' \<and> ph_nodes h' x = node_new (hn_data (ph_nodes h x))
    \<and> same_but S (ph_nodes h) (ph_nodes h')"
  using assms(1)
proof (cases rule: heap_okE)
  case (2 t)
  obtain r cs where t: "t = PNode r cs"
    by (cases t)
  show ?thesis
  proof (cases "x = r")
    case True
    have "S - {x} = set (faddrs cs)" "set (x # faddrs cs) = S"
      using 2(3,4) t True by auto
    then show ?thesis
      using remove_root_ok [of h x cs key] 2 t True by simp
  next
    case False
    then have x: "distinct (faddrs [t])" "x \<in> set (faddrs [t])" "x \<notin> troot ` set [t]"
      using 2(3,4) assms(2) t by auto
    obtain ts' st' where c: "heap_remove key x h = Some (h\<lparr>ph_nodes := st'\<rparr>)" "forest st' None None ts' None" "map troot ts' = map troot [t]"
      "without (node_key key (ph_nodes h)) [t] x ts'" "st' x = node_new (hn_data (ph_nodes h x))" "same_but (set (faddrs [t])) (ph_nodes h) st'"
      using remove_deep_ok [OF 2(2) x, of key] by blast
    obtain u where u: "ts' = [u]" "troot u = r"
      using c(3) t by (cases ts') auto
    have "distinct (addrs u)" "set (addrs u) = S - {x}" "ordered (node_key key (ph_nodes h)) u"
      using without_distinct [OF c(4)] without_set [OF c(4)] c(4) 2(3-5) u by (auto simp: without_def)
    then have "heap_ok key (S - {x}) (h\<lparr>ph_nodes := st'\<rparr>)"
      using c(2) u t 2(1) node_key_same [OF c(6), of key] by (intro heap_okI [of _ u]) simp_all
    then show ?thesis
      using c(1,5,6) 2(4) by auto
  qed
qed (use assms(2) in simp)

text \<open>Data may change in place as long as its key does not.\<close>

lemma heap_data_ok:
  assumes "heap_ok key S h" "key (f (hn_data (ph_nodes h x))) = key (hn_data (ph_nodes h x))"
  shows "heap_ok key S (h\<lparr>ph_nodes := at_node x (hn_data_update f) (ph_nodes h)\<rparr>)"
proof -
  let ?st = "at_node x (hn_data_update f) (ph_nodes h)"
  have "forest ?st par prev ts nxt = forest (ph_nodes h) par prev ts nxt" for par prev ts nxt
    by (induction "ph_nodes h" par prev ts nxt rule: forest.induct) (auto simp: at_node_def)
  moreover have "node_key key ?st = node_key key (ph_nodes h)"
    using assms(2) by (auto simp: node_key_def at_node_def)
  ultimately show ?thesis
    using assms(1) by (simp add: heap_ok_def)
qed


text \<open>Memory outside the heap does not matter.\<close>

lemma ordered_cong: "(\<And>x. x \<in> set (addrs t) \<Longrightarrow> k' x = k x) \<Longrightarrow> ordered k' t = ordered k t"
proof (induction t)
  case (PNode x ts)
  then have "ordered k' t = ordered k t" if "t \<in> set ts" for t
    using that by auto
  then show ?case
    using PNode.prems by auto
qed

lemma heap_outside_ok:
  assumes "heap_ok key S h" "\<And>x. x \<in> S \<Longrightarrow> st x = ph_nodes h x"
  shows "heap_ok key S (h\<lparr>ph_nodes := st\<rparr>)"
  using assms(1)
proof (cases rule: heap_okE)
  case 1
  then show ?thesis
    unfolding heap_ok_def by (intro exI [of _ "[]"]) simp
next
  case (2 t)
  have "forest st None None [t] None"
    using 2(2,4) assms(2) forest_cong [of "[t]" st "ph_nodes h"] by simp
  moreover have "ordered (node_key key st) t"
    using 2(4,5) assms(2) ordered_cong [of t "node_key key st" "node_key key (ph_nodes h)"] by (simp add: node_key_def)
  ultimately show ?thesis
    using 2 by (intro heap_okI [of _ t]) simp_all
qed

section \<open>Histories\<close>

text \<open>The heaps that insertions and removals make from an empty one over given memory, with the nodes they hold.\<close>

inductive heap_run :: "('a \<Rightarrow> 'k :: linorder) \<Rightarrow> 'a nodes \<Rightarrow> nat set \<Rightarrow> 'a pairing_heap \<Rightarrow> bool" for key st where
  run_new: "heap_run key st {} (heap_new st)"
| run_insert: "heap_run key st S h \<Longrightarrow> x \<notin> S \<Longrightarrow> heap_run key st (insert x S) (heap_insert key x h)"
| run_remove: "heap_run key st S h \<Longrightarrow> x \<in> S \<Longrightarrow> heap_remove key x h = Some h' \<Longrightarrow> heap_run key st (S - {x}) h'"

lemma heap_run_ok:
  assumes "heap_run key st S h" "\<And>x. \<exists>d. st x = node_new d"
  shows "heap_ok key S h \<and> (\<forall>x. x \<notin> S \<longrightarrow> ph_nodes h x = st x) \<and> (\<forall>x. hn_data (ph_nodes h x) = hn_data (st x))"
  using assms(1)
proof (induction rule: heap_run.induct)
  case run_new
  then show ?case
    using heap_new_ok by (simp add: heap_new_def)
next
  case (run_insert S h x)
  then have "ph_nodes h x = st x" "heap_ok key S h"
    by auto
  moreover obtain d where "st x = node_new d"
    using assms(2) by blast
  ultimately show ?case
    using heap_insert_ok [of key S h x d] run_insert by (auto simp: same_but_def)
next
  case (run_remove S h x h')
  obtain d where d: "st x = node_new d"
    using assms(2) by blast
  have h': "heap_ok key (S - {x}) h'" "ph_nodes h' x = node_new (hn_data (ph_nodes h x))" "same_but S (ph_nodes h) (ph_nodes h')"
    using heap_remove_ok [of key S h x] run_remove by auto
  then have "ph_nodes h' x = st x"
    using run_remove.IH d by (simp add: node_new_def)
  then show ?case
    using h' run_remove.IH by (auto simp: same_but_def)
qed

text \<open>C30: the intrusive pairing heap is a priority queue over its nodes. After any history of insertions and removals, of the minimum or
  of any other member, the reported minimum is a member no other member is below, there is one unless the heap is
  empty, and every member can be removed: the loops over the pointers end, and the node comes out with all its links
  cleared. The data of the nodes and all memory outside the heap are as they were.\<close>

theorem intrusive_heap:
  assumes "heap_run key st S h" "\<forall>x. \<exists>d. st x = node_new d"
  shows "(peek_min h = None \<longleftrightarrow> S = {})
    \<and> (\<forall>x. peek_min h = Some x \<longrightarrow> x \<in> S \<and> (\<forall>y\<in>S. key (hn_data (st x)) \<le> key (hn_data (st y))))
    \<and> (\<forall>x\<in>S. \<exists>h'. heap_remove key x h = Some h' \<and> ph_nodes h' x = st x)
    \<and> (\<forall>x. x \<notin> S \<longrightarrow> ph_nodes h x = st x) \<and> (\<forall>x. hn_data (ph_nodes h x) = hn_data (st x))"
proof -
  have ok: "heap_ok key S h" "\<forall>x. x \<notin> S \<longrightarrow> ph_nodes h x = st x" "\<forall>x. hn_data (ph_nodes h x) = hn_data (st x)"
    using heap_run_ok [OF assms(1)] assms(2) by blast+
  have "\<exists>h'. heap_remove key x h = Some h' \<and> ph_nodes h' x = st x" if "x \<in> S" for x
  proof -
    obtain d where "st x = node_new d"
      using assms(2) by blast
    then show ?thesis
      using heap_remove_ok [OF ok(1) that] ok(3) by (auto simp: node_new_def)
  qed
  then show ?thesis
    using peek_min_ok [OF ok(1)] ok(2,3) by simp
qed

theorem intrusive_heap_witness:
  "\<exists>h. heap_run (\<lambda>n. n) (\<lambda>x. node_new (if x = 2 then 1 else 5 :: nat)) {1, 2, 3} h \<and> peek_min h = Some 2
    \<and> (\<exists>h'. heap_remove (\<lambda>n. n) 3 h = Some h')"
proof -
  let ?st = "\<lambda>x. node_new (if x = 2 then 1 else 5 :: nat)"
  let ?h = "heap_insert (\<lambda>n. n) 3 (heap_insert (\<lambda>n. n) 2 (heap_insert (\<lambda>n. n) 1 (heap_new ?st)))"
  have "heap_run (\<lambda>n. n) ?st (insert 3 (insert 2 (insert 1 {}))) ?h"
    by (intro run_insert run_new) simp_all
  moreover have "insert 3 (insert 2 (insert 1 {})) = {1, 2, 3 :: nat}"
    by auto
  ultimately have run: "heap_run (\<lambda>n. n) ?st {1, 2, 3} ?h"
    by simp
  have st: "\<forall>x. \<exists>d. ?st x = node_new d"
    by blast
  note i = intrusive_heap [OF run st]
  obtain x where "peek_min ?h = Some x" "x \<in> {1, 2, 3}" "\<forall>y\<in>{1, 2, 3}. hn_data (?st x) \<le> hn_data (?st y)"
    using i by (cases "peek_min ?h") auto
  then have "peek_min ?h = Some 2"
    by (auto simp: node_new_def)
  then show ?thesis
    using run i by blast
qed

end
