(* ===== verification/Timer_Expiry.thy ===== *)
theory Timer_Expiry
  imports Timer Heap_Trees
begin

text \<open>
  What timers guarantee: in every reachable state the heap holds exactly the registered futures, advancing the clock
  always returns, and it wakes exactly the futures whose time has come, in the order of their expiry.
\<close>

section \<open>Minimum queues\<close>

text \<open>What the timer relies on: a queue over a set of nodes with a least key.\<close>

locale min_queue =
  fixes ok :: "nat set \<Rightarrow> 'h \<Rightarrow> bool"
    and peek :: "'h \<Rightarrow> nat option"
    and rem :: "nat \<Rightarrow> 'h \<Rightarrow> 'h option"
    and key :: "'h \<Rightarrow> nat \<Rightarrow> 'k :: linorder"
  assumes finite_members: "ok S h \<Longrightarrow> finite S"
    and peek_none: "ok S h \<Longrightarrow> peek h = None \<longleftrightarrow> S = {}"
    and peek_least: "ok S h \<Longrightarrow> peek h = Some x \<Longrightarrow> x \<in> S \<and> (\<forall>y\<in>S. key h x \<le> key h y)"
    and rem_member: "ok S h \<Longrightarrow> x \<in> S \<Longrightarrow> \<exists>h'. rem x h = Some h' \<and> ok (S - {x}) h' \<and> key h' = key h"
begin

text \<open>When the least key is beyond a bound, all are.\<close>

lemma none_due:
  assumes "ok S h" "\<And>x. peek h = Some x \<Longrightarrow> b < key h x"
  shows "{y \<in> S. key h y \<le> b} = {}"
proof (cases "peek h")
  case None
  then show ?thesis
    using peek_none [OF assms(1)] by simp
next
  case (Some x)
  have "b < key h y" if "y \<in> S" for y
    using peek_least [OF assms(1) Some] assms(2) [OF Some] that by (meson less_le_trans)
  then show ?thesis
    by (auto simp: not_le [symmetric])
qed

text \<open>Otherwise the first member is due, before all others.\<close>

lemma next_due:
  assumes "ok S h" "peek h = Some x" "key h x \<le> b"
  shows "{y \<in> S. key h y \<le> b} = insert x {y \<in> S - {x}. key h y \<le> b}" "\<forall>y\<in>S - {x}. key h x \<le> key h y" "card (S - {x}) < card S"
  using peek_least [OF assms(1,2)] assms(3) card_Diff1_less [OF finite_members [OF assms(1)]] by auto

end

lemma heap_ok_finite: "heap_ok key S h \<Longrightarrow> finite S"
  unfolding heap_ok_def by (metis List.finite_set)

interpretation tq: min_queue "heap_ok te_expiry :: nat set \<Rightarrow> timer_entry pairing_heap \<Rightarrow> bool" peek_min "heap_remove te_expiry"
  "\<lambda>h. node_key te_expiry (ph_nodes h)"
proof
  show "finite S" if "heap_ok te_expiry S h" for S and h :: "timer_entry pairing_heap"
    using that by (rule heap_ok_finite)
  show "peek_min h = None \<longleftrightarrow> S = {}" if "heap_ok te_expiry S h" for S and h :: "timer_entry pairing_heap"
    using that by (rule peek_min_ok(1))
  show "x \<in> S \<and> (\<forall>y\<in>S. node_key te_expiry (ph_nodes h) x \<le> node_key te_expiry (ph_nodes h) y)"
    if "heap_ok te_expiry S h" "peek_min h = Some x" for S x and h :: "timer_entry pairing_heap"
    using peek_min_ok(2) [OF that] by (simp add: node_key_def)
  show "\<exists>h'. heap_remove te_expiry x h = Some h' \<and> heap_ok te_expiry (S - {x}) h' \<and> node_key te_expiry (ph_nodes h') = node_key te_expiry (ph_nodes h)"
    if "heap_ok te_expiry S h" "x \<in> S" for S x and h :: "timer_entry pairing_heap"
    using heap_remove_ok [OF that] node_key_same by blast
qed

section \<open>Invariant\<close>

definition registered :: "timer \<Rightarrow> nat set" where
  "registered t = {a. te_state (entry_at t a) = Registered}"

text \<open>The heap holds the registered futures; a future that is not registered has no links.\<close>

definition timer_ok :: "timer \<Rightarrow> bool" where
  "timer_ok t \<longleftrightarrow> heap_ok te_expiry (registered t) (tm_heap t)
     \<and> (\<forall>a. a \<notin> registered t \<longrightarrow> timer_nodes t a = node_new (entry_at t a))
     \<and> (\<forall>a\<in>registered t. tm_now t < te_expiry (entry_at t a) \<and> tm_pending t a \<and> te_task (entry_at t a) \<noteq> None)"

lemma timer_okI:
  assumes "heap_ok te_expiry R (tm_heap t)" "registered t = R" "\<And>a. a \<notin> R \<Longrightarrow> timer_nodes t a = node_new (entry_at t a)"
    and "\<And>a. a \<in> R \<Longrightarrow> tm_now t < te_expiry (entry_at t a)" "\<And>a. a \<in> R \<Longrightarrow> tm_pending t a" "\<And>a. a \<in> R \<Longrightarrow> te_task (entry_at t a) \<noteq> None"
  shows "timer_ok t"
  unfolding timer_ok_def assms(2) using assms by blast

lemma timer_okD:
  assumes "timer_ok t"
  shows "heap_ok te_expiry (registered t) (tm_heap t)" "a \<notin> registered t \<Longrightarrow> timer_nodes t a = node_new (entry_at t a)"
    and "a \<in> registered t \<Longrightarrow> tm_now t < te_expiry (entry_at t a)" "a \<in> registered t \<Longrightarrow> tm_pending t a"
    and "a \<in> registered t \<Longrightarrow> te_task (entry_at t a) \<noteq> None"
  using assms unfolding timer_ok_def by blast+

lemma entry_at_set [simp]: "entry_at (set_entry_at a f t) b = (if b = a then f (entry_at t a) else entry_at t b)"
  by (simp add: set_entry_at_def at_node_def)

lemma timer_new_ok:
  assumes "\<forall>x. \<exists>e. st x = node_new e \<and> te_state e \<noteq> Registered"
  shows "timer_ok (timer_new now st)"
proof (rule timer_okI [of "{}"])
  have "\<exists>e. st a = node_new e \<and> te_state e \<noteq> Registered" for a
    using assms by blast
  then have "te_state (hn_data (st a)) \<noteq> Registered \<and> st a = node_new (hn_data (st a))" for a
    by (metis heap_node.select_convs(5) node_new_def)
  then show "registered (timer_new now st) = {}" "\<And>a. timer_nodes (timer_new now st) a = node_new (entry_at (timer_new now st) a)"
    by (auto simp: registered_def timer_new_def heap_new_def)
qed (auto simp: timer_new_def heap_new_ok)

section \<open>Expiry\<close>

text \<open>The loop: the due members leave the heap in order, and each is marked and woken.\<close>

lemma expire_ok:
  assumes "heap_ok te_expiry R (tm_heap t)" "R = registered t" "\<And>a. a \<notin> R \<Longrightarrow> timer_nodes t a = node_new (entry_at t a)"
    and "\<And>a. a \<in> R \<Longrightarrow> te_task (entry_at t a) \<noteq> None"
  shows "\<exists>t' xs. expire now t = Some t' \<and> distinct xs \<and> set xs = {a \<in> R. te_expiry (entry_at t a) \<le> now}
    \<and> sorted (map (\<lambda>a. te_expiry (entry_at t a)) xs) \<and> tm_woken t' = tm_woken t @ map (\<lambda>a. the (te_task (entry_at t a))) xs
    \<and> registered t' = R - set xs \<and> heap_ok te_expiry (R - set xs) (tm_heap t')
    \<and> (\<forall>a. a \<notin> R - set xs \<longrightarrow> timer_nodes t' a = node_new (entry_at t' a))
    \<and> (\<forall>a. entry_at t' a = (if a \<in> set xs then (entry_at t a)\<lparr>te_state := Expired, te_task := None\<rparr> else entry_at t a))
    \<and> tm_now t' = tm_now t \<and> tm_pending t' = tm_pending t"
  using assms
proof (induction "card R" arbitrary: R t rule: less_induct)
  case less
  let ?k = "\<lambda>a. te_expiry (entry_at t a)"
  have key: "node_key te_expiry (timer_nodes t) = ?k"
    by (simp add: node_key_def fun_eq_iff)
  show ?case
  proof (cases "\<forall>x. peek_min (tm_heap t) = Some x \<longrightarrow> now < ?k x")
    case True
    then have "expire now t = Some t"
      by (subst expire.simps) (auto split: option.split)
    moreover have "{a \<in> R. ?k a \<le> now} = {}"
      using tq.none_due [OF less.prems(1), of now] True by (simp add: key)
    ultimately show ?thesis
      using less.prems by (intro exI [of _ t] exI [of _ "[]"]) auto
  next
    case False
    then obtain x where x: "peek_min (tm_heap t) = Some x" "?k x \<le> now"
      by (auto simp: not_less)
    note due = tq.next_due [OF less.prems(1) x(1), of now, unfolded key, OF x(2)]
    have xR: "x \<in> R"
      using tq.peek_least [OF less.prems(1) x(1)] by simp
    then obtain w where w: "te_task (entry_at t x) = Some w"
      using less.prems(4) by blast
    define t1 where "t1 = (set_entry_at x (\<lambda>e. e\<lparr>te_state := Expired, te_task := None\<rparr>) t)\<lparr>tm_woken := tm_woken t @ [w]\<rparr>"
    have e1: "entry_at t1 a = (if a = x then (entry_at t x)\<lparr>te_state := Expired, te_task := None\<rparr> else entry_at t a)" for a
      using entry_at_set [of x _ t a] by (simp add: t1_def)
    have "heap_ok te_expiry R (tm_heap t1)"
      using heap_data_ok [OF less.prems(1), of "\<lambda>e. e\<lparr>te_state := Expired, te_task := None\<rparr>" x] by (simp add: t1_def set_entry_at_def)
    then obtain h where h: "heap_remove te_expiry x (tm_heap t1) = Some h" "heap_ok te_expiry (R - {x}) h"
      "ph_nodes h x = node_new (entry_at t1 x)" "same_but R (timer_nodes t1) (ph_nodes h)"
      using heap_remove_ok [OF _ xR] by blast
    let ?t = "t1\<lparr>tm_heap := h\<rparr>"
    have e: "entry_at ?t a = entry_at t1 a" for a
      using same_butD(2) [OF h(4)] by simp
    have step: "expire now t = expire now ?t"
      using x w h(1) by (subst expire.simps) (simp add: t1_def set_entry_at_def Let_def)
    have reg: "R - {x} = registered ?t"
      using less.prems(2) e e1 by (auto simp: registered_def)
    have links: "timer_nodes ?t a = node_new (entry_at ?t a)" if "a \<notin> R - {x}" for a
    proof (cases "a = x")
      case True
      then show ?thesis
        using h(3) by (simp add: node_new_def)
    next
      case False
      then have "ph_nodes h a = timer_nodes t a"
        using same_butD(1) [OF h(4), of a] that by (simp add: t1_def set_entry_at_def)
      then show ?thesis
        using less.prems(3) [of a] that False by simp
    qed
    have "\<exists>t' xs. expire now ?t = Some t' \<and> distinct xs \<and> set xs = {a \<in> R - {x}. te_expiry (entry_at ?t a) \<le> now}
      \<and> sorted (map (\<lambda>a. te_expiry (entry_at ?t a)) xs) \<and> tm_woken t' = tm_woken ?t @ map (\<lambda>a. the (te_task (entry_at ?t a))) xs
      \<and> registered t' = R - {x} - set xs \<and> heap_ok te_expiry (R - {x} - set xs) (tm_heap t')
      \<and> (\<forall>a. a \<notin> R - {x} - set xs \<longrightarrow> timer_nodes t' a = node_new (entry_at t' a))
      \<and> (\<forall>a. entry_at t' a = (if a \<in> set xs then (entry_at ?t a)\<lparr>te_state := Expired, te_task := None\<rparr> else entry_at ?t a))
      \<and> tm_now t' = tm_now ?t \<and> tm_pending t' = tm_pending ?t"
      by (rule less.hyps) (use due(3) h(2) reg links less.prems(4) e e1 in auto)
    then obtain t' xs where t': "expire now ?t = Some t'" "distinct xs" "set xs = {a \<in> R - {x}. te_expiry (entry_at ?t a) \<le> now}"
      "sorted (map (\<lambda>a. te_expiry (entry_at ?t a)) xs)" "tm_woken t' = tm_woken ?t @ map (\<lambda>a. the (te_task (entry_at ?t a))) xs"
      "registered t' = R - {x} - set xs" "heap_ok te_expiry (R - {x} - set xs) (tm_heap t')"
      "\<forall>a. a \<notin> R - {x} - set xs \<longrightarrow> timer_nodes t' a = node_new (entry_at t' a)"
      "\<forall>a. entry_at t' a = (if a \<in> set xs then (entry_at ?t a)\<lparr>te_state := Expired, te_task := None\<rparr> else entry_at ?t a)"
      "tm_now t' = tm_now ?t" "tm_pending t' = tm_pending ?t"
      by blast
    have k: "te_expiry (entry_at ?t a) = ?k a" for a
      using e e1 by simp
    have set: "set xs = {a \<in> R - {x}. ?k a \<le> now}" "x \<notin> set xs"
      using t'(3) k by auto
    have map: "map (\<lambda>a. the (te_task (entry_at ?t a))) xs = map (\<lambda>a. the (te_task (entry_at t a))) xs"
      using set(2) e e1 by (auto intro!: map_cong)
    have rest: "R - {x} - set xs = R - set (x # xs)"
      by auto
    show ?thesis
    proof (intro exI [of _ t'] exI [of _ "x # xs"] conjI)
      show "expire now t = Some t'"
        using step t'(1) by simp
      show "set (x # xs) = {a \<in> R. ?k a \<le> now}"
        using due(1) set(1) by simp
      show "sorted (map ?k (x # xs))"
        using t'(4) due(2) set(1) k by auto
      show "tm_woken t' = tm_woken t @ map (\<lambda>a. the (te_task (entry_at t a))) (x # xs)"
        using t'(5) map w by (simp add: t1_def)
      show "\<forall>a. entry_at t' a = (if a \<in> set (x # xs) then (entry_at t a)\<lparr>te_state := Expired, te_task := None\<rparr> else entry_at t a)"
        using t'(9) set(2) e e1 by auto
      show "tm_now t' = tm_now t" "tm_pending t' = tm_pending t"
        using t'(10,11) by (simp_all add: t1_def set_entry_at_def)
    qed (use t'(2,6,7,8) set(2) rest in auto)
  qed
qed


section \<open>Histories\<close>

text \<open>Futures are made in free memory, polled by any task, and dropped, and the clock advances, in any order.\<close>

inductive timer_step :: "timer \<Rightarrow> timer \<Rightarrow> bool" where
  timer_step_wait: "timer_step t (wait_until a expiry t)" if "te_state (entry_at t a) \<noteq> Registered"
| timer_step_poll: "timer_step t t'" if "wait_poll a task t = (Ok ready, t')"
| timer_step_drop: "timer_step t t'" if "wait_drop a t = Some t'"
| timer_step_clock: "timer_step t t'" if "timer_advance_clock now t = Some t'"

lemma wait_until_ok:
  assumes "timer_ok t" "te_state (entry_at t a) \<noteq> Registered"
  shows "timer_ok (wait_until a expiry t)"
proof (rule timer_okI)
  have a: "a \<notin> registered t"
    using assms(2) by (simp add: registered_def)
  let ?t = "wait_until a expiry t"
  have e: "entry_at ?t b = (if b = a then \<lparr>te_expiry = expiry, te_task = None, te_state = Unregistered\<rparr> else entry_at t b)"
    "b \<noteq> a \<Longrightarrow> timer_nodes ?t b = timer_nodes t b" "tm_now ?t = tm_now t" "b \<noteq> a \<Longrightarrow> tm_pending ?t b = tm_pending t b" for b
    by (simp_all add: wait_until_def)
  show "registered ?t = registered t"
    using a e(1) by (auto simp: registered_def)
  show "heap_ok te_expiry (registered t) (tm_heap ?t)"
  proof -
    have "heap_ok te_expiry (registered t) ((tm_heap t)\<lparr>ph_nodes := timer_nodes ?t\<rparr>)"
      by (rule heap_outside_ok [OF timer_okD(1) [OF assms(1)]]) (metis a e(2))
    then show ?thesis
      by (simp add: wait_until_def)
  qed
  show "timer_nodes ?t b = node_new (entry_at ?t b)" if "b \<notin> registered t" for b
    using timer_okD(2) [OF assms(1) that] by (simp add: wait_until_def)
  fix b
  assume b: "b \<in> registered t"
  then have "b \<noteq> a"
    using a by blast
  then show "tm_now ?t < te_expiry (entry_at ?t b)" "tm_pending ?t b" "te_task (entry_at ?t b) \<noteq> None"
    using timer_okD(3-5) [OF assms(1) b] e by simp_all
qed

lemma advance_ok:
  assumes "timer_ok t" "tm_now t \<le> now"
  shows "\<exists>t' xs. timer_advance_clock now t = Some t' \<and> timer_ok t' \<and> tm_now t' = now \<and> tm_pending t' = tm_pending t
    \<and> distinct xs \<and> set xs = {a \<in> registered t. te_expiry (entry_at t a) \<le> now} \<and> sorted (map (\<lambda>a. te_expiry (entry_at t a)) xs)
    \<and> tm_woken t' = tm_woken t @ map (\<lambda>a. the (te_task (entry_at t a))) xs
    \<and> (\<forall>a. entry_at t' a = (if a \<in> set xs then (entry_at t a)\<lparr>te_state := Expired, te_task := None\<rparr> else entry_at t a))"
proof -
  note d = timer_okD [OF assms(1)]
  obtain t1 xs where x: "expire now t = Some t1" "distinct xs" "set xs = {a \<in> registered t. te_expiry (entry_at t a) \<le> now}"
    "sorted (map (\<lambda>a. te_expiry (entry_at t a)) xs)" "tm_woken t1 = tm_woken t @ map (\<lambda>a. the (te_task (entry_at t a))) xs"
    "registered t1 = registered t - set xs" "heap_ok te_expiry (registered t - set xs) (tm_heap t1)"
    "\<forall>a. a \<notin> registered t - set xs \<longrightarrow> timer_nodes t1 a = node_new (entry_at t1 a)"
    "\<forall>a. entry_at t1 a = (if a \<in> set xs then (entry_at t a)\<lparr>te_state := Expired, te_task := None\<rparr> else entry_at t a)"
    "tm_pending t1 = tm_pending t"
    using expire_ok [OF d(1) refl d(2,5), of now] by blast
  let ?t = "t1\<lparr>tm_now := now\<rparr>"
  have "timer_ok ?t"
  proof (rule timer_okI)
    show "heap_ok te_expiry (registered t - set xs) (tm_heap ?t)" "registered ?t = registered t - set xs"
      using x(6,7) by (auto simp: registered_def)
    show "timer_nodes ?t a = node_new (entry_at ?t a)" if "a \<notin> registered t - set xs" for a
      using x(8) that by simp
    fix a
    assume a: "a \<in> registered t - set xs"
    then have "now < te_expiry (entry_at t a)"
      unfolding x(3) by (simp add: not_le)
    then show "tm_now ?t < te_expiry (entry_at ?t a)"
      using x(9) [rule_format, of a] a by simp
    show "tm_pending ?t a" "te_task (entry_at ?t a) \<noteq> None"
      using x(9) [rule_format, of a] x(10) a d(4,5) [of a] by simp_all
  qed
  moreover have "timer_advance_clock now t = Some ?t"
    using x(1) assms(2) by (simp add: timer_advance_clock_def)
  ultimately show ?thesis
    using x(2-5,9,10) by (intro exI [of _ ?t] exI [of _ xs] conjI) simp_all
qed

lemma wait_drop_ok:
  assumes "timer_ok t"
  shows "\<exists>t'. wait_drop a t = Some t' \<and> timer_ok t'"
proof (cases "tm_pending t a \<and> te_state (entry_at t a) = Registered")
  case True
  note d = timer_okD [OF assms]
  have a: "a \<in> registered t"
    using True by (simp add: registered_def)
  obtain h where h: "heap_remove te_expiry a (tm_heap t) = Some h" "heap_ok te_expiry (registered t - {a}) h"
    "ph_nodes h a = node_new (entry_at t a)" "same_but (registered t) (timer_nodes t) (ph_nodes h)"
    using heap_remove_ok [OF d(1) a] by blast
  let ?t = "set_entry_at a (te_state_update (\<lambda>_. Unregistered)) (t\<lparr>tm_heap := h\<rparr>)"
  have e: "entry_at ?t b = (if b = a then (entry_at t a)\<lparr>te_state := Unregistered\<rparr> else entry_at t b)" for b
    using same_butD(2) [OF h(4)] by simp
  have "timer_ok ?t"
  proof (rule timer_okI)
    show "registered ?t = registered t - {a}"
      using e by (auto simp: registered_def)
    show "heap_ok te_expiry (registered t - {a}) (tm_heap ?t)"
      using heap_data_ok [OF h(2), of "te_state_update (\<lambda>_. Unregistered)" a] by (simp add: set_entry_at_def)
    show "timer_nodes ?t b = node_new (entry_at ?t b)" if "b \<notin> registered t - {a}" for b
      using that h(3) d(2) [of b] same_butD(1) [OF h(4), of b] by (cases "b = a") (auto simp: set_entry_at_def at_node_def node_new_def)
    fix b
    assume "b \<in> registered t - {a}"
    then show "tm_now ?t < te_expiry (entry_at ?t b)" "tm_pending ?t b" "te_task (entry_at ?t b) \<noteq> None"
      using d(3-5) [of b] by (simp_all only: e) (simp_all add: set_entry_at_def)
  qed
  then show ?thesis
    using True h(1) by (simp add: wait_drop_def)
qed (use assms in \<open>auto simp: wait_drop_def\<close>)


text \<open>The three things a poll may do: change an entry in place, give the reference to the timer up, register.\<close>

lemma set_entry_ok:
  assumes "timer_ok t" "te_expiry (f (entry_at t a)) = te_expiry (entry_at t a)"
    and "te_state (f (entry_at t a)) = Registered \<longleftrightarrow> te_state (entry_at t a) = Registered"
    and "te_task (entry_at t a) \<noteq> None \<Longrightarrow> te_task (f (entry_at t a)) \<noteq> None"
  shows "timer_ok (set_entry_at a f t)"
proof (rule timer_okI)
  note d = timer_okD [OF assms(1)]
  let ?t = "set_entry_at a f t"
  have e: "entry_at ?t b = (if b = a then f (entry_at t a) else entry_at t b)" for b
    by simp
  show "registered ?t = registered t"
    unfolding registered_def e using assms(3) by auto
  show "heap_ok te_expiry (registered t) (tm_heap ?t)"
    using heap_data_ok [OF d(1), of f a] assms(2) by (simp add: set_entry_at_def)
  show "timer_nodes ?t b = node_new (entry_at ?t b)" if "b \<notin> registered t" for b
  proof (cases "b = a")
    case True
    then show ?thesis
      using arg_cong [OF d(2) [OF that], of "hn_data_update f"] by (simp add: set_entry_at_def)
  qed (use d(2) [OF that] in \<open>simp add: set_entry_at_def\<close>)
  fix b
  assume "b \<in> registered t"
  then show "tm_now ?t < te_expiry (entry_at ?t b)" "tm_pending ?t b" "te_task (entry_at ?t b) \<noteq> None"
    using d(3-5) [of b] assms(2,4) by (cases "b = a"; simp only: e; simp add: set_entry_at_def)+
qed

lemma release_ok:
  assumes "timer_ok t" "a \<notin> registered t"
  shows "timer_ok (t\<lparr>tm_pending := (tm_pending t)(a := False)\<rparr>)"
proof -
  have "registered (t\<lparr>tm_pending := (tm_pending t)(a := False)\<rparr>) = registered t"
    by (simp add: registered_def)
  then show ?thesis
    using timer_okD [OF assms(1)] assms(2) by (intro timer_okI) auto
qed

lemma register_ok:
  assumes "timer_ok t" "a \<notin> registered t" "tm_pending t a" "tm_now t < te_expiry (entry_at t a)"
    and "t1 = set_entry_at a (\<lambda>e. e\<lparr>te_task := Some task, te_state := Registered\<rparr>) t"
  shows "timer_ok (t1\<lparr>tm_heap := heap_insert te_expiry a (tm_heap t1)\<rparr>)"
proof (rule timer_okI)
  note d = timer_okD [OF assms(1)]
  let ?f = "\<lambda>e. e\<lparr>te_task := Some task, te_state := Registered\<rparr>"
  let ?t = "t1\<lparr>tm_heap := heap_insert te_expiry a (tm_heap t1)\<rparr>"
  have h1: "heap_ok te_expiry (registered t) (tm_heap t1)"
    using heap_data_ok [OF d(1), of ?f a] by (simp add: assms(5) set_entry_at_def)
  have "timer_nodes t1 a = node_new (?f (entry_at t a))"
    using arg_cong [OF d(2) [OF assms(2)], of "hn_data_update ?f"] by (simp add: assms(5) set_entry_at_def)
  note h = heap_insert_ok [OF h1 assms(2) this]
  have e: "entry_at ?t b = (if b = a then ?f (entry_at t a) else entry_at t b)" for b
    using same_butD(2) [OF conjunct2 [OF h], of b] entry_at_set [of a ?f t b] by (simp add: assms(5))
  show "registered ?t = insert a (registered t)"
    unfolding registered_def e by auto
  show "heap_ok te_expiry (insert a (registered t)) (tm_heap ?t)"
    using h by simp
  show "timer_nodes ?t b = node_new (entry_at ?t b)" if "b \<notin> insert a (registered t)" for b
    using that d(2) [of b] same_butD(1) [OF conjunct2 [OF h], of b] by (simp add: assms(5) set_entry_at_def)
  fix b
  assume "b \<in> insert a (registered t)"
  then show "tm_now ?t < te_expiry (entry_at ?t b)" "tm_pending ?t b" "te_task (entry_at ?t b) \<noteq> None"
    using d(3-5) [of b] assms(3,4) by (cases "b = a"; simp only: e; simp add: assms(5) set_entry_at_def)+
qed

lemma wait_poll_ok:
  assumes "timer_ok t" "tm_pending t a"
  shows "timer_ok (snd (wait_poll a task t))"
    and "fst (wait_poll a task t) = Ok (te_state (entry_at t a) = Expired \<or> te_state (entry_at t a) = Unregistered \<and> te_expiry (entry_at t a) \<le> tm_now t)"
proof -
  have "timer_ok (snd (wait_poll a task t))
    \<and> fst (wait_poll a task t) = Ok (te_state (entry_at t a) = Expired \<or> te_state (entry_at t a) = Unregistered \<and> te_expiry (entry_at t a) \<le> tm_now t)"
  proof (cases "te_state (entry_at t a)")
    case Expired
    then show ?thesis
      using release_ok [OF assms(1)] assms(2) by (simp add: wait_poll_def registered_def)
  next
    case Registered
    then show ?thesis
      using set_entry_ok [OF assms(1), of "te_task_update (\<lambda>_. Some task)" a] assms by (simp add: wait_poll_def)
  next
    case Unregistered
    show ?thesis
    proof (cases "te_expiry (entry_at t a) \<le> tm_now t")
      case True
      let ?t = "set_entry_at a (te_state_update (\<lambda>_. Expired)) t"
      have "timer_ok ?t" "a \<notin> registered ?t"
        using set_entry_ok [OF assms(1), of "te_state_update (\<lambda>_. Expired)" a] Unregistered by (simp_all add: registered_def)
      then show ?thesis
        using release_ok [of ?t a] Unregistered True assms(2) by (simp add: wait_poll_def)
    next
      case False
      then show ?thesis
        using register_ok [OF assms(1) _ assms(2) _ refl, of task] Unregistered assms(2) by (simp add: wait_poll_def Let_def registered_def)
    qed
  qed
  then show "timer_ok (snd (wait_poll a task t))"
    "fst (wait_poll a task t) = Ok (te_state (entry_at t a) = Expired \<or> te_state (entry_at t a) = Unregistered \<and> te_expiry (entry_at t a) \<le> tm_now t)"
    by simp_all
qed

lemma timer_step_ok:
  assumes "timer_step t t'" "timer_ok t"
  shows "timer_ok t'"
  using assms
proof (induction rule: timer_step.induct)
  case (timer_step_poll a task t ready t')
  then have "tm_pending t a"
    by (auto simp: wait_poll_def split: if_splits)
  then show ?case
    using wait_poll_ok(1) [of t a task] timer_step_poll by simp
next
  case (timer_step_drop a t t')
  then show ?case
    using wait_drop_ok [of t a] by auto
next
  case (timer_step_clock now t t')
  then have "tm_now t \<le> now"
    by (auto simp: timer_advance_clock_def split: if_splits)
  then show ?case
    using advance_ok [of t now] timer_step_clock by auto
qed (auto intro: wait_until_ok)

text \<open>C31: timers fire, once and in order. Whatever futures were made, polled and dropped before, advancing the clock returns; it wakes
  the last task that polled each registered future whose expiry has come, earliest first, and no other task. After it
  each of these futures is ready when it is polled, every other registered one is still pending, and dropping any future
  returns as well.\<close>

theorem timers_fire:
  assumes "\<forall>x. \<exists>e. st x = node_new e \<and> te_state e \<noteq> Registered" "timer_step\<^sup>*\<^sup>* (timer_new now0 st) t" "tm_now t \<le> now"
  shows "\<exists>t' xs. timer_advance_clock now t = Some t' \<and> tm_now t' = now
    \<and> distinct xs \<and> set xs = {a. te_state (entry_at t a) = Registered \<and> te_expiry (entry_at t a) \<le> now}
    \<and> sorted (map (\<lambda>a. te_expiry (entry_at t a)) xs) \<and> map Some (tm_woken t') = map Some (tm_woken t) @ map (\<lambda>a. te_task (entry_at t a)) xs
    \<and> (\<forall>a task. te_state (entry_at t a) = Registered \<longrightarrow> fst (wait_poll a task t') = Ok (te_expiry (entry_at t a) \<le> now))
    \<and> (\<forall>a. wait_drop a t' \<noteq> None)"
proof -
  have ok: "timer_ok t"
    using assms(2) timer_new_ok [OF assms(1)] by (induction rule: rtranclp_induct) (auto intro: timer_step_ok)
  note d = timer_okD [OF ok]
  obtain t' xs where x: "timer_advance_clock now t = Some t'" "timer_ok t'" "tm_now t' = now" "tm_pending t' = tm_pending t" "distinct xs"
    "set xs = {a \<in> registered t. te_expiry (entry_at t a) \<le> now}" "sorted (map (\<lambda>a. te_expiry (entry_at t a)) xs)"
    "tm_woken t' = tm_woken t @ map (\<lambda>a. the (te_task (entry_at t a))) xs"
    "\<forall>a. entry_at t' a = (if a \<in> set xs then (entry_at t a)\<lparr>te_state := Expired, te_task := None\<rparr> else entry_at t a)"
    using advance_ok [OF ok assms(3)] by blast
  have "te_task (entry_at t a) = Some (the (te_task (entry_at t a)))" if "a \<in> set xs" for a
    using d(5) [of a] that x(6) by auto
  then have "map Some (tm_woken t') = map Some (tm_woken t) @ map (\<lambda>a. te_task (entry_at t a)) xs"
    using x(8) by (simp add: comp_def)
  moreover have "fst (wait_poll a task t') = Ok (te_expiry (entry_at t a) \<le> now)" if "te_state (entry_at t a) = Registered" for a task
  proof -
    have a: "a \<in> registered t"
      using that by (simp add: registered_def)
    then have "a \<in> set xs \<longleftrightarrow> te_expiry (entry_at t a) \<le> now"
      using x(6) by simp
    then show ?thesis
      using wait_poll_ok(2) [OF x(2), of a task] x(4) d(4) [OF a] x(9) [rule_format, of a] that by auto
  qed
  moreover have "wait_drop a t' \<noteq> None" for a
    using wait_drop_ok [OF x(2), of a] by auto
  moreover have "set xs = {a. te_state (entry_at t a) = Registered \<and> te_expiry (entry_at t a) \<le> now}"
    using x(6) by (simp add: registered_def)
  ultimately show ?thesis
    using x(1,3,5,7) by (intro exI [of _ t'] exI [of _ xs]) simp
qed


text \<open>Two futures, the second with the earlier expiry.\<close>

definition demo_timer :: "timer_entry nodes \<Rightarrow> timer" where
  "demo_timer st = snd (wait_poll 2 20 (wait_until 2 3 (snd (wait_poll 1 10 (wait_until 1 5 (timer_new 0 st))))))"

definition demo_memory :: "timer_entry nodes" where
  "demo_memory = (\<lambda>_. node_new \<lparr>te_expiry = 0, te_task = None, te_state = Unregistered\<rparr>)"

lemmas demo_timer_defs = demo_timer_def demo_memory_def timer_new_def wait_until_def wait_poll_def set_entry_at_def at_node_def node_new_def
  heap_new_def heap_insert_def meld_def safe_lesser_def add_child_def

lemma demo_timer_simps:
  "tm_now (demo_timer demo_memory) = 0" "tm_woken (demo_timer demo_memory) = []"
  "entry_at (demo_timer demo_memory) a =
    (if a = 1 then \<lparr>te_expiry = 5, te_task = Some 10, te_state = Registered\<rparr>
     else if a = 2 then \<lparr>te_expiry = 3, te_task = Some 20, te_state = Registered\<rparr>
     else \<lparr>te_expiry = 0, te_task = None, te_state = Unregistered\<rparr>)"
  by (simp_all add: demo_timer_defs)

lemma demo_timer_run: "timer_step\<^sup>*\<^sup>* (timer_new 0 demo_memory) (demo_timer demo_memory)"
proof -
  let ?t1 = "wait_until 1 5 (timer_new 0 demo_memory)"
  let ?t2 = "snd (wait_poll 1 10 ?t1)"
  let ?t3 = "wait_until 2 3 ?t2"
  have s1: "timer_step (timer_new 0 demo_memory) ?t1"
    by (rule timer_step_wait) (simp add: demo_timer_defs)
  have s2: "timer_step ?t1 ?t2"
    by (rule timer_step_poll [of 1 10 _ False]) (simp add: demo_timer_defs)
  have s3: "timer_step ?t2 ?t3"
    by (rule timer_step_wait) (simp add: demo_timer_defs)
  have s4: "timer_step ?t3 (demo_timer demo_memory)"
    by (rule timer_step_poll [of 2 20 _ False]) (simp add: demo_timer_defs)
  show ?thesis
    by (rule rtranclp.rtrancl_into_rtrancl [OF rtranclp.rtrancl_into_rtrancl [OF rtranclp.rtrancl_into_rtrancl
          [OF r_into_rtranclp [of timer_step, OF s1] s2] s3] s4])
qed

theorem timers_fire_witness:
  "timer_step\<^sup>*\<^sup>* (timer_new 0 demo_memory) (demo_timer demo_memory)
    \<and> (\<exists>t'. timer_advance_clock 5 (demo_timer demo_memory) = Some t' \<and> tm_woken t' = [20, 10])"
proof -
  let ?t = "demo_timer demo_memory"
  have mem: "\<forall>x. \<exists>e. demo_memory x = node_new e \<and> te_state e \<noteq> Registered"
    by (auto simp: demo_memory_def)
  obtain t' xs where x: "timer_advance_clock 5 ?t = Some t'" "distinct xs" "set xs = {a. te_state (entry_at ?t a) = Registered \<and> te_expiry (entry_at ?t a) \<le> 5}"
    "sorted (map (\<lambda>a. te_expiry (entry_at ?t a)) xs)" "map Some (tm_woken t') = map Some (tm_woken ?t) @ map (\<lambda>a. te_task (entry_at ?t a)) xs"
    using timers_fire [OF mem demo_timer_run, of 5] by (auto simp: demo_timer_simps(1))
  have "set xs = {1, 2}"
    unfolding x(3) by (auto simp: demo_timer_simps)
  moreover have "length xs = card (set xs)"
    using x(2) by (simp add: distinct_card)
  ultimately obtain a b where ab: "xs = [a, b]" "{a, b} = {1, 2}"
    by (auto simp: length_Suc_conv eval_nat_numeral)
  then have "xs = [2, 1]"
    using x(4) by (auto simp: demo_timer_simps doubleton_eq_iff)
  then have "map Some (tm_woken t') = [Some 20, Some 10]"
    using x(5) by (simp add: demo_timer_simps)
  then have "tm_woken t' = [20, 10]"
    by auto
  then show ?thesis
    using x(1) demo_timer_run by blast
qed

end
