(* ===== verification/Linked_List.thy ===== *)
theory Linked_List
  imports Prelude
begin

text \<open>
  The intrusive lists (\<^verbatim>\<open>collections/intrusive/double_linked_list.rs\<close>, \<^verbatim>\<open>collections/intrusive/intrusive_queue.rs\<close>): nodes at addresses of a
  store, linked in both directions, and a singly linked queue. A loop over the links may run forever in an arbitrary
  store (\<open>None\<close>).
\<close>

section \<open>Doubly linked lists\<close>

record 'a list_node =
  ln_prev :: "nat option"
  ln_next :: "nat option"
  ln_data :: 'a

record 'a linked_list =
  ll_head :: "nat option"
  ll_tail :: "nat option"
  ll_nodes :: "nat \<Rightarrow> 'a list_node"

definition list_node_new :: "'a \<Rightarrow> 'a list_node" where
  "list_node_new d = \<lparr>ln_prev = None, ln_next = None, ln_data = d\<rparr>"

definition on_node :: "nat \<Rightarrow> ('a list_node \<Rightarrow> 'a list_node) \<Rightarrow> 'a linked_list \<Rightarrow> 'a linked_list" where
  "on_node x f l = l\<lparr>ll_nodes := (ll_nodes l)(x := f (ll_nodes l x))\<rparr>"

definition ll_new :: "(nat \<Rightarrow> 'a list_node) \<Rightarrow> 'a linked_list" where
  "ll_new st = \<lparr>ll_head = None, ll_tail = None, ll_nodes = st\<rparr>"

definition add_front :: "nat \<Rightarrow> 'a linked_list \<Rightarrow> 'a linked_list" where
  "add_front node l =
     (let l = on_node node (\<lambda>n. n\<lparr>ln_next := ll_head l, ln_prev := None\<rparr>) l;
          l = (case ll_head l of Some head \<Rightarrow> on_node head (ln_prev_update (\<lambda>_. Some node)) l | None \<Rightarrow> l);
          l = l\<lparr>ll_head := Some node\<rparr>
      in if ll_tail l = None then l\<lparr>ll_tail := Some node\<rparr> else l)"

definition peek_first :: "'a linked_list \<Rightarrow> nat option" where
  "peek_first l = ll_head l"

definition peek_last :: "'a linked_list \<Rightarrow> nat option" where
  "peek_last l = ll_tail l"

definition remove_first :: "'a linked_list \<Rightarrow> nat option \<times> 'a linked_list" where
  "remove_first l =
     (case ll_head l of
        None \<Rightarrow> (None, l)
      | Some head \<Rightarrow>
          let next = ln_next (ll_nodes l head);
              l = l\<lparr>ll_head := next\<rparr>;
              l = (case next of None \<Rightarrow> l\<lparr>ll_tail := None\<rparr> | Some n \<Rightarrow> on_node n (ln_prev_update (\<lambda>_. None)) l)
          in (Some head, on_node head (\<lambda>n. n\<lparr>ln_prev := None, ln_next := None\<rparr>) l))"

definition remove_last :: "'a linked_list \<Rightarrow> nat option \<times> 'a linked_list" where
  "remove_last l =
     (case ll_tail l of
        None \<Rightarrow> (None, l)
      | Some tail \<Rightarrow>
          let prev = ln_prev (ll_nodes l tail);
              l = l\<lparr>ll_tail := prev\<rparr>;
              l = (case prev of None \<Rightarrow> l\<lparr>ll_head := None\<rparr> | Some p \<Rightarrow> on_node p (ln_next_update (\<lambda>_. None)) l)
          in (Some tail, on_node tail (\<lambda>n. n\<lparr>ln_prev := None, ln_next := None\<rparr>) l))"

definition ll_is_empty :: "'a linked_list \<Rightarrow> bool" where
  "ll_is_empty l \<longleftrightarrow> ll_head l = None"

text \<open>The second half of a removal, once the predecessor is relinked.\<close>

definition unlink_next :: "nat \<Rightarrow> 'a linked_list \<Rightarrow> 'a linked_list" where
  "unlink_next node l =
     (let n = ll_nodes l node;
          l = (case ln_next n of
                 None \<Rightarrow> l\<lparr>ll_tail := ln_prev n\<rparr>
               | Some next \<Rightarrow> on_node next (ln_prev_update (\<lambda>_. ln_prev n)) l)
      in on_node node (\<lambda>n. n\<lparr>ln_next := None, ln_prev := None\<rparr>) l)"

definition ll_remove :: "nat \<Rightarrow> 'a linked_list \<Rightarrow> bool \<times> 'a linked_list" where
  "ll_remove node l =
     (let n = ll_nodes l node
      in case ln_prev n of
           None \<Rightarrow> if ll_head l \<noteq> Some node then (False, l) else (True, unlink_next node (l\<lparr>ll_head := ln_next n\<rparr>))
         | Some prev \<Rightarrow> (True, unlink_next node (on_node prev (ln_next_update (\<lambda>_. ln_next n)) l)))"

text \<open>The loop of the two drains: \<open>link\<close> leads to the next node, and the callback may change the data of a node and the world.\<close>

partial_function (option) drain_from ::
  "('a list_node \<Rightarrow> nat option) \<Rightarrow> ('a \<times> 'w \<Rightarrow> 'a \<times> 'w) \<Rightarrow> nat option \<Rightarrow> 'a linked_list \<Rightarrow> 'w \<Rightarrow> ('a linked_list \<times> 'w) option" where
  "drain_from link f current l w =
     (case current of
        None \<Rightarrow> Some (l, w)
      | Some node \<Rightarrow>
          (case f (ln_data (ll_nodes l node), w) of (d, w') \<Rightarrow>
             drain_from link f (link (ll_nodes l node)) (on_node node (\<lambda>n. n\<lparr>ln_next := None, ln_prev := None, ln_data := d\<rparr>) l) w'))"

definition ll_drain :: "('a \<times> 'w \<Rightarrow> 'a \<times> 'w) \<Rightarrow> 'a linked_list \<Rightarrow> 'w \<Rightarrow> ('a linked_list \<times> 'w) option" where
  "ll_drain f l w = drain_from ln_next f (ll_head l) (l\<lparr>ll_head := None, ll_tail := None\<rparr>) w"

definition reverse_drain :: "('a \<times> 'w \<Rightarrow> 'a \<times> 'w) \<Rightarrow> 'a linked_list \<Rightarrow> 'w \<Rightarrow> ('a linked_list \<times> 'w) option" where
  "reverse_drain f l w = drain_from ln_prev f (ll_tail l) (l\<lparr>ll_head := None, ll_tail := None\<rparr>) w"

section \<open>Singly linked queues\<close>

text \<open>The links are fields of the elements, reached through the \<^verbatim>\<open>IntrusivelyQueueable\<close> trait: a store of next pointers. Popping from a
  queue whose front and back do not agree is a panic (\<open>None\<close>).\<close>

record intrusive_queue =
  iq_front :: "nat option"
  iq_back :: "nat option"
  iq_len :: nat
  iq_next :: "nat \<Rightarrow> nat option"

definition iq_new :: "(nat \<Rightarrow> nat option) \<Rightarrow> intrusive_queue" where
  "iq_new st = \<lparr>iq_front = None, iq_back = None, iq_len = 0, iq_next = st\<rparr>"

definition iq_is_empty :: "intrusive_queue \<Rightarrow> bool" where
  "iq_is_empty q \<longleftrightarrow> iq_front q = None"

definition pop_element :: "intrusive_queue \<Rightarrow> nat option \<times> intrusive_queue" where
  "pop_element q =
     (case iq_front q of
        None \<Rightarrow> (None, q)
      | Some popped \<Rightarrow>
          let q = q\<lparr>iq_front := iq_next q popped\<rparr>;
              q = (if iq_front q = None then q\<lparr>iq_back := None\<rparr> else q)
          in (Some popped, q\<lparr>iq_next := (iq_next q)(popped := None), iq_len := iq_len q - 1\<rparr>))"

definition push_element :: "nat \<Rightarrow> intrusive_queue \<Rightarrow> intrusive_queue option" where
  "push_element added q =
     (let q = q\<lparr>iq_next := (iq_next q)(added := None)\<rparr>
      in map_option (\<lambda>q. q\<lparr>iq_back := Some added, iq_len := iq_len q + 1\<rparr>)
           (if iq_front q = None then Some (q\<lparr>iq_front := Some added\<rparr>)
            else map_option (\<lambda>old_back. q\<lparr>iq_next := (iq_next q)(old_back := Some added)\<rparr>) (iq_back q)))"

text \<open>Dropping a queue pops all elements.\<close>

partial_function (option) iq_drop :: "intrusive_queue \<Rightarrow> intrusive_queue option" where
  "iq_drop q = (case pop_element q of (None, q) \<Rightarrow> Some q | (Some _, q) \<Rightarrow> iq_drop q)"

end
