(* ===== verification/Watched.thy ===== *)
theory Watched
  imports Linked_List
begin

text \<open>
  Watched values (\<^verbatim>\<open>runtime/watched.rs\<close>): a value and the list of futures that wait for its next change. A future contains its node of
  the list and is known by the address of the node. Wakers are the tasks they wake, and wake-ups are logged.
\<close>

datatype watch_state = WatchUnregistered | WatchRegistered | WatchCompleted bool

record watch_entry =
  we_task :: "nat option"
  we_state :: watch_state

record 't watched =
  wv_value :: 't
  wv_waiters :: "watch_entry linked_list"
  wv_woken :: "nat list"

datatype watch_future = Completable nat | WatchPending

definition watched_new :: "'t \<Rightarrow> (nat \<Rightarrow> watch_entry list_node) \<Rightarrow> 't watched" where
  "watched_new x st = \<lparr>wv_value = x, wv_waiters = ll_new st, wv_woken = []\<rparr>"

definition set_without_notify :: "'t \<Rightarrow> 't watched \<Rightarrow> 't watched" where
  "set_without_notify x v = v\<lparr>wv_value := x\<rparr>"

definition notify_waiter :: "watch_entry \<times> nat list \<Rightarrow> watch_entry \<times> nat list" where
  "notify_waiter = (\<lambda>(e, woken).
     (e\<lparr>we_task := None, we_state := WatchCompleted False\<rparr>, case we_task e of Some w \<Rightarrow> woken @ [w] | None \<Rightarrow> woken))"

definition modify :: "('t \<Rightarrow> 't) \<Rightarrow> 't watched \<Rightarrow> 't watched option" where
  "modify f v =
     map_option (\<lambda>(l, woken). v\<lparr>wv_value := f (wv_value v), wv_waiters := l, wv_woken := woken\<rparr>)
       (reverse_drain notify_waiter (wv_waiters v) (wv_woken v))"

definition watched_set :: "'t \<Rightarrow> 't watched \<Rightarrow> 't watched option" where
  "watched_set x v = modify (\<lambda>_. x) v"

definition watched_get :: "'t watched \<Rightarrow> 't" where
  "watched_get v = wv_value v"

text \<open>A new future, in memory at \<open>a\<close>.\<close>

definition watch :: "nat \<Rightarrow> 't watched \<Rightarrow> ('t \<times> watch_future) \<times> 't watched" where
  "watch a v =
     ((watched_get v, Completable a),
      v\<lparr>wv_waiters := on_node a (\<lambda>_. list_node_new \<lparr>we_task = None, we_state = WatchUnregistered\<rparr>) (wv_waiters v)\<rparr>)"

abbreviation watch_entry_at :: "'t watched \<Rightarrow> nat \<Rightarrow> watch_entry" where
  "watch_entry_at v a \<equiv> ln_data (ll_nodes (wv_waiters v) a)"

definition set_watch_entry :: "nat \<Rightarrow> (watch_entry \<Rightarrow> watch_entry) \<Rightarrow> 't watched \<Rightarrow> 't watched" where
  "set_watch_entry a f v = v\<lparr>wv_waiters := on_node a (ln_data_update f) (wv_waiters v)\<rparr>"

text \<open>One poll by a task: whether the future is ready.\<close>

fun watch_poll :: "watch_future \<Rightarrow> nat \<Rightarrow> 't watched \<Rightarrow> bool \<times> 't watched" where
  "watch_poll WatchPending task v = (False, v)"
| "watch_poll (Completable a) task v =
     (case we_state (watch_entry_at v a) of
        WatchUnregistered \<Rightarrow>
          let v = set_watch_entry a (\<lambda>e. e\<lparr>we_task := Some task, we_state := WatchRegistered\<rparr>) v
          in (False, v\<lparr>wv_waiters := add_front a (wv_waiters v)\<rparr>)
      | WatchRegistered \<Rightarrow>
          (False, if we_task (watch_entry_at v a) = Some task then v else set_watch_entry a (we_task_update (\<lambda>_. Some task)) v)
      | WatchCompleted _ \<Rightarrow> (True, set_watch_entry a (we_state_update (\<lambda>_. WatchCompleted True)) v))"

fun is_terminated :: "watch_future \<Rightarrow> 't watched \<Rightarrow> bool" where
  "is_terminated WatchPending v \<longleftrightarrow> False"
| "is_terminated (Completable a) v \<longleftrightarrow> we_state (watch_entry_at v a) = WatchCompleted True"

text \<open>\<open>None\<close>: the future could not be removed from the wait queue.\<close>

fun watch_drop :: "watch_future \<Rightarrow> 't watched \<Rightarrow> 't watched option" where
  "watch_drop WatchPending v = Some v"
| "watch_drop (Completable a) v =
     (if we_state (watch_entry_at v a) = WatchRegistered
      then (case ll_remove a (wv_waiters v) of
              (True, l) \<Rightarrow> Some (set_watch_entry a (we_state_update (\<lambda>_. WatchUnregistered)) (v\<lparr>wv_waiters := l\<rparr>))
            | (False, _) \<Rightarrow> None)
      else Some v)"

end
