(* ===== verification/Cubic.thy ===== *)
theory Cubic
  imports Watched SeqNumber "HOL-Library.Monad_Syntax"
begin

text \<open>
  CUBIC congestion control (\<^verbatim>\<open>tcp/established/congestion_control\<close>: \<^verbatim>\<open>options.rs\<close>, \<^verbatim>\<open>cubic.rs\<close>), over watched values. The arithmetic of
  \<^verbatim>\<open>f32\<close> is exact arithmetic with a rounding after each operation; the rounding and the cube root are a parameter. \<^verbatim>\<open>Instant::now()\<close> is an
  argument. \<open>None\<close> is a panic.
\<close>

section \<open>Options\<close>

datatype option_value = BoolValue bool | FloatValue rat | IntValue "64 word" | StringValue string

type_synonym cc_options = "string \<Rightarrow> option_value option"

definition no_options :: cc_options where
  "no_options = (\<lambda>_. None)"

fun as_bool :: "option_value \<Rightarrow> bool option" where
  "as_bool (BoolValue b) = Some b" | "as_bool _ = None"

fun as_float :: "option_value \<Rightarrow> rat option" where
  "as_float (FloatValue x) = Some x" | "as_float _ = None"

fun as_int :: "option_value \<Rightarrow> 64 word option" where
  "as_int (IntValue i) = Some i" | "as_int _ = None"

fun as_string :: "option_value \<Rightarrow> string option" where
  "as_string (StringValue s) = Some s" | "as_string _ = None"

text \<open>A value of another type is a panic.\<close>

definition get_option :: "(option_value \<Rightarrow> 'a option) \<Rightarrow> cc_options \<Rightarrow> string \<Rightarrow> 'a option option" where
  "get_option read opts key = (case opts key of None \<Rightarrow> Some None | Some v \<Rightarrow> map_option Some (read v))"

definition get_bool :: "cc_options \<Rightarrow> string \<Rightarrow> bool option option" where
  "get_bool = get_option as_bool"

definition get_float :: "cc_options \<Rightarrow> string \<Rightarrow> rat option option" where
  "get_float = get_option as_float"

definition get_int :: "cc_options \<Rightarrow> string \<Rightarrow> 64 word option option" where
  "get_int = get_option as_int"

definition get_string :: "cc_options \<Rightarrow> string \<Rightarrow> string option option" where
  "get_string = get_option as_string"

definition insert_bool :: "string \<Rightarrow> bool \<Rightarrow> cc_options \<Rightarrow> cc_options" where
  "insert_bool key b opts = opts(key \<mapsto> BoolValue b)"

definition insert_float :: "string \<Rightarrow> rat \<Rightarrow> cc_options \<Rightarrow> cc_options" where
  "insert_float key x opts = opts(key \<mapsto> FloatValue x)"

definition insert_int :: "string \<Rightarrow> 64 word \<Rightarrow> cc_options \<Rightarrow> cc_options" where
  "insert_int key i opts = opts(key \<mapsto> IntValue i)"

definition insert_string :: "string \<Rightarrow> string \<Rightarrow> cc_options \<Rightarrow> cc_options" where
  "insert_string key s opts = opts(key \<mapsto> StringValue s)"

section \<open>Single-precision arithmetic\<close>

record f32_arith =
  f_round :: "rat \<Rightarrow> rat"
  f_cbrt :: "rat \<Rightarrow> rat"

definition f_of_u32 :: "f32_arith \<Rightarrow> u32 \<Rightarrow> rat" where
  "f_of_u32 F w = f_round F (of_nat (unat w))"

text \<open>The cast to \<^verbatim>\<open>u32\<close> truncates and saturates.\<close>

definition f_to_u32 :: "rat \<Rightarrow> u32" where
  "f_to_u32 x = (if x < 0 then 0 else if 2 ^ 32 \<le> x then - 1 else of_int \<lfloor>x\<rfloor>)"

definition as_secs_f32 :: "f32_arith \<Rightarrow> duration \<Rightarrow> rat" where
  "as_secs_f32 F d =
     (let r = f_round F; nanos = \<lfloor>(d - of_int \<lfloor>d\<rfloor>) * 10 ^ 9\<rfloor>
      in r (r (of_int \<lfloor>d\<rfloor>) + r (r (of_int nanos) / 10 ^ 9)))"

section \<open>State\<close>

record cubic =
  cu_mss :: u32
  cu_ca_start :: instant
  cu_cwnd :: "u32 watched"
  cu_fast_convergence :: bool
  cu_initial_cwnd :: u32
  cu_last_send_time :: instant
  cu_last_congestion_was_rto :: bool
  cu_retransmitted_in_flight :: u32
  cu_rtt_at_last_send :: duration
  cu_ssthresh :: u32
  cu_w_max :: u32
  cu_duplicate_ack_count :: u32
  cu_fast_retransmit_now :: "bool watched"
  cu_in_fast_recovery :: bool
  cu_prev_ack_seq_no :: seq
  cu_recover :: seq
  cu_limited_transmit :: "u32 watched"

text \<open>The three stores are the memory in which futures that watch the three values will be placed.\<close>

definition cubic_new ::
  "instant \<Rightarrow> (nat \<Rightarrow> watch_entry list_node) \<Rightarrow> nat \<Rightarrow> seq \<Rightarrow> cc_options option \<Rightarrow> cubic option" where
  "cubic_new now st mss_arg seq_no opts =
     do {
       mss \<leftarrow> (if mss_arg < 2 ^ 32 then Some (of_nat mss_arg :: u32) else None);
       let initial_cwnd = (if mss \<le> 1095 then 4 * mss else if mss \<le> 2190 then 3 * mss else 2 * mss);
       fast_convergence \<leftarrow> get_bool (case opts of None \<Rightarrow> no_options | Some os \<Rightarrow> os) ''fast_convergence'';
       Some \<lparr>cu_mss = mss, cu_ca_start = now, cu_cwnd = watched_new initial_cwnd st,
         cu_fast_convergence = (case fast_convergence of None \<Rightarrow> True | Some b \<Rightarrow> b),
         cu_initial_cwnd = initial_cwnd, cu_last_send_time = now, cu_last_congestion_was_rto = False,
         cu_retransmitted_in_flight = 0, cu_rtt_at_last_send = 1, cu_ssthresh = - 1, cu_w_max = 0,
         cu_duplicate_ack_count = 0, cu_fast_retransmit_now = watched_new False st, cu_in_fast_recovery = False,
         cu_prev_ack_seq_no = seq_no, cu_recover = seq_no, cu_limited_transmit = watched_new 0 st\<rparr>
     }"

definition BETA_CUBIC :: "f32_arith \<Rightarrow> rat" where "BETA_CUBIC F = f_round F (7 / 10)"
definition CUBIC_C :: "f32_arith \<Rightarrow> rat" where "CUBIC_C F = f_round F (4 / 10)"
definition DUP_ACK_THRESHOLD :: u32 where "DUP_ACK_THRESHOLD = 3"

definition set_cwnd :: "(u32 \<Rightarrow> u32) \<Rightarrow> cubic \<Rightarrow> cubic option" where
  "set_cwnd f c = map_option (\<lambda>v. c\<lparr>cu_cwnd := v\<rparr>) (modify f (cu_cwnd c))"

definition set_retransmit_now :: "cubic \<Rightarrow> cubic option" where
  "set_retransmit_now c = map_option (\<lambda>v. c\<lparr>cu_fast_retransmit_now := v\<rparr>) (watched_set True (cu_fast_retransmit_now c))"

abbreviation cwnd_of :: "cubic \<Rightarrow> u32" where
  "cwnd_of c \<equiv> watched_get (cu_cwnd c)"

section \<open>Fast convergence, duplicate acknowledgements\<close>

definition reduced_by_beta :: "f32_arith \<Rightarrow> u32 \<Rightarrow> u32" where
  "reduced_by_beta F cwnd = f_to_u32 (f_round F (f_of_u32 F cwnd * BETA_CUBIC F))"

definition fast_convergence :: "f32_arith \<Rightarrow> cubic \<Rightarrow> cubic option" where
  "fast_convergence F c =
     (let cwnd = cwnd_of c; r = f_round F
      in if cu_mss c = 0 then None
         else if cwnd div cu_mss c < cu_w_max c div cu_mss c
         then Some (c\<lparr>cu_w_max := f_to_u32 (r (r (f_of_u32 F cwnd * r (1 + BETA_CUBIC F)) / 2))\<rparr>)
         else Some (c\<lparr>cu_w_max := cwnd\<rparr>))"

definition set_w_max :: "f32_arith \<Rightarrow> cubic \<Rightarrow> cubic option" where
  "set_w_max F c = (if cu_fast_convergence c then fast_convergence F c else Some (c\<lparr>cu_w_max := cwnd_of c\<rparr>))"

definition increment_dup_ack_count :: "cubic \<Rightarrow> (u32 \<times> cubic) option" where
  "increment_dup_ack_count c =
     (let n = cu_duplicate_ack_count c + 1; c = c\<lparr>cu_duplicate_ack_count := n\<rparr>
      in if n < DUP_ACK_THRESHOLD
         then map_option (\<lambda>v. (n, c\<lparr>cu_limited_transmit := v\<rparr>)) (modify (\<lambda>ltci. ltci + cu_mss c) (cu_limited_transmit c))
         else Some (n, c))"

definition on_dup_ack_received :: "f32_arith \<Rightarrow> seq \<Rightarrow> seq \<Rightarrow> cubic \<Rightarrow> cubic option" where
  "on_dup_ack_received F send_next ack_seq_no c =
     do {
       (n, c) \<leftarrow> increment_dup_ack_count c;
       let ack_seq_no_diff = seq_sub ack_seq_no (cu_prev_ack_seq_no c);
       let cwnd = cwnd_of c;
       let ack_covers_recover = seq_gt (seq_sub ack_seq_no 1) (cu_recover c);
       let heuristic = (cu_mss c < cwnd \<and> ack_seq_no_diff \<le> 4 * cu_mss c);
       if n = DUP_ACK_THRESHOLD \<and> (ack_covers_recover \<or> heuristic)
       then do {
         let c = c\<lparr>cu_in_fast_recovery := True, cu_recover := send_next\<rparr>;
         let reduced_cwnd = reduced_by_beta F cwnd;
         c \<leftarrow> set_w_max F c;
         let c = c\<lparr>cu_ssthresh := max reduced_cwnd (2 * cu_mss c)\<rparr>;
         c \<leftarrow> set_cwnd (\<lambda>_. reduced_cwnd) c;
         set_retransmit_now c
       }
       else if DUP_ACK_THRESHOLD < n \<or> cu_in_fast_recovery c
       then set_cwnd (\<lambda>w. w + cu_mss c) c
       else Some c
     }"

definition on_ack_received_fast_recovery :: "instant \<Rightarrow> seq \<Rightarrow> seq \<Rightarrow> seq \<Rightarrow> cubic \<Rightarrow> cubic option" where
  "on_ack_received_fast_recovery now send_unacked send_next ack_seq_no c =
     (let bytes_outstanding = seq_sub send_next send_unacked;
          bytes_acknowledged = seq_sub ack_seq_no send_unacked;
          mss = cu_mss c
      in if seq_gt ack_seq_no (cu_recover c)
         then do {
           c \<leftarrow> set_cwnd (\<lambda>_. min (cu_ssthresh c) (max bytes_outstanding mss + mss)) c;
           Some (c\<lparr>cu_ca_start := now, cu_last_congestion_was_rto := False, cu_in_fast_recovery := False\<rparr>)
         }
         else do {
           c \<leftarrow> set_retransmit_now c;
           if mss \<le> bytes_acknowledged then set_cwnd (\<lambda>w. w - bytes_acknowledged + mss) c
           else set_cwnd (\<lambda>w. w - bytes_acknowledged) c
         })"

section \<open>Slow start and congestion avoidance\<close>

definition cubic_k :: "f32_arith \<Rightarrow> cubic \<Rightarrow> rat \<Rightarrow> rat" where
  "cubic_k F c w_max =
     (let r = f_round F
      in if cu_last_congestion_was_rto c then 0
         else f_cbrt F (r (r (w_max * r (1 - BETA_CUBIC F)) / CUBIC_C F)))"

definition w_cubic :: "f32_arith \<Rightarrow> rat \<Rightarrow> rat \<Rightarrow> rat \<Rightarrow> rat" where
  "w_cubic F w_max t k =
     (let r = f_round F; d = r (t - k)
      in r (r (CUBIC_C F * r (r (d * d) * d)) + w_max))"

text \<open>The round-trip time is the retransmission timeout, which is never below 100 ms (\<open>Rto\<close>), so that the divisor is not zero; the
  infinity of \<^verbatim>\<open>f32\<close> does not occur.\<close>

definition w_est :: "f32_arith \<Rightarrow> rat \<Rightarrow> rat \<Rightarrow> rat \<Rightarrow> rat" where
  "w_est F w_max t rtt =
     (let r = f_round F; bc = BETA_CUBIC F
      in r (r (w_max * bc) + r (r (r (r (3 * r (1 - bc)) / r (1 + bc)) * t) / rtt)))"

definition on_ack_received_ss_ca :: "f32_arith \<Rightarrow> instant \<Rightarrow> duration \<Rightarrow> seq \<Rightarrow> seq \<Rightarrow> cubic \<Rightarrow> cubic option" where
  "on_ack_received_ss_ca F now rto send_unacked ack_seq_no c =
     (let bytes_acknowledged = seq_sub ack_seq_no send_unacked;
          mss = cu_mss c; cwnd = cwnd_of c; r = f_round F
      in if cwnd < cu_ssthresh c
         then set_cwnd (\<lambda>w. w + min bytes_acknowledged mss) c
         else
           let t = as_secs_f32 F (max 0 (now - cu_ca_start c));
               rtt = as_secs_f32 F rto;
               mss_f32 = f_of_u32 F mss;
               normalised_w_max = r (f_of_u32 F (cu_w_max c) / mss_f32);
               k = cubic_k F c normalised_w_max;
               west = w_est F normalised_w_max t rtt
           in if w_cubic F normalised_w_max t k < west
              then set_cwnd (\<lambda>_. f_to_u32 (r (west * mss_f32))) c
              else
                let normalised_cwnd = r (f_of_u32 F cwnd / mss_f32);
                    cwnd_inc = r (r (r (w_cubic F normalised_w_max (r (t + rtt)) k - normalised_cwnd) / normalised_cwnd) * mss_f32)
                in set_cwnd (\<lambda>w. w + f_to_u32 cwnd_inc) c)"

definition on_rto_ss_ca :: "f32_arith \<Rightarrow> cubic \<Rightarrow> cubic option" where
  "on_rto_ss_ca F c =
     do {
       let cwnd = cwnd_of c;
       c \<leftarrow> set_w_max F c;
       c \<leftarrow> set_cwnd (\<lambda>_. cu_mss c) c;
       let rpif = cu_retransmitted_in_flight c;
       let c = (if rpif = 0 then c\<lparr>cu_ssthresh := max (reduced_by_beta F cwnd) (2 * cu_mss c)\<rparr> else c);
       Some (c\<lparr>cu_retransmitted_in_flight := rpif + 1, cu_last_congestion_was_rto := True\<rparr>)
     }"

definition on_rto_fast_recovery :: "seq \<Rightarrow> cubic \<Rightarrow> cubic" where
  "on_rto_fast_recovery send_unacked c = c\<lparr>cu_recover := send_unacked, cu_in_fast_recovery := False\<rparr>"

section \<open>The interface of congestion control\<close>

definition cubic_get_cwnd :: "cubic \<Rightarrow> u32" where
  "cubic_get_cwnd c = cwnd_of c"

definition cubic_watch_cwnd :: "nat \<Rightarrow> cubic \<Rightarrow> (u32 \<times> watch_future) \<times> cubic" where
  "cubic_watch_cwnd a c = (case watch a (cu_cwnd c) of (r, v) \<Rightarrow> (r, c\<lparr>cu_cwnd := v\<rparr>))"

definition saturating_sub :: "u32 \<Rightarrow> u32 \<Rightarrow> u32" where
  "saturating_sub a b = (if a \<le> b then 0 else a - b)"

definition on_cwnd_check_before_send :: "instant \<Rightarrow> cubic \<Rightarrow> cubic option" where
  "on_cwnd_check_before_send now c =
     (if cu_rtt_at_last_send c < max 0 (now - cu_last_send_time c)
      then do {
        c \<leftarrow> set_cwnd (\<lambda>_. min (cu_initial_cwnd c) (cwnd_of c)) c;
        Some (c\<lparr>cu_limited_transmit := set_without_notify 0 (cu_limited_transmit c)\<rparr>)
      }
      else Some c)"

definition on_send :: "instant \<Rightarrow> duration \<Rightarrow> u32 \<Rightarrow> cubic \<Rightarrow> cubic" where
  "on_send now rto num_bytes_sent c =
     c\<lparr>cu_last_send_time := now, cu_rtt_at_last_send := rto,
       cu_limited_transmit :=
         set_without_notify (saturating_sub (watched_get (cu_limited_transmit c)) num_bytes_sent) (cu_limited_transmit c)\<rparr>"

definition on_ack_received :: "f32_arith \<Rightarrow> instant \<Rightarrow> duration \<Rightarrow> seq \<Rightarrow> seq \<Rightarrow> seq \<Rightarrow> cubic \<Rightarrow> cubic option" where
  "on_ack_received F now rto send_unacked send_next ack_seq_no c =
     (if seq_sub ack_seq_no send_unacked = 0
      then do {
        c \<leftarrow> on_dup_ack_received F send_next ack_seq_no c;
        Some (c\<lparr>cu_retransmitted_in_flight := saturating_sub (cu_retransmitted_in_flight c) 1\<rparr>)
      }
      else do {
        let c = c\<lparr>cu_duplicate_ack_count := 0\<rparr>;
        c \<leftarrow> (if cu_in_fast_recovery c then on_ack_received_fast_recovery now send_unacked send_next ack_seq_no c
              else on_ack_received_ss_ca F now rto send_unacked ack_seq_no c);
        Some (c\<lparr>cu_prev_ack_seq_no := ack_seq_no\<rparr>)
      })"

definition on_rto :: "f32_arith \<Rightarrow> seq \<Rightarrow> cubic \<Rightarrow> cubic option" where
  "on_rto F send_unacked c = map_option (on_rto_fast_recovery send_unacked) (on_rto_ss_ca F c)"

definition get_duplicate_ack_count :: "cubic \<Rightarrow> u32" where
  "get_duplicate_ack_count c = cu_duplicate_ack_count c"

definition get_retransmit_now_flag :: "cubic \<Rightarrow> bool" where
  "get_retransmit_now_flag c = watched_get (cu_fast_retransmit_now c)"

definition watch_retransmit_now_flag :: "nat \<Rightarrow> cubic \<Rightarrow> (bool \<times> watch_future) \<times> cubic" where
  "watch_retransmit_now_flag a c = (case watch a (cu_fast_retransmit_now c) of (r, v) \<Rightarrow> (r, c\<lparr>cu_fast_retransmit_now := v\<rparr>))"

definition on_fast_retransmit :: "cubic \<Rightarrow> cubic" where
  "on_fast_retransmit c = c\<lparr>cu_fast_retransmit_now := set_without_notify False (cu_fast_retransmit_now c)\<rparr>"

definition get_limited_transmit_cwnd_increase :: "cubic \<Rightarrow> u32" where
  "get_limited_transmit_cwnd_increase c = watched_get (cu_limited_transmit c)"

definition watch_limited_transmit_cwnd_increase :: "nat \<Rightarrow> cubic \<Rightarrow> (u32 \<times> watch_future) \<times> cubic" where
  "watch_limited_transmit_cwnd_increase a c = (case watch a (cu_limited_transmit c) of (r, v) \<Rightarrow> (r, c\<lparr>cu_limited_transmit := v\<rparr>))"

end
