(* ===== verification/List_Links.thy ===== *)
theory List_Links
  imports Linked_List
begin

text \<open>
  What the intrusive lists hold: a doubly linked list represents the sequence of addresses that its links visit, in both directions, and
  every operation acts on the sequence. The queue represents its elements front first.
\<close>

section \<open>Chains of nodes\<close>

fun dlinks :: "(nat \<Rightarrow> 'a list_node) \<Rightarrow> nat option \<Rightarrow> nat list \<Rightarrow> nat option \<Rightarrow> bool" where
  "dlinks st p [] q \<longleftrightarrow> True"
| "dlinks st p (x # xs) q \<longleftrightarrow>
     ln_prev (st x) = p \<and> ln_next (st x) = (case xs of [] \<Rightarrow> q | y # _ \<Rightarrow> Some y) \<and> dlinks st (Some x) xs q"

definition first_of :: "nat list \<Rightarrow> nat option" where
  "first_of xs = (case xs of [] \<Rightarrow> None | x # _ \<Rightarrow> Some x)"

definition last_of :: "nat list \<Rightarrow> nat option" where
  "last_of xs = (if xs = [] then None else Some (last xs))"

definition list_rep :: "'a linked_list \<Rightarrow> nat list \<Rightarrow> bool" where
  "list_rep l xs \<longleftrightarrow>
     distinct xs \<and> ll_head l = first_of xs \<and> ll_tail l = last_of xs \<and> dlinks (ll_nodes l) None xs None"

definition unlinked :: "'a list_node \<Rightarrow> bool" where
  "unlinked n \<longleftrightarrow> ln_prev n = None \<and> ln_next n = None"

lemma ends_simps [simp]:
  "first_of [] = None" "first_of (x # xs) = Some x"
  "last_of [] = None" "last_of (xs @ [x]) = Some x" "last_of [x] = Some x"
  by (auto simp: first_of_def last_of_def split: list.splits)

lemma ends_append [simp]:
  "first_of (xs @ ys) = (if xs = [] then first_of ys else first_of xs)"
  "last_of (xs @ ys) = (if ys = [] then last_of xs else last_of ys)"
  by (auto simp: first_of_def last_of_def split: list.splits)

lemma ends_None [simp]:
  "first_of xs = None \<longleftrightarrow> xs = []" "last_of xs = None \<longleftrightarrow> xs = []"
  by (auto simp: first_of_def last_of_def split: list.splits)

lemma last_of_Cons: "last_of (x # xs) = (if xs = [] then Some x else last_of xs)"
  by (simp add: last_of_def)

lemma dchain_append [simp]:
  "dlinks st p (xs @ y # ys) q \<longleftrightarrow> dlinks st p xs (Some y) \<and> dlinks st (if xs = [] then p else Some (last xs)) (y # ys) q"
  by (induction xs arbitrary: p) (auto split: list.splits)

lemma chain_frame:
  assumes "\<And>x. x \<in> set xs \<Longrightarrow> ln_prev (st' x) = ln_prev (st x) \<and> ln_next (st' x) = ln_next (st x)"
  shows "dlinks st' p xs q = dlinks st p xs q"
  using assms by (induction xs arbitrary: p) auto

lemma chain_upd [simp]:
  "x \<notin> set xs \<Longrightarrow> dlinks (st(x := n)) p xs q = dlinks st p xs q"
  by (rule chain_frame) auto

lemma on_node_simps [simp]:
  "ll_head (on_node x f l) = ll_head l" "ll_tail (on_node x f l) = ll_tail l"
  "ll_nodes (on_node x f l) = (ll_nodes l)(x := f (ll_nodes l x))"
  by (simp_all add: on_node_def)

section \<open>The operations on sequences\<close>

lemma ll_new_rep: "list_rep (ll_new st) []"
  by (simp add: list_rep_def ll_new_def)

lemma ll_is_empty_rep: "list_rep l xs \<Longrightarrow> ll_is_empty l \<longleftrightarrow> xs = []"
  by (simp add: list_rep_def ll_is_empty_def)

lemma peek_rep: "list_rep l xs \<Longrightarrow> peek_first l = first_of xs \<and> peek_last l = last_of xs"
  by (simp add: list_rep_def peek_first_def peek_last_def)

lemma add_front_rep:
  assumes "list_rep l xs" and "a \<notin> set xs"
  shows "list_rep (add_front a l) (a # xs)"
  using assms by (cases xs) (auto simp: list_rep_def add_front_def last_of_def Let_def split: list.splits)

lemma remove_first_rep:
  assumes "list_rep l xs"
  shows "fst (remove_first l) = first_of xs \<and> list_rep (snd (remove_first l)) (tl xs)"
proof (cases xs)
  case (Cons x ys)
  then show ?thesis using assms
    by (cases ys) (auto simp: list_rep_def remove_first_def last_of_def Let_def split: list.splits)
qed (use assms in \<open>auto simp: list_rep_def remove_first_def\<close>)

lemma remove_last_rep:
  assumes "list_rep l xs"
  shows "fst (remove_last l) = last_of xs \<and> list_rep (snd (remove_last l)) (butlast xs)"
proof (cases xs rule: rev_cases)
  case (snoc ys x)
  then show ?thesis using assms
    by (cases ys rule: rev_cases) (auto simp: list_rep_def remove_last_def Let_def last_of_Cons butlast_append)
qed (use assms in \<open>auto simp: list_rep_def remove_last_def\<close>)

lemma ll_remove_rep:
  assumes "list_rep l (xs @ a # ys)"
  shows "fst (ll_remove a l) \<and> list_rep (snd (ll_remove a l)) (xs @ ys)"
  using assms
  by (cases xs rule: rev_cases; cases ys)
     (auto simp: list_rep_def ll_remove_def unlink_next_def Let_def last_of_Cons)

lemma ll_remove_absent:
  assumes "list_rep l xs" and "a \<notin> set xs" and "unlinked (ll_nodes l a)"
  shows "ll_remove a l = (False, l)"
  using assms by (auto simp: list_rep_def ll_remove_def unlinked_def first_of_def split: list.splits)

lemma ll_data [simp]:
  "ln_data (ll_nodes (add_front a l) x) = ln_data (ll_nodes l x)"
  "ln_data (ll_nodes (snd (ll_remove a l)) x) = ln_data (ll_nodes l x)"
  by (auto simp: add_front_def ll_remove_def unlink_next_def Let_def split: option.splits)

lemma ll_remove_unlinks: "fst (ll_remove a l) \<Longrightarrow> unlinked (ll_nodes (snd (ll_remove a l)) a)"
  by (auto simp: ll_remove_def unlink_next_def unlinked_def Let_def split: option.splits if_splits)

section \<open>Draining\<close>

text \<open>The visit of one node: its links are reset, and the callback sees its data.\<close>

definition visit :: "('a \<times> 'w \<Rightarrow> 'a \<times> 'w) \<Rightarrow> nat \<Rightarrow> 'a linked_list \<times> 'w \<Rightarrow> 'a linked_list \<times> 'w" where
  "visit f x = (\<lambda>(l, w). case f (ln_data (ll_nodes l x), w) of
     (d, w') \<Rightarrow> (on_node x (\<lambda>n. n\<lparr>ln_next := None, ln_prev := None, ln_data := d\<rparr>) l, w'))"

fun linked_by :: "('a list_node \<Rightarrow> nat option) \<Rightarrow> (nat \<Rightarrow> 'a list_node) \<Rightarrow> nat list \<Rightarrow> bool" where
  "linked_by link st [] \<longleftrightarrow> True"
| "linked_by link st (x # xs) \<longleftrightarrow> link (st x) = first_of xs \<and> linked_by link st xs"

lemma linked_by_upd: "x \<notin> set xs \<Longrightarrow> linked_by link (st(x := n)) xs = linked_by link st xs"
  by (induction xs) auto

lemma visit_simp [simp]:
  "visit f x (l, w) =
     (on_node x (\<lambda>n. n\<lparr>ln_next := None, ln_prev := None, ln_data := fst (f (ln_data (ll_nodes l x), w))\<rparr>) l,
      snd (f (ln_data (ll_nodes l x), w)))"
  by (simp add: visit_def split: prod.splits)

lemma drain_from_fold:
  assumes "linked_by link (ll_nodes l) xs" and "distinct xs"
  shows "drain_from link f (first_of xs) l w = Some (fold (visit f) xs (l, w))"
  using assms
proof (induction xs arbitrary: l w)
  case (Cons x xs)
  then show ?case
    by (subst drain_from.simps) (auto simp: linked_by_upd simp del: fun_upd_apply split: prod.splits)
qed (simp add: drain_from.simps)

lemma chain_forwards: "dlinks st p xs None \<Longrightarrow> linked_by ln_next st xs"
  by (induction xs arbitrary: p) (auto simp: first_of_def)

lemma first_of_rev [simp]: "first_of (rev xs) = last_of xs"
  by (cases xs rule: rev_cases) simp_all

lemma chain_backwards: "dlinks st None xs q \<Longrightarrow> linked_by ln_prev st (rev xs)"
  by (induction xs arbitrary: q rule: rev_induct) (auto simp: last_of_def)

text \<open>All nodes of the list leave it with their links reset and the callback applied once to each, in order.\<close>

definition drained :: "('a \<Rightarrow> 'a) \<Rightarrow> nat list \<Rightarrow> 'a linked_list \<Rightarrow> 'a linked_list" where
  "drained g xs l = l\<lparr>ll_nodes := \<lambda>x.
     if x \<in> set xs then (ll_nodes l x)\<lparr>ln_next := None, ln_prev := None, ln_data := g (ln_data (ll_nodes l x))\<rparr> else ll_nodes l x\<rparr>"

lemma drained_step:
  assumes "x \<notin> set xs"
  shows "drained g xs (on_node x (\<lambda>n. n\<lparr>ln_next := None, ln_prev := None, ln_data := g (ln_data (ll_nodes l x))\<rparr>) l) = drained g (x # xs) l"
  using assms by (cases l) (auto simp: drained_def on_node_def fun_eq_iff)

lemma cut_ends: "l\<lparr>ll_head := None, ll_tail := None\<rparr> = ll_new (ll_nodes l)"
  by (cases l) (simp add: ll_new_def)

lemma ll_new_nodes [simp]: "ll_nodes (ll_new st) = st"
  by (simp add: ll_new_def)

lemma fold_visit:
  assumes "distinct xs"
  shows "fold (visit (\<lambda>(d, w). (g d, h d w))) xs (l, w) = (drained g xs l, fold (\<lambda>x. h (ln_data (ll_nodes l x))) xs w)"
  using assms
proof (induction xs arbitrary: l w)
  case (Cons x xs)
  then have "fold (\<lambda>y. h (ln_data (if y = x then n else ll_nodes l y))) xs v = fold (\<lambda>y. h (ln_data (ll_nodes l y))) xs v" for n v
    by (intro fold_cong) auto
  with Cons show ?case
    by (simp add: drained_step)
qed (simp add: drained_def)

lemma ll_drain_rep:
  assumes "list_rep l xs"
  shows "ll_drain (\<lambda>(d, w). (g d, h d w)) l w =
     Some (drained g xs (ll_new (ll_nodes l)), fold (\<lambda>x. h (ln_data (ll_nodes l x))) xs w)"
proof -
  have "drain_from ln_next (\<lambda>(d, w). (g d, h d w)) (first_of xs) (ll_new (ll_nodes l)) w =
      Some (drained g xs (ll_new (ll_nodes l)), fold (\<lambda>x. h (ln_data (ll_nodes l x))) xs w)"
    using assms chain_forwards unfolding list_rep_def by (subst drain_from_fold) (auto simp: fold_visit)
  then show ?thesis
    using assms by (simp add: ll_drain_def list_rep_def cut_ends)
qed

lemma reverse_drain_rep:
  assumes "list_rep l xs"
  shows "reverse_drain (\<lambda>(d, w). (g d, h d w)) l w =
     Some (drained g xs (ll_new (ll_nodes l)), fold (\<lambda>x. h (ln_data (ll_nodes l x))) (rev xs) w)"
proof -
  have "drain_from ln_prev (\<lambda>(d, w). (g d, h d w)) (first_of (rev xs)) (ll_new (ll_nodes l)) w =
      Some (drained g (rev xs) (ll_new (ll_nodes l)), fold (\<lambda>x. h (ln_data (ll_nodes l x))) (rev xs) w)"
    using assms chain_backwards unfolding list_rep_def by (subst drain_from_fold) (auto simp: fold_visit)
  then show ?thesis
    using assms by (simp add: reverse_drain_def list_rep_def cut_ends drained_def)
qed

section \<open>The queue\<close>

fun next_chain :: "(nat \<Rightarrow> nat option) \<Rightarrow> nat list \<Rightarrow> bool" where
  "next_chain st [] \<longleftrightarrow> True"
| "next_chain st (x # xs) \<longleftrightarrow> st x = first_of xs \<and> next_chain st xs"

definition queue_rep :: "intrusive_queue \<Rightarrow> nat list \<Rightarrow> bool" where
  "queue_rep q xs \<longleftrightarrow>
     distinct xs \<and> iq_front q = first_of xs \<and> iq_back q = last_of xs \<and> iq_len q = length xs \<and> next_chain (iq_next q) xs"

lemma next_chain_upd [simp]: "x \<notin> set xs \<Longrightarrow> next_chain (st(x := n)) xs = next_chain st xs"
  by (induction xs) auto

lemma next_chain_snoc:
  "next_chain st (xs @ [x]) \<Longrightarrow> x \<notin> set xs \<Longrightarrow> a \<notin> set xs \<Longrightarrow> a \<noteq> x \<Longrightarrow> next_chain (st(a := None, x := Some a)) (xs @ [x, a])"
  by (induction xs) auto

lemma iq_new_rep: "queue_rep (iq_new st) []"
  by (simp add: queue_rep_def iq_new_def)

lemma pop_element_rep:
  assumes "queue_rep q xs"
  shows "fst (pop_element q) = first_of xs \<and> queue_rep (snd (pop_element q)) (tl xs)"
  using assms by (cases xs) (auto simp: queue_rep_def pop_element_def last_of_Cons Let_def)

lemma push_element_rep:
  assumes "queue_rep q xs" and "a \<notin> set xs"
  shows "\<exists>q'. push_element a q = Some q' \<and> queue_rep q' (xs @ [a])"
proof (cases xs rule: rev_cases)
  case (snoc ys x)
  then show ?thesis
    using assms by (auto simp: queue_rep_def push_element_def next_chain_snoc Let_def last_of_Cons)
qed (use assms in \<open>auto simp: queue_rep_def push_element_def Let_def\<close>)

lemma iq_drop_returns:
  "queue_rep q xs \<Longrightarrow> \<exists>q'. iq_drop q = Some q' \<and> queue_rep q' []"
proof (induction xs arbitrary: q)
  case Nil
  then show ?case by (subst iq_drop.simps) (auto simp: queue_rep_def pop_element_def)
next
  case (Cons x xs)
  then show ?case
    using pop_element_rep [OF Cons.prems]
    by (subst iq_drop.simps) (cases "pop_element q", auto)
qed

end
