(* ===== verification/Watched_Wakeups.thy ===== *)
theory Watched_Wakeups
  imports Watched List_Links
begin

text \<open>
  What a watched value promises, without lists and nodes: the futures that wait, oldest first with the task to wake, and the futures a
  change has completed. Every run of the code on its linked nodes gives the answers and the wake-ups of the promise.
\<close>

section \<open>The promise\<close>

record 't watch_spec =
  ws_value :: 't
  ws_live :: "nat set"
  ws_waiting :: "(nat \<times> nat) list"
  ws_done :: "nat set"
  ws_seen :: "nat set"
  ws_woken :: "nat list"

datatype 't watch_op =
    WatchOp nat
  | PollOp nat nat
  | DropOp nat
  | TerminatedOp nat
  | ModifyOp "'t \<Rightarrow> 't"
  | QuietOp 't

datatype 't watch_answer = WValue 't | WReady bool | WTerminated bool | WNothing

definition ws_new :: "'t \<Rightarrow> 't watch_spec" where
  "ws_new x = \<lparr>ws_value = x, ws_live = {}, ws_waiting = [], ws_done = {}, ws_seen = {}, ws_woken = []\<rparr>"

text \<open>Memory is not used twice at once, and only futures in memory are used: what the borrow checker enforces.\<close>

fun ws_allowed :: "'t watch_spec \<Rightarrow> 't watch_op \<Rightarrow> bool" where
  "ws_allowed s (WatchOp a) \<longleftrightarrow> a \<notin> ws_live s"
| "ws_allowed s (PollOp a _) \<longleftrightarrow> a \<in> ws_live s"
| "ws_allowed s (DropOp a) \<longleftrightarrow> a \<in> ws_live s"
| "ws_allowed s (TerminatedOp a) \<longleftrightarrow> a \<in> ws_live s"
| "ws_allowed s _ \<longleftrightarrow> True"

fun ws_step :: "'t watch_op \<Rightarrow> 't watch_spec \<Rightarrow> 't watch_answer \<times> 't watch_spec" where
  "ws_step (WatchOp a) s = (WValue (ws_value s), s\<lparr>ws_live := insert a (ws_live s)\<rparr>)"
| "ws_step (PollOp a task) s =
     (if a \<in> ws_done s then (WReady True, s\<lparr>ws_seen := insert a (ws_seen s)\<rparr>)
      else (WReady False, s\<lparr>ws_waiting :=
        (if map_of (ws_waiting s) a \<noteq> None then map (\<lambda>(b, t). (b, if b = a then task else t)) (ws_waiting s)
         else ws_waiting s @ [(a, task)])\<rparr>))"
| "ws_step (DropOp a) s =
     (WNothing, s\<lparr>ws_live := ws_live s - {a}, ws_waiting := filter (\<lambda>(b, _). b \<noteq> a) (ws_waiting s),
        ws_done := ws_done s - {a}, ws_seen := ws_seen s - {a}\<rparr>)"
| "ws_step (TerminatedOp a) s = (WTerminated (a \<in> ws_seen s), s)"
| "ws_step (ModifyOp f) s =
     (WNothing, s\<lparr>ws_value := f (ws_value s), ws_waiting := [], ws_done := ws_done s \<union> fst ` set (ws_waiting s),
        ws_woken := ws_woken s @ map snd (ws_waiting s)\<rparr>)"
| "ws_step (QuietOp x) s = (WNothing, s\<lparr>ws_value := x\<rparr>)"

fun ws_run :: "'t watch_op list \<Rightarrow> 't watch_spec \<Rightarrow> ('t watch_answer list \<times> 't watch_spec) option" where
  "ws_run [] s = Some ([], s)"
| "ws_run (p # ps) s =
     (if ws_allowed s p
      then (case ws_step p s of (r, s) \<Rightarrow> map_option (\<lambda>(rs, s). (r # rs, s)) (ws_run ps s))
      else None)"

section \<open>The code\<close>

fun watched_step :: "'t watch_op \<Rightarrow> 't watched \<Rightarrow> ('t watch_answer \<times> 't watched) option" where
  "watched_step (WatchOp a) v = (case watch a v of ((x, _), v) \<Rightarrow> Some (WValue x, v))"
| "watched_step (PollOp a task) v = (case watch_poll (Completable a) task v of (r, v) \<Rightarrow> Some (WReady r, v))"
| "watched_step (DropOp a) v = map_option (Pair WNothing) (watch_drop (Completable a) v)"
| "watched_step (TerminatedOp a) v = Some (WTerminated (is_terminated (Completable a) v), v)"
| "watched_step (ModifyOp f) v = map_option (Pair WNothing) (modify f v)"
| "watched_step (QuietOp x) v = Some (WNothing, set_without_notify x v)"

fun watched_run :: "'t watch_op list \<Rightarrow> 't watched \<Rightarrow> ('t watch_answer list \<times> 't watched) option" where
  "watched_run [] v = Some ([], v)"
| "watched_run (p # ps) v =
     (case watched_step p v of
        None \<Rightarrow> None
      | Some (r, v) \<Rightarrow> map_option (\<lambda>(rs, v). (r # rs, v)) (watched_run ps v))"

section \<open>The simulation\<close>

abbreviation ws_task :: "'t watch_spec \<Rightarrow> nat \<Rightarrow> nat option" where
  "ws_task s a \<equiv> map_of (ws_waiting s) a"

definition ws_status :: "'t watch_spec \<Rightarrow> nat \<Rightarrow> watch_state" where
  "ws_status s a =
     (if a \<in> ws_done s then WatchCompleted (a \<in> ws_seen s)
      else if ws_task s a \<noteq> None then WatchRegistered else WatchUnregistered)"

definition entry_sim :: "'t watch_spec \<Rightarrow> nat \<Rightarrow> watch_entry \<Rightarrow> bool" where
  "entry_sim s a e \<longleftrightarrow> we_state e = ws_status s a \<and> (ws_task s a \<noteq> None \<longrightarrow> we_task e = ws_task s a)"

definition ws_wf :: "'t watch_spec \<Rightarrow> bool" where
  "ws_wf s \<longleftrightarrow> dom (map_of (ws_waiting s)) \<subseteq> ws_live s - ws_done s \<and> ws_seen s \<subseteq> ws_done s \<and> ws_done s \<subseteq> ws_live s"

definition watched_sim :: "'t watched \<Rightarrow> 't watch_spec \<Rightarrow> bool" where
  "watched_sim v s \<longleftrightarrow>
     wv_value v = ws_value s \<and> wv_woken v = ws_woken s \<and> ws_wf s \<and>
     list_rep (wv_waiters v) (rev (map fst (ws_waiting s))) \<and>
     (\<forall>a\<in>ws_live s. entry_sim s a (watch_entry_at v a))"

lemma map_of_retask: "map_of (map (\<lambda>(b, t). (b, if b = a then task else t)) ws) =
    (if map_of ws a = None then map_of ws else (map_of ws)(a \<mapsto> task))"
  by (induction ws) (auto simp: fun_eq_iff)

lemma map_of_snoc: "map_of ws a = None \<Longrightarrow> map_of (ws @ [(a, t)]) = (map_of ws)(a \<mapsto> t)"
  by (induction ws) (auto simp: fun_eq_iff split: if_splits)

lemma unwatch_absent: "map_of ws a = None \<Longrightarrow> filter (\<lambda>(b, _). b \<noteq> a) ws = ws"
  by (induction ws) (auto split: if_splits)

lemma map_fst_retask: "map fst (map (\<lambda>(b, t). (b, if b = a then task else t)) ws) = map fst ws"
  by (induction ws) auto

lemma map_of_unwatch: "map_of (filter (\<lambda>(b, _). b \<noteq> a) ws) = (map_of ws)(a := None)"
  by (induction ws) (auto simp: fun_eq_iff)

lemma list_rep_data:
  "a \<notin> set xs \<Longrightarrow> list_rep (on_node a f l) xs = list_rep l xs"
  by (simp add: list_rep_def)

lemma list_rep_data_update [simp]:
  "list_rep (on_node a (ln_data_update g) l) xs = list_rep l xs"
proof -
  have "dlinks ((ll_nodes l)(a := ln_data_update g (ll_nodes l a))) None xs None = dlinks (ll_nodes l) None xs None"
    by (rule chain_frame) simp
  then show ?thesis by (simp add: list_rep_def)
qed

lemma watched_new_sim: "watched_sim (watched_new x st) (ws_new x)"
  by (simp add: watched_sim_def watched_new_def ws_new_def ws_wf_def ll_new_rep)

lemma waiting_addresses [simp]: "a \<in> fst ` set ws \<longleftrightarrow> map_of ws a \<noteq> None"
  by (simp add: map_of_eq_None_iff)

lemma watch_sim:
  assumes "watched_sim v s" and "a \<notin> ws_live s"
  shows "watched_sim (snd (watch a v)) (snd (ws_step (WatchOp a) s)) \<and> fst (fst (watch a v)) = ws_value s"
proof -
  have "ws_task s a = None" "a \<notin> ws_done s"
    using assms by (auto simp: watched_sim_def ws_wf_def)
  then have "list_rep (on_node a (\<lambda>_. n) (wv_waiters v)) (rev (map fst (ws_waiting s)))" for n
    using assms(1) by (subst list_rep_data) (simp_all add: watched_sim_def)
  with \<open>ws_task s a = None\<close> \<open>a \<notin> ws_done s\<close> show ?thesis
    using assms by (auto simp: watched_sim_def watch_def watched_get_def list_node_new_def entry_sim_def ws_status_def ws_wf_def)
qed

lemmas sim_defs = watched_sim_def ws_wf_def entry_sim_def ws_status_def set_watch_entry_def

text \<open>A poll, by the state of the future.\<close>

lemma poll_new_sim:
  assumes "watched_sim v s" "a \<in> ws_live s" "a \<notin> ws_done s" "ws_task s a = None"
  shows "watched_sim (snd (watch_poll (Completable a) task v)) (snd (ws_step (PollOp a task) s)) \<and>
    \<not> fst (watch_poll (Completable a) task v)"
proof -
  let ?l = "on_node a (ln_data_update (\<lambda>e. e\<lparr>we_task := Some task, we_state := WatchRegistered\<rparr>)) (wv_waiters v)"
  have "list_rep (add_front a ?l) (a # rev (map fst (ws_waiting s)))"
    using assms by (intro add_front_rep) (simp_all add: watched_sim_def)
  moreover have "we_state (watch_entry_at v a) = WatchUnregistered"
    using assms by (auto simp: sim_defs)
  ultimately show ?thesis
    using assms by (auto simp: sim_defs Let_def map_of_snoc simp del: map_of_append)
qed

lemma poll_again_sim:
  assumes "watched_sim v s" "a \<in> ws_live s" "ws_task s a = Some t"
  shows "watched_sim (snd (watch_poll (Completable a) task v)) (snd (ws_step (PollOp a task) s)) \<and>
    \<not> fst (watch_poll (Completable a) task v)"
proof -
  have "we_state (watch_entry_at v a) = WatchRegistered" "we_task (watch_entry_at v a) = Some t" "a \<notin> ws_done s"
    using assms by (auto simp: sim_defs dom_def)
  then show ?thesis
    using assms by (auto simp: sim_defs map_of_retask map_fst_retask dom_def simp del: map_map)
qed

lemma poll_done_sim:
  assumes "watched_sim v s" "a \<in> ws_live s" "a \<in> ws_done s"
  shows "watched_sim (snd (watch_poll (Completable a) task v)) (snd (ws_step (PollOp a task) s)) \<and>
    fst (watch_poll (Completable a) task v)"
  using assms by (auto simp: sim_defs split: watch_state.splits)

lemma watch_poll_sim:
  assumes "watched_sim v s" "a \<in> ws_live s"
  shows "watched_sim (snd (watch_poll (Completable a) task v)) (snd (ws_step (PollOp a task) s)) \<and>
    WReady (fst (watch_poll (Completable a) task v)) = fst (ws_step (PollOp a task) s)"
proof (cases "a \<in> ws_done s")
  case True
  then show ?thesis using poll_done_sim [OF assms True, of task] by simp
next
  case False
  then show ?thesis
    using poll_new_sim [OF assms False, of task] poll_again_sim [OF assms, of _ task]
    by (cases "ws_task s a") simp_all
qed

lemma watch_drop_sim:
  assumes "watched_sim v s" "a \<in> ws_live s"
  shows "\<exists>v'. watch_drop (Completable a) v = Some v' \<and> watched_sim v' (snd (ws_step (DropOp a) s))"
proof (cases "ws_task s a")
  case None
  then have "filter (\<lambda>(b, _). b \<noteq> a) (ws_waiting s) = ws_waiting s"
    by (rule unwatch_absent)
  with None show ?thesis
    using assms by (auto simp: sim_defs)
next
  case (Some t)
  obtain xs ys where ws: "ws_waiting s = xs @ (a, t) # ys"
    using Some by (meson map_of_SomeD split_list)
  have rep: "list_rep (wv_waiters v) (rev (map fst ys) @ a # rev (map fst xs))"
    using assms ws by (simp add: watched_sim_def)
  then have "map_of xs a = None" "map_of ys a = None"
    by (auto simp: list_rep_def)
  then have left: "filter (\<lambda>(b, _). b \<noteq> a) (ws_waiting s) = xs @ ys"
    unfolding ws by (simp add: unwatch_absent)
  obtain l where l: "ll_remove a (wv_waiters v) = (True, l)" "list_rep l (rev (map fst (xs @ ys)))"
    using ll_remove_rep [OF rep] by (cases "ll_remove a (wv_waiters v)") auto
  have "ln_data (ll_nodes l x) = watch_entry_at v x" for x
    using ll_data(2) [of a "wv_waiters v" x] l by simp
  moreover have "map_of (xs @ ys) = (map_of (ws_waiting s))(a := None)"
    unfolding left [symmetric] by (rule map_of_unwatch)
  moreover have "we_state (watch_entry_at v a) = WatchRegistered" "a \<notin> ws_done s"
    using assms Some by (auto simp: sim_defs dom_def)
  ultimately show ?thesis
    using assms l left Some by (auto simp: sim_defs dom_def simp del: map_of_append)
qed

lemma notify_waiter_split:
  "notify_waiter = (\<lambda>(e, w). (e\<lparr>we_task := None, we_state := WatchCompleted False\<rparr>,
     (case we_task e of Some t \<Rightarrow> w @ [t] | None \<Rightarrow> w)))"
  by (simp add: notify_waiter_def)

text \<open>A change wakes the waiting tasks in the order of the first polls.\<close>

lemma wake_in_order:
  assumes "\<And>a t. (a, t) \<in> set ws \<Longrightarrow> we_task (e a) = Some t"
  shows "fold (\<lambda>x w. case we_task (e x) of Some t \<Rightarrow> w @ [t] | None \<Rightarrow> w) (map fst ws) w = w @ map snd ws"
  using assms
proof (induction ws arbitrary: w)
  case (Cons p ws)
  have "we_task (e (fst p)) = Some (snd p)"
    by (rule Cons.prems) simp
  then show ?case
    using Cons.IH [of "w @ [snd p]", OF Cons.prems] by simp
qed simp

lemma waiting_tasks:
  assumes "watched_sim v s" "(a, t) \<in> set (ws_waiting s)"
  shows "we_task (watch_entry_at v a) = Some t"
proof -
  have "distinct (map fst (ws_waiting s))"
    using assms by (simp add: watched_sim_def list_rep_def)
  then have "ws_task s a = Some t"
    using assms by simp
  then show ?thesis
    using assms by (auto simp: sim_defs dom_def)
qed

lemma modify_sim:
  assumes "watched_sim v s"
  shows "\<exists>v'. modify f v = Some v' \<and> watched_sim v' (snd (ws_step (ModifyOp f) s))"
proof -
  let ?xs = "rev (map fst (ws_waiting s))"
  let ?g = "\<lambda>e. e\<lparr>we_task := None, we_state := WatchCompleted False\<rparr>"
  let ?l = "drained ?g ?xs (ll_new (ll_nodes (wv_waiters v)))"
  let ?h = "\<lambda>e w. case we_task e of Some t \<Rightarrow> w @ [t] | None \<Rightarrow> w"
  have "list_rep (wv_waiters v) ?xs"
    using assms by (simp add: watched_sim_def)
  from reverse_drain_rep [OF this, of ?g ?h "wv_woken v"]
  have "modify f v = Some (v\<lparr>wv_value := f (wv_value v), wv_waiters := ?l, wv_woken := wv_woken v @ map snd (ws_waiting s)\<rparr>)"
    using wake_in_order [of "ws_waiting s" "watch_entry_at v", OF waiting_tasks [OF assms]]
    by (simp add: modify_def notify_waiter_split)
  moreover have "list_rep ?l []"
    by (simp add: list_rep_def drained_def ll_new_def)
  moreover have "ln_data (ll_nodes ?l a) = (if ws_task s a = None then watch_entry_at v a else ?g (watch_entry_at v a))" for a
    by (simp add: drained_def)
  moreover have "fst ` set (ws_waiting s) \<subseteq> ws_live s"
    using assms unfolding watched_sim_def ws_wf_def dom_map_of_conv_image_fst by blast
  ultimately show ?thesis
    using assms by (auto simp: sim_defs dom_def)
qed

section \<open>Runs\<close>

lemma watched_step_sim:
  assumes "watched_sim v s" "ws_allowed s p"
  shows "\<exists>v'. watched_step p v = Some (fst (ws_step p s), v') \<and> watched_sim v' (snd (ws_step p s))"
proof (cases p)
  case (WatchOp a)
  then show ?thesis using assms watch_sim [of v s a] by (cases "watch a v") auto
next
  case (PollOp a task)
  then show ?thesis
    using assms watch_poll_sim [of v s a task] by (cases "watch_poll (Completable a) task v") (auto split: if_splits)
next
  case (DropOp a)
  then show ?thesis using assms watch_drop_sim [of v s a] by auto
next
  case (TerminatedOp a)
  then show ?thesis using assms by (auto simp: sim_defs dom_def)
next
  case (ModifyOp f)
  then show ?thesis using assms modify_sim [of v s f] by auto
next
  case (QuietOp x)
  then show ?thesis using assms by (auto simp: sim_defs set_without_notify_def)
qed

lemma watched_run_sim:
  "watched_sim v s \<Longrightarrow> ws_run ps s = Some (rs, s') \<Longrightarrow> \<exists>v'. watched_run ps v = Some (rs, v') \<and> watched_sim v' s'"
proof (induction ps arbitrary: v s rs)
  case (Cons p ps)
  then have ok: "ws_allowed s p" by (simp split: if_splits)
  obtain v1 where v1: "watched_step p v = Some (fst (ws_step p s), v1)" "watched_sim v1 (snd (ws_step p s))"
    using watched_step_sim [OF Cons.prems(1) ok] by blast
  obtain rs1 where rs1: "ws_run ps (snd (ws_step p s)) = Some (rs1, s')" "rs = fst (ws_step p s) # rs1"
    using Cons.prems(2) ok by (auto split: prod.splits)
  then show ?case
    using Cons.IH [OF v1(2) rs1(1)] v1(1) by auto
qed simp

text \<open>C32: a watched value never loses a waiting task. For every sequence of operations that respects ownership (a future is created where
  none lives; only living futures are polled, tested and dropped), the code on its linked wait nodes returns from every operation, and
  its answers, its value and the tasks it wakes are those of the promise: a poll of a future that no change has completed registers it
  (again with the latest task), a change wakes the latest task of every registered future, in the order of their first polls, and
  completes it, polls are ready from then on, and a dropped future is never woken.\<close>

theorem watched_refines:
  assumes "ws_run ps (ws_new x) = Some (rs, s)"
  shows "\<exists>v. watched_run ps (watched_new x st) = Some (rs, v) \<and> watched_get v = ws_value s \<and> wv_woken v = ws_woken s"
  using watched_run_sim [OF watched_new_sim assms, of st] by (auto simp: watched_sim_def watched_get_def)

theorem watched_refines_witness:
  "\<exists>v. watched_run [WatchOp 5, PollOp 5 1, WatchOp 9, PollOp 9 2, PollOp 5 3, WatchOp 7, PollOp 7 4, DropOp 9, ModifyOp Suc,
      PollOp 5 3, TerminatedOp 5] (watched_new 0 (\<lambda>_. list_node_new \<lparr>we_task = None, we_state = WatchUnregistered\<rparr>)) =
     Some ([WValue 0, WReady False, WValue 0, WReady False, WReady False, WValue 0, WReady False, WNothing, WNothing,
       WReady True, WTerminated True], v) \<and> watched_get v = 1 \<and> wv_woken v = [3, 4]"
  using watched_refines [of "[WatchOp 5, PollOp 5 1, WatchOp 9, PollOp 9 2, PollOp 5 3, WatchOp 7, PollOp 7 4, DropOp 9, ModifyOp Suc,
      PollOp 5 3, TerminatedOp 5]" 0 _ _ "\<lambda>_. list_node_new \<lparr>we_task = None, we_state = WatchUnregistered\<rparr>"]
  by (simp add: ws_new_def)

end
