(* ===== verification/Cubic_Window.thy ===== *)
theory Cubic_Window
  imports Cubic Watched_Wakeups
begin

text \<open>
  What holds of CUBIC: along every run no operation aborts and the divisors of its arithmetic are positive; three duplicate
  acknowledgements start one fast retransmission; and the target windows grow with time, whatever the rounding errors.
\<close>

section \<open>Watched values inside a component\<close>

definition watched_ok :: "'t watched \<Rightarrow> bool" where
  "watched_ok v \<longleftrightarrow> (\<exists>s. watched_sim v s)"

lemma watched_new_ok [intro]: "watched_ok (watched_new x st)"
  unfolding watched_ok_def by (rule exI) (rule watched_new_sim)

lemma watched_new_get [simp]: "watched_get (watched_new x st) = x"
  by (simp add: watched_get_def watched_new_def)

lemma modify_get:
  assumes "modify f v = Some v'"
  shows "watched_get v' = f (watched_get v)"
  using assms by (auto simp: modify_def watched_get_def)

lemma modify_ok:
  assumes "watched_ok v"
  obtains v' where "modify f v = Some v'" "watched_ok v'"
  using assms modify_sim unfolding watched_ok_def by blast

lemma quiet_ok [intro]: "watched_ok v \<Longrightarrow> watched_ok (set_without_notify x v)"
  using watched_step_sim [of v _ "QuietOp x"] unfolding watched_ok_def by fastforce

lemma quiet_get [simp]: "watched_get (set_without_notify x v) = x"
  by (simp add: set_without_notify_def watched_get_def)

section \<open>Runs\<close>

text \<open>The futures that watch the values are made, polled and dropped by their owners.\<close>

fun is_watcher :: "'t watch_op \<Rightarrow> bool" where
  "is_watcher (ModifyOp _) \<longleftrightarrow> False"
| "is_watcher (QuietOp _) \<longleftrightarrow> False"
| "is_watcher _ \<longleftrightarrow> True"

definition watcher_step :: "'t watched \<Rightarrow> 't watched \<Rightarrow> bool" where
  "watcher_step v v' \<longleftrightarrow> (\<exists>s p r. watched_sim v s \<and> ws_allowed s p \<and> is_watcher p \<and> watched_step p v = Some (r, v'))"

lemma watcher_step_ok: "watcher_step v v' \<Longrightarrow> watched_ok v'"
  using watched_step_sim unfolding watcher_step_def watched_ok_def by fastforce

inductive cubic_step :: "f32_arith \<Rightarrow> cubic \<Rightarrow> cubic \<Rightarrow> bool" for F where
  cubic_ack: "on_ack_received F now rto una nxt a c = Some c' \<Longrightarrow> cubic_step F c c'"
| cubic_rto: "on_rto F una c = Some c' \<Longrightarrow> cubic_step F c c'"
| cubic_check: "on_cwnd_check_before_send now c = Some c' \<Longrightarrow> cubic_step F c c'"
| cubic_send: "cubic_step F c (on_send now rto n c)"
| cubic_retransmit: "cubic_step F c (on_fast_retransmit c)"
| cubic_watch_window: "watcher_step (cu_cwnd c) v \<Longrightarrow> cubic_step F c (c\<lparr>cu_cwnd := v\<rparr>)"
| cubic_watch_flag: "watcher_step (cu_fast_retransmit_now c) v' \<Longrightarrow> cubic_step F c (c\<lparr>cu_fast_retransmit_now := v'\<rparr>)"
| cubic_watch_limited: "watcher_step (cu_limited_transmit c) v \<Longrightarrow> cubic_step F c (c\<lparr>cu_limited_transmit := v\<rparr>)"

definition cubic_ok :: "cubic \<Rightarrow> bool" where
  "cubic_ok c \<longleftrightarrow> 0 < cu_mss c \<and> 2 * cu_mss c \<le> cu_ssthresh c
     \<and> watched_ok (cu_cwnd c) \<and> watched_ok (cu_fast_retransmit_now c) \<and> watched_ok (cu_limited_transmit c)"

lemma set_cwnd_returns:
  assumes "cubic_ok c"
  obtains v where "set_cwnd f c = Some (c\<lparr>cu_cwnd := v\<rparr>)" "cubic_ok (c\<lparr>cu_cwnd := v\<rparr>)" "watched_get v = f (cwnd_of c)"
proof -
  obtain v where v: "modify f (cu_cwnd c) = Some v" "watched_ok v"
    using assms modify_ok [of "cu_cwnd c" f] by (auto simp: cubic_ok_def)
  show ?thesis
    by (rule that [of v]) (use v assms in \<open>auto simp: set_cwnd_def cubic_ok_def dest: modify_get\<close>)
qed

lemma set_retransmit_now_returns:
  assumes "cubic_ok c"
  obtains v where "set_retransmit_now c = Some (c\<lparr>cu_fast_retransmit_now := v\<rparr>)" "cubic_ok (c\<lparr>cu_fast_retransmit_now := v\<rparr>)"
    "watched_get v" "modify (\<lambda>_. True) (cu_fast_retransmit_now c) = Some v"
proof -
  obtain v where v: "modify (\<lambda>_. True) (cu_fast_retransmit_now c) = Some v" "watched_ok v"
    using assms modify_ok [of "cu_fast_retransmit_now c"] by (auto simp: cubic_ok_def)
  show ?thesis
    by (rule that [of v]) (use v assms in \<open>auto simp: set_retransmit_now_def watched_set_def cubic_ok_def dest: modify_get\<close>)
qed

lemma set_w_max_returns:
  assumes "cubic_ok c"
  obtains w where "set_w_max F c = Some (c\<lparr>cu_w_max := w\<rparr>)" "cubic_ok (c\<lparr>cu_w_max := w\<rparr>)"
proof -
  have "\<exists>w. set_w_max F c = Some (c\<lparr>cu_w_max := w\<rparr>)"
    using assms by (auto simp: set_w_max_def fast_convergence_def cubic_ok_def Let_def)
  moreover have "cubic_ok (c\<lparr>cu_w_max := w\<rparr>)" for w
    using assms by (simp add: cubic_ok_def)
  ultimately show ?thesis
    using that by blast
qed

lemma increment_returns:
  assumes "cubic_ok c"
  obtains v where
    "increment_dup_ack_count c = Some (cu_duplicate_ack_count c + 1,
       c\<lparr>cu_duplicate_ack_count := cu_duplicate_ack_count c + 1, cu_limited_transmit := v\<rparr>)"
    "cubic_ok (c\<lparr>cu_duplicate_ack_count := cu_duplicate_ack_count c + 1, cu_limited_transmit := v\<rparr>)"
    "watched_get v = watched_get (cu_limited_transmit c) + (if cu_duplicate_ack_count c + 1 < DUP_ACK_THRESHOLD then cu_mss c else 0)"
proof (cases "cu_duplicate_ack_count c + 1 < DUP_ACK_THRESHOLD")
  case True
  obtain v where v: "modify (\<lambda>ltci. ltci + cu_mss c) (cu_limited_transmit c) = Some v" "watched_ok v"
    using assms modify_ok [of "cu_limited_transmit c" "\<lambda>ltci. ltci + cu_mss c"] by (auto simp: cubic_ok_def)
  show ?thesis
    by (rule that [of v]) (use v assms True in \<open>auto simp: increment_dup_ack_count_def cubic_ok_def Let_def dest: modify_get\<close>)
next
  case False
  show ?thesis
    by (rule that [of "cu_limited_transmit c"]) (use assms False in \<open>auto simp: increment_dup_ack_count_def cubic_ok_def Let_def\<close>)
qed

section \<open>Duplicate acknowledgements\<close>

text \<open>Whether the third duplicate starts a fast recovery.\<close>

definition starts_recovery :: "seq \<Rightarrow> cubic \<Rightarrow> bool" where
  "starts_recovery a c \<longleftrightarrow>
     seq_gt (seq_sub a 1) (cu_recover c) \<or> cu_mss c < cwnd_of c \<and> seq_sub a (cu_prev_ack_seq_no c) \<le> 4 * cu_mss c"

lemma dup_ack_enters:
  assumes "cubic_ok c" "cu_duplicate_ack_count c = 2" "starts_recovery a c"
  obtains cw rn lt w where
    "on_dup_ack_received F nxt a c = Some (c\<lparr>cu_duplicate_ack_count := 3, cu_limited_transmit := lt, cu_in_fast_recovery := True,
       cu_recover := nxt, cu_w_max := w, cu_ssthresh := max (reduced_by_beta F (cwnd_of c)) (2 * cu_mss c), cu_cwnd := cw,
       cu_fast_retransmit_now := rn\<rparr>)"
    "watched_ok cw" "watched_ok rn" "watched_ok lt"
    "watched_get cw = reduced_by_beta F (cwnd_of c)" "modify (\<lambda>_. True) (cu_fast_retransmit_now c) = Some rn"
    "watched_get lt = watched_get (cu_limited_transmit c)"
proof -
  obtain lt where lt: "increment_dup_ack_count c = Some (3, c\<lparr>cu_duplicate_ack_count := 3, cu_limited_transmit := lt\<rparr>)"
      "cubic_ok (c\<lparr>cu_duplicate_ack_count := 3, cu_limited_transmit := lt\<rparr>)" "watched_get lt = watched_get (cu_limited_transmit c)"
    using increment_returns [OF assms(1)] assms(2) by (auto simp: DUP_ACK_THRESHOLD_def)
  let ?c1 = "c\<lparr>cu_duplicate_ack_count := 3, cu_limited_transmit := lt, cu_in_fast_recovery := True, cu_recover := nxt\<rparr>"
  have "cubic_ok ?c1"
    using lt(2) by (simp add: cubic_ok_def)
  then obtain w where w: "set_w_max F ?c1 = Some (?c1\<lparr>cu_w_max := w\<rparr>)"
    using set_w_max_returns by blast
  let ?r = "reduced_by_beta F (cwnd_of c)"
  let ?c2 = "?c1\<lparr>cu_w_max := w, cu_ssthresh := max ?r (2 * cu_mss c)\<rparr>"
  have "cubic_ok ?c2"
    using lt(2) by (auto simp: cubic_ok_def)
  then obtain cw where cw: "set_cwnd (\<lambda>_. ?r) ?c2 = Some (?c2\<lparr>cu_cwnd := cw\<rparr>)" "cubic_ok (?c2\<lparr>cu_cwnd := cw\<rparr>)" "watched_get cw = ?r"
    using set_cwnd_returns [of ?c2 "\<lambda>_. ?r"] by auto
  then obtain rn where rn: "set_retransmit_now (?c2\<lparr>cu_cwnd := cw\<rparr>) = Some (?c2\<lparr>cu_cwnd := cw, cu_fast_retransmit_now := rn\<rparr>)"
      "cubic_ok (?c2\<lparr>cu_cwnd := cw, cu_fast_retransmit_now := rn\<rparr>)" "modify (\<lambda>_. True) (cu_fast_retransmit_now c) = Some rn"
    using set_retransmit_now_returns [OF cw(2)] by auto
  show ?thesis
    by (rule that [where cw = cw and rn = rn and lt = lt and w = w])
       (use assms(3) lt w cw rn in \<open>auto simp: on_dup_ack_received_def starts_recovery_def DUP_ACK_THRESHOLD_def Let_def cubic_ok_def\<close>)
qed

lemma dup_ack_counts:
  assumes "cubic_ok c" "\<not> (cu_duplicate_ack_count c = 2 \<and> starts_recovery a c)"
  obtains cw lt where
    "on_dup_ack_received F nxt a c = Some (c\<lparr>cu_duplicate_ack_count := cu_duplicate_ack_count c + 1, cu_limited_transmit := lt, cu_cwnd := cw\<rparr>)"
    "watched_ok cw" "watched_ok lt"
    "watched_get cw = cwnd_of c + (if DUP_ACK_THRESHOLD < cu_duplicate_ack_count c + 1 \<or> cu_in_fast_recovery c then cu_mss c else 0)"
    "watched_get lt = watched_get (cu_limited_transmit c) + (if cu_duplicate_ack_count c + 1 < DUP_ACK_THRESHOLD then cu_mss c else 0)"
proof -
  let ?n = "cu_duplicate_ack_count c + 1"
  have n: "\<not> (?n = DUP_ACK_THRESHOLD \<and> starts_recovery a c)"
    using assms(2) by (auto simp: DUP_ACK_THRESHOLD_def dest: arg_cong [of _ _ "\<lambda>w. w - 1"])
  obtain lt where lt: "increment_dup_ack_count c = Some (?n, c\<lparr>cu_duplicate_ack_count := ?n, cu_limited_transmit := lt\<rparr>)"
      "cubic_ok (c\<lparr>cu_duplicate_ack_count := ?n, cu_limited_transmit := lt\<rparr>)"
      "watched_get lt = watched_get (cu_limited_transmit c) + (if ?n < DUP_ACK_THRESHOLD then cu_mss c else 0)"
    using increment_returns [OF assms(1)] by auto
  let ?c1 = "c\<lparr>cu_duplicate_ack_count := ?n, cu_limited_transmit := lt\<rparr>"
  show ?thesis
  proof (cases "DUP_ACK_THRESHOLD < ?n \<or> cu_in_fast_recovery c")
    case True
    obtain cw where cw: "set_cwnd (\<lambda>w. w + cu_mss c) ?c1 = Some (?c1\<lparr>cu_cwnd := cw\<rparr>)" "cubic_ok (?c1\<lparr>cu_cwnd := cw\<rparr>)"
        "watched_get cw = cwnd_of c + cu_mss c"
      using set_cwnd_returns [OF lt(2), of "\<lambda>w. w + cu_mss c"] by auto
    show ?thesis
      by (rule that [where cw = cw and lt = lt])
         (use n lt cw True in \<open>auto simp: on_dup_ack_received_def starts_recovery_def Let_def cubic_ok_def\<close>)
  next
    case False
    show ?thesis
      by (rule that [where cw = "cu_cwnd c" and lt = lt])
         (use n lt False in \<open>auto simp: on_dup_ack_received_def starts_recovery_def Let_def cubic_ok_def\<close>)
  qed
qed

lemma dup_ack_ok: "cubic_ok c \<Longrightarrow> \<exists>c'. on_dup_ack_received F nxt a c = Some c' \<and> cubic_ok c' \<and> cu_mss c' = cu_mss c"
proof (cases "cu_duplicate_ack_count c = 2 \<and> starts_recovery a c")
  case True
  assume c: "cubic_ok c"
  show ?thesis
    by (rule dup_ack_enters [OF c, of a F nxt]) (use True c in \<open>auto simp: cubic_ok_def\<close>)
next
  case False
  assume c: "cubic_ok c"
  show ?thesis
    by (rule dup_ack_counts [OF c False, of F nxt]) (use c in \<open>auto simp: cubic_ok_def\<close>)
qed

section \<open>No operation aborts\<close>

text \<open>Returning with the invariant and the segment size kept.\<close>

definition returns_ok :: "cubic \<Rightarrow> cubic option \<Rightarrow> bool" where
  "returns_ok c r \<longleftrightarrow> (\<exists>c'. r = Some c' \<and> cubic_ok c' \<and> cu_mss c' = cu_mss c)"

lemma returns_okI [intro]: "cubic_ok c' \<Longrightarrow> cu_mss c' = cu_mss c \<Longrightarrow> returns_ok c (Some c')"
  by (simp add: returns_ok_def)

lemma returns_ok_bind:
  assumes "returns_ok c r" "\<And>c'. cubic_ok c' \<Longrightarrow> cu_mss c' = cu_mss c \<Longrightarrow> returns_ok c (f c')"
  shows "returns_ok c (Option.bind r f)"
  using assms by (auto simp: returns_ok_def)

lemma cubic_ok_frame [simp]:
  "cubic_ok (c\<lparr>cu_ca_start := i\<rparr>) = cubic_ok c" "cubic_ok (c\<lparr>cu_w_max := w\<rparr>) = cubic_ok c"
  "cubic_ok (c\<lparr>cu_duplicate_ack_count := w\<rparr>) = cubic_ok c" "cubic_ok (c\<lparr>cu_in_fast_recovery := b\<rparr>) = cubic_ok c"
  "cubic_ok (c\<lparr>cu_prev_ack_seq_no := w\<rparr>) = cubic_ok c" "cubic_ok (c\<lparr>cu_recover := w\<rparr>) = cubic_ok c"
  "cubic_ok (c\<lparr>cu_retransmitted_in_flight := w\<rparr>) = cubic_ok c" "cubic_ok (c\<lparr>cu_last_congestion_was_rto := b\<rparr>) = cubic_ok c"
  "cubic_ok (c\<lparr>cu_last_send_time := i\<rparr>) = cubic_ok c" "cubic_ok (c\<lparr>cu_rtt_at_last_send := i\<rparr>) = cubic_ok c"
  by (simp_all add: cubic_ok_def)

lemma cubic_ok_quiet [simp]: "cubic_ok c \<Longrightarrow> cubic_ok (c\<lparr>cu_limited_transmit := set_without_notify x (cu_limited_transmit c)\<rparr>)"
  "cubic_ok c \<Longrightarrow> cubic_ok (c\<lparr>cu_fast_retransmit_now := set_without_notify b (cu_fast_retransmit_now c)\<rparr>)"
  by (auto simp: cubic_ok_def)

lemma cubic_ok_ssthresh [simp]: "cubic_ok c \<Longrightarrow> cubic_ok (c\<lparr>cu_ssthresh := max w (2 * cu_mss c)\<rparr>)"
  by (simp add: cubic_ok_def)

lemma set_cwnd_ok [intro]: "cubic_ok c \<Longrightarrow> cu_mss c = cu_mss d \<Longrightarrow> returns_ok d (set_cwnd f c)"
  by (rule set_cwnd_returns [of c f]) (auto simp: returns_ok_def)

lemma set_retransmit_now_ok [intro]: "cubic_ok c \<Longrightarrow> cu_mss c = cu_mss d \<Longrightarrow> returns_ok d (set_retransmit_now c)"
  by (rule set_retransmit_now_returns [of c]) (auto simp: returns_ok_def)

lemma set_w_max_ok [intro]: "cubic_ok c \<Longrightarrow> cu_mss c = cu_mss d \<Longrightarrow> returns_ok d (set_w_max F c)"
  by (rule set_w_max_returns [of c F]) (auto simp: returns_ok_def)

lemma ack_fast_recovery_ok:
  assumes "cubic_ok c"
  shows "returns_ok c (on_ack_received_fast_recovery now una nxt a c)"
  using assms unfolding on_ack_received_fast_recovery_def Let_def by (auto intro!: returns_ok_bind)

lemma ack_ss_ca_ok:
  assumes "cubic_ok c"
  shows "returns_ok c (on_ack_received_ss_ca F now rto una a c)"
  using assms by (auto simp: on_ack_received_ss_ca_def Let_def)

lemma on_ack_received_ok:
  assumes "cubic_ok c"
  shows "returns_ok c (on_ack_received F now rto una nxt a c)"
proof -
  have "returns_ok c (on_dup_ack_received F nxt a c)"
    using dup_ack_ok [OF assms] by (auto simp: returns_ok_def)
  moreover have "returns_ok c (on_ack_received_fast_recovery now una nxt a (c\<lparr>cu_duplicate_ack_count := 0\<rparr>))"
    "returns_ok c (on_ack_received_ss_ca F now rto una a (c\<lparr>cu_duplicate_ack_count := 0\<rparr>))"
    using ack_fast_recovery_ok [of "c\<lparr>cu_duplicate_ack_count := 0\<rparr>"] ack_ss_ca_ok [of "c\<lparr>cu_duplicate_ack_count := 0\<rparr>"] assms
    by (simp_all add: returns_ok_def)
  ultimately show ?thesis
    by (auto simp: on_ack_received_def Let_def intro!: returns_ok_bind)
qed

lemma on_rto_ok:
  assumes "cubic_ok c"
  shows "returns_ok c (on_rto F una c)"
proof -
  have "returns_ok c (on_rto_ss_ca F c)"
    unfolding on_rto_ss_ca_def Let_def
    using assms by (auto intro!: returns_ok_bind returns_okI simp: cubic_ok_def)
  then show ?thesis
    by (auto simp: on_rto_def on_rto_fast_recovery_def returns_ok_def)
qed

lemma check_ok:
  assumes "cubic_ok c"
  shows "returns_ok c (on_cwnd_check_before_send now c)"
  using assms by (auto simp: on_cwnd_check_before_send_def intro!: returns_ok_bind)

lemma cubic_new_ok:
  assumes "cubic_new now st mss seq_no opts = Some c" "0 < mss" "mss < 2 ^ 31"
  shows "cubic_ok c \<and> cu_mss c = of_nat mss"
proof -
  have "(0 :: u32) < of_nat mss"
    using assms(2,3) by (simp add: word_less_nat_alt unat_of_nat)
  then show ?thesis
    using assms by (auto simp: cubic_new_def cubic_ok_def Let_def split: bind_splits if_splits)
qed

lemma cubic_step_ok:
  assumes "cubic_step F c c'" "cubic_ok c"
  shows "cubic_ok c' \<and> cu_mss c' = cu_mss c"
  using assms
proof (induction rule: cubic_step.induct)
  case (cubic_ack now rto una nxt a c c')
  then show ?case using on_ack_received_ok [of c F now rto una nxt a] by (auto simp: returns_ok_def)
next
  case (cubic_rto una c c')
  then show ?case using on_rto_ok [of c F una] by (auto simp: returns_ok_def)
next
  case (cubic_check now c c')
  then show ?case using check_ok [of c now] by (auto simp: returns_ok_def)
next
  case (cubic_send c now rto n)
  then show ?case by (auto simp: on_send_def cubic_ok_def)
next
  case (cubic_retransmit c)
  then show ?case by (auto simp: on_fast_retransmit_def)
qed (auto simp: cubic_ok_def dest: watcher_step_ok)

text \<open>C33: CUBIC never aborts. From a connection with a positive segment size, along every interleaving of acknowledgements (valid or not),
  timeouts, sends, retransmissions and watchers of the three values, no operation panics or fails to return, for every single-precision
  arithmetic; the slow-start threshold is at least two segments, so that in congestion avoidance the window, by which the code
  divides, is positive.\<close>

theorem cubic_never_aborts:
  assumes "cubic_new now0 st mss seq_no opts = Some c0" "0 < mss" "mss < 2 ^ 31" "(cubic_step F)\<^sup>*\<^sup>* c0 c"
  shows "on_ack_received F now rto una nxt a c \<noteq> None \<and> on_rto F una c \<noteq> None \<and> on_cwnd_check_before_send now c \<noteq> None
    \<and> cu_mss c = of_nat mss \<and> 2 * mss \<le> unat (cu_ssthresh c) \<and> (cu_ssthresh c \<le> cubic_get_cwnd c \<longrightarrow> 0 < cubic_get_cwnd c)"
proof -
  have c: "cubic_ok c \<and> cu_mss c = of_nat mss"
    using assms(4)
  proof (induction rule: rtranclp_induct)
    case (step c c')
    then show ?case using cubic_step_ok [of F c c'] by simp
  qed (rule cubic_new_ok [OF assms(1-3)])
  have "2 * mss = unat (2 * (of_nat mss :: u32))"
    using assms(3) by (simp add: unat_word_ariths unat_of_nat)
  also have "\<dots> \<le> unat (cu_ssthresh c)"
    using c by (auto simp: cubic_ok_def word_le_nat_alt)
  finally have "2 * mss \<le> unat (cu_ssthresh c)" .
  moreover have "returns_ok c (on_ack_received F now rto una nxt a c)" "returns_ok c (on_rto F una c)"
    "returns_ok c (on_cwnd_check_before_send now c)"
    using c on_ack_received_ok on_rto_ok check_ok by blast+
  ultimately show ?thesis
    using c assms(2) by (auto simp: returns_ok_def cubic_get_cwnd_def word_less_nat_alt word_le_nat_alt)
qed

section \<open>Three duplicate acknowledgements\<close>

text \<open>Acknowledgements of \<open>una\<close> that arrive at given times with given timeouts.\<close>

fun dup_acks :: "f32_arith \<Rightarrow> seq \<Rightarrow> seq \<Rightarrow> (instant \<times> duration) list \<Rightarrow> cubic \<Rightarrow> cubic option" where
  "dup_acks F una nxt [] c = Some c"
| "dup_acks F una nxt ((now, rto) # ts) c = Option.bind (on_ack_received F now rto una nxt una c) (dup_acks F una nxt ts)"

lemma dup_ack_received:
  "on_ack_received F now rto una nxt una c =
     map_option (\<lambda>c. c\<lparr>cu_retransmitted_in_flight := saturating_sub (cu_retransmitted_in_flight c) 1\<rparr>) (on_dup_ack_received F nxt una c)"
  by (simp add: on_ack_received_def seq_sub_def map_option_case Option.bind_def split: option.splits)

lemma first_dup_acks:
  assumes "cubic_ok c" "cu_duplicate_ack_count c < 2" "\<not> cu_in_fast_recovery c"
  obtains c' where "on_ack_received F now rto una nxt una c = Some c'" "cubic_ok c'"
    "cu_duplicate_ack_count c' = cu_duplicate_ack_count c + 1" "cwnd_of c' = cwnd_of c" "\<not> cu_in_fast_recovery c'"
    "starts_recovery una c' = starts_recovery una c" "cu_mss c' = cu_mss c" "cu_fast_retransmit_now c' = cu_fast_retransmit_now c"
    "watched_get (cu_limited_transmit c') = watched_get (cu_limited_transmit c) + cu_mss c"
proof -
  have n: "cu_duplicate_ack_count c \<noteq> 2" "cu_duplicate_ack_count c + 1 < DUP_ACK_THRESHOLD"
    using assms(2) by (auto simp: DUP_ACK_THRESHOLD_def word_less_nat_alt unat_word_ariths)
  then have "\<not> DUP_ACK_THRESHOLD < cu_duplicate_ack_count c + 1" by simp
  obtain cw lt where
    "on_dup_ack_received F nxt una c = Some (c\<lparr>cu_duplicate_ack_count := cu_duplicate_ack_count c + 1, cu_limited_transmit := lt, cu_cwnd := cw\<rparr>)"
    "watched_ok cw" "watched_ok lt" "watched_get cw = cwnd_of c" "watched_get lt = watched_get (cu_limited_transmit c) + cu_mss c"
    using dup_ack_counts [OF assms(1), of una F nxt] n \<open>\<not> DUP_ACK_THRESHOLD < _\<close> assms(3) by auto
  then show ?thesis
    using that [of "c\<lparr>cu_duplicate_ack_count := cu_duplicate_ack_count c + 1, cu_limited_transmit := lt, cu_cwnd := cw,
        cu_retransmitted_in_flight := saturating_sub (cu_retransmitted_in_flight c) 1\<rparr>"] assms
    by (simp add: dup_ack_received starts_recovery_def cubic_ok_def)
qed

lemma later_dup_acks:
  assumes "cubic_ok c" "cu_in_fast_recovery c" "cu_duplicate_ack_count c = of_nat n" "3 \<le> n" "n + length ts < 2 ^ 32"
  shows "\<exists>c'. dup_acks F una nxt ts c = Some c' \<and> cu_in_fast_recovery c' \<and> cu_recover c' = cu_recover c \<and> cu_ssthresh c' = cu_ssthresh c
    \<and> cu_duplicate_ack_count c' = of_nat (n + length ts) \<and> cwnd_of c' = cwnd_of c + of_nat (length ts) * cu_mss c
    \<and> cu_fast_retransmit_now c' = cu_fast_retransmit_now c \<and> watched_get (cu_limited_transmit c') = watched_get (cu_limited_transmit c)"
  using assms
proof (induction ts arbitrary: c n)
  case (Cons t ts)
  obtain now rto where t: "t = (now, rto)" by (cases t)
  have n: "cu_duplicate_ack_count c \<noteq> 2" "\<not> cu_duplicate_ack_count c + 1 < DUP_ACK_THRESHOLD"
    using Cons.prems(3-5) by (auto simp: DUP_ACK_THRESHOLD_def word_less_nat_alt unat_word_ariths unat_of_nat dest!: arg_cong [of _ _ unat])
  obtain cw lt where
    d: "on_dup_ack_received F nxt una c = Some (c\<lparr>cu_duplicate_ack_count := of_nat (Suc n), cu_limited_transmit := lt, cu_cwnd := cw\<rparr>)"
    "watched_ok cw" "watched_ok lt" "watched_get cw = cwnd_of c + cu_mss c" "watched_get lt = watched_get (cu_limited_transmit c)"
    using dup_ack_counts [OF Cons.prems(1), of una F nxt] n Cons.prems(2,3) by (auto simp: add.commute)
  let ?c = "c\<lparr>cu_duplicate_ack_count := of_nat (Suc n), cu_limited_transmit := lt, cu_cwnd := cw,
    cu_retransmitted_in_flight := saturating_sub (cu_retransmitted_in_flight c) 1\<rparr>"
  have "cubic_ok ?c"
    using Cons.prems(1) d by (simp add: cubic_ok_def)
  from Cons.IH [OF this, of "Suc n"] show ?case
    using Cons.prems(2-5) d by (simp add: t dup_ack_received algebra_simps)
qed simp

lemma third_dup_ack:
  assumes "cubic_ok c" "cu_duplicate_ack_count c = 2" "starts_recovery una c" "watched_sim (cu_fast_retransmit_now c) s"
  obtains c' where "on_ack_received F now rto una nxt una c = Some c'" "cubic_ok c'" "cu_in_fast_recovery c'" "cu_recover c' = nxt"
    "cu_duplicate_ack_count c' = 3" "cu_ssthresh c' = max (reduced_by_beta F (cwnd_of c)) (2 * cu_mss c)"
    "cwnd_of c' = reduced_by_beta F (cwnd_of c)" "cu_mss c' = cu_mss c" "get_retransmit_now_flag c'"
    "wv_woken (cu_fast_retransmit_now c') = wv_woken (cu_fast_retransmit_now c) @ map snd (ws_waiting s)"
    "watched_get (cu_limited_transmit c') = watched_get (cu_limited_transmit c)"
proof -
  obtain cw rn lt w where d:
    "on_dup_ack_received F nxt una c = Some (c\<lparr>cu_duplicate_ack_count := 3, cu_limited_transmit := lt, cu_in_fast_recovery := True,
       cu_recover := nxt, cu_w_max := w, cu_ssthresh := max (reduced_by_beta F (cwnd_of c)) (2 * cu_mss c), cu_cwnd := cw,
       cu_fast_retransmit_now := rn\<rparr>)"
    "watched_ok cw" "watched_ok rn" "watched_ok lt"
    "watched_get cw = reduced_by_beta F (cwnd_of c)" "modify (\<lambda>_. True) (cu_fast_retransmit_now c) = Some rn"
    "watched_get lt = watched_get (cu_limited_transmit c)"
    by (rule dup_ack_enters [OF assms(1-3), of F nxt])
  obtain v where v: "modify (\<lambda>_. True) (cu_fast_retransmit_now c) = Some v" "watched_sim v (snd (ws_step (ModifyOp (\<lambda>_. True)) s))"
    using modify_sim [OF assms(4)] by blast
  have "watched_get rn"
    using modify_get [OF d(6)] by simp
  moreover have "wv_woken rn = wv_woken (cu_fast_retransmit_now c) @ map snd (ws_waiting s)"
    using v d(6) assms(4) by (simp add: watched_sim_def)
  ultimately show ?thesis
    using d(1-5,7) that [of "c\<lparr>cu_duplicate_ack_count := 3, cu_limited_transmit := lt, cu_in_fast_recovery := True,
       cu_recover := nxt, cu_w_max := w, cu_ssthresh := max (reduced_by_beta F (cwnd_of c)) (2 * cu_mss c), cu_cwnd := cw,
       cu_fast_retransmit_now := rn, cu_retransmitted_in_flight := saturating_sub (cu_retransmitted_in_flight c) 1\<rparr>"] assms(1)
    by (simp add: dup_ack_received cubic_ok_def get_retransmit_now_flag_def)
qed

text \<open>C34: fast retransmit. When duplicates of the last acknowledgement arrive outside fast recovery, and the data before them was not recovered
  already (or the heuristic for lost retransmissions applies), the first two let one segment more be sent each, the third starts
  fast recovery up to the data sent so far, with the threshold and the window reduced by the factor of CUBIC, and wakes exactly the tasks that
  watch the flag of the retransmitter, and each further one opens the window by a segment.\<close>

theorem three_duplicate_acks:
  assumes "cubic_ok c" "cu_duplicate_ack_count c = 0" "\<not> cu_in_fast_recovery c" "starts_recovery una c"
    "watched_sim (cu_fast_retransmit_now c) s" "3 \<le> length ts" "length ts < 2 ^ 32"
  shows "\<exists>c'. dup_acks F una nxt ts c = Some c' \<and> cu_in_fast_recovery c' \<and> cu_recover c' = nxt
    \<and> get_duplicate_ack_count c' = of_nat (length ts)
    \<and> cu_ssthresh c' = max (reduced_by_beta F (cubic_get_cwnd c)) (2 * cu_mss c)
    \<and> cubic_get_cwnd c' = reduced_by_beta F (cubic_get_cwnd c) + of_nat (length ts - 3) * cu_mss c
    \<and> get_limited_transmit_cwnd_increase c' = get_limited_transmit_cwnd_increase c + 2 * cu_mss c
    \<and> get_retransmit_now_flag c' \<and> wv_woken (cu_fast_retransmit_now c') = wv_woken (cu_fast_retransmit_now c) @ map snd (ws_waiting s)"
proof -
  obtain n1 r1 n2 r2 n3 r3 us where ts: "ts = (n1, r1) # (n2, r2) # (n3, r3) # us"
    using assms(6) by (auto simp: numeral_eq_Suc Suc_le_length_iff)
  obtain c1 where c1: "on_ack_received F n1 r1 una nxt una c = Some c1" "cubic_ok c1"
    "cu_duplicate_ack_count c1 = 1" "cwnd_of c1 = cwnd_of c" "\<not> cu_in_fast_recovery c1" "starts_recovery una c1" "cu_mss c1 = cu_mss c"
    "cu_fast_retransmit_now c1 = cu_fast_retransmit_now c"
    "watched_get (cu_limited_transmit c1) = watched_get (cu_limited_transmit c) + cu_mss c"
    by (rule first_dup_acks [OF assms(1) _ assms(3), of F n1 r1 una nxt]) (simp add: assms(2) word_less_nat_alt, erule that, simp_all add: assms(2,4))
  obtain c2 where c2: "on_ack_received F n2 r2 una nxt una c1 = Some c2" "cubic_ok c2"
    "cu_duplicate_ack_count c2 = 2" "cwnd_of c2 = cwnd_of c" "starts_recovery una c2" "cu_mss c2 = cu_mss c"
    "cu_fast_retransmit_now c2 = cu_fast_retransmit_now c"
    "watched_get (cu_limited_transmit c2) = watched_get (cu_limited_transmit c) + 2 * cu_mss c"
    by (rule first_dup_acks [OF c1(2) _ c1(5), of F n2 r2 una nxt]) (simp add: c1(3) word_less_nat_alt, erule that, simp_all add: c1)
  obtain c3 where c3: "on_ack_received F n3 r3 una nxt una c2 = Some c3" "cubic_ok c3" "cu_in_fast_recovery c3" "cu_recover c3 = nxt"
    "cu_duplicate_ack_count c3 = 3" "cu_ssthresh c3 = max (reduced_by_beta F (cwnd_of c)) (2 * cu_mss c)"
    "cwnd_of c3 = reduced_by_beta F (cwnd_of c)" "cu_mss c3 = cu_mss c" "get_retransmit_now_flag c3"
    "wv_woken (cu_fast_retransmit_now c3) = wv_woken (cu_fast_retransmit_now c) @ map snd (ws_waiting s)"
    "watched_get (cu_limited_transmit c3) = watched_get (cu_limited_transmit c) + 2 * cu_mss c"
    by (rule third_dup_ack [OF c2(2,3,5), of s F n3 r3 nxt]) (simp add: c2(7) assms(5), erule that, simp_all add: c2)
  obtain c' where "dup_acks F una nxt us c3 = Some c'" "cu_in_fast_recovery c'" "cu_recover c' = nxt" "cu_ssthresh c' = cu_ssthresh c3"
    "cu_duplicate_ack_count c' = of_nat (3 + length us)" "cwnd_of c' = cwnd_of c3 + of_nat (length us) * cu_mss c"
    "cu_fast_retransmit_now c' = cu_fast_retransmit_now c3" "watched_get (cu_limited_transmit c') = watched_get (cu_limited_transmit c3)"
    using later_dup_acks [OF c3(2,3), of 3 us F una nxt] assms(7) c3(4,5,8) ts by auto
  then show ?thesis
    using c1(1) c2(1) c3
    by (simp add: ts get_duplicate_ack_count_def cubic_get_cwnd_def get_limited_transmit_cwnd_increase_def get_retransmit_now_flag_def)
qed

section \<open>The target windows\<close>

definition rounding_ok :: "f32_arith \<Rightarrow> bool" where
  "rounding_ok F \<longleftrightarrow> mono (f_round F) \<and> f_round F 0 = 0 \<and> f_round F 1 = 1 \<and> (\<forall>x. f_round F (f_round F x) = f_round F x)"

lemma rounding_mono: "rounding_ok F \<Longrightarrow> x \<le> y \<Longrightarrow> f_round F x \<le> f_round F y"
  by (simp add: rounding_ok_def monoD)

lemma rounding_nonneg: "rounding_ok F \<Longrightarrow> 0 \<le> x \<Longrightarrow> 0 \<le> f_round F x"
  using rounding_mono [of F 0 x] by (simp add: rounding_ok_def)

lemma beta_bounds:
  assumes "rounding_ok F"
  shows "0 \<le> BETA_CUBIC F" "BETA_CUBIC F \<le> 1" "0 \<le> CUBIC_C F"
  using assms rounding_mono [of F "7 / 10" 1] rounding_nonneg [of F "7 / 10"] rounding_nonneg [of F "4 / 10"]
  by (simp_all add: BETA_CUBIC_def CUBIC_C_def rounding_ok_def)

text \<open>Rounded cubes are monotone, although squares are not.\<close>

lemma rounded_cube_mono:
  assumes "rounding_ok F" "x \<le> y"
  shows "f_round F (f_round F (x * x) * x) \<le> f_round F (f_round F (y * y) * y)"
proof (rule rounding_mono [OF assms(1)])
  have sq: "0 \<le> f_round F (z * z)" for z
    by (rule rounding_nonneg [OF assms(1)]) simp
  show "f_round F (x * x) * x \<le> f_round F (y * y) * y"
  proof (cases "0 \<le> x")
    case True
    then have "x * x \<le> y * y"
      using assms(2) by (intro mult_mono) auto
    then show ?thesis
      using True assms sq [of y] by (intro mult_mono rounding_mono) auto
  next
    case False
    show ?thesis
    proof (cases "0 \<le> y")
      case True
      then show ?thesis
        using False sq [of x] sq [of y] by (meson mult_nonneg_nonneg mult_nonneg_nonpos linear order.trans)
    next
      case y: False
      then have "- y * - y \<le> - x * - x"
        using assms(2) by (intro mult_mono) auto
      then have "f_round F (y * y) \<le> f_round F (x * x)"
        by (simp add: rounding_mono [OF assms(1)])
      then have "f_round F (y * y) * - y \<le> f_round F (x * x) * - x"
        using y assms(2) sq [of x] by (intro mult_mono) auto
      then show ?thesis by simp
    qed
  qed
qed

lemma w_cubic_mono:
  assumes "rounding_ok F" "s \<le> t"
  shows "w_cubic F w s k \<le> w_cubic F w t k"
  unfolding w_cubic_def Let_def
  using assms beta_bounds [OF assms(1)]
  by (intro rounding_mono [OF assms(1)] add_right_mono mult_left_mono rounded_cube_mono) auto

lemma w_est_mono:
  assumes "rounding_ok F" "s \<le> t" "0 < rtt"
  shows "w_est F w s rtt \<le> w_est F w t rtt"
proof -
  note b = beta_bounds [OF assms(1)] and n = rounding_nonneg [OF assms(1)]
  have "0 \<le> f_round F (f_round F (3 * f_round F (1 - BETA_CUBIC F)) / f_round F (1 + BETA_CUBIC F))"
    using b by (intro n divide_nonneg_nonneg mult_nonneg_nonneg) auto
  then show ?thesis
    unfolding w_est_def Let_def
    using assms by (intro rounding_mono [OF assms(1)] add_left_mono divide_right_mono mult_left_mono) auto
qed

lemma w_est_zero:
  assumes "rounding_ok F"
  shows "w_est F w 0 rtt = f_round F (w * BETA_CUBIC F)"
  using assms by (simp add: w_est_def rounding_ok_def Let_def)

lemma f_to_u32_mono: "x \<le> y \<Longrightarrow> f_to_u32 x \<le> f_to_u32 y"
proof -
  assume xy: "x \<le> y"
  have *: "unat (of_int \<lfloor>z\<rfloor> :: u32) = nat \<lfloor>z\<rfloor>" if "0 \<le> z" "z < 2 ^ 32" for z :: rat
  proof -
    have "0 \<le> \<lfloor>z\<rfloor>" "\<lfloor>z\<rfloor> < 2 ^ 32"
      using that by (simp_all add: floor_less_iff)
    then show ?thesis
      by (simp add: unsigned_of_int take_bit_eq_mod)
  qed
  have "nat \<lfloor>x\<rfloor> \<le> nat \<lfloor>y\<rfloor>"
    using xy by (intro nat_mono floor_mono)
  moreover have "nat \<lfloor>x\<rfloor> \<le> 4294967295" if "x < 2 ^ 32"
    using that by (simp add: nat_le_iff floor_le_iff)
  ultimately show ?thesis
    using xy * [of x] * [of y] by (auto simp: f_to_u32_def word_le_nat_alt)
qed



section \<open>Witnesses\<close>

text \<open>Arithmetic without rounding.\<close>

definition exact_f32 :: "(rat \<Rightarrow> rat) \<Rightarrow> f32_arith" where
  "exact_f32 cbrt = \<lparr>f_round = (\<lambda>x. x), f_cbrt = cbrt\<rparr>"

text \<open>A fresh connection.\<close>

definition no_watchers :: "nat \<Rightarrow> watch_entry list_node" where
  "no_watchers = (\<lambda>_. list_node_new \<lparr>we_task = None, we_state = WatchUnregistered\<rparr>)"

definition demo_cubic :: cubic where
  "demo_cubic = the (cubic_new 0 no_watchers 1460 1000 None)"

lemma demo_cubic_new: "cubic_new 0 no_watchers 1460 1000 None = Some demo_cubic"
  by (simp add: demo_cubic_def cubic_new_def get_bool_def get_option_def no_options_def Let_def)

lemma demo_cubic_simps:
  "cu_mss demo_cubic = 1460" "cubic_get_cwnd demo_cubic = 4380" "cu_duplicate_ack_count demo_cubic = 0"
  "\<not> cu_in_fast_recovery demo_cubic" "cu_ca_start demo_cubic = 0" "cu_recover demo_cubic = 1000" "cu_prev_ack_seq_no demo_cubic = 1000"
  "cu_fast_retransmit_now demo_cubic = watched_new False no_watchers" "get_limited_transmit_cwnd_increase demo_cubic = 0"
  by (simp_all add: demo_cubic_def cubic_new_def get_bool_def get_option_def no_options_def cubic_get_cwnd_def
      get_limited_transmit_cwnd_increase_def Let_def)

lemma demo_cubic_ok: "cubic_ok demo_cubic"
  using cubic_new_ok [OF demo_cubic_new] by simp

theorem cubic_never_aborts_witness: "on_rto (exact_f32 id) 1000 demo_cubic \<noteq> None"
  using cubic_never_aborts [OF demo_cubic_new, of "exact_f32 id" demo_cubic 0 0 1000 0 0] by simp

theorem three_duplicate_acks_witness:
  "\<exists>c. dup_acks (exact_f32 id) 1000 9000 [(1, 1), (2, 1), (3, 1), (4, 1)] demo_cubic = Some c \<and> cubic_get_cwnd c = 4526 \<and> cu_recover c = 9000"
proof -
  have "starts_recovery 1000 demo_cubic"
    using demo_cubic_simps(2) by (simp add: starts_recovery_def demo_cubic_simps cubic_get_cwnd_def seq_sub_def)
  moreover have "reduced_by_beta (exact_f32 id) 4380 = 3066"
    by (simp add: reduced_by_beta_def exact_f32_def f_of_u32_def BETA_CUBIC_def f_to_u32_def)
  ultimately show ?thesis
    using three_duplicate_acks [OF demo_cubic_ok demo_cubic_simps(3,4), of 1000 "ws_new False" "[(1, 1), (2, 1), (3, 1), (4, 1)]" "exact_f32 id" 9000]
    by (auto simp: demo_cubic_simps watched_new_sim)
qed

end
