(* ===== verification/Cubic_Epoch.thy ===== *)
theory Cubic_Epoch
  imports Cubic_Window
begin

text \<open>
  The epoch of CUBIC, the time since which its targets are computed. A timeout does not restart it, although it restarts the
  window; only the end of a fast recovery does. On a connection whose epoch is old enough, the first step of congestion
  avoidance after a timeout is too large for the window, and wraps it.
\<close>

section \<open>What restarts the epoch\<close>

definition epoch :: "cubic \<Rightarrow> instant \<times> bool" where
  "epoch c = (cu_ca_start c, cu_last_congestion_was_rto c)"

lemma epoch_frame [simp]:
  "epoch (c\<lparr>cu_cwnd := v\<rparr>) = epoch c" "epoch (c\<lparr>cu_w_max := w\<rparr>) = epoch c" "epoch (c\<lparr>cu_ssthresh := w\<rparr>) = epoch c"
  "epoch (c\<lparr>cu_duplicate_ack_count := w\<rparr>) = epoch c" "epoch (c\<lparr>cu_limited_transmit := v\<rparr>) = epoch c"
  "epoch (c\<lparr>cu_fast_retransmit_now := f\<rparr>) = epoch c" "epoch (c\<lparr>cu_in_fast_recovery := b\<rparr>) = epoch c"
  "epoch (c\<lparr>cu_recover := q\<rparr>) = epoch c" "epoch (c\<lparr>cu_prev_ack_seq_no := q\<rparr>) = epoch c"
  "epoch (c\<lparr>cu_retransmitted_in_flight := w\<rparr>) = epoch c" "epoch (c\<lparr>cu_last_send_time := i\<rparr>) = epoch c"
  "epoch (c\<lparr>cu_rtt_at_last_send := i\<rparr>) = epoch c"
  by (simp_all add: epoch_def)

lemma set_epoch:
  "set_cwnd f c = Some c' \<Longrightarrow> epoch c' = epoch c" "set_retransmit_now c = Some c' \<Longrightarrow> epoch c' = epoch c"
  "set_w_max F c = Some c' \<Longrightarrow> epoch c' = epoch c" "increment_dup_ack_count c = Some (n, c') \<Longrightarrow> epoch c' = epoch c"
  by (auto simp: set_cwnd_def set_retransmit_now_def set_w_max_def fast_convergence_def increment_dup_ack_count_def Let_def
      split: if_splits)

lemma dup_ack_epoch: "on_dup_ack_received F nxt a c = Some c' \<Longrightarrow> epoch c' = epoch c"
  by (auto simp: on_dup_ack_received_def Let_def bind_eq_Some_conv split: if_splits dest!: set_epoch)

lemma ss_ca_epoch: "on_ack_received_ss_ca F now rto una a c = Some c' \<Longrightarrow> epoch c' = epoch c"
  by (auto simp: on_ack_received_ss_ca_def Let_def split: if_splits dest!: set_epoch)

lemma ack_epoch:
  assumes "on_ack_received F now rto una nxt a c = Some c'" "\<not> cu_in_fast_recovery c"
  shows "epoch c' = epoch c"
  using assms by (auto simp: on_ack_received_def Let_def bind_eq_Some_conv split: if_splits dest!: dup_ack_epoch ss_ca_epoch)

lemma rto_epoch:
  assumes "on_rto F una c = Some c'"
  shows "epoch c' = (cu_ca_start c, True)" "\<not> cu_in_fast_recovery c'"
proof -
  obtain c1 c2 where "set_w_max F c = Some c1" "set_cwnd (\<lambda>_. cu_mss c1) c1 = Some c2" "epoch c' = (fst (epoch c2), True)"
    "\<not> cu_in_fast_recovery c'"
    using assms
    by (auto simp: on_rto_def on_rto_ss_ca_def on_rto_fast_recovery_def Let_def bind_eq_Some_conv epoch_def split: if_splits)
  then show "epoch c' = (cu_ca_start c, True)" "\<not> cu_in_fast_recovery c'"
    using set_epoch(1,3) by (simp_all add: epoch_def)
qed

lemma check_epoch: "on_cwnd_check_before_send now c = Some c' \<Longrightarrow> epoch c' = epoch c"
  by (auto simp: on_cwnd_check_before_send_def bind_eq_Some_conv split: if_splits dest!: set_epoch)

text \<open>Steps that do not start in a fast recovery.\<close>

definition calm_step :: "f32_arith \<Rightarrow> cubic \<Rightarrow> cubic \<Rightarrow> bool" where
  "calm_step F c c' \<longleftrightarrow> cubic_step F c c' \<and> \<not> cu_in_fast_recovery c"

lemma calm_step_epoch:
  assumes "calm_step F c c'" "cu_last_congestion_was_rto c"
  shows "cu_ca_start c' = cu_ca_start c \<and> cu_last_congestion_was_rto c'"
proof -
  have "cubic_step F c c'" "\<not> cu_in_fast_recovery c"
    using assms(1) by (simp_all add: calm_step_def)
  then have "epoch c' = epoch c"
  proof cases
    case (cubic_rto una)
    then show ?thesis
      using rto_epoch(1) assms(2) by (simp add: epoch_def)
  qed (auto simp: on_send_def on_fast_retransmit_def dest: ack_epoch check_epoch)
  then show ?thesis
    using assms(2) by (simp add: epoch_def)
qed

lemma calm_run:
  assumes "(calm_step F)\<^sup>*\<^sup>* c c'" "cubic_ok c" "cu_last_congestion_was_rto c"
  shows "cubic_ok c' \<and> cu_ca_start c' = cu_ca_start c \<and> cu_last_congestion_was_rto c'"
  using assms
proof (induction rule: rtranclp_induct)
  case (step c1 c2)
  then show ?case
    using calm_step_epoch [of F c1 c2] cubic_step_ok [of F c1 c2] by (auto simp: calm_step_def)
qed simp

section \<open>Rounding within a factor of two\<close>

text \<open>The rounding of \<^verbatim>\<open>f32\<close>, which has a relative error far below this, for the values that occur: none is tiny or huge.\<close>

definition f32_like :: "f32_arith \<Rightarrow> bool" where
  "f32_like F \<longleftrightarrow> rounding_ok F \<and> (\<forall>x. 1 / 2 ^ 100 \<le> x \<longrightarrow> x \<le> 2 ^ 120 \<longrightarrow> x / 2 \<le> f_round F x \<and> f_round F x \<le> 2 * x)"

lemma f32_likeD:
  assumes "f32_like F"
  shows "rounding_ok F" "1 / 2 ^ 100 \<le> x \<Longrightarrow> x \<le> 2 ^ 120 \<Longrightarrow> x / 2 \<le> f_round F x"
    "1 / 2 ^ 100 \<le> x \<Longrightarrow> x \<le> 2 ^ 120 \<Longrightarrow> f_round F x \<le> 2 * x"
  using assms by (auto simp: f32_like_def)

lemma round_ge: "f32_like F \<Longrightarrow> 1 / 2 ^ 100 \<le> y \<Longrightarrow> y \<le> 2 ^ 120 \<Longrightarrow> y \<le> x \<Longrightarrow> y / 2 \<le> f_round F x"
  using f32_likeD(1) [of F] f32_likeD(2) [of F y] rounding_mono [of F y x] by linarith

lemma round_le: "f32_like F \<Longrightarrow> 1 / 2 ^ 100 \<le> y \<Longrightarrow> y \<le> 2 ^ 120 \<Longrightarrow> x \<le> y \<Longrightarrow> f_round F x \<le> 2 * y"
  using f32_likeD(1) [of F] f32_likeD(3) [of F y] rounding_mono [of F x y] by linarith

lemma rounding_idem: "rounding_ok F \<Longrightarrow> f_round F (f_round F x) = f_round F x"
  by (simp add: rounding_ok_def)

lemma cube_term_ge:
  assumes "f32_like F" "1 \<le> t" "t \<le> 2 ^ 30"
  shows "t * t * t / 40 \<le> f_round F (CUBIC_C F * f_round F (f_round F (t * t) * t))"
proof -
  have t2: "1 \<le> t * t" "t * t \<le> 2 ^ 60"
    using mult_mono [of 1 t 1 t] mult_mono [of t "2 ^ 30" t "2 ^ 30"] assms(2,3) by simp_all
  have t3: "1 \<le> t * t * t" "t * t * t \<le> 2 ^ 90"
    using mult_mono [of 1 "t * t" 1 t] mult_mono [of "t * t" "2 ^ 60" t "2 ^ 30"] t2 assms(2,3) by simp_all
  have "t * t / 2 \<le> f_round F (t * t)"
    by (rule round_ge [OF assms(1)]) (use t2 in simp_all)
  then have "t * t * t / 2 \<le> f_round F (t * t) * t"
    using assms(2) mult_right_mono [of "t * t / 2" "f_round F (t * t)" t] by simp
  then have "t * t * t / 2 / 2 \<le> f_round F (f_round F (t * t) * t)"
    by (intro round_ge [OF assms(1)]) (use t3 in simp_all)
  moreover have "1 / 5 \<le> CUBIC_C F"
    using round_ge [OF assms(1), of "4 / 10" "4 / 10"] by (simp add: CUBIC_C_def)
  ultimately have "1 / 5 * (t * t * t / 4) \<le> CUBIC_C F * f_round F (f_round F (t * t) * t)"
    using t3(1) by (intro mult_mono) simp_all
  then have "t * t * t / 20 / 2 \<le> f_round F (CUBIC_C F * f_round F (f_round F (t * t) * t))"
    by (intro round_ge [OF assms(1)]) (use t3 in simp_all)
  then show ?thesis
    by simp
qed

lemma w_cubic_ge:
  assumes "f32_like F" "1 \<le> t" "t \<le> 2 ^ 30" "f_round F t = t" "0 \<le> w"
  shows "t * t * t / 40 \<le> w_cubic F w t 0"
proof -
  note ok = f32_likeD(1) [OF assms(1)]
  let ?A = "f_round F (CUBIC_C F * f_round F (f_round F (t * t) * t))"
  have "f_round F ?A \<le> f_round F (?A + w)"
    using assms(5) by (intro rounding_mono [OF ok]) simp
  then show ?thesis
    using cube_term_ge [OF assms(1-3)] by (simp add: w_cubic_def Let_def assms(4) rounding_idem [OF ok])
qed

lemma w_est_le_w_cubic:
  assumes "f32_like F" "440 \<le> t" "t \<le> 2 ^ 30" "f_round F t = t" "0 \<le> w" "f_round F w = w" "1 / 100 \<le> rtt" "rtt \<le> 2 ^ 10"
  shows "w_est F w t rtt \<le> w_cubic F w t 0"
proof -
  note ok = f32_likeD(1) [OF assms(1)]
  note r = rounding_mono [OF ok] and b = beta_bounds [OF ok]
  let ?A = "f_round F (CUBIC_C F * f_round F (f_round F (t * t) * t))"
  let ?q = "f_round F (f_round F (3 * f_round F (1 - BETA_CUBIC F)) / f_round F (1 + BETA_CUBIC F))"
  have one: "f_round F 1 = 1" "f_round F (1 - BETA_CUBIC F) \<le> 1" "1 \<le> f_round F (1 + BETA_CUBIC F)"
    using ok r [of "1 - BETA_CUBIC F" 1] r [of 1 "1 + BETA_CUBIC F"] b by (simp_all add: rounding_ok_def)
  have "f_round F (3 * f_round F (1 - BETA_CUBIC F)) \<le> 2 * 3"
    by (intro round_le [OF assms(1)]) (use one(2) in simp_all)
  then have "f_round F (3 * f_round F (1 - BETA_CUBIC F)) / f_round F (1 + BETA_CUBIC F) \<le> 6"
    using one(3) by (simp add: divide_le_eq)
  then have "?q \<le> 2 * 6"
    by (intro round_le [OF assms(1)]) simp_all
  then have "?q * t \<le> 12 * t"
    using assms(2) by (intro mult_right_mono) simp_all
  then have "f_round F (?q * t) \<le> 2 * (12 * t)"
    by (intro round_le [OF assms(1)]) (use assms(2,3) in simp_all)
  then have "f_round F (?q * t) / rtt \<le> 2400 * t"
    using assms(7,2) frac_le [of "24 * t" "f_round F (?q * t)" "1 / 100" rtt] by simp
  then have B: "f_round F (f_round F (?q * t) / rtt) \<le> 2 * (2400 * t)"
    by (intro round_le [OF assms(1)]) (use assms(2,3) in simp_all)
  have cube: "t * t * t / 40 \<le> ?A"
    by (rule cube_term_ge [OF assms(1) _ assms(3)]) (use assms(2) in simp)
  have "440 * 440 * t \<le> t * t * t"
    using assms(2) by (intro mult_right_mono mult_mono) simp_all
  then have "f_round F (f_round F (?q * t) / rtt) \<le> ?A"
    using B cube assms(2) by linarith
  moreover have "f_round F (w * BETA_CUBIC F) \<le> w"
    using r [of "w * BETA_CUBIC F" w] mult_left_mono [OF b(2) assms(5)] assms(6) by simp
  ultimately show ?thesis
    by (auto simp: w_est_def w_cubic_def Let_def assms(4) intro!: r)
qed

section \<open>The step wraps the window\<close>

lemma normalised_cwnd_bounds:
  assumes "f32_like F" "0 < m" "m < 2 ^ 32" "0 < n" "n < 2 ^ 32"
    and M: "M = f_round F (of_nat m)" and N: "N = f_round F (f_round F (of_nat n) / M)"
  shows "of_nat m / 2 \<le> M" "0 < N" "N \<le> 8 * of_nat n / of_nat m"
proof -
  have m: "1 \<le> (of_nat m :: rat)" "(of_nat m :: rat) \<le> 2 ^ 32" and n: "1 \<le> (of_nat n :: rat)" "(of_nat n :: rat) \<le> 2 ^ 32"
    using assms(2-5) of_nat_mono [of m "2 ^ 32", where 'a = rat] of_nat_mono [of n "2 ^ 32", where 'a = rat] by simp_all
  show M1: "of_nat m / 2 \<le> M"
    unfolding M by (rule round_ge [OF assms(1)]) (use m in simp_all)
  have M2: "M \<le> 2 * of_nat m"
    unfolding M by (rule round_le [OF assms(1)]) (use m in simp_all)
  have n1: "of_nat n / 2 \<le> f_round F (of_nat n)" "f_round F (of_nat n) \<le> 2 * of_nat n"
    by (rule round_ge [OF assms(1)], use n in simp_all) (rule round_le [OF assms(1)], use n in simp_all)
  have "of_nat n / 2 / (2 * of_nat m) \<le> f_round F (of_nat n) / M"
    using n1(1) n(1) m(1) M1 M2 by (intro frac_le) simp_all
  moreover have "1 / 2 ^ 34 \<le> (of_nat n / 2 / (2 * of_nat m) :: rat)"
    using n(1) m by (simp add: field_simps)
  ultimately have "1 / 2 ^ 34 \<le> f_round F (of_nat n) / M"
    by (rule order_trans [rotated])
  then have "1 / 2 ^ 34 / 2 \<le> N"
    unfolding N by (intro round_ge [OF assms(1)]) simp_all
  then show "0 < N"
    by (rule less_le_trans [rotated]) simp
  have q: "f_round F (of_nat n) / M \<le> 2 * of_nat n / (of_nat m / 2)"
    using n1(2) n(1) m(1) M1 by (intro frac_le) simp_all
  have "1 / 2 ^ 100 \<le> (2 * of_nat n / (of_nat m / 2) :: rat)" "(2 * of_nat n / (of_nat m / 2) :: rat) \<le> 2 ^ 120"
    using n m by (simp_all add: field_simps)
  then have "N \<le> 2 * (2 * of_nat n / (of_nat m / 2))"
    unfolding N using q by (intro round_le [OF assms(1)])
  then show "N \<le> 8 * of_nat n / of_nat m"
    by simp
qed

lemma step_saturates:
  assumes F: "f32_like F" and t: "1 \<le> t" "t \<le> 2 ^ 30" and x: "t * t * t / 40 \<le> x"
    and m: "0 < m" "m < 2 ^ 32" and n: "0 < n" "n < 2 ^ 32"
    and M: "M = f_round F (of_nat m)" and N: "N = f_round F (f_round F (of_nat n) / M)"
    and old: "10240 * 2 ^ 32 * of_nat n \<le> t * t * t * of_nat m * of_nat m"
  shows "2 ^ 32 \<le> f_round F (f_round F (f_round F (x - N) / N) * M)"
proof -
  note b = normalised_cwnd_bounds [OF F m n M N]
  define T U where "T = t * t * t" and "U = (8 * of_nat n / of_nat m :: rat)"
  have mr: "0 < (of_nat m :: rat)" "(of_nat m :: rat) \<le> 2 ^ 32" and nr: "1 \<le> (of_nat n :: rat)"
    using m n of_nat_mono [of m "2 ^ 32", where 'a = rat] by simp_all
  have "t * t \<le> 2 ^ 30 * 2 ^ 30" "t * t * t \<le> 2 ^ 30 * 2 ^ 30 * 2 ^ 30"
    using t by (intro mult_mono; simp)+
  then have T: "T \<le> 2 ^ 90"
    by (simp add: T_def)
  have U: "0 < U" "1 / 2 ^ 29 \<le> U"
    using mr nr by (simp_all add: U_def field_simps)
  have old': "10240 * 2 ^ 32 * of_nat n \<le> T * of_nat m * of_nat m"
    using old by (simp add: T_def)
  have TU: "80 * U \<le> T"
  proof -
    have "640 * of_nat n * of_nat m \<le> (640 * of_nat n * 2 ^ 32 :: rat)"
      using mr nr by (intro mult_left_mono) simp_all
    also have "\<dots> \<le> 10240 * 2 ^ 32 * of_nat n"
      using nr by simp
    also note old'
    finally have "640 * of_nat n * of_nat m \<le> T * of_nat m * of_nat m" .
    then have "640 * of_nat n \<le> T * of_nat m"
      using mr(1) by (simp only: mult_le_cancel_right_pos)
    then show ?thesis
      using mr(1) by (simp add: U_def field_simps)
  qed
  have "T / 80 \<le> x - N"
    using x b(3) TU by (simp add: T_def U_def)
  then have "T / 80 / 2 \<le> f_round F (x - N)"
    by (intro round_ge [OF F]) (use TU U T in simp_all)
  then have "T / 160 / U \<le> f_round F (x - N) / N"
    using b(2,3) TU U by (intro frac_le) (simp_all add: U_def)
  moreover have half: "1 / 2 \<le> T / 160 / U"
    using TU U(1) by (simp add: field_simps)
  moreover have "T / 160 / U \<le> 2 ^ 90 / 160 / (1 / 2 ^ 29)"
    using T U TU by (intro frac_le) simp_all
  ultimately have "T / 160 / U / 2 \<le> f_round F (f_round F (x - N) / N)"
    by (intro round_ge [OF F]) simp_all
  moreover have "0 \<le> T / 160 / U / 2"
    using TU U(1) by simp
  from this calculation have "0 \<le> f_round F (f_round F (x - N) / N)"
    by (rule order_trans)
  ultimately have "T / 160 / U / 2 * (of_nat m / 2) \<le> f_round F (f_round F (x - N) / N) * M"
    using b(1) mr by (intro mult_mono) simp_all
  moreover have "2 ^ 33 \<le> T / 160 / U / 2 * (of_nat m / 2)"
    using old' mr nr by (simp add: U_def field_simps)
  ultimately have "2 ^ 33 / 2 \<le> f_round F (f_round F (f_round F (x - N) / N) * M)"
    by (intro round_ge [OF F]) simp_all
  then show ?thesis
    by simp
qed

text \<open>C36: a timeout does not restart the congestion-avoidance epoch, and on an old connection the window wraps. Whatever happens after
  the timeout outside a fast recovery, the first acknowledgement of new data in congestion avoidance computes its step from the
  time since the epoch that was current before the timeout. When that is \<open>t\<close> seconds, as the code computes them, with
  \<open>t\<^sup>3\<close> at least \<open>10240 * 2 ^ 32 * cwnd / mss\<^sup>2\<close>, the step does not fit in 32 bits and is cut to the largest word: the sum
  wraps, and the window that should have grown shrinks by one byte. The timeout is between 10 ms and 1024 s, and \<open>t\<close> between
  440 and \<open>2 ^ 30\<close>. The rounding is any that is monotone, idempotent, exact at 0 and 1 and within a factor of two.\<close>

theorem stale_epoch_wraps_window:
  assumes "f32_like F" "cubic_ok c" "on_rto F una c = Some c1" "(calm_step F)\<^sup>*\<^sup>* c1 c2"
    and "\<not> cu_in_fast_recovery c2" "cu_ssthresh c2 \<le> cubic_get_cwnd c2" "cubic_get_cwnd c2 \<noteq> 0" "a \<noteq> una2"
    and "t = as_secs_f32 F (max 0 (now - cu_ca_start c))" "440 \<le> t" "t \<le> 2 ^ 30"
    and "1 / 100 \<le> as_secs_f32 F rto" "as_secs_f32 F rto \<le> 2 ^ 10"
    and "10240 * 2 ^ 32 * of_nat (unat (cubic_get_cwnd c2)) \<le> t ^ 3 * of_nat (unat (cu_mss c2)) ^ 2"
  shows "\<exists>c3. on_ack_received F now rto una2 nxt a c2 = Some c3 \<and> cubic_get_cwnd c3 = cubic_get_cwnd c2 - 1"
proof -
  note ok = f32_likeD(1) [OF assms(1)]
  let ?n = "unat (cwnd_of c2)" and ?m = "unat (cu_mss c2)"
  have c1: "cubic_ok c1" "cu_ca_start c1 = cu_ca_start c" "cu_last_congestion_was_rto c1"
    using on_rto_ok [OF assms(2), of F una] rto_epoch(1) [OF assms(3)] assms(3) by (auto simp: returns_ok_def epoch_def)
  then have c2: "cubic_ok c2" "cu_ca_start c2 = cu_ca_start c" "cu_last_congestion_was_rto c2"
    using calm_run [OF assms(4)] by simp_all
  have pos: "0 < ?m" "?m < 2 ^ 32" "0 < ?n" "?n < 2 ^ 32"
    using c2(1) assms(7) unsigned_less [of "cu_mss c2", where 'a = nat] unsigned_less [of "cwnd_of c2", where 'a = nat]
    by (auto simp: cubic_ok_def word_less_nat_alt cubic_get_cwnd_def unat_gt_0)
  have above: "\<not> cwnd_of c2 < cu_ssthresh c2"
    using assms(6) by (simp add: cubic_get_cwnd_def not_less)
  define rtt M W N where "rtt = as_secs_f32 F rto" and "M = f_of_u32 F (cu_mss c2)" and "W = f_round F (f_of_u32 F (cu_w_max c2) / M)"
    and "N = f_round F (f_of_u32 F (cwnd_of c2) / M)"
  have M: "M = f_round F (of_nat ?m)" and N: "N = f_round F (f_round F (of_nat ?n) / M)"
    by (simp_all add: M_def N_def f_of_u32_def)
  have "0 \<le> M" "0 \<le> f_of_u32 F (cu_w_max c2)"
    unfolding M f_of_u32_def by (intro rounding_nonneg [OF ok] of_nat_0_le_iff)+
  then have W: "0 \<le> W" "f_round F W = W"
    unfolding W_def using rounding_idem [OF ok] by (simp_all add: rounding_nonneg [OF ok])
  have t: "f_round F t = t"
    unfolding assms(9) as_secs_f32_def Let_def by (rule rounding_idem [OF ok])
  have order: "\<not> w_cubic F W t 0 < w_est F W t rtt"
    using w_est_le_w_cubic [OF assms(1,10,11) t W] assms(12,13) by (simp add: rtt_def not_less)
  have "t \<le> f_round F (t + rtt)"
    using rounding_mono [OF ok, of t "t + rtt"] assms(12) t by (simp add: rtt_def)
  then have x: "t * t * t / 40 \<le> w_cubic F W (f_round F (t + rtt)) 0"
    using w_cubic_ge [OF assms(1) _ assms(11) t W(1)] assms(10) w_cubic_mono [OF ok, of t "f_round F (t + rtt)" W 0] by simp
  let ?inc = "f_round F (f_round F (f_round F (w_cubic F W (f_round F (t + rtt)) 0 - N) / N) * M)"
  have "2 ^ 32 \<le> ?inc"
    by (rule step_saturates [OF assms(1) _ assms(11) x pos M N])
      (use assms(10,14) in \<open>simp_all add: power3_eq_cube power2_eq_square mult.assoc cubic_get_cwnd_def\<close>)
  then have inc: "f_to_u32 ?inc = - 1"
    by (simp add: f_to_u32_def)
  let ?c = "c2\<lparr>cu_duplicate_ack_count := 0\<rparr>"
  obtain v where v: "set_cwnd (\<lambda>w. w + f_to_u32 ?inc) ?c = Some (?c\<lparr>cu_cwnd := v\<rparr>)" "watched_get v = cwnd_of c2 + f_to_u32 ?inc"
    using set_cwnd_returns [of ?c "\<lambda>w. w + f_to_u32 ?inc"] c2(1) by auto
  have "on_ack_received_ss_ca F now rto una2 a ?c = set_cwnd (\<lambda>w. w + f_to_u32 ?inc) ?c"
    using above order c2(3)
    by (simp add: on_ack_received_ss_ca_def Let_def cubic_k_def c2(2) flip: assms(9) rtt_def M_def)
      (simp flip: W_def N_def)
  then show ?thesis
    using v inc assms(5,8) by (simp add: on_ack_received_def cubic_get_cwnd_def seq_sub_def)
qed

text \<open>A connection of two segments whose timer expires, an acknowledgement of one segment, and one more than an hour later.\<close>

lemma rto_result:
  assumes "cubic_ok c" "cu_retransmitted_in_flight c = 0"
  obtains c1 where "on_rto F una c = Some c1" "cubic_ok c1" "cu_mss c1 = cu_mss c" "cubic_get_cwnd c1 = cu_mss c"
    "cu_ssthresh c1 = max (reduced_by_beta F (cwnd_of c)) (2 * cu_mss c)"
proof -
  obtain w where w: "set_w_max F c = Some (c\<lparr>cu_w_max := w\<rparr>)" "cubic_ok (c\<lparr>cu_w_max := w\<rparr>)"
    by (rule set_w_max_returns [OF assms(1)])
  obtain v where "set_cwnd (\<lambda>_. cu_mss c) (c\<lparr>cu_w_max := w\<rparr>) = Some (c\<lparr>cu_w_max := w, cu_cwnd := v\<rparr>)" "watched_get v = cu_mss c"
    using set_cwnd_returns [OF w(2), of "\<lambda>_. cu_mss c"] by auto
  then show thesis
    using that w(1) assms(2) on_rto_ok [OF assms(1), of F una]
    by (auto simp: on_rto_def on_rto_ss_ca_def on_rto_fast_recovery_def cubic_get_cwnd_def returns_ok_def Let_def)
qed

lemma slow_start_ack:
  assumes "cubic_ok c" "\<not> cu_in_fast_recovery c" "cubic_get_cwnd c < cu_ssthresh c" "a \<noteq> una"
  obtains c1 where "on_ack_received F now rto una nxt a c = Some c1" "cubic_get_cwnd c1 = cubic_get_cwnd c + min (a - una) (cu_mss c)"
    "cu_ssthresh c1 = cu_ssthresh c" "cu_mss c1 = cu_mss c" "\<not> cu_in_fast_recovery c1"
proof -
  let ?c = "c\<lparr>cu_duplicate_ack_count := 0\<rparr>" and ?f = "\<lambda>w. w + min (a - una) (cu_mss c)"
  obtain v where "set_cwnd ?f ?c = Some (?c\<lparr>cu_cwnd := v\<rparr>)" "watched_get v = ?f (cwnd_of c)"
    using set_cwnd_returns [of ?c ?f] assms(1) by auto
  then show thesis
    using that assms(2-4) by (auto simp: on_ack_received_def on_ack_received_ss_ca_def seq_sub_def cubic_get_cwnd_def Let_def)
qed

lemma exact_f32_like: "f32_like (exact_f32 cbrt)"
  by (auto simp: f32_like_def rounding_ok_def exact_f32_def mono_def intro: order_trans [rotated])

theorem stale_epoch_wraps_window_witness:
  "\<exists>c1 c2 c3. on_rto (exact_f32 id) 1000 (demo_cubic\<lparr>cu_cwnd := watched_new 2920 no_watchers\<rparr>) = Some c1
    \<and> on_ack_received (exact_f32 id) 5 1 1000 9000 2460 c1 = Some c2 \<and> cubic_get_cwnd c2 = 2920
    \<and> on_ack_received (exact_f32 id) 4000 1 2460 9000 3920 c2 = Some c3 \<and> cubic_get_cwnd c3 = 2919"
proof -
  let ?F = "exact_f32 id" and ?c = "demo_cubic\<lparr>cu_cwnd := watched_new 2920 no_watchers\<rparr>"
  have c: "cubic_ok ?c" "cu_retransmitted_in_flight ?c = 0"
    using demo_cubic_ok watched_new_ok
    by (simp_all add: cubic_ok_def demo_cubic_def cubic_new_def get_bool_def get_option_def no_options_def Let_def)
  have red: "reduced_by_beta ?F 2920 = 2044"
    by (simp add: reduced_by_beta_def exact_f32_def f_of_u32_def BETA_CUBIC_def f_to_u32_def)
  obtain c1 where c1: "on_rto ?F 1000 ?c = Some c1" "cubic_ok c1" "cu_mss c1 = 1460" "cubic_get_cwnd c1 = 1460" "cu_ssthresh c1 = 2920"
    by (rule rto_result [OF c, of ?F 1000]) (simp add: demo_cubic_simps red)
  have nf: "\<not> cu_in_fast_recovery c1"
    by (rule rto_epoch(2) [OF c1(1)])
  obtain c2 where c2: "on_ack_received ?F 5 1 1000 9000 2460 c1 = Some c2" "cubic_get_cwnd c2 = 2920" "cu_ssthresh c2 = 2920"
    "cu_mss c2 = 1460" "\<not> cu_in_fast_recovery c2"
    by (rule slow_start_ack [OF c1(2) nf, of 2460 1000 ?F 5 1 9000]) (simp_all add: c1)
  have "(calm_step ?F)\<^sup>*\<^sup>* c1 c2"
    using cubic_ack [OF c2(1)] nf by (simp add: calm_step_def r_into_rtranclp)
  moreover have secs: "as_secs_f32 ?F 4000 = 4000" "as_secs_f32 ?F 1 = 1"
    by (simp_all add: as_secs_f32_def exact_f32_def Let_def)
  ultimately have "\<exists>c3. on_ack_received ?F 4000 1 2460 9000 3920 c2 = Some c3 \<and> cubic_get_cwnd c3 = cubic_get_cwnd c2 - 1"
    by (intro stale_epoch_wraps_window [OF exact_f32_like c(1) c1(1), where t = 4000]) (simp_all add: c2 demo_cubic_simps)
  then show ?thesis
    using c1(1) c2(1,2) by auto
qed

end
