(* ===== verification/Interop.thy ===== *)
theory Interop
  imports Inet_Stack Buffers
begin

text \<open>
  Results and addresses as the C interface shows them (\<^verbatim>\<open>runtime/types\<close>, \<^verbatim>\<open>catnip/interop.rs\<close>, \<^verbatim>\<open>catnap/mod.rs\<close>,
  \<^verbatim>\<open>demikernel/bindings.rs\<close>), on a little-endian machine. A scatter-gather array has one segment. A pointer is
  an allocation and a position in it; what the language leaves undefined is the result \<open>None\<close>.
\<close>

section \<open>Byte order\<close>

definition u16_from_be :: "u16 \<Rightarrow> u16" where
  "u16_from_be w = read_u16 (rev (be16 w)) 0"

definition u32_from_be :: "u32 \<Rightarrow> u32" where
  "u32_from_be w = read_u32 (rev (be32 w)) 0"

definition u32_from_le_bytes :: "bytes \<Rightarrow> u32" where
  "u32_from_le_bytes bs = read_u32 (rev bs) 0"

section \<open>Scatter-gather arrays\<close>

record sockaddr_in =
  sin_family :: u16
  sin_port :: u16
  sin_addr :: u32

definition sockaddr_zeroed :: sockaddr_in where
  "sockaddr_zeroed = \<lparr>sin_family = 0, sin_port = 0, sin_addr = 0\<rparr>"

text \<open>A pointer into the bytes that an \<^verbatim>\<open>Arc\<close> has allocated.\<close>

record raw_ptr =
  rp_alloc :: bytes
  rp_offset :: nat

text \<open>\<^verbatim>\<open>Arc::from_raw\<close> takes an allocation back: the pointer has to be the start of one, and the length that of the allocation.
  \<^verbatim>\<open>slice::from_raw_parts\<close> has to stay inside it.\<close>

definition arc_from_raw :: "raw_ptr \<Rightarrow> nat \<Rightarrow> bytes option" where
  "arc_from_raw p len = (if rp_offset p = 0 \<and> len = length (rp_alloc p) then Some (rp_alloc p) else None)"

definition raw_slice :: "raw_ptr \<Rightarrow> nat \<Rightarrow> bytes option" where
  "raw_slice p len =
     (if rp_offset p + len \<le> length (rp_alloc p) then Some (take len (drop (rp_offset p) (rp_alloc p))) else None)"

text \<open>A segment: its pointer (\<open>None\<close> a null pointer), and its length.\<close>

record sgaseg =
  sgaseg_buf :: "raw_ptr option"
  sgaseg_len :: u32

record sgarray =
  sga_numsegs :: u32
  sga_seg :: sgaseg
  sga_addr :: sockaddr_in

definition db_into_raw :: "data_buffer \<Rightarrow> raw_ptr outcome" where
  "db_into_raw b =
     (case db_data b of Some d \<Rightarrow> Ok \<lparr>rp_alloc = d, rp_offset = 0\<rparr> | None \<Rightarrow> Err (fail_new EINVAL ''zero-length buffer''))"

definition db_from_raw_parts :: "raw_ptr option \<Rightarrow> nat \<Rightarrow> data_buffer outcome option" where
  "db_from_raw_parts data len =
     (if len = 0 then Some (Err (fail_new EINVAL ''zero-length buffer''))
      else case data of
             None \<Rightarrow> Some (Err (fail_new EINVAL ''null data pointer''))
           | Some p \<Rightarrow> map_option (\<lambda>d. Ok \<lparr>db_data = Some d, db_offset = 0, db_len = len\<rparr>) (arc_from_raw p len))"

definition one_segment :: "raw_ptr \<Rightarrow> nat \<Rightarrow> sgarray" where
  "one_segment p len = \<lparr>sga_numsegs = 1, sga_seg = \<lparr>sgaseg_buf = Some p, sgaseg_len = of_nat len\<rparr>, sga_addr = sockaddr_zeroed\<rparr>"

definition into_sgarray :: "data_buffer \<Rightarrow> sgarray outcome" where
  "into_sgarray b = bind_out (db_into_raw b) (\<lambda>p. Ok (one_segment p (db_len b)))"

definition alloc_sgarray :: "nat \<Rightarrow> sgarray outcome" where
  "alloc_sgarray n = bind_out (db_new n) (\<lambda>b. bind_out (db_into_raw b) (\<lambda>p. Ok (one_segment p n)))"

definition bad_sga :: fail where
  "bad_sga = fail_new EINVAL ''scatter-gather array with invalid size''"

definition free_sgarray :: "sgarray \<Rightarrow> unit outcome option" where
  "free_sgarray sga =
     (if sga_numsegs sga \<noteq> 1 then Some (Err bad_sga)
      else map_option (\<lambda>r. bind_out r (\<lambda>_. Ok ()))
        (db_from_raw_parts (sgaseg_buf (sga_seg sga)) (unat (sgaseg_len (sga_seg sga)))))"

definition clone_sgarray :: "sgarray \<Rightarrow> data_buffer outcome option" where
  "clone_sgarray sga =
     (if sga_numsegs sga \<noteq> 1 then Some (Err bad_sga)
      else Option.bind (sgaseg_buf (sga_seg sga)) (\<lambda>p.
        map_option (\<lambda>d. Ok (db_from_slice d)) (raw_slice p (unat (sgaseg_len (sga_seg sga))))))"

text \<open>The bytes of an array, as a C program reads them.\<close>

definition sga_bytes :: "sgarray \<Rightarrow> bytes option" where
  "sga_bytes sga = Option.bind (sgaseg_buf (sga_seg sga)) (\<lambda>p. raw_slice p (unat (sgaseg_len (sga_seg sga))))"

text \<open>The array the DPDK runtime makes of a heap buffer: its pointer is moved to the window.\<close>

definition catnip_into_sgarray :: "data_buffer \<Rightarrow> sgarray outcome" where
  "catnip_into_sgarray b =
     bind_out (db_into_raw b) (\<lambda>p. Ok (one_segment (p\<lparr>rp_offset := rp_offset p + db_offset b\<rparr>) (db_len b)))"

section \<open>Results\<close>

datatype opcode = OPC_INVALID | OPC_PUSH | OPC_POP | OPC_ACCEPT | OPC_CONNECT | OPC_FAILED

datatype qr_value = QrZeroed | QrSga sgarray | QrAres qdesc sockaddr_in | QrErr errno

record qresult =
  qr_opcode :: opcode
  qr_qd :: qdesc
  qr_qt :: nat
  qr_value :: qr_value

definition saddr_of :: "sockaddr \<Rightarrow> sockaddr_in" where
  "saddr_of = (\<lambda>(ip, port). \<lparr>sin_family = 2, sin_port = port, sin_addr = u32_from_le_bytes (be32 ip)\<rparr>)"

text \<open>The one of \<^verbatim>\<open>catnap\<close>; that of \<^verbatim>\<open>catnip\<close> differs in the value of a failed operation, which is the argument \<open>failed\<close>: only the DPDK
  runtime fills it in.\<close>

definition pack_result :: "(fail \<Rightarrow> qr_value) \<Rightarrow> operation_result \<Rightarrow> qdesc \<Rightarrow> nat \<Rightarrow> qresult" where
  "pack_result failed r qd qt =
     (let result = (\<lambda>c v. \<lparr>qr_opcode = c, qr_qd = qd, qr_qt = qt, qr_value = v\<rparr>)
      in case r of
           ResConnect \<Rightarrow> result OPC_CONNECT QrZeroed
         | ResAccept new_qd \<Rightarrow> result OPC_ACCEPT (QrAres new_qd sockaddr_zeroed)
         | ResPush \<Rightarrow> result OPC_PUSH QrZeroed
         | ResPop addr bytes \<Rightarrow>
             (case into_sgarray (db_from_slice bytes) of
                Ok sga \<Rightarrow> result OPC_POP (QrSga (case addr of Some endpoint \<Rightarrow> sga\<lparr>sga_addr := saddr_of endpoint\<rparr> | None \<Rightarrow> sga))
              | _ \<Rightarrow> result OPC_FAILED QrZeroed)
         | ResFailed e \<Rightarrow> result OPC_FAILED (failed e))"

definition sockaddr_to_socketaddrv4 :: "sockaddr_in \<Rightarrow> sockaddr outcome" where
  "sockaddr_to_socketaddrv4 sa =
     (if sin_family sa \<noteq> 2 then Err (fail_new ENOTSUP ''communication domain not supported'')
      else Ok (u32_from_be (sin_addr sa), u16_from_be (sin_port sa)))"

section \<open>Addresses come back with their ports swapped\<close>

lemma swap_bytes:
  "u32_from_be (u32_from_le_bytes (be32 ip)) = ip"
  "u16_from_be p = mk16 (ucast p) (ucast (drop_bit 8 p))"
  by (simp_all add: u32_from_be_def u32_from_le_bytes_def u16_from_be_def read_u32_def read_u16_def be16_def)
     (simp add: be32_def)

lemma be16_inject: "be16 x = be16 y \<longleftrightarrow> x = y"
  by (metis read_u16_be16)

lemma swapped_port: "u16_from_be p = p \<longleftrightarrow> (ucast p :: u8) = ucast (drop_bit 8 p)"
proof -
  have "u16_from_be p = p \<longleftrightarrow> be16 (mk16 (ucast p) (ucast (drop_bit 8 p))) = be16 p"
    by (simp only: be16_inject swap_bytes(2))
  also have "\<dots> \<longleftrightarrow> [ucast p, ucast (drop_bit 8 p)] = [ucast (drop_bit 8 p), ucast p :: u8]"
    by (simp only: be16_mk16 be16_def [of p])
  finally show ?thesis by auto
qed

text \<open>C39: the sender address that a pop reports cannot be used to answer. Results carry the port in host byte order, while addresses that
  applications pass in are read in network byte order, on a little-endian machine: the address of a popped datagram, given back to a push, leads to
  the right host but to the port with its two bytes swapped; only ports whose bytes are equal survive.\<close>

theorem reply_port_swapped:
  assumes "qr_value (pack_result failed (ResPop (Some (ip, port)) data) qd qt) = QrSga sga"
  shows "sockaddr_to_socketaddrv4 (sga_addr sga) = Ok (ip, u16_from_be port)
    \<and> (sockaddr_to_socketaddrv4 (sga_addr sga) = Ok (ip, port) \<longleftrightarrow> (ucast port :: u8) = ucast (drop_bit 8 port))"
proof -
  have "sga_addr sga = saddr_of (ip, port)"
    using assms by (auto simp: pack_result_def into_sgarray_def db_into_raw_def db_from_slice_def)
  then show ?thesis
    using swapped_port [of port] by (simp add: sockaddr_to_socketaddrv4_def saddr_of_def swap_bytes(1))
qed

theorem reply_port_swapped_witness:
  "\<exists>sga. qr_value (pack_result (\<lambda>_. QrZeroed) (ResPop (Some (0x0A000001, 80)) [1, 2, 3]) 5 7) = QrSga sga
     \<and> sockaddr_to_socketaddrv4 (sga_addr sga) = Ok (0x0A000001, 20480)"
proof -
  obtain sga where s: "qr_value (pack_result (\<lambda>_. QrZeroed) (ResPop (Some (0x0A000001, 80)) [1, 2, 3]) 5 7) = QrSga sga"
    by (simp add: pack_result_def into_sgarray_def db_into_raw_def db_from_slice_def)
  have "u16_from_be 80 = 20480"
    by (simp add: swap_bytes mk16_def)
  with s reply_port_swapped [OF s] show ?thesis by auto
qed

section \<open>What the application sees\<close>

lemma free_one_segment:
  assumes "len < 2 ^ 32" "rp_offset p + len \<le> length (rp_alloc p)"
  shows "free_sgarray (one_segment p len) =
    (if len = 0 then Some (Err (fail_new EINVAL ''zero-length buffer'')) else if len = length (rp_alloc p) then Some (Ok ()) else None)"
  using assms
  by (auto simp: free_sgarray_def one_segment_def db_from_raw_parts_def arc_from_raw_def unat_of_nat)

text \<open>C40: arrays and buffers. An array that the DPDK runtime makes of a heap buffer shows exactly the window of the buffer, and so does its
  clone; an array of the other runtimes always starts at the allocation, so that a buffer whose headers were cut off shows the headers
  again, as many bytes as its payload has. Giving such an array back to be freed is defined only when the buffer was never narrowed: an
  empty one is refused with EINVAL, one that shows the whole allocation is freed, and for every other the runtime hands
  \<^verbatim>\<open>Arc::from_raw\<close> a pointer or a length that is not that of an allocation. An array that the application allocated is zeroed
  and can be freed.\<close>

theorem sgarray_windows:
  assumes "db_inv b" "db_data b = Some d" "length d < 2 ^ 32" "0 < n" "n < 2 ^ 32"
  shows "\<exists>good bad own. catnip_into_sgarray b = Ok good \<and> into_sgarray b = Ok bad \<and> alloc_sgarray n = Ok own
    \<and> sga_bytes good = Some (db_view b) \<and> clone_sgarray good = Some (Ok (db_from_slice (db_view b)))
    \<and> sga_bytes bad = Some (take (db_len b) d) \<and> clone_sgarray bad = Some (Ok (db_from_slice (take (db_len b) d)))
    \<and> (free_sgarray good = Some (Ok ()) \<longleftrightarrow> db_offset b = 0 \<and> db_len b = length d \<and> d \<noteq> [])
    \<and> (free_sgarray good = None \<longleftrightarrow> db_len b \<noteq> 0 \<and> (db_offset b \<noteq> 0 \<or> db_len b \<noteq> length d))
    \<and> free_sgarray bad = free_sgarray good \<and> (db_offset b = 0 \<longrightarrow> bad = good)
    \<and> sga_bytes own = Some (replicate n 0) \<and> free_sgarray own = Some (Ok ())"
proof -
  let ?p = "\<lparr>rp_alloc = d, rp_offset = 0\<rparr>" and ?q = "\<lparr>rp_alloc = d, rp_offset = db_offset b\<rparr>"
  let ?o = "\<lparr>rp_alloc = replicate n 0, rp_offset = 0\<rparr>"
  have len: "db_offset b + db_len b \<le> length d"
    using assms(1,2) by (simp add: db_inv_def)
  then have u: "unat (of_nat (db_len b) :: u32) = db_len b" "unat (of_nat n :: u32) = n" "db_len b < 2 ^ 32"
    using assms(3,5) by (simp_all add: unat_of_nat)
  have arrays: "catnip_into_sgarray b = Ok (one_segment ?q (db_len b))" "into_sgarray b = Ok (one_segment ?p (db_len b))"
    "alloc_sgarray n = Ok (one_segment ?o n)"
    using assms(2,4) by (simp_all add: catnip_into_sgarray_def into_sgarray_def alloc_sgarray_def db_into_raw_def db_new_def)
  have bytes: "sga_bytes (one_segment ?q (db_len b)) = Some (db_view b)" "sga_bytes (one_segment ?p (db_len b)) = Some (take (db_len b) d)"
    "sga_bytes (one_segment ?o n) = Some (replicate n 0)"
    using assms(2) len u by (simp_all add: sga_bytes_def one_segment_def raw_slice_def db_view_def db_deref_def)
  then have clones: "clone_sgarray (one_segment ?q (db_len b)) = Some (Ok (db_from_slice (db_view b)))"
    "clone_sgarray (one_segment ?p (db_len b)) = Some (Ok (db_from_slice (take (db_len b) d)))"
    by (simp_all add: clone_sgarray_def sga_bytes_def one_segment_def)
  show ?thesis
    by (rule exI [of _ "one_segment ?q (db_len b)"], rule exI [of _ "one_segment ?p (db_len b)"], rule exI [of _ "one_segment ?o n"])
      (use arrays bytes clones len u assms(4,5) in \<open>auto simp: free_one_segment\<close>)
qed

theorem sgarray_windows_witness:
  "\<exists>good bad. catnip_into_sgarray \<lparr>db_data = Some [8, 0, 1, 2, 3], db_offset = 2, db_len = 3\<rparr> = Ok good
     \<and> into_sgarray \<lparr>db_data = Some [8, 0, 1, 2, 3], db_offset = 2, db_len = 3\<rparr> = Ok bad
     \<and> sga_bytes good = Some [1, 2, 3] \<and> sga_bytes bad = Some [8, 0, 1] \<and> free_sgarray good = None"
  using sgarray_windows [of "\<lparr>db_data = Some [8, 0, 1, 2, 3], db_offset = 2, db_len = 3\<rparr>" "[8, 0, 1, 2, 3]" 1]
  by (auto simp: db_inv_def db_view_def db_deref_def)

end
