(* ===== verification/Catnap.thy ===== *)
theory Catnap
  imports Interop
begin

text \<open>
  The library operating system over kernel sockets (\<^verbatim>\<open>catnap/mod.rs\<close>, \<^verbatim>\<open>catnap/futures\<close>): queue descriptors are mapped to file
  descriptors, and operations are tasks that call the kernel until it does not answer that it would block. The kernel is a
  parameter: a state and the system calls on it, so that everything the outside does is in how its state answers.
\<close>

section \<open>The kernel\<close>

type_synonym fd = nat

record 'k kernel_ops =
  kn_socket :: "qtype \<Rightarrow> 'k \<Rightarrow> (errno + fd) \<times> 'k"
  kn_set_reuseport :: "fd \<Rightarrow> 'k \<Rightarrow> 'k"
  kn_bind :: "fd \<Rightarrow> sockaddr \<Rightarrow> 'k \<Rightarrow> (errno + unit) \<times> 'k"
  kn_listen :: "fd \<Rightarrow> nat \<Rightarrow> 'k \<Rightarrow> (errno + unit) \<times> 'k"
  kn_accept :: "fd \<Rightarrow> 'k \<Rightarrow> (errno + fd) \<times> 'k"
  kn_set_accepted :: "fd \<Rightarrow> 'k \<Rightarrow> 'k"
  kn_connect :: "fd \<Rightarrow> sockaddr \<Rightarrow> 'k \<Rightarrow> (errno + unit) \<times> 'k"
  kn_send :: "fd \<Rightarrow> bytes \<Rightarrow> 'k \<Rightarrow> (errno + nat) \<times> 'k"
  kn_sendto :: "fd \<Rightarrow> bytes \<Rightarrow> sockaddr \<Rightarrow> 'k \<Rightarrow> (errno + nat) \<times> 'k"
  kn_recvfrom :: "fd \<Rightarrow> nat \<Rightarrow> 'k \<Rightarrow> (errno + bytes \<times> sockaddr option) \<times> 'k"
  kn_close :: "fd \<Rightarrow> 'k \<Rightarrow> (errno + unit) \<times> 'k"

section \<open>Operations\<close>

definition POP_SIZE :: nat where
  "POP_SIZE = 9216"

datatype catnap_op =
    CnAccept qdesc fd qdesc "fd outcome option"
  | CnConnect qdesc fd sockaddr "unit outcome option"
  | CnPush qdesc fd bytes "unit outcome option"
  | CnPushto qdesc fd sockaddr bytes "unit outcome option"
  | CnPop qdesc fd "(sockaddr option \<times> bytes) outcome option"

text \<open>The world of the tasks: the kernel, and whether a task has panicked.\<close>

record 'k kernel_world =
  kw_kernel :: 'k
  kw_aborted :: bool

text \<open>What a future makes of the answer of a system call: it stays pending and wakes its own task while the call would block.\<close>

definition syscall_poll ::
  "nat \<Rightarrow> errno set \<Rightarrow> ('a \<Rightarrow> 'r) \<Rightarrow> ('k \<Rightarrow> (errno + 'a) \<times> 'k) \<Rightarrow> ('r outcome option \<Rightarrow> catnap_op) \<Rightarrow> 'k kernel_world \<Rightarrow>
   bool \<times> catnap_op \<times> 'k kernel_world \<times> catnap_op sched_call list" where
  "syscall_poll key blocked f call op w =
     (case call (kw_kernel w) of (r, s) \<Rightarrow>
        let w = w\<lparr>kw_kernel := s\<rparr>
        in case r of
             Inr x \<Rightarrow> (True, op (Some (Ok (f x))), w, [])
           | Inl e \<Rightarrow>
               if e \<in> blocked then (False, op None, w, [Wake key])
               else (True, op (Some (Err (fail_new e ''operation failed''))), w, []))"

definition accept_call :: "'k kernel_ops \<Rightarrow> fd \<Rightarrow> 'k \<Rightarrow> (errno + fd) \<times> 'k" where
  "accept_call K fd s =
     (case kn_accept K fd s of
        (Inr new_fd, s) \<Rightarrow> (Inr new_fd, kn_set_accepted K new_fd s)
      | (Inl e, s) \<Rightarrow> (Inl e, s))"

text \<open>A finished operation must not be polled.\<close>

fun catnap_poll ::
  "'k kernel_ops \<Rightarrow> nat \<Rightarrow> catnap_op \<Rightarrow> 'k kernel_world \<Rightarrow> bool \<times> catnap_op \<times> 'k kernel_world \<times> catnap_op sched_call list" where
  "catnap_poll K key (CnAccept qd fd new_qd None) w = syscall_poll key {EAGAIN} (\<lambda>x. x) (accept_call K fd) (CnAccept qd fd new_qd) w"
| "catnap_poll K key (CnConnect qd fd addr None) w =
     syscall_poll key {EINPROGRESS, EALREADY} (\<lambda>x. x) (kn_connect K fd addr) (CnConnect qd fd addr) w"
| "catnap_poll K key (CnPush qd fd buf None) w = syscall_poll key {EAGAIN} (\<lambda>_. ()) (kn_send K fd buf) (CnPush qd fd buf) w"
| "catnap_poll K key (CnPushto qd fd addr buf None) w =
     syscall_poll key {EAGAIN} (\<lambda>_. ()) (kn_sendto K fd buf addr) (CnPushto qd fd addr buf) w"
| "catnap_poll K key (CnPop qd fd None) w =
     syscall_poll key {EAGAIN} (\<lambda>(buf, addr). (addr, buf)) (kn_recvfrom K fd POP_SIZE) (CnPop qd fd) w"
| "catnap_poll K key op w = (True, op, w\<lparr>kw_aborted := True\<rparr>, [])"

text \<open>The descriptor, the booked descriptor of an accept, the file descriptor it got, and the result; \<open>None\<close>: not ready.\<close>

fun get_result :: "catnap_op \<Rightarrow> (qdesc \<times> qdesc option \<times> fd option \<times> operation_result) option" where
  "get_result (CnAccept qd _ new_qd (Some (Ok new_fd))) = Some (qd, Some new_qd, Some new_fd, ResAccept new_qd)"
| "get_result (CnAccept qd _ new_qd (Some (Err e))) = Some (qd, Some new_qd, None, ResFailed e)"
| "get_result (CnConnect qd _ _ (Some (Ok _))) = Some (qd, None, None, ResConnect)"
| "get_result (CnConnect qd _ _ (Some (Err e))) = Some (qd, None, None, ResFailed e)"
| "get_result (CnPush qd _ _ (Some (Ok _))) = Some (qd, None, None, ResPush)"
| "get_result (CnPush qd _ _ (Some (Err e))) = Some (qd, None, None, ResFailed e)"
| "get_result (CnPushto qd _ _ _ (Some (Ok _))) = Some (qd, None, None, ResPush)"
| "get_result (CnPushto qd _ _ _ (Some (Err e))) = Some (qd, None, None, ResFailed e)"
| "get_result (CnPop qd _ (Some (Ok (addr, buf)))) = Some (qd, None, None, ResPop addr buf)"
| "get_result (CnPop qd _ (Some (Err e))) = Some (qd, None, None, ResFailed e)"
| "get_result _ = None"

section \<open>State\<close>

record ('t, 'k) catnap =
  cn_qtable :: 't
  cn_sockets :: "qdesc \<Rightarrow> fd option"
  cn_scheduler :: "catnap_op scheduler"
  cn_world :: "'k kernel_world"

record ('t, 'k) catnap_env =
  ce_slab :: "'t slab_ops"
  ce_kernel :: "'k kernel_ops"

definition catnap_new :: "('t, 'k) catnap_env \<Rightarrow> 'k \<Rightarrow> ('t, 'k) catnap" where
  "catnap_new E s =
     \<lparr>cn_qtable = sb_new (ce_slab E), cn_sockets = Map.empty, cn_scheduler = sched_default,
      cn_world = \<lparr>kw_kernel = s, kw_aborted = False\<rparr>\<rparr>"

text \<open>A system call by the library itself.\<close>

definition syscall :: "('k \<Rightarrow> 'a \<times> 'k) \<Rightarrow> ('t, 'k) catnap \<Rightarrow> 'a \<times> ('t, 'k) catnap" where
  "syscall f c = (case f (kw_kernel (cn_world c)) of (r, s) \<Rightarrow> (r, c\<lparr>cn_world := (cn_world c)\<lparr>kw_kernel := s\<rparr>\<rparr>))"

section \<open>Socket calls\<close>

definition catnap_socket :: "('t, 'k) catnap_env \<Rightarrow> int \<Rightarrow> int \<Rightarrow> ('t, 'k) catnap \<Rightarrow> qdesc outcome \<times> ('t, 'k) catnap" where
  "catnap_socket E domain typ c =
     (if domain \<noteq> AF_INET then (Err (fail_new ENOTSUP ''communication domain  not supported''), c)
      else if typ \<noteq> SOCK_STREAM \<and> typ \<noteq> SOCK_DGRAM then (Err (fail_new ENOTSUP ''socket type not supported''), c)
      else case syscall (kn_socket (ce_kernel E) (if typ = SOCK_STREAM then TcpSocket else UdpSocket)) c of
             (Inl e, c) \<Rightarrow> (Err (fail_new e ''failed to create socket''), c)
           | (Inr fd, c) \<Rightarrow>
               (case syscall (\<lambda>s. ((), kn_set_reuseport (ce_kernel E) fd s)) c of (_, c) \<Rightarrow>
                case table_alloc (ce_slab E) (qtype_code TcpSocket) (cn_qtable c) of (qd, t) \<Rightarrow>
                  if cn_sockets c qd \<noteq> None then (Panic, c)
                  else (Ok qd, c\<lparr>cn_qtable := t, cn_sockets := (cn_sockets c)(qd \<mapsto> fd)\<rparr>)))"

definition bad_qd :: fail where
  "bad_qd = fail_new EBADF ''invalid queue descriptor''"

definition catnap_bind :: "('t, 'k) catnap_env \<Rightarrow> qdesc \<Rightarrow> sockaddr \<Rightarrow> ('t, 'k) catnap \<Rightarrow> unit outcome \<times> ('t, 'k) catnap" where
  "catnap_bind E qd local c =
     (case cn_sockets c qd of
        None \<Rightarrow> (Err bad_qd, c)
      | Some fd \<Rightarrow>
          (case syscall (kn_bind (ce_kernel E) fd local) c of (Inr _, c) \<Rightarrow> (Ok (), c) | (Inl _, c) \<Rightarrow> (Panic, c)))"

definition catnap_listen :: "('t, 'k) catnap_env \<Rightarrow> qdesc \<Rightarrow> nat \<Rightarrow> ('t, 'k) catnap \<Rightarrow> unit outcome \<times> ('t, 'k) catnap" where
  "catnap_listen E qd backlog c =
     (case cn_sockets c qd of
        None \<Rightarrow> (Err bad_qd, c)
      | Some fd \<Rightarrow>
          (case syscall (kn_listen (ce_kernel E) fd backlog) c of (Inr _, c) \<Rightarrow> (Ok (), c) | (Inl _, c) \<Rightarrow> (Panic, c)))"

definition catnap_schedule :: "catnap_op \<Rightarrow> ('t, 'k) catnap \<Rightarrow> nat outcome \<times> ('t, 'k) catnap" where
  "catnap_schedule op c =
     (case sched_insert op (cn_scheduler c) of
        Ok (Some (key, s)) \<Rightarrow> (Ok key, c\<lparr>cn_scheduler := s\<rparr>)
      | Ok None \<Rightarrow> (Err (fail_new EAGAIN ''cannot schedule co-routine''), c)
      | Err e \<Rightarrow> (Err e, c)
      | Panic \<Rightarrow> (Panic, c))"

definition on_socket :: "qdesc \<Rightarrow> (fd \<Rightarrow> catnap_op) \<Rightarrow> ('t, 'k) catnap \<Rightarrow> nat outcome \<times> ('t, 'k) catnap" where
  "on_socket qd op c = (case cn_sockets c qd of None \<Rightarrow> (Err bad_qd, c) | Some fd \<Rightarrow> catnap_schedule (op fd) c)"

definition catnap_accept :: "('t, 'k) catnap_env \<Rightarrow> qdesc \<Rightarrow> ('t, 'k) catnap \<Rightarrow> nat outcome \<times> ('t, 'k) catnap" where
  "catnap_accept E qd c =
     (case cn_sockets c qd of
        None \<Rightarrow> (Err bad_qd, c)
      | Some fd \<Rightarrow>
          (case table_alloc (ce_slab E) (qtype_code TcpSocket) (cn_qtable c) of (new_qd, t) \<Rightarrow>
           case catnap_schedule (CnAccept qd fd new_qd None) (c\<lparr>cn_qtable := t\<rparr>) of
             (Err e, c) \<Rightarrow> (Err e, c\<lparr>cn_qtable := snd (table_free (ce_slab E) new_qd (cn_qtable c))\<rparr>)
           | r \<Rightarrow> r))"

definition catnap_connect :: "qdesc \<Rightarrow> sockaddr \<Rightarrow> ('t, 'k) catnap \<Rightarrow> nat outcome \<times> ('t, 'k) catnap" where
  "catnap_connect qd remote c = on_socket qd (\<lambda>fd. CnConnect qd fd remote None) c"

definition catnap_close :: "('t, 'k) catnap_env \<Rightarrow> qdesc \<Rightarrow> ('t, 'k) catnap \<Rightarrow> unit outcome \<times> ('t, 'k) catnap" where
  "catnap_close E qd c =
     (case cn_sockets c qd of
        None \<Rightarrow> (Err bad_qd, c)
      | Some fd \<Rightarrow> (case syscall (kn_close (ce_kernel E) fd) c of (Inr _, c) \<Rightarrow> (Ok (), c) | (Inl _, c) \<Rightarrow> (Err bad_qd, c)))"

definition catnap_push2 :: "qdesc \<Rightarrow> bytes \<Rightarrow> ('t, 'k) catnap \<Rightarrow> nat outcome \<times> ('t, 'k) catnap" where
  "catnap_push2 qd data c =
     (if data = [] then (Err (fail_new EINVAL ''zero-length buffer''), c) else on_socket qd (\<lambda>fd. CnPush qd fd data None) c)"

definition catnap_pushto2 :: "qdesc \<Rightarrow> bytes \<Rightarrow> sockaddr \<Rightarrow> ('t, 'k) catnap \<Rightarrow> nat outcome \<times> ('t, 'k) catnap" where
  "catnap_pushto2 qd data remote c =
     (if data = [] then (Err (fail_new EINVAL ''zero-length buffer''), c) else on_socket qd (\<lambda>fd. CnPushto qd fd remote data None) c)"

text \<open>Scatter-gather arrays are copied first; where the copy is undefined behaviour, the model aborts.\<close>

definition with_sgarray :: "sgarray \<Rightarrow> (bytes \<Rightarrow> ('t, 'k) catnap \<Rightarrow> nat outcome \<times> ('t, 'k) catnap) \<Rightarrow> ('t, 'k) catnap \<Rightarrow> nat outcome \<times> ('t, 'k) catnap" where
  "with_sgarray sga f c = (case clone_sgarray sga of Some (Ok buf) \<Rightarrow> f (db_view buf) c | Some (Err e) \<Rightarrow> (Err e, c) | _ \<Rightarrow> (Panic, c))"

definition catnap_push :: "qdesc \<Rightarrow> sgarray \<Rightarrow> ('t, 'k) catnap \<Rightarrow> nat outcome \<times> ('t, 'k) catnap" where
  "catnap_push qd sga c = with_sgarray sga (catnap_push2 qd) c"

definition catnap_pushto :: "qdesc \<Rightarrow> sgarray \<Rightarrow> sockaddr \<Rightarrow> ('t, 'k) catnap \<Rightarrow> nat outcome \<times> ('t, 'k) catnap" where
  "catnap_pushto qd sga remote c = with_sgarray sga (\<lambda>data. catnap_pushto2 qd data remote) c"

definition catnap_pop :: "qdesc \<Rightarrow> ('t, 'k) catnap \<Rightarrow> nat outcome \<times> ('t, 'k) catnap" where
  "catnap_pop qd c = on_socket qd (\<lambda>fd. CnPop qd fd None) c"

section \<open>Waiting\<close>

text \<open>\<open>None\<close> is a panic.\<close>

definition catnap_take_result :: "('t, 'k) catnap_env \<Rightarrow> nat \<Rightarrow> ('t, 'k) catnap \<Rightarrow> ((qdesc \<times> operation_result) \<times> ('t, 'k) catnap) option" where
  "catnap_take_result E key c =
     Option.bind (sched_take key (cn_scheduler c)) (\<lambda>(op, s).
     Option.bind (get_result op) (\<lambda>(qd, new_qd, new_fd, r).
       let c = c\<lparr>cn_scheduler := s\<rparr>
       in case new_qd of
            None \<Rightarrow> Some ((qd, r), c)
          | Some q \<Rightarrow>
              (case new_fd of
                 Some fd \<Rightarrow> if cn_sockets c q \<noteq> None then None else Some ((qd, r), c\<lparr>cn_sockets := (cn_sockets c)(q \<mapsto> fd)\<rparr>)
               | None \<Rightarrow> Some ((qd, r), c\<lparr>cn_qtable := snd (table_free (ce_slab E) q (cn_qtable c))\<rparr>))))"

definition catnap_poll_scheduler :: "('t, 'k) catnap_env \<Rightarrow> ('t, 'k) catnap \<Rightarrow> ('t, 'k) catnap option" where
  "catnap_poll_scheduler E c =
     (case sched_poll (catnap_poll (ce_kernel E)) (cn_scheduler c, cn_world c) of
        None \<Rightarrow> None
      | Some (s, w) \<Rightarrow> if kw_aborted w then None else Some (c\<lparr>cn_scheduler := s, cn_world := w\<rparr>))"

text \<open>The loops poll until something has completed; \<open>None\<close>: never.\<close>

partial_function (option) catnap_wait_loop ::
  "('t, 'k) catnap_env \<Rightarrow> nat \<Rightarrow> ('t, 'k) catnap \<Rightarrow> ((qdesc \<times> operation_result) outcome \<times> ('t, 'k) catnap) option" where
  "catnap_wait_loop E key c =
     (case catnap_poll_scheduler E c of
        None \<Rightarrow> Some (Panic, c)
      | Some c \<Rightarrow>
          if has_completed key (cn_scheduler c)
          then Some (case catnap_take_result E key c of None \<Rightarrow> (Panic, c) | Some (r, c) \<Rightarrow> (Ok r, c))
          else catnap_wait_loop E key c)"

definition catnap_wait2 :: "('t, 'k) catnap_env \<Rightarrow> nat \<Rightarrow> ('t, 'k) catnap \<Rightarrow> ((qdesc \<times> operation_result) outcome \<times> ('t, 'k) catnap) option" where
  "catnap_wait2 E qt c =
     (case from_raw_handle qt (cn_scheduler c) of
        Ok (Some key) \<Rightarrow> catnap_wait_loop E key c
      | Ok None \<Rightarrow> Some (Err (fail_new EINVAL ''invalid queue token''), c)
      | Err e \<Rightarrow> Some (Err e, c)
      | Panic \<Rightarrow> Some (Panic, c))"

definition pack_outcome :: "nat \<Rightarrow> (qdesc \<times> operation_result) outcome \<Rightarrow> qresult outcome" where
  "pack_outcome qt r = (case r of Ok (qd, x) \<Rightarrow> Ok (pack_result (\<lambda>_. QrZeroed) x qd qt) | Err e \<Rightarrow> Err e | Panic \<Rightarrow> Panic)"

definition catnap_wait :: "('t, 'k) catnap_env \<Rightarrow> nat \<Rightarrow> ('t, 'k) catnap \<Rightarrow> (qresult outcome \<times> ('t, 'k) catnap) option" where
  "catnap_wait E qt c = map_option (apfst (pack_outcome qt)) (catnap_wait2 E qt c)"

text \<open>The clock is read once per round; \<open>None\<close>: still waiting after the given rounds.\<close>

fun catnap_timedwait_loop ::
  "('t, 'k) catnap_env \<Rightarrow> nat \<Rightarrow> instant option \<Rightarrow> instant list \<Rightarrow> ('t, 'k) catnap \<Rightarrow> ((qdesc \<times> operation_result) outcome \<times> ('t, 'k) catnap) option" where
  "catnap_timedwait_loop E key abstime [] c = None"
| "catnap_timedwait_loop E key abstime (now # nows) c =
     (case catnap_poll_scheduler E c of
        None \<Rightarrow> Some (Panic, c)
      | Some c \<Rightarrow>
          if has_completed key (cn_scheduler c)
          then Some (case catnap_take_result E key c of None \<Rightarrow> (Panic, c) | Some (r, c) \<Rightarrow> (Ok r, c))
          else if (case abstime of None \<Rightarrow> True | Some t \<Rightarrow> t \<le> now) then Some (Err (fail_new ETIMEDOUT ''timer expired''), c)
          else catnap_timedwait_loop E key abstime nows c)"

definition catnap_timedwait ::
  "('t, 'k) catnap_env \<Rightarrow> nat \<Rightarrow> instant option \<Rightarrow> instant list \<Rightarrow> ('t, 'k) catnap \<Rightarrow> (qresult outcome \<times> ('t, 'k) catnap) option" where
  "catnap_timedwait E qt abstime nows c =
     (case from_raw_handle qt (cn_scheduler c) of
        Ok (Some key) \<Rightarrow> map_option (apfst (pack_outcome qt)) (catnap_timedwait_loop E key abstime nows c)
      | Ok None \<Rightarrow> Some (Err (fail_new EINVAL ''invalid queue token''), c)
      | Err e \<Rightarrow> Some (Err e, c)
      | Panic \<Rightarrow> Some (Panic, c))"

fun catnap_scan ::
  "('t, 'k) catnap_env \<Rightarrow> nat \<Rightarrow> nat \<Rightarrow> nat list \<Rightarrow> (nat \<times> qdesc \<times> operation_result) list \<Rightarrow> ('t, 'k) catnap \<Rightarrow>
   (nat \<times> qdesc \<times> operation_result) list outcome \<times> ('t, 'k) catnap" where
  "catnap_scan E limit i [] found c = (Ok found, c)"
| "catnap_scan E limit i (qt # qts) found c =
     (if length found = limit then (Ok found, c)
      else case from_raw_handle qt (cn_scheduler c) of
             Panic \<Rightarrow> (Panic, c)
           | Err e \<Rightarrow> (Err e, c)
           | Ok None \<Rightarrow> (Err (fail_new EINVAL ''invalid queue token''), c)
           | Ok (Some key) \<Rightarrow>
               if has_completed key (cn_scheduler c)
               then (case catnap_take_result E key c of
                       None \<Rightarrow> (Panic, c)
                     | Some (r, c) \<Rightarrow> catnap_scan E limit (i + 1) qts (found @ [(i, r)]) c)
               else catnap_scan E limit (i + 1) qts found c)"

partial_function (option) catnap_wait_any2 ::
  "('t, 'k) catnap_env \<Rightarrow> nat \<Rightarrow> nat list \<Rightarrow> ('t, 'k) catnap \<Rightarrow> ((nat \<times> qdesc \<times> operation_result) list outcome \<times> ('t, 'k) catnap) option" where
  "catnap_wait_any2 E limit qts c =
     (case catnap_poll_scheduler E c of
        None \<Rightarrow> Some (Panic, c)
      | Some c \<Rightarrow>
          (case catnap_scan E limit 0 qts [] c of
             (Ok found, c) \<Rightarrow> if found \<noteq> [] then Some (Ok found, c) else catnap_wait_any2 E limit qts c
           | (r, c) \<Rightarrow> Some (r, c)))"

end
