(* ===== verification/Self_Waking.thy ===== *)
theory Self_Waking
  imports Sched_Poll
begin

text \<open>
  Tasks that wake nobody but themselves: a poll of the scheduler runs them without aborting, keeps who they are, and marks exactly the finished
  ones. The tasks of a library operating system over system calls are of this kind.
\<close>

locale self_waking =
  fixes run :: "('f, 'w) poll_fn"
    and fin :: "'f \<Rightarrow> bool"
    and name_of :: "'f \<Rightarrow> 'n"
    and wok :: "'w \<Rightarrow> bool"
  assumes run_ok: "\<not> fin f \<Longrightarrow> wok w \<Longrightarrow> run k f w = (ready, f', w', calls) \<Longrightarrow>
    fin f' = ready \<and> name_of f' = name_of f \<and> wok w' \<and> (calls = [] \<or> calls = [Wake k])"
begin

definition tasks_ok :: "'f scheduler \<Rightarrow> bool" where
  "tasks_ok s \<longleftrightarrow> sched_ok s \<and> (\<forall>k. \<not> dropped k s) \<and> (\<forall>k f. slab_get k (sc_slab s) = Some f \<longrightarrow> completed k s = fin f)"

definition same_tasks :: "'f scheduler \<Rightarrow> 'f scheduler \<Rightarrow> bool" where
  "same_tasks s s' \<longleftrightarrow> length (sc_pages s') = length (sc_pages s)
     \<and> (\<forall>k. map_option name_of (slab_get k (sc_slab s')) = map_option name_of (slab_get k (sc_slab s)))"

lemma same_tasks_live: "same_tasks s s' \<Longrightarrow> live k s' = live k s"
  unfolding same_tasks_def live_def by (metis option.map_disc_iff)

lemma same_tasks_trans: "same_tasks s s1 \<Longrightarrow> same_tasks s1 s2 \<Longrightarrow> same_tasks s s2"
  by (simp add: same_tasks_def)

lemma task_put:
  assumes "tasks_ok s" "slab_get k (sc_slab s) = Some f" "name_of f' = name_of f"
  shows "sched_ok (s\<lparr>sc_slab := slab_put k f' (sc_slab s)\<rparr>)" "same_tasks s (s\<lparr>sc_slab := slab_put k f' (sc_slab s)\<rparr>)"
    "slab_get j (slab_put k f' (sc_slab s)) = (if j = k then Some f' else slab_get j (sc_slab s))"
proof -
  have ok: "slab_ok (sc_slab s)"
    using assms(1) by (simp add: tasks_ok_def sched_ok_def)
  show g: "slab_get j (slab_put k f' (sc_slab s)) = (if j = k then Some f' else slab_get j (sc_slab s))" for j
    using slab.get_put [OF ok, of j k f'] assms(2) by simp
  show "sched_ok (s\<lparr>sc_slab := slab_put k f' (sc_slab s)\<rparr>)"
    using sched_put_ok(1) [of s k f'] assms(1) by (simp add: tasks_ok_def)
  show "same_tasks s (s\<lparr>sc_slab := slab_put k f' (sc_slab s)\<rparr>)"
    using assms(2,3) by (simp add: same_tasks_def g)
qed

lemma flag_put [simp]: "flag g j (s\<lparr>sc_slab := x\<rparr>) = flag g j s"
  by (simp add: flag_def)

lemma poll_task_step:
  assumes "tasks_ok s" "live k s" "\<not> completed k s" "wok w"
  shows "\<exists>s' w'. poll_task run k (s, w) = Some (s', w') \<and> tasks_ok s' \<and> wok w' \<and> same_tasks s s'
    \<and> (\<forall>j. j \<noteq> k \<longrightarrow> completed j s' = completed j s)"
proof -
  obtain f where f: "slab_get k (sc_slab s) = Some f"
    using assms(2) by (auto simp: live_def)
  obtain ready f' w' calls where r: "run k f w = (ready, f', w', calls)"
    using prod_cases4 by blast
  have "\<not> fin f"
    using assms(1,3) f by (auto simp: tasks_ok_def)
  note r' = run_ok [OF this assms(4) r]
  let ?s = "s\<lparr>sc_slab := slab_put k f' (sc_slab s)\<rparr>"
  note p = task_put [OF assms(1) f, of f']
  have pg: "k div 64 < length (sc_pages s)"
    using assms(1,2) by (auto simp: tasks_ok_def sched_ok_def)
  obtain s1 where s1: "do_calls calls ?s = Some s1" "sc_slab s1 = sc_slab ?s" "length (sc_pages s1) = length (sc_pages s)"
    "\<And>j. completed j s1 = completed j s" "\<And>j. dropped j s1 = dropped j s" "\<And>j. notified j s1 \<Longrightarrow> j = k \<or> notified j s"
  proof (cases "calls = []")
    case True
    then show ?thesis by (intro that [of ?s]) simp_all
  next
    case False
    obtain s1 where n: "on_page page_notify k ?s = Some s1"
      using on_page_total [of k ?s page_notify] pg by auto
    show ?thesis
      by (rule that [of s1]) (use False r' n on_page_frame [OF n] wake_flags [OF n] in \<open>auto simp: wake_task_def\<close>)
  qed
  obtain s2 where s2: "(if ready then on_page mark_completed k s1 else Some s1) = Some s2" "sc_slab s2 = sc_slab ?s"
    "length (sc_pages s2) = length (sc_pages s)" "\<And>j. completed j s2 \<longleftrightarrow> ready \<and> j = k \<or> completed j s"
    "\<And>j. dropped j s2 = dropped j s" "\<And>j. notified j s2 \<Longrightarrow> j = k \<or> notified j s"
  proof (cases ready)
    case True
    obtain s2 where c: "on_page mark_completed k s1 = Some s2"
      using on_page_total [of k s1 mark_completed] pg s1(3) by auto
    show ?thesis
      by (rule that [of s2]) (use True c on_page_frame [OF c] complete_flags [OF c] s1 in auto)
  qed (use that [of s1] s1 in simp)
  have same: "same_tasks s s2"
    using p(2) r' s2(2,3) by (simp add: same_tasks_def)
  have "runnable j s2 \<Longrightarrow> live j s2" for j
    using s2 same_tasks_live [OF same, of j] assms(1,2) unfolding tasks_ok_def sched_ok_def runnable_def by blast
  then have "sched_ok s2"
    using p(1) r' s2 same_tasks_live [OF same] assms(1) by (auto simp: sched_ok_def tasks_ok_def)
  moreover have "completed j s2 = fin g" if "slab_get j (sc_slab s2) = Some g" for j g
    using that s2(2,4) p(3) [of j] r' assms(1,3) by (auto simp: tasks_ok_def split: if_splits)
  ultimately have "tasks_ok s2"
    using assms(1) s2(5) by (simp add: tasks_ok_def)
  then show ?thesis
    using f r r' s1(1) s2(1,4) same by (auto simp: poll_task_def)
qed

lemma poll_tasks_step:
  assumes "tasks_ok s" "wok w" "distinct ks" "\<forall>k\<in>set ks. live k s \<and> \<not> completed k s"
  shows "\<exists>s' w'. poll_tasks run ks (s, w) = Some (s', w') \<and> tasks_ok s' \<and> wok w' \<and> same_tasks s s'
    \<and> (\<forall>j. j \<notin> set ks \<longrightarrow> completed j s' = completed j s)"
  using assms
proof (induction ks arbitrary: s w)
  case (Cons k ks)
  obtain s1 w1 where s1: "poll_task run k (s, w) = Some (s1, w1)" "tasks_ok s1" "wok w1" "same_tasks s s1"
    "\<forall>j. j \<noteq> k \<longrightarrow> completed j s1 = completed j s"
    using poll_task_step [of s k w] Cons.prems by auto
  have "\<forall>k\<in>set ks. live k s1 \<and> \<not> completed k s1"
    using Cons.prems(3,4) s1(5) same_tasks_live [OF s1(4)] by (metis distinct.simps(2) list.set_intros(2))
  then obtain s2 w2 where "poll_tasks run ks (s1, w1) = Some (s2, w2)" "tasks_ok s2" "wok w2" "same_tasks s1 s2"
    "\<forall>j. j \<notin> set ks \<longrightarrow> completed j s2 = completed j s1"
    using Cons.IH [OF s1(2,3)] Cons.prems(3) by auto
  then show ?case
    using s1 same_tasks_trans [OF s1(4)] by auto
qed (simp add: same_tasks_def)

lemma poll_page_step:
  assumes "tasks_ok s" "wok w" "p < length (sc_pages s)"
  shows "\<exists>s' w'. poll_page run p (s, w) = Some (s', w') \<and> tasks_ok s' \<and> wok w' \<and> same_tasks s s'"
proof -
  define s1 where "s1 = s\<lparr>sc_pages := (sc_pages s)[p := (sc_pages s ! p)\<lparr>wp_notified := 0, wp_dropped := 0\<rparr>]\<rparr>"
  have fl: "notified k s1 \<longleftrightarrow> k div 64 \<noteq> p \<and> notified k s" "dropped k s1 \<longleftrightarrow> k div 64 \<noteq> p \<and> dropped k s"
    "completed k s1 = completed k s" "live k s1 = live k s" for k
    using assms(3) by (auto simp: s1_def flag_def live_def nth_list_update)
  have "tasks_ok s1"
    using assms(1) fl by (auto simp: tasks_ok_def sched_ok_def runnable_def s1_def)
  moreover have "\<forall>k\<in>set (page_keys p s). live k s1 \<and> \<not> completed k s1"
    using set_page_keys [OF assms(3)] assms(1) fl(3,4) by (auto simp: tasks_ok_def sched_ok_def runnable_def)
  moreover have "distinct (page_keys p s)"
    using sorted_page_keys strict_sorted_iff by blast
  ultimately obtain s2 w2 where s2: "poll_tasks run (page_keys p s) (s1, w) = Some (s2, w2)" "tasks_ok s2" "wok w2" "same_tasks s1 s2"
    using poll_tasks_step [of s1 w "page_keys p s"] assms(2) by blast
  have "\<not> bit (wp_dropped (sc_pages s ! p)) ix" for ix
  proof
    assume b: "bit (wp_dropped (sc_pages s ! p)) ix"
    then have "ix < 64"
      using bit_imp_le_length [of "wp_dropped (sc_pages s ! p)" ix] by simp
    then have "dropped (p * 64 + ix) s"
      using b assms(3) by (simp add: flag_def)
    then show False
      using assms(1) by (simp add: tasks_ok_def)
  qed
  then have "bit_iter (wp_dropped (sc_pages s ! p)) = []"
    by (simp add: bit_iter_def)
  then have "poll_page run p (s, w) = Some (s2, w2)"
    using assms(3) s2(1) by (simp add: poll_page_def take_notified_def take_dropped_def page_keys_def s1_def)
  moreover have "same_tasks s s1"
    by (simp add: same_tasks_def s1_def)
  ultimately show ?thesis
    using s2 same_tasks_trans by blast
qed

lemma poll_pages_step:
  assumes "tasks_ok s" "wok w" "\<forall>p\<in>set ps. p < length (sc_pages s)"
  shows "\<exists>s' w'. poll_pages run ps (s, w) = Some (s', w') \<and> tasks_ok s' \<and> wok w' \<and> same_tasks s s'"
  using assms
proof (induction ps arbitrary: s w)
  case (Cons p ps)
  obtain s1 w1 where s1: "poll_page run p (s, w) = Some (s1, w1)" "tasks_ok s1" "wok w1" "same_tasks s s1"
    using poll_page_step [of s w p] Cons.prems by auto
  obtain s2 w2 where "poll_pages run ps (s1, w1) = Some (s2, w2)" "tasks_ok s2" "wok w2" "same_tasks s1 s2"
    using Cons.IH [OF s1(2,3)] Cons.prems(3) s1(4) by (auto simp: same_tasks_def)
  then show ?case
    using s1 same_tasks_trans [OF s1(4)] by auto
qed (simp add: same_tasks_def)

lemma sched_poll_step:
  assumes "tasks_ok s" "wok w"
  shows "\<exists>s' w'. sched_poll run (s, w) = Some (s', w') \<and> tasks_ok s' \<and> wok w' \<and> same_tasks s s'"
  using poll_pages_step [OF assms, of "[0..<length (sc_pages s)]"] by (simp add: sched_poll_def)

lemma insert_step:
  assumes "tasks_ok s" "\<not> fin f"
  shows "sched_insert f s = Ok None \<or> (\<exists>k s'. sched_insert f s = Ok (Some (k, s')) \<and> tasks_ok s' \<and> slab_get k (sc_slab s) = None
    \<and> (\<forall>j. slab_get j (sc_slab s') = (if j = k then Some f else slab_get j (sc_slab s))))"
proof (cases "sched_insert f s = Ok None")
  case False
  obtain k s' where i: "sched_insert f s = Ok (Some (k, s'))" "sched_ok s'" "slab_get k (sc_slab s) = None"
    "\<And>j. slab_get j (sc_slab s') = (if j = k then Some f else slab_get j (sc_slab s))"
    "\<And>j. completed j s' \<longleftrightarrow> j \<noteq> k \<and> completed j s" "\<And>j. dropped j s' = dropped j s"
    using sched_insert_ok [of s f] False assms(1) unfolding tasks_ok_def live_def by blast
  then have "tasks_ok s'"
    using assms by (auto simp: tasks_ok_def split: if_splits)
  with i show ?thesis by auto
qed simp

lemma take_step:
  assumes "tasks_ok s" "slab_get k (sc_slab s) = Some f"
  shows "\<exists>s'. sched_take k s = Some (f, s') \<and> tasks_ok s'
    \<and> (\<forall>j. slab_get j (sc_slab s') = (if j = k then None else slab_get j (sc_slab s)))"
proof -
  have ok: "slab_ok (sc_slab s)" "k div 64 < length (sc_pages s)" "\<not> dropped k s"
    using assms by (auto simp: tasks_ok_def sched_ok_def live_def)
  obtain s1 where s1: "on_page page_clear k s = Some s1"
    using on_page_total [OF ok(2)] by blast
  note fr = on_page_frame [OF s1] and fl = clear_flags [OF s1]
  let ?s = "s1\<lparr>sc_slab := snd (remove_unpin k (sc_slab s))\<rparr>"
  note rm = remove_unpin_eq [OF ok(1), of k]
  have g: "slab_get j (sc_slab ?s) = (if j = k then None else slab_get j (sc_slab s))" for j
    by (simp add: remove_unpin_eq(3) [OF ok(1)])
  have "tasks_ok ?s"
    using assms(1) rm(2) fr fl unfolding tasks_ok_def sched_ok_def live_def runnable_def
    by (auto simp: remove_unpin_eq(3) [OF ok(1)] split: if_splits)
  moreover have "sched_take k s = Some (f, ?s)"
    using s1 ok(2,3) rm(1) assms(2) fr(1)
    by (cases "remove_unpin k (sc_slab s)") (auto simp: sched_take_def page_of_def was_dropped_def flag_def bit_iff_and_push_bit_not_eq_0 push_bit_of_1)
  ultimately show ?thesis
    using g by auto
qed

end

end
