(* ===== verification/Catnap_Safety.thy ===== *)
theory Catnap_Safety
  imports Catnap Self_Waking Stack_Calls
begin

text \<open>
  Sockets of the kernel behind queue descriptors: no call or poll of the library aborts, except where the kernel refuses to bind or to listen; a
  closed descriptor keeps its file descriptor, and gets to the next socket with that number.
\<close>

section \<open>Operations as tasks\<close>

fun op_done :: "catnap_op \<Rightarrow> bool" where
  "op_done (CnAccept _ _ _ r) = (r \<noteq> None)"
| "op_done (CnConnect _ _ _ r) = (r \<noteq> None)"
| "op_done (CnPush _ _ _ r) = (r \<noteq> None)"
| "op_done (CnPushto _ _ _ _ r) = (r \<noteq> None)"
| "op_done (CnPop _ _ r) = (r \<noteq> None)"

text \<open>The descriptor an accept has booked, and whether the result is one a system call can have.\<close>

fun op_name :: "catnap_op \<Rightarrow> qdesc option \<times> bool" where
  "op_name (CnAccept _ _ new_qd r) = (Some new_qd, r \<noteq> Some Panic)"
| "op_name (CnConnect _ _ _ r) = (None, r \<noteq> Some Panic)"
| "op_name (CnPush _ _ _ r) = (None, r \<noteq> Some Panic)"
| "op_name (CnPushto _ _ _ _ r) = (None, r \<noteq> Some Panic)"
| "op_name (CnPop _ _ r) = (None, r \<noteq> Some Panic)"

lemma syscall_poll_cases:
  assumes "syscall_poll key B f call op w = (ready, op', w', calls)"
  shows "kw_aborted w' = kw_aborted w \<and> (ready \<and> (\<exists>r. op' = op (Some r) \<and> r \<noteq> Panic) \<and> calls = [] \<or> \<not> ready \<and> op' = op None \<and> calls = [Wake key])"
  using assms by (auto simp: syscall_poll_def Let_def split: prod.splits sum.splits if_splits)

interpretation cn: self_waking "catnap_poll K" op_done op_name "\<lambda>w. \<not> kw_aborted w" for K :: "'k kernel_ops"
proof
  fix f f' w w' k ready calls
  assume "\<not> op_done f" "\<not> kw_aborted w" "catnap_poll K k f w = (ready, f', w', calls)"
  then show "op_done f' = ready \<and> op_name f' = op_name f \<and> \<not> kw_aborted w' \<and> (calls = [] \<or> calls = [Wake k])"
    by (cases f) (auto dest!: syscall_poll_cases)
qed

lemma get_result_done: "op_done op \<Longrightarrow> snd (op_name op) \<Longrightarrow> \<exists>qd fd r. get_result op = Some (qd, fst (op_name op), fd, r)"
  by (cases op rule: get_result.cases) auto

section \<open>Invariant\<close>

definition names :: "catnap_op scheduler \<Rightarrow> nat \<Rightarrow> (qdesc option \<times> bool) option" where
  "names s k = map_option op_name (slab_get k (sc_slab s))"

definition books :: "(nat \<Rightarrow> (qdesc option \<times> bool) option) \<Rightarrow> nat \<Rightarrow> qdesc \<Rightarrow> bool" where
  "books N k b \<longleftrightarrow> (\<exists>clean. N k = Some (Some b, clean))"

definition clean_names :: "(nat \<Rightarrow> (qdesc option \<times> bool) option) \<Rightarrow> bool" where
  "clean_names N \<longleftrightarrow> (\<forall>k x. N k = Some x \<longrightarrow> snd x)"

definition names_ok :: "(nat \<Rightarrow> u32 option) \<Rightarrow> (qdesc \<Rightarrow> fd option) \<Rightarrow> (nat \<Rightarrow> (qdesc option \<times> bool) option) \<Rightarrow> bool" where
  "names_ok table fds N \<longleftrightarrow>
     dom fds \<subseteq> dom table \<and> clean_names N
     \<and> (\<forall>k b. books N k b \<longrightarrow> b \<in> dom table - dom fds) \<and> (\<forall>k k' b. books N k b \<longrightarrow> books N k' b \<longrightarrow> k = k')"

definition catnap_ok :: "('t \<Rightarrow> nat \<Rightarrow> u32 option) \<Rightarrow> ('t, 'k) catnap \<Rightarrow> bool" where
  "catnap_ok view c \<longleftrightarrow> cn.tasks_ok (cn_scheduler c) \<and> \<not> kw_aborted (cn_world c)
     \<and> names_ok (view (cn_qtable c)) (cn_sockets c) (names (cn_scheduler c))"

lemma books_upd [simp]:
  "books (N(k := None)) j b \<longleftrightarrow> j \<noteq> k \<and> books N j b"
  "books (N(k \<mapsto> (None, cl))) j b \<longleftrightarrow> j \<noteq> k \<and> books N j b"
  "books (N(k \<mapsto> (Some q, cl))) j b \<longleftrightarrow> (if j = k then b = q else books N j b)"
  by (auto simp: books_def)

lemma clean_upd: "clean_names N \<Longrightarrow> clean_names (N(k := None))" "clean_names N \<Longrightarrow> clean_names (N(k \<mapsto> (q, True)))"
  by (auto simp: clean_names_def simp del: split_paired_All)

lemma names_okI:
  assumes "dom fds \<subseteq> dom t" "clean_names N" "\<And>k b. books N k b \<Longrightarrow> b \<in> dom t" "\<And>k b. books N k b \<Longrightarrow> b \<notin> dom fds"
    "\<And>k k' b. books N k b \<Longrightarrow> books N k' b \<Longrightarrow> k = k'"
  shows "names_ok t fds N"
  unfolding names_ok_def using assms by blast

lemma names_okD:
  assumes "names_ok t fds N"
  shows "dom fds \<subseteq> dom t" "clean_names N" "books N k b \<Longrightarrow> b \<in> dom t" "books N k b \<Longrightarrow> b \<notin> dom fds"
    "books N k b \<Longrightarrow> books N k' b \<Longrightarrow> k = k'"
  using assms unfolding names_ok_def by blast+

lemma names_ok_socket:
  assumes "names_ok t fds N" "t q = None"
  shows "fds q = None" "names_ok (t(q \<mapsto> v)) (fds(q \<mapsto> fd)) N" "names_ok (t(q \<mapsto> v)) fds N"
proof -
  have q: "q \<notin> dom t"
    using assms(2) by auto
  then have nb: "\<not> books N k q" for k
    using assms(1) unfolding names_ok_def by blast
  show "fds q = None"
    using assms(1) q unfolding names_ok_def by blast
  show "names_ok (t(q \<mapsto> v)) (fds(q \<mapsto> fd)) N"
    using assms(1) nb unfolding names_ok_def dom_fun_upd by (simp split del: if_split) blast
  show "names_ok (t(q \<mapsto> v)) fds N"
    using assms(1) unfolding names_ok_def dom_fun_upd by (simp split del: if_split) blast
qed

lemma names_ok_insert:
  assumes "names_ok t fds N" "N k = None"
  shows "names_ok t fds (N(k \<mapsto> (None, True)))"
    "t q = None \<Longrightarrow> names_ok (t(q \<mapsto> v)) fds (N(k \<mapsto> (Some q, True)))"
proof -
  note d = names_okD [OF assms(1)]
  show "names_ok t fds (N(k \<mapsto> (None, True)))"
    using d by (intro names_okI clean_upd) (simp_all, blast+)
  assume q: "t q = None"
  then have nb: "\<not> books N j q" for j
    using assms(1) unfolding names_ok_def by blast
  show "names_ok (t(q \<mapsto> v)) fds (N(k \<mapsto> (Some q, True)))"
  proof (rule names_okI)
    show "j = j'" if "books (N(k \<mapsto> (Some q, True))) j b" "books (N(k \<mapsto> (Some q, True))) j' b" for j j' b
      using that nb d(5) by (auto split: if_splits)
    show "b \<notin> dom fds" if "books (N(k \<mapsto> (Some q, True))) j b" for j b
      using that d(4) names_ok_socket(1) [OF assms(1) q] by (auto split: if_splits)
    show "b \<in> dom (t(q \<mapsto> v))" if "books (N(k \<mapsto> (Some q, True))) j b" for j b
      using that d(3) by (auto split: if_splits)
  qed (use d in \<open>auto intro: clean_upd\<close>)
qed

lemma names_ok_take:
  assumes "names_ok t fds N"
  shows "names_ok t fds (N(k := None))"
    "N k = Some (Some b, cl) \<Longrightarrow> names_ok t (fds(b \<mapsto> fd)) (N(k := None))"
    "N k = Some (Some b, cl) \<Longrightarrow> names_ok (t(b := None)) fds (N(k := None))"
proof -
  note d = names_okD [OF assms]
  show "names_ok t fds (N(k := None))"
    using d by (intro names_okI clean_upd) (simp_all, blast+)
  assume "N k = Some (Some b, cl)"
  then have b: "books N k b"
    by (simp add: books_def)
  then have nb: "books N j b \<Longrightarrow> j = k" for j
    using assms unfolding names_ok_def by blast
  have bd: "b \<in> dom t" "b \<notin> dom fds"
    using d(3,4) b by blast+
  show "names_ok t (fds(b \<mapsto> fd)) (N(k := None))"
  proof (rule names_okI)
    show "x \<notin> dom (fds(b \<mapsto> fd))" if "books (N(k := None)) j x" for j x
      using that d(4) nb by (cases "x = b") auto
    show "x \<in> dom t" if "books (N(k := None)) j x" for j x
      using that d(3) [of j x] by simp
  qed (use d bd in \<open>auto intro: clean_upd\<close>)
  show "names_ok (t(b := None)) fds (N(k := None))"
  proof (rule names_okI)
    show "x \<in> dom (t(b := None))" if "books (N(k := None)) j x" for j x
      using that d(3) [of j x] nb [of j] by (cases "x = b") auto
    show "dom fds \<subseteq> dom (t(b := None))"
      using d(1) bd by auto
    show "x \<notin> dom fds" if "books (N(k := None)) j x" for j x
      using that d(4) [of j x] by simp
  qed (use d in \<open>auto intro: clean_upd\<close>)
qed

lemma catnap_new_ok:
  assumes "slab_laws (ce_slab E) view"
  shows "catnap_ok view (catnap_new E s)"
  using assms sched_default_ok
  by (auto simp: catnap_ok_def catnap_new_def cn.tasks_ok_def names_ok_def names_def books_def clean_names_def slab_laws_def sched_default_def flag_def slab_new_get)

section \<open>Calls\<close>

lemma syscall_frame:
  assumes "syscall f c = (r, c')"
  shows "catnap_ok view c' = catnap_ok view c" "cn_sockets c' = cn_sockets c" "cn_qtable c' = cn_qtable c" "cn_scheduler c' = cn_scheduler c"
  using assms by (auto simp: syscall_def catnap_ok_def split: prod.splits)

lemma names_insert:
  assumes "\<And>j. slab_get j (sc_slab s') = (if j = k then Some op else slab_get j (sc_slab s))"
  shows "names s' = (names s)(k \<mapsto> op_name op)"
  using assms by (auto simp: names_def)

lemma schedule_ok:
  assumes "catnap_ok view c" "\<not> op_done op" "op_name op = (None, True)"
  shows "fst (catnap_schedule op c) \<noteq> Panic" "catnap_ok view (snd (catnap_schedule op c))"
proof -
  have t: "cn.tasks_ok (cn_scheduler c)"
    using assms(1) by (simp add: catnap_ok_def)
  note i = cn.insert_step [OF t assms(2)]
  show "fst (catnap_schedule op c) \<noteq> Panic"
    using i by (auto simp: catnap_schedule_def)
  show "catnap_ok view (snd (catnap_schedule op c))"
  proof (cases "sched_insert op (cn_scheduler c) = Ok None")
    case False
    then obtain k s' where k: "sched_insert op (cn_scheduler c) = Ok (Some (k, s'))" "cn.tasks_ok s'"
      "slab_get k (sc_slab (cn_scheduler c)) = None"
      "\<forall>j. slab_get j (sc_slab s') = (if j = k then Some op else slab_get j (sc_slab (cn_scheduler c)))"
      using i by blast
    have "names s' = (names (cn_scheduler c))(k \<mapsto> (None, True))"
      using names_insert [of s' k op] k(4) assms(3) by simp
    then show ?thesis
      using assms(1) k names_ok_insert(1) [of _ _ "names (cn_scheduler c)" k]
      by (auto simp: catnap_schedule_def catnap_ok_def names_def)
  qed (use assms(1) in \<open>simp add: catnap_schedule_def\<close>)
qed

lemma on_socket_ok:
  assumes "catnap_ok view c" "\<And>fd. \<not> op_done (op fd)" "\<And>fd. op_name (op fd) = (None, True)"
  shows "fst (on_socket qd op c) \<noteq> Panic \<and> catnap_ok view (snd (on_socket qd op c))"
  using assms schedule_ok [OF assms(1)] by (auto simp: on_socket_def split: option.splits)

lemma socket_ok:
  assumes "slab_laws (ce_slab E) view" "catnap_ok view c"
  shows "fst (catnap_socket E d ty c) \<noteq> Panic \<and> catnap_ok view (snd (catnap_socket E d ty c))"
proof (cases "d = AF_INET \<and> (ty = SOCK_STREAM \<or> ty = SOCK_DGRAM)")
  case True
  let ?q = "if ty = SOCK_STREAM then TcpSocket else UdpSocket"
  obtain r c1 where c1: "syscall (kn_socket (ce_kernel E) ?q) c = (r, c1)"
    by fastforce
  then have ok1: "catnap_ok view c1"
    using assms(2) syscall_frame(1) [OF c1, of view] by simp
  show ?thesis
  proof (cases r)
    case (Inr fd)
    obtain u c2 where c2: "syscall (\<lambda>s. ((), kn_set_reuseport (ce_kernel E) fd s)) c1 = (u, c2)"
      by (cases "syscall (\<lambda>s. ((), kn_set_reuseport (ce_kernel E) fd s)) c1")
    then have ok2: "catnap_ok view c2"
      using ok1 syscall_frame(1) [OF c2, of view] by simp
    obtain qd t where a: "table_alloc (ce_slab E) (qtype_code TcpSocket) (cn_qtable c2) = (qd, t)"
      by fastforce
    note al = table_alloc_ok [OF assms(1) a]
    have n: "names_ok (view (cn_qtable c2)) (cn_sockets c2) (names (cn_scheduler c2))"
      using ok2 by (simp add: catnap_ok_def)
    show ?thesis
      using True Inr c1 c2 a names_ok_socket(1) [OF n al(1)] names_ok_socket(2) [OF n al(1), of "qtype_code TcpSocket" fd] ok2 al(2)
      by (auto simp: catnap_socket_def catnap_ok_def)
  qed (use True c1 ok1 in \<open>auto simp: catnap_socket_def\<close>)
qed (use assms(2) in \<open>auto simp: catnap_socket_def\<close>)

lemma accept_ok:
  assumes "slab_laws (ce_slab E) view" "catnap_ok view c"
  shows "fst (catnap_accept E qd c) \<noteq> Panic \<and> catnap_ok view (snd (catnap_accept E qd c))"
proof (cases "cn_sockets c qd")
  case (Some fd)
  obtain q t where a: "table_alloc (ce_slab E) (qtype_code TcpSocket) (cn_qtable c) = (q, t)"
    by fastforce
  note al = table_alloc_ok [OF assms(1) a]
  have t: "cn.tasks_ok (cn_scheduler c)" and n: "names_ok (view (cn_qtable c)) (cn_sockets c) (names (cn_scheduler c))"
    using assms(2) by (simp_all add: catnap_ok_def)
  let ?op = "CnAccept qd fd q None"
  note i = cn.insert_step [OF t, of ?op]
  show ?thesis
  proof (cases "sched_insert ?op (cn_scheduler c) = Ok None")
    case True
    have "view (snd (table_free (ce_slab E) q t)) = view (cn_qtable c)"
      using table_free_ok [OF assms(1)] al by (simp add: fun_upd_idem)
    then show ?thesis
      using True Some a assms(2) by (simp add: catnap_accept_def catnap_schedule_def catnap_ok_def)
  next
    case False
    then obtain k s' where k: "sched_insert ?op (cn_scheduler c) = Ok (Some (k, s'))" "cn.tasks_ok s'"
      "slab_get k (sc_slab (cn_scheduler c)) = None"
      "\<forall>j. slab_get j (sc_slab s') = (if j = k then Some ?op else slab_get j (sc_slab (cn_scheduler c)))"
      using i by auto
    have "names s' = (names (cn_scheduler c))(k \<mapsto> (Some q, True))"
      using names_insert [of s' k ?op] k(4) by simp
    then show ?thesis
      using assms(2) Some a k names_ok_insert(2) [OF n, of k q] al
      by (simp add: catnap_accept_def catnap_schedule_def catnap_ok_def names_def)
  qed
qed (use assms(2) in \<open>simp add: catnap_accept_def\<close>)

lemma poll_scheduler_ok:
  assumes "catnap_ok view c"
  shows "\<exists>c'. catnap_poll_scheduler E c = Some c' \<and> catnap_ok view c'"
proof -
  have "cn.tasks_ok (cn_scheduler c)" "\<not> kw_aborted (cn_world c)"
    using assms by (simp_all add: catnap_ok_def)
  then obtain s w where sw: "sched_poll (catnap_poll (ce_kernel E)) (cn_scheduler c, cn_world c) = Some (s, w)" "cn.tasks_ok s"
    "\<not> kw_aborted w" "cn.same_tasks (cn_scheduler c) s"
    using cn.sched_poll_step [of "cn_scheduler c" "cn_world c" "ce_kernel E"] by blast
  then have "names s = names (cn_scheduler c)"
    by (simp add: cn.same_tasks_def names_def fun_eq_iff)
  then show ?thesis
    using sw assms by (simp add: catnap_poll_scheduler_def catnap_ok_def)
qed

lemma take_result_ok:
  assumes "slab_laws (ce_slab E) view" "catnap_ok view c" "live k (cn_scheduler c)" "completed k (cn_scheduler c)"
  shows "\<exists>r c'. catnap_take_result E k c = Some (r, c') \<and> catnap_ok view c'"
proof -
  have t: "cn.tasks_ok (cn_scheduler c)" and n: "names_ok (view (cn_qtable c)) (cn_sockets c) (names (cn_scheduler c))"
    using assms(2) by (simp_all add: catnap_ok_def)
  obtain op where op: "slab_get k (sc_slab (cn_scheduler c)) = Some op"
    using assms(3) by (auto simp: live_def)
  have "op_done op"
    using t op assms(4) by (auto simp: cn.tasks_ok_def)
  moreover have "names (cn_scheduler c) k = Some (op_name op)"
    using op by (simp add: names_def)
  then have "snd (op_name op)"
    using names_okD(2) [OF n] unfolding clean_names_def by blast
  ultimately have d: "op_done op" "snd (op_name op)"
    by blast+
  obtain s where s: "sched_take k (cn_scheduler c) = Some (op, s)" "cn.tasks_ok s"
    "\<forall>j. slab_get j (sc_slab s) = (if j = k then None else slab_get j (sc_slab (cn_scheduler c)))"
    using cn.take_step [OF t op] by blast
  have ns: "names s = (names (cn_scheduler c))(k := None)"
    using s(3) by (auto simp: names_def)
  obtain qd fd r where g: "get_result op = Some (qd, fst (op_name op), fd, r)"
    using get_result_done [OF d] by blast
  show ?thesis
  proof (cases "fst (op_name op)")
    case None
    then show ?thesis
      using s g ns names_ok_take(1) [OF n, of k] assms(2) by (simp add: catnap_take_result_def catnap_ok_def)
  next
    case (Some q)
    then have q: "names (cn_scheduler c) k = Some (Some q, True)"
      using op d(2) by (cases "op_name op") (simp add: names_def)
    then have "cn_sockets c q = None"
      using names_okD(4) [OF n, of k q] by (auto simp: books_def)
    then show ?thesis
      using s g ns Some names_ok_take(2,3) [OF n q] assms(2) table_free_ok [OF assms(1)]
      by (cases fd) (simp_all add: catnap_take_result_def catnap_ok_def)
  qed
qed

section \<open>Runs\<close>

inductive catnap_step :: "('t, 'k) catnap_env \<Rightarrow> ('t, 'k) catnap \<Rightarrow> ('t, 'k) catnap \<Rightarrow> bool" for E where
  catnap_does_socket: "catnap_socket E d ty c = (r, c') \<Longrightarrow> catnap_step E c c'"
| catnap_does_bind: "catnap_bind E qd addr c = (r, c') \<Longrightarrow> catnap_step E c c'"
| catnap_does_listen: "catnap_listen E qd n c = (r, c') \<Longrightarrow> catnap_step E c c'"
| catnap_does_accept: "catnap_accept E qd c = (r, c') \<Longrightarrow> catnap_step E c c'"
| catnap_does_connect: "catnap_connect qd addr c = (r, c') \<Longrightarrow> catnap_step E c c'"
| catnap_does_close: "catnap_close E qd c = (r, c') \<Longrightarrow> catnap_step E c c'"
| catnap_does_push: "catnap_push2 qd data c = (r, c') \<Longrightarrow> catnap_step E c c'"
| catnap_does_pushto: "catnap_pushto2 qd data addr c = (r, c') \<Longrightarrow> catnap_step E c c'"
| catnap_does_pop: "catnap_pop qd c = (r, c') \<Longrightarrow> catnap_step E c c'"
| catnap_does_poll: "catnap_poll_scheduler E c = Some c' \<Longrightarrow> catnap_step E c c'"
| catnap_does_take: "live k (cn_scheduler c) \<Longrightarrow> has_completed k (cn_scheduler c) \<Longrightarrow> catnap_take_result E k c = Some (x, c') \<Longrightarrow> catnap_step E c c'"

lemma simple_calls_ok:
  assumes "catnap_ok view c"
  shows "fst (catnap_connect qd addr c) \<noteq> Panic \<and> catnap_ok view (snd (catnap_connect qd addr c))"
    "fst (catnap_push2 qd data c) \<noteq> Panic \<and> catnap_ok view (snd (catnap_push2 qd data c))"
    "fst (catnap_pushto2 qd data addr c) \<noteq> Panic \<and> catnap_ok view (snd (catnap_pushto2 qd data addr c))"
    "fst (catnap_pop qd c) \<noteq> Panic \<and> catnap_ok view (snd (catnap_pop qd c))"
  using assms on_socket_ok [OF assms]
  by (auto simp: catnap_connect_def catnap_push2_def catnap_pushto2_def catnap_pop_def)

lemma kernel_calls_ok:
  assumes "catnap_ok view c"
  shows "catnap_ok view (snd (catnap_bind E qd addr c))" "catnap_ok view (snd (catnap_listen E qd n c))"
    "fst (catnap_close E qd c) \<noteq> Panic \<and> catnap_ok view (snd (catnap_close E qd c))"
  using assms
  by (auto simp: catnap_bind_def catnap_listen_def catnap_close_def syscall_frame(1) split: option.splits prod.splits sum.splits)

lemma has_completed_flag:
  assumes "catnap_ok view c" "live k (cn_scheduler c)"
  shows "has_completed k (cn_scheduler c) = completed k (cn_scheduler c)"
proof -
  have "k div 64 < length (sc_pages (cn_scheduler c))"
    using assms by (auto simp: catnap_ok_def cn.tasks_ok_def sched_ok_def)
  then show ?thesis
    by (simp add: has_completed_def page_of_def page_has_completed_def flag_def bit_iff_and_push_bit_not_eq_0 push_bit_of_1)
qed

lemma catnap_step_ok:
  assumes "slab_laws (ce_slab E) view" "catnap_step E c c'" "catnap_ok view c"
  shows "catnap_ok view c'"
  using assms(2,3)
proof (induction rule: catnap_step.induct)
  case (catnap_does_take k c x c')
  then show ?case
    using take_result_ok [OF assms(1), of c k] has_completed_flag [of view c k] by auto
next
  case (catnap_does_poll c c')
  then show ?case
    using poll_scheduler_ok [of view c E] by auto
qed (use socket_ok [OF assms(1)] accept_ok [OF assms(1)] simple_calls_ok kernel_calls_ok in \<open>metis snd_conv\<close>)+

text \<open>C37: the library over kernel sockets does not abort. Whatever the kernel answers and in whatever order sockets are made, used and waited for, the
  assertions on its tables hold, no poll of the tasks panics, and every operation that has completed yields a result; the only panics are
  those of bind and listen, exactly when the kernel refuses the call.\<close>

theorem catnap_sound:
  assumes "slab_laws (ce_slab E) view" "(catnap_step E)\<^sup>*\<^sup>* (catnap_new E s0) c"
  shows "fst (catnap_socket E d ty c) \<noteq> Panic \<and> fst (catnap_accept E qd c) \<noteq> Panic \<and> fst (catnap_connect qd addr c) \<noteq> Panic
    \<and> fst (catnap_close E qd c) \<noteq> Panic \<and> fst (catnap_push2 qd data c) \<noteq> Panic \<and> fst (catnap_pushto2 qd data addr c) \<noteq> Panic
    \<and> fst (catnap_pop qd c) \<noteq> Panic \<and> catnap_poll_scheduler E c \<noteq> None
    \<and> (\<forall>k. live k (cn_scheduler c) \<longrightarrow> has_completed k (cn_scheduler c) \<longrightarrow> catnap_take_result E k c \<noteq> None)
    \<and> (fst (catnap_bind E qd addr c) = Panic \<longleftrightarrow>
         (\<exists>fd e. cn_sockets c qd = Some fd \<and> fst (kn_bind (ce_kernel E) fd addr (kw_kernel (cn_world c))) = Inl e))
    \<and> (fst (catnap_listen E qd n c) = Panic \<longleftrightarrow>
         (\<exists>fd e. cn_sockets c qd = Some fd \<and> fst (kn_listen (ce_kernel E) fd n (kw_kernel (cn_world c))) = Inl e))"
proof -
  have ok: "catnap_ok view c"
    using assms(2) by (induction rule: rtranclp_induct) (auto intro: catnap_new_ok [OF assms(1)] catnap_step_ok [OF assms(1)])
  have "catnap_take_result E k c \<noteq> None" if "live k (cn_scheduler c)" "has_completed k (cn_scheduler c)" for k
    using take_result_ok [OF assms(1) ok that(1)] that has_completed_flag [OF ok that(1)] by auto
  moreover have "fst (catnap_bind E qd addr c) = Panic \<longleftrightarrow>
      (\<exists>fd e. cn_sockets c qd = Some fd \<and> fst (kn_bind (ce_kernel E) fd addr (kw_kernel (cn_world c))) = Inl e)"
    by (auto simp: catnap_bind_def syscall_def split: option.splits prod.splits sum.splits)
  moreover have "fst (catnap_listen E qd n c) = Panic \<longleftrightarrow>
      (\<exists>fd e. cn_sockets c qd = Some fd \<and> fst (kn_listen (ce_kernel E) fd n (kw_kernel (cn_world c))) = Inl e)"
    by (auto simp: catnap_listen_def syscall_def split: option.splits prod.splits sum.splits)
  ultimately show ?thesis
    using socket_ok [OF assms(1) ok] accept_ok [OF assms(1) ok] simple_calls_ok [OF ok] kernel_calls_ok(3) [OF ok] poll_scheduler_ok [OF ok, of E]
    by auto
qed

text \<open>C38: a closed descriptor is not forgotten. Close does not take the descriptor out of the tables, and the kernel gives the smallest free number to the next
  socket: after a socket is closed and another one is made that gets its file descriptor, the closed descriptor still works, and data pushed to
  it goes out on the other socket.\<close>

theorem closed_descriptor_aliases:
  assumes "slab_laws (ce_slab E) view" "(catnap_step E)\<^sup>*\<^sup>* (catnap_new E s0) c" "cn_sockets c qd = Some fd"
    "catnap_close E qd c = (Ok (), c1)" "catnap_socket E AF_INET SOCK_STREAM c1 = (Ok qd', c2)"
    "fst (kn_socket (ce_kernel E) TcpSocket (kw_kernel (cn_world c1))) = Inr fd" "data \<noteq> []"
  shows "qd' \<noteq> qd \<and> cn_sockets c2 qd = Some fd \<and> cn_sockets c2 qd' = Some fd
    \<and> catnap_push2 qd data c2 = catnap_schedule (CnPush qd fd data None) c2"
proof -
  have ok: "catnap_ok view c"
    using assms(2) by (induction rule: rtranclp_induct) (auto intro: catnap_new_ok [OF assms(1)] catnap_step_ok [OF assms(1)])
  have s1: "cn_sockets c1 = cn_sockets c" "catnap_ok view c1"
    using assms(3,4) kernel_calls_ok(3) [OF ok, of E qd]
    by (auto simp: catnap_close_def syscall_def split: prod.splits sum.splits)
  have fresh: "cn_sockets c1 qd' = None" "cn_sockets c2 = (cn_sockets c1)(qd' \<mapsto> fd)"
    using assms(5,6) by (auto simp: catnap_socket_def syscall_def split: prod.splits sum.splits if_splits)
  then have "qd' \<noteq> qd"
    using assms(3) s1(1) by auto
  then show ?thesis
    using fresh assms(3,7) s1(1) by (simp add: catnap_push2_def on_socket_def)
qed

section \<open>Witnesses\<close>

text \<open>A kernel that hands out the smallest free number and accepts everything but a second bind; its state is the list of numbers in use.\<close>

fun smallest_from :: "nat \<Rightarrow> nat list \<Rightarrow> nat \<Rightarrow> nat" where
  "smallest_from n used 0 = n"
| "smallest_from n used (Suc i) = (if n \<in> set used then smallest_from (n + 1) used i else n)"

definition new_number :: "nat list \<Rightarrow> nat" where
  "new_number used = smallest_from 3 used (length used)"

definition demo_kernel :: "nat list kernel_ops" where
  "demo_kernel = \<lparr>kn_socket = (\<lambda>_ s. (Inr (new_number s), new_number s # s)), kn_set_reuseport = (\<lambda>_ s. s),
     kn_bind = (\<lambda>_ _ s. (Inl EADDRINUSE, s)), kn_listen = (\<lambda>_ _ s. (Inr (), s)), kn_accept = (\<lambda>_ s. (Inl EAGAIN, s)),
     kn_set_accepted = (\<lambda>_ s. s), kn_connect = (\<lambda>_ _ s. (Inr (), s)), kn_send = (\<lambda>_ d s. (Inr (length d), s)),
     kn_sendto = (\<lambda>_ d _ s. (Inr (length d), s)), kn_recvfrom = (\<lambda>_ _ s. (Inl EAGAIN, s)),
     kn_close = (\<lambda>fd s. (Inr (), removeAll fd s))\<rparr>"

definition demo_catnap_env :: "(u32 option list, nat list) catnap_env" where
  "demo_catnap_env = \<lparr>ce_slab = list_slab, ce_kernel = demo_kernel\<rparr>"

definition demo_catnap :: "(u32 option list, nat list) catnap" where
  "demo_catnap = snd (catnap_socket demo_catnap_env AF_INET SOCK_STREAM (catnap_new demo_catnap_env []))"

lemmas demo_catnap_defs = demo_catnap_def demo_catnap_env_def demo_kernel_def new_number_def catnap_socket_def catnap_new_def syscall_def
  catnap_close_def list_slab_def table_alloc_def AF_INET_def SOCK_STREAM_def

lemma demo_catnap_run: "(catnap_step demo_catnap_env)\<^sup>*\<^sup>* (catnap_new demo_catnap_env []) demo_catnap"
  unfolding demo_catnap_def by (rule r_into_rtranclp) (rule catnap_does_socket, rule surjective_pairing)

lemma demo_catnap_laws: "slab_laws (ce_slab demo_catnap_env) list_view"
  by (simp add: demo_catnap_env_def list_slab_laws)

theorem catnap_sound_witness:
  "catnap_poll_scheduler demo_catnap_env demo_catnap \<noteq> None \<and> fst (catnap_bind demo_catnap_env 0 (7, 80) demo_catnap) = Panic"
proof -
  have "cn_sockets demo_catnap 0 = Some 3"
    by (simp add: demo_catnap_defs)
  moreover have "fst (kn_bind (ce_kernel demo_catnap_env) 3 (7, 80) s) = Inl EADDRINUSE" for s
    by (simp add: demo_catnap_env_def demo_kernel_def)
  ultimately show ?thesis
    using catnap_sound [OF demo_catnap_laws demo_catnap_run, of 0 0 0 "(7, 80)" "[]" 0] by auto
qed

theorem closed_descriptor_aliases_witness:
  "\<exists>c1 c2. catnap_close demo_catnap_env 0 demo_catnap = (Ok (), c1) \<and> catnap_socket demo_catnap_env AF_INET SOCK_STREAM c1 = (Ok 1, c2)
     \<and> cn_sockets c2 0 = Some 3 \<and> cn_sockets c2 1 = Some 3 \<and> catnap_push2 0 [42] c2 = catnap_schedule (CnPush 0 3 [42] None) c2"
proof -
  obtain c1 c2 where c: "catnap_close demo_catnap_env 0 demo_catnap = (Ok (), c1)" "catnap_socket demo_catnap_env AF_INET SOCK_STREAM c1 = (Ok 1, c2)"
    "cn_sockets demo_catnap 0 = Some 3" "fst (kn_socket (ce_kernel demo_catnap_env) TcpSocket (kw_kernel (cn_world c1))) = Inr 3"
    by (simp add: demo_catnap_defs)
  then show ?thesis
    using closed_descriptor_aliases [OF demo_catnap_laws demo_catnap_run c(3,1,2,4), of "[42]"] by auto
qed

end
