(* ===== verification/Spec2Isabelle.thy ===== *)
theory Spec2Isabelle
  imports Receive_Panics Peer_Tables Peer_Migration Arp_Resolution Sched_Poll Ring_Buffer Udp_Tables Icmp_Ping Stack_Udp Timer_Expiry Cubic_Epoch Catnap_Safety
begin

text \<open>
  Capybara is a user-level TCP/IP stack (a fork of the Demikernel's \<^verbatim>\<open>inetstack\<close>) that can move an established TCP
  connection from one server to another while its client keeps talking to it. This development models the stack's own
  logic, from the bytes of a frame to the tables of the TCP peer, and proves what makes it correct. Paths below are
  relative to \<^verbatim>\<open>src/rust/\<close> of the repository; \<^verbatim>\<open>protocols/\<close> stands for \<^verbatim>\<open>inetstack/protocols/\<close>.

  \<^bold>\<open>How the program fits together.\<close> A frame is parsed by the Ethernet layer and goes to the ARP peer or to the IPv4
  layer, which hands its payload to ICMP, UDP or TCP; UDP payloads with a magic number are messages of the migration
  protocol. The TCP peer keeps the tables of sockets and connections. A connection starts in an active or passive open,
  which ends in a control block; the control block owns the receiver, the sender and the timers, and is driven by
  arriving segments, by the application's calls and by background tasks. A migration takes a control block out of the
  tables of one peer, sends its state in fragments over the migration protocol and rebuilds it on another host, where
  the application accepts it as if it were new.

  \<^bold>\<open>Theories.\<close>
  \<^item> \<open>Prelude\<close>: machine types, failures, outcomes, network byte order. \<open>Buffers\<close>: \<^verbatim>\<open>runtime/memory/buffer\<close>.
  \<^item> \<open>Link_Layer\<close>, \<open>Ipv4_Datagram\<close>, \<open>Datagram_Headers\<close>, \<open>Tcp_Segment\<close>: the wire formats of Ethernet, ARP, IPv4, UDP,
    ICMPv4 and TCP (\<^verbatim>\<open>protocols/*/{frame,datagram,segment,header}.rs\<close>): parsers and serializers, checksums, round trips.
  \<^item> \<open>Ttl_Cache\<close>, \<open>Arp_Peer\<close>, \<open>Arp_Resolution\<close>: the cache with a time to live and address resolution (\<^verbatim>\<open>protocols/arp\<close>).
  \<^item> \<open>SeqNumber\<close>, \<open>Rto\<close>, \<open>Tcp_Sender\<close>, \<open>Ctrlblk\<close>, \<open>Background\<close>: an established connection
    (\<^verbatim>\<open>protocols/tcp/established\<close>): sequence numbers, retransmission timeout, send queues, the receive routine, and one poll
    of each background task; a sender that waits for an ARP answer goes on with what it read before. \<open>cb_step\<close> is the step relation of a connection.
  \<^item> \<open>Conn_States\<close>, \<open>Receive_Stream\<close>, \<open>Receive_Panics\<close>, \<open>Conn_Frame\<close>: what holds along every run of a connection: the TCP
    state diagram, in-order delivery of the peer's byte stream, and segments that abort the process.
  \<^item> \<open>Tcp_Config\<close>, \<open>Tcp_Open\<close>, \<open>Tcp_Handshake\<close>: configuration, initial sequence numbers, ephemeral ports
    (\<^verbatim>\<open>runtime/network/config/tcp.rs\<close>, \<^verbatim>\<open>protocols/tcp/isn_generator.rs\<close>, \<^verbatim>\<open>protocols/ip/ephemeral.rs\<close>), the two ways to open a
    connection (\<^verbatim>\<open>active_open.rs\<close>, \<^verbatim>\<open>passive_open.rs\<close>), and the three-way handshake between them.
  \<^item> \<open>Stats\<close>, \<open>Stats_Poll\<close>: the load statistics that decide about migrations (\<^verbatim>\<open>protocols/tcp/stats.rs\<close>).
  \<^item> \<open>Mig_Codec\<close>, \<open>Mig_State\<close>: the state of a connection as a message (the \<^verbatim>\<open>state\<close> modules of \<^verbatim>\<open>tcp/peer.rs\<close>,
    \<^verbatim>\<open>ctrlblk.rs\<close> and \<^verbatim>\<open>sender.rs\<close>): encoders and decoders as interpretations of one codec interface, and the journey of a
    connection through them.
  \<^item> \<open>Tcpmig_Segment\<close>, \<open>Tcpmig_Fragments\<close>, \<open>Tcpmig_Peer\<close>, \<open>Tcpmig_Handshake\<close>: the migration protocol (\<^verbatim>\<open>protocols/tcpmig\<close>):
    segments, fragmentation, the stages of a migration, and a whole migration between two hosts.
  \<^item> \<open>Tcp_Peer\<close>, \<open>Peer_Tables\<close>, \<open>Peer_Migration\<close>: the TCP peer (\<^verbatim>\<open>protocols/tcp/peer.rs\<close>): socket calls, routing,
    migration in and out; the invariant of its tables, and the move of a connection from peer to peer.
  \<^item> \<open>Pin_Slab\<close>, \<open>Scheduler\<close>, \<open>Sched_Poll\<close>: the task scheduler (\<^verbatim>\<open>scheduler/\<close>): the slab that stores tasks as a map, waker
    pages, and polls, which are fair as long as wakers and dropped handles are those of tasks that are there; futures are
    a parameter.
  \<^item> \<open>Ring_Buffer\<close>: the ring buffer of one writer and one reader (\<^verbatim>\<open>collections/ring.rs\<close>, \<^verbatim>\<open>raw_array.rs\<close>), as a bounded queue
    call by call; for a writer and a reader in two threads, correct if accesses take effect in program order, which the
    relaxed atomics of the code do not ask for, and wrong when the two stores of the writer are exchanged.
  \<^item> \<open>Udp_Peer\<close>, \<open>Udp_Tables\<close>: UDP sockets (\<^verbatim>\<open>protocols/udp\<close>): shared queues over a channel that is a parameter, the tables of
    sockets, sending and receiving; their invariant for every pool of ports that \<^verbatim>\<open>CORE_ID\<close> can give, and the one call that breaks
    it; delivery of a datagram from peer to peer.
  \<^item> \<open>Ip_Frame\<close>, \<open>Icmp_Peer\<close>, \<open>Icmp_Ping\<close>: frames that carry IPv4 datagrams, and the ICMPv4 peer (\<^verbatim>\<open>protocols/icmpv4\<close>): echo requests,
    replies in the background, and a ping from host to host.
  \<^item> \<open>Inet_Stack\<close>, \<open>Stack_Calls\<close>, \<open>Stack_Udp\<close>: the entry points (\<^verbatim>\<open>inetstack/mod.rs\<close>, \<^verbatim>\<open>protocols/peer.rs\<close>): dispatch of frames, socket
    calls over the table of descriptors, operations as tasks, background work and waiting; descriptors always agree with
    the sockets of the protocols, and a datagram goes from one application to another.
  \<^item> \<open>Pairing_Heap\<close>, \<open>Heap_Trees\<close>, \<open>Timer\<close>, \<open>Timer_Expiry\<close>: timers (\<^verbatim>\<open>runtime/timer.rs\<close>) over an intrusive pairing heap
    (\<^verbatim>\<open>collections/intrusive/pairing_heap.rs\<close>): the nodes a heap holds as a forest of ordered trees, and timers that fire in
    order through the interface of a queue of minima.
  \<^item> \<open>Linked_List\<close>, \<open>List_Links\<close>, \<open>Watched\<close>, \<open>Watched_Wakeups\<close>: the intrusive lists (\<^verbatim>\<open>collections/intrusive\<close>) as sequences of
    addresses, and the values that wake their watchers (\<^verbatim>\<open>runtime/watched.rs\<close>) as a refinement of a promise without pointers.
  \<^item> \<open>Cubic\<close>, \<open>Cubic_Window\<close>, \<open>Cubic_Epoch\<close>: CUBIC congestion control (\<^verbatim>\<open>tcp/established/congestion_control\<close>) over watched values: no operation
    aborts, fast retransmit, growth of the target windows under every rounding, and the epoch that a timeout does not restart.
  \<^item> \<open>Interop\<close>, \<open>Catnap\<close>, \<open>Self_Waking\<close>, \<open>Catnap_Safety\<close>: results and arrays as C sees them, with pointers into allocations (\<^verbatim>\<open>runtime/types\<close>,
    \<^verbatim>\<open>catnip/interop.rs\<close>), and the library operating system over kernel sockets (\<^verbatim>\<open>catnap\<close>) with the kernel as a parameter: its tasks
    through the interface of tasks that only wake themselves, and the soundness of its tables.
  This theory has the properties that span components: a frame through all layers, and the byte stream of a connection
  across migrations.

  \<^bold>\<open>Modelling conventions.\<close> Rust integers that can overflow are words and wrap, as in the release profile; sizes and
  indices are natural numbers. Times and durations are exact rationals, and so are the \<^verbatim>\<open>f64\<close> values of the timeout
  calculator. \<^verbatim>\<open>Result\<close> is \<open>outcome\<close>, with a third constructor for a panic; an operation that can only return or panic
  yields an \<open>option\<close>; undefined behaviour of unsafe code (\<^verbatim>\<open>Arc::from_raw\<close> of a moved pointer) is \<open>None\<close> as well. Debug assertions are off. Buffers are byte lists (\<open>Buffers\<close> has the windowed representation
  and its refinement). Shared mutable objects are passed as state; hash maps are functions, or association
  lists where the code iterates. What is transmitted is appended to a log, and wakers are numbers. A
  coroutine is a function from its state at one \<^verbatim>\<open>await\<close> to the next; the choice of \<^verbatim>\<open>select!\<close> is a parameter or a
  rule of a step relation, so that properties hold for every interleaving. Code outside the repository is a parameter: the
  CRC, the random numbers, the shuffle of the port pool, the application's serializers. The control block
  uses the default congestion control, none; CUBIC is a component of its own, whose \<^verbatim>\<open>f32\<close> operations round by a parameter. No definition uses fuel: loops end by structure or by a
  measure; loops along pointers, which need not end in a broken store, are partial functions and shown to return in every
  store that the operations build; the spinning calls of the ring buffer return exactly when there is room or an item.

  \<^bold>\<open>Not modelled.\<close> The other I/O runtimes and library operating systems (\<^verbatim>\<open>catnip\<close>, \<^verbatim>\<open>catcollar\<close>, \<^verbatim>\<open>catpowder\<close>,
  \<^verbatim>\<open>demikernel\<close>, \<^verbatim>\<open>pal\<close>) wrap DPDK, io_uring and raw sockets; logging and profiling have no effect on the state;
  the P4 switch and the examples are not part of the stack.
\<close>

section \<open>A segment on the wire\<close>

lemma tcp_parse_ip_cong:
  assumes "ip_src_addr ip = ip_src_addr ip'" "ip_dst_addr ip = ip_dst_addr ip'"
  shows "tcp_parse ip = tcp_parse ip'"
proof -
  have eq: "tcp_checksum ip = tcp_checksum ip'"
    using assms by (simp add: fun_eq_iff tcp_checksum_def pseudo_header_sum_def)
  show ?thesis
    by (intro ext) (simp only: tcp_parse_def eq)
qed

text \<open>C11: the frame a control block hands to the network runtime is understood by the receive path of the
  peer: the three headers, written one after the other in front of the body, are parsed back layer by
  layer, the IPv4 layer strips the link padding, and TCP recovers header, options and data.\<close>

theorem frame_roundtrip:
  assumes "tcp_header_wf (tcp_hdr s)" "length buf = seg_header_size s"
    and "ipv4_sendable (ipv4_hdr s) (tcp_compute_size (tcp_hdr s) + seg_body_size s)"
    and "tx_checksum_offload s \<longrightarrow> rx_offload"
  shows "\<exists>bs ip_buf ip tcp_buf. seg_write_header s buf = Some bs
    \<and> eth_parse (bs @ (case seg_data s of Some d \<Rightarrow> d | None \<Rightarrow> []) @ padding) = Ok (ethernet2_hdr s, ip_buf)
    \<and> ipv4_parse ip_buf = Ok (ip, tcp_buf)
    \<and> ip_src_addr ip = ip_src_addr (ipv4_hdr s) \<and> ip_dst_addr ip = ip_dst_addr (ipv4_hdr s)
    \<and> ip_protocol ip = ip_protocol (ipv4_hdr s)
    \<and> tcp_parse ip tcp_buf rx_offload = Ok (tcp_hdr s, case seg_data s of Some d \<Rightarrow> d | None \<Rightarrow> [])"
proof -
  define n where "n = tcp_compute_size (tcp_hdr s)"
  define body where "body = (case seg_data s of Some d \<Rightarrow> d | None \<Rightarrow> [])"
  have bs: "seg_body_size s = length body"
    by (simp add: seg_body_size_def body_def split: option.split)
  have len: "length buf = 34 + n"
    using assms(2) by (simp add: seg_header_size_def ETHERNET2_HEADER_SIZE_def IPV4_HEADER_MIN_SIZE_def n_def)
  obtain t where t: "tcp_serialize (tcp_hdr s) (slice 34 (34 + n) buf) (ipv4_hdr s) body (tx_checksum_offload s) = Some t"
    "length t = n" "tcp_parse (ipv4_hdr s) (t @ body) rx_offload = Ok (tcp_hdr s, body)"
  proof -
    have l: "length (slice 34 (34 + n) buf) = tcp_compute_size (tcp_hdr s)"
      using len by (simp add: n_def)
    obtain c where c: "tcp_checksum (ipv4_hdr s) (tcp_fixed_wire (tcp_hdr s) 0 0 @ tcp_opt_wire (tcp_hdr s)) body = Some c"
      and ser: "tcp_serialize (tcp_hdr s) (slice 34 (34 + n) buf) (ipv4_hdr s) body (tx_checksum_offload s) =
        Some (tcp_fixed_wire (tcp_hdr s) (if tx_checksum_offload s then 0 else ucast (drop_bit 8 c))
          (if tx_checksum_offload s then 0 else ucast c) @ tcp_opt_wire (tcp_hdr s))"
      using tcp_serialize_wire [OF l] by blast
    have "tcp_parse (ipv4_hdr s) (tcp_fixed_wire (tcp_hdr s) (if tx_checksum_offload s then 0 else ucast (drop_bit 8 c))
          (if tx_checksum_offload s then 0 else ucast c) @ tcp_opt_wire (tcp_hdr s) @ body) rx_offload = Ok (tcp_hdr s, body)"
      by (rule tcp_parse_wire [OF assms(1)]) (use assms(4) c in auto)
    then show thesis
      using that [OF ser] tcp_compute_size_bounds(3) [of "tcp_hdr s"] by (simp add: n_def)
  qed
  define pl where "pl = t @ body"
  have pl: "length pl = n + seg_body_size s"
    using t(2) by (simp add: pl_def bs)
  obtain e w ip where f: "eth_serialize (ethernet2_hdr s) (slice 0 14 buf) = Some e"
    "ipv4_serialize (ipv4_hdr s) (slice 14 34 buf) (n + seg_body_size s) = Some w"
    "eth_parse (e @ w @ pl @ padding) = Ok (ethernet2_hdr s, w @ pl @ padding)" "ipv4_parse (w @ pl @ padding) = Ok (ip, pl)"
    "ip_src_addr ip = ip_src_addr (ipv4_hdr s)" "ip_dst_addr ip = ip_dst_addr (ipv4_hdr s)" "ip_protocol ip = ip_protocol (ipv4_hdr s)"
    using ip_frame [of "ipv4_hdr s" pl buf "ethernet2_hdr s" padding] assms(3) len pl by (auto simp: n_def)
  have "seg_write_header s buf = Some (e @ w @ t)"
    using len f(1,2) t(1) by (simp add: seg_write_header_def n_def [symmetric] body_def [symmetric])
  moreover have "eth_parse ((e @ w @ t) @ body @ padding) = Ok (ethernet2_hdr s, w @ pl @ padding)"
    using f(3) by (simp add: pl_def)
  moreover have "tcp_parse ip pl rx_offload = Ok (tcp_hdr s, body)"
    using t(3) tcp_parse_ip_cong [OF f(5,6)] by (simp add: pl_def)
  ultimately show ?thesis
    using f(4-7) unfolding body_def [symmetric] by fastforce
qed

theorem frame_roundtrip_witness:
  "\<exists>bs ip_buf ip tcp_buf. seg_write_header \<lparr>ethernet2_hdr = eth_new (Mac 1 2 3 4 5 6) (Mac 7 8 9 10 11 12) Ipv4,
      ipv4_hdr = ipv4_new 0x0A000108 0x0A000109 TCP, tcp_hdr = tcp_new 80 5000, seg_data = Some [1, 2, 3],
      tx_checksum_offload = False\<rparr> (replicate 54 0) = Some bs
    \<and> eth_parse (bs @ [1, 2, 3] @ [0, 0, 0]) = Ok (eth_new (Mac 1 2 3 4 5 6) (Mac 7 8 9 10 11 12) Ipv4, ip_buf)
    \<and> ipv4_parse ip_buf = Ok (ip, tcp_buf) \<and> ip_src_addr ip = 0x0A000108 \<and> ip_dst_addr ip = 0x0A000109
    \<and> ip_protocol ip = TCP \<and> tcp_parse ip tcp_buf False = Ok (tcp_new 80 5000, [1, 2, 3])"
proof -
  let ?s = "\<lparr>ethernet2_hdr = eth_new (Mac 1 2 3 4 5 6) (Mac 7 8 9 10 11 12) Ipv4,
      ipv4_hdr = ipv4_new 0x0A000108 0x0A000109 TCP, tcp_hdr = tcp_new 80 5000, seg_data = Some [1, 2, 3],
      tx_checksum_offload = False\<rparr>"
  have "tcp_compute_size (tcp_new 80 5000) = 20"
    by (simp add: tcp_compute_size_def tcp_new_def MIN_TCP_HEADER_SIZE_def)
  then show ?thesis
    using frame_roundtrip [of ?s "replicate 54 0" False "[0, 0, 0]"]
    by (simp add: tcp_header_wf_def seg_header_size_def seg_body_size_def ipv4_sendable_def ipv4_new_def
        ETHERNET2_HEADER_SIZE_def IPV4_HEADER_MIN_SIZE_def MAX_TCP_HEADER_SIZE_def)
      (simp add: tcp_new_def MAX_TCP_OPTIONS_def)
qed

section \<open>The stream across migrations\<close>

text \<open>The life of a connection from its establishment on: operations and background tasks on the host that has it,
  and moves to another host, which takes it over under an address of its own.\<close>

inductive conn_life :: "ctrl_block \<Rightarrow> cb_event list \<Rightarrow> ctrl_block \<Rightarrow> bool" for cb0 where
  life_starts: "conn_life cb0 [] cb0"
| life_step: "conn_life cb0 es cb \<Longrightarrow> cb_step cb e cb' \<Longrightarrow> conn_life cb0 (es @ [e]) cb'"
| life_moves: "conn_life cb0 es cb \<Longrightarrow> migratable cb \<Longrightarrow> migrate_journey now link off arp d cb = Some cb' \<Longrightarrow>
    conn_life cb0 es (cb'\<lparr>cb_local := l\<rparr>)"

lemma rx_inv_moves:
  assumes "rx_inv irs S es cb" "migratable cb" "migrate_journey now link off arp d cb = Some cb'"
  shows "rx_inv irs S es (cb'\<lparr>cb_local := l\<rparr>)"
proof -
  have cb': "rx_core cb' = rx_core cb" "cb_state cb' = Established"
    using migrate_journey_ok [OF assms(2), of now link off arp d] assms(3) by auto
  moreover have "rx_core (cb'\<lparr>cb_local := l\<rparr>) = rx_core cb'"
    by (simp add: rx_core_def)
  ultimately show ?thesis
    using assms(1) rx_ok_state [of irs S "reads es" "rx_core cb" "cb_state cb" Established]
    by (simp add: rx_inv_def fin_seen_def)
qed

lemma rx_inv_life:
  assumes "conn_life cb0 es cb" "rx_inv irs S [] cb0" "list_all (from_stream irs S) es"
  shows "rx_inv irs S es cb"
  using assms by (induction rule: conn_life.induct) (auto intro: rx_stream.preserved rx_inv_moves)

text \<open>C3: in-order delivery survives migration. However often a connection moves between hosts, and whatever
  arrives, is read, sent or times out in between, what the application has read on all of the hosts together,
  followed by what is queued for it on the last one, is a prefix of the stream the remote peer sends, and
  RCV.NXT stands right after it (or after the FIN that ends the stream).\<close>

theorem stream_across_migrations:
  assumes "fresh_rx irs cb0" "conn_life cb0 es cb" "length S + 2 < 2 ^ 32" "list_all (from_stream irs S) es"
  shows "\<exists>n. n \<le> length S \<and> reads es @ concat (recv_queue (cb_receiver cb)) = take n S
    \<and> (receive_next (cb_receiver cb) = irs + of_nat n
       \<or> n = length S \<and> receive_next (cb_receiver cb) = irs + of_nat n + 1)"
  using rx_inv_position [OF rx_inv_life [OF assms(2) fresh_rx_inv [OF assms(1,3)] assms(4)]] .

theorem stream_across_migrations_witness:
  "\<exists>cb. conn_life demo_cb [Receive (demo_hdr 1002) [3, 4], Receive (demo_hdr 1000) [1, 2]] cb \<and> cb_local cb = (9, 10001)
    \<and> recv_queue (cb_receiver cb) = [[1, 2], [3, 4]]
    \<and> (\<exists>n. n \<le> length [1, 2, 3, 4 :: u8]
      \<and> reads [Receive (demo_hdr 1002) [3, 4], Receive (demo_hdr 1000) [1, 2]] @ concat (recv_queue (cb_receiver cb))
         = take n [1, 2, 3, 4])"
proof -
  let ?es = "[Receive (demo_hdr 1002) [3, 4], Receive (demo_hdr 1000) [1, 2]]"
  obtain cb1 cb2 where c: "cb_receive (demo_hdr 1002) [3, 4] demo_cb = Some cb1" "cb_receive (demo_hdr 1000) [1, 2] cb1 = Some cb2"
    and q: "recv_queue (cb_receiver cb2) = [[1, 2], [3, 4]]" "out_of_order cb2 = []" "cb_sender cb2 = cb_sender demo_cb"
    using demo_received by blast
  have mig: "migratable cb2"
    using q by (simp add: migratable_def) (simp add: demo_cb_def cb_new_def sender_new_def)
  obtain cb3 where cb3: "migrate_journey 7 (Mac 9 9 9 9 9 9) True (\<lambda>_. None) 1 cb2 = Some cb3" "rx_core cb3 = rx_core cb2"
    using migrate_journey_ok [OF mig] by blast
  have "conn_life demo_cb (([] @ [Receive (demo_hdr 1002) [3, 4]]) @ [Receive (demo_hdr 1000) [1, 2]]) cb2"
    using c by (blast intro: life_starts life_step step_receive)
  then have life: "conn_life demo_cb ?es (cb3\<lparr>cb_local := (9, 10001)\<rparr>)"
    using life_moves [OF _ mig cb3(1)] by simp
  have "\<exists>n. n \<le> length [1, 2, 3, 4 :: u8]
      \<and> reads ?es @ concat (recv_queue (cb_receiver (cb3\<lparr>cb_local := (9, 10001)\<rparr>))) = take n [1, 2, 3, 4]
      \<and> (receive_next (cb_receiver (cb3\<lparr>cb_local := (9, 10001)\<rparr>)) = 1000 + of_nat n
       \<or> n = length [1, 2, 3, 4 :: u8] \<and> receive_next (cb_receiver (cb3\<lparr>cb_local := (9, 10001)\<rparr>)) = 1000 + of_nat n + 1)"
    by (intro stream_across_migrations [OF _ life _ demo_stream]) (simp_all add: demo_cb_def fresh_rx_new)
  moreover have "recv_queue (cb_receiver (cb3\<lparr>cb_local := (9, 10001)\<rparr>)) = [[1, 2], [3, 4]]"
    using cb3(2) q(1) by (simp add: rx_core_def)
  ultimately show ?thesis
    using life by (intro exI [of _ "cb3\<lparr>cb_local := (9, 10001)\<rparr>"]) auto
qed

end
